(* ===== verification/Prelude.thy ===== *)
theory Prelude
  imports Main "HOL-Library.List_Lexorder" "HOL-Library.Char_ord" "HOL-Library.Product_Lexorder"
    "HOL-Library.Option_ord" "HOL-Library.Multiset"
begin

text \<open>
  The vocabulary every component shares: Rust's machine integers with their wrap-around,
  saturation and checked operations written out, the \<open>str\<close> operations the code calls
  (on byte strings), \<open>Ordering\<close> and stable sorting.

  \<^item> \<open>u64\<close> and \<open>u32\<close> are \<open>nat\<close>, \<open>i64\<close> is \<open>int\<close>; a value of the program lies in the range
    that \<open>is_u64\<close>, \<open>is_u32\<close> or \<open>is_i64\<close> states. Arithmetic is that of the release profile of
    Cargo.toml, which leaves overflow checks off: plain operators wrap.
  \<^item> A Rust \<open>str\<close> is its byte sequence, a \<open>string\<close>; white space is ASCII white space.
  \<^item> The orders on strings, pairs and options of the imported library theories are those Rust
    derives: byte-lexicographic, lexicographic, and \<open>None\<close> below every \<open>Some\<close>.
\<close>

section \<open>Collections of facts\<close>

named_theorems machine_simps \<open>reading wrap-around and saturating operations inside their range\<close>
named_theorems str_simps \<open>what the string operations do on concatenations\<close>

section \<open>Machine integers\<close>

type_synonym u64 = nat
type_synonym u32 = nat
type_synonym i64 = int

abbreviation u64_max :: nat where "u64_max \<equiv> 18446744073709551615"
abbreviation u32_max :: nat where "u32_max \<equiv> 4294967295"
abbreviation i64_max :: int where "i64_max \<equiv> 9223372036854775807"
abbreviation i64_min :: int where "i64_min \<equiv> -9223372036854775808"

definition is_u64 :: "nat \<Rightarrow> bool" where "is_u64 n \<longleftrightarrow> n \<le> u64_max"
definition is_u32 :: "nat \<Rightarrow> bool" where "is_u32 n \<longleftrightarrow> n \<le> u32_max"
definition is_i64 :: "int \<Rightarrow> bool" where "is_i64 x \<longleftrightarrow> i64_min \<le> x \<and> x \<le> i64_max"

text \<open>Two's-complement wrap-around of a mathematical result back into the type's range.\<close>

definition wrap_i64 :: "int \<Rightarrow> i64" where
  "wrap_i64 x = (x + 9223372036854775808) mod 18446744073709551616 - 9223372036854775808"

definition wrap_u64 :: "nat \<Rightarrow> u64" where
  "wrap_u64 n = n mod 18446744073709551616"

text \<open>The casts \<open>u64 as i64\<close> and \<open>i64 as u64\<close>, which reinterpret the bits.\<close>

definition u64_as_i64 :: "u64 \<Rightarrow> i64" where
  "u64_as_i64 n = wrap_i64 (int n)"

definition i64_as_u64 :: "i64 \<Rightarrow> u64" where
  "i64_as_u64 x = nat (x mod 18446744073709551616)"

definition sat_add_u64 :: "u64 \<Rightarrow> u64 \<Rightarrow> u64" where
  "sat_add_u64 a b = min (a + b) u64_max"

definition sat_mul_u64 :: "u64 \<Rightarrow> u64 \<Rightarrow> u64" where
  "sat_mul_u64 a b = min (a * b) u64_max"

text \<open>\<open>saturating_sub\<close> on an unsigned type stops at zero, as subtraction on \<open>nat\<close> does.\<close>

definition sat_sub_u64 :: "u64 \<Rightarrow> u64 \<Rightarrow> u64" where
  "sat_sub_u64 a b = a - b"

definition sat_add_u32 :: "u32 \<Rightarrow> u32 \<Rightarrow> u32" where
  "sat_add_u32 a b = min (a + b) u32_max"

definition sat_sub_i64 :: "i64 \<Rightarrow> i64 \<Rightarrow> i64" where
  "sat_sub_i64 a b = max i64_min (min i64_max (a - b))"

definition sat_add_i64 :: "i64 \<Rightarrow> i64 \<Rightarrow> i64" where
  "sat_add_i64 a b = max i64_min (min i64_max (a + b))"

definition checked_mul_i64 :: "i64 \<Rightarrow> i64 \<Rightarrow> i64 option" where
  "checked_mul_i64 a b = (if is_i64 (a * b) then Some (a * b) else None)"

definition checked_mul_u64 :: "u64 \<Rightarrow> u64 \<Rightarrow> u64 option" where
  "checked_mul_u64 a b = (if is_u64 (a * b) then Some (a * b) else None)"

text \<open>\<open>1u64.checked_shl(n)\<close>: \<open>None\<close> only when the shift amount reaches the width.\<close>

definition checked_shl_one :: "u32 \<Rightarrow> u64 option" where
  "checked_shl_one n = (if n < 64 then Some (2 ^ n) else None)"

text \<open>\<open>i64::abs_diff\<close> has an unsigned result and never overflows.\<close>

definition abs_diff_i64 :: "i64 \<Rightarrow> i64 \<Rightarrow> u64" where
  "abs_diff_i64 a b = nat \<bar>a - b\<bar>"

lemma wrap_i64_id [machine_simps]: "is_i64 x \<Longrightarrow> wrap_i64 x = x"
  by (simp add: is_i64_def wrap_i64_def)

lemma wrap_i64_range: "is_i64 (wrap_i64 x)"
proof -
  have "0 \<le> (x + 9223372036854775808) mod 18446744073709551616"
    and "(x + 9223372036854775808) mod 18446744073709551616 < 18446744073709551616"
    by simp_all
  then show ?thesis by (simp add: is_i64_def wrap_i64_def)
qed

lemma wrap_u64_id [machine_simps]: "is_u64 n \<Longrightarrow> wrap_u64 n = n"
  by (simp add: is_u64_def wrap_u64_def)

lemma u64_as_i64_id [machine_simps]: "n \<le> 9223372036854775807 \<Longrightarrow> u64_as_i64 n = int n"
  by (simp add: u64_as_i64_def wrap_i64_def)

lemma u64_as_i64_negative:
  assumes "9223372036854775808 \<le> n" "is_u64 n"
  shows "u64_as_i64 n = int n - 18446744073709551616"
proof -
  have "(int n + 9223372036854775808) mod 18446744073709551616 =
      (int n - 9223372036854775808) mod 18446744073709551616"
    using minus_mod_self2 [of "int n + 9223372036854775808" 18446744073709551616] by simp
  also have "\<dots> = int n - 9223372036854775808"
    using assms by (intro mod_pos_pos_trivial) (auto simp: is_u64_def)
  finally show ?thesis by (simp add: u64_as_i64_def wrap_i64_def)
qed

lemma i64_as_u64_id [machine_simps]: "0 \<le> x \<Longrightarrow> is_i64 x \<Longrightarrow> i64_as_u64 x = nat x"
  by (simp add: i64_as_u64_def is_i64_def)

lemma sat_sub_i64_id [machine_simps]: "is_i64 (a - b) \<Longrightarrow> sat_sub_i64 a b = a - b"
  by (simp add: sat_sub_i64_def is_i64_def)

lemma sat_add_u64_id [machine_simps]: "is_u64 (a + b) \<Longrightarrow> sat_add_u64 a b = a + b"
  by (simp add: sat_add_u64_def is_u64_def)

lemma sat_mul_u64_id [machine_simps]: "is_u64 (a * b) \<Longrightarrow> sat_mul_u64 a b = a * b"
  by (simp add: sat_mul_u64_def is_u64_def)

lemma sat_range [simp]: "is_u64 (sat_add_u64 a b)" "is_u64 (sat_mul_u64 a b)"
  by (simp_all add: sat_add_u64_def sat_mul_u64_def is_u64_def)

lemma sat_mul_u64_mono: "a \<le> b \<Longrightarrow> sat_mul_u64 c a \<le> sat_mul_u64 c b"
  by (simp add: sat_mul_u64_def min.coboundedI1 mult_le_mono2)

section \<open>Orderings and stable sorting\<close>

text \<open>\<open>std::cmp::Ordering\<close>, its \<open>then_with\<close>, and the comparison a derived \<open>Ord\<close> makes.\<close>

datatype rust_ordering = Less | Equal | Greater

definition cmp_ord :: "'a::linorder \<Rightarrow> 'a \<Rightarrow> rust_ordering" where
  "cmp_ord a b = (if a < b then Less else if a = b then Equal else Greater)"

fun then_with :: "rust_ordering \<Rightarrow> rust_ordering \<Rightarrow> rust_ordering" where
  "then_with Equal o2 = o2"
| "then_with o1 o2 = o1"

text \<open>\<open>slice::sort_by\<close> is a stable sort: insertion after every element not greater.\<close>

fun insert_by :: "('a \<Rightarrow> 'a \<Rightarrow> rust_ordering) \<Rightarrow> 'a \<Rightarrow> 'a list \<Rightarrow> 'a list" where
  "insert_by cmp x [] = [x]"
| "insert_by cmp x (y # ys) =
     (if cmp x y = Greater then y # insert_by cmp x ys else x # y # ys)"

definition sort_by :: "('a \<Rightarrow> 'a \<Rightarrow> rust_ordering) \<Rightarrow> 'a list \<Rightarrow> 'a list" where
  "sort_by cmp xs = foldr (insert_by cmp) xs []"

lemma mset_insert_by [simp]: "mset (insert_by cmp x ys) = add_mset x (mset ys)"
  by (induction ys) auto

lemma set_insert_by [simp]: "set (insert_by cmp x ys) = insert x (set ys)"
  by (induction ys) auto

lemma mset_sort_by [simp]: "mset (sort_by cmp xs) = mset xs"
  by (induction xs) (simp_all add: sort_by_def)

lemma set_sort_by [simp]: "set (sort_by cmp xs) = set xs"
  by (metis mset_sort_by set_mset_mset)

lemma length_sort_by [simp]: "length (sort_by cmp xs) = length xs"
  by (metis mset_sort_by size_mset)

lemma cmp_ord_simps [simp]:
  "cmp_ord a b = Less \<longleftrightarrow> a < b" "cmp_ord a b = Equal \<longleftrightarrow> a = b" "cmp_ord a b = Greater \<longleftrightarrow> b < a"
  by (auto simp: cmp_ord_def)

text \<open>
  What \<open>sort_by\<close> relies on: a comparison that is a total preorder. The standard library states
  the same requirement; every comparator of the model is an instance.
\<close>

locale comparator =
  fixes cmp :: "'a \<Rightarrow> 'a \<Rightarrow> rust_ordering"
  assumes cmp_flip: "cmp a b = Greater \<longleftrightarrow> cmp b a = Less"
    and cmp_refl: "cmp a a = Equal"
    and cmp_le_trans: "cmp a b \<noteq> Greater \<Longrightarrow> cmp b c \<noteq> Greater \<Longrightarrow> cmp a c \<noteq> Greater"
begin

lemma sorted_insert_by:
  "sorted_wrt (\<lambda>a b. cmp a b \<noteq> Greater) ys \<Longrightarrow>
   sorted_wrt (\<lambda>a b. cmp a b \<noteq> Greater) (insert_by cmp x ys)"
proof (induction ys)
  case Nil
  then show ?case by simp
next
  case (Cons y ys)
  show ?case
  proof (cases "cmp x y = Greater")
    case True
    then have "cmp y x \<noteq> Greater" using cmp_flip by force
    with Cons True show ?thesis by auto
  next
    case False
    with Cons show ?thesis using cmp_le_trans by fastforce
  qed
qed

lemma sorted_sort_by: "sorted_wrt (\<lambda>a b. cmp a b \<noteq> Greater) (sort_by cmp xs)"
  by (induction xs) (simp_all add: sort_by_def sorted_insert_by)

lemma insert_by_in_front:
  "\<forall>y \<in> set ys. cmp x y \<noteq> Greater \<Longrightarrow> insert_by cmp x ys = x # ys"
  by (cases ys) auto

lemma sort_by_id:
  "sorted_wrt (\<lambda>a b. cmp a b \<noteq> Greater) xs \<Longrightarrow> sort_by cmp xs = xs"
proof (induction xs)
  case Nil
  then show ?case by (simp add: sort_by_def)
next
  case (Cons x xs)
  then have "sort_by cmp xs = xs" by simp
  then show ?case using Cons.prems by (simp add: sort_by_def insert_by_in_front)
qed

text \<open>Where ties are equal elements, the sorted list does not depend on the order given.\<close>

lemma sorted_unique:
  assumes "sorted_wrt (\<lambda>a b. cmp a b \<noteq> Greater) xs" "sorted_wrt (\<lambda>a b. cmp a b \<noteq> Greater) ys"
    and "mset xs = mset ys" "\<forall>a\<in>set xs. \<forall>b\<in>set xs. cmp a b = Equal \<longrightarrow> a = b"
  shows "xs = ys"
  using assms
proof (induction xs arbitrary: ys)
  case Nil
  then show ?case by simp
next
  case (Cons x xs)
  obtain y ys' where ys: "ys = y # ys'" using Cons.prems(3) by (cases ys) auto
  have sets: "set (x # xs) = set ys" using Cons.prems(3) by (rule mset_eq_setD)
  have "x = y"
  proof (rule ccontr)
    assume ne: "x \<noteq> y"
    then have "x \<in> set ys'" "y \<in> set xs" using sets ys by auto
    then have "cmp y x \<noteq> Greater" "cmp x y \<noteq> Greater" using Cons.prems(1,2) ys by auto
    then have "cmp x y = Equal"
      using cmp_flip [of x y] cmp_flip [of y x] by (cases "cmp x y"; cases "cmp y x") auto
    then show False using ne Cons.prems(4) sets ys by auto
  qed
  moreover have "xs = ys'" using Cons ys calculation by simp
  ultimately show ?case using ys by simp
qed

lemma sort_by_unique:
  "mset xs = mset ys \<Longrightarrow> \<forall>a\<in>set xs. \<forall>b\<in>set xs. cmp a b = Equal \<longrightarrow> a = b \<Longrightarrow>
   sort_by cmp xs = sort_by cmp ys"
  by (rule sorted_unique) (simp_all add: sorted_sort_by)

lemma sort_by_stable:
  "filter (\<lambda>y. cmp y k = Equal) (sort_by cmp xs) = filter (\<lambda>y. cmp y k = Equal) xs"
proof (induction xs)
  case Nil
  then show ?case by (simp add: sort_by_def)
next
  case (Cons x xs)
  have step: "filter (\<lambda>y. cmp y k = Equal) (insert_by cmp x ys) =
      (if cmp x k = Equal then x # filter (\<lambda>y. cmp y k = Equal) ys
       else filter (\<lambda>y. cmp y k = Equal) ys)" for ys
  proof (induction ys)
    case Nil
    then show ?case by simp
  next
    case (Cons y ys)
    show ?case
    proof (cases "cmp x y = Greater \<and> cmp x k = Equal \<and> cmp y k = Equal")
      case True
      then have "cmp k y \<noteq> Greater" using cmp_flip by force
      then have "cmp x y \<noteq> Greater" using True cmp_le_trans by (metis rust_ordering.distinct(5))
      with True show ?thesis by simp
    next
      case False
      with Cons show ?thesis by auto
    qed
  qed
  from Cons step show ?case by (simp add: sort_by_def)
qed

end

lemma then_with_simps [simp]:
  "then_with a b = Equal \<longleftrightarrow> a = Equal \<and> b = Equal"
  "then_with a b = Less \<longleftrightarrow> a = Less \<or> a = Equal \<and> b = Less"
  "then_with a b = Greater \<longleftrightarrow> a = Greater \<or> a = Equal \<and> b = Greater"
  by (cases a; simp)+

text \<open>Comparing through a key, and comparing by two keys in turn, are comparators.\<close>

interpretation key_order: comparator "\<lambda>a b. cmp_ord (f a) (f b)" for f :: "'a \<Rightarrow> 'b::linorder"
  by unfold_locales (auto simp: cmp_ord_def split: if_splits)

section \<open>Fallible steps\<close>

text \<open>The code's question mark: the first error is the result.\<close>

fun and_then :: "'e + 'a \<Rightarrow> ('a \<Rightarrow> 'e + 'b) \<Rightarrow> 'e + 'b" where
  "and_then (Inl e) f = Inl e"
| "and_then (Inr x) f = f x"

definition ok_or :: "'e \<Rightarrow> 'a option \<Rightarrow> 'e + 'a" where
  "ok_or e v = (case v of None \<Rightarrow> Inl e | Some x \<Rightarrow> Inr x)"

lemma and_then_Inr: "and_then v f = Inr y \<longleftrightarrow> (\<exists>x. v = Inr x \<and> f x = Inr y)"
  by (cases v) simp_all

lemma ok_or_Inr: "ok_or e v = Inr x \<longleftrightarrow> v = Some x"
  by (cases v) (simp_all add: ok_or_def)

section \<open>Aggregation\<close>

text \<open>
  What every total of the code relies on: a combination that is associative and commutative, so
  that the order the parts are folded in does not matter; and, where there is an empty total, a
  neutral start, so that a total can be taken in parts.
\<close>

locale aggregation =
  fixes combine :: "'a \<Rightarrow> 'a \<Rightarrow> 'a"
  assumes combine_assoc: "combine (combine a b) c = combine a (combine b c)"
    and combine_comm: "combine a b = combine b a"
begin

lemma fold_step: "foldl combine (combine a b) xs = combine a (foldl combine b xs)"
  by (induction xs arbitrary: b) (simp_all add: combine_assoc)

lemma fold_order_irrelevant:
  "mset xs = mset ys \<Longrightarrow> foldl combine s xs = foldl combine s ys"
proof (induction xs arbitrary: s ys)
  case Nil
  then show ?case by simp
next
  case (Cons x xs)
  then obtain l r where ys: "ys = l @ x # r"
    by (metis list.set_intros(1) set_mset_mset split_list)
  with Cons.prems have "mset xs = mset (l @ r)" by simp
  then have "foldl combine (combine x s) xs = foldl combine (combine x s) (l @ r)"
    by (rule Cons.IH)
  also have "\<dots> = foldl combine (foldl combine (combine x s) l) r" by simp
  also have "foldl combine (combine x s) l = combine (foldl combine s l) x"
    unfolding fold_step by (rule combine_comm)
  finally show ?case by (simp add: ys combine_comm [of s])
qed

end

locale neutral_aggregation = aggregation combine for combine :: "'a \<Rightarrow> 'a \<Rightarrow> 'a" +
  fixes start :: 'a
  assumes combine_start: "combine start a = a"
begin

lemma fold_append:
  "foldl combine start (xs @ ys) = combine (foldl combine start xs) (foldl combine start ys)"
  using fold_step [of "foldl combine start xs" start ys]
  by (simp add: combine_comm [of _ start] combine_start)

end

section \<open>Ordered sets as ascending lists\<close>

lemma sort_key_Nil: "sort_key f xs = [] \<longleftrightarrow> xs = []"
  by (metis set_empty set_sort)

lemma strict_remdups_adj: "sorted xs \<Longrightarrow> sorted_wrt (<) (remdups_adj xs)"
  for xs :: "'a::linorder list"
proof (induction xs rule: remdups_adj.induct)
  case (3 x y xs)
  then show ?case by (cases "x = y") (auto intro: order.strict_trans2)
qed simp_all

lemma distinct_remdups_adj: "sorted xs \<Longrightarrow> distinct (remdups_adj xs)" for xs :: "'a::linorder list"
  using strict_remdups_adj [of xs] by (simp add: strict_sorted_iff)

lemma remdups_adj_sort_canonical: "remdups_adj (sort xs) = sorted_list_of_set (set xs)" for xs :: "'a::linorder list"
proof -
  have "sorted (remdups_adj (sort xs)) \<and> distinct (remdups_adj (sort xs))"
    using strict_remdups_adj [of "sort xs"] by (simp add: strict_sorted_iff)
  then show ?thesis
    by (intro sorted_distinct_set_unique) (simp_all add: remdups_adj_set)
qed

lemma remdups_adj_sort_set: "set xs = set ys \<Longrightarrow> remdups_adj (sort xs) = remdups_adj (sort ys)" for xs :: "'a::linorder list"
  by (simp add: remdups_adj_sort_canonical)

lemma remdups_adj_sort_key_set:
  fixes f :: "'a \<Rightarrow> 'b::linorder"
  assumes "inj f" "set xs = set ys"
  shows "remdups_adj (sort_key f xs) = remdups_adj (sort_key f ys)"
proof -
  have "map f (sort_key f zs) = sort (map f zs)" for zs
    by (rule properties_for_sort [symmetric]) simp_all
  then have "map f (remdups_adj (sort_key f zs)) = remdups_adj (sort (map f zs))" for zs
    using assms(1) by (metis remdups_adj_map_injective)
  then have "map f (remdups_adj (sort_key f xs)) = map f (remdups_adj (sort_key f ys))"
    using assms(2) by (simp add: remdups_adj_sort_canonical)
  then show ?thesis using assms(1) by (simp add: inj_map_eq_map)
qed

end
