(* ===== verification/Time_Model.thy ===== *)
theory Time_Model
  imports Prelude
begin

text \<open>
  \<open>src/domain/time.rs\<close>, less the calendar: wall-clock instants, monotonic durations and
  instants, the measurement basis, the clock-skew envelope and the age of a reading. The
  newtypes over one integer (\<open>UtcTimestamp\<close>, \<open>ProviderObservedAt\<close>, \<open>ReceivedAt\<close>,
  \<open>MonotonicDuration\<close>, \<open>MonotonicInstant\<close>, \<open>Age\<close>, \<open>ClockSkewEnvelope\<close>) are that integer.
\<close>

section \<open>Instants and durations\<close>

type_synonym utc_timestamp = i64
type_synonym monotonic_duration = u64
type_synonym monotonic_instant = u64
type_synonym clock_skew_envelope = monotonic_duration

definition abs_diff_nanos :: "utc_timestamp \<Rightarrow> utc_timestamp \<Rightarrow> u64" where
  "abs_diff_nanos a b = abs_diff_i64 a b"

definition from_seconds :: "u64 \<Rightarrow> monotonic_duration" where
  "from_seconds s = sat_mul_u64 s 1000000000"

definition from_millis :: "u64 \<Rightarrow> monotonic_duration" where
  "from_millis ms = sat_mul_u64 ms 1000000"

definition duration_since :: "monotonic_instant \<Rightarrow> monotonic_instant \<Rightarrow> monotonic_duration" where
  "duration_since self earlier = sat_sub_u64 self earlier"

text \<open>The offset arithmetic every caller writes: an instant plus a duration cast to \<open>i64\<close>.\<close>

abbreviation plus_nanos :: "utc_timestamp \<Rightarrow> monotonic_duration \<Rightarrow> utc_timestamp" where
  "plus_nanos t d \<equiv> wrap_i64 (t + u64_as_i64 d)"

text \<open>
  A duration is honest as an \<open>i64\<close> when the cast keeps its value; an instant plus such a
  duration is then exact as long as the sum is an \<open>i64\<close>.
\<close>

definition castable :: "monotonic_duration \<Rightarrow> bool" where
  "castable d \<longleftrightarrow> d \<le> 9223372036854775807"

lemma castable_u64_as_i64 [machine_simps]: "castable d \<Longrightarrow> u64_as_i64 d = int d"
  by (simp add: castable_def u64_as_i64_id)

lemma castable_is_u64: "castable d \<Longrightarrow> is_u64 d"
  by (simp add: castable_def is_u64_def)

lemma castable_min [simp]: "castable d \<Longrightarrow> castable (min d e)" "castable e \<Longrightarrow> castable (min d e)"
  by (auto simp: castable_def)

lemma plus_nanos_exact [machine_simps]:
  "castable d \<Longrightarrow> is_i64 (t + int d) \<Longrightarrow> plus_nanos t d = t + int d"
  by (simp add: machine_simps)

section \<open>The age of a reading\<close>

datatype measurement_basis = ProviderObserved | LocallyReceived | OlderOfTheTwo

record clock_anomaly =
  ca_provider_observed :: "utc_timestamp option"
  ca_received :: utc_timestamp
  ca_now :: utc_timestamp

definition skew_anomaly ::
  "utc_timestamp option \<Rightarrow> utc_timestamp \<Rightarrow> clock_skew_envelope \<Rightarrow> bool" where
  "skew_anomaly provider_observed received envelope =
     (case provider_observed of
        None \<Rightarrow> False
      | Some provider \<Rightarrow> provider > received \<and> abs_diff_nanos provider received > envelope)"

definition measurement_time ::
  "utc_timestamp option \<Rightarrow> utc_timestamp \<Rightarrow> measurement_basis \<Rightarrow> utc_timestamp" where
  "measurement_time provider_observed received basis =
     (case basis of
        ProviderObserved \<Rightarrow>
          (case provider_observed of Some p \<Rightarrow> p | None \<Rightarrow> received)
      | LocallyReceived \<Rightarrow> received
      | OlderOfTheTwo \<Rightarrow>
          (case provider_observed of Some p \<Rightarrow> min p received | None \<Rightarrow> received))"

definition age ::
  "utc_timestamp option \<Rightarrow> utc_timestamp \<Rightarrow> measurement_basis \<Rightarrow> utc_timestamp \<Rightarrow>
   clock_skew_envelope \<Rightarrow> clock_anomaly + u64" where
  "age provider_observed received basis now envelope =
     (let anomaly = \<lparr>ca_provider_observed = provider_observed, ca_received = received, ca_now = now\<rparr>
      in if skew_anomaly provider_observed received envelope then Inl anomaly
         else
           let measurement = measurement_time provider_observed received basis
           in if measurement > now then Inl anomaly
              else Inr (abs_diff_i64 now measurement))"

lemma age_Inr_iff:
  "age p r b now env = Inr a \<longleftrightarrow>
     \<not> skew_anomaly p r env \<and> measurement_time p r b \<le> now \<and> int a = now - measurement_time p r b"
  by (auto simp: age_def Let_def abs_diff_i64_def)

lemma age_Inl_iff:
  "(\<exists>e. age p r b now env = Inl e) \<longleftrightarrow> skew_anomaly p r env \<or> now < measurement_time p r b"
  by (auto simp: age_def Let_def)

lemma measurement_time_older:
  "measurement_time p r OlderOfTheTwo \<le> measurement_time p r b"
  by (auto simp: measurement_time_def split: option.splits measurement_basis.splits)

lemma age_is_u64:
  "age p r b now env = Inr a \<Longrightarrow> is_i64 now \<Longrightarrow> is_i64 r \<Longrightarrow> (\<forall>x. p = Some x \<longrightarrow> is_i64 x) \<Longrightarrow> is_u64 a"
  by (auto simp: age_Inr_iff measurement_time_def is_i64_def is_u64_def
      split: option.splits measurement_basis.splits)

text \<open>
  The conservative basis never makes a reading look younger: when \<open>age\<close> answers under any
  basis it also answers under \<open>OlderOfTheTwo\<close>, with an age at least as large. And a later clock
  never makes it younger: the age grows by exactly the time that passed.
\<close>

theorem age_conservative_and_exact:
  assumes "age p r b now env = Inr a" and "now \<le> later"
  shows "(\<exists>a'. age p r OlderOfTheTwo now env = Inr a' \<and> a \<le> a') \<and>
    age p r b later env = Inr (a + nat (later - now))"
proof (intro conjI)
  from assms(1) have ok: "\<not> skew_anomaly p r env" "measurement_time p r b \<le> now"
    and a: "int a = now - measurement_time p r b"
    by (simp_all add: age_Inr_iff)
  let ?m = "measurement_time p r OlderOfTheTwo"
  have m: "?m \<le> measurement_time p r b" by (rule measurement_time_older)
  then have "age p r OlderOfTheTwo now env = Inr (nat (now - ?m))" "a \<le> nat (now - ?m)"
    using ok a by (simp_all add: age_Inr_iff)
  then show "\<exists>a'. age p r OlderOfTheTwo now env = Inr a' \<and> a \<le> a'" by blast
  show "age p r b later env = Inr (a + nat (later - now))"
    using ok a assms(2) by (simp add: age_Inr_iff)
qed

theorem age_conservative_and_exact_witness:
  "(\<exists>a'. age (Some 100) 90 OlderOfTheTwo 150 20 = Inr a' \<and> (50::nat) \<le> a') \<and>
   age (Some 100) 90 ProviderObserved 200 20 = Inr (50 + nat (200 - 150))"
proof -
  have h: "age (Some 100) 90 ProviderObserved 150 20 = Inr 50"
    by (simp add: age_def skew_anomaly_def measurement_time_def abs_diff_nanos_def abs_diff_i64_def)
  show ?thesis
    using age_conservative_and_exact [OF h, of 200] by simp
qed

section \<open>The injected clock\<close>

text \<open>\<open>Clock\<close> as the code's \<open>FakeClock\<close> implements it: two fields, moved by its operations.\<close>

record fake_clock =
  fc_now :: utc_timestamp
  fc_monotonic :: monotonic_instant

definition fake_clock_new :: "utc_timestamp \<Rightarrow> fake_clock" where
  "fake_clock_new now = \<lparr>fc_now = now, fc_monotonic = 0\<rparr>"

definition fake_clock_advance :: "monotonic_duration \<Rightarrow> fake_clock \<Rightarrow> fake_clock" where
  "fake_clock_advance d c =
     c\<lparr>fc_now := plus_nanos (fc_now c) d, fc_monotonic := wrap_u64 (fc_monotonic c + d)\<rparr>"

definition fake_clock_set_now :: "utc_timestamp \<Rightarrow> fake_clock \<Rightarrow> fake_clock" where
  "fake_clock_set_now now c = c\<lparr>fc_now := now\<rparr>"

lemma advance_moves_both:
  assumes "castable d" "is_i64 (fc_now c + int d)" "is_u64 (fc_monotonic c + d)"
  shows "fc_now (fake_clock_advance d c) = fc_now c + int d"
    and "duration_since (fc_monotonic (fake_clock_advance d c)) (fc_monotonic c) = d"
  using assms by (simp_all add: fake_clock_advance_def machine_simps duration_since_def sat_sub_u64_def)

end
