(* ===== verification/Rust_Strings.thy ===== *)
theory Rust_Strings
  imports Prelude
begin

text \<open>
  The operations of Rust's \<open>str\<close> and of its integer parsing and printing that the modelled
  functions call, on byte strings: \<open>strip_prefix\<close>, \<open>split_once\<close>, \<open>split\<close>, \<open>splitn\<close>, \<open>trim\<close>,
  \<open>str::parse\<close> for the integer types and the decimal \<open>Display\<close> of integers with zero padding.
  The lemmas say what each does on a concatenation whose pieces avoid the separator, which is
  how every round trip of the development is proved.
\<close>

section \<open>Characters and digits\<close>

definition is_ws :: "char \<Rightarrow> bool" where
  "is_ws c \<longleftrightarrow> c \<in> {CHR 0x09, CHR 0x0A, CHR 0x0B, CHR 0x0C, CHR 0x0D, CHR 0x20}"

definition digit_value :: "char \<Rightarrow> nat option" where
  "digit_value c =
     (let n = of_char c in if 48 \<le> n \<and> n \<le> (57::nat) then Some (n - 48) else None)"

definition is_ascii_digit :: "char \<Rightarrow> bool" where
  "is_ascii_digit c \<longleftrightarrow> digit_value c \<noteq> None"

definition digit_char :: "nat \<Rightarrow> char" where
  "digit_char d = char_of (48 + d)"

lemma digit_value_char [simp]: "d < 10 \<Longrightarrow> digit_value (digit_char d) = Some d"
  by (simp add: digit_value_def digit_char_def)

lemma is_ascii_digit_char [simp]: "d < 10 \<Longrightarrow> is_ascii_digit (digit_char d)"
  by (simp add: is_ascii_digit_def)

lemma digit_value_bound: "digit_value c = Some d \<Longrightarrow> d < 10"
  by (auto simp: digit_value_def Let_def split: if_splits)

section \<open>Decimal printing and parsing\<close>

fun show_nat :: "nat \<Rightarrow> string" where
  "show_nat n = (if n < 10 then [digit_char n] else show_nat (n div 10) @ [digit_char (n mod 10)])"

declare show_nat.simps [simp del]

definition show_int :: "int \<Rightarrow> string" where
  "show_int i = (if i < 0 then CHR ''-'' # show_nat (nat (- i)) else show_nat (nat i))"

text \<open>\<open>format!("{:0w}", n)\<close>\<close>

definition pad0 :: "nat \<Rightarrow> nat \<Rightarrow> string" where
  "pad0 w n = replicate (w - length (show_nat n)) (CHR ''0'') @ show_nat n"

fun digits_value :: "nat \<Rightarrow> string \<Rightarrow> nat option" where
  "digits_value acc [] = Some acc"
| "digits_value acc (c # cs) =
     (case digit_value c of None \<Rightarrow> None | Some d \<Rightarrow> digits_value (10 * acc + d) cs)"

definition unsigned_body :: "string \<Rightarrow> nat option" where
  "unsigned_body s = (if s = [] then None else digits_value 0 s)"

text \<open>
  \<open>str::parse\<close> for \<open>u64\<close> and \<open>u32\<close> accepts one leading plus sign, rejects an empty digit
  sequence and anything past the type's range.
\<close>

definition parse_unsigned :: "nat \<Rightarrow> string \<Rightarrow> nat option" where
  "parse_unsigned bound s =
     (case unsigned_body (case s of c # cs \<Rightarrow> if c = CHR ''+'' then cs else s | [] \<Rightarrow> s) of
        None \<Rightarrow> None
      | Some n \<Rightarrow> if n \<le> bound then Some n else None)"

definition parse_u64 :: "string \<Rightarrow> u64 option" where "parse_u64 = parse_unsigned u64_max"
definition parse_u32 :: "string \<Rightarrow> u32 option" where "parse_u32 = parse_unsigned u32_max"

definition parse_i64 :: "string \<Rightarrow> i64 option" where
  "parse_i64 s =
     (case s of
        [] \<Rightarrow> None
      | c # cs \<Rightarrow>
          if c = CHR ''-'' then
            (case unsigned_body cs of None \<Rightarrow> None
             | Some n \<Rightarrow> if i64_min \<le> - int n then Some (- int n) else None)
          else
            (case unsigned_body (if c = CHR ''+'' then cs else s) of None \<Rightarrow> None
             | Some n \<Rightarrow> if int n \<le> i64_max then Some (int n) else None))"

lemma show_nat_nonempty [simp]: "show_nat n \<noteq> []"
  by (subst show_nat.simps) simp

lemma show_nat_digits: "c \<in> set (show_nat n) \<Longrightarrow> is_ascii_digit c"
proof (induction n rule: show_nat.induct)
  case (1 n)
  then show ?case by (cases "n < 10") (auto simp: show_nat.simps [of n])
qed

lemma digits_value_append:
  "digits_value acc (xs @ ys) =
     (case digits_value acc xs of None \<Rightarrow> None | Some a \<Rightarrow> digits_value a ys)"
  by (induction xs arbitrary: acc) (auto split: option.splits)

lemma digits_value_show_nat: "digits_value 0 (show_nat n) = Some n"
proof (induction n rule: show_nat.induct)
  case (1 n)
  then show ?case
    by (cases "n < 10") (auto simp: show_nat.simps [of n] digits_value_append)
qed

lemma digit_value_zero [simp]: "digit_value (CHR ''0'') = Some 0"
  by (simp add: digit_value_def)

lemma digits_value_zeros: "digits_value 0 (replicate k (CHR ''0'') @ xs) = digits_value 0 xs"
  by (induction k) auto

lemma digits_value_pad0: "digits_value 0 (pad0 w n) = Some n"
  by (simp add: pad0_def digits_value_zeros digits_value_show_nat)

lemma pad0_nonempty [simp]: "pad0 w n \<noteq> []"
  by (simp add: pad0_def)

lemma pad0_digits: "c \<in> set (pad0 w n) \<Longrightarrow> is_ascii_digit c"
  by (auto simp: pad0_def is_ascii_digit_def dest: show_nat_digits)

lemma length_show_nat: "n < 10 ^ Suc k \<Longrightarrow> length (show_nat n) \<le> Suc k"
proof (induction k arbitrary: n)
  case 0
  then show ?case by (simp add: show_nat.simps [of n])
next
  case (Suc k)
  have "n div 10 < 10 ^ Suc k" using Suc.prems by (simp add: less_mult_imp_div_less)
  then have "length (show_nat (n div 10)) \<le> Suc k" by (rule Suc.IH)
  then show ?case by (simp add: show_nat.simps [of n])
qed

lemma length_pad0: "n < 10 ^ w \<Longrightarrow> 0 < w \<Longrightarrow> length (pad0 w n) = w"
  using length_show_nat [of n "w - 1"] by (simp add: pad0_def)

lemma not_digit_chars [simp]:
  "\<not> is_ascii_digit (CHR ''-'')" "\<not> is_ascii_digit (CHR ''+'')" "\<not> is_ascii_digit (CHR '':'')"
  "\<not> is_ascii_digit (CHR ''.'')" "\<not> is_ascii_digit (CHR ''T'')" "\<not> is_ascii_digit (CHR ''Z'')"
  "\<not> is_ascii_digit (CHR ''z'')" "\<not> is_ascii_digit (CHR ''s'')" "\<not> is_ascii_digit (CHR ''m'')"
  by (simp_all add: is_ascii_digit_def digit_value_def)

lemma digits_not_ws: "is_ascii_digit c \<Longrightarrow> \<not> is_ws c"
  by (auto simp: is_ws_def is_ascii_digit_def digit_value_def)

lemma hd_digit_no_sign:
  assumes "\<forall>c \<in> set s. is_ascii_digit c" and "s \<noteq> []"
  shows "hd s \<noteq> CHR ''-''" "hd s \<noteq> CHR ''+''"
  using assms by (cases s; force)+

lemma parse_unsigned_digits:
  assumes "\<forall>c \<in> set s. is_ascii_digit c" "s \<noteq> []" "digits_value 0 s = Some n" "n \<le> bound"
  shows "parse_unsigned bound s = Some n"
  using assms hd_digit_no_sign [OF assms(1,2)]
  by (cases s) (auto simp: parse_unsigned_def unsigned_body_def)

lemma parse_i64_digits:
  assumes "\<forall>c \<in> set s. is_ascii_digit c" "s \<noteq> []" "digits_value 0 s = Some n" "int n \<le> i64_max"
  shows "parse_i64 s = Some (int n)"
  using assms hd_digit_no_sign [OF assms(1,2)]
  by (cases s) (auto simp: parse_i64_def unsigned_body_def)

lemma parse_u64_show_nat [str_simps]: "is_u64 n \<Longrightarrow> parse_u64 (show_nat n) = Some n"
  unfolding parse_u64_def
  by (rule parse_unsigned_digits) (auto simp: show_nat_digits digits_value_show_nat is_u64_def)

lemma parse_u32_show_nat [str_simps]: "is_u32 n \<Longrightarrow> parse_u32 (show_nat n) = Some n"
  unfolding parse_u32_def
  by (rule parse_unsigned_digits) (auto simp: show_nat_digits digits_value_show_nat is_u32_def)

lemma parse_i64_pad0 [str_simps]: "int n \<le> i64_max \<Longrightarrow> parse_i64 (pad0 w n) = Some (int n)"
  by (rule parse_i64_digits) (auto simp: pad0_digits digits_value_pad0)

lemma parse_u32_pad0 [str_simps]: "is_u32 n \<Longrightarrow> parse_u32 (pad0 w n) = Some n"
  unfolding parse_u32_def
  by (rule parse_unsigned_digits) (auto simp: pad0_digits digits_value_pad0 is_u32_def)

lemma parse_unsigned_bound: "parse_unsigned b s = Some n \<Longrightarrow> n \<le> b"
  by (auto simp: parse_unsigned_def split: option.splits if_splits)

section \<open>Prefixes, suffixes, splitting, trimming\<close>

fun strip_prefix :: "string \<Rightarrow> string \<Rightarrow> string option" where
  "strip_prefix [] s = Some s"
| "strip_prefix (p # ps) [] = None"
| "strip_prefix (p # ps) (c # cs) = (if p = c then strip_prefix ps cs else None)"

definition strip_suffix :: "string \<Rightarrow> string \<Rightarrow> string option" where
  "strip_suffix p s = map_option rev (strip_prefix (rev p) (rev s))"

definition starts_with :: "string \<Rightarrow> string \<Rightarrow> bool" where
  "starts_with p s \<longleftrightarrow> strip_prefix p s \<noteq> None"

fun split_once :: "char \<Rightarrow> string \<Rightarrow> (string \<times> string) option" where
  "split_once c [] = None"
| "split_once c (x # xs) =
     (if x = c then Some ([], xs)
      else case split_once c xs of None \<Rightarrow> None | Some (a, b) \<Rightarrow> Some (x # a, b))"

text \<open>\<open>str::split\<close> on a character class; \<open>str::splitn\<close>; \<open>str::split_whitespace\<close>.\<close>

fun split_pred :: "(char \<Rightarrow> bool) \<Rightarrow> string \<Rightarrow> string list" where
  "split_pred P [] = [[]]"
| "split_pred P (x # xs) =
     (if P x then [] # split_pred P xs
      else case split_pred P xs of y # ys \<Rightarrow> (x # y) # ys | [] \<Rightarrow> [[x]])"

definition split_on :: "char \<Rightarrow> string \<Rightarrow> string list" where
  "split_on c = split_pred (\<lambda>x. x = c)"

fun splitn :: "nat \<Rightarrow> char \<Rightarrow> string \<Rightarrow> string list" where
  "splitn 0 c s = []"
| "splitn (Suc 0) c s = [s]"
| "splitn (Suc (Suc n)) c s =
     (case split_once c s of None \<Rightarrow> [s] | Some (a, b) \<Rightarrow> a # splitn (Suc n) c b)"

definition split_whitespace :: "string \<Rightarrow> string list" where
  "split_whitespace s = filter (\<lambda>w. w \<noteq> []) (split_pred is_ws s)"

definition trim :: "string \<Rightarrow> string" where
  "trim s = rev (dropWhile is_ws (rev (dropWhile is_ws s)))"

text \<open>The text after the last character of a class, with that character: \<open>rfind\<close> and \<open>split_at\<close>.\<close>

definition rsplit_at :: "(char \<Rightarrow> bool) \<Rightarrow> string \<Rightarrow> (string \<times> char \<times> string) option" where
  "rsplit_at P s =
     (case dropWhile (\<lambda>c. \<not> P c) (rev s) of
        [] \<Rightarrow> None
      | c # front \<Rightarrow> Some (rev front, c, rev (takeWhile (\<lambda>c. \<not> P c) (rev s))))"

definition join :: "string \<Rightarrow> string list \<Rightarrow> string" where
  "join sep ws = (case ws of [] \<Rightarrow> [] | w # rest \<Rightarrow> w @ concat (map (\<lambda>v. sep @ v) rest))"

lemma strip_prefix_append [simp]: "strip_prefix p (p @ s) = Some s"
  by (induction p) auto

lemma strip_prefix_Some: "strip_prefix p s = Some r \<longleftrightarrow> s = p @ r"
  by (induction p s rule: strip_prefix.induct) auto

lemma strip_suffix_Some: "strip_suffix p s = Some r \<longleftrightarrow> s = r @ p"
proof -
  have "strip_suffix p s = Some r \<longleftrightarrow> rev s = rev p @ rev r"
    by (auto simp: strip_suffix_def strip_prefix_Some)
  also have "\<dots> \<longleftrightarrow> s = r @ p"
    by (metis rev_append rev_rev_ident)
  finally show ?thesis .
qed

lemma strip_suffix_append [simp]: "strip_suffix p (s @ p) = Some s"
  by (simp add: strip_suffix_Some)

lemma starts_with_iff: "starts_with p s \<longleftrightarrow> (\<exists>r. s = p @ r)"
  by (auto simp: starts_with_def strip_prefix_Some)

lemma split_once_append [str_simps]: "c \<notin> set a \<Longrightarrow> split_once c (a @ c # b) = Some (a, b)"
  by (induction a) auto

lemma split_once_None [str_simps]: "split_once c s = None \<longleftrightarrow> c \<notin> set s"
  by (induction s) (auto split: option.splits)

lemma split_once_SomeD: "split_once c s = Some (a, b) \<Longrightarrow> s = a @ c # b \<and> c \<notin> set a"
  by (induction s arbitrary: a) (auto split: option.splits if_splits)

lemma split_pred_nonempty [simp]: "split_pred P s \<noteq> []"
  by (induction s) (auto split: list.splits)

lemma split_pred_none: "\<forall>x \<in> set s. \<not> P x \<Longrightarrow> split_pred P s = [s]"
  by (induction s) auto

lemma split_pred_append:
  "\<forall>x \<in> set a. \<not> P x \<Longrightarrow> P c \<Longrightarrow> split_pred P (a @ c # b) = a # split_pred P b"
  by (induction a) auto

lemma split_on_append [str_simps]: "c \<notin> set a \<Longrightarrow> split_on c (a @ c # b) = a # split_on c b"
  unfolding split_on_def by (rule split_pred_append) auto

lemma split_on_none [str_simps]: "c \<notin> set s \<Longrightarrow> split_on c s = [s]"
  unfolding split_on_def by (rule split_pred_none) auto

lemma trim_id: "s = [] \<or> \<not> is_ws (hd s) \<and> \<not> is_ws (last s) \<Longrightarrow> trim s = s"
proof (cases "s = []")
  case False
  assume "s = [] \<or> \<not> is_ws (hd s) \<and> \<not> is_ws (last s)"
  with False have "dropWhile is_ws s = s" "dropWhile is_ws (rev s) = rev s"
    by (simp_all add: dropWhile_eq_self_iff hd_rev)
  then show ?thesis by (simp add: trim_def)
qed (simp add: trim_def)

lemma rsplit_at_append:
  "P c \<Longrightarrow> \<forall>x \<in> set b. \<not> P x \<Longrightarrow> rsplit_at P (a @ c # b) = Some (a, c, b)"
  by (auto simp: rsplit_at_def dropWhile_append takeWhile_append2 dropWhile_append3
      takeWhile_append split: list.splits)

lemma in_show_nat_ne [simp]: "\<not> is_ascii_digit c \<Longrightarrow> c \<notin> set (show_nat n)"
  using show_nat_digits by blast

lemma in_pad0_ne [simp]: "\<not> is_ascii_digit c \<Longrightarrow> c \<notin> set (pad0 w n)"
  using pad0_digits by blast

lemma split_pred_parts: "\<forall>w\<in>set (split_pred P s). \<forall>x\<in>set w. \<not> P x"
proof (induction s)
  case (Cons c s)
  then show ?case by (cases "split_pred P s") auto
qed simp

lemma split_whitespace_parts: "w \<in> set (split_whitespace s) \<Longrightarrow> w \<noteq> [] \<and> (\<forall>x\<in>set w. \<not> is_ws x)"
  using split_pred_parts [of is_ws s] by (auto simp: split_whitespace_def)

text \<open>Words joined by single blanks split back into the same words.\<close>

lemma split_whitespace_join:
  assumes "\<forall>w\<in>set ws. w \<noteq> [] \<and> (\<forall>x\<in>set w. \<not> is_ws x)"
  shows "split_whitespace (join '' '' ws) = ws"
  using assms
proof (induction ws)
  case Nil
  then show ?case by (simp add: join_def split_whitespace_def)
next
  case (Cons w ws)
  have w: "w \<noteq> []" "\<forall>x\<in>set w. \<not> is_ws x" using Cons.prems by simp_all
  have blank: "is_ws (CHR '' '')" by (simp add: is_ws_def)
  show ?case
  proof (cases ws)
    case Nil
    then show ?thesis using w by (simp add: join_def split_whitespace_def split_pred_none)
  next
    case (Cons v vs)
    then have "join '' '' (w # ws) = w @ CHR '' '' # join '' '' ws" by (simp add: join_def)
    then have "split_whitespace (join '' '' (w # ws)) = w # split_whitespace (join '' '' ws)"
      using w by (simp add: split_whitespace_def split_pred_append [OF w(2) blank])
    then show ?thesis using Cons.IH Cons.prems by simp
  qed
qed

section \<open>ASCII case and classes, substrings\<close>

definition is_ascii_lowercase :: "char \<Rightarrow> bool" where
  "is_ascii_lowercase c \<longleftrightarrow> (let n = of_char c in 97 \<le> n \<and> n \<le> (122::nat))"

definition is_ascii_uppercase :: "char \<Rightarrow> bool" where
  "is_ascii_uppercase c \<longleftrightarrow> (let n = of_char c in 65 \<le> n \<and> n \<le> (90::nat))"

definition is_ascii_alphanumeric :: "char \<Rightarrow> bool" where
  "is_ascii_alphanumeric c \<longleftrightarrow> is_ascii_lowercase c \<or> is_ascii_uppercase c \<or> is_ascii_digit c"

definition lower_char :: "char \<Rightarrow> char" where
  "lower_char c = (if is_ascii_uppercase c then char_of (of_char c + (32::nat)) else c)"

definition to_lowercase :: "string \<Rightarrow> string" where
  "to_lowercase s = map lower_char s"

fun contains_str :: "string \<Rightarrow> string \<Rightarrow> bool" where
  "contains_str p [] = (p = [])"
| "contains_str p (c # cs) = (starts_with p (c # cs) \<or> contains_str p cs)"

lemma contains_str_iff: "contains_str p s \<longleftrightarrow> (\<exists>a b. s = a @ p @ b)"
proof (induction s)
  case Nil
  then show ?case by auto
next
  case (Cons c s)
  have "(\<exists>a b. c # s = a @ p @ b) \<longleftrightarrow> (\<exists>b. c # s = p @ b) \<or> (\<exists>a b. s = a @ p @ b)"
    by (metis append_Cons append_Nil append_eq_Cons_conv)
  then show ?case using Cons by (simp add: starts_with_iff)
qed

lemma of_lower_char:
  "of_char (lower_char c) = (if is_ascii_uppercase c then of_char c + 32 else (of_char c :: nat))"
  by (auto simp: lower_char_def is_ascii_uppercase_def Let_def)

lemma lower_char_not_upper: "\<not> is_ascii_uppercase (lower_char c)"
  by (auto simp: is_ascii_uppercase_def [of "lower_char c"] of_lower_char is_ascii_uppercase_def Let_def)

lemma lower_char_idem [simp]: "lower_char (lower_char c) = lower_char c"
  using lower_char_not_upper [of c] by (subst lower_char_def) simp

lemma to_lowercase_idem [simp]: "to_lowercase (to_lowercase s) = to_lowercase s"
  by (simp add: to_lowercase_def)

lemma contains_str_lower_no_upper:
  "contains_str p (to_lowercase s) \<Longrightarrow> c \<in> set p \<Longrightarrow> \<not> is_ascii_uppercase c"
  by (auto simp: contains_str_iff to_lowercase_def lower_char_not_upper dest!: arg_cong [where f = set])
    (metis Un_iff image_iff lower_char_not_upper)

lemma split_on_join:
  "ws \<noteq> [] \<Longrightarrow> \<forall>w\<in>set ws. c \<notin> set w \<Longrightarrow> split_on c (join [c] ws) = ws"
proof (induction ws)
  case (Cons w ws)
  show ?case
  proof (cases ws)
    case Nil
    then show ?thesis using Cons.prems by (simp add: join_def str_simps)
  next
    case (Cons v vs)
    then have IH: "split_on c (join [c] ws) = ws" using Cons.prems Cons.IH by simp
    then have "join [c] (w # ws) = w @ c # join [c] ws" using Cons by (simp add: join_def)
    then show ?thesis using Cons.prems IH by (simp add: str_simps)
  qed
qed simp

section \<open>Evaluation on literals\<close>

lemma show_nat_small: "n < 10 \<Longrightarrow> show_nat n = [digit_char n]"
  by (simp add: show_nat.simps)

lemma show_nat_step: "10 \<le> n \<Longrightarrow> show_nat n = show_nat (n div 10) @ [digit_char (n mod 10)]"
  by (subst show_nat.simps) simp

text \<open>What \<open>simp\<close> unfolds to run the string operations on a literal.\<close>

lemmas string_eval =
  digit_value_def is_ascii_digit_def is_ws_def digit_char_def show_nat_small show_nat_step pad0_def
  unsigned_body_def parse_i64_def parse_u64_def parse_u32_def parse_unsigned_def trim_def
  strip_suffix_def rsplit_at_def starts_with_def split_on_def split_whitespace_def join_def
  is_ascii_lowercase_def is_ascii_uppercase_def is_ascii_alphanumeric_def lower_char_def to_lowercase_def char_of_eq_iff

end
