(* ===== verification/Calendar.thy ===== *)
theory Calendar
  imports Time_Model Rust_Strings "HOL-Library.Monad_Syntax"
begin

text \<open>
  The calendar half of \<open>src/domain/time.rs\<close>: \<open>UtcDate\<close> with the civil-day algorithm in both
  directions, and the RFC 3339 reader and writer of \<open>UtcTimestamp\<close>.
\<close>

section \<open>Civil dates\<close>

record utc_date =
  year :: i64
  month :: u32
  day :: u32

definition leap :: "int \<Rightarrow> bool" where
  "leap y \<longleftrightarrow> (y mod 4 = 0 \<and> y mod 100 \<noteq> 0) \<or> y mod 400 = 0"

definition days_in_month :: "i64 \<Rightarrow> u32 \<Rightarrow> u32" where
  "days_in_month y m =
     (if m \<in> {1, 3, 5, 7, 8, 10, 12} then 31
      else if m \<in> {4, 6, 9, 11} then 30
      else if m = 2 \<and> leap y then 29
      else if m = 2 then 28
      else 0)"

definition valid_date :: "utc_date \<Rightarrow> bool" where
  "valid_date d \<longleftrightarrow>
     1 \<le> month d \<and> month d \<le> 12 \<and> 1 \<le> day d \<and> day d \<le> days_in_month (year d) (month d)"

text \<open>Howard Hinnant's civil algorithm; only the last sum can leave the \<open>i64\<close> range.\<close>

definition days_since_epoch :: "utc_date \<Rightarrow> i64" where
  "days_since_epoch d =
     (let y = if month d \<le> 2 then wrap_i64 (year d - 1) else year d;
          era = y div 400;
          year_of_era = y - era * 400;
          month_from_march = int ((month d + 9) mod 12);
          day_of_year = (153 * month_from_march + 2) div 5 + int (day d) - 1;
          day_of_era = year_of_era * 365 + year_of_era div 4 - year_of_era div 100 + day_of_year
      in wrap_i64 (era * 146097 + day_of_era - 719468))"

definition year_of_era :: "int \<Rightarrow> int" where
  "year_of_era day_of_era =
     (day_of_era - day_of_era div 1460 + day_of_era div 36524 - day_of_era div 146096) div 365"

definition day_of_year :: "int \<Rightarrow> int" where
  "day_of_year day_of_era =
     (let yoe = year_of_era day_of_era in day_of_era - (365 * yoe + yoe div 4 - yoe div 100))"

definition month_from_march :: "int \<Rightarrow> int" where
  "month_from_march doy = (5 * doy + 2) div 153"

definition day_of_month :: "int \<Rightarrow> int" where
  "day_of_month doy = doy - (153 * month_from_march doy + 2) div 5 + 1"

definition month_number :: "int \<Rightarrow> int" where
  "month_number doy =
     (if month_from_march doy < 10 then month_from_march doy + 3 else month_from_march doy - 9)"

definition from_days_since_epoch :: "i64 \<Rightarrow> utc_date" where
  "from_days_since_epoch days =
     (let shifted = wrap_i64 (days + 719468);
          era = shifted div 146097;
          day_of_era = shifted - era * 146097;
          doy = day_of_year day_of_era;
          d = nat (day_of_month doy);
          m = nat (month_number doy)
      in \<lparr>year = year_of_era day_of_era + era * 400 + (if m \<le> 2 then 1 else 0), month = m, day = d\<rparr>)"

definition pad0_int :: "nat \<Rightarrow> int \<Rightarrow> string" where
  "pad0_int w i = (if i < 0 then CHR ''-'' # pad0 (w - 1) (nat (- i)) else pad0 w (nat i))"

definition iso :: "utc_date \<Rightarrow> string" where
  "iso d = pad0_int 4 (year d) @ ''-'' @ pad0 2 (month d) @ ''-'' @ pad0 2 (day d)"

definition parse_date :: "string \<Rightarrow> utc_date option" where
  "parse_date text =
     (case splitn 3 (CHR ''-'') text of
        [ys, ms, ds] \<Rightarrow>
          do {
            y \<leftarrow> parse_i64 ys;
            m \<leftarrow> parse_u32 ms;
            d \<leftarrow> parse_u32 ds;
            if \<not> (1 \<le> m \<and> m \<le> 12) \<or> d = 0 \<or> d > days_in_month y m then None
            else Some \<lparr>year = y, month = m, day = d\<rparr>
          }
      | _ \<Rightarrow> None)"

definition date_start :: "utc_date \<Rightarrow> utc_timestamp" where
  "date_start d = wrap_i64 (days_since_epoch d * 86400 * 1000000000)"

definition plus_days :: "utc_date \<Rightarrow> i64 \<Rightarrow> utc_date" where
  "plus_days d n = from_days_since_epoch (wrap_i64 (days_since_epoch d + n))"

definition next_date :: "utc_date \<Rightarrow> utc_date" where
  "next_date d = from_days_since_epoch (wrap_i64 (days_since_epoch d + 1))"

section \<open>Instants as text\<close>

abbreviation day_nanos :: int where "day_nanos \<equiv> 86400000000000"

definition timestamp_date :: "utc_timestamp \<Rightarrow> utc_date" where
  "timestamp_date t = from_days_since_epoch (t div day_nanos)"

definition weekday :: "utc_timestamp \<Rightarrow> u32" where
  "weekday t = nat ((t div day_nanos + 3) mod 7) + 1"

definition hour_minute_utc :: "utc_timestamp \<Rightarrow> u32 \<times> u32" where
  "hour_minute_utc t =
     (let seconds = nat (t mod day_nanos div 1000000000)
      in (seconds div 3600, seconds mod 3600 div 60))"

definition to_rfc3339 :: "utc_timestamp \<Rightarrow> string" where
  "to_rfc3339 t =
     (let d = timestamp_date t;
          dn = t mod day_nanos;
          hour = dn div 3600000000000;
          minute = dn mod 3600000000000 div 60000000000;
          second = dn mod 60000000000 div 1000000000;
          nanos = dn mod 1000000000
      in iso d @ ''T'' @ pad0 2 (nat hour) @ '':'' @ pad0 2 (nat minute) @ '':'' @
         pad0 2 (nat second) @ ''.'' @ pad0 9 (nat nanos) @ ''Z'')"

definition split_offset :: "string \<Rightarrow> (string \<times> i64) option" where
  "split_offset rest =
     (case (case strip_suffix ''Z'' rest of Some c \<Rightarrow> Some c | None \<Rightarrow> strip_suffix ''z'' rest) of
        Some clock \<Rightarrow> Some (clock, 0)
      | None \<Rightarrow>
          do {
            (clock, sign, hhmm) \<leftarrow> rsplit_at (\<lambda>c. c = CHR ''+'' \<or> c = CHR ''-'') rest;
            (hours, minutes) \<leftarrow> split_once (CHR '':'') hhmm;
            h \<leftarrow> parse_i64 hours;
            m \<leftarrow> parse_i64 minutes;
            let seconds = wrap_i64 (h * 3600 + m * 60);
            Some (clock, if sign = CHR ''-'' then wrap_i64 (- seconds) else seconds)
          })"

definition fraction_to_nanos :: "string \<Rightarrow> i64 option" where
  "fraction_to_nanos fraction =
     (if fraction = [] \<or> \<not> list_all is_ascii_digit fraction then None
      else
        let digits = take 9 fraction; scale = (10::int) ^ (9 - length digits)
        in map_option (\<lambda>n. n * scale) (parse_i64 digits))"

definition parse_second :: "string \<Rightarrow> (i64 \<times> i64) option" where
  "parse_second second_text =
     (case split_once (CHR ''.'') second_text of
        Some (whole, fraction) \<Rightarrow>
          do { s \<leftarrow> parse_i64 whole; f \<leftarrow> fraction_to_nanos fraction; Some (s, f) }
      | None \<Rightarrow> map_option (\<lambda>s. (s, 0)) (parse_i64 second_text))"

definition parse_rfc3339 :: "string \<Rightarrow> utc_timestamp option" where
  "parse_rfc3339 text0 =
     do {
       (date_text, rest) \<leftarrow> split_once (CHR ''T'') (trim text0);
       date \<leftarrow> parse_date date_text;
       (clock, offset_seconds) \<leftarrow> split_offset rest;
       (case splitn 3 (CHR '':'') clock of
          [hour_text, minute_text, second_text] \<Rightarrow>
            do {
              hour \<leftarrow> parse_i64 hour_text;
              minute \<leftarrow> parse_i64 minute_text;
              (second, fraction_nanos) \<leftarrow> parse_second second_text;
              if \<not> (0 \<le> hour \<and> hour < 24) \<or> \<not> (0 \<le> minute \<and> minute < 60)
                  \<or> \<not> (0 \<le> second \<and> second < 61) then None
              else do {
                let day_seconds = wrap_i64 (hour * 3600 + minute * 60 + second - offset_seconds);
                let seconds = wrap_i64 (days_since_epoch date * 86400 + day_seconds);
                n \<leftarrow> checked_mul_i64 seconds 1000000000;
                Some (wrap_i64 (n + fraction_nanos))
              }
            }
        | _ \<Rightarrow> None)
     }"

end
