(* ===== verification/Calendar_Laws.thy ===== *)
theory Calendar_Laws
  imports Calendar
begin

text \<open>
  What \<open>src/domain/time.rs\<close> promises of the calendar: the civil-day algorithm turns every day
  number into a valid date and back, dates and instants round-trip through their text, and where
  the reader's integer arithmetic leaves its range.
\<close>

section \<open>The civil-day algorithm\<close>


definition year_start :: "int \<Rightarrow> int" where
  "year_start y = 365 * y + y div 4 - y div 100"

lemma era_decomposition:
  assumes "0 \<le> n" "n < 146097"
  obtains c q r d where "n = 36524 * c + 1461 * q + 365 * r + (d::int)"
    "0 \<le> c" "c \<le> 3" "0 \<le> q" "q \<le> 24" "0 \<le> r" "r \<le> 3" "0 \<le> d" "d \<le> 365"
    "d = 365 \<Longrightarrow> r = 3" "d = 365 \<Longrightarrow> q = 24 \<Longrightarrow> c = 3"
proof -
  define c where "c = min 3 (n div 36524)"
  define n1 where "n1 = n - 36524 * c"
  define q where "q = n1 div 1461"
  define n2 where "n2 = n1 - 1461 * q"
  define r where "r = min 3 (n2 div 365)"
  define d where "d = n2 - 365 * r"
  have "n1 < 36524" if "c < 3"
    using that by (auto simp: c_def n1_def min_def minus_mult_div_eq_mod split: if_splits)
  moreover have c': "0 \<le> c" "c \<le> 3" "0 \<le> n1" "n1 \<le> 36524"
    using assms by (auto simp: c_def n1_def min_def)
  ultimately have c: "0 \<le> c" "c \<le> 3" "0 \<le> n1" "n1 \<le> 36524" "n1 = 36524 \<Longrightarrow> c = 3"
    by linarith+
  have q: "0 \<le> q" "q \<le> 24" "0 \<le> n2" "n2 \<le> 1460"
    using c by (auto simp: q_def n2_def)
  have "d < 365" if "r < 3"
    using that by (auto simp: r_def d_def min_def minus_mult_div_eq_mod split: if_splits)
  moreover have "0 \<le> r" "r \<le> 3" "0 \<le> d" "d \<le> 365"
    using q by (auto simp: r_def d_def min_def)
  ultimately have r: "0 \<le> r" "r \<le> 3" "0 \<le> d" "d \<le> 365" "d = 365 \<Longrightarrow> r = 3"
    by linarith+
  have top: "c = 3" if "d = 365" "q = 24"
  proof -
    have "r = 3" using that r by blast
    then have "n2 = 1460" using that by (simp add: d_def)
    then have "n1 = 36524" using that by (simp add: n2_def)
    then show ?thesis by (rule c)
  qed
  have eq: "n = 36524 * c + 1461 * q + 365 * r + d"
    by (simp add: d_def n2_def n1_def)
  show thesis by (rule that [OF eq c(1,2) q(1,2) r top])
qed

lemma year_of_era_bounds:
  assumes "0 \<le> n" "n < 146097"
  shows "0 \<le> year_of_era n \<and> year_of_era n \<le> 399 \<and> year_start (year_of_era n) \<le> n \<and>
    n \<le> year_start (year_of_era n) + 364 + (if leap (year_of_era n + 1) then 1 else 0)"
proof -
  obtain c q r d where n: "n = 36524 * c + 1461 * q + 365 * r + d"
    and b: "0 \<le> c" "c \<le> 3" "0 \<le> q" "q \<le> 24" "0 \<le> r" "r \<le> 3" "0 \<le> d" "d \<le> 365"
    and l: "d = 365 \<Longrightarrow> r = 3" "d = 365 \<Longrightarrow> q = 24 \<Longrightarrow> c = 3"
    using era_decomposition [OF assms] by blast
  define y where "y = 100 * c + 4 * q + r"
  have y: "0 \<le> y" "y \<le> 399" "y div 4 = 25 * c + q" "y div 100 = c"
    using b by (simp_all add: y_def)
  have start: "year_start y = n - d"
    using y n by (simp add: year_start_def) (simp add: y_def)
  have lp: "leap (y + 1)" if "d = 365"
  proof -
    have "y + 1 = 4 * (25 * c + q + 1)" "q = 24 \<Longrightarrow> y + 1 = 400"
      using l that by (simp_all add: y_def)
    moreover have "(y + 1) mod 100 \<noteq> 0" if "q \<noteq> 24"
      using l(1) \<open>d = 365\<close> b that by (simp add: y_def) presburger
    ultimately show ?thesis by (cases "q = 24") (auto simp: leap_def)
  qed
  define e where "e = (if 24 * c + q + 365 * r + d \<ge> 1460 then 1 else (0::int))"
  have de: "0 \<le> d - e" "d - e \<le> 364"
    using b l by (cases "d = 365"; auto simp: e_def)+
  have "year_of_era n = y"
  proof (cases "n = 146096")
    case True
    then have "d = n - year_start y" "c = 3" "q = 24" "r = 3"
      using start b n by auto
    then have "y = 399" by (simp add: y_def)
    with True show ?thesis by (simp add: year_of_era_def)
  next
    case False
    have "n div 146096 = 0" using assms False by simp
    moreover have "n div 36524 = c"
    proof -
      have "0 \<le> 1461 * q + 365 * r + d" "1461 * q + 365 * r + d < 36524"
        using b l False n by (cases "q = 24"; cases "d = 365"; auto)+
      then show ?thesis using n by (intro int_div_pos_eq) auto
    qed
    moreover have "n div 1460 = 25 * c + q + e"
      using n b de by (intro int_div_pos_eq [where r = "24 * c + q + 365 * r + d - 1460 * e"])
        (auto simp: e_def)
    ultimately have "year_of_era n = (n - (25 * c + q + e) + c) div 365"
      by (simp add: year_of_era_def)
    also have "n - (25 * c + q + e) + c = 365 * y + (d - e)"
      by (simp add: n y_def)
    also have "\<dots> div 365 = y"
      using de by (intro int_div_pos_eq) auto
    finally show ?thesis .
  qed
  moreover have "d \<le> 364 \<or> leap (y + 1)" using lp b by linarith
  ultimately show ?thesis using y start b by auto
qed

lemma month_day_split:
  assumes "0 \<le> doy" "doy \<le> 365"
  shows "0 \<le> month_from_march doy" "month_from_march doy \<le> 11"
    "1 \<le> month_number doy" "month_number doy \<le> 12"
    "(month_number doy + 9) mod 12 = month_from_march doy"
    "1 \<le> day_of_month doy"
    "day_of_month doy \<le> int (days_in_month y (nat (month_number doy))) \<or>
     month_number doy = 2 \<and> day_of_month doy = 29 \<and> doy = 365"
proof -
  define mp where "mp = month_from_march doy"
  have r: "153 * mp \<le> 5 * doy + 2" "5 * doy + 2 < 153 * mp + 153"
    unfolding mp_def month_from_march_def by presburger+
  then have mp: "0 \<le> mp" "mp \<le> 11" using assms by auto
  then have cases: "mp = 0 \<or> mp = 1 \<or> mp = 2 \<or> mp = 3 \<or> mp = 4 \<or> mp = 5 \<or> mp = 6 \<or> mp = 7 \<or>
      mp = 8 \<or> mp = 9 \<or> mp = 10 \<or> mp = 11" by presburger
  show "0 \<le> month_from_march doy" "month_from_march doy \<le> 11"
    using mp by (simp_all add: mp_def)
  show "1 \<le> month_number doy" "month_number doy \<le> 12"
    "(month_number doy + 9) mod 12 = month_from_march doy"
    using mp by (auto simp: month_number_def mp_def [symmetric])
  have dd: "1 \<le> day_of_month doy \<and> (day_of_month doy \<le> int (days_in_month y (nat (month_number doy))) \<or>
     month_number doy = 2 \<and> day_of_month doy = 29 \<and> doy = 365)"
    unfolding day_of_month_def month_number_def mp_def [symmetric]
    using cases r assms by (elim disjE) (simp_all add: days_in_month_def, linarith)
  then show "1 \<le> day_of_month doy"
    "day_of_month doy \<le> int (days_in_month y (nat (month_number doy))) \<or>
     month_number doy = 2 \<and> day_of_month doy = 29 \<and> doy = 365" by blast+
qed

lemma leap_shift: "leap (y + 400 * e) = leap y"
proof -
  have "(y + 400 * e) mod 4 = y mod 4" "(y + 400 * e) mod 100 = y mod 100"
    "(y + 400 * e) mod 400 = y mod 400"
    using mod_mult_self2 [of y 4 "100 * e"] mod_mult_self2 [of y 100 "4 * e"]
      mod_mult_self2 [of y 400 e] by simp_all
  then show ?thesis by (simp add: leap_def)
qed

text \<open>The era, the day of the era and the day of the year \<open>from_days_since_epoch\<close> computes.\<close>

definition era_of :: "int \<Rightarrow> int" where "era_of days = (days + 719468) div 146097"
definition doe_of :: "int \<Rightarrow> int" where "doe_of days = (days + 719468) mod 146097"

lemma doe_of: "0 \<le> doe_of days" "doe_of days < 146097" "146097 * era_of days + doe_of days = days + 719468"
  by (simp_all add: doe_of_def era_of_def)

lemma yoe_bounds:
  assumes "0 \<le> n" "n < 146097"
  shows "0 \<le> year_of_era n" "year_of_era n \<le> 399" "0 \<le> day_of_year n" "day_of_year n \<le> 365"
    "day_of_year n = 365 \<Longrightarrow> leap (year_of_era n + 1)"
    "year_start (year_of_era n) + day_of_year n = n"
  using year_of_era_bounds [OF assms]
  by (auto simp: day_of_year_def Let_def year_start_def split: if_splits)

lemma from_days_eq:
  assumes "is_i64 (days + 719468)"
  defines "n \<equiv> doe_of days"
  defines "m \<equiv> month_number (day_of_year n)"
  shows "from_days_since_epoch days =
     \<lparr>year = year_of_era n + 400 * era_of days + (if m \<le> 2 then 1 else 0),
      month = nat m, day = nat (day_of_month (day_of_year n))\<rparr>"
proof -
  have "(days + 719468) - (days + 719468) div 146097 * 146097 = n"
    by (simp add: n_def doe_of_def minus_div_mult_eq_mod)
  moreover have "nat m \<le> 2 \<longleftrightarrow> m \<le> 2" by linarith
  ultimately show ?thesis
    using assms(1) by (simp add: from_days_since_epoch_def machine_simps Let_def era_of_def m_def)
qed

lemma from_days_valid:
  assumes "is_i64 (days + 719468)"
  shows "valid_date (from_days_since_epoch days)"
proof -
  define n where "n = doe_of days"
  define doy where "doy = day_of_year n"
  note doy = yoe_bounds(3-5) [OF doe_of(1,2) [of days], folded n_def, folded doy_def]
  note md = month_day_split [OF doy(1,2)]
  let ?y = "year_of_era n + 400 * era_of days + (if month_number doy \<le> 2 then 1 else 0)"
  have "day_of_month doy \<le> int (days_in_month ?y (nat (month_number doy)))"
    if "month_number doy = 2" "day_of_month doy = 29" "doy = 365"
    using that doy(3) leap_shift [of "year_of_era n + 1" "era_of days"]
    by (simp add: days_in_month_def algebra_simps)
  with md(7) [of ?y] have "day_of_month doy \<le> int (days_in_month ?y (nat (month_number doy)))"
    by blast
  then show ?thesis
    using md by (simp add: from_days_eq [OF assms] valid_date_def n_def [symmetric] doy_def [symmetric] nat_le_iff le_nat_iff)
qed

lemma days_of_from_days:
  assumes "is_i64 days" "is_i64 (days + 719468)"
  shows "days_since_epoch (from_days_since_epoch days) = days"
proof -
  define n where "n = doe_of days"
  define doy where "doy = day_of_year n"
  define era where "era = era_of days"
  note b = yoe_bounds [OF doe_of(1,2) [of days], folded n_def, folded doy_def]
  note md = month_day_split [OF b(3,4)]
  let ?d = "from_days_since_epoch days"
  have d: "?d = \<lparr>year = year_of_era n + 400 * era + (if month_number doy \<le> 2 then 1 else 0),
      month = nat (month_number doy), day = nat (day_of_month doy)\<rparr>"
    by (simp add: from_days_eq [OF assms(2)] n_def doy_def era_def)
  have era: "146097 * era + n = days + 719468" by (simp add: era_def n_def doe_of)
  define Y where "Y = (if month ?d \<le> 2 then wrap_i64 (year ?d - 1) else year ?d)"
  have "is_i64 (year_of_era n + 400 * era)"
    using era assms b(1,2) doe_of(1,2) [of days] by (simp add: is_i64_def n_def)
  then have y: "Y = year_of_era n + 400 * era"
    using md(3) by (auto simp: Y_def d machine_simps nat_le_iff)
  then have e: "Y div 400 = era" "Y - era * 400 = year_of_era n"
    using b(1,2) by (auto intro!: int_div_pos_eq)
  have "days_since_epoch ?d = wrap_i64 (Y div 400 * 146097 +
      ((Y - Y div 400 * 400) * 365 + (Y - Y div 400 * 400) div 4 - (Y - Y div 400 * 400) div 100 +
        ((153 * int ((month ?d + 9) mod 12) + 2) div 5 + int (day ?d) - 1)) - 719468)"
    by (simp only: days_since_epoch_def Let_def Y_def)
  moreover have "int ((month ?d + 9) mod 12) = month_from_march doy"
    using md by (simp add: d zmod_int)
  moreover have "int (day ?d) = day_of_month doy" using md by (simp add: d)
  ultimately have "days_since_epoch ?d = wrap_i64 (era * 146097 +
      (year_of_era n * 365 + year_of_era n div 4 - year_of_era n div 100 +
        ((153 * month_from_march doy + 2) div 5 + day_of_month doy - 1)) - 719468)"
    using e by (simp only:)
  also have "\<dots> = wrap_i64 days"
    using era b(6) by (simp add: day_of_month_def year_start_def algebra_simps)
  finally show ?thesis using assms by (simp add: machine_simps)
qed

lemma parse_date_iso:
  assumes "valid_date d" "0 \<le> year d" "year d \<le> i64_max"
  shows "parse_date (iso d) = Some d"
proof -
  have v: "1 \<le> month d" "month d \<le> 12" "1 \<le> day d" "day d \<le> days_in_month (year d) (month d)"
    using assms(1) by (simp_all add: valid_date_def)
  then have "day d \<le> 31" by (auto simp: days_in_month_def split: if_splits)
  with v have "is_u32 (month d)" "is_u32 (day d)" by (simp_all add: is_u32_def)
  moreover have "int (nat (year d)) \<le> i64_max" using assms by simp
  moreover have "splitn 3 (CHR ''-'') (iso d) =
      [pad0 4 (nat (year d)), pad0 2 (month d), pad0 2 (day d)]"
    using assms(2) by (simp add: iso_def pad0_int_def numeral_3_eq_3 str_simps)
  ultimately show ?thesis
    using v assms(2) by (simp add: parse_date_def str_simps)
qed

lemma timestamp_date_year:
  assumes "is_i64 t"
  shows "0 \<le> year (timestamp_date t)" "year (timestamp_date t) \<le> i64_max"
proof -
  let ?days = "t div day_nanos"
  have days: "-106752 \<le> ?days" "?days \<le> 106751" using assms by (auto simp: is_i64_def)
  then have "is_i64 (?days + 719468)" by (simp add: is_i64_def)
  note eq = from_days_eq [OF this]
  have "0 \<le> era_of ?days" "era_of ?days \<le> 6" using days by (auto simp: era_of_def)
  with yoe_bounds(1,2) [OF doe_of(1,2) [of ?days]]
  show "0 \<le> year (timestamp_date t)" "year (timestamp_date t) \<le> i64_max"
    by (auto simp: timestamp_date_def eq)
qed

lemma timestamp_date_days:
  assumes "is_i64 t"
  shows "days_since_epoch (timestamp_date t) = t div day_nanos" "valid_date (timestamp_date t)"
  using assms by (auto simp: timestamp_date_def is_i64_def intro!: days_of_from_days from_days_valid)

lemma fraction_to_nanos_pad0:
  "n < 1000000000 \<Longrightarrow> fraction_to_nanos (pad0 9 n) = Some (int n)"
  by (auto simp: fraction_to_nanos_def length_pad0 list_all_iff str_simps dest: pad0_digits)

lemma parse_second_fields:
  "s \<le> 60 \<Longrightarrow> n < 1000000000 \<Longrightarrow>
   parse_second (pad0 2 s @ CHR ''.'' # pad0 9 n) = Some (int s, int n)"
  by (simp add: parse_second_def str_simps fraction_to_nanos_pad0)

text \<open>The clock fields of an instant add up to it.\<close>

lemma clock_fields:
  fixes t :: int
  defines "dn \<equiv> t mod day_nanos"
  defines "h \<equiv> dn div 3600000000000"
  defines "m \<equiv> dn mod 3600000000000 div 60000000000"
  defines "s \<equiv> dn mod 60000000000 div 1000000000"
  shows "0 \<le> h" "h < 24" "0 \<le> m" "m < 60" "0 \<le> s" "s < 60"
    "t div day_nanos * 86400 + (h * 3600 + m * 60 + s) = t div 1000000000"
    "dn mod 1000000000 = t mod 1000000000"
proof -
  have dn: "0 \<le> dn" "dn < day_nanos" by (simp_all add: dn_def)
  show "0 \<le> h" "h < 24" "0 \<le> m" "m < 60" "0 \<le> s" "s < 60"
    using dn by (auto simp: h_def m_def s_def)
  define r1 where "r1 = dn mod 3600000000000"
  define r2 where "r2 = dn mod 60000000000"
  define r3 where "r3 = r2 mod 1000000000"
  have "r1 mod 60000000000 = r2"
    unfolding r1_def r2_def by (rule mod_mod_cancel) simp
  then have "r1 = 60000000000 * m + r2"
    by (simp add: m_def r1_def [symmetric]) (metis mult_div_mod_eq)
  moreover have "dn = 3600000000000 * h + r1" by (simp add: h_def r1_def)
  moreover have "r2 = 1000000000 * s + r3" by (simp add: s_def r3_def r2_def [symmetric])
  moreover have "0 \<le> r3" "r3 < 1000000000" by (simp_all add: r3_def)
  ultimately have "dn div 1000000000 = h * 3600 + m * 60 + s"
    by (intro int_div_pos_eq [where r = r3]) simp_all
  moreover have "t div 1000000000 = 86400 * (t div day_nanos) + dn div 1000000000"
  proof -
    have "t = 1000000000 * (86400 * (t div day_nanos)) + dn" by (simp add: dn_def)
    then have "t div 1000000000 = (1000000000 * (86400 * (t div day_nanos)) + dn) div 1000000000" by simp
    also have "\<dots> = 86400 * (t div day_nanos) + dn div 1000000000" by (rule div_mult_self4) simp
    finally show ?thesis .
  qed
  ultimately show "t div day_nanos * 86400 + (h * 3600 + m * 60 + s) = t div 1000000000" by simp
  show "dn mod 1000000000 = t mod 1000000000"
    unfolding dn_def by (rule mod_mod_cancel) simp
qed

lemma parse_rendered:
  assumes "is_i64 t"
  shows "parse_rfc3339 (to_rfc3339 t) =
    map_option (\<lambda>n. wrap_i64 (n + t mod 1000000000)) (checked_mul_i64 (t div 1000000000) 1000000000)"
proof -
  define d where "d = timestamp_date t"
  define dn where "dn = t mod day_nanos"
  define h where "h = dn div 3600000000000"
  define m where "m = dn mod 3600000000000 div 60000000000"
  define s where "s = dn mod 60000000000 div 1000000000"
  define n where "n = dn mod 1000000000"
  note f = clock_fields [of t, folded dn_def, folded h_def m_def s_def, folded n_def]
  define clock where "clock = pad0 2 (nat h) @ '':'' @ pad0 2 (nat m) @ '':'' @ pad0 2 (nat s) @ ''.'' @ pad0 9 (nat n)"
  have rendered: "to_rfc3339 t = iso d @ CHR ''T'' # (clock @ ''Z'')"
    by (simp add: to_rfc3339_def Let_def d_def dn_def h_def m_def s_def n_def clock_def)
  have year: "0 \<le> year d" "year d \<le> i64_max" "valid_date d" "days_since_epoch d = t div day_nanos"
    using timestamp_date_year timestamp_date_days assms(1) by (simp_all add: d_def)
  have noT: "CHR ''T'' \<notin> set (iso d)" and front: "\<not> is_ws (hd (to_rfc3339 t))"
    using year(1) by (auto simp: iso_def pad0_int_def rendered hd_append dest: pad0_digits
        intro!: digits_not_ws [OF pad0_digits [OF hd_in_set]])
  have "trim (to_rfc3339 t) = to_rfc3339 t"
    using front by (intro trim_id) (auto simp: rendered is_ws_def)
  moreover have "split_once (CHR ''T'') (to_rfc3339 t) = Some (iso d, clock @ ''Z'')"
    using noT by (simp add: rendered str_simps)
  moreover have "parse_date (iso d) = Some d"
    using year by (intro parse_date_iso)
  moreover have "split_offset (clock @ ''Z'') = Some (clock, 0)"
    by (simp add: split_offset_def)
  moreover have "splitn 3 (CHR '':'') clock =
      [pad0 2 (nat h), pad0 2 (nat m), pad0 2 (nat s) @ CHR ''.'' # pad0 9 (nat n)]"
    by (simp add: clock_def numeral_3_eq_3 str_simps)
  moreover have "0 \<le> n" "n < 1000000000" by (simp_all add: n_def)
  moreover have "parse_i64 (pad0 2 (nat h)) = Some h" "parse_i64 (pad0 2 (nat m)) = Some m"
    using f by (simp_all add: str_simps)
  moreover have "wrap_i64 (h * 3600 + m * 60 + s) = h * 3600 + m * 60 + s"
    using f by (simp add: machine_simps is_i64_def)
  moreover have secs: "days_since_epoch d * 86400 + (h * 3600 + m * 60 + s) = t div 1000000000"
    using f(7) year(4) by simp
  moreover have "is_i64 (t div 1000000000)"
    using assms by (auto simp: is_i64_def)
  moreover have "t mod 1000000000 = n"
    using f(8) by (simp add: n_def)
  ultimately show ?thesis
    using f(1-6) assms(1)
    by (simp add: parse_rfc3339_def parse_second_fields machine_simps map_conv_bind_option comp_def)
qed

text \<open>
  C40. Whatever instant \<open>to_rfc3339\<close> renders parses back to the same instant, for every \<open>i64\<close>
  count of nanoseconds except the lowest 0.85 seconds of the range, whose whole second is no
  longer an \<open>i64\<close> count of nanoseconds: those are rendered but rejected on reading.
\<close>

theorem rfc3339_roundtrip:
  assumes "is_i64 t"
  shows "parse_rfc3339 (to_rfc3339 t) = (if - 9223372036000000000 \<le> t then Some t else None)"
proof (cases "- 9223372036000000000 \<le> t")
  case True
  have "- 9223372036 \<le> t div 1000000000"
    using zdiv_mono1 [OF True, of 1000000000] by simp
  then have "is_i64 (t div 1000000000 * 1000000000)"
    using assms by (auto simp: is_i64_def)
  with True assms show ?thesis
    by (simp add: parse_rendered checked_mul_i64_def machine_simps)
next
  case False
  then have "t div 1000000000 \<le> - 9223372037" by auto
  then have "\<not> is_i64 (t div 1000000000 * 1000000000)" by (auto simp: is_i64_def)
  with False assms show ?thesis by (simp add: parse_rendered checked_mul_i64_def)
qed

theorem rfc3339_roundtrip_witness:
  "parse_rfc3339 (to_rfc3339 (-1)) = Some (-1) \<and>
   parse_rfc3339 (to_rfc3339 9223372036854775807) = Some 9223372036854775807 \<and>
   parse_rfc3339 (to_rfc3339 i64_min) = None"
  using rfc3339_roundtrip [of "-1"] rfc3339_roundtrip [of 9223372036854775807]
    rfc3339_roundtrip [of i64_min]
  by (simp add: is_i64_def)

text \<open>
  The civil-day algorithm is exact in both directions on day numbers: every day number whose
  shift stays in range becomes a date with a real month and a day that month has in that year
  (leap years included), and that date counts back to the same day number.
\<close>

theorem civil_days_roundtrip:
  assumes "is_i64 days" "is_i64 (days + 719468)"
  shows "valid_date (from_days_since_epoch days) \<and>
    days_since_epoch (from_days_since_epoch days) = days"
  using assms by (simp add: from_days_valid days_of_from_days)

theorem civil_days_roundtrip_witness:
  "valid_date (from_days_since_epoch 19782) \<and> days_since_epoch (from_days_since_epoch 19782) = 19782"
  using civil_days_roundtrip [of 19782] by (simp add: is_i64_def)

text \<open>
  A date parses back from its ISO form, and nothing parses to an impossible date: the reader
  rejects a month or day the calendar does not have instead of normalising it.
\<close>

theorem parse_date_sound_complete:
  "(parse_date text = Some d \<longrightarrow> valid_date d) \<and>
   (valid_date d \<and> 0 \<le> year d \<and> year d \<le> i64_max \<longrightarrow> parse_date (iso d) = Some d)"
proof -
  have "valid_date d" if "parse_date text = Some d"
    using that
    by (auto simp: parse_date_def valid_date_def Option.bind_eq_Some_conv split: list.splits if_splits)
  then show ?thesis using parse_date_iso by blast
qed

theorem parse_date_sound_complete_witness:
  "valid_date \<lparr>year = 2024, month = 2, day = 29\<rparr> \<and>
   parse_date (iso \<lparr>year = 2024, month = 2, day = 29\<rparr>) = Some \<lparr>year = 2024, month = 2, day = 29\<rparr>"
proof -
  let ?d = "\<lparr>year = 2024, month = 2, day = 29\<rparr> :: utc_date"
  have v: "valid_date ?d" by (simp add: valid_date_def days_in_month_def leap_def)
  with parse_date_sound_complete [of "[]" ?d] show ?thesis by simp
qed

text \<open>
  Consecutive days: \<open>next_date\<close> and \<open>plus_days\<close> move the day number, across month and year ends.
\<close>

lemma plus_days_days:
  assumes "is_i64 (days_since_epoch d + n)" "is_i64 (days_since_epoch d + n + 719468)"
  shows "days_since_epoch (plus_days d n) = days_since_epoch d + n" "valid_date (plus_days d n)"
  using assms by (simp_all add: plus_days_def machine_simps days_of_from_days from_days_valid)

lemma next_date_plus: "next_date d = plus_days d 1"
  by (simp add: next_date_def plus_days_def)

lemma weekday_range: "1 \<le> weekday t \<and> weekday t \<le> 7"
proof -
  have "(t div day_nanos + 3) mod 7 < 7" by simp
  then have "nat ((t div day_nanos + 3) mod 7) < 7" by linarith
  then show ?thesis by (simp add: weekday_def)
qed

section \<open>Where the reader leaves the range\<close>

text \<open>
  The reader can return an instant the text does not name: the day count times 86400 is an
  unchecked \<open>i64\<close> product, so a year of twelve digits wraps around to January 1970, and the
  fraction is added after the checked product, so the last fraction of a second of the range
  wraps to 1677.
\<close>

theorem parse_rfc3339_wraps:
  "parse_rfc3339 ''584554051223-11-15T00:00:00Z'' = Some 493184000000000 \<and>
   parse_rfc3339 ''2262-04-11T23:47:16.999999999Z'' = Some (- 9223372036709551617)"
  by (simp add: parse_rfc3339_def string_eval parse_date_def numeral_3_eq_3 days_in_month_def
      split_offset_def parse_second_def fraction_to_nanos_def days_since_epoch_def wrap_i64_def
      checked_mul_i64_def is_i64_def)

end
