(* ===== verification/Durations.thy ===== *)
theory Durations
  imports Rust_Strings Time_Model
begin

text \<open>
  \<open>src/config/duration.rs\<close>: the duration strings of the configuration. An error carries the
  strings its message quotes.
\<close>

datatype duration_error =
    NotADuration string
  | NotAnUnsignedInteger string string
  | DigitsOverflow string string
  | UnitOverflow string string

definition split_unit :: "string \<Rightarrow> (string \<times> string \<times> u64) option" where
  "split_unit raw =
     (if raw = [] then None
      else
        (let unit = (if last raw = CHR ''s'' then Some 1
                     else if last raw = CHR ''m'' then Some 60
                     else if last raw = CHR ''h'' then Some 3600
                     else if last raw = CHR ''d'' then Some 86400
                     else None);
             split_at = length raw - 1
         in map_option (\<lambda>multiplier. (take split_at raw, drop split_at raw, multiplier)) unit))"

definition parse_duration :: "string \<Rightarrow> duration_error + monotonic_duration" where
  "parse_duration raw0 =
     (let raw = trim raw0
      in case split_unit raw of
           None \<Rightarrow> Inl (NotADuration raw)
         | Some (digits, unit, multiplier) \<Rightarrow>
             if digits = [] \<or> \<not> list_all is_ascii_digit digits
             then Inl (NotAnUnsignedInteger raw digits)
             else (case parse_u64 digits of
                     None \<Rightarrow> Inl (DigitsOverflow raw digits)
                   | Some v \<Rightarrow>
                       (case checked_mul_u64 v multiplier of
                          None \<Rightarrow> Inl (UnitOverflow raw unit)
                        | Some seconds \<Rightarrow> Inr (from_seconds seconds))))"

definition format_config_duration :: "monotonic_duration \<Rightarrow> string" where
  "format_config_duration nanos =
     (let nanos_per_second = 1000000000
      in if nanos \<ge> 86400 * nanos_per_second \<and> nanos mod (86400 * nanos_per_second) = 0
         then show_nat (nanos div (86400 * nanos_per_second)) @ ''d''
         else if nanos \<ge> 3600 * nanos_per_second \<and> nanos mod (3600 * nanos_per_second) = 0
         then show_nat (nanos div (3600 * nanos_per_second)) @ ''h''
         else if nanos \<ge> 60 * nanos_per_second \<and> nanos mod (60 * nanos_per_second) = 0
         then show_nat (nanos div (60 * nanos_per_second)) @ ''m''
         else if nanos mod nanos_per_second = 0
         then show_nat (nanos div nanos_per_second) @ ''s''
         else show_nat nanos @ ''ns'')"

text \<open>The parser on a run of digits followed by one of the four units.\<close>

lemma split_unit_append:
  "split_unit (ds @ ''s'') = Some (ds, ''s'', 1)"
  "split_unit (ds @ ''m'') = Some (ds, ''m'', 60)"
  "split_unit (ds @ ''h'') = Some (ds, ''h'', 3600)"
  "split_unit (ds @ ''d'') = Some (ds, ''d'', 86400)"
  by (simp_all add: split_unit_def)

lemma trim_digits_unit:
  assumes "\<forall>c\<in>set ds. is_ascii_digit c" "ds \<noteq> []" "\<not> is_ws u"
  shows "trim (ds @ [u]) = ds @ [u]"
proof -
  have "\<not> is_ws (hd ds)" using assms digits_not_ws by simp
  then have "dropWhile is_ws (ds @ [u]) = ds @ [u]" using assms(2) by (cases ds) auto
  then show ?thesis using assms(3) by (simp add: trim_def)
qed

lemma not_ws_units [simp]: "\<not> is_ws (CHR ''s'')" "\<not> is_ws (CHR ''m'')" "\<not> is_ws (CHR ''h'')" "\<not> is_ws (CHR ''d'')"
  by (simp_all add: is_ws_def)

definition unit_seconds :: "char \<Rightarrow> u64 option" where
  "unit_seconds u =
     (if u = CHR ''s'' then Some 1 else if u = CHR ''m'' then Some 60
      else if u = CHR ''h'' then Some 3600 else if u = CHR ''d'' then Some 86400 else None)"

lemma parse_duration_unit:
  assumes "unit_seconds u = Some k" "is_u64 n" "is_u64 (n * k)"
  shows "parse_duration (show_nat n @ [u]) = Inr (from_seconds (n * k))"
proof -
  have u: "u \<in> {CHR ''s'', CHR ''m'', CHR ''h'', CHR ''d''}"
    using assms(1) by (auto simp: unit_seconds_def split: if_splits)
  have t: "trim (show_nat n @ [u]) = show_nat n @ [u]"
    using u by (intro trim_digits_unit) (auto simp: show_nat_digits)
  have k: "split_unit (show_nat n @ [u]) = Some (show_nat n, [u], k)"
    using u assms(1) by (auto simp: split_unit_append unit_seconds_def)
  have d: "list_all is_ascii_digit (show_nat n)" by (simp add: list_all_iff show_nat_digits)
  show ?thesis
    using assms d by (simp add: parse_duration_def t k Let_def str_simps checked_mul_u64_def)
qed

lemma from_seconds_exact: "n mod 1000000000 = 0 \<Longrightarrow> is_u64 n \<Longrightarrow> from_seconds (n div 1000000000) = n"
  by (simp add: from_seconds_def sat_mul_u64_def is_u64_def mod_0_imp_dvd)

lemma parse_whole_units:
  assumes "unit_seconds u = Some k" "0 < k" "nanos mod (k * 1000000000) = 0" "is_u64 nanos"
  shows "parse_duration (show_nat (nanos div (k * 1000000000)) @ [u]) = Inr nanos"
proof -
  define n where "n = nanos div (k * 1000000000)"
  have n: "nanos = n * k * 1000000000" using assms(3) by (auto simp: n_def mod_0_imp_dvd)
  have "n \<le> nanos" "n * k \<le> nanos" using n assms(2) by (simp_all add: mult_le_mono)
  with assms(4) have "is_u64 n" "is_u64 (n * k)" by (simp_all add: is_u64_def)
  then have "parse_duration (show_nat n @ [u]) = Inr (from_seconds (n * k))"
    using assms(1) by (rule parse_duration_unit [rotated])
  also have "from_seconds (n * k) = nanos"
    using assms(4) n by (simp add: from_seconds_def machine_simps)
  finally show ?thesis by (simp add: n_def)
qed

lemma parse_nanos_refused: "parse_duration (show_nat n @ ''ns'') = Inl (NotAnUnsignedInteger (show_nat n @ ''ns'') (show_nat n @ ''n''))"
proof -
  have t: "trim (show_nat n @ ''ns'') = show_nat n @ ''ns''"
  proof -
    have "\<not> is_ws (hd (show_nat n))" using show_nat_digits digits_not_ws by (metis list.set_sel(1) show_nat_nonempty)
    then have "dropWhile is_ws (show_nat n @ ''ns'') = show_nat n @ ''ns''"
      by (cases "show_nat n") auto
    then show ?thesis by (simp add: trim_def)
  qed
  have "split_unit ((show_nat n @ ''n'') @ ''s'') = Some (show_nat n @ ''n'', ''s'', 1)"
    by (rule split_unit_append)
  moreover have "\<not> is_ascii_digit (CHR ''n'')" by (simp add: is_ascii_digit_def digit_value_def)
  ultimately show ?thesis by (simp add: parse_duration_def t Let_def)
qed

text \<open>
  The configuration's duration strings round trip: what \<open>aub config\<close> prints for a duration of
  whole seconds parses back to exactly that duration, whichever unit was chosen, and a duration
  that is no whole number of seconds is printed in a form the parser refuses rather than rounds.
\<close>

theorem config_duration_roundtrip:
  assumes "is_u64 nanos"
  shows "parse_duration (format_config_duration nanos) =
    (if nanos mod 1000000000 = 0 then Inr nanos
     else Inl (NotAnUnsignedInteger (show_nat nanos @ ''ns'') (show_nat nanos @ ''n'')))"
proof -
  have sub: "nanos mod (k * 1000000000) = 0 \<Longrightarrow> nanos mod 1000000000 = 0" for k :: nat
    by (metis dvd_mult_right mod_0_imp_dvd dvd_imp_mod_0)
  have units: "unit_seconds CHR ''s'' = Some 1" "unit_seconds CHR ''m'' = Some 60"
    "unit_seconds CHR ''h'' = Some 3600" "unit_seconds CHR ''d'' = Some 86400"
    by (simp_all add: unit_seconds_def)
  note parse = parse_whole_units [OF units(1) _ _ assms] parse_whole_units [OF units(2) _ _ assms]
    parse_whole_units [OF units(3) _ _ assms] parse_whole_units [OF units(4) _ _ assms]
  show ?thesis
    using parse sub [of 60] sub [of 3600] sub [of 86400] parse_nanos_refused [of nanos]
    by (simp add: format_config_duration_def Let_def)
qed

theorem config_duration_roundtrip_witness:
  "parse_duration (format_config_duration 172800000000000) = Inr 172800000000000 \<and>
   (\<forall>d. parse_duration (format_config_duration 1500000000) \<noteq> Inr d)"
  using config_duration_roundtrip [of 172800000000000] config_duration_roundtrip [of 1500000000]
  by (simp add: is_u64_def)

end
