(* ===== verification/Intervals.thy ===== *)
theory Intervals
  imports Prelude
begin

text \<open>
  \<open>src/domain/interval.rs\<close>: closed intervals over an ordered domain quantity. The trait
  \<open>DomainQuantity\<close> asks for an order, addition, subtraction and multiplication, which are the
  type classes of the element type here; what the interval arithmetic needs of them to be sound
  is stated in two locales that the quantity types of the model interpret. The float-based text
  form (\<open>Display\<close>, \<open>FromStr\<close>) is not modelled.
\<close>

record 'a interval =
  lower :: 'a
  upper :: 'a

datatype interval_error = LowerAboveUpper | Malformed | UnitMismatch

definition interval_new :: "'a::linorder \<Rightarrow> 'a \<Rightarrow> interval_error + 'a interval" where
  "interval_new lo up =
     (if lo > up then Inl LowerAboveUpper else Inr \<lparr>lower = lo, upper = up\<rparr>)"

definition width :: "'a::minus interval \<Rightarrow> 'a" where
  "width i = upper i - lower i"

definition interval_add :: "'a::plus interval \<Rightarrow> 'a interval \<Rightarrow> 'a interval" where
  "interval_add i j = \<lparr>lower = lower i + lower j, upper = upper i + upper j\<rparr>"

definition interval_sub :: "'a::minus interval \<Rightarrow> 'a interval \<Rightarrow> 'a interval" where
  "interval_sub i j = \<lparr>lower = lower i - upper j, upper = upper i - lower j\<rparr>"

definition interval_mul :: "'a::{linorder,times} interval \<Rightarrow> 'a interval \<Rightarrow> 'a interval" where
  "interval_mul i j =
     (let p1 = lower i * lower j; p2 = lower i * upper j;
          p3 = upper i * lower j; p4 = upper i * upper j
      in \<lparr>lower = min (min (min p1 p2) p3) p4, upper = max (max (max p1 p2) p3) p4\<rparr>)"

definition interval_scale :: "'a::{linorder,times} interval \<Rightarrow> 'a \<Rightarrow> 'a interval" where
  "interval_scale i s =
     (let a = lower i * s; b = upper i * s
      in if a \<le> b then \<lparr>lower = a, upper = b\<rparr> else \<lparr>lower = b, upper = a\<rparr>)"

definition interval_ok :: "'a::linorder interval \<Rightarrow> bool" where
  "interval_ok i \<longleftrightarrow> lower i \<le> upper i"

definition contains :: "'a::linorder interval \<Rightarrow> 'a \<Rightarrow> bool" where
  "contains i x \<longleftrightarrow> lower i \<le> x \<and> x \<le> upper i"

lemma interval_new_ok: "interval_new lo up = Inr i \<Longrightarrow> interval_ok i \<and> lower i = lo \<and> upper i = up"
  by (auto simp: interval_new_def interval_ok_def split: if_splits)

lemma interval_mul_ok: "interval_ok (interval_mul i j)"
  by (simp add: interval_ok_def interval_mul_def Let_def min_le_iff_disj le_max_iff_disj)

lemma interval_scale_ok: "interval_ok (interval_scale i s)"
  by (auto simp: interval_ok_def interval_scale_def Let_def)

text \<open>
  Subtraction falls in its second argument and multiplication is monotone or antitone in each
  argument: what makes the difference, product and scaling of intervals enclose.
\<close>

locale quantity_order =
  fixes sub mul :: "'a::linorder \<Rightarrow> 'a \<Rightarrow> 'a"
  assumes sub_mono: "a \<le> b \<Longrightarrow> c \<le> d \<Longrightarrow> sub a d \<le> sub b c"
    and mul_left: "a \<le> x \<Longrightarrow> x \<le> b \<Longrightarrow> min (mul a y) (mul b y) \<le> mul x y \<and> mul x y \<le> max (mul a y) (mul b y)"
    and mul_right: "c \<le> y \<Longrightarrow> y \<le> d \<Longrightarrow> min (mul x c) (mul x d) \<le> mul x y \<and> mul x y \<le> max (mul x c) (mul x d)"
begin

lemma mul_encloses:
  assumes "a \<le> x" "x \<le> b" "c \<le> y" "y \<le> d"
  shows "min (min (min (mul a c) (mul a d)) (mul b c)) (mul b d) \<le> mul x y \<and>
    mul x y \<le> max (max (max (mul a c) (mul a d)) (mul b c)) (mul b d)"
proof -
  have "min (mul a y) (mul b y) \<le> mul x y" "mul x y \<le> max (mul a y) (mul b y)"
    using mul_left [OF assms(1,2)] by blast+
  moreover have "min (mul k c) (mul k d) \<le> mul k y" "mul k y \<le> max (mul k c) (mul k d)" for k
    using mul_right [OF assms(3,4)] by blast+
  ultimately show ?thesis
    unfolding min_le_iff_disj le_max_iff_disj by (meson order_trans)
qed

lemma sub_encloses: "a \<le> x \<Longrightarrow> x \<le> b \<Longrightarrow> c \<le> y \<Longrightarrow> y \<le> d \<Longrightarrow> sub a d \<le> sub x y \<and> sub x y \<le> sub b c"
  by (simp add: sub_mono)

end

text \<open>Addition is monotone too: the whole interval arithmetic encloses.\<close>

locale quantity_arith = quantity_order sub mul for sub mul :: "'a::linorder \<Rightarrow> 'a \<Rightarrow> 'a" +
  fixes add :: "'a \<Rightarrow> 'a \<Rightarrow> 'a"
  assumes add_mono: "a \<le> b \<Longrightarrow> c \<le> d \<Longrightarrow> add a c \<le> add b d"
begin

lemma add_encloses: "a \<le> x \<Longrightarrow> x \<le> b \<Longrightarrow> c \<le> y \<Longrightarrow> y \<le> d \<Longrightarrow> add a c \<le> add x y \<and> add x y \<le> add b d"
  by (simp add: add_mono)

end

text \<open>The endpoints of the interval operations, for the facts the interpretations prove.\<close>

lemmas interval_defs =
  interval_add_def interval_sub_def interval_mul_def interval_scale_def contains_def interval_ok_def
  Let_def

end
