(* ===== verification/Quantities.thy ===== *)
theory Quantities
  imports Intervals Rust_Strings "HOL-Library.Signed_Division"
begin

text \<open>
  The numeric domain quantities: the token and row counts of \<open>src/domain/tokens.rs\<close> and
  \<open>src/domain/rows.rs\<close>, the quota fractions and percentage points of \<open>src/domain/quota.rs\<close>, the
  credits of \<open>src/domain/credits.rs\<close> and the money of \<open>src/domain/money.rs\<close>. Each newtype is a
  datatype of its own, so that quantities of different units do not mix in the model either, and
  each is an instance of the classes its Rust operators make it one of.
\<close>

section \<open>Rounding division\<close>

text \<open>
  Rust's \<open>/\<close> and \<open>%\<close> truncate towards zero: \<open>sdiv\<close> and \<open>smod\<close>. The same helper is written three
  times in the source, once per module. An \<open>i128\<close> holds every product it is given.
\<close>

definition round_div :: "int \<Rightarrow> int \<Rightarrow> int" where
  "round_div numerator denominator =
     (let quotient = numerator sdiv denominator;
          remainder = numerator smod denominator
      in if \<bar>remainder\<bar> * 2 \<ge> denominator
         then (if numerator \<ge> 0 then quotient + 1 else quotient - 1)
         else quotient)"

definition money_round_div :: "int \<Rightarrow> int \<Rightarrow> int" where
  "money_round_div numerator denominator =
     (let quotient = numerator sdiv denominator;
          remainder = numerator smod denominator
      in if \<bar>remainder\<bar> * 2 \<ge> denominator
         then (if numerator \<ge> 0 then quotient + 1 else quotient - 1)
         else quotient)"

definition round_half_away :: "int \<Rightarrow> int \<Rightarrow> int" where
  "round_half_away numerator denominator =
     (let quotient = numerator sdiv denominator;
          remainder = numerator smod denominator
      in if \<bar>remainder\<bar> * 2 \<ge> denominator
         then (if numerator \<ge> 0 then quotient + 1 else quotient - 1)
         else quotient)"

lemma round_div_copies: "money_round_div = round_div" "round_half_away = round_div"
  by (simp_all add: fun_eq_iff money_round_div_def round_div_def round_half_away_def)

lemma sdiv_nonneg:
  fixes n d :: int
  assumes "0 \<le> n" "0 < d"
  shows "n sdiv d = n div d" "n smod d = n mod d"
  using assms by (auto simp: signed_divide_int_def signed_modulo_int_def sgn_if)

lemma round_div_nonneg:
  assumes "0 < d" "0 \<le> n"
  shows "round_div n d = (2 * n + d) div (2 * d)"
proof -
  define q where "q = n div d"
  define r where "r = n mod d"
  have n: "n = d * q + r" "0 \<le> r" "r < d" using assms by (simp_all add: q_def r_def)
  have "round_div n d = (if 2 * r \<ge> d then q + 1 else q)"
    using assms n(2) by (simp add: round_div_def sdiv_nonneg q_def r_def)
  moreover have "(2 * n + d) div (2 * d) = (if 2 * r \<ge> d then q + 1 else q)"
  proof (cases "2 * r \<ge> d")
    case True
    then show ?thesis
      using n assms by (intro int_div_pos_eq [where r = "2 * r - d"]) (auto simp: algebra_simps)
  next
    case False
    then show ?thesis
      using n assms by (intro int_div_pos_eq [where r = "2 * r + d"]) (auto simp: algebra_simps)
  qed
  ultimately show ?thesis by simp
qed

lemma round_div_neg: "0 < d \<Longrightarrow> round_div (- n) d = - round_div n d"
  by (cases "n = 0") (auto simp: round_div_def signed_divide_int_def signed_modulo_int_def Let_def sgn_if)

lemma round_div_mono:
  assumes "0 < d" "m \<le> n"
  shows "round_div m d \<le> round_div n d"
proof -
  have nonneg: "round_div a d \<le> round_div b d" if "0 \<le> a" "a \<le> b" for a b
    using that assms(1) by (simp add: round_div_nonneg zdiv_mono1)
  have pos: "0 \<le> round_div a d" if "0 \<le> a" for a
    using that assms(1) by (simp add: round_div_nonneg pos_imp_zdiv_nonneg_iff)
  consider "0 \<le> m" | "m < 0" "0 \<le> n" | "n < 0" by linarith
  then show ?thesis
  proof cases
    case 1
    then show ?thesis using nonneg assms(2) by blast
  next
    case 2
    then have "round_div m d = - round_div (- m) d" "0 \<le> round_div (- m) d" "0 \<le> round_div n d"
      using round_div_neg [OF assms(1), of "- m"] pos by auto
    then show ?thesis by linarith
  next
    case 3
    then have "round_div (- n) d \<le> round_div (- m) d" using nonneg [of "- n" "- m"] assms(2) by simp
    then show ?thesis
      using round_div_neg [OF assms(1), of "- m"] round_div_neg [OF assms(1), of "- n"] by simp
  qed
qed

lemma round_div_near:
  assumes "0 < d"
  shows "2 * \<bar>d * round_div n d - n\<bar> \<le> d \<and>
      (2 * \<bar>d * round_div n d - n\<bar> = d \<longrightarrow> \<bar>n\<bar> \<le> d * \<bar>round_div n d\<bar>)"
proof -
  have pos: "2 * \<bar>d * round_div a d - a\<bar> \<le> d \<and>
      (2 * \<bar>d * round_div a d - a\<bar> = d \<longrightarrow> a \<le> d * round_div a d) \<and> 0 \<le> round_div a d" if a: "0 \<le> a" for a
  proof -
    let ?q = "(2 * a + d) div (2 * d)"
    have "2 * a + d = 2 * d * ?q + (2 * a + d) mod (2 * d)" by simp
    moreover have "0 \<le> (2 * a + d) mod (2 * d)" "(2 * a + d) mod (2 * d) < 2 * d"
      using assms by simp_all
    ultimately have "2 * (d * ?q - a) \<le> d" "- d < 2 * (d * ?q - a)"
      by (simp_all add: algebra_simps)
    then have "2 * \<bar>d * ?q - a\<bar> \<le> d \<and> (2 * \<bar>d * ?q - a\<bar> = d \<longrightarrow> a \<le> d * ?q)"
      by (auto simp: abs_if)
    moreover have "round_div a d = ?q" using a assms by (simp add: round_div_nonneg)
    moreover have "0 \<le> ?q" using a assms by (simp add: pos_imp_zdiv_nonneg_iff)
    ultimately show ?thesis by presburger
  qed
  show ?thesis
  proof (cases "0 \<le> n")
    case True
    then show ?thesis
      using pos [OF True] abs_of_nonneg [OF True] abs_of_nonneg [of "round_div n d"] by metis
  next
    case False
    then have "round_div n d = - round_div (- n) d"
      using round_div_neg [OF assms, of "- n"] by simp
    moreover have "d * round_div n d - n = - (d * round_div (- n) d - - n)"
      using calculation by simp
    ultimately show ?thesis
      using pos [of "- n"] False by (metis abs_minus_cancel abs_of_neg abs_of_nonneg le_minus_iff
        minus_minus neg_le_0_iff_le not_le order_less_imp_le)
  qed
qed

lemma round_div_nearest: "0 < d \<Longrightarrow> 2 * \<bar>d * round_div n d - n\<bar> \<le> d"
  using round_div_near by blast

text \<open>
  The rounding helper of credits, money and quota rounds to a nearest integer with ties away
  from zero: the error is at most half a unit, a tie moves the magnitude up, it is symmetric in
  the sign, and it is monotone.
\<close>

theorem round_div_half_away:
  assumes "0 < d"
  shows "2 * \<bar>d * round_div n d - n\<bar> \<le> d \<and>
    (2 * \<bar>d * round_div n d - n\<bar> = d \<longrightarrow> \<bar>n\<bar> \<le> d * \<bar>round_div n d\<bar>) \<and>
    round_div (- n) d = - round_div n d \<and>
    (\<forall>m\<ge>n. round_div n d \<le> round_div m d)"
  using round_div_near [OF assms] round_div_neg [OF assms] round_div_mono [OF assms] by blast

theorem round_div_half_away_witness:
  "2 * \<bar>10 * round_div (- 25) 10 - (- 25)\<bar> \<le> (10::int) \<and> round_div (- 25) 10 = - 3"
  using round_div_half_away [of 10 "- 25"]
  by (simp add: round_div_def signed_divide_int_def signed_modulo_int_def)

section \<open>Token and row counts\<close>

datatype token_count = TokenCount (tc_value: u64)
datatype row_count = RowCount (rc_value: u64)

definition tc_add :: "token_count \<Rightarrow> token_count \<Rightarrow> token_count" where
  "tc_add a b = TokenCount (wrap_u64 (tc_value a + tc_value b))"

definition tc_sub :: "token_count \<Rightarrow> token_count \<Rightarrow> token_count" where
  "tc_sub a b = TokenCount (sat_sub_u64 (tc_value a) (tc_value b))"

definition tc_mul :: "token_count \<Rightarrow> token_count \<Rightarrow> token_count" where
  "tc_mul a b = TokenCount (sat_mul_u64 (tc_value a) (tc_value b))"

definition tc_to_exact_string :: "token_count \<Rightarrow> string" where
  "tc_to_exact_string a = show_nat (tc_value a)"

definition tc_from_exact_str :: "string \<Rightarrow> token_count option" where
  "tc_from_exact_str s = map_option TokenCount (parse_u64 s)"

definition rc_add :: "row_count \<Rightarrow> row_count \<Rightarrow> row_count" where
  "rc_add a b = RowCount (sat_add_u64 (rc_value a) (rc_value b))"

definition rc_sub :: "row_count \<Rightarrow> row_count \<Rightarrow> row_count" where
  "rc_sub a b = RowCount (sat_sub_u64 (rc_value a) (rc_value b))"

definition rc_mul :: "row_count \<Rightarrow> row_count \<Rightarrow> row_count" where
  "rc_mul a b = RowCount (sat_mul_u64 (rc_value a) (rc_value b))"

definition rc_to_exact_string :: "row_count \<Rightarrow> string" where
  "rc_to_exact_string a = show_nat (rc_value a)"

definition rc_from_exact_str :: "string \<Rightarrow> row_count option" where
  "rc_from_exact_str s = map_option RowCount (parse_u64 s)"

instantiation token_count :: linorder
begin
definition "a \<le> b \<longleftrightarrow> tc_value a \<le> tc_value b"
definition "(a::token_count) < b \<longleftrightarrow> tc_value a < tc_value b"
instance by standard (auto simp: less_eq_token_count_def less_token_count_def token_count.expand)
end

instantiation token_count :: "{plus,minus,times}"
begin
definition "a + b = tc_add a b"
definition "a - b = tc_sub a b"
definition "a * b = tc_mul a b"
instance ..
end

instantiation row_count :: linorder
begin
definition "a \<le> b \<longleftrightarrow> rc_value a \<le> rc_value b"
definition "(a::row_count) < b \<longleftrightarrow> rc_value a < rc_value b"
instance by standard (auto simp: less_eq_row_count_def less_row_count_def row_count.expand)
end

instantiation row_count :: "{plus,minus,times}"
begin
definition "a + b = rc_add a b"
definition "a - b = rc_sub a b"
definition "a * b = rc_mul a b"
instance ..
end

lemmas token_count_defs =
  less_eq_token_count_def less_token_count_def plus_token_count_def minus_token_count_def
  times_token_count_def tc_add_def tc_sub_def tc_mul_def
lemmas row_count_defs =
  less_eq_row_count_def less_row_count_def plus_row_count_def minus_row_count_def
  times_row_count_def rc_add_def rc_sub_def rc_mul_def

lemma sat_mul_u64_le:
  "a \<le> b \<Longrightarrow> sat_mul_u64 a y \<le> sat_mul_u64 b y"
  "a \<le> b \<Longrightarrow> sat_mul_u64 y a \<le> sat_mul_u64 y b"
  by (simp_all add: sat_mul_u64_def min.coboundedI1 mult_le_mono1 mult_le_mono2)

lemma sat_sub_u64_mono: "a \<le> b \<Longrightarrow> c \<le> d \<Longrightarrow> sat_sub_u64 a d \<le> sat_sub_u64 b c"
  unfolding sat_sub_u64_def by arith

lemma sat_add_u64_mono: "a \<le> b \<Longrightarrow> c \<le> d \<Longrightarrow> sat_add_u64 a c \<le> sat_add_u64 b d"
  unfolding sat_add_u64_def by arith

lemma token_count_mono:
  fixes a b c d :: token_count
  shows "a \<le> b \<Longrightarrow> c \<le> d \<Longrightarrow> a - d \<le> b - c"
    and "a \<le> b \<Longrightarrow> a * c \<le> b * c"
    and "a \<le> b \<Longrightarrow> c * a \<le> c * b"
  by (simp_all add: token_count_defs sat_sub_u64_mono sat_mul_u64_le)

lemma row_count_mono:
  fixes a b c d :: row_count
  shows "a \<le> b \<Longrightarrow> c \<le> d \<Longrightarrow> a - d \<le> b - c"
    and "a \<le> b \<Longrightarrow> a * c \<le> b * c"
    and "a \<le> b \<Longrightarrow> c * a \<le> c * b"
    and "a \<le> b \<Longrightarrow> c \<le> d \<Longrightarrow> a + c \<le> b + d"
  by (simp_all add: row_count_defs sat_sub_u64_mono sat_add_u64_mono sat_mul_u64_le)

interpretation tokens: quantity_order "(-)" "(*) :: token_count \<Rightarrow> token_count \<Rightarrow> token_count"
  by unfold_locales (simp_all add: token_count_mono min_le_iff_disj le_max_iff_disj)

interpretation rows: quantity_arith "(-)" "(*) :: row_count \<Rightarrow> row_count \<Rightarrow> row_count" "(+)"
  by unfold_locales (simp_all add: row_count_mono min_le_iff_disj le_max_iff_disj)

lemma exact_string_roundtrip:
  "is_u64 (tc_value a) \<Longrightarrow> tc_from_exact_str (tc_to_exact_string a) = Some a"
  "is_u64 (rc_value b) \<Longrightarrow> rc_from_exact_str (rc_to_exact_string b) = Some b"
  by (simp_all add: tc_from_exact_str_def tc_to_exact_string_def rc_from_exact_str_def
      rc_to_exact_string_def str_simps)

section \<open>Quota fractions and percentage points\<close>

definition is_i32 :: "int \<Rightarrow> bool" where
  "is_i32 v \<longleftrightarrow> - (2 ^ 31) \<le> v \<and> v < 2 ^ 31"

definition clamp_int :: "int \<Rightarrow> int \<Rightarrow> int \<Rightarrow> int" where
  "clamp_int lo hi v = max lo (min v hi)"

abbreviation ppm_max :: nat where "ppm_max \<equiv> 1000000"
abbreviation pp_min :: int where "pp_min \<equiv> - 1000000"
abbreviation pp_max :: int where "pp_max \<equiv> 1000000"

datatype quota_fraction = QuotaFractionPpm (ppm: nat)
datatype quota_used = QuotaUsed (used_ppm: quota_fraction)
datatype quota_remaining = QuotaRemaining (remaining_ppm: quota_fraction)
datatype percentage_points = PercentagePoints (pp: int)

definition fraction_new :: "int \<Rightarrow> quota_fraction option" where
  "fraction_new v = (if 0 \<le> v \<and> v \<le> int ppm_max then Some (QuotaFractionPpm (nat v)) else None)"

definition fraction_ok :: "quota_fraction \<Rightarrow> bool" where
  "fraction_ok f \<longleftrightarrow> ppm f \<le> ppm_max"

definition fraction_sub :: "quota_fraction \<Rightarrow> quota_fraction \<Rightarrow> percentage_points" where
  "fraction_sub a b = PercentagePoints (int (ppm a) - int (ppm b))"

definition complement_used :: "quota_used \<Rightarrow> quota_remaining" where
  "complement_used u = QuotaRemaining (QuotaFractionPpm (ppm_max - ppm (used_ppm u)))"

definition complement_remaining :: "quota_remaining \<Rightarrow> quota_used" where
  "complement_remaining r = QuotaUsed (QuotaFractionPpm (ppm_max - ppm (remaining_ppm r)))"

definition points_new :: "int \<Rightarrow> percentage_points option" where
  "points_new v = (if pp_min \<le> v \<and> v \<le> pp_max then Some (PercentagePoints v) else None)"

definition points_ok :: "percentage_points \<Rightarrow> bool" where
  "points_ok p \<longleftrightarrow> pp_min \<le> pp p \<and> pp p \<le> pp_max"

text \<open>
  The saturation of the \<open>i32\<close> addition is never reached before the clamp, whose range is the
  narrower; it is written out here because the code has both.
\<close>

definition sat_i32 :: "int \<Rightarrow> int" where
  "sat_i32 v = clamp_int (- (2 ^ 31)) (2 ^ 31 - 1) v"

definition points_add :: "percentage_points \<Rightarrow> percentage_points \<Rightarrow> percentage_points" where
  "points_add a b = PercentagePoints (clamp_int pp_min pp_max (sat_i32 (pp a + pp b)))"

definition points_sub :: "percentage_points \<Rightarrow> percentage_points \<Rightarrow> percentage_points" where
  "points_sub a b = PercentagePoints (clamp_int pp_min pp_max (sat_i32 (pp a - pp b)))"

definition points_mul :: "percentage_points \<Rightarrow> percentage_points \<Rightarrow> percentage_points" where
  "points_mul a b = PercentagePoints (clamp_int pp_min pp_max ((pp a * pp b) sdiv 10000))"

definition points_from_exact_str :: "string \<Rightarrow> percentage_points option" where
  "points_from_exact_str s =
     (case parse_i64 s of
        None \<Rightarrow> None
      | Some v \<Rightarrow> if is_i32 v then points_new v else None)"

datatype points_rate = PointsPerMillionTokens (micro_points: i64)

definition points_times_tokens :: "points_rate \<Rightarrow> u64 \<Rightarrow> percentage_points option" where
  "points_times_tokens rate tokens =
     (let micro = (micro_points rate * int tokens) sdiv 1000000;
          native = round_half_away micro 100
      in if is_i32 native then points_new native else None)"

instantiation percentage_points :: linorder
begin
definition "a \<le> b \<longleftrightarrow> pp a \<le> pp b"
definition "(a::percentage_points) < b \<longleftrightarrow> pp a < pp b"
instance
  by standard
    (auto simp: less_eq_percentage_points_def less_percentage_points_def percentage_points.expand)
end

instantiation percentage_points :: "{plus,minus,times}"
begin
definition "a + b = points_add a b"
definition "a - b = points_sub a b"
definition "a * b = points_mul a b"
instance ..
end

lemmas points_defs =
  less_eq_percentage_points_def less_percentage_points_def plus_percentage_points_def
  minus_percentage_points_def times_percentage_points_def points_add_def points_sub_def points_mul_def

lemma clamp_int_mono: "a \<le> b \<Longrightarrow> clamp_int lo hi a \<le> clamp_int lo hi b"
  by (simp add: clamp_int_def)

lemma clamp_int_range: "lo \<le> hi \<Longrightarrow> lo \<le> clamp_int lo hi v \<and> clamp_int lo hi v \<le> hi"
  by (simp add: clamp_int_def)

lemma clamp_int_id: "lo \<le> v \<Longrightarrow> v \<le> hi \<Longrightarrow> clamp_int lo hi v = v"
  by (simp add: clamp_int_def)

lemma sdiv_mono:
  fixes m n d :: int
  assumes "0 < d" "m \<le> n"
  shows "m sdiv d \<le> n sdiv d"
proof -
  have "m sdiv d = (if 0 \<le> m then m div d else - ((- m) div d))" for m
    using assms(1) by (auto simp: signed_divide_int_def sgn_if)
  then show ?thesis
    using assms zdiv_mono1 [of m n d] zdiv_mono1 [of "- n" "- m" d]
      pos_imp_zdiv_nonneg_iff [of d n] pos_imp_zdiv_nonneg_iff [of d "- m"]
    by auto
qed

lemma int_mult_between:
  fixes a b x y :: int
  assumes "a \<le> x" "x \<le> b"
  shows "(a * y \<le> x * y \<and> x * y \<le> b * y) \<or> (b * y \<le> x * y \<and> x * y \<le> a * y)"
  using assms by (cases "0 \<le> y") (simp_all add: mult_right_mono mult_right_mono_neg)

lemma points_mul_mono: "pp a * pp b \<le> pp c * pp d \<Longrightarrow> a * b \<le> c * d"
  by (simp add: points_defs clamp_int_mono sdiv_mono)

lemma points_mono:
  fixes a b c d :: percentage_points
  shows "a \<le> b \<Longrightarrow> c \<le> d \<Longrightarrow> a - d \<le> b - c"
    and "a \<le> b \<Longrightarrow> c \<le> d \<Longrightarrow> a + c \<le> b + d"
  by (simp_all add: points_defs sat_i32_def clamp_int_mono)

lemma points_mul_comm: "(a::percentage_points) * b = b * a"
  by (simp add: points_defs mult.commute)

lemma points_mul_between:
  fixes a b x y :: percentage_points
  assumes "a \<le> x" "x \<le> b"
  shows "min (a * y) (b * y) \<le> x * y \<and> x * y \<le> max (a * y) (b * y)"
proof -
  have "pp a \<le> pp x" "pp x \<le> pp b" using assms by (simp_all add: less_eq_percentage_points_def)
  then show ?thesis
    using int_mult_between [of "pp a" "pp x" "pp b" "pp y"] points_mul_mono
    by (metis min_le_iff_disj le_max_iff_disj)
qed

interpretation points: quantity_arith "(-)" "(*) :: percentage_points \<Rightarrow> percentage_points \<Rightarrow> percentage_points" "(+)"
proof unfold_locales
  fix c y d x :: percentage_points
  assume "c \<le> y" "y \<le> d"
  then show "min (x * c) (x * d) \<le> x * y \<and> x * y \<le> max (x * c) (x * d)"
    using points_mul_between [of c y d x] by (simp only: points_mul_comm [of x])
qed (simp_all add: points_mono points_mul_between)

text \<open>
  Interval arithmetic over percentage points encloses: whatever values the two operands can
  have, the sum, the difference, the product and the scaling of the values lie in the interval the
  operation computes, in spite of the saturation and the rounding of the quantity itself, and the
  result is an interval again.
\<close>

theorem points_interval_encloses:
  fixes i j :: "percentage_points interval"
  assumes "contains i x" "contains j y"
  shows "contains (interval_add i j) (x + y) \<and> contains (interval_sub i j) (x - y) \<and>
    contains (interval_mul i j) (x * y) \<and> contains (interval_scale i y) (x * y) \<and>
    interval_ok (interval_add i j) \<and> interval_ok (interval_sub i j)"
proof -
  have b: "lower i \<le> x" "x \<le> upper i" "lower j \<le> y" "y \<le> upper j"
    using assms by (simp_all add: contains_def)
  show ?thesis
    using points.add_encloses [OF b] points.sub_encloses [OF b] points.mul_encloses [OF b]
      points.mul_left [OF b(1,2), of y]
    by (auto simp: interval_defs min_def max_def)
qed

theorem points_interval_encloses_witness:
  "let i = \<lparr>lower = PercentagePoints (- 20000), upper = PercentagePoints 30000\<rparr>;
       x = PercentagePoints 10000; y = PercentagePoints (- 20000)
   in contains (interval_mul i i) (x * y) \<and> x * y = PercentagePoints (- 20000) \<and>
      interval_mul i i = \<lparr>lower = PercentagePoints (- 60000), upper = PercentagePoints 90000\<rparr>"
  using points_interval_encloses
    [of "\<lparr>lower = PercentagePoints (- 20000), upper = PercentagePoints 30000\<rparr>" "PercentagePoints 10000"
      "\<lparr>lower = PercentagePoints (- 20000), upper = PercentagePoints 30000\<rparr>" "PercentagePoints (- 20000)"]
  by (simp add: contains_def interval_mul_def points_defs clamp_int_def signed_divide_int_def min_def max_def Let_def)

lemma fraction_new_ok: "fraction_new v = Some f \<Longrightarrow> fraction_ok f \<and> int (ppm f) = v"
  by (auto simp: fraction_new_def fraction_ok_def split: if_splits)

text \<open>
  Levels and deltas of quota: a constructed level lies in 0..100 percent, the difference of two
  levels is a representable delta and is antisymmetric, and used and remaining are complements:
  complementing twice gives the level back and the two sum to 100 percent.
\<close>

theorem quota_levels_and_deltas:
  assumes "fraction_new v = Some f" "fraction_new w = Some g"
  shows "points_ok (fraction_sub f g) \<and> points_new (v - w) = Some (fraction_sub f g) \<and>
    pp (fraction_sub g f) = - pp (fraction_sub f g) \<and>
    complement_remaining (complement_used (QuotaUsed f)) = QuotaUsed f \<and>
    complement_used (complement_remaining (QuotaRemaining f)) = QuotaRemaining f \<and>
    ppm f + ppm (remaining_ppm (complement_used (QuotaUsed f))) = ppm_max \<and>
    fraction_ok (remaining_ppm (complement_used (QuotaUsed f)))"
  using fraction_new_ok [OF assms(1)] fraction_new_ok [OF assms(2)]
  by (auto simp: points_ok_def fraction_sub_def points_new_def complement_used_def
      complement_remaining_def fraction_ok_def quota_fraction.expand)

theorem quota_levels_and_deltas_witness:
  "complement_used (QuotaUsed (QuotaFractionPpm 300000)) = QuotaRemaining (QuotaFractionPpm 700000) \<and>
   points_new (- 700000) = Some (fraction_sub (QuotaFractionPpm 300000) (QuotaFractionPpm 1000000))"
  using quota_levels_and_deltas [of 300000 "QuotaFractionPpm 300000" 1000000 "QuotaFractionPpm 1000000"]
  by (simp add: fraction_new_def complement_used_def)

lemma round_div_after_truncation:
  assumes "0 < k" "0 < d" "even d"
  shows "round_div (n sdiv k) d = round_div n (k * d)"
proof -
  have kd: "0 < k * d" using assms by simp
  have pos: "round_div (a sdiv k) d = round_div a (k * d)" if "0 \<le> a" for a
  proof -
    obtain h where h: "d = 2 * h" "0 < h" using assms by (auto elim: evenE)
    have "round_div (a sdiv k) d = (2 * (a div k) + d) div (2 * d)"
      using that assms by (simp add: sdiv_nonneg round_div_nonneg pos_imp_zdiv_nonneg_iff)
    also have "\<dots> = (2 * (a div k + h)) div (2 * d)"
      using h(1) by simp
    also have "\<dots> = (a div k + h) div d"
      by (simp only: div_mult_mult1_if) simp
    also have "\<dots> = (a + k * h) div k div d"
      using assms(1) by (simp add: add.commute)
    also have "\<dots> = (a + k * h) div (k * d)"
      using assms by (simp add: zdiv_zmult2_eq)
    also have "\<dots> = (2 * (a + k * h)) div (2 * (k * d))"
      by (simp only: div_mult_mult1_if) simp
    also have "\<dots> = round_div a (k * d)"
      using that kd h by (simp add: round_div_nonneg algebra_simps)
    finally show ?thesis .
  qed
  show ?thesis
  proof (cases "0 \<le> n")
    case False
    then have "n sdiv k = - ((- n) sdiv k)"
      using assms(1) by (simp add: signed_divide_int_def sgn_if)
    then show ?thesis
      using False pos [of "- n"] round_div_neg [OF assms(2)] round_div_neg [OF kd, of "- n"] by simp
  qed (rule pos)
qed

text \<open>
  Converting tokens into window points divides twice, truncating by a million first; the
  result is all the same the product rounded once, half away from zero, and is refused exactly
  when that rounded figure is no percentage-point delta.
\<close>

theorem points_times_tokens_rounds_once:
  "points_times_tokens rate tokens = points_new (round_div (micro_points rate * int tokens) 100000000)"
  using round_div_after_truncation [of 1000000 100 "micro_points rate * int tokens"]
  by (simp add: points_times_tokens_def round_div_copies points_new_def is_i32_def Let_def)

section \<open>Credits and money\<close>

datatype credits = Credits (credit_micros: i64)
datatype credits_per_token = CreditsPerToken (micros_per_million_tokens: i64)
datatype credits_per_point = CreditsPerPercentagePoint (micros_per_point: i64)

text \<open>
  \<open>as i64\<close> of an \<open>i128\<close> wraps, and so do \<open>+\<close>, \<open>-\<close> and \<open>*\<close> on \<open>i64\<close> in the release build.
\<close>

definition credits_add :: "credits \<Rightarrow> credits \<Rightarrow> credits" where
  "credits_add a b = Credits (wrap_i64 (credit_micros a + credit_micros b))"

definition credits_sub :: "credits \<Rightarrow> credits \<Rightarrow> credits" where
  "credits_sub a b = Credits (wrap_i64 (credit_micros a - credit_micros b))"

definition credits_mul :: "credits \<Rightarrow> credits \<Rightarrow> credits" where
  "credits_mul a b = Credits (wrap_i64 (round_div (credit_micros a * credit_micros b) 1000000))"

definition credits_to_exact_string :: "credits \<Rightarrow> string" where
  "credits_to_exact_string a = show_int (credit_micros a)"

definition credits_from_exact_str :: "string \<Rightarrow> credits option" where
  "credits_from_exact_str s = map_option Credits (parse_i64 s)"

definition per_token_times :: "credits_per_token \<Rightarrow> u64 \<Rightarrow> credits" where
  "per_token_times rate tokens =
     Credits (wrap_i64 (round_div (micros_per_million_tokens rate * int tokens) 1000000))"

definition per_point_times :: "credits_per_point \<Rightarrow> percentage_points \<Rightarrow> credits" where
  "per_point_times rate points = Credits (wrap_i64 (micros_per_point rate * pp points))"

text \<open>The currency is a type parameter with no value in the record, as \<open>PhantomData\<close> is.\<close>

datatype usd = Usd_currency
datatype eur = Eur_currency
datatype 'c money = Money (micros: i64)
datatype 'c money_rate = MoneyPerMillionTokens (micros_per_million: i64)

definition money_add :: "'c money \<Rightarrow> 'c money \<Rightarrow> 'c money" where
  "money_add a b = Money (wrap_i64 (micros a + micros b))"

definition money_times_tokens :: "'c money_rate \<Rightarrow> u64 \<Rightarrow> 'c money" where
  "money_times_tokens rate tokens =
     Money (wrap_i64 (money_round_div (micros_per_million rate * int tokens) 1000000))"

definition money_ok :: "'c money \<Rightarrow> bool" where
  "money_ok m \<longleftrightarrow> is_i64 (micros m)"

lemma wrap_i64_add_left: "wrap_i64 (wrap_i64 a + b) = wrap_i64 (a + b)"
  by (simp add: wrap_i64_def mod_simps ac_simps)

lemma wrap_i64_add_right: "wrap_i64 (a + wrap_i64 b) = wrap_i64 (a + b)"
  by (metis add.commute wrap_i64_add_left)

interpretation money_sum: aggregation money_add
  by unfold_locales (simp_all add: money_add_def wrap_i64_add_left wrap_i64_add_right add_ac)

interpretation credit_sum: aggregation credits_add
  by unfold_locales (simp_all add: credits_add_def wrap_i64_add_left wrap_i64_add_right add_ac)

lemma foldl_money: "micros (foldl money_add s ms) = wrap_i64 (micros s + sum_list (map micros ms))"
  if "money_ok s"
  using that
proof (induction ms rule: rev_induct)
  case Nil
  then show ?case by (simp add: money_ok_def wrap_i64_id)
next
  case (snoc m ms)
  then show ?case by (simp add: money_add_def wrap_i64_add_left add.assoc)
qed

text \<open>
  Money aggregates exactly: the order the amounts are added in cannot move the last digit, and
  while the exact sum fits 64 bits the total is the exact sum. Valuing a token count is the exact
  product rounded once, off by at most half a micro.
\<close>

theorem money_aggregates_exactly:
  assumes "mset ms = mset ns" "money_ok s"
    and "is_i64 (micros s + sum_list (map micros ms))"
    and "is_i64 (round_div (micros_per_million rate * int tokens) 1000000)"
  shows "foldl money_add s ms = foldl money_add s ns \<and>
    micros (foldl money_add s ns) = micros s + sum_list (map micros ms) \<and>
    2 * \<bar>1000000 * micros (money_times_tokens rate tokens) - micros_per_million rate * int tokens\<bar> \<le> 1000000"
  using money_sum.fold_order_irrelevant [OF assms(1), of s] foldl_money [OF assms(2), of ms]
    assms(3,4) round_div_nearest [of 1000000 "micros_per_million rate * int tokens"]
  by (simp add: wrap_i64_id money_times_tokens_def round_div_copies)

theorem money_aggregates_exactly_witness:
  "foldl money_add (Money 0) [Money 5, Money (- 2), Money 7] = (Money 10 :: usd money) \<and>
   foldl money_add (Money 0) [Money 7, Money 5, Money (- 2)] = (Money 10 :: usd money)"
  using money_aggregates_exactly [of "[Money 5, Money (- 2), Money 7]" "[Money 7, Money 5, Money (- 2)]"
      "Money 0 :: usd money" "MoneyPerMillionTokens 15 :: usd money_rate" 100000]
  by (simp add: money_ok_def is_i64_def money.expand round_div_def sdiv_nonneg)

section \<open>Comparison with the authoritative surface\<close>

datatype comparison_verdict = AgreesWithinGranularity | UnresolvedMismatch

definition verdict_as_str :: "comparison_verdict \<Rightarrow> string" where
  "verdict_as_str v =
     (case v of AgreesWithinGranularity \<Rightarrow> ''agrees_within_granularity''
              | UnresolvedMismatch \<Rightarrow> ''unresolved_mismatch'')"

definition verdict_from_code :: "string \<Rightarrow> comparison_verdict option" where
  "verdict_from_code code =
     (if code = ''agrees_within_granularity'' then Some AgreesWithinGranularity
      else if code = ''unresolved_mismatch'' then Some UnresolvedMismatch
      else None)"

definition compare_against_authoritative_surface ::
    "quota_used \<Rightarrow> quota_used \<Rightarrow> quota_fraction \<Rightarrow> comparison_verdict" where
  "compare_against_authoritative_surface adapter_reading authoritative_reading granularity =
     (let adapter_ppm = int (ppm (used_ppm adapter_reading));
          authoritative_ppm = int (ppm (used_ppm authoritative_reading));
          difference = nat \<bar>adapter_ppm - authoritative_ppm\<bar>
      in if difference \<le> ppm granularity then AgreesWithinGranularity else UnresolvedMismatch)"

lemma verdict_roundtrip: "verdict_from_code (verdict_as_str v) = Some v"
  by (cases v) (simp_all add: verdict_from_code_def verdict_as_str_def)

text \<open>The verdict does not depend on which reading is which, nor on used against remaining.\<close>

lemma comparison_symmetric:
  "compare_against_authoritative_surface a b g = compare_against_authoritative_surface b a g"
  by (simp add: compare_against_authoritative_surface_def Let_def abs_minus_commute)

end
