(* ===== verification/Evidence.thy ===== *)
theory Evidence
  imports Intervals
begin

text \<open>
  \<open>src/evidence.rs\<close>: the witnesses that travel with a value. Coverage says which components are
  missing, quality says how the evidence was obtained, provenance says where it came from. A
  \<open>BTreeSet\<close> is a set, and an identifier newtype over \<open>String\<close> is a datatype over \<open>string\<close>.
\<close>

datatype component_kind = ComponentKind (component_str: string)
datatype estimator_id = EstimatorId (estimator_str: string)
datatype required_fact = RequiredFact (fact_str: string)
datatype provenance = Provenance (sources: "string set")

definition provenance_new :: "string list \<Rightarrow> provenance" where
  "provenance_new xs = Provenance (set xs)"

section \<open>Coverage\<close>

datatype coverage_completeness = Complete | Partial "component_kind set"

definition coverage_partial :: "component_kind list \<Rightarrow> coverage_completeness" where
  "coverage_partial missing = Partial (set missing)"

fun coverage_combine :: "coverage_completeness \<Rightarrow> coverage_completeness \<Rightarrow> coverage_completeness" where
  "coverage_combine Complete Complete = Complete"
| "coverage_combine (Partial missing) Complete = Partial missing"
| "coverage_combine Complete (Partial missing) = Partial missing"
| "coverage_combine (Partial left) (Partial right) = Partial (left \<union> right)"

fun coverage_missing :: "coverage_completeness \<Rightarrow> component_kind set option" where
  "coverage_missing Complete = None"
| "coverage_missing (Partial missing) = Some missing"

interpretation coverage_sum: neutral_aggregation coverage_combine Complete
proof unfold_locales
  fix a b c
  show "coverage_combine (coverage_combine a b) c = coverage_combine a (coverage_combine b c)"
    by (cases a; cases b; cases c) (simp_all add: Un_assoc)
  show "coverage_combine a b = coverage_combine b a"
    by (cases a; cases b) (simp_all add: Un_commute)
  show "coverage_combine Complete a = a"
    by (cases a) simp_all
qed

section \<open>Quality\<close>

datatype 'a quality =
    Measured
  | Estimated "estimator_id set" "'a interval option"
  | Mixed "estimator_id set" "'a interval option"

fun quality_methods :: "'a quality \<Rightarrow> estimator_id set" where
  "quality_methods Measured = {}"
| "quality_methods (Estimated methods _) = methods"
| "quality_methods (Mixed methods _) = methods"

fun quality_uncertainty :: "'a quality \<Rightarrow> 'a interval option" where
  "quality_uncertainty Measured = None"
| "quality_uncertainty (Estimated _ uncertainty) = uncertainty"
| "quality_uncertainty (Mixed _ uncertainty) = uncertainty"

definition quality_estimated :: "estimator_id list \<Rightarrow> 'a interval option \<Rightarrow> 'a quality" where
  "quality_estimated methods uncertainty = Estimated (set methods) uncertainty"

text \<open>
  The code builds the hull with \<open>Interval::new(..).expect(..)\<close>; the lemma below shows that this
  construction cannot fail on two intervals, whose only constructor checks their order.
\<close>

fun combine_uncertainty ::
    "'a::linorder interval option \<Rightarrow> 'a interval option \<Rightarrow> 'a interval option" where
  "combine_uncertainty (Some left) (Some right) =
     Some \<lparr>lower = min (lower left) (lower right), upper = max (upper left) (upper right)\<rparr>"
| "combine_uncertainty (Some i) None = Some i"
| "combine_uncertainty None (Some i) = Some i"
| "combine_uncertainty None None = None"

lemma hull_constructs:
  "interval_ok l \<Longrightarrow>
   interval_new (min (lower l) (lower r)) (max (upper l) (upper r)) =
     Inr \<lparr>lower = min (lower l) (lower r), upper = max (upper l) (upper r)\<rparr>"
  by (auto simp: interval_new_def interval_ok_def min_def max_def)

fun quality_combine :: "'a::linorder quality \<Rightarrow> 'a quality \<Rightarrow> 'a quality" where
  "quality_combine Measured Measured = Measured"
| "quality_combine (Estimated m u) (Estimated m' u') = Estimated (m \<union> m') (combine_uncertainty u u')"
| "quality_combine a b =
     Mixed (quality_methods a \<union> quality_methods b)
       (combine_uncertainty (quality_uncertainty a) (quality_uncertainty b))"

interpretation uncertainty_sum: neutral_aggregation
  "combine_uncertainty :: 'a::linorder interval option \<Rightarrow> 'a interval option \<Rightarrow> 'a interval option" None
proof unfold_locales
  fix a b c :: "'a interval option"
  show "combine_uncertainty (combine_uncertainty a b) c = combine_uncertainty a (combine_uncertainty b c)"
    by (cases a; cases b; cases c) (simp_all add: min.assoc max.assoc)
  show "combine_uncertainty a b = combine_uncertainty b a"
    by (cases a; cases b) (simp_all add: min.commute max.commute)
  show "combine_uncertainty None a = a"
    by (cases a) simp_all
qed

lemma quality_combine_parts [simp]:
  "quality_methods (quality_combine a b) = quality_methods a \<union> quality_methods b"
  "quality_uncertainty (quality_combine a b) =
     combine_uncertainty (quality_uncertainty a) (quality_uncertainty b)"
  "quality_combine a b = Measured \<longleftrightarrow> a = Measured \<and> b = Measured"
  by (cases a; cases b; simp)+

definition is_estimated :: "'a quality \<Rightarrow> bool" where
  "is_estimated q = (case q of Estimated _ _ \<Rightarrow> True | _ \<Rightarrow> False)"

lemma quality_combine_estimated [simp]:
  "is_estimated (quality_combine a b) \<longleftrightarrow> is_estimated a \<and> is_estimated b"
  by (cases a; cases b) (simp_all add: is_estimated_def)

text \<open>A quality is determined by these four observations.\<close>

lemma quality_eqI:
  assumes "quality_methods a = quality_methods b" "quality_uncertainty a = quality_uncertainty b"
    and "a = Measured \<longleftrightarrow> b = Measured" "is_estimated a \<longleftrightarrow> is_estimated b"
  shows "a = b"
  using assms by (cases a; cases b) (auto simp: is_estimated_def)

interpretation quality_sum: aggregation "quality_combine :: 'a::linorder quality \<Rightarrow> 'a quality \<Rightarrow> 'a quality"
proof unfold_locales
  fix a b c :: "'a quality"
  show "quality_combine (quality_combine a b) c = quality_combine a (quality_combine b c)"
    by (rule quality_eqI) (auto simp: uncertainty_sum.combine_assoc)
  show "quality_combine a b = quality_combine b a"
    by (rule quality_eqI) (auto simp: uncertainty_sum.combine_comm)
qed

section \<open>Totals of witnesses\<close>

lemma foldl_coverage:
  "foldl coverage_combine Complete cs =
     (if \<forall>c\<in>set cs. c = Complete then Complete
      else Partial (\<Union>c\<in>set cs. case coverage_missing c of None \<Rightarrow> {} | Some m \<Rightarrow> m))"
proof (induction cs rule: rev_induct)
  case Nil
  then show ?case by simp
next
  case (snoc c cs)
  then show ?case by (cases c) auto
qed

lemma foldl_quality:
  "(foldl quality_combine q qs = Measured \<longleftrightarrow> (\<forall>x\<in>set (q # qs). x = Measured)) \<and>
   (is_estimated (foldl quality_combine q qs) \<longleftrightarrow> (\<forall>x\<in>set (q # qs). is_estimated x)) \<and>
   quality_methods (foldl quality_combine q qs) = (\<Union>x\<in>set (q # qs). quality_methods x)"
  by (induction qs rule: rev_induct) auto

definition uncertainty_within :: "'a::linorder interval option \<Rightarrow> 'a interval option \<Rightarrow> bool" where
  "uncertainty_within a b =
     (case a of None \<Rightarrow> True
      | Some i \<Rightarrow> (case b of None \<Rightarrow> False | Some j \<Rightarrow> lower j \<le> lower i \<and> upper i \<le> upper j))"

lemma uncertainty_within_combine:
  "uncertainty_within a (combine_uncertainty a b)"
  "uncertainty_within c a \<Longrightarrow> uncertainty_within c (combine_uncertainty a b)"
  by (cases a; cases b; cases c;
      auto simp: uncertainty_within_def min_le_iff_disj le_max_iff_disj split: option.splits)+

lemma foldl_uncertainty:
  "x \<in> set (q # qs) \<Longrightarrow>
   uncertainty_within (quality_uncertainty x) (quality_uncertainty (foldl quality_combine q qs))"
proof (induction qs rule: rev_induct)
  case Nil
  then show ?case by (cases "quality_uncertainty q") (auto simp: uncertainty_within_def)
next
  case (snoc y qs)
  show ?case
  proof (cases "x = y")
    case True
    then show ?thesis
      using uncertainty_within_combine(1) [of "quality_uncertainty y" "quality_uncertainty (foldl quality_combine q qs)"]
      by (simp add: uncertainty_sum.combine_comm)
  next
    case False
    with snoc show ?thesis by (auto intro: uncertainty_within_combine(2))
  qed
qed

text \<open>
  Witnesses only degrade, and in a way that does not depend on the order of the parts: a total
  is complete exactly when every part is, and otherwise names every missing component; it is
  measured exactly when every part is measured, and wholly estimated exactly when every part is;
  it names every estimation method, and its uncertainty covers the uncertainty of every part.
\<close>

theorem witnesses_only_degrade:
  assumes "mset cs = mset ds" "mset qs = mset rs"
  shows "foldl coverage_combine Complete cs = foldl coverage_combine Complete ds \<and>
    foldl quality_combine q qs = foldl quality_combine q rs \<and>
    (foldl coverage_combine Complete cs = Complete \<longleftrightarrow> (\<forall>c\<in>set cs. c = Complete)) \<and>
    (\<forall>c m. c \<in> set cs \<and> coverage_missing c = Some m \<longrightarrow>
       (\<exists>n. coverage_missing (foldl coverage_combine Complete cs) = Some n \<and> m \<subseteq> n)) \<and>
    (foldl quality_combine q qs = Measured \<longleftrightarrow> (\<forall>x\<in>set (q # qs). x = Measured)) \<and>
    (is_estimated (foldl quality_combine q qs) \<longleftrightarrow> (\<forall>x\<in>set (q # qs). is_estimated x)) \<and>
    quality_methods (foldl quality_combine q qs) = (\<Union>x\<in>set (q # qs). quality_methods x) \<and>
    (\<forall>x\<in>set (q # qs). uncertainty_within (quality_uncertainty x)
       (quality_uncertainty (foldl quality_combine q qs)))"
proof -
  have missing: "\<forall>c m. c \<in> set cs \<and> coverage_missing c = Some m \<longrightarrow>
      (\<exists>n. coverage_missing (foldl coverage_combine Complete cs) = Some n \<and> m \<subseteq> n)"
  proof (intro allI impI)
    fix c m
    assume cm: "c \<in> set cs \<and> coverage_missing c = Some m"
    then have "\<not> (\<forall>c\<in>set cs. c = Complete)" by force
    moreover have "m \<subseteq> (\<Union>c\<in>set cs. case coverage_missing c of None \<Rightarrow> {} | Some m \<Rightarrow> m)"
      using cm by (intro UN_upper [of c, THEN order_trans [rotated]]) auto
    ultimately show "\<exists>n. coverage_missing (foldl coverage_combine Complete cs) = Some n \<and> m \<subseteq> n"
      by (simp add: foldl_coverage)
  qed
  have complete: "foldl coverage_combine Complete cs = Complete \<longleftrightarrow> (\<forall>c\<in>set cs. c = Complete)"
    by (simp add: foldl_coverage)
  have covered: "\<forall>x\<in>set (q # qs). uncertainty_within (quality_uncertainty x)
      (quality_uncertainty (foldl quality_combine q qs))"
    by (rule ballI) (rule foldl_uncertainty)
  show ?thesis
    by (intro conjI missing complete covered foldl_quality [THEN conjunct1]
        foldl_quality [THEN conjunct2, THEN conjunct1] foldl_quality [THEN conjunct2, THEN conjunct2]
        coverage_sum.fold_order_irrelevant [OF assms(1)] quality_sum.fold_order_irrelevant [OF assms(2)])
qed

theorem witnesses_only_degrade_witness:
  "foldl coverage_combine Complete [Complete, Partial {ComponentKind ''a''}, Partial {ComponentKind ''b''}] =
     Partial {ComponentKind ''a'', ComponentKind ''b''} \<and>
   foldl quality_combine Measured [Estimated {EstimatorId ''e''} (Some \<lparr>lower = 1, upper = 2::nat\<rparr>), Measured] =
     foldl quality_combine Measured [Measured, Estimated {EstimatorId ''e''} (Some \<lparr>lower = 1, upper = 2::nat\<rparr>)]"
  using witnesses_only_degrade [of "[Complete, Partial {ComponentKind ''a''}, Partial {ComponentKind ''b''}]"
      "[Complete, Partial {ComponentKind ''a''}, Partial {ComponentKind ''b''}]"
      "[Estimated {EstimatorId ''e''} (Some \<lparr>lower = 1, upper = 2::nat\<rparr>), Measured]"
      "[Measured, Estimated {EstimatorId ''e''} (Some \<lparr>lower = 1, upper = 2::nat\<rparr>)]" Measured]
  by (simp add: insert_commute)

section \<open>Qualified values and derivations\<close>

record 'a qualified_value =
  q_value :: 'a
  q_coverage :: coverage_completeness
  q_quality :: "'a quality"
  q_provenance :: provenance

datatype 'a derivation =
    Available "'a qualified_value"
  | Unavailable "required_fact set" provenance

datatype missing_required_facts = MissingRequiredFacts

definition derivation_unavailable ::
    "required_fact list \<Rightarrow> provenance \<Rightarrow> missing_required_facts + 'a derivation" where
  "derivation_unavailable missing prov =
     (let facts = set missing
      in if facts = {} then Inl MissingRequiredFacts else Inr (Unavailable facts prov))"

fun derivation_missing :: "'a derivation \<Rightarrow> required_fact set option" where
  "derivation_missing (Available _) = None"
| "derivation_missing (Unavailable missing _) = Some missing"

fun derivation_provenance :: "'a derivation \<Rightarrow> provenance" where
  "derivation_provenance (Available v) = q_provenance v"
| "derivation_provenance (Unavailable _ prov) = prov"

lemma refusal_names_a_fact:
  "derivation_unavailable missing prov = Inr d \<Longrightarrow>
   derivation_missing d = Some (set missing) \<and> missing \<noteq> [] \<and> derivation_provenance d = prov"
  by (auto simp: derivation_unavailable_def Let_def split: if_splits)

end
