(* ===== verification/Ordered_Map.thy ===== *)
theory Ordered_Map
  imports Prelude
begin

text \<open>
  \<open>std::collections::BTreeMap\<close> as a list of key-value pairs sorted by key: \<open>get\<close>, \<open>insert\<close>,
  \<open>remove\<close>, the entry update and the iteration in key order the code relies on for its
  deterministic output. A locale states what a client may assume of a map; the library is one
  interpretation of it.
\<close>

type_synonym ('k, 'v) omap = "('k \<times> 'v) list"

definition om_ok :: "('k::linorder, 'v) omap \<Rightarrow> bool" where
  "om_ok m \<longleftrightarrow> sorted_wrt (<) (map fst m)"

definition om_get :: "('k, 'v) omap \<Rightarrow> 'k \<Rightarrow> 'v option" where
  "om_get m k = map_of m k"

fun om_insert :: "'k::linorder \<Rightarrow> 'v \<Rightarrow> ('k, 'v) omap \<Rightarrow> ('k, 'v) omap" where
  "om_insert k v [] = [(k, v)]"
| "om_insert k v ((a, b) # m) =
     (if k < a then (k, v) # (a, b) # m
      else if k = a then (k, v) # m
      else (a, b) # om_insert k v m)"

definition om_remove :: "'k \<Rightarrow> ('k, 'v) omap \<Rightarrow> ('k, 'v) omap" where
  "om_remove k m = filter (\<lambda>(a, b). a \<noteq> k) m"

text \<open>\<open>map.entry(k).or_insert(d)\<close> followed by an update of the slot.\<close>

definition om_upd :: "'k::linorder \<Rightarrow> 'v \<Rightarrow> ('v \<Rightarrow> 'v) \<Rightarrow> ('k, 'v) omap \<Rightarrow> ('k, 'v) omap" where
  "om_upd k d f m = om_insert k (f (case om_get m k of None \<Rightarrow> d | Some v \<Rightarrow> v)) m"

text \<open>\<open>values_mut\<close>: an in-place change of every value.\<close>

definition om_map_values :: "('v \<Rightarrow> 'w) \<Rightarrow> ('k, 'v) omap \<Rightarrow> ('k, 'w) omap" where
  "om_map_values f m = map (\<lambda>(a, b). (a, f b)) m"

definition om_of :: "('k::linorder \<times> 'v) list \<Rightarrow> ('k, 'v) omap" where
  "om_of kvs = foldl (\<lambda>m (k, v). om_insert k v m) [] kvs"

lemma om_get_empty [simp]: "om_get [] k = None"
  by (simp add: om_get_def)

lemma om_get_insert [simp]: "om_get (om_insert k v m) j = (if j = k then Some v else om_get m j)"
  by (induction m) (auto simp: om_get_def)

lemma om_get_remove [simp]: "om_get (om_remove k m) j = (if j = k then None else om_get m j)"
  by (induction m) (auto simp: om_get_def om_remove_def)

lemma om_get_upd [simp]:
  "om_get (om_upd k d f m) j =
     (if j = k then Some (f (case om_get m k of None \<Rightarrow> d | Some v \<Rightarrow> v)) else om_get m j)"
  by (simp add: om_upd_def)

lemma om_get_map_values [simp]: "om_get (om_map_values f m) k = map_option f (om_get m k)"
  by (induction m) (auto simp: om_get_def om_map_values_def)

lemma set_fst_insert [simp]: "fst ` set (om_insert k v m) = insert k (fst ` set m)"
  by (induction m) force+

lemma om_ok_empty [simp]: "om_ok []"
  by (simp add: om_ok_def)

lemma om_ok_insert [simp]: "om_ok m \<Longrightarrow> om_ok (om_insert k v m)"
proof (induction m)
  case (Cons p m)
  have keys: "x \<in> fst ` set (om_insert k v m) \<Longrightarrow> x = k \<or> x \<in> fst ` set m" for x by simp
  from Cons show ?case
    by (cases p) (fastforce simp: om_ok_def dest: keys)
qed (simp add: om_ok_def)

lemma om_ok_remove [simp]: "om_ok m \<Longrightarrow> om_ok (om_remove k m)"
  by (induction m) (auto simp: om_ok_def om_remove_def)

lemma om_ok_map_values [simp]: "om_ok (om_map_values f m) = om_ok m"
  by (simp add: om_ok_def om_map_values_def case_prod_beta' comp_def)

lemma om_ok_upd [simp]: "om_ok m \<Longrightarrow> om_ok (om_upd k d f m)"
  by (simp add: om_upd_def)

lemma om_ok_of [simp]: "om_ok (om_of kvs)"
proof -
  have "om_ok m \<Longrightarrow> om_ok (foldl (\<lambda>m (k, v). om_insert k v m) m kvs)" for m
    by (induction kvs arbitrary: m) auto
  then show ?thesis by (simp add: om_of_def)
qed

lemma om_ok_distinct: "om_ok m \<Longrightarrow> distinct (map fst m)"
  by (simp add: om_ok_def strict_sorted_iff)

lemma om_ok_get_iff: "om_ok m \<Longrightarrow> (k, v) \<in> set m \<longleftrightarrow> om_get m k = Some v"
  by (simp add: om_get_def om_ok_distinct)

text \<open>Two well-formed maps with the same lookups are the same map.\<close>

lemma om_canonical:
  assumes "om_ok m"
  shows "map (\<lambda>k. (k, the (om_get m k))) (map fst m) = m"
proof -
  have "(fst p, the (om_get m (fst p))) = p" if "p \<in> set m" for p
    using that om_ok_get_iff [OF assms, of "fst p" "snd p"] by simp
  then show ?thesis by (simp add: map_idI)
qed

lemma om_keys: "fst ` set m = {k. om_get m k \<noteq> None}"
  by (auto simp: om_get_def map_of_eq_None_iff)

lemma om_ext:
  assumes "om_ok m" "om_ok n" "\<And>k. om_get m k = om_get n k"
  shows "m = n"
proof -
  have "set (map fst m) = set (map fst n)"
    using assms(3) by (simp add: om_keys)
  then have "map fst m = map fst n"
    using assms(1,2) by (simp add: om_ok_def strict_sorted_equal)
  then show ?thesis
    using om_canonical [OF assms(1)] om_canonical [OF assms(2)] assms(3) by simp
qed

section \<open>The map interface\<close>

text \<open>
  What a client of a keyed index assumes: lookups after each update, and a well-formedness
  predicate every operation keeps.
\<close>

locale keyed_index =
  fixes empty :: 'm
    and get :: "'m \<Rightarrow> 'k \<Rightarrow> 'v option"
    and put :: "'k \<Rightarrow> 'v \<Rightarrow> 'm \<Rightarrow> 'm"
    and del :: "'k \<Rightarrow> 'm \<Rightarrow> 'm"
    and remap :: "('v \<Rightarrow> 'v) \<Rightarrow> 'm \<Rightarrow> 'm"
    and ok :: "'m \<Rightarrow> bool"
  assumes get_empty: "get empty k = None"
    and get_put: "get (put k v m) j = (if j = k then Some v else get m j)"
    and get_del: "get (del k m) j = (if j = k then None else get m j)"
    and get_remap: "get (remap f m) j = map_option f (get m j)"
    and ok_empty: "ok empty"
    and ok_put: "ok m \<Longrightarrow> ok (put k v m)"
    and ok_del: "ok m \<Longrightarrow> ok (del k m)"
    and ok_remap: "ok m \<Longrightarrow> ok (remap f m)"

interpretation om: keyed_index "[]" om_get om_insert om_remove om_map_values om_ok
  by unfold_locales auto

section \<open>Maps from keys to positions\<close>

text \<open>
  A map that names, for each key, the one position of a vector whose element has that key: what a
  loop keeps beside the vector it builds. An element need not have a key.
\<close>

definition indexes :: "('k \<Rightarrow> nat option) \<Rightarrow> ('e \<Rightarrow> 'k option) \<Rightarrow> 'e list \<Rightarrow> bool" where
  "indexes look key xs \<longleftrightarrow> (\<forall>k i. look k = Some i \<longleftrightarrow> i < length xs \<and> key (xs ! i) = Some k)"

definition remove_at :: "nat \<Rightarrow> 'e list \<Rightarrow> 'e list" where
  "remove_at i xs = take i xs @ drop (Suc i) xs"

definition slot_after_removal :: "nat \<Rightarrow> nat \<Rightarrow> nat" where
  "slot_after_removal removed_at slot = (if slot > removed_at then slot - 1 else slot)"

lemma indexesI:
  assumes "\<And>k i. look k = Some i \<Longrightarrow> i < length xs \<and> key (xs ! i) = Some k"
    and "\<And>k i. i < length xs \<Longrightarrow> key (xs ! i) = Some k \<Longrightarrow> look k = Some i"
  shows "indexes look key xs"
  unfolding indexes_def using assms by blast

lemma indexes_iff: "indexes look key xs \<Longrightarrow> look k = Some i \<longleftrightarrow> i < length xs \<and> key (xs ! i) = Some k"
  unfolding indexes_def by blast

lemmas indexesD = indexes_iff [THEN iffD1]

lemma indexes_unique:
  assumes "indexes look key xs" "i < length xs" "j < length xs" "key (xs ! i) = Some k" "key (xs ! j) = Some k"
  shows "i = j"
  using indexes_iff [OF assms(1), of k] assms(2-5) by (metis option.inject)

lemma length_remove_at [simp]: "i < length xs \<Longrightarrow> length (remove_at i xs) = length xs - 1"
  by (simp add: remove_at_def)

lemma nth_remove_at:
  "i < length xs \<Longrightarrow> j < length xs - 1 \<Longrightarrow> remove_at i xs ! j = (if j < i then xs ! j else xs ! Suc j)"
  by (auto simp: remove_at_def nth_append min_def)

locale position_index = keyed_index empty get put del remap ok
  for empty :: 'm and get :: "'m \<Rightarrow> 'k \<Rightarrow> nat option" and put del remap ok
begin

lemma indexes_empty: "indexes (get empty) key []"
  by (simp add: indexes_def get_empty)

lemma indexes_push:
  assumes "indexes (get m) key xs" "key x = Some k" "get m k = None"
  shows "indexes (get (put k (length xs) m)) key (xs @ [x])"
proof (rule indexesI)
  fix j i
  show "get (put k (length xs) m) j = Some i \<Longrightarrow> i < length (xs @ [x]) \<and> key ((xs @ [x]) ! i) = Some j"
    using indexes_iff [OF assms(1), of j i] assms(2) by (auto simp: get_put nth_append split: if_splits)
  show "i < length (xs @ [x]) \<Longrightarrow> key ((xs @ [x]) ! i) = Some j \<Longrightarrow> get (put k (length xs) m) j = Some i"
    using indexes_iff [OF assms(1), of j i] assms(2,3)
    by (cases "i = length xs") (auto simp: get_put nth_append)
qed

lemma indexes_push_other:
  assumes "indexes (get m) key xs" "key x = None"
  shows "indexes (get m) key (xs @ [x])"
proof (rule indexesI)
  fix j i
  show "get m j = Some i \<Longrightarrow> i < length (xs @ [x]) \<and> key ((xs @ [x]) ! i) = Some j"
    using indexes_iff [OF assms(1), of j i] by (auto simp: nth_append)
  show "i < length (xs @ [x]) \<Longrightarrow> key ((xs @ [x]) ! i) = Some j \<Longrightarrow> get m j = Some i"
    using indexes_iff [OF assms(1), of j i] assms(2)
    by (cases "i = length xs") (auto simp: nth_append)
qed

lemma indexes_replace:
  assumes "indexes (get m) key xs" "key x = key (xs ! i)"
  shows "indexes (get m) key (xs[i := x])"
proof -
  have "key (xs[i := x] ! j) = key (xs ! j)" if "j < length xs" for j
    using that assms(2) by (cases "i = j") simp_all
  then show ?thesis using assms(1) unfolding indexes_def by auto
qed

lemma indexes_remove_other:
  assumes "indexes (get m) key xs" "i < length xs" "key (xs ! i) = None"
  shows "indexes (get (remap (slot_after_removal i) m)) key (remove_at i xs)"
proof (rule indexesI)
  fix k j
  assume "get (remap (slot_after_removal i) m) k = Some j"
  then obtain s where s: "get m k = Some s" "j = slot_after_removal i s" by (auto simp: get_remap)
  then have "s < length xs" "key (xs ! s) = Some k" using indexesD [OF assms(1)] by blast+
  with assms(3) s(2) show "j < length (remove_at i xs) \<and> key (remove_at i xs ! j) = Some k"
    using assms(2) by (cases s i rule: linorder_cases) (auto simp: slot_after_removal_def nth_remove_at)
next
  fix k j
  assume j: "j < length (remove_at i xs)" "key (remove_at i xs ! j) = Some k"
  let ?s = "if j < i then j else Suc j"
  have "?s < length xs" "key (xs ! ?s) = Some k"
    using j assms(2) by (auto simp: nth_remove_at split: if_splits)
  then have "get m k = Some ?s" using assms(1) by (auto simp: indexes_def)
  then show "get (remap (slot_after_removal i) m) k = Some j"
    by (auto simp: get_remap slot_after_removal_def)
qed

lemma indexes_remove:
  assumes "indexes (get m) key xs" "i < length xs" "key (xs ! i) = Some k"
  shows "indexes (get (del k (remap (slot_after_removal i) m))) key (remove_at i xs)"
proof -
  let ?key = "\<lambda>x. if key x = Some k then None else key x"
  have only: "key (xs ! j) = Some k \<Longrightarrow> j < length xs \<Longrightarrow> j = i" for j
    using indexes_unique [OF assms(1) _ assms(2) _ assms(3)] by blast
  have "indexes (get (del k m)) ?key xs"
    using assms(1) unfolding indexes_def get_del by (auto split: if_splits)
  then have "indexes (get (remap (slot_after_removal i) (del k m))) ?key (remove_at i xs)"
    using assms(2,3) by (rule_tac indexes_remove_other) auto
  moreover have "get (remap (slot_after_removal i) (del k m)) = get (del k (remap (slot_after_removal i) m))"
    by (rule ext) (simp add: get_remap get_del)
  moreover have "?key (remove_at i xs ! j) = key (remove_at i xs ! j)" if "j < length (remove_at i xs)" for j
  proof (cases "j < i")
    case True
    then show ?thesis using that only [of j] assms(2) by (auto simp: nth_remove_at)
  next
    case False
    then have "Suc j < length xs" using that assms(2) by auto
    then show ?thesis using that False only [of "Suc j"] assms(2) by (auto simp: nth_remove_at)
  qed
  ultimately show ?thesis unfolding indexes_def by metis
qed

end

interpretation positions: position_index "[]" om_get om_insert om_remove om_map_values om_ok
  by unfold_locales

end
