(* ===== verification/Token_Vectors.thy ===== *)
theory Token_Vectors
  imports Quantities Evidence Ordered_Map
begin

text \<open>
  \<open>src/domain/tokens.rs\<close>, the vectors: one count per known token kind, and the usage vector with
  a map of components no known kind names. The per-kind newtypes the macro generates are
  datatypes; their \<open>+\<close> is the plain \<open>u64\<close> addition, which wraps in the release build.
\<close>

datatype token_kind = Input_Kind | Output_Kind | CacheRead_Kind | CacheWrite_Kind

definition token_kinds :: "token_kind list" where
  "token_kinds = [Input_Kind, Output_Kind, CacheRead_Kind, CacheWrite_Kind]"

definition kind_label :: "token_kind \<Rightarrow> string" where
  "kind_label k =
     (case k of Input_Kind \<Rightarrow> ''input'' | Output_Kind \<Rightarrow> ''output''
              | CacheRead_Kind \<Rightarrow> ''cache_read'' | CacheWrite_Kind \<Rightarrow> ''cache_write'')"

datatype input_tokens = InputTokens (input_value: u64)
datatype output_tokens = OutputTokens (output_value: u64)
datatype cache_read_tokens = CacheReadTokens (cache_read_value: u64)
datatype cache_write_tokens = CacheWriteTokens (cache_write_value: u64)

definition add_u64 :: "u64 \<Rightarrow> u64 \<Rightarrow> u64" where
  "add_u64 a b = wrap_u64 (a + b)"

record known_tokens =
  kt_input :: input_tokens
  kt_output :: output_tokens
  kt_cache_read :: cache_read_tokens
  kt_cache_write :: cache_write_tokens

definition known_new ::
    "input_tokens \<Rightarrow> output_tokens \<Rightarrow> cache_read_tokens \<Rightarrow> cache_write_tokens \<Rightarrow> known_tokens" where
  "known_new i out r w = \<lparr>kt_input = i, kt_output = out, kt_cache_read = r, kt_cache_write = w\<rparr>"

definition known_value :: "known_tokens \<Rightarrow> token_kind \<Rightarrow> u64" where
  "known_value v k =
     (case k of Input_Kind \<Rightarrow> input_value (kt_input v)
              | Output_Kind \<Rightarrow> output_value (kt_output v)
              | CacheRead_Kind \<Rightarrow> cache_read_value (kt_cache_read v)
              | CacheWrite_Kind \<Rightarrow> cache_write_value (kt_cache_write v))"

definition known_add :: "known_tokens \<Rightarrow> known_tokens \<Rightarrow> known_tokens" where
  "known_add a b =
     \<lparr>kt_input = InputTokens (add_u64 (input_value (kt_input a)) (input_value (kt_input b))),
      kt_output = OutputTokens (add_u64 (output_value (kt_output a)) (output_value (kt_output b))),
      kt_cache_read =
        CacheReadTokens (add_u64 (cache_read_value (kt_cache_read a)) (cache_read_value (kt_cache_read b))),
      kt_cache_write =
        CacheWriteTokens (add_u64 (cache_write_value (kt_cache_write a)) (cache_write_value (kt_cache_write b)))\<rparr>"

lemma token_kind_cases: "k \<in> set token_kinds"
  by (cases k) (simp_all add: token_kinds_def)

lemma known_value_new [simp]:
  "known_value (known_new i out r w) Input_Kind = input_value i"
  "known_value (known_new i out r w) Output_Kind = output_value out"
  "known_value (known_new i out r w) CacheRead_Kind = cache_read_value r"
  "known_value (known_new i out r w) CacheWrite_Kind = cache_write_value w"
  by (simp_all add: known_value_def known_new_def)

lemma known_eqI:
  fixes a b :: known_tokens
  assumes "\<And>k. known_value a k = known_value b k"
  shows "a = b"
  using assms [of Input_Kind] assms [of Output_Kind] assms [of CacheRead_Kind] assms [of CacheWrite_Kind]
  by (cases a; cases b)
    (simp add: known_value_def input_tokens.expand output_tokens.expand cache_read_tokens.expand
      cache_write_tokens.expand)

lemma known_value_add: "known_value (known_add a b) k = add_u64 (known_value a k) (known_value b k)"
  by (cases k) (simp_all add: known_value_def known_add_def)

lemma add_u64_laws: "add_u64 (add_u64 a b) c = add_u64 a (add_u64 b c)" "add_u64 a b = add_u64 b a"
  by (simp_all add: add_u64_def wrap_u64_def mod_simps ac_simps)

interpretation known_sum: aggregation known_add
proof unfold_locales
  fix a b c
  show "known_add (known_add a b) c = known_add a (known_add b c)"
    by (rule known_eqI) (simp add: known_value_add add_u64_laws(1))
  show "known_add a b = known_add b a"
    by (rule known_eqI) (simp add: known_value_add add_u64_laws(2))
qed

lemma foldl_known:
  "known_value (foldl known_add v vs) k = foldl add_u64 (known_value v k) (map (\<lambda>w. known_value w k) vs)"
  by (induction vs arbitrary: v) (simp_all add: known_value_add)

lemma foldl_add_u64: "is_u64 (a + sum_list ns) \<Longrightarrow> foldl add_u64 a ns = a + sum_list ns"
proof (induction ns arbitrary: a)
  case (Cons n ns)
  then have "is_u64 (a + n)" by (simp add: is_u64_def)
  then have "add_u64 a n = a + n" by (simp add: add_u64_def machine_simps)
  with Cons show ?case by (simp add: add.assoc)
qed simp

text \<open>
  Token usage adds kind by kind: the total of a list of vectors has, in each of the four kinds,
  the exact sum of that kind alone as long as that sum fits, no kind's count reaches another's
  slot, and the order of the list does not matter.
\<close>

theorem known_tokens_add_per_kind:
  assumes "mset vs = mset ws" "\<forall>k. is_u64 (known_value v k + sum_list (map (\<lambda>w. known_value w k) vs))"
  shows "foldl known_add v vs = foldl known_add v ws \<and>
    (\<forall>k. known_value (foldl known_add v ws) k = known_value v k + sum_list (map (\<lambda>w. known_value w k) vs))"
  using known_sum.fold_order_irrelevant [OF assms(1), of v] foldl_add_u64 assms(2) foldl_known [of v vs]
  by metis

theorem known_tokens_add_per_kind_witness:
  "let v = known_new (InputTokens 1) (OutputTokens 2) (CacheReadTokens 3) (CacheWriteTokens 4);
       w = known_new (InputTokens 10) (OutputTokens 20) (CacheReadTokens 30) (CacheWriteTokens 40)
   in foldl known_add v [w, v] = foldl known_add v [v, w] \<and>
      known_value (foldl known_add v [v, w]) CacheRead_Kind = 36"
proof -
  let ?v = "known_new (InputTokens 1) (OutputTokens 2) (CacheReadTokens 3) (CacheWriteTokens 4)"
  let ?w = "known_new (InputTokens 10) (OutputTokens 20) (CacheReadTokens 30) (CacheWriteTokens 40)"
  have "is_u64 (known_value ?v k + sum_list (map (\<lambda>w. known_value w k) [?w, ?v]))" for k
    by (cases k) (simp_all add: is_u64_def)
  then show ?thesis
    using known_tokens_add_per_kind [of "[?w, ?v]" "[?v, ?w]" ?v] by (simp add: Let_def)
qed

section \<open>Usage vectors\<close>

record usage_vector =
  uv_known :: known_tokens
  uv_unknown :: "(string, token_count) omap"
  uv_coverage :: coverage_completeness
  uv_quality :: "token_count quality"

definition usage_new ::
    "known_tokens \<Rightarrow> (string, token_count) omap \<Rightarrow> coverage_completeness \<Rightarrow> token_count quality \<Rightarrow>
     usage_vector" where
  "usage_new known unknown cov quality =
     \<lparr>uv_known = known, uv_unknown = unknown, uv_coverage = cov, uv_quality = quality\<rparr>"

definition has_unknown_components :: "usage_vector \<Rightarrow> bool" where
  "has_unknown_components u \<longleftrightarrow> uv_unknown u \<noteq> []"

lemma has_unknown_components_iff:
  "has_unknown_components u \<longleftrightarrow> (\<exists>k v. om_get (uv_unknown u) k = Some v)"
  by (cases "uv_unknown u") (auto simp: has_unknown_components_def om_get_def)

end
