(* ===== verification/Failures.thy ===== *)
theory Failures
  imports Rust_Strings Time_Model
begin

text \<open>
  \<open>src/domain/attempt.rs\<close> and \<open>src/domain/failure.rs\<close>: the two-stage lifecycle of a collection
  attempt, the shared failure taxonomy with its map into the reasons a reading can be stale, and
  the sanitizer every provider message passes through. Text is ASCII here: \<open>to_lowercase\<close> is
  the ASCII one.
\<close>

section \<open>The taxonomy\<close>

datatype http_status_class = ClientError | ServerError

datatype failure_class =
    DnsFailure
  | ConnectTimeout
  | ReadTimeout
  | TotalBudgetExpired
  | HttpStatus http_status_class
  | RateLimited "monotonic_duration option"
  | MalformedBody
  | MissingRequiredField
  | SchemaDrift
  | SubscriptionChanged

datatype auth_reason = CredentialExpired | CredentialRejected | ProviderDeclaredExpiry

datatype stale_reason =
    AgeExceeded
  | NoSuccessfulObservation
  | SourceUnreachable failure_class
  | MalformedProviderResponse
  | StaleRateLimited
  | SamplingGap
  | StaleClockAnomaly
  | CollectorInterrupted
  | CredentialChangedUnverified

fun to_stale_reason :: "failure_class \<Rightarrow> stale_reason" where
  "to_stale_reason DnsFailure = SourceUnreachable DnsFailure"
| "to_stale_reason ConnectTimeout = SourceUnreachable ConnectTimeout"
| "to_stale_reason ReadTimeout = SourceUnreachable ReadTimeout"
| "to_stale_reason TotalBudgetExpired = SourceUnreachable TotalBudgetExpired"
| "to_stale_reason (HttpStatus s) = SourceUnreachable (HttpStatus s)"
| "to_stale_reason (RateLimited _) = StaleRateLimited"
| "to_stale_reason MalformedBody = MalformedProviderResponse"
| "to_stale_reason MissingRequiredField = MalformedProviderResponse"
| "to_stale_reason SchemaDrift = MalformedProviderResponse"
| "to_stale_reason SubscriptionChanged = CredentialChangedUnverified"

text \<open>An attempt's failure is never reported as the reading's own age, absence or clock.\<close>

lemma to_stale_reason_range:
  "to_stale_reason c \<notin>
     {AgeExceeded, NoSuccessfulObservation, SamplingGap, StaleClockAnomaly, CollectorInterrupted}"
  by (cases c) auto

section \<open>Attempts\<close>

datatype attempt_id = AttemptId (attempt_value: u64)

datatype attempt_outcome =
    Success
  | Outcome_AuthRequired
  | Unreachable failure_class

datatype due_reason = OrdinaryCadence | ResetEdge | PostResetConfirmation | ForcedOrManual

record attempt_started =
  as_attempt_id :: attempt_id
  as_started_at :: utc_timestamp

record attempt_result =
  ar_attempt_id :: attempt_id
  ar_finished_at :: utc_timestamp
  ar_elapsed :: monotonic_duration
  ar_outcome :: attempt_outcome

section \<open>Classifications\<close>

record provider_error_report =
  pe_classification :: string
  pe_message :: string

fun provider_error_classification :: "failure_class \<Rightarrow> string" where
  "provider_error_classification DnsFailure = ''dns''"
| "provider_error_classification ConnectTimeout = ''connect''"
| "provider_error_classification ReadTimeout = ''timeout''"
| "provider_error_classification TotalBudgetExpired = ''budget_expired_before_request''"
| "provider_error_classification (HttpStatus ClientError) = ''http_client_error''"
| "provider_error_classification (HttpStatus ServerError) = ''http_server_error''"
| "provider_error_classification (RateLimited _) = ''http_429''"
| "provider_error_classification MalformedBody = ''malformed_body''"
| "provider_error_classification MissingRequiredField = ''missing_required_field''"
| "provider_error_classification SchemaDrift = ''schema_drift''"
| "provider_error_classification SubscriptionChanged = ''subscription_changed''"

definition classification_char :: "char \<Rightarrow> bool" where
  "classification_char c \<longleftrightarrow>
     is_ascii_lowercase c \<or> is_ascii_digit c \<or> c = CHR ''_'' \<or> c = CHR ''-'' \<or> c = CHR ''.''"

definition normalize_error_classification :: "string \<Rightarrow> string" where
  "normalize_error_classification raw =
     take 128 (map (\<lambda>c. if classification_char c then c else CHR ''_'') (to_lowercase raw))"

definition bound_error_message :: "string \<Rightarrow> string" where
  "bound_error_message sanitized = take 512 sanitized"

section \<open>Redaction\<close>

definition credential_label_tokens :: "string list" where
  "credential_label_tokens =
     [''bearer'', ''authorization:'', ''authorization='', ''api-key:'', ''api_key='', ''apikey='']"

text \<open>
  The shared list \<open>docs/forbidden-patterns.txt\<close> is compiled in; \<open>pattern_lines\<close> is how its lines
  are read, \<open>forbidden_patterns\<close> what the lines of the file that are neither blank nor comments
  are, verbatim.
\<close>

definition pattern_lines :: "string list \<Rightarrow> string list" where
  "pattern_lines ls = filter (\<lambda>line. trim line \<noteq> [] \<and> \<not> starts_with ''#'' (trim line)) ls"

definition forbidden_patterns :: "string list" where
  "forbidden_patterns =
     [''sk-ant-'', ''sk-proj-'', ''sk-or-'', ''ghp_'', ''github_pat_'', ''glpat-'', ''AKIA'', ''xoxb-'',
      ''xoxp-'', ''-----BEGIN'', ''bearer '', ''api_key'', ''apikey'', ''api-key'', ''authorization'',
      ''password'', ''secret'', ''access_token'', ''accesstoken'', ''refresh_token'', ''refreshtoken'',
      ''/home/'', ''/users/'', ''@'']"

definition classification_is_storable :: "string \<Rightarrow> bool" where
  "classification_is_storable normalized \<longleftrightarrow>
     normalized \<noteq> [] \<and>
     \<not> list_ex (\<lambda>pattern. contains_str (to_lowercase pattern) (to_lowercase normalized)) forbidden_patterns"

definition bare_secret_char :: "char \<Rightarrow> bool" where
  "bare_secret_char c \<longleftrightarrow> is_ascii_alphanumeric c \<or> c = CHR ''-'' \<or> c = CHR ''_''"

definition looks_like_a_bare_secret :: "string \<Rightarrow> bool" where
  "looks_like_a_bare_secret word \<longleftrightarrow>
     list_ex (\<lambda>part. length part \<ge> 20) (split_pred (\<lambda>c. \<not> bare_secret_char c) word)"

definition must_redact :: "string \<Rightarrow> bool" where
  "must_redact word \<longleftrightarrow>
     (let low = to_lowercase word;
          is_labeled = list_ex (\<lambda>label. starts_with label low) credential_label_tokens;
          carries_forbidden_pattern = list_ex (\<lambda>pattern. contains_str pattern low) forbidden_patterns
      in is_labeled \<or> carries_forbidden_pattern \<or> looks_like_a_bare_secret word)"

definition redact_token :: "string \<Rightarrow> string" where
  "redact_token word = (if must_redact word then ''[REDACTED]'' else word)"

definition sanitize_provider_error_text :: "string \<Rightarrow> string" where
  "sanitize_provider_error_text raw = join '' '' (map redact_token (split_whitespace raw))"

lemma redacted_marker_survives: "redact_token ''[REDACTED]'' = ''[REDACTED]''"
  by (simp add: redact_token_def)

lemma redact_token_idem [simp]: "redact_token (redact_token w) = redact_token w"
  using redacted_marker_survives by (auto simp: redact_token_def)

lemma redact_token_word:
  "w \<noteq> [] \<and> (\<forall>x\<in>set w. \<not> is_ws x) \<Longrightarrow> redact_token w \<noteq> [] \<and> (\<forall>x\<in>set (redact_token w). \<not> is_ws x)"
  by (simp add: redact_token_def is_ws_def)

lemma words_sanitized:
  "split_whitespace (sanitize_provider_error_text raw) = map redact_token (split_whitespace raw)"
  unfolding sanitize_provider_error_text_def
proof (rule split_whitespace_join, rule ballI)
  fix w
  assume "w \<in> set (map redact_token (split_whitespace raw))"
  then obtain v where "v \<in> set (split_whitespace raw)" "w = redact_token v" by auto
  then show "w \<noteq> [] \<and> (\<forall>x\<in>set w. \<not> is_ws x)"
    using split_whitespace_parts [of v raw] redact_token_word [of v] by simp
qed

text \<open>
  The sanitizer is the boundary provider text passes: word by word, what it lets through is
  either the redaction marker or a word of the input that is not labelled as a credential, carries
  no listed pattern, and holds no run of twenty key characters; no word is lost or added, and
  sanitizing again changes nothing.
\<close>

theorem sanitized_text_is_clean:
  "(\<forall>w\<in>set (split_whitespace (sanitize_provider_error_text raw)).
      w = ''[REDACTED]'' \<or>
      w \<in> set (split_whitespace raw) \<and> \<not> looks_like_a_bare_secret w \<and>
      (\<forall>label\<in>set credential_label_tokens. \<not> starts_with label (to_lowercase w)) \<and>
      (\<forall>pattern\<in>set forbidden_patterns. \<not> contains_str pattern (to_lowercase w))) \<and>
   length (split_whitespace (sanitize_provider_error_text raw)) = length (split_whitespace raw) \<and>
   sanitize_provider_error_text (sanitize_provider_error_text raw) = sanitize_provider_error_text raw"
proof (intro conjI)
  have "sanitize_provider_error_text (sanitize_provider_error_text raw) =
      join '' '' (map redact_token (map redact_token (split_whitespace raw)))"
    by (simp only: words_sanitized sanitize_provider_error_text_def [of "sanitize_provider_error_text raw"])
  then show "sanitize_provider_error_text (sanitize_provider_error_text raw) = sanitize_provider_error_text raw"
    by (simp add: sanitize_provider_error_text_def comp_def)
qed (auto simp: words_sanitized redact_token_def must_redact_def Let_def list_ex_iff)

lemma labelled_redacts: "redact_token ''Api-Key:x'' = ''[REDACTED]''"
proof -
  have low: "to_lowercase ''Api-Key:x'' = ''api-key:x''" by (simp add: string_eval)
  have "list_ex (\<lambda>label. starts_with label ''api-key:x'') credential_label_tokens"
    by (simp add: credential_label_tokens_def starts_with_def)
  then show ?thesis unfolding redact_token_def must_redact_def low Let_def by (simp only: simp_thms if_True)
qed

theorem sanitized_text_is_clean_witness:
  "split_whitespace ''Api-Key:x'' = [''Api-Key:x''] \<and>
   sanitize_provider_error_text ''Api-Key:x'' = ''[REDACTED]'' \<and>
   sanitize_provider_error_text ''[REDACTED]'' = ''[REDACTED]''"
proof -
  have s: "split_whitespace ''Api-Key:x'' = [''Api-Key:x'']"
    by (simp add: split_whitespace_def is_ws_def)
  then have "sanitize_provider_error_text ''Api-Key:x'' = ''[REDACTED]''"
    by (simp add: sanitize_provider_error_text_def labelled_redacts join_def)
  with s sanitized_text_is_clean [of "''Api-Key:x''"] show ?thesis by metis
qed

text \<open>A stored classification is bounded, free of separators, and normalizing it again keeps it.\<close>

lemma normalized_chars:
  "c \<in> set (normalize_error_classification raw) \<Longrightarrow> classification_char c"
proof -
  have "classification_char (CHR ''_'')" by (simp add: classification_char_def)
  then show "c \<in> set (normalize_error_classification raw) \<Longrightarrow> classification_char c"
    by (auto simp: normalize_error_classification_def dest!: in_set_takeD split: if_splits)
qed

lemma classification_char_lower: "classification_char c \<Longrightarrow> lower_char c = c"
  by (auto simp: classification_char_def lower_char_def is_ascii_lowercase_def is_ascii_uppercase_def
      is_ascii_digit_def digit_value_def Let_def split: if_splits)

lemma normalize_id:
  assumes "\<forall>c\<in>set s. classification_char c" "length s \<le> 128"
  shows "normalize_error_classification s = s"
proof -
  have "map (\<lambda>c. if classification_char c then c else CHR ''_'') (to_lowercase s) = s"
    using assms(1) by (simp add: to_lowercase_def classification_char_lower map_idI)
  then show ?thesis using assms(2) by (simp add: normalize_error_classification_def)
qed

text \<open>
  A normalized classification is at most 128 characters of the stored vocabulary, so the
  separator between classification and message cannot occur in it, and normalizing is idempotent:
  what is read back from storage normalizes to itself.
\<close>

theorem normalized_classification:
  "length (normalize_error_classification raw) \<le> 128 \<and>
   (\<forall>c\<in>set (normalize_error_classification raw). classification_char c) \<and>
   \<not> contains_str '': '' (normalize_error_classification raw) \<and>
   normalize_error_classification (normalize_error_classification raw) = normalize_error_classification raw"
proof (intro conjI ballI)
  show len: "length (normalize_error_classification raw) \<le> 128"
    by (simp add: normalize_error_classification_def)
  show "\<not> contains_str '': '' (normalize_error_classification raw)"
  proof
    assume "contains_str '': '' (normalize_error_classification raw)"
    then have "CHR '':'' \<in> set (normalize_error_classification raw)"
      by (auto simp: contains_str_iff)
    then have "classification_char (CHR '':'')" by (rule normalized_chars)
    then show False by (simp add: classification_char_def is_ascii_lowercase_def)
  qed
  show "normalize_error_classification (normalize_error_classification raw) = normalize_error_classification raw"
    by (rule normalize_id) (use len normalized_chars in auto)
qed (rule normalized_chars)

theorem normalized_classification_witness:
  "normalize_error_classification ''Bad: 5'' = ''bad__5'' \<and> normalize_error_classification ''bad__5'' = ''bad__5'' \<and>
   length ''bad__5'' \<le> 128"
proof -
  have n: "normalize_error_classification ''Bad: 5'' = ''bad__5''"
    by (simp add: normalize_error_classification_def classification_char_def string_eval)
  with normalized_classification [of "''Bad: 5''"] show ?thesis by metis
qed

text \<open>
  The case-folding of the redaction is one-sided: the token is lowered and the listed pattern
  is not, so no token at all is redacted for a listed pattern that has capitals, the AWS key prefix
  and the PEM header, although the classification check, which lowers both, refuses the same text.
\<close>

theorem uppercase_patterns_never_redact:
  "''AKIA'' \<in> set forbidden_patterns \<and> ''-----BEGIN'' \<in> set forbidden_patterns \<and>
   (\<forall>word. \<not> contains_str ''AKIA'' (to_lowercase word) \<and>
      \<not> contains_str ''-----BEGIN'' (to_lowercase word)) \<and>
   redact_token ''AKIA1234'' = ''AKIA1234'' \<and> \<not> classification_is_storable ''AKIA1234''"
proof -
  have up: "is_ascii_uppercase CHR ''A''" "is_ascii_uppercase CHR ''B''"
    by (simp_all add: is_ascii_uppercase_def)
  have no: "\<not> contains_str ''AKIA'' (to_lowercase w)" "\<not> contains_str ''-----BEGIN'' (to_lowercase w)" for w
    using contains_str_lower_no_upper [of "''AKIA''" w "CHR ''A''"]
      contains_str_lower_no_upper [of "''-----BEGIN''" w "CHR ''B''"] up by auto
  have low: "to_lowercase ''AKIA1234'' = ''akia1234''" "to_lowercase ''AKIA'' = ''akia''"
    by (simp_all add: string_eval)
  have "\<not> list_ex (\<lambda>label. starts_with label ''akia1234'') credential_label_tokens"
    by (simp add: credential_label_tokens_def starts_with_def)
  moreover have "\<not> list_ex (\<lambda>pattern. contains_str pattern ''akia1234'') forbidden_patterns"
    by (simp add: forbidden_patterns_def starts_with_def)
  moreover have "\<not> looks_like_a_bare_secret ''AKIA1234''"
  proof -
    have "\<forall>c\<in>set ''AKIA1234''. bare_secret_char c"
      by (simp add: bare_secret_char_def string_eval)
    then have "split_pred (\<lambda>c. \<not> bare_secret_char c) ''AKIA1234'' = [''AKIA1234'']"
      by (intro split_pred_none) blast
    then show ?thesis by (simp add: looks_like_a_bare_secret_def)
  qed
  ultimately have "redact_token ''AKIA1234'' = ''AKIA1234''"
    by (simp add: redact_token_def must_redact_def low)
  moreover have "contains_str (to_lowercase ''AKIA'') (to_lowercase ''AKIA1234'')"
    by (simp add: low starts_with_def)
  moreover have mem: "''AKIA'' \<in> set forbidden_patterns" "''-----BEGIN'' \<in> set forbidden_patterns"
    by (simp_all add: forbidden_patterns_def)
  ultimately show ?thesis
    using no by (auto simp: classification_is_storable_def list_ex_iff)
qed

end
