(* ===== verification/Freshness.thy ===== *)
theory Freshness
  imports Failures
begin

text \<open>
  \<open>src/domain/freshness.rs\<close>: what a user is told of a measurement, computed at read time from the
  attempt history, the last good observation, the credential context and the clock. A credential
  context is its identifier string, and a reference to one is the identifier.
\<close>

type_synonym credential_context_id = string

record 'a observed =
  ob_value :: 'a
  ob_provider_observed_at :: "utc_timestamp option"
  ob_received_at :: utc_timestamp
  ob_basis :: measurement_basis

datatype 'a freshness =
    Fresh "'a observed" attempt_id
  | Stale "'a observed option" attempt_id stale_reason
  | AuthRequired "'a observed option" attempt_id

datatype answer_kind = KindFresh | KindStale | KindAuthRequired

fun freshness_kind :: "'a freshness \<Rightarrow> answer_kind" where
  "freshness_kind (Fresh _ _) = KindFresh"
| "freshness_kind (Stale _ _ _) = KindStale"
| "freshness_kind (AuthRequired _ _) = KindAuthRequired"

fun freshness_latest_attempt :: "'a freshness \<Rightarrow> attempt_id" where
  "freshness_latest_attempt (Fresh _ a) = a"
| "freshness_latest_attempt (Stale _ a _) = a"
| "freshness_latest_attempt (AuthRequired _ a) = a"

record latest_attempt =
  la_started :: attempt_started
  la_result :: "attempt_result option"
  la_credential_context :: credential_context_id

record 'a freshness_input =
  fi_last_good :: "'a observed option"
  fi_last_good_context :: "credential_context_id option"
  fi_latest_attempt :: "latest_attempt option"
  fi_last_auth_failure_context :: "credential_context_id option"
  fi_latest_auth_success_context :: "credential_context_id option"
  fi_freshness_horizon :: monotonic_duration
  fi_command_horizon :: monotonic_duration
  fi_clock_skew_envelope :: clock_skew_envelope

definition evaluate_observation ::
    "'a observed option \<Rightarrow> attempt_id \<Rightarrow> utc_timestamp \<Rightarrow> monotonic_duration \<Rightarrow> clock_skew_envelope \<Rightarrow>
     'a freshness" where
  "evaluate_observation last_good attempt now freshness_horizon envelope =
     (case last_good of
        Some obs \<Rightarrow>
          (case age (ob_provider_observed_at obs) (ob_received_at obs) (ob_basis obs) now envelope of
             Inl _ \<Rightarrow> Stale (Some obs) attempt StaleClockAnomaly
           | Inr reading_age \<Rightarrow>
               if reading_age \<le> freshness_horizon then Fresh obs attempt
               else Stale (Some obs) attempt AgeExceeded)
      | None \<Rightarrow> Stale None attempt NoSuccessfulObservation)"

definition compute_freshness :: "'a freshness_input \<Rightarrow> utc_timestamp \<Rightarrow> 'a freshness" where
  "compute_freshness inp now =
     (case fi_latest_attempt inp of
        None \<Rightarrow>
          Stale (fi_last_good inp) (AttemptId 0)
            (case fi_last_good inp of Some _ \<Rightarrow> SamplingGap | None \<Rightarrow> NoSuccessfulObservation)
      | Some latest \<Rightarrow>
          let attempt = as_attempt_id (la_started latest);
              current = la_credential_context latest;
              observation = evaluate_observation (fi_last_good inp) attempt now
                (fi_freshness_horizon inp) (fi_clock_skew_envelope inp)
          in case la_result latest of
               Some result \<Rightarrow>
                 (case ar_outcome result of
                    Success \<Rightarrow> observation
                  | Outcome_AuthRequired \<Rightarrow> AuthRequired (fi_last_good inp) attempt
                  | Unreachable failure \<Rightarrow>
                      (case fi_last_auth_failure_context inp of
                         Some auth_fail \<Rightarrow>
                           if auth_fail = current then AuthRequired (fi_last_good inp) attempt
                           else if fi_latest_auth_success_context inp = Some current
                           then Stale (fi_last_good inp) attempt (to_stale_reason failure)
                           else Stale (fi_last_good inp) attempt CredentialChangedUnverified
                       | None \<Rightarrow> Stale (fi_last_good inp) attempt (to_stale_reason failure)))
             | None \<Rightarrow>
                 let started_at = as_started_at (la_started latest);
                     elapsed = sat_sub_i64 now started_at
                 in if now < started_at then Stale (fi_last_good inp) attempt StaleClockAnomaly
                    else if elapsed > u64_as_i64 (fi_command_horizon inp)
                    then Stale (fi_last_good inp) attempt CollectorInterrupted
                    else (case fi_last_auth_failure_context inp of
                            Some auth_fail \<Rightarrow>
                              if auth_fail = current then AuthRequired (fi_last_good inp) attempt
                              else if fi_latest_auth_success_context inp \<noteq> Some current
                              then Stale (fi_last_good inp) attempt CredentialChangedUnverified
                              else observation
                          | None \<Rightarrow> observation))"

section \<open>What each answer means\<close>

text \<open>The observation an answer carries.\<close>

fun freshness_last_good :: "'a freshness \<Rightarrow> 'a observed option" where
  "freshness_last_good (Fresh obs _) = Some obs"
| "freshness_last_good (Stale last_good _ _) = last_good"
| "freshness_last_good (AuthRequired last_good _) = last_good"

definition observation_age :: "'a observed \<Rightarrow> utc_timestamp \<Rightarrow> clock_skew_envelope \<Rightarrow> clock_anomaly + u64" where
  "observation_age obs now envelope =
     age (ob_provider_observed_at obs) (ob_received_at obs) (ob_basis obs) now envelope"

text \<open>
  The conditions under which the attempt history lets the observation speak: the latest attempt
  succeeded, or is still running within the command horizon under a credential that no
  authentication failure is held against.
\<close>

definition attempt_permits :: "'a freshness_input \<Rightarrow> latest_attempt \<Rightarrow> utc_timestamp \<Rightarrow> bool" where
  "attempt_permits inp latest now \<longleftrightarrow>
     (case la_result latest of
        Some result \<Rightarrow> ar_outcome result = Success
      | None \<Rightarrow>
          as_started_at (la_started latest) \<le> now \<and>
          sat_sub_i64 now (as_started_at (la_started latest)) \<le> u64_as_i64 (fi_command_horizon inp) \<and>
          fi_last_auth_failure_context inp \<noteq> Some (la_credential_context latest) \<and>
          (fi_last_auth_failure_context inp = None \<or>
           fi_latest_auth_success_context inp = Some (la_credential_context latest)))"

lemma evaluate_observation_Fresh_iff:
  "evaluate_observation lg att now horizon env = Fresh obs att' \<longleftrightarrow>
     lg = Some obs \<and> att' = att \<and> (\<exists>n. observation_age obs now env = Inr n \<and> n \<le> horizon)"
  by (auto simp: evaluate_observation_def observation_age_def split: option.splits sum.splits if_splits)

lemma evaluate_observation_parts [simp]:
  "freshness_last_good (evaluate_observation lg att now horizon env) = lg"
  "freshness_latest_attempt (evaluate_observation lg att now horizon env) = att"
  "freshness_kind (evaluate_observation lg att now horizon env) \<noteq> KindAuthRequired"
  by (auto simp: evaluate_observation_def split: option.splits sum.splits)

lemma compute_freshness_permitted:
  assumes "fi_latest_attempt inp = Some latest" "attempt_permits inp latest now"
  shows "compute_freshness inp now =
    evaluate_observation (fi_last_good inp) (as_attempt_id (la_started latest)) now
      (fi_freshness_horizon inp) (fi_clock_skew_envelope inp)"
  using assms
  by (auto simp: compute_freshness_def attempt_permits_def Let_def split: option.splits)

lemma compute_freshness_not_permitted:
  assumes "fi_latest_attempt inp = Some latest" "\<not> attempt_permits inp latest now"
  shows "freshness_kind (compute_freshness inp now) \<noteq> KindFresh"
  using assms
  by (auto simp: compute_freshness_def attempt_permits_def Let_def not_le split: option.splits attempt_outcome.splits)

lemma freshness_kind_Fresh: "freshness_kind f \<noteq> KindFresh \<Longrightarrow> f \<noteq> Fresh obs att"
  by auto

lemma compute_freshness_no_attempt:
  "fi_latest_attempt inp = None \<Longrightarrow> freshness_kind (compute_freshness inp now) = KindStale"
  by (simp add: compute_freshness_def)

lemma compute_freshness_Fresh_iff:
  "compute_freshness inp now = Fresh obs att \<longleftrightarrow>
     (\<exists>latest n. fi_latest_attempt inp = Some latest \<and> attempt_permits inp latest now \<and>
        att = as_attempt_id (la_started latest) \<and> fi_last_good inp = Some obs \<and>
        observation_age obs now (fi_clock_skew_envelope inp) = Inr n \<and> n \<le> fi_freshness_horizon inp)"
proof (cases "fi_latest_attempt inp")
  case None
  then show ?thesis using compute_freshness_no_attempt [of inp now] by auto
next
  case (Some latest)
  then show ?thesis
    using compute_freshness_permitted [OF Some, of now]
      freshness_kind_Fresh [OF compute_freshness_not_permitted [OF Some, of now], of obs att]
    by (cases "attempt_permits inp latest now") (auto simp: evaluate_observation_Fresh_iff)
qed

section \<open>Properties\<close>

lemma observation_age_within:
  "(\<exists>n. observation_age obs now env = Inr n \<and> n \<le> horizon) \<longleftrightarrow>
     measurement_time (ob_provider_observed_at obs) (ob_received_at obs) (ob_basis obs) \<le> now \<and>
     now - measurement_time (ob_provider_observed_at obs) (ob_received_at obs) (ob_basis obs) \<le> int horizon \<and>
     \<not> skew_anomaly (ob_provider_observed_at obs) (ob_received_at obs) env" (is "?l \<longleftrightarrow> ?m \<le> now \<and> _ \<and> _")
proof
  assume ?l
  then show "?m \<le> now \<and> now - ?m \<le> int horizon \<and> \<not> skew_anomaly (ob_provider_observed_at obs) (ob_received_at obs) env"
    by (auto simp: observation_age_def age_Inr_iff)
next
  assume "?m \<le> now \<and> now - ?m \<le> int horizon \<and> \<not> skew_anomaly (ob_provider_observed_at obs) (ob_received_at obs) env"
  then show ?l by (intro exI [of _ "nat (now - ?m)"]) (simp add: observation_age_def age_Inr_iff nat_le_iff)
qed

text \<open>
  C25. Exactly when a reading is called fresh: it is the last good observation; its measurement time, the provider's or
  the receipt as its basis says, is not in the future and not older than the freshness horizon; the provider's clock
  is not ahead of the receipt beyond the envelope; and the latest attempt, the one named, succeeded, or is still
  running within the command horizon with a credential that no authentication failure stands against: not the one
  that failed, and after a failure of another one that which authenticated last.
\<close>

theorem fresh_is_recent:
  "compute_freshness inp now = Fresh obs att \<longleftrightarrow>
     fi_last_good inp = Some obs \<and>
     measurement_time (ob_provider_observed_at obs) (ob_received_at obs) (ob_basis obs) \<le> now \<and>
     now - measurement_time (ob_provider_observed_at obs) (ob_received_at obs) (ob_basis obs) \<le>
       int (fi_freshness_horizon inp) \<and>
     \<not> skew_anomaly (ob_provider_observed_at obs) (ob_received_at obs) (fi_clock_skew_envelope inp) \<and>
     (case fi_latest_attempt inp of
        None \<Rightarrow> False
      | Some latest \<Rightarrow>
          as_attempt_id (la_started latest) = att \<and>
          (case la_result latest of
             Some result \<Rightarrow> ar_outcome result = Success
           | None \<Rightarrow>
               as_started_at (la_started latest) \<le> now \<and>
               sat_sub_i64 now (as_started_at (la_started latest)) \<le> u64_as_i64 (fi_command_horizon inp) \<and>
               (case fi_last_auth_failure_context inp of
                  None \<Rightarrow> True
                | Some failed \<Rightarrow> failed \<noteq> la_credential_context latest \<and>
                    fi_latest_auth_success_context inp = Some (la_credential_context latest))))"
proof -
  have "attempt_permits inp latest now \<longleftrightarrow>
      (case la_result latest of
         Some result \<Rightarrow> ar_outcome result = Success
       | None \<Rightarrow>
           as_started_at (la_started latest) \<le> now \<and>
           sat_sub_i64 now (as_started_at (la_started latest)) \<le> u64_as_i64 (fi_command_horizon inp) \<and>
           (case fi_last_auth_failure_context inp of
              None \<Rightarrow> True
            | Some failed \<Rightarrow> failed \<noteq> la_credential_context latest \<and>
                fi_latest_auth_success_context inp = Some (la_credential_context latest)))" for latest
    by (auto simp: attempt_permits_def split: option.split)
  then show ?thesis
    unfolding compute_freshness_Fresh_iff
    by (cases "fi_latest_attempt inp") (use observation_age_within [of obs now] in auto)
qed

definition sample_observed :: "nat observed" where
  "sample_observed =
     \<lparr>ob_value = 42, ob_provider_observed_at = Some 1000, ob_received_at = 1500, ob_basis = ProviderObserved\<rparr>"

definition sample_input :: "nat freshness_input" where
  "sample_input =
     \<lparr>fi_last_good = Some sample_observed, fi_last_good_context = Some ''ctx'',
      fi_latest_attempt = Some
        \<lparr>la_started = \<lparr>as_attempt_id = AttemptId 7, as_started_at = 1600\<rparr>, la_result = None,
         la_credential_context = ''ctx''\<rparr>,
      fi_last_auth_failure_context = None, fi_latest_auth_success_context = None,
      fi_freshness_horizon = 5000, fi_command_horizon = 1000, fi_clock_skew_envelope = 10\<rparr>"

lemmas sample_eval =
  sample_input_def sample_observed_def compute_freshness_def evaluate_observation_def age_def
  skew_anomaly_def measurement_time_def abs_diff_i64_def Let_def sat_sub_i64_def u64_as_i64_def
  wrap_i64_def

theorem fresh_is_recent_witness:
  "compute_freshness sample_input 2000 = Fresh sample_observed (AttemptId 7)"
  unfolding fresh_is_recent by (simp add: sample_eval)

lemma sat_sub_i64_mono: "a \<le> b \<Longrightarrow> sat_sub_i64 a c \<le> sat_sub_i64 b c"
  by (simp add: sat_sub_i64_def)

lemma attempt_permits_convex:
  assumes "attempt_permits inp latest t1" "attempt_permits inp latest t3" "t1 \<le> t2" "t2 \<le> t3"
  shows "attempt_permits inp latest t2"
proof (cases "la_result latest")
  case None
  then show ?thesis
    using assms sat_sub_i64_mono [of t2 t3 "as_started_at (la_started latest)"]
    by (simp add: attempt_permits_def)
next
  case (Some r)
  then show ?thesis using assms by (simp add: attempt_permits_def)
qed

text \<open>
  Freshness never flickers: with the history unchanged, the instants at which the answer is
  fresh form an interval. A reading that was fresh earlier and is fresh later was fresh between,
  and once it has gone stale no later clock makes it fresh again.
\<close>

theorem freshness_is_convex:
  assumes "compute_freshness inp t1 = Fresh obs att" "compute_freshness inp t3 = Fresh obs' att'"
    and "t1 \<le> t2" "t2 \<le> t3"
  shows "compute_freshness inp t2 = Fresh obs att"
proof -
  from assms(1) obtain latest n1 where l: "fi_latest_attempt inp = Some latest"
      "attempt_permits inp latest t1" "att = as_attempt_id (la_started latest)"
    and g: "fi_last_good inp = Some obs"
    and n1: "observation_age obs t1 (fi_clock_skew_envelope inp) = Inr n1"
    unfolding compute_freshness_Fresh_iff by blast
  from assms(2) l g obtain n3 where p3: "attempt_permits inp latest t3"
    and n3: "observation_age obs t3 (fi_clock_skew_envelope inp) = Inr n3" "n3 \<le> fi_freshness_horizon inp"
    unfolding compute_freshness_Fresh_iff by auto
  have p2: "attempt_permits inp latest t2"
    by (rule attempt_permits_convex [OF l(2) p3 assms(3,4)])
  have "observation_age obs t2 (fi_clock_skew_envelope inp) = Inr (n1 + nat (t2 - t1))"
    using n1 assms(3) by (simp add: observation_age_def age_Inr_iff)
  moreover have "int (n1 + nat (t2 - t1)) \<le> int n3"
    using n1 n3 assms(3,4) by (simp add: observation_age_def age_Inr_iff)
  then have "n1 + nat (t2 - t1) \<le> n3" by (simp only: of_nat_le_iff)
  ultimately show ?thesis
    using l(1,3) g p2 n3(2) unfolding compute_freshness_Fresh_iff by force
qed

theorem freshness_is_convex_witness:
  "compute_freshness sample_input 2100 = Fresh sample_observed (AttemptId 7)"
proof (rule freshness_is_convex)
  show "compute_freshness sample_input 2000 = Fresh sample_observed (AttemptId 7)"
    by (simp add: sample_eval)
  show "compute_freshness sample_input 2600 = Fresh sample_observed (AttemptId 7)"
    by (simp add: sample_eval)
qed simp_all

text \<open>
  No answer loses evidence: whatever the history says, the answer carries the last good
  observation that was given, unchanged, and names the latest attempt.
\<close>

theorem freshness_keeps_evidence:
  "freshness_last_good (compute_freshness inp now) = fi_last_good inp \<and>
   freshness_latest_attempt (compute_freshness inp now) =
     (case fi_latest_attempt inp of None \<Rightarrow> AttemptId 0 | Some latest \<Rightarrow> as_attempt_id (la_started latest))"
  by (simp add: compute_freshness_def Let_def split: option.split attempt_outcome.split)

text \<open>
  Authentication is sticky within its credential context and never leaks out of it: the answer
  is that credentials need attention exactly when the latest attempt said so itself, or it failed
  or is still running (and neither future nor overdue) under the very context the last
  authentication failure was recorded for. No age of the reading and no success elsewhere changes it.
\<close>

theorem auth_required_iff:
  "freshness_kind (compute_freshness inp now) = KindAuthRequired \<longleftrightarrow>
   (\<exists>latest. fi_latest_attempt inp = Some latest \<and>
     (case la_result latest of
        Some result \<Rightarrow>
          ar_outcome result = Outcome_AuthRequired \<or>
          ((\<exists>failure. ar_outcome result = Unreachable failure) \<and>
           fi_last_auth_failure_context inp = Some (la_credential_context latest))
      | None \<Rightarrow>
          as_started_at (la_started latest) \<le> now \<and>
          sat_sub_i64 now (as_started_at (la_started latest)) \<le> u64_as_i64 (fi_command_horizon inp) \<and>
          fi_last_auth_failure_context inp = Some (la_credential_context latest)))"
  by (auto simp: compute_freshness_def Let_def split: option.split attempt_outcome.split)

text \<open>
  A command horizon beyond half the range of 64 bits, which the configuration reaches by
  saturation, is cast to a negative number: an attempt that started this very nanosecond is then
  reported as interrupted.
\<close>

theorem huge_command_horizon_interrupts:
  assumes "2 ^ 63 \<le> fi_command_horizon inp" "is_u64 (fi_command_horizon inp)"
    and "fi_latest_attempt inp = Some latest" "la_result latest = None"
    and "as_started_at (la_started latest) = now"
  shows "compute_freshness inp now =
    Stale (fi_last_good inp) (as_attempt_id (la_started latest)) CollectorInterrupted"
proof -
  have "u64_as_i64 (fi_command_horizon inp) < 0"
    using assms(1,2) u64_as_i64_negative [of "fi_command_horizon inp"] by (simp add: is_u64_def)
  then show ?thesis
    using assms(3-5) by (simp add: compute_freshness_def Let_def sat_sub_i64_def)
qed

theorem huge_command_horizon_interrupts_witness:
  "compute_freshness (sample_input\<lparr>fi_command_horizon := u64_max\<rparr>) 1600 =
     Stale (Some sample_observed) (AttemptId 7) CollectorInterrupted"
  using huge_command_horizon_interrupts [of "sample_input\<lparr>fi_command_horizon := u64_max\<rparr>"
      "\<lparr>la_started = \<lparr>as_attempt_id = AttemptId 7, as_started_at = 1600\<rparr>, la_result = None,
         la_credential_context = ''ctx''\<rparr>" 1600]
  by (simp add: sample_input_def is_u64_def)

end
