(* ===== verification/Due.thy ===== *)
theory Due
  imports Freshness
begin

text \<open>
  \<open>src/meter/due.rs\<close>: whether the sampler owes an account an attempt at an instant, and why. The
  decision is a function of the policy, the account's attempt history and the resets known from
  earlier observations; the holds a rate limit or a run of authentication failures impose move the
  ordinary due instant.
\<close>

record history_entry =
  he_attempt :: attempt_started
  he_due_at :: utc_timestamp
  he_result :: "attempt_result option"

record due_policy =
  dp_ordinary_cadence :: monotonic_duration
  dp_reset_edge_lead :: monotonic_duration
  dp_retry_after_cap :: monotonic_duration
  dp_auth_backoff_threshold :: u32
  dp_auth_backoff_cap :: monotonic_duration

datatype due_basis = AttemptBasis attempt_id | ResultBasis attempt_id

datatype due_decision =
    Due utc_timestamp due_reason "due_basis option"
  | NotYet utc_timestamp due_reason

record due_inputs =
  di_policy :: due_policy
  di_history :: "history_entry list"
  di_known_resets :: "utc_timestamp list"
  di_now :: utc_timestamp
  di_forced :: bool
  di_consecutive_auth_failures :: u32
  di_credential_changed :: bool

definition evidence_at :: "history_entry \<Rightarrow> utc_timestamp" where
  "evidence_at e =
     (case he_result e of Some r \<Rightarrow> ar_finished_at r | None \<Rightarrow> as_started_at (he_attempt e))"

definition entry_basis :: "history_entry \<Rightarrow> due_basis" where
  "entry_basis e =
     (case he_result e of
        Some r \<Rightarrow> ResultBasis (ar_attempt_id r)
      | None \<Rightarrow> AttemptBasis (as_attempt_id (he_attempt e)))"

text \<open>The \<open>Retry-After\<close> an outcome carries: the match the code writes out twice.\<close>

fun outcome_retry_after :: "attempt_outcome \<Rightarrow> monotonic_duration option" where
  "outcome_retry_after (Unreachable (RateLimited retry_after)) = retry_after"
| "outcome_retry_after _ = None"

definition next_due_after :: "attempt_result \<Rightarrow> monotonic_duration \<Rightarrow> monotonic_duration \<Rightarrow> utc_timestamp" where
  "next_due_after result ordinary_cadence retry_after_cap =
     (let capped = map_option (\<lambda>delay. min delay retry_after_cap) (outcome_retry_after (ar_outcome result));
          postpone = max (case capped of Some delay \<Rightarrow> delay | None \<Rightarrow> 0) ordinary_cadence
      in plus_nanos (ar_finished_at result) postpone)"

definition retry_postponement :: "history_entry \<Rightarrow> monotonic_duration \<Rightarrow> utc_timestamp option" where
  "retry_postponement e cap =
     (case he_result e of
        None \<Rightarrow> None
      | Some result \<Rightarrow>
          (case outcome_retry_after (ar_outcome result) of
             None \<Rightarrow> None
           | Some delay \<Rightarrow> Some (plus_nanos (ar_finished_at result) (min delay cap))))"

definition auth_backoff_delay ::
    "monotonic_duration \<Rightarrow> u32 \<Rightarrow> monotonic_duration \<Rightarrow> u32 \<Rightarrow> bool \<Rightarrow> monotonic_duration option" where
  "auth_backoff_delay cadence threshold cap failures credential_changed =
     (if threshold = 0 \<or> credential_changed then None
      else if failures < threshold then None
      else
        let excess = failures - threshold;
            shift = min (sat_add_u32 excess 1) 30;
            factor = (case checked_shl_one shift of Some f \<Rightarrow> f | None \<Rightarrow> u64_max);
            delay_nanos = min (sat_mul_u64 cadence factor) cap
        in if delay_nanos = 0 then None else Some delay_nanos)"

definition auth_postponement ::
    "history_entry \<Rightarrow> monotonic_duration \<Rightarrow> u32 \<Rightarrow> monotonic_duration \<Rightarrow> u32 \<Rightarrow> bool \<Rightarrow> utc_timestamp option" where
  "auth_postponement e cadence threshold cap failures credential_changed =
     (case auth_backoff_delay cadence threshold cap failures credential_changed of
        None \<Rightarrow> None
      | Some delay \<Rightarrow>
          (case he_result e of
             None \<Rightarrow> None
           | Some result \<Rightarrow> Some (plus_nanos (ar_finished_at result) delay)))"

text \<open>\<open>iter().max()\<close>\<close>

fun max_of :: "int list \<Rightarrow> int option" where
  "max_of [] = None"
| "max_of (x # xs) = (case max_of xs of None \<Rightarrow> Some x | Some y \<Rightarrow> Some (max x y))"

definition filter_opt :: "('a \<Rightarrow> bool) \<Rightarrow> 'a option \<Rightarrow> 'a option" where
  "filter_opt P v = (case v of None \<Rightarrow> None | Some x \<Rightarrow> if P x then Some x else None)"

text \<open>The due instant of the ordinary cadence with the two holds applied: rules 4, 5 and 6.\<close>

definition effective_due_at :: "due_inputs \<Rightarrow> history_entry \<Rightarrow> utc_timestamp" where
  "effective_due_at inp e =
     (let cadence_due_at = plus_nanos (he_due_at e) (dp_ordinary_cadence (di_policy inp));
          retry_hold = filter_opt (\<lambda>u. u > cadence_due_at)
            (retry_postponement e (dp_retry_after_cap (di_policy inp)));
          auth_hold = filter_opt (\<lambda>u. u > cadence_due_at)
            (auth_postponement e (dp_ordinary_cadence (di_policy inp))
               (dp_auth_backoff_threshold (di_policy inp)) (dp_auth_backoff_cap (di_policy inp))
               (di_consecutive_auth_failures inp) (di_credential_changed inp))
      in case (retry_hold, auth_hold) of
           (Some r, Some a) \<Rightarrow> max r a
         | (Some r, None) \<Rightarrow> r
         | (None, Some a) \<Rightarrow> a
         | (None, None) \<Rightarrow> cadence_due_at)"

definition passed_reset :: "due_inputs \<Rightarrow> utc_timestamp option" where
  "passed_reset inp = max_of (filter (\<lambda>r. r \<le> di_now inp) (di_known_resets inp))"

definition next_reset :: "due_inputs \<Rightarrow> utc_timestamp option" where
  "next_reset inp = find (\<lambda>r. r > di_now inp) (di_known_resets inp)"

definition last_entry :: "due_inputs \<Rightarrow> history_entry option" where
  "last_entry inp = (if di_history inp = [] then None else Some (last (di_history inp)))"

text \<open>Rule 2: the last passed reset, when no attempt has started since.\<close>

definition unobserved_reset :: "due_inputs \<Rightarrow> utc_timestamp option" where
  "unobserved_reset inp =
     filter_opt
       (\<lambda>reset. \<not> (case last_entry inp of None \<Rightarrow> False | Some e \<Rightarrow> as_started_at (he_attempt e) \<ge> reset))
       (passed_reset inp)"

text \<open>Rule 3: the next reset, when it is within the lead and the evidence is older than the lead.\<close>

definition edge_reset :: "due_inputs \<Rightarrow> utc_timestamp option" where
  "edge_reset inp =
     filter_opt
       (\<lambda>reset.
          let lead = u64_as_i64 (dp_reset_edge_lead (di_policy inp));
              lead_left = wrap_i64 (reset - di_now inp);
              evidence_fresh_enough =
                (case last_entry inp of None \<Rightarrow> False | Some e \<Rightarrow> evidence_at e \<ge> wrap_i64 (reset - lead))
          in lead_left \<le> lead \<and> \<not> evidence_fresh_enough)
       (next_reset inp)"

definition evaluate :: "due_inputs \<Rightarrow> due_decision" where
  "evaluate inp =
     (let basis = map_option entry_basis (last_entry inp)
      in if di_forced inp then Due (di_now inp) ForcedOrManual None
         else case unobserved_reset inp of
           Some reset \<Rightarrow> Due reset PostResetConfirmation basis
         | None \<Rightarrow>
             (case edge_reset inp of
                Some reset \<Rightarrow>
                  Due (wrap_i64 (reset - u64_as_i64 (dp_reset_edge_lead (di_policy inp)))) ResetEdge basis
              | None \<Rightarrow>
                  (case last_entry inp of
                     None \<Rightarrow> Due (di_now inp) OrdinaryCadence None
                   | Some e \<Rightarrow>
                       if di_now inp < effective_due_at inp e
                       then NotYet (effective_due_at inp e) OrdinaryCadence
                       else Due (effective_due_at inp e) OrdinaryCadence (Some (entry_basis e)))))"

section \<open>Helpers of the decision\<close>

lemma filter_opt_Some: "filter_opt P v = Some x \<longleftrightarrow> v = Some x \<and> P x"
  by (auto simp: filter_opt_def split: option.splits if_splits)

lemma filter_opt_None: "filter_opt P v = None \<longleftrightarrow> (\<forall>x. v = Some x \<longrightarrow> \<not> P x)"
  by (auto simp: filter_opt_def split: option.splits if_splits)




lemma effective_due_at_now [simp]: "effective_due_at (inp\<lparr>di_now := t\<rparr>) e = effective_due_at inp e"
  by (simp add: effective_due_at_def)

lemma last_entry_now [simp]: "last_entry (inp\<lparr>di_now := t\<rparr>) = last_entry inp"
  by (simp add: last_entry_def)

lemma effective_due_at_lower:
  "plus_nanos (he_due_at e) (dp_ordinary_cadence (di_policy inp)) \<le> effective_due_at inp e"
  by (auto simp: effective_due_at_def Let_def filter_opt_Some filter_opt_None split: option.splits)

lemma effective_due_at_holds:
  "retry_postponement e (dp_retry_after_cap (di_policy inp)) = Some u \<Longrightarrow> u \<le> effective_due_at inp e"
  "auth_postponement e (dp_ordinary_cadence (di_policy inp))
     (dp_auth_backoff_threshold (di_policy inp)) (dp_auth_backoff_cap (di_policy inp))
     (di_consecutive_auth_failures inp) (di_credential_changed inp) = Some u \<Longrightarrow>
   u \<le> effective_due_at inp e"
  by (auto simp: effective_due_at_def Let_def filter_opt_def split: option.splits if_splits)

lemma effective_due_at_cases:
  "effective_due_at inp e \<in>
     {plus_nanos (he_due_at e) (dp_ordinary_cadence (di_policy inp))} \<union>
     set_option (retry_postponement e (dp_retry_after_cap (di_policy inp))) \<union>
     set_option (auth_postponement e (dp_ordinary_cadence (di_policy inp))
       (dp_auth_backoff_threshold (di_policy inp)) (dp_auth_backoff_cap (di_policy inp))
       (di_consecutive_auth_failures inp) (di_credential_changed inp))"
  by (auto simp: effective_due_at_def Let_def filter_opt_def max_def split: option.splits if_splits)

lemma evaluate_NotYet_iff:
  "evaluate inp = NotYet n r \<longleftrightarrow>
     \<not> di_forced inp \<and> unobserved_reset inp = None \<and> edge_reset inp = None \<and> r = OrdinaryCadence \<and>
     (\<exists>e. last_entry inp = Some e \<and> n = effective_due_at inp e \<and> di_now inp < n)"
  by (auto simp: evaluate_def Let_def split: option.splits if_splits)

definition is_due :: "due_inputs \<Rightarrow> bool" where
  "is_due inp \<longleftrightarrow> (case evaluate inp of Due _ _ _ \<Rightarrow> True | NotYet _ _ \<Rightarrow> False)"

lemma is_due_iff:
  "is_due inp \<longleftrightarrow>
     di_forced inp \<or> unobserved_reset inp \<noteq> None \<or> edge_reset inp \<noteq> None \<or>
     (case last_entry inp of None \<Rightarrow> True | Some e \<Rightarrow> effective_due_at inp e \<le> di_now inp)"
  by (auto simp: is_due_def evaluate_def Let_def split: option.splits if_splits)

section \<open>Properties\<close>

text \<open>
  C27. A refusal to sample names an instant at which sampling is owed: when the decision is "not yet,
  next at n", then n lies in the future, and at n and at every instant after it, the history
  unchanged, the account is due.
\<close>

theorem not_yet_names_a_due_instant:
  assumes "evaluate inp = NotYet n r" "n \<le> t"
  shows "di_now inp < n \<and> is_due (inp\<lparr>di_now := t\<rparr>)"
  using assms by (auto simp: evaluate_NotYet_iff is_due_iff)

definition sample_policy :: due_policy where
  "sample_policy =
     \<lparr>dp_ordinary_cadence = 100, dp_reset_edge_lead = 20, dp_retry_after_cap = 500,
      dp_auth_backoff_threshold = 3, dp_auth_backoff_cap = 1000\<rparr>"

definition sample_entry :: "attempt_outcome \<Rightarrow> history_entry" where
  "sample_entry outcome =
     \<lparr>he_attempt = \<lparr>as_attempt_id = AttemptId 1, as_started_at = 1000\<rparr>, he_due_at = 990,
      he_result = Some
        \<lparr>ar_attempt_id = AttemptId 1, ar_finished_at = 1010, ar_elapsed = 10, ar_outcome = outcome\<rparr>\<rparr>"

definition sample_due :: "attempt_outcome \<Rightarrow> utc_timestamp \<Rightarrow> due_inputs" where
  "sample_due outcome now =
     \<lparr>di_policy = sample_policy, di_history = [sample_entry outcome], di_known_resets = [2000],
      di_now = now, di_forced = False, di_consecutive_auth_failures = 0, di_credential_changed = False\<rparr>"

lemmas due_eval =
  sample_due_def sample_entry_def sample_policy_def evaluate_NotYet_iff unobserved_reset_def
  edge_reset_def last_entry_def passed_reset_def next_reset_def effective_due_at_def filter_opt_def
  retry_postponement_def auth_postponement_def auth_backoff_delay_def evidence_at_def u64_as_i64_def
  wrap_i64_def Let_def

theorem not_yet_names_a_due_instant_witness:
  "evaluate (sample_due Success 1050) = NotYet 1090 OrdinaryCadence \<and>
   is_due (sample_due Success 1050\<lparr>di_now := 1090\<rparr>)"
proof -
  have "evaluate (sample_due Success 1050) = NotYet 1090 OrdinaryCadence"
    by (simp add: due_eval)
  then show ?thesis
    using not_yet_names_a_due_instant [of "sample_due Success 1050" 1090 OrdinaryCadence 1090] by simp
qed

definition policy_castable :: "due_policy \<Rightarrow> bool" where
  "policy_castable p \<longleftrightarrow>
     castable (dp_ordinary_cadence p) \<and> castable (dp_reset_edge_lead p) \<and>
     castable (dp_retry_after_cap p) \<and> castable (dp_auth_backoff_cap p)"

lemma auth_backoff_delay_bounds:
  "auth_backoff_delay cadence threshold cap failures changed = Some d \<Longrightarrow> 0 < d \<and> d \<le> cap"
  by (auto simp: auth_backoff_delay_def Let_def split: if_splits)

text \<open>
  No hold outlasts the operator's ceilings: whatever delay a provider asked for and however long
  the run of authentication failures, the instant the decision waits for is at most the cadence
  boundary or the latest result's finish plus the larger of the two configured caps.
\<close>

theorem holds_are_capped:
  assumes "evaluate inp = NotYet n r" "policy_castable (di_policy inp)" "last_entry inp = Some e"
    and fits: "is_i64 (he_due_at e + int (dp_ordinary_cadence (di_policy inp)))"
      "\<forall>res c. he_result e = Some res \<and> c \<le> max (dp_retry_after_cap (di_policy inp)) (dp_auth_backoff_cap (di_policy inp))
         \<longrightarrow> is_i64 (ar_finished_at res + int c)"
  shows "n \<le> max (he_due_at e + int (dp_ordinary_cadence (di_policy inp)))
    (evidence_at e + int (max (dp_retry_after_cap (di_policy inp)) (dp_auth_backoff_cap (di_policy inp))))"
proof -
  let ?p = "di_policy inp"
  let ?cap = "max (dp_retry_after_cap ?p) (dp_auth_backoff_cap ?p)"
  have cap: "castable ?cap" using assms(2) by (simp add: policy_castable_def max_def)
  have hold: "plus_nanos (ar_finished_at res) d \<le> evidence_at e + int ?cap"
    if "he_result e = Some res" "d \<le> ?cap" for res d
  proof -
    have "castable d" using that(2) cap unfolding castable_def by (rule order_trans)
    moreover have "is_i64 (ar_finished_at res + int d)" using fits(2) that by blast
    ultimately show ?thesis using that by (simp add: plus_nanos_exact evidence_at_def)
  qed
  have "n = effective_due_at inp e" using assms(1,3) by (auto simp: evaluate_NotYet_iff)
  then consider "n = plus_nanos (he_due_at e) (dp_ordinary_cadence ?p)"
    | "retry_postponement e (dp_retry_after_cap ?p) = Some n"
    | "auth_postponement e (dp_ordinary_cadence ?p) (dp_auth_backoff_threshold ?p)
        (dp_auth_backoff_cap ?p) (di_consecutive_auth_failures inp) (di_credential_changed inp) = Some n"
    using effective_due_at_cases [of inp e] by auto
  then show ?thesis
  proof cases
    case 1
    then show ?thesis
      using fits(1) assms(2) plus_nanos_exact [of "dp_ordinary_cadence ?p" "he_due_at e"]
      by (simp add: policy_castable_def)
  next
    case 2
    then obtain res d where "he_result e = Some res" "n = plus_nanos (ar_finished_at res) (min d (dp_retry_after_cap ?p))"
      by (auto simp: retry_postponement_def split: option.splits)
    moreover have "min d (dp_retry_after_cap ?p) \<le> ?cap" by arith
    ultimately show ?thesis using hold [of res "min d (dp_retry_after_cap ?p)"] by simp
  next
    case 3
    then obtain res d where "he_result e = Some res" "n = plus_nanos (ar_finished_at res) d"
        "d \<le> dp_auth_backoff_cap ?p"
      using auth_backoff_delay_bounds by (auto simp: auth_postponement_def split: option.splits)
    moreover have "d \<le> ?cap" using calculation(3) by arith
    ultimately show ?thesis using hold [of res d] by simp
  qed
qed

theorem holds_are_capped_witness:
  "evaluate (sample_due (Unreachable (RateLimited (Some 999999))) 1200) = NotYet 1510 OrdinaryCadence \<and>
   (1510::int) \<le> max (990 + int 100) (1010 + int (max 500 1000))"
proof -
  let ?i = "sample_due (Unreachable (RateLimited (Some 999999))) 1200"
  have e: "evaluate ?i = NotYet 1510 OrdinaryCadence" by (simp add: due_eval)
  have "last_entry ?i = Some (sample_entry (Unreachable (RateLimited (Some 999999))))"
    by (simp add: sample_due_def last_entry_def)
  from holds_are_capped [OF e _ this] e show ?thesis
    by (simp add: sample_due_def sample_policy_def sample_entry_def policy_castable_def castable_def
        is_i64_def evidence_at_def)
qed

text \<open>
  A provider's \<open>Retry-After\<close> is honoured up to the ceiling: after a rate-limited result, an
  ordinary-cadence attempt is never due before the refusal's finish plus the capped delay. Only an
  explicit request or a reset edge goes earlier.
\<close>

theorem retry_after_is_honoured:
  assumes "evaluate inp = Due d OrdinaryCadence b" "last_entry inp = Some e"
    and "he_result e = Some res" "ar_outcome res = Unreachable (RateLimited (Some delay))"
    and "castable (min delay (dp_retry_after_cap (di_policy inp)))"
    and "is_i64 (ar_finished_at res + int (min delay (dp_retry_after_cap (di_policy inp))))"
  shows "ar_finished_at res + int (min delay (dp_retry_after_cap (di_policy inp))) \<le> di_now inp"
proof -
  have "retry_postponement e (dp_retry_after_cap (di_policy inp)) =
      Some (ar_finished_at res + int (min delay (dp_retry_after_cap (di_policy inp))))"
    using assms(3-6) by (simp add: retry_postponement_def plus_nanos_exact del: of_nat_min)
  then have "ar_finished_at res + int (min delay (dp_retry_after_cap (di_policy inp))) \<le> effective_due_at inp e"
    by (rule effective_due_at_holds(1))
  also have "effective_due_at inp e \<le> di_now inp"
    using assms(1,2) by (auto simp: evaluate_def Let_def split: option.splits if_splits)
  finally show ?thesis .
qed

theorem retry_after_is_honoured_witness:
  "\<exists>d b. evaluate (sample_due (Unreachable (RateLimited (Some 300))) 1400) = Due d OrdinaryCadence b \<and>
     (1010::int) + int (min 300 500) \<le> 1400"
proof -
  let ?o = "Unreachable (RateLimited (Some 300))"
  have ev: "evaluate (sample_due ?o 1400) = Due 1310 OrdinaryCadence (Some (ResultBasis (AttemptId 1)))"
    by (simp add: evaluate_def due_eval entry_basis_def)
  then show ?thesis
    using retry_after_is_honoured [OF ev, of "sample_entry ?o"
        "\<lparr>ar_attempt_id = AttemptId 1, ar_finished_at = 1010, ar_elapsed = 10, ar_outcome = ?o\<rparr>" 300]
    by (simp add: sample_due_def sample_entry_def sample_policy_def last_entry_def castable_def is_i64_def)
qed

text \<open>
  The factor of the backoff is a power of two that 64 bits hold, for the shift is at most 30.
\<close>

lemma auth_backoff_delay_value:
  assumes "threshold \<noteq> 0" "threshold \<le> failures" "is_u32 failures"
  shows "auth_backoff_delay cadence threshold cap failures False =
    (let d = min (min (cadence * 2 ^ min (failures - threshold + 1) 30) u64_max) cap
     in if d = 0 then None else Some d)"
proof -
  have "sat_add_u32 (failures - threshold) 1 = failures - threshold + 1"
    using assms by (auto simp: sat_add_u32_def is_u32_def)
  then have shift: "min (sat_add_u32 (failures - threshold) 1) 30 = min (failures - threshold + 1) 30" by simp
  have bounded: "min (failures - threshold + 1) 30 < 64 \<longleftrightarrow> True" by simp
  have guards: "threshold = 0 \<longleftrightarrow> False" "failures < threshold \<longleftrightarrow> False" using assms by auto
  show ?thesis
    unfolding auth_backoff_delay_def Let_def shift checked_shl_one_def sat_mul_u64_def
    by (simp only: bounded guards simp_thms if_True if_False option.case)
qed

lemma capped_between:
  fixes a b u c :: nat
  shows "a \<le> b \<Longrightarrow> min (min a u) c \<le> min (min b u) c"
    and "b \<le> 2 * a \<Longrightarrow> min (min b u) c \<le> 2 * min (min a u) c"
  by (auto simp: min_def)

text \<open>
  The authentication backoff: nothing below the threshold, after a credential change, or when
  disabled; from the threshold on the first wait is twice the cadence or the cap, every further
  rejection at most doubles the wait and never shortens it, and the cap is never exceeded.
\<close>

theorem auth_backoff_doubles_to_the_cap:
  assumes "threshold \<noteq> 0" "threshold \<le> failures" "is_u32 (Suc failures)" "0 < cap" "0 < cadence" "is_u64 cap"
  shows "\<exists>d d'. auth_backoff_delay cadence threshold cap failures False = Some d \<and>
      auth_backoff_delay cadence threshold cap (Suc failures) False = Some d' \<and>
      d \<le> d' \<and> d' \<le> 2 * d \<and> d' \<le> cap \<and>
      auth_backoff_delay cadence threshold cap threshold False = Some (min (2 * cadence) cap) \<and>
      auth_backoff_delay cadence threshold cap failures True = None \<and>
      (\<forall>n<threshold. auth_backoff_delay cadence threshold cap n False = None)"
proof -
  define w where "w n = min (min (cadence * 2 ^ min n 30) u64_max) cap" for n
  have pos: "0 < w n" for n using assms(4,5) by (simp add: w_def)
  have val: "auth_backoff_delay cadence threshold cap f False = Some (w (f - threshold + 1))"
    if "threshold \<le> f" "is_u32 f" for f
    using auth_backoff_delay_value [OF assms(1) that, of cadence cap] pos [of "f - threshold + 1"]
    by (simp add: w_def Let_def)
  let ?k = "failures - threshold + 1"
  have u: "is_u32 failures" "is_u32 threshold" using assms(2,3) by (auto simp: is_u32_def)
  have "2 ^ min ?k 30 \<le> (2::nat) ^ min (Suc ?k) 30"
    by (intro power_increasing) auto
  then have up: "cadence * 2 ^ min ?k 30 \<le> cadence * 2 ^ min (Suc ?k) 30" by simp
  have "(2::nat) ^ min (Suc ?k) 30 \<le> 2 ^ Suc (min ?k 30)"
    by (intro power_increasing) auto
  then have "cadence * 2 ^ min (Suc ?k) 30 \<le> cadence * 2 ^ Suc (min ?k 30)" by (rule mult_le_mono2)
  then have twice: "cadence * 2 ^ min (Suc ?k) 30 \<le> 2 * (cadence * 2 ^ min ?k 30)" by simp
  have mono: "w ?k \<le> w (Suc ?k)" unfolding w_def by (rule capped_between(1) [OF up])
  have double: "w (Suc ?k) \<le> 2 * w ?k" unfolding w_def by (rule capped_between(2) [OF twice])
  have "cap \<le> u64_max" using assms(6) by (simp add: is_u64_def)
  then have one: "w 1 = min (2 * cadence) cap" by (simp add: w_def min.assoc min.absorb2 mult.commute)
  have cap: "w (Suc ?k) \<le> cap" unfolding w_def by (rule min.cobounded2)
  have k: "Suc failures - threshold + 1 = Suc ?k" using assms(2) by simp
  have now: "auth_backoff_delay cadence threshold cap failures False = Some (w ?k)"
    using assms(2) u(1) by (rule val)
  have suc: "auth_backoff_delay cadence threshold cap (Suc failures) False = Some (w (Suc ?k))"
    using val [of "Suc failures"] assms(2,3) unfolding k by simp
  have first: "auth_backoff_delay cadence threshold cap threshold False = Some (min (2 * cadence) cap)"
    using val [of threshold] u(2) by (simp add: one del: One_nat_def)
  show ?thesis
    by (intro exI [of _ "w ?k"] exI [of _ "w (Suc ?k)"] conjI now suc first mono double cap)
      (simp_all add: auth_backoff_delay_def)
qed

theorem auth_backoff_doubles_to_the_cap_witness:
  "auth_backoff_delay 100 3 1000 3 False = Some 200 \<and> auth_backoff_delay 100 3 1000 2 False = None"
proof -
  have "is_u32 (Suc 4)" "is_u64 1000" by (simp_all add: is_u32_def is_u64_def)
  then show ?thesis
    using auth_backoff_doubles_to_the_cap [of 3 4 1000 100] by auto
qed







text \<open>
  A sampling interval beyond half the range of 64 bits, which the configuration reaches by
  saturation, is cast to a negative number: an account meant to be sampled almost never is due at
  every tick, the moment after its last attempt included.
\<close>

theorem huge_cadence_is_always_due:
  assumes "last_entry inp = Some e" "he_result e = None" "he_due_at e \<le> di_now inp"
    and "dp_ordinary_cadence (di_policy inp) = u64_max" "is_i64 (he_due_at e - 1)"
  shows "is_due inp"
proof -
  have "u64_as_i64 u64_max = - 1" by (simp add: u64_as_i64_def wrap_i64_def)
  moreover from assms(5) have "wrap_i64 (he_due_at e - 1) = he_due_at e - 1" by (rule wrap_i64_id)
  ultimately have "effective_due_at inp e = he_due_at e - 1"
    using assms(2,4)
    by (simp add: effective_due_at_def Let_def retry_postponement_def auth_postponement_def
        filter_opt_def split: option.split)
  then show ?thesis using assms(1,3) unfolding is_due_iff by simp
qed

theorem huge_cadence_is_always_due_witness:
  "is_due (sample_due Success 1000
     \<lparr>di_policy := sample_policy\<lparr>dp_ordinary_cadence := u64_max\<rparr>,
      di_history := [sample_entry Success\<lparr>he_result := None\<rparr>]\<rparr>)"
  by (rule huge_cadence_is_always_due [of _ "sample_entry Success\<lparr>he_result := None\<rparr>"])
    (simp_all add: sample_due_def sample_entry_def sample_policy_def last_entry_def is_i64_def)

end
