(* ===== verification/Retry.thy ===== *)
theory Retry
  imports Failures
begin

text \<open>
  \<open>src/meter/retry.rs\<close>, with the command budget of \<open>src/meter/transport.rs\<close> it asks: the backoff
  policy and its string form, the decision after one network try, and the driver that runs one
  logical sampling attempt. The environment is a record of the four operations of the trait
  \<open>RetryEnv\<close> over an arbitrary state; what they promise is the locale below.
\<close>

section \<open>The policy\<close>

datatype backoff_algorithm = Fixed | Exponential

record retry_policy =
  rp_max_transient_retries :: u32
  rp_base_backoff :: monotonic_duration
  rp_algorithm :: backoff_algorithm

definition conservative_default :: retry_policy where
  "conservative_default =
     \<lparr>rp_max_transient_retries = 2, rp_base_backoff = from_millis 250, rp_algorithm = Exponential\<rparr>"

definition backoff_for :: "retry_policy \<Rightarrow> u32 \<Rightarrow> monotonic_duration" where
  "backoff_for p retry_number =
     (case rp_algorithm p of
        Fixed \<Rightarrow> rp_base_backoff p
      | Exponential \<Rightarrow>
          let factor = (case checked_shl_one (retry_number - 1) of Some f \<Rightarrow> f | None \<Rightarrow> u64_max)
          in sat_mul_u64 (rp_base_backoff p) factor)"

fun is_transient :: "failure_class \<Rightarrow> bool" where
  "is_transient ConnectTimeout = True"
| "is_transient DnsFailure = True"
| "is_transient ReadTimeout = True"
| "is_transient _ = False"

datatype retry_decision = RetryAfter monotonic_duration | Stop

definition decide_unreachable ::
    "retry_policy \<Rightarrow> failure_class \<Rightarrow> u32 \<Rightarrow> monotonic_duration option \<Rightarrow> retry_decision" where
  "decide_unreachable p cls retries_used budget_remaining =
     (if \<not> is_transient cls then Stop
      else if retries_used \<ge> rp_max_transient_retries p then Stop
      else
        let backoff = backoff_for p (retries_used + 1)
        in case budget_remaining of
             Some remaining \<Rightarrow> if backoff \<le> remaining then RetryAfter backoff else Stop
           | None \<Rightarrow> Stop)"

definition decide ::
    "retry_policy \<Rightarrow> attempt_outcome \<Rightarrow> u32 \<Rightarrow> monotonic_duration option \<Rightarrow> retry_decision" where
  "decide p latest retries_used budget_remaining =
     (case latest of
        Success \<Rightarrow> Stop
      | Outcome_AuthRequired \<Rightarrow> Stop
      | Unreachable cls \<Rightarrow> decide_unreachable p cls retries_used budget_remaining)"

lemma decide_RetryAfter:
  "decide p latest used budget = RetryAfter b \<Longrightarrow>
     used < rp_max_transient_retries p \<and> b = backoff_for p (used + 1) \<and>
     (\<exists>cls. latest = Unreachable cls \<and> is_transient cls) \<and> (\<exists>r. budget = Some r \<and> b \<le> r)"
  by (auto simp: decide_def decide_unreachable_def Let_def split: attempt_outcome.splits if_splits option.splits)

lemma decide_below_ceiling:
  "decide p latest used budget = RetryAfter b \<Longrightarrow>
   rp_max_transient_retries p - Suc used < rp_max_transient_retries p - used"
  using decide_RetryAfter [of p latest used budget b] by auto

section \<open>Its string form\<close>

datatype retry_policy_parse_error = Shape string | UnknownAlgorithm string | BadNumber string

definition algorithm_str :: "backoff_algorithm \<Rightarrow> string" where
  "algorithm_str a = (case a of Fixed \<Rightarrow> ''fixed'' | Exponential \<Rightarrow> ''exponential'')"

definition render :: "retry_policy \<Rightarrow> string" where
  "render p =
     (let base_ms = rp_base_backoff p div 1000000
      in algorithm_str (rp_algorithm p) @ ''-'' @ show_nat (rp_max_transient_retries p) @ ''-'' @
         show_nat base_ms @ ''ms'')"

definition parse_algorithm :: "string \<Rightarrow> backoff_algorithm option" where
  "parse_algorithm s =
     (if s = ''fixed'' then Some Fixed else if s = ''exponential'' then Some Exponential else None)"

definition parse_retry_policy :: "string \<Rightarrow> retry_policy_parse_error + retry_policy" where
  "parse_retry_policy text =
     (case split_on (CHR ''-'') text of
        [algorithm, max_retries, base] \<Rightarrow>
          (case parse_algorithm algorithm of
             None \<Rightarrow> Inl (UnknownAlgorithm algorithm)
           | Some a \<Rightarrow>
               (case parse_u32 max_retries of
                  None \<Rightarrow> Inl (BadNumber max_retries)
                | Some m \<Rightarrow>
                    (case strip_suffix ''ms'' base of
                       None \<Rightarrow> Inl (BadNumber base)
                     | Some digits \<Rightarrow>
                         (case parse_u64 digits of
                            None \<Rightarrow> Inl (BadNumber base)
                          | Some base_ms \<Rightarrow>
                              Inr \<lparr>rp_max_transient_retries = m, rp_base_backoff = from_millis base_ms,
                                   rp_algorithm = a\<rparr>))))
      | _ \<Rightarrow> Inl (Shape text))"

definition retry_policy_ok :: "retry_policy \<Rightarrow> bool" where
  "retry_policy_ok p \<longleftrightarrow> is_u32 (rp_max_transient_retries p) \<and> is_u64 (rp_base_backoff p)"

text \<open>
  The snapshot column's codec: parsing what was rendered gives the policy back, its base delay
  cut to whole milliseconds; so the round trip is exact precisely for the policies whose delay is a
  whole number of milliseconds.
\<close>

theorem retry_policy_roundtrip:
  assumes "retry_policy_ok p"
  shows "parse_retry_policy (render p) =
      Inr (p\<lparr>rp_base_backoff := rp_base_backoff p div 1000000 * 1000000\<rparr>) \<and>
    (parse_retry_policy (render p) = Inr p \<longleftrightarrow> rp_base_backoff p mod 1000000 = 0)"
proof -
  define ms where "ms = rp_base_backoff p div 1000000"
  define m where "m = show_nat (rp_max_transient_retries p)"
  have ms: "is_u64 ms" "from_millis ms = ms * 1000000"
  proof -
    have "ms * 1000000 \<le> rp_base_backoff p" by (simp add: ms_def)
    moreover from this have "ms \<le> rp_base_backoff p" by (rule order_trans [rotated]) simp
    ultimately show "is_u64 ms" "from_millis ms = ms * 1000000"
      using assms by (auto simp: retry_policy_ok_def is_u64_def from_millis_def sat_mul_u64_def)
  qed
  have a: "CHR ''-'' \<notin> set (algorithm_str x)" "parse_algorithm (algorithm_str x) = Some x" for x
    by (cases x; simp add: algorithm_str_def parse_algorithm_def)+
  have r: "render p = algorithm_str (rp_algorithm p) @ CHR ''-'' # m @ CHR ''-'' # (show_nat ms @ ''ms'')"
    by (simp add: render_def ms_def m_def)
  have "split_on (CHR ''-'') (render p) = [algorithm_str (rp_algorithm p), m, show_nat ms @ ''ms'']"
    unfolding r by (simp add: split_on_append split_on_none a m_def)
  moreover have "parse_u32 m = Some (rp_max_transient_retries p)"
    using assms by (simp add: m_def str_simps retry_policy_ok_def)
  ultimately have "parse_retry_policy (render p) = Inr (p\<lparr>rp_base_backoff := ms * 1000000\<rparr>)"
    using ms by (cases p) (simp add: parse_retry_policy_def a str_simps)
  moreover have "ms * 1000000 = rp_base_backoff p \<longleftrightarrow> rp_base_backoff p mod 1000000 = 0"
  proof -
    have "ms * 1000000 + rp_base_backoff p mod 1000000 = rp_base_backoff p"
      by (simp add: ms_def)
    then show ?thesis by linarith
  qed
  ultimately show ?thesis by (cases p) (auto simp: ms_def)
qed

theorem retry_policy_roundtrip_witness:
  "parse_retry_policy (render conservative_default) = Inr conservative_default"
  using retry_policy_roundtrip [of conservative_default]
  by (simp add: conservative_default_def retry_policy_ok_def is_u32_def is_u64_def from_millis_def sat_mul_u64_def)

section \<open>The driver\<close>

datatype 'a provider_observation =
    MeasuredReading 'a
  | CredentialRefused auth_reason
  | SourceFailed failure_class

fun attempt_outcome_of :: "'a provider_observation \<Rightarrow> attempt_outcome" where
  "attempt_outcome_of (MeasuredReading _) = Success"
| "attempt_outcome_of (CredentialRefused _) = Outcome_AuthRequired"
| "attempt_outcome_of (SourceFailed cls) = Unreachable cls"

record 'a captured_response =
  cr_observation :: "'a provider_observation"
  cr_failed_error :: "provider_error_report option"

record network_try =
  nt_ordinal :: u32
  nt_started :: monotonic_instant
  nt_ended :: monotonic_instant
  nt_outcome :: attempt_outcome

record 'a retry_outcome =
  ro_tries :: "network_try list"
  ro_terminal :: "'a provider_observation"
  ro_terminal_error_report :: "provider_error_report option"

definition try_elapsed :: "network_try \<Rightarrow> monotonic_duration" where
  "try_elapsed t = duration_since (nt_ended t) (nt_started t)"

definition outcome_retry_delay :: "'a retry_outcome \<Rightarrow> monotonic_duration option" where
  "outcome_retry_delay r =
     (case ro_terminal r of SourceFailed (RateLimited retry_after) \<Rightarrow> retry_after | _ \<Rightarrow> None)"

definition retry_index :: "'a retry_outcome \<Rightarrow> u32 option" where
  "retry_index r =
     (if length (ro_tries r) < 2 then None
      else if is_u32 (length (ro_tries r) - 1) then Some (length (ro_tries r) - 1) else None)"

record ('s, 'a) retry_env =
  re_attempt :: "'s \<Rightarrow> 'a captured_response \<times> 's"
  re_now :: "'s \<Rightarrow> monotonic_instant"
  re_budget_remaining :: "'s \<Rightarrow> monotonic_duration option"
  re_wait :: "monotonic_duration \<Rightarrow> 's \<Rightarrow> 's"

text \<open>
  The loop, with the tries so far and the retries used. It ends because a retry is decided only
  below the policy's ceiling.
\<close>

function run_loop ::
    "retry_policy \<Rightarrow> ('s, 'a) retry_env \<Rightarrow> network_try list \<Rightarrow> u32 \<Rightarrow> 's \<Rightarrow> 'a retry_outcome \<times> 's" where
  "run_loop p env tries retries_used s =
     (let started = re_now env s;
          captured = fst (re_attempt env s);
          s1 = snd (re_attempt env s);
          ended = re_now env s1;
          observation = cr_observation captured;
          outcome = attempt_outcome_of observation;
          tries' = tries @ [\<lparr>nt_ordinal = length tries + 1, nt_started = started, nt_ended = ended,
                             nt_outcome = outcome\<rparr>]
      in case decide p outcome retries_used (re_budget_remaining env s1) of
           Stop \<Rightarrow>
             (\<lparr>ro_tries = tries', ro_terminal = observation,
               ro_terminal_error_report = cr_failed_error captured\<rparr>, s1)
         | RetryAfter backoff \<Rightarrow> run_loop p env tries' (retries_used + 1) (re_wait env backoff s1))"
  by pat_completeness auto
termination
  by (relation "measure (\<lambda>(p, env, tries, used, s). rp_max_transient_retries p - used)")
    (simp_all add: decide_below_ceiling)

declare run_loop.simps [simp del]

definition run_with_retry :: "retry_policy \<Rightarrow> ('s, 'a) retry_env \<Rightarrow> 's \<Rightarrow> 'a retry_outcome \<times> 's" where
  "run_with_retry p env s = run_loop p env [] 0 s"

section \<open>The command budget\<close>

record command_budget =
  cb_budget :: monotonic_duration
  cb_started_at :: monotonic_instant

definition budget_remaining :: "command_budget \<Rightarrow> monotonic_instant \<Rightarrow> monotonic_duration option" where
  "budget_remaining b now =
     (let elapsed = duration_since now (cb_started_at b)
      in if elapsed \<ge> cb_budget b then None else Some (cb_budget b - elapsed))"

definition budget_is_expired :: "command_budget \<Rightarrow> monotonic_instant \<Rightarrow> bool" where
  "budget_is_expired b now \<longleftrightarrow> budget_remaining b now = None"

section \<open>What the driver guarantees\<close>

definition transient_try :: "network_try \<Rightarrow> bool" where
  "transient_try t = (case nt_outcome t of Unreachable cls \<Rightarrow> is_transient cls | _ \<Rightarrow> False)"

lemma transient_try_iff: "transient_try t \<longleftrightarrow> (\<exists>cls. nt_outcome t = Unreachable cls \<and> is_transient cls)"
  by (cases "nt_outcome t") (simp_all add: transient_try_def)

text \<open>One turn of the loop: the state after the network try, its capture, and its record.\<close>

definition after_try :: "('s, 'a) retry_env \<Rightarrow> 's \<Rightarrow> 's" where
  "after_try env s = snd (re_attempt env s)"

definition try_observation :: "('s, 'a) retry_env \<Rightarrow> 's \<Rightarrow> 'a provider_observation" where
  "try_observation env s = cr_observation (fst (re_attempt env s))"

definition try_record :: "('s, 'a) retry_env \<Rightarrow> network_try list \<Rightarrow> 's \<Rightarrow> network_try" where
  "try_record env tries s =
     \<lparr>nt_ordinal = length tries + 1, nt_started = re_now env s, nt_ended = re_now env (after_try env s),
      nt_outcome = attempt_outcome_of (try_observation env s)\<rparr>"

lemma run_loop_turn:
  "run_loop p env tries used s =
     (case decide p (attempt_outcome_of (try_observation env s)) used (re_budget_remaining env (after_try env s)) of
        Stop \<Rightarrow>
          (\<lparr>ro_tries = tries @ [try_record env tries s], ro_terminal = try_observation env s,
            ro_terminal_error_report = cr_failed_error (fst (re_attempt env s))\<rparr>, after_try env s)
      | RetryAfter b \<Rightarrow>
          run_loop p env (tries @ [try_record env tries s]) (used + 1) (re_wait env b (after_try env s)))"
  unfolding after_try_def try_observation_def try_record_def
  by (subst run_loop.simps) (simp only: Let_def)

lemma run_loop_induct [consumes 0, case_names Stop Retry]:
  assumes "\<And>tries used s.
      decide p (attempt_outcome_of (try_observation env s)) used (re_budget_remaining env (after_try env s)) = Stop \<Longrightarrow>
      P tries used s"
    and "\<And>tries used s b.
      decide p (attempt_outcome_of (try_observation env s)) used (re_budget_remaining env (after_try env s)) = RetryAfter b \<Longrightarrow>
      P (tries @ [try_record env tries s]) (used + 1) (re_wait env b (after_try env s)) \<Longrightarrow> P tries used s"
  shows "P tries used s"
proof (induction "rp_max_transient_retries p - used" arbitrary: tries used s rule: less_induct)
  case (less used tries s)
  show ?case
  proof (cases "decide p (attempt_outcome_of (try_observation env s)) used (re_budget_remaining env (after_try env s))")
    case (RetryAfter b)
    show ?thesis
      by (rule assms(2) [OF RetryAfter]) (rule less, simp add: decide_below_ceiling [OF RetryAfter])
  qed (rule assms(1))
qed

text \<open>The tries a run appends to those it was given.\<close>

lemma run_loop_tries:
  assumes "used = length tries"
  shows "\<exists>new. ro_tries (fst (run_loop p env tries used s)) = tries @ new \<and> new \<noteq> [] \<and>
    (used \<le> rp_max_transient_retries p \<longrightarrow> length (tries @ new) \<le> Suc (rp_max_transient_retries p)) \<and>
    map nt_ordinal new = map Suc [length tries..<length tries + length new] \<and>
    list_all transient_try (butlast new) \<and>
    nt_outcome (last new) = attempt_outcome_of (ro_terminal (fst (run_loop p env tries used s)))"
  using assms
proof (induction tries used s rule: run_loop_induct [where p = p and env = env])
  case (Stop tries used s)
  then show ?case
    by (intro exI [of _ "[try_record env tries s]"]) (simp add: run_loop_turn [of p env tries] try_record_def)
next
  case (Retry tries used s b)
  let ?t = "try_record env tries s"
  have step: "run_loop p env tries used s =
      run_loop p env (tries @ [?t]) (used + 1) (re_wait env b (after_try env s))"
    unfolding run_loop_turn [of p env tries] using Retry.hyps by simp
  have d: "used < rp_max_transient_retries p" "transient_try ?t"
    using decide_RetryAfter [OF Retry.hyps] by (auto simp: try_record_def transient_try_def)
  from Retry.IH Retry.prems d(1)
  obtain new where n: "ro_tries (fst (run_loop p env tries used s)) = tries @ ?t # new" "new \<noteq> []"
      "length (tries @ ?t # new) \<le> Suc (rp_max_transient_retries p)"
      "map nt_ordinal new = map Suc [Suc (length tries)..<Suc (length tries) + length new]"
      "list_all transient_try (butlast new)"
      "nt_outcome (last new) = attempt_outcome_of (ro_terminal (fst (run_loop p env tries used s)))"
    unfolding step by auto
  have "map nt_ordinal (?t # new) = map Suc [length tries..<length tries + length (?t # new)]"
    using n(4) by (simp add: try_record_def upt_conv_Cons del: upt_Suc)
  then show ?case
    using d(2) n by (intro exI [of _ "?t # new"]) simp
qed

text \<open>
  C28. One sampling attempt is one bounded, fully recorded sequence of tries: it always ends, with at
  least one try and at most one more than the retry ceiling; the tries are numbered in order from
  one; every try but the last failed transiently, so neither a success nor an authentication
  rejection nor a rate limit is ever retried; and the last try is the outcome that is reported.
\<close>

theorem retry_sequence_is_bounded_and_complete:
  "let r = fst (run_with_retry p env s); ts = ro_tries r
   in ts \<noteq> [] \<and> length ts \<le> Suc (rp_max_transient_retries p) \<and>
      map nt_ordinal ts = [1..<Suc (length ts)] \<and>
      (\<forall>t\<in>set (butlast ts). \<exists>cls. nt_outcome t = Unreachable cls \<and> is_transient cls) \<and>
      nt_outcome (last ts) = attempt_outcome_of (ro_terminal r)"
proof -
  obtain new where n: "ro_tries (fst (run_with_retry p env s)) = new" "new \<noteq> []"
      "length new \<le> Suc (rp_max_transient_retries p)" "map nt_ordinal new = map Suc [0..<length new]"
      "list_all transient_try (butlast new)"
      "nt_outcome (last new) = attempt_outcome_of (ro_terminal (fst (run_with_retry p env s)))"
    using run_loop_tries [of 0 "[]" p env s] by (auto simp: run_with_retry_def)
  from n(5) have "\<forall>t\<in>set (butlast new). \<exists>cls. nt_outcome t = Unreachable cls \<and> is_transient cls"
    using transient_try_iff by (simp add: list_all_iff)
  moreover have "map nt_ordinal new = [1..<Suc (length new)]"
    unfolding n(4) map_Suc_upt by simp
  ultimately show ?thesis using n unfolding Let_def by blast
qed

text \<open>
  What an environment promises about its budget: it is a command budget read on the environment's own clock. How long a
  call takes, and how far a wait runs past the delay it was asked for, is the environment's business.
\<close>

lemma budget_remaining_Some:
  "budget_remaining b now = Some r \<Longrightarrow> now + r \<le> cb_started_at b + cb_budget b"
  by (auto simp: budget_remaining_def duration_since_def sat_sub_u64_def Let_def split: if_splits)

definition waits_within :: "('s, 'a) retry_env \<Rightarrow> monotonic_duration \<Rightarrow> bool" where
  "waits_within env slack \<longleftrightarrow> (\<forall>d s. re_now env (re_wait env d s) \<le> re_now env s + d + slack)"

locale budgeted_env =
  fixes env :: "('s, 'a) retry_env" and budget :: command_budget
  assumes remaining: "re_budget_remaining env s = budget_remaining budget (re_now env s)"
begin

lemma run_loop_in_budget:
  "\<exists>new. ro_tries (fst (run_loop p env tries used s)) = tries @ new \<and> new \<noteq> [] \<and> nt_started (hd new) = re_now env s \<and>
    (\<forall>i. Suc i < length new \<longrightarrow>
       nt_ended (new ! i) + backoff_for p (used + Suc i) \<le> cb_started_at budget + cb_budget budget \<and>
       (\<forall>slack. waits_within env slack \<longrightarrow>
          nt_started (new ! Suc i) \<le> cb_started_at budget + cb_budget budget + slack))"
proof (induction tries used s rule: run_loop_induct [where p = p and env = env])
  case (Stop tries used s)
  then show ?case
    by (intro exI [of _ "[try_record env tries s]"]) (simp add: run_loop_turn [of p env tries] try_record_def)
next
  case (Retry tries used s b)
  let ?t = "try_record env tries s" and ?s = "re_wait env b (after_try env s)"
  let ?deadline = "cb_started_at budget + cb_budget budget"
  obtain new where new: "ro_tries (fst (run_loop p env (tries @ [?t]) (used + 1) ?s)) = (tries @ [?t]) @ new"
      "new \<noteq> []" "nt_started (hd new) = re_now env ?s"
    and later: "\<And>i. Suc i < length new \<Longrightarrow> nt_ended (new ! i) + backoff_for p (used + 1 + Suc i) \<le> ?deadline \<and>
       (\<forall>slack. waits_within env slack \<longrightarrow> nt_started (new ! Suc i) \<le> ?deadline + slack)"
    using Retry.IH by blast
  obtain r where r: "b = backoff_for p (used + 1)" "re_budget_remaining env (after_try env s) = Some r" "b \<le> r"
    using decide_RetryAfter [OF Retry.hyps] by blast
  then have fits: "re_now env (after_try env s) + b \<le> ?deadline"
    using budget_remaining_Some [of budget "re_now env (after_try env s)" r] by (simp add: remaining)
  have woken: "nt_started (new ! 0) \<le> ?deadline + slack" if "waits_within env slack" for slack
  proof -
    have "re_now env ?s \<le> re_now env (after_try env s) + b + slack" using that by (simp add: waits_within_def)
    then show ?thesis using fits new(2,3) by (simp add: hd_conv_nth)
  qed
  have "nt_ended ((?t # new) ! i) + backoff_for p (used + Suc i) \<le> ?deadline \<and>
      (\<forall>slack. waits_within env slack \<longrightarrow> nt_started ((?t # new) ! Suc i) \<le> ?deadline + slack)"
    if "Suc i < length (?t # new)" for i
    using that fits woken later [of "i - 1"] r(1) by (cases i) (simp_all add: try_record_def)
  moreover have "run_loop p env tries used s = run_loop p env (tries @ [?t]) (used + 1) ?s"
    unfolding run_loop_turn [of p env tries] using Retry.hyps by simp
  ultimately show ?case using new(1) by (intro exI [of _ "?t # new"]) (simp add: try_record_def)
qed

lemma run_in_budget:
  assumes "Suc i < length (ro_tries (fst (run_with_retry p env s)))"
  shows "nt_ended (ro_tries (fst (run_with_retry p env s)) ! i) + backoff_for p (Suc i) \<le> cb_started_at budget + cb_budget budget"
    "waits_within env slack \<Longrightarrow>
       nt_started (ro_tries (fst (run_with_retry p env s)) ! Suc i) \<le> cb_started_at budget + cb_budget budget + slack"
  using run_loop_in_budget [of p "[]" 0 s] assms unfolding run_with_retry_def by auto

end

text \<open>
  C29. In any environment whose budget is a command budget read on its own clock, a try is repeated only when the backoff
  before the next one still fits what the budget has left at the end of the failed try; so every retry starts no later
  than the end of the budget plus the time by which a wait may run past its delay, whatever the network answers and
  however long its calls take.
\<close>

theorem retries_start_within_budget:
  assumes "\<And>s. re_budget_remaining env s = budget_remaining b (re_now env s)"
    and "Suc i < length (ro_tries (fst (run_with_retry p env s)))"
  shows "nt_ended (ro_tries (fst (run_with_retry p env s)) ! i) + backoff_for p (Suc i) \<le> cb_started_at b + cb_budget b \<and>
    (waits_within env slack \<longrightarrow>
       nt_started (ro_tries (fst (run_with_retry p env s)) ! Suc i) \<le> cb_started_at b + cb_budget b + slack)"
  using budgeted_env.run_in_budget [of env b, OF budgeted_env.intro] assms by blast

text \<open>
  The environment of the tests: a script of observations, a fixed time charged to the clock per try, and a budget over
  that clock; here each wait also runs a fixed time past its delay.
\<close>

record 'a scripted_state =
  ts_clock :: fake_clock
  ts_script :: "'a provider_observation list"

definition scripted_env ::
    "command_budget \<Rightarrow> monotonic_duration \<Rightarrow> monotonic_duration \<Rightarrow> ('a scripted_state, 'a) retry_env" where
  "scripted_env budget per_try overrun =
     \<lparr>re_attempt = (\<lambda>s.
         (\<lparr>cr_observation = (case ts_script s of [] \<Rightarrow> SourceFailed ConnectTimeout | o1 # _ \<Rightarrow> o1), cr_failed_error = None\<rparr>,
          s\<lparr>ts_clock := fake_clock_advance per_try (ts_clock s), ts_script := tl (ts_script s)\<rparr>)),
      re_now = (\<lambda>s. fc_monotonic (ts_clock s)),
      re_budget_remaining = (\<lambda>s. budget_remaining budget (fc_monotonic (ts_clock s))),
      re_wait = (\<lambda>d s. s\<lparr>ts_clock := fake_clock_advance (d + overrun) (ts_clock s)\<rparr>)\<rparr>"

interpretation scripted: budgeted_env "scripted_env budget per_try overrun" budget for budget per_try overrun
  by unfold_locales (simp add: scripted_env_def)

lemma scripted_waits: "waits_within (scripted_env budget per_try overrun) overrun"
  unfolding waits_within_def
proof (intro allI)
  fix d s
  show "re_now (scripted_env budget per_try overrun) (re_wait (scripted_env budget per_try overrun) d s) \<le>
      re_now (scripted_env budget per_try overrun) s + d + overrun"
    using mod_less_eq_dividend [of "fc_monotonic (ts_clock s) + (d + overrun)"]
    by (simp add: scripted_env_def fake_clock_advance_def wrap_u64_def add.assoc)
qed

definition scripted_start :: "'a provider_observation list \<Rightarrow> 'a scripted_state" where
  "scripted_start script = \<lparr>ts_clock = fake_clock_new 0, ts_script = script\<rparr>"

definition sample_budget :: command_budget where
  "sample_budget = \<lparr>cb_budget = 600000000, cb_started_at = 0\<rparr>"

lemmas retry_eval =
  run_with_retry_def run_loop_turn after_try_def try_observation_def try_record_def scripted_env_def
  scripted_start_def sample_budget_def fake_clock_new_def fake_clock_advance_def decide_def
  decide_unreachable_def backoff_for_def conservative_default_def from_millis_def sat_mul_u64_def
  checked_shl_one_def budget_remaining_def duration_since_def sat_sub_u64_def wrap_u64_def Let_def

theorem retries_start_within_budget_witness:
  "let ts = ro_tries (fst (run_with_retry conservative_default (scripted_env sample_budget 10000000 7)
     (scripted_start [SourceFailed ConnectTimeout, SourceFailed ReadTimeout, MeasuredReading (42::nat)])))
   in map nt_started ts = [0, 260000007] \<and> nt_ended (ts ! 0) + backoff_for conservative_default 1 \<le> 600000000 \<and>
      nt_started (ts ! 1) \<le> 600000000 + 7"
proof -
  let ?ts = "ro_tries (fst (run_with_retry conservative_default (scripted_env sample_budget 10000000 7)
     (scripted_start [SourceFailed ConnectTimeout, SourceFailed ReadTimeout, MeasuredReading (42::nat)])))"
  have starts: "map nt_started ?ts = [0, 260000007]" by (simp add: retry_eval)
  then have "length ?ts = 2" by (metis length_map One_nat_def Suc_1 list.size(3,4) add.right_neutral add_Suc_right)
  then have two: "Suc 0 < length ?ts" by simp
  have "nt_ended (?ts ! 0) + backoff_for conservative_default (Suc 0) \<le> cb_started_at sample_budget + cb_budget sample_budget \<and>
      (waits_within (scripted_env sample_budget 10000000 7 :: (nat scripted_state, nat) retry_env) 7 \<longrightarrow>
         nt_started (?ts ! Suc 0) \<le> cb_started_at sample_budget + cb_budget sample_budget + 7)"
    by (rule retries_start_within_budget [OF _ two]) (rule scripted.remaining)
  moreover have "cb_started_at sample_budget + cb_budget sample_budget = 600000000" by (simp add: sample_budget_def)
  ultimately show ?thesis
    using starts by (simp add: Let_def scripted_waits)
qed

theorem retry_sequence_is_bounded_and_complete_witness:
  "let r = fst (run_with_retry conservative_default (scripted_env sample_budget 10000000 0)
       (scripted_start [SourceFailed ConnectTimeout, MeasuredReading (42::nat)]))
   in length (ro_tries r) = 2 \<and> map nt_ordinal (ro_tries r) = [1..<3] \<and>
      nt_outcome (last (ro_tries r)) = attempt_outcome_of (ro_terminal r)"
proof -
  let ?r = "fst (run_with_retry conservative_default (scripted_env sample_budget 10000000 0)
       (scripted_start [SourceFailed ConnectTimeout, MeasuredReading (42::nat)]))"
  have l: "length (ro_tries ?r) = 2" by (simp add: retry_eval)
  have "map nt_ordinal (ro_tries ?r) = [1..<Suc (length (ro_tries ?r))]"
      "nt_outcome (last (ro_tries ?r)) = attempt_outcome_of (ro_terminal ?r)"
    using retry_sequence_is_bounded_and_complete [of conservative_default "scripted_env sample_budget 10000000 0"
      "scripted_start [SourceFailed ConnectTimeout, MeasuredReading (42::nat)]"]
    unfolding Let_def by blast+
  then show ?thesis unfolding Let_def l by simp
qed

end
