(* ===== verification/Events.thy ===== *)
theory Events
  imports Token_Vectors Time_Model
begin

text \<open>
  \<open>src/transcripts/parser.rs\<close>, the vocabulary every parser emits, with the session identifier of
  \<open>src/domain/ids.rs\<close>: the normalized usage event, its classification and its identity. The
  trait of the parsers and the quarantine records' hashes are outside.
\<close>

datatype parser_version = ParserVersion (parser_str: string)
datatype estimator_version = EstimatorVersion (estimator_version_str: string)

instantiation parser_version :: linorder
begin
definition "a \<le> b \<longleftrightarrow> parser_str a \<le> parser_str b"
definition "(a::parser_version) < b \<longleftrightarrow> parser_str a < parser_str b"
instance
  by standard (auto simp: less_eq_parser_version_def less_parser_version_def parser_version.expand)
end

record session_id =
  si_source :: string
  si_native :: string

datatype evidence_classification =
    Reported
  | Reconstructed estimator_id estimator_version
  | Derived

fun is_reconstructed :: "evidence_classification \<Rightarrow> bool" where
  "is_reconstructed (Reconstructed _ _) = True"
| "is_reconstructed _ = False"

section \<open>Quarantine\<close>

datatype quarantine_class =
    MissingField
  | WrongFieldType
  | TruncatedStructure
  | UnsupportedInputFormat

definition quarantine_name :: "quarantine_class \<Rightarrow> string" where
  "quarantine_name c =
     (case c of MissingField \<Rightarrow> ''missing_required_field'' | WrongFieldType \<Rightarrow> ''wrong_field_type''
              | TruncatedStructure \<Rightarrow> ''truncated_structure''
              | UnsupportedInputFormat \<Rightarrow> ''unsupported_input_format'')"

datatype diagnostic_policy = HashOnly | BoundedRedactedExcerpt nat

definition is_control :: "char \<Rightarrow> bool" where
  "is_control c \<longleftrightarrow> (let n = of_char c in n < (32::nat) \<or> n = 127)"

definition sanitize_and_bound_excerpt :: "diagnostic_policy \<Rightarrow> string \<Rightarrow> string option" where
  "sanitize_and_bound_excerpt p raw =
     (case p of
        HashOnly \<Rightarrow> None
      | BoundedRedactedExcerpt max_bytes \<Rightarrow>
          Some (map (\<lambda>c. if is_control c \<and> c \<noteq> CHR 0x0A \<and> c \<noteq> CHR 0x09 then CHR '' '' else c)
            (take max_bytes raw)))"

section \<open>Events\<close>

definition strong_identity_prefix :: string where
  "strong_identity_prefix = ''event-id:''"

record usage_event =
  ue_usage :: usage_vector
  ue_classification :: evidence_classification
  ue_provenance :: provenance
  ue_parser_version :: parser_version
  ue_occurred_at :: "utc_timestamp option"
  ue_session :: "session_id option"
  ue_working_directory :: "string option"
  ue_parent_session :: "session_id option"
  ue_sequence :: "u64 option"

definition event_new ::
    "usage_vector \<Rightarrow> evidence_classification \<Rightarrow> provenance \<Rightarrow> parser_version \<Rightarrow> usage_event" where
  "event_new usage classification prov parser =
     \<lparr>ue_usage = usage, ue_classification = classification, ue_provenance = prov,
      ue_parser_version = parser, ue_occurred_at = None, ue_session = None,
      ue_working_directory = None, ue_parent_session = None, ue_sequence = None\<rparr>"

definition with_occurred_at :: "utc_timestamp \<Rightarrow> usage_event \<Rightarrow> usage_event" where
  "with_occurred_at t e = e\<lparr>ue_occurred_at := Some t\<rparr>"

definition with_session :: "session_id \<Rightarrow> usage_event \<Rightarrow> usage_event" where
  "with_session s e = e\<lparr>ue_session := Some s\<rparr>"

definition with_parent_session :: "session_id option \<Rightarrow> usage_event \<Rightarrow> usage_event" where
  "with_parent_session p e = e\<lparr>ue_parent_session := p\<rparr>"

definition with_working_directory :: "string option \<Rightarrow> usage_event \<Rightarrow> usage_event" where
  "with_working_directory d e =
     e\<lparr>ue_working_directory := (case d of Some dir \<Rightarrow> if dir = [] then None else Some dir | None \<Rightarrow> None)\<rparr>"

definition with_sequence :: "u64 \<Rightarrow> usage_event \<Rightarrow> usage_event" where
  "with_sequence n e = e\<lparr>ue_sequence := Some n\<rparr>"

text \<open>The provenance sources are iterated in the order of the \<open>BTreeSet\<close>.\<close>

definition source_list :: "usage_event \<Rightarrow> string list" where
  "source_list e = sorted_list_of_set (sources (ue_provenance e))"

fun find_map :: "('a \<Rightarrow> 'b option) \<Rightarrow> 'a list \<Rightarrow> 'b option" where
  "find_map f [] = None"
| "find_map f (x # xs) = (case f x of None \<Rightarrow> find_map f xs | Some y \<Rightarrow> Some y)"

definition strong_identity :: "usage_event \<Rightarrow> string option" where
  "strong_identity e = find_map (strip_prefix strong_identity_prefix) (source_list e)"

definition source_file :: "usage_event \<Rightarrow> string" where
  "source_file e =
     (case find (\<lambda>source. \<not> starts_with strong_identity_prefix source) (source_list e) of
        Some source \<Rightarrow> source
      | None \<Rightarrow> [])"

record parse_output =
  po_events :: "usage_event list"
  po_quarantined :: "quarantine_class list"

definition event_known :: "usage_event \<Rightarrow> known_tokens" where
  "event_known e = uv_known (ue_usage e)"

definition event_count :: "usage_event \<Rightarrow> token_kind \<Rightarrow> u64" where
  "event_count e k = known_value (event_known e) k"

lemma find_map_Some:
  "find_map f xs = Some y \<Longrightarrow> \<exists>x\<in>set xs. f x = Some y"
  by (induction xs) (auto split: option.splits)

lemma find_map_None: "find_map f xs = None \<longleftrightarrow> (\<forall>x\<in>set xs. f x = None)"
  by (induction xs) (auto split: option.splits)

text \<open>The identity is a claim of the source: it stands in the provenance under the prefix.\<close>

lemma strong_identity_source:
  "finite (sources (ue_provenance e)) \<Longrightarrow> strong_identity e = Some i \<Longrightarrow>
   strong_identity_prefix @ i \<in> sources (ue_provenance e)"
  unfolding strong_identity_def
  by (drule find_map_Some) (auto simp: source_list_def strip_prefix_Some)

lemma strong_identity_None:
  "finite (sources (ue_provenance e)) \<Longrightarrow>
   strong_identity e = None \<longleftrightarrow> (\<forall>s\<in>sources (ue_provenance e). \<not> starts_with strong_identity_prefix s)"
  by (auto simp: strong_identity_def find_map_None source_list_def starts_with_def)

end
