(* ===== verification/Dedup.thy ===== *)
theory Dedup
  imports Events
begin

text \<open>
  \<open>src/dedup.rs\<close>: the one replay-deduplication. An event has a strong identity, a claim of its
  source, or a heuristic one, an inference scoped to its parser; each domain has its index into the
  vector of canonical events. The digest function (SHA-256 in hexadecimal) is the parameter
  \<open>sha\<close> of everything that hashes.
\<close>

section \<open>The fingerprint\<close>

datatype heuristic_key = HeuristicKey (key_str: string)

instantiation heuristic_key :: linorder
begin
definition "a \<le> b \<longleftrightarrow> key_str a \<le> key_str b"
definition "(a::heuristic_key) < b \<longleftrightarrow> key_str a < key_str b"
instance
  by standard (auto simp: less_eq_heuristic_key_def less_heuristic_key_def heuristic_key.expand)
end

definition discriminator :: "usage_event \<Rightarrow> string" where
  "discriminator e =
     (case ue_occurred_at e of Some t \<Rightarrow> ''t:'' @ show_int t | None \<Rightarrow> ''t:none'')"

definition heuristic_key_compute :: "usage_event \<Rightarrow> heuristic_key" where
  "heuristic_key_compute e =
     HeuristicKey
       (discriminator e @ ''|'' @
        (case ue_session e of Some s \<Rightarrow> si_native s | None \<Rightarrow> ''session:none'') @ ''|'' @
        show_nat (event_count e Input_Kind) @ '':'' @ show_nat (event_count e CacheRead_Kind) @ '':'' @
        show_nat (event_count e CacheWrite_Kind) @
        concat (map (\<lambda>(component, count). ''|'' @ component @ ''='' @ show_nat (tc_value count))
          (uv_unknown (ue_usage e))))"

section \<open>The payload digest\<close>

definition digest_field :: "string \<Rightarrow> string \<Rightarrow> string" where
  "digest_field tag v = tag @ ''='' @ show_nat (length v) @ '':'' @ v @ '';''"

definition digest_quality_form ::
    "string \<Rightarrow> estimator_id set \<Rightarrow> token_count interval option \<Rightarrow> string" where
  "digest_quality_form variant methods uncertainty =
     (let names = sorted_list_of_set (estimator_str ` methods);
          bounds = (case uncertainty of
              Some i \<Rightarrow> '':'' @ tc_to_exact_string (lower i) @ ''-'' @ tc_to_exact_string (upper i)
            | None \<Rightarrow> '':none'')
      in variant @ '':'' @ join '','' names @ bounds)"

definition digest_coverage :: "coverage_completeness \<Rightarrow> string" where
  "digest_coverage c =
     (case c of
        Complete \<Rightarrow> digest_field ''coverage'' ''complete''
      | Partial missing \<Rightarrow>
          digest_field ''coverage'' (''partial:'' @ join '','' (sorted_list_of_set (component_str ` missing))))"

definition digest_quality :: "token_count quality \<Rightarrow> string" where
  "digest_quality q =
     (case q of
        Measured \<Rightarrow> digest_field ''quality'' ''measured''
      | Estimated methods u \<Rightarrow> digest_field ''quality'' (digest_quality_form ''estimated'' methods u)
      | Mixed methods u \<Rightarrow> digest_field ''quality'' (digest_quality_form ''mixed'' methods u))"

definition digest_classification :: "evidence_classification \<Rightarrow> string" where
  "digest_classification c =
     (case c of
        Reported \<Rightarrow> digest_field ''classification'' ''reported''
      | Derived \<Rightarrow> digest_field ''classification'' ''derived''
      | Reconstructed estimator ver \<Rightarrow>
          digest_field ''classification''
            (''reconstructed:'' @ estimator_str estimator @ '':'' @ estimator_version_str ver))"

definition digest_unknown :: "(string, token_count) omap \<Rightarrow> string" where
  "digest_unknown unknown =
     concat (map (\<lambda>(name, count). digest_field ''unknown'' (name @ ''='' @ show_nat (tc_value count))) unknown)"

definition canonical_payload :: "usage_event \<Rightarrow> string" where
  "canonical_payload e =
     digest_field ''input'' (show_nat (event_count e Input_Kind)) @
     digest_field ''cache_read'' (show_nat (event_count e CacheRead_Kind)) @
     digest_field ''cache_write'' (show_nat (event_count e CacheWrite_Kind)) @
     digest_unknown (uv_unknown (ue_usage e)) @
     digest_coverage (uv_coverage (ue_usage e)) @
     digest_quality (uv_quality (ue_usage e)) @
     digest_classification (ue_classification e)"

definition canonical_payload_digest :: "(string \<Rightarrow> string) \<Rightarrow> usage_event \<Rightarrow> string" where
  "canonical_payload_digest sha e = sha (canonical_payload e)"

section \<open>Canonical identity\<close>

record canonical_id =
  ci_canonical_event_id :: string
  ci_native_event_id :: "string option"
  ci_heuristic_key :: "string option"

definition canonical_identity :: "usage_event \<Rightarrow> canonical_id" where
  "canonical_identity e =
     (case strong_identity e of
        Some native \<Rightarrow>
          \<lparr>ci_canonical_event_id = strong_identity_prefix @ native, ci_native_event_id = Some native,
           ci_heuristic_key = None\<rparr>
      | None \<Rightarrow>
          let key = heuristic_key_compute e
          in \<lparr>ci_canonical_event_id =
                ''heuristic:'' @ parser_str (ue_parser_version e) @ '':'' @ key_str key,
              ci_native_event_id = None, ci_heuristic_key = Some (key_str key)\<rparr>)"

section \<open>The loop\<close>

definition same_message :: "usage_event \<Rightarrow> usage_event \<Rightarrow> bool" where
  "same_message kept other \<longleftrightarrow>
     kt_input (event_known kept) = kt_input (event_known other) \<and>
     kt_cache_read (event_known kept) = kt_cache_read (event_known other) \<and>
     kt_cache_write (event_known kept) = kt_cache_write (event_known other) \<and>
     uv_unknown (ue_usage kept) = uv_unknown (ue_usage other)"

definition output_of :: "usage_event \<Rightarrow> u64" where
  "output_of e = output_value (kt_output (event_known e))"

record heuristic_collision =
  hc_parser_version :: parser_version
  hc_heuristic_key :: heuristic_key
  hc_first :: usage_event
  hc_second :: usage_event
  hc_first_digest :: string
  hc_second_digest :: string

record dedup_state =
  ds_canonical :: "usage_event list"
  ds_by_strong :: "(string, nat) omap"
  ds_by_heuristic :: "(parser_version \<times> heuristic_key, nat) omap"
  ds_replayed :: u64
  ds_collisions :: u64
  ds_heuristic_collisions :: "heuristic_collision list"
  ds_without_identity :: u64

definition dedup_start :: dedup_state where
  "dedup_start =
     \<lparr>ds_canonical = [], ds_by_strong = [], ds_by_heuristic = [], ds_replayed = 0, ds_collisions = 0,
      ds_heuristic_collisions = [], ds_without_identity = 0\<rparr>"

definition heuristic_id :: "usage_event \<Rightarrow> parser_version \<times> heuristic_key" where
  "heuristic_id e = (ue_parser_version e, heuristic_key_compute e)"

definition reindex_after_removal :: "('k, nat) omap \<Rightarrow> nat \<Rightarrow> ('k, nat) omap" where
  "reindex_after_removal index removed_at = om_map_values (slot_after_removal removed_at) index"

text \<open>
  Indexing the vector panics out of range: \<open>None\<close>. The counters are \<open>u64\<close>; a batch never holds
  so many events, and they are natural numbers here.
\<close>

definition dedup_strong :: "string \<Rightarrow> usage_event \<Rightarrow> dedup_state \<Rightarrow> dedup_state option" where
  "dedup_strong identity e st =
     (case om_get (ds_by_strong st) identity of
        None \<Rightarrow>
          Some (st\<lparr>ds_by_strong := om_insert identity (length (ds_canonical st)) (ds_by_strong st),
                   ds_canonical := ds_canonical st @ [e]\<rparr>)
      | Some kept_at \<Rightarrow>
          if kept_at < length (ds_canonical st)
          then
            (let kept = ds_canonical st ! kept_at;
                 counted = (if same_message kept e then st\<lparr>ds_replayed := ds_replayed st + 1\<rparr>
                            else st\<lparr>ds_collisions := ds_collisions st + 1\<rparr>)
             in Some (if output_of e > output_of kept
                      then counted\<lparr>ds_canonical := (ds_canonical st)[kept_at := e]\<rparr>
                      else counted))
          else None)"

definition dedup_heuristic ::
    "(string \<Rightarrow> string) \<Rightarrow> usage_event \<Rightarrow> dedup_state \<Rightarrow> dedup_state option" where
  "dedup_heuristic sha e st =
     (let key = heuristic_id e
      in case om_get (ds_by_heuristic st) key of
           None \<Rightarrow>
             Some (st\<lparr>ds_by_heuristic := om_insert key (length (ds_canonical st)) (ds_by_heuristic st),
                      ds_canonical := ds_canonical st @ [e]\<rparr>)
         | Some kept_at \<Rightarrow>
             if kept_at < length (ds_canonical st)
             then
               (let kept = ds_canonical st ! kept_at;
                    kept_digest = canonical_payload_digest sha kept;
                    challenger_digest = canonical_payload_digest sha e
                in if kept_digest = challenger_digest
                   then
                     (let counted = st\<lparr>ds_replayed := ds_replayed st + 1\<rparr>
                      in Some (if output_of e > output_of kept
                               then counted\<lparr>ds_canonical := (ds_canonical st)[kept_at := e]\<rparr>
                               else counted))
                   else
                     Some (st\<lparr>ds_canonical := remove_at kept_at (ds_canonical st),
                              ds_by_strong := reindex_after_removal (ds_by_strong st) kept_at,
                              ds_by_heuristic :=
                                om_remove key (reindex_after_removal (ds_by_heuristic st) kept_at),
                              ds_heuristic_collisions := ds_heuristic_collisions st @
                                [\<lparr>hc_parser_version = ue_parser_version e, hc_heuristic_key = snd key,
                                  hc_first = kept, hc_second = e, hc_first_digest = kept_digest,
                                  hc_second_digest = challenger_digest\<rparr>]\<rparr>))
             else None)"

definition dedup_step :: "(string \<Rightarrow> string) \<Rightarrow> usage_event \<Rightarrow> dedup_state \<Rightarrow> dedup_state option" where
  "dedup_step sha e st =
     (case strong_identity e of
        Some identity \<Rightarrow> dedup_strong identity e st
      | None \<Rightarrow> dedup_heuristic sha e (st\<lparr>ds_without_identity := ds_without_identity st + 1\<rparr>))"

fun dedup_loop :: "(string \<Rightarrow> string) \<Rightarrow> usage_event list \<Rightarrow> dedup_state \<Rightarrow> dedup_state option" where
  "dedup_loop sha [] st = Some st"
| "dedup_loop sha (e # es) st =
     (case dedup_step sha e st of None \<Rightarrow> None | Some st' \<Rightarrow> dedup_loop sha es st')"

definition deduplicate :: "(string \<Rightarrow> string) \<Rightarrow> usage_event list \<Rightarrow> dedup_state option" where
  "deduplicate sha events = dedup_loop sha events dedup_start"

definition missing_components :: "heuristic_collision \<Rightarrow> component_kind list" where
  "missing_components c =
     (let names = (\<lambda>e.
            map fst (filter (\<lambda>(kind, count). count > 0)
              [(''input'', event_count e Input_Kind), (''output'', event_count e Output_Kind),
               (''cache_read'', event_count e CacheRead_Kind), (''cache_write'', event_count e CacheWrite_Kind)]) @
            map fst (filter (\<lambda>(name, count). tc_value count > 0) (uv_unknown (ue_usage e))));
          kinds = om_of (map (\<lambda>k. (k, ())) (names (hc_first c) @ names (hc_second c)))
      in map ComponentKind (map fst kinds))"

end
