(* ===== verification/Dedup_Laws.thy ===== *)
theory Dedup_Laws
  imports Dedup
begin

text \<open>
  What the deduplication guarantees: it never panics, it holds one event per identity, it accounts
  for every occurrence, it keeps the largest output, it never merges what its digests tell apart,
  and running it again changes nothing.
\<close>

definition heuristic_of :: "usage_event \<Rightarrow> (parser_version \<times> heuristic_key) option" where
  "heuristic_of e = (if strong_identity e = None then Some (heuristic_id e) else None)"

definition collided :: "dedup_state \<Rightarrow> usage_event list" where
  "collided st = concat (map (\<lambda>h. [hc_first h, hc_second h]) (ds_heuristic_collisions st))"

definition dedup_indexed :: "dedup_state \<Rightarrow> bool" where
  "dedup_indexed st \<longleftrightarrow>
     indexes (om_get (ds_by_strong st)) strong_identity (ds_canonical st) \<and>
     indexes (om_get (ds_by_heuristic st)) heuristic_of (ds_canonical st)"

definition dedup_accounts :: "usage_event list \<Rightarrow> dedup_state \<Rightarrow> bool" where
  "dedup_accounts seen st \<longleftrightarrow>
     length seen = length (ds_canonical st) + ds_replayed st + ds_collisions st + length (collided st) \<and>
     ds_without_identity st = length (filter (\<lambda>e. strong_identity e = None) seen) \<and>
     mset (ds_canonical st) + mset (collided st) \<subseteq># mset seen"

definition dedup_keeps_largest :: "usage_event list \<Rightarrow> dedup_state \<Rightarrow> bool" where
  "dedup_keeps_largest seen st \<longleftrightarrow>
     (\<forall>e\<in>set seen. \<forall>i. strong_identity e = Some i \<longrightarrow>
        (\<exists>c\<in>set (ds_canonical st). strong_identity c = Some i \<and> output_of e \<le> output_of c))"

definition dedup_separates :: "dedup_state \<Rightarrow> bool" where
  "dedup_separates st \<longleftrightarrow>
     (\<forall>h\<in>set (ds_heuristic_collisions st).
        hc_first_digest h \<noteq> hc_second_digest h \<and> heuristic_of (hc_first h) = heuristic_of (hc_second h) \<and>
        heuristic_of (hc_second h) = Some (hc_parser_version h, hc_heuristic_key h))"

definition dedup_inv :: "usage_event list \<Rightarrow> dedup_state \<Rightarrow> bool" where
  "dedup_inv seen st \<longleftrightarrow>
     dedup_indexed st \<and> dedup_accounts seen st \<and> dedup_keeps_largest seen st \<and> dedup_separates st"

lemma mset_remove_at: "i < length xs \<Longrightarrow> add_mset (xs ! i) (mset (remove_at i xs)) = mset xs"
  by (metis id_take_nth_drop mset.simps(2) mset_append remove_at_def union_mset_add_mset_right)

lemma set_remove_at_strong:
  assumes "i < length xs" "c \<in> set xs" "c \<noteq> xs ! i"
  shows "c \<in> set (remove_at i xs)"
proof -
  have "c \<in># add_mset (xs ! i) (mset (remove_at i xs))" using assms(1,2) by (simp add: mset_remove_at)
  then show ?thesis using assms(3) by simp
qed

lemma set_update_largest:
  assumes "c \<in> set xs" "i < length xs" "f (xs ! i) < f x" "g (xs ! i) = g x"
  shows "\<exists>d\<in>set (xs[i := x]). g d = g c \<and> f c \<le> (f d :: nat)"
proof (cases "c = xs ! i")
  case True
  then show ?thesis using assms by (intro bexI [of _ x]) (auto simp: set_update_memI)
next
  case False
  then obtain j where "j < length xs" "c = xs ! j" "j \<noteq> i" using assms(1) by (auto simp: in_set_conv_nth)
  then have "c \<in> set (xs[i := x])" by (auto simp: in_set_conv_nth intro!: exI [of _ j])
  then show ?thesis by auto
qed

text \<open>The three ways a step changes the vector: push, replace by a larger output, remove.\<close>

lemma keeps_largest_push:
  "dedup_keeps_largest seen st \<Longrightarrow> ds_canonical st' = ds_canonical st @ [e] \<Longrightarrow>
   dedup_keeps_largest (seen @ [e]) st'"
  by (auto simp: dedup_keeps_largest_def)

lemma keeps_largest_seen:
  "dedup_keeps_largest seen st \<Longrightarrow> ds_canonical st' = ds_canonical st \<Longrightarrow>
   (\<And>i. strong_identity e = Some i \<Longrightarrow>
      \<exists>c\<in>set (ds_canonical st). strong_identity c = Some i \<and> output_of e \<le> output_of c) \<Longrightarrow>
   dedup_keeps_largest (seen @ [e]) st'"
  by (auto simp: dedup_keeps_largest_def)

lemma keeps_largest_replace:
  assumes "dedup_keeps_largest seen st" "ds_canonical st' = (ds_canonical st)[i := e]"
    and "i < length (ds_canonical st)" "output_of (ds_canonical st ! i) < output_of e"
    and "strong_identity (ds_canonical st ! i) = strong_identity e"
  shows "dedup_keeps_largest (seen @ [e]) st'"
  unfolding dedup_keeps_largest_def
proof (intro ballI allI impI)
  fix x k
  assume x: "x \<in> set (seen @ [e])" "strong_identity x = Some k"
  show "\<exists>c\<in>set (ds_canonical st'). strong_identity c = Some k \<and> output_of x \<le> output_of c"
  proof (cases "x = e")
    case True
    then show ?thesis using assms(2,3) x(2) by (intro bexI [of _ e]) (auto simp: set_update_memI)
  next
    case False
    then obtain c where "c \<in> set (ds_canonical st)" "strong_identity c = Some k" "output_of x \<le> output_of c"
      using x assms(1) by (auto simp: dedup_keeps_largest_def)
    then show ?thesis
      using set_update_largest [OF _ assms(3,4,5)] assms(2) by (metis order_trans)
  qed
qed

lemma keeps_largest_remove:
  assumes "dedup_keeps_largest seen st" "ds_canonical st' = remove_at i (ds_canonical st)"
    and "i < length (ds_canonical st)" "strong_identity (ds_canonical st ! i) = None" "strong_identity e = None"
  shows "dedup_keeps_largest (seen @ [e]) st'"
  using assms set_remove_at_strong [OF assms(3)]
  unfolding dedup_keeps_largest_def by (metis Un_iff empty_iff empty_set option.distinct(1) set_ConsD set_append)

lemma accounts_push:
  assumes "dedup_accounts seen st" "ds_canonical st' = ds_canonical st @ [e]"
    and "ds_replayed st' = ds_replayed st" "ds_collisions st' = ds_collisions st"
    and "ds_heuristic_collisions st' = ds_heuristic_collisions st"
    and "ds_without_identity st' = ds_without_identity st + (if strong_identity e = None then 1 else 0)"
  shows "dedup_accounts (seen @ [e]) st'"
  using assms by (auto simp: dedup_accounts_def collided_def)

lemma accounts_keep:
  assumes "dedup_accounts seen st" "ds_canonical st' = ds_canonical st"
    and "ds_replayed st' + ds_collisions st' = Suc (ds_replayed st + ds_collisions st)"
    and "ds_heuristic_collisions st' = ds_heuristic_collisions st"
    and "ds_without_identity st' = ds_without_identity st + (if strong_identity e = None then 1 else 0)"
  shows "dedup_accounts (seen @ [e]) st'"
proof -
  have "mset (ds_canonical st) + mset (collided st) \<subseteq># mset seen + {#e#}"
    using assms(1) unfolding dedup_accounts_def by (meson mset_subset_eq_add_left subset_mset.order_trans)
  then show ?thesis using assms by (auto simp: dedup_accounts_def collided_def)
qed

lemma accounts_replace:
  assumes "dedup_accounts seen st" "ds_canonical st' = (ds_canonical st)[i := e]" "i < length (ds_canonical st)"
    and "ds_replayed st' + ds_collisions st' = Suc (ds_replayed st + ds_collisions st)"
    and "ds_heuristic_collisions st' = ds_heuristic_collisions st"
    and "ds_without_identity st' = ds_without_identity st + (if strong_identity e = None then 1 else 0)"
  shows "dedup_accounts (seen @ [e]) st'"
proof -
  have "mset ((ds_canonical st)[i := e]) = mset (ds_canonical st) - {#ds_canonical st ! i#} + {#e#}"
    using assms(3) by (simp add: mset_update)
  also have "\<dots> \<subseteq># mset (ds_canonical st) + {#e#}" by simp
  finally have "mset ((ds_canonical st)[i := e]) + mset (collided st) \<subseteq># (mset (ds_canonical st) + {#e#}) + mset (collided st)"
    by (rule subset_mset.add_right_mono)
  also have "\<dots> \<subseteq># mset seen + {#e#}"
    using assms(1) by (simp add: dedup_accounts_def)
  finally show ?thesis using assms by (auto simp: dedup_accounts_def collided_def)
qed

lemma accounts_remove:
  assumes "dedup_accounts seen st" "ds_canonical st' = remove_at i (ds_canonical st)" "i < length (ds_canonical st)"
    and "ds_replayed st' = ds_replayed st" "ds_collisions st' = ds_collisions st"
    and "collided st' = collided st @ [ds_canonical st ! i, e]"
    and "ds_without_identity st' = ds_without_identity st + (if strong_identity e = None then 1 else 0)"
  shows "dedup_accounts (seen @ [e]) st'"
proof -
  have "mset (ds_canonical st) = add_mset (ds_canonical st ! i) (mset (ds_canonical st'))"
    using mset_remove_at [OF assms(3)] assms(2) by simp
  moreover have "0 < length (ds_canonical st)" using assms(3) by linarith
  ultimately show ?thesis using assms by (auto simp: dedup_accounts_def)
qed

lemmas dedup_sel = dedup_indexed_def dedup_separates_def

lemma dedup_strong_inv:
  assumes "dedup_inv seen st" "strong_identity e = Some identity"
  shows "\<exists>st'. dedup_strong identity e st = Some st' \<and> dedup_inv (seen @ [e]) st'"
proof (cases "om_get (ds_by_strong st) identity")
  case None
  have h: "heuristic_of e = None" using assms(2) by (simp add: heuristic_of_def)
  let ?st' = "st\<lparr>ds_by_strong := om_insert identity (length (ds_canonical st)) (ds_by_strong st),
                   ds_canonical := ds_canonical st @ [e]\<rparr>"
  have "dedup_indexed ?st'"
    using assms None h positions.indexes_push [of "ds_by_strong st" strong_identity "ds_canonical st" e identity]
      positions.indexes_push_other [of "ds_by_heuristic st" heuristic_of "ds_canonical st" e]
    by (simp add: dedup_inv_def dedup_indexed_def)
  moreover have "dedup_accounts (seen @ [e]) ?st'"
    by (rule accounts_push [of seen st]) (use assms in \<open>simp_all add: dedup_inv_def\<close>)
  moreover have "dedup_keeps_largest (seen @ [e]) ?st'"
    by (rule keeps_largest_push [of seen st]) (use assms in \<open>simp_all add: dedup_inv_def\<close>)
  moreover have "dedup_separates ?st'" using assms(1) by (simp add: dedup_inv_def dedup_separates_def)
  ultimately show ?thesis using None by (simp add: dedup_strong_def dedup_inv_def)
next
  case (Some i)
  then have i: "i < length (ds_canonical st)" "strong_identity (ds_canonical st ! i) = Some identity"
    using assms(1) indexesD by (fastforce simp: dedup_inv_def dedup_indexed_def)+
  let ?kept = "ds_canonical st ! i"
  let ?counted = "if same_message ?kept e then st\<lparr>ds_replayed := ds_replayed st + 1\<rparr>
    else st\<lparr>ds_collisions := ds_collisions st + 1\<rparr>"
  show ?thesis
  proof (cases "output_of e > output_of ?kept")
    case True
    let ?st' = "?counted\<lparr>ds_canonical := (ds_canonical st)[i := e]\<rparr>"
    have "heuristic_of e = heuristic_of ?kept" using i(2) assms(2) by (simp add: heuristic_of_def)
    then have "dedup_indexed ?st'"
      using assms i positions.indexes_replace [of "ds_by_strong st" strong_identity "ds_canonical st" e i]
        positions.indexes_replace [of "ds_by_heuristic st" heuristic_of "ds_canonical st" e i]
      by (simp add: dedup_inv_def dedup_indexed_def)
    moreover have "dedup_accounts (seen @ [e]) ?st'"
      by (rule accounts_replace [of seen st _ i]) (use assms i in \<open>simp_all add: dedup_inv_def\<close>)
    moreover have "dedup_keeps_largest (seen @ [e]) ?st'"
      by (rule keeps_largest_replace [of seen st _ i]) (use assms i True in \<open>simp_all add: dedup_inv_def\<close>)
    moreover have "dedup_separates ?st'" using assms(1) by (simp add: dedup_inv_def dedup_separates_def)
    ultimately show ?thesis using Some i True by (simp add: dedup_strong_def dedup_inv_def Let_def)
  next
    case False
    have "dedup_indexed ?counted" using assms(1) by (simp add: dedup_inv_def dedup_indexed_def)
    moreover have "dedup_accounts (seen @ [e]) ?counted"
      by (rule accounts_keep [of seen st]) (use assms in \<open>simp_all add: dedup_inv_def\<close>)
    moreover have "dedup_keeps_largest (seen @ [e]) ?counted"
      by (rule keeps_largest_seen [of seen st])
        (use assms i False in \<open>auto simp: dedup_inv_def intro!: bexI [of _ ?kept]\<close>)
    moreover have "dedup_separates ?counted" using assms(1) by (simp add: dedup_inv_def dedup_separates_def)
    ultimately show ?thesis using Some i False by (simp add: dedup_strong_def dedup_inv_def Let_def)
  qed
qed

lemma dedup_heuristic_inv:
  assumes "dedup_inv seen st" "strong_identity e = None"
  shows "\<exists>st'. dedup_heuristic sha e (st\<lparr>ds_without_identity := ds_without_identity st + 1\<rparr>) = Some st' \<and>
    dedup_inv (seen @ [e]) st'"
proof (cases "om_get (ds_by_heuristic st) (heuristic_id e)")
  case None
  have h: "heuristic_of e = Some (heuristic_id e)" using assms(2) by (simp add: heuristic_of_def)
  let ?st' = "st\<lparr>ds_without_identity := ds_without_identity st + 1,
    ds_by_heuristic := om_insert (heuristic_id e) (length (ds_canonical st)) (ds_by_heuristic st),
    ds_canonical := ds_canonical st @ [e]\<rparr>"
  have "dedup_indexed ?st'"
    using assms None h positions.indexes_push_other [of "ds_by_strong st" strong_identity "ds_canonical st" e]
      positions.indexes_push [of "ds_by_heuristic st" heuristic_of "ds_canonical st" e "heuristic_id e"]
    by (simp add: dedup_inv_def dedup_indexed_def)
  moreover have "dedup_accounts (seen @ [e]) ?st'"
    by (rule accounts_push [of seen st]) (use assms in \<open>simp_all add: dedup_inv_def\<close>)
  moreover have "dedup_keeps_largest (seen @ [e]) ?st'"
    by (rule keeps_largest_push [of seen st]) (use assms in \<open>simp_all add: dedup_inv_def\<close>)
  moreover have "dedup_separates ?st'" using assms(1) by (simp add: dedup_inv_def dedup_separates_def)
  ultimately show ?thesis using None by (simp add: dedup_heuristic_def dedup_inv_def Let_def)
next
  case (Some i)
  then have i: "i < length (ds_canonical st)" "heuristic_of (ds_canonical st ! i) = Some (heuristic_id e)"
    using assms(1) indexesD by (fastforce simp: dedup_inv_def dedup_indexed_def)+
  let ?kept = "ds_canonical st ! i"
  have kept: "strong_identity ?kept = None" "heuristic_of ?kept = heuristic_of e"
    using i(2) assms(2) by (auto simp: heuristic_of_def split: if_splits)
  let ?counted = "st\<lparr>ds_without_identity := ds_without_identity st + 1, ds_replayed := ds_replayed st + 1\<rparr>"
  consider "canonical_payload_digest sha ?kept = canonical_payload_digest sha e" "output_of e > output_of ?kept"
    | "canonical_payload_digest sha ?kept = canonical_payload_digest sha e" "\<not> output_of e > output_of ?kept"
    | "canonical_payload_digest sha ?kept \<noteq> canonical_payload_digest sha e"
    by blast
  then show ?thesis
  proof cases
    case 1
    let ?st' = "?counted\<lparr>ds_canonical := (ds_canonical st)[i := e]\<rparr>"
    have "dedup_indexed ?st'"
      using assms i kept positions.indexes_replace [of "ds_by_strong st" strong_identity "ds_canonical st" e i]
        positions.indexes_replace [of "ds_by_heuristic st" heuristic_of "ds_canonical st" e i]
      by (simp add: dedup_inv_def dedup_indexed_def)
    moreover have "dedup_accounts (seen @ [e]) ?st'"
      by (rule accounts_replace [of seen st _ i]) (use assms i in \<open>simp_all add: dedup_inv_def\<close>)
    moreover have "dedup_keeps_largest (seen @ [e]) ?st'"
      by (rule keeps_largest_replace [of seen st _ i]) (use assms i kept 1 in \<open>simp_all add: dedup_inv_def\<close>)
    moreover have "dedup_separates ?st'" using assms(1) by (simp add: dedup_inv_def dedup_separates_def)
    ultimately show ?thesis using Some i 1 by (simp add: dedup_heuristic_def dedup_inv_def Let_def)
  next
    case 2
    have "dedup_indexed ?counted" using assms(1) by (simp add: dedup_inv_def dedup_indexed_def)
    moreover have "dedup_accounts (seen @ [e]) ?counted"
      by (rule accounts_keep [of seen st]) (use assms in \<open>simp_all add: dedup_inv_def\<close>)
    moreover have "dedup_keeps_largest (seen @ [e]) ?counted"
      by (rule keeps_largest_seen [of seen st]) (use assms in \<open>simp_all add: dedup_inv_def\<close>)
    moreover have "dedup_separates ?counted" using assms(1) by (simp add: dedup_inv_def dedup_separates_def)
    ultimately show ?thesis using Some i 2 by (simp add: dedup_heuristic_def dedup_inv_def Let_def)
  next
    case 3
    let ?h = "\<lparr>hc_parser_version = ue_parser_version e, hc_heuristic_key = heuristic_key_compute e,
      hc_first = ?kept, hc_second = e, hc_first_digest = canonical_payload_digest sha ?kept,
      hc_second_digest = canonical_payload_digest sha e\<rparr>"
    let ?st' = "st\<lparr>ds_without_identity := ds_without_identity st + 1, ds_canonical := remove_at i (ds_canonical st),
      ds_by_strong := reindex_after_removal (ds_by_strong st) i,
      ds_by_heuristic := om_remove (heuristic_id e) (reindex_after_removal (ds_by_heuristic st) i),
      ds_heuristic_collisions := ds_heuristic_collisions st @ [?h]\<rparr>"
    have "dedup_indexed ?st'"
      using assms i kept positions.indexes_remove_other [of "ds_by_strong st" strong_identity "ds_canonical st" i]
        positions.indexes_remove [of "ds_by_heuristic st" heuristic_of "ds_canonical st" i "heuristic_id e"]
      by (simp add: dedup_inv_def dedup_indexed_def reindex_after_removal_def)
    moreover have "dedup_accounts (seen @ [e]) ?st'"
      by (rule accounts_remove [of seen st _ i]) (use assms i in \<open>simp_all add: dedup_inv_def collided_def\<close>)
    moreover have "dedup_keeps_largest (seen @ [e]) ?st'"
      by (rule keeps_largest_remove [of seen st _ i]) (use assms i kept in \<open>simp_all add: dedup_inv_def\<close>)
    moreover have "dedup_separates ?st'"
      using assms 3 kept by (auto simp: dedup_inv_def dedup_separates_def heuristic_of_def heuristic_id_def)
    moreover have "dedup_heuristic sha e (st\<lparr>ds_without_identity := ds_without_identity st + 1\<rparr>) = Some ?st'"
      using Some i 3 by (simp add: dedup_heuristic_def Let_def) (simp add: heuristic_id_def)
    ultimately show ?thesis by (auto simp: dedup_inv_def)
  qed
qed

lemma dedup_loop_inv:
  "dedup_inv seen st \<Longrightarrow> \<exists>st'. dedup_loop sha es st = Some st' \<and> dedup_inv (seen @ es) st'"
proof (induction es arbitrary: seen st)
  case (Cons e es)
  have "\<exists>st1. dedup_step sha e st = Some st1 \<and> dedup_inv (seen @ [e]) st1"
  proof (cases "strong_identity e")
    case None
    then show ?thesis using dedup_heuristic_inv [OF Cons.prems None, of sha] by (simp add: dedup_step_def)
  next
    case (Some i)
    then show ?thesis using dedup_strong_inv [OF Cons.prems Some] by (simp add: dedup_step_def)
  qed
  then obtain st1 where st1: "dedup_step sha e st = Some st1" "dedup_inv (seen @ [e]) st1" by blast
  then show ?case using Cons.IH [OF st1(2)] by simp
qed simp

lemma dedup_start_inv: "dedup_inv [] dedup_start"
  by (simp add: dedup_inv_def dedup_indexed_def dedup_accounts_def dedup_keeps_largest_def
      dedup_separates_def dedup_start_def collided_def positions.indexes_empty)

lemma deduplicate_inv: "\<exists>st. deduplicate sha es = Some st \<and> dedup_inv es st"
  using dedup_loop_inv [OF dedup_start_inv] by (simp add: deduplicate_def)

section \<open>Properties\<close>

text \<open>
  Deduplication is total, and it holds one event per identity: it never indexes out of range,
  no two canonical events share a strong identity, and no two events without one share the
  heuristic identity of a parser; the two maps it keeps name exactly the positions of those events.
\<close>

theorem dedup_one_event_per_identity:
  "\<exists>st. deduplicate sha events = Some st \<and>
     (\<forall>i j. i < length (ds_canonical st) \<and> j < length (ds_canonical st) \<and> i \<noteq> j \<longrightarrow>
        strong_identity (ds_canonical st ! i) \<noteq> strong_identity (ds_canonical st ! j) \<or>
        (strong_identity (ds_canonical st ! i) = None \<and>
         heuristic_id (ds_canonical st ! i) \<noteq> heuristic_id (ds_canonical st ! j))) \<and>
     (\<forall>identity i. om_get (ds_by_strong st) identity = Some i \<longleftrightarrow>
        i < length (ds_canonical st) \<and> strong_identity (ds_canonical st ! i) = Some identity)"
proof -
  obtain st where st: "deduplicate sha events = Some st" and inv: "dedup_inv events st"
    using deduplicate_inv by blast
  let ?c = "ds_canonical st"
  have s: "indexes (om_get (ds_by_strong st)) strong_identity ?c"
    and h: "indexes (om_get (ds_by_heuristic st)) heuristic_of ?c"
    using inv by (simp_all add: dedup_inv_def dedup_indexed_def)
  have "strong_identity (?c ! i) \<noteq> strong_identity (?c ! j) \<or>
      (strong_identity (?c ! i) = None \<and> heuristic_id (?c ! i) \<noteq> heuristic_id (?c ! j))"
    if "i < length ?c" "j < length ?c" "i \<noteq> j" for i j
  proof (cases "strong_identity (?c ! i)")
    case (Some k)
    then show ?thesis using indexes_unique [OF s that(1,2)] that(3) by metis
  next
    case None
    then show ?thesis
      using indexes_unique [OF h that(1,2), of "heuristic_id (?c ! i)"] that(3)
      by (auto simp: heuristic_of_def)
  qed
  then show ?thesis using st indexes_iff [OF s] by blast
qed

lemma length_pairs: "length (concat (map (\<lambda>h. [f h, g h]) hs)) = 2 * length hs"
  by (induction hs) auto

lemma mset_pairs: "mset (concat (map (\<lambda>h. [f h, g h]) hs)) = mset (map f hs) + mset (map g hs)"
  by (induction hs) auto

text \<open>
  C1. Every occurrence is accounted for: the batch is the canonical events plus the replays plus the
  collisions plus the two occurrences of every quarantined pair, nothing is invented, and the
  count of inferred identities is the number of occurrences without one of their own.
\<close>

theorem dedup_accounts_for_every_occurrence:
  assumes "deduplicate sha events = Some st"
  shows "length events =
      length (ds_canonical st) + ds_replayed st + ds_collisions st + 2 * length (ds_heuristic_collisions st) \<and>
    mset (ds_canonical st) + mset (map hc_first (ds_heuristic_collisions st)) +
      mset (map hc_second (ds_heuristic_collisions st)) \<subseteq># mset events \<and>
    ds_without_identity st = length (filter (\<lambda>e. strong_identity e = None) events)"
proof -
  have "dedup_accounts events st"
    using deduplicate_inv [of sha events] assms by (auto simp: dedup_inv_def)
  then show ?thesis
    by (simp add: dedup_accounts_def collided_def length_pairs mset_pairs add.assoc)
qed

definition sample_event :: "string \<Rightarrow> nat \<Rightarrow> nat \<Rightarrow> usage_event" where
  "sample_event source input output =
     (event_new
        (usage_new (known_new (InputTokens input) (OutputTokens output) (CacheReadTokens 0) (CacheWriteTokens 0))
           [] Complete Measured)
        Reported (Provenance {source}) (ParserVersion ''test-1''))
     \<lparr>ue_occurred_at := Some 5\<rparr>"

text \<open>Three lines of one message, its output growing, and one event without an identifier.\<close>

definition sample_batch :: "usage_event list" where
  "sample_batch =
     [sample_event ''event-id:m1'' 10 3, sample_event ''event-id:m1'' 10 8, sample_event ''file'' 7 1,
      sample_event ''event-id:m1'' 10 5]"

lemmas dedup_eval =
  sample_batch_def sample_event_def deduplicate_def dedup_start_def dedup_step_def dedup_strong_def
  dedup_heuristic_def strong_identity_def source_list_def strong_identity_prefix_def event_new_def
  usage_new_def same_message_def output_of_def event_known_def event_count_def known_new_def
  om_get_def Let_def

lemma sample_batch_run:
  "\<exists>st. deduplicate sha sample_batch = Some st \<and>
     ds_canonical st = [sample_event ''event-id:m1'' 10 8, sample_event ''file'' 7 1] \<and>
     ds_replayed st = 2 \<and> ds_collisions st = 0 \<and> ds_heuristic_collisions st = []"
  by (simp add: dedup_eval)

theorem dedup_one_event_per_identity_witness:
  "\<exists>st. deduplicate id sample_batch = Some st \<and> om_get (ds_by_strong st) ''m1'' = Some 0 \<and>
     strong_identity (ds_canonical st ! 0) \<noteq> strong_identity (ds_canonical st ! 1)"
proof -
  obtain st where st: "deduplicate id sample_batch = Some st"
      "ds_canonical st = [sample_event ''event-id:m1'' 10 8, sample_event ''file'' 7 1]"
    using sample_batch_run by blast
  have m1: "strong_identity (ds_canonical st ! 0) = Some ''m1''" by (simp add: st(2)) (simp add: dedup_eval)
  obtain st' where st': "deduplicate id sample_batch = Some st'"
    and sep: "\<forall>i j. i < length (ds_canonical st') \<and> j < length (ds_canonical st') \<and> i \<noteq> j \<longrightarrow>
        strong_identity (ds_canonical st' ! i) \<noteq> strong_identity (ds_canonical st' ! j) \<or>
        (strong_identity (ds_canonical st' ! i) = None \<and>
         heuristic_id (ds_canonical st' ! i) \<noteq> heuristic_id (ds_canonical st' ! j))"
    and idx: "\<forall>identity i. om_get (ds_by_strong st') identity = Some i \<longleftrightarrow>
        i < length (ds_canonical st') \<and> strong_identity (ds_canonical st' ! i) = Some identity"
    using dedup_one_event_per_identity [of id sample_batch] by blast
  have same: "st' = st" using st(1) st' by simp
  have len: "length (ds_canonical st) = 2" by (simp add: st(2))
  have "om_get (ds_by_strong st) ''m1'' = Some 0"
    using idx m1 len unfolding same by simp
  moreover have "strong_identity (ds_canonical st ! 0) \<noteq> strong_identity (ds_canonical st ! 1)"
    using sep [unfolded same, rule_format, of 0 1] m1 len by auto
  ultimately show ?thesis using st(1) by blast
qed

theorem dedup_accounts_for_every_occurrence_witness:
  "\<exists>st. deduplicate id sample_batch = Some st \<and> ds_without_identity st = 1 \<and> length sample_batch = 2 + 2 + 0 + 0"
proof -
  obtain st where st: "deduplicate id sample_batch = Some st" using sample_batch_run by blast
  have "length (filter (\<lambda>e. strong_identity e = None) sample_batch) = 1"
    by (simp add: dedup_eval)
  then show ?thesis
    using dedup_accounts_for_every_occurrence [OF st] st by (simp add: sample_batch_def)
qed

text \<open>
  C2. The largest snapshot wins: for every occurrence with a source-provided identifier the batch
  keeps exactly one event of that identifier, taken from the batch, with an output at least as
  large; so no line of a replayed message is undercounted and none is counted twice.
\<close>

theorem dedup_keeps_the_largest_snapshot:
  assumes "deduplicate sha events = Some st" "e \<in> set events" "strong_identity e = Some identity"
  shows "\<exists>!i. i < length (ds_canonical st) \<and> strong_identity (ds_canonical st ! i) = Some identity \<and>
    output_of e \<le> output_of (ds_canonical st ! i) \<and> ds_canonical st ! i \<in> set events"
proof -
  have inv: "dedup_inv events st" using deduplicate_inv [of sha events] assms(1) by auto
  then obtain c where c: "c \<in> set (ds_canonical st)" "strong_identity c = Some identity" "output_of e \<le> output_of c"
    using assms(2,3) by (auto simp: dedup_inv_def dedup_keeps_largest_def)
  then obtain i where i: "i < length (ds_canonical st)" "ds_canonical st ! i = c" by (auto simp: in_set_conv_nth)
  have "set_mset (mset (ds_canonical st)) \<subseteq> set_mset (mset events)"
    using inv unfolding dedup_inv_def dedup_accounts_def
    by (meson mset_subset_eq_add_left set_mset_mono subset_mset.order_trans)
  then have "c \<in> set events" using c(1) by auto
  then show ?thesis
    using i c inv indexes_unique [of "om_get (ds_by_strong st)" strong_identity "ds_canonical st"]
    unfolding dedup_inv_def dedup_indexed_def by blast
qed

theorem dedup_keeps_the_largest_snapshot_witness:
  "\<exists>st. deduplicate id sample_batch = Some st \<and>
     (\<exists>!i. i < length (ds_canonical st) \<and> strong_identity (ds_canonical st ! i) = Some ''m1'' \<and>
        output_of (sample_event ''event-id:m1'' 10 3) \<le> output_of (ds_canonical st ! i) \<and>
        ds_canonical st ! i \<in> set sample_batch)"
proof -
  obtain st where st: "deduplicate id sample_batch = Some st" using sample_batch_run by blast
  have e: "sample_event ''event-id:m1'' 10 3 \<in> set sample_batch"
      "strong_identity (sample_event ''event-id:m1'' 10 3) = Some ''m1''"
    by (simp add: sample_batch_def) (simp add: dedup_eval)
  show ?thesis using st dedup_keeps_the_largest_snapshot [OF st e] by blast
qed

text \<open>
  A contradicted inference is never resolved silently: the two occurrences of every recorded
  collision carried no identifier of their own, shared the parser and the heuristic key the record
  names, and have payload digests that differ, so neither was merged into the other.
\<close>

theorem dedup_quarantines_contradictions:
  assumes "deduplicate sha events = Some st" "h \<in> set (ds_heuristic_collisions st)"
  shows "strong_identity (hc_first h) = None \<and> strong_identity (hc_second h) = None \<and>
    heuristic_id (hc_first h) = (hc_parser_version h, hc_heuristic_key h) \<and>
    heuristic_id (hc_second h) = (hc_parser_version h, hc_heuristic_key h) \<and>
    hc_first_digest h \<noteq> hc_second_digest h"
proof -
  have "dedup_separates st" using deduplicate_inv [of sha events] assms(1) by (auto simp: dedup_inv_def)
  then show ?thesis using assms(2) by (auto simp: dedup_separates_def heuristic_of_def split: if_splits)
qed

text \<open>The same record seen once with complete coverage and once with a component missing.\<close>

definition contradicting_batch :: "usage_event list" where
  "contradicting_batch =
     [sample_event ''file'' 7 1,
      (sample_event ''file'' 7 1)
        \<lparr>ue_usage := (ue_usage (sample_event ''file'' 7 1))\<lparr>uv_coverage := Partial {}\<rparr>\<rparr>]"

lemmas payload_eval =
  canonical_payload_digest_def canonical_payload_def digest_field_def digest_coverage_def
  digest_quality_def digest_classification_def digest_unknown_def join_def

lemma contradicting_batch_run:
  "\<exists>st h. deduplicate id contradicting_batch = Some st \<and> ds_canonical st = [] \<and>
     ds_heuristic_collisions st = [h]"
proof -
  let ?a = "sample_event ''file'' 7 1"
  let ?b = "?a\<lparr>ue_usage := (ue_usage ?a)\<lparr>uv_coverage := Partial {}\<rparr>\<rparr>"
  have ids: "strong_identity ?a = None" "strong_identity ?b = None" by (simp_all add: dedup_eval)
  have key: "heuristic_id ?b = heuristic_id ?a"
    by (simp add: heuristic_id_def heuristic_key_compute_def discriminator_def event_count_def event_known_def)
  have digest: "canonical_payload_digest id ?a \<noteq> canonical_payload_digest id ?b"
    by (simp add: payload_eval dedup_eval string_eval)
  show ?thesis
    using ids key digest
    by (simp add: contradicting_batch_def deduplicate_def dedup_step_def dedup_heuristic_def dedup_start_def
        om_get_def Let_def remove_at_def)
qed

theorem dedup_quarantines_contradictions_witness:
  "\<exists>st h. deduplicate id contradicting_batch = Some st \<and> h \<in> set (ds_heuristic_collisions st) \<and>
     heuristic_id (hc_first h) = heuristic_id (hc_second h) \<and> hc_first_digest h \<noteq> hc_second_digest h"
proof -
  obtain st h where st: "deduplicate id contradicting_batch = Some st" "ds_heuristic_collisions st = [h]"
    using contradicting_batch_run by blast
  then show ?thesis using dedup_quarantines_contradictions [OF st(1), of h] by force
qed

section \<open>Running it again\<close>

lemma dedup_loop_fresh:
  assumes "dedup_inv seen st" "ds_replayed st = 0" "ds_collisions st = 0" "ds_heuristic_collisions st = []"
    and "\<And>i j. i < length (ds_canonical st @ es) \<Longrightarrow> j < length (ds_canonical st @ es) \<Longrightarrow>
      (strong_identity ((ds_canonical st @ es) ! i), heuristic_of ((ds_canonical st @ es) ! i)) =
      (strong_identity ((ds_canonical st @ es) ! j), heuristic_of ((ds_canonical st @ es) ! j)) \<Longrightarrow> i = j"
  shows "\<exists>st'. dedup_loop sha es st = Some st' \<and> ds_canonical st' = ds_canonical st @ es \<and>
    ds_replayed st' = 0 \<and> ds_collisions st' = 0 \<and> ds_heuristic_collisions st' = []"
  using assms
proof (induction es arbitrary: seen st)
  case (Cons e es)
  let ?c = "ds_canonical st"
  have differ: "(strong_identity (?c ! i), heuristic_of (?c ! i)) \<noteq> (strong_identity e, heuristic_of e)"
    if "i < length ?c" for i
    using Cons.prems(5) [of i "length ?c"] that by (auto simp: nth_append)
  have s: "indexes (om_get (ds_by_strong st)) strong_identity ?c"
    and h: "indexes (om_get (ds_by_heuristic st)) heuristic_of ?c"
    using Cons.prems(1) by (simp_all add: dedup_inv_def dedup_indexed_def)
  have "\<exists>st1. dedup_step sha e st = Some st1 \<and> dedup_inv (seen @ [e]) st1 \<and> ds_canonical st1 = ?c @ [e] \<and>
      ds_replayed st1 = 0 \<and> ds_collisions st1 = 0 \<and> ds_heuristic_collisions st1 = []"
  proof (cases "strong_identity e")
    case None
    have "om_get (ds_by_heuristic st) (heuristic_id e) = None"
    proof (rule ccontr)
      assume "om_get (ds_by_heuristic st) (heuristic_id e) \<noteq> None"
      then obtain k where k: "k < length ?c" "heuristic_of (?c ! k) = Some (heuristic_id e)"
        using indexesD [OF h, of "heuristic_id e"] by blast
      then have "strong_identity (?c ! k) = None" by (simp add: heuristic_of_def split: if_splits)
      then show False using differ [OF k(1)] k(2) None by (simp add: heuristic_of_def)
    qed
    then show ?thesis
      using dedup_heuristic_inv [OF Cons.prems(1) None, of sha] None Cons.prems(2-4)
      by (auto simp: dedup_step_def dedup_heuristic_def Let_def)
  next
    case (Some i)
    have "om_get (ds_by_strong st) i = None"
    proof (rule ccontr)
      assume "om_get (ds_by_strong st) i \<noteq> None"
      then obtain k where k: "k < length ?c" "strong_identity (?c ! k) = Some i"
        using indexesD [OF s, of i] by blast
      then show False using differ [OF k(1)] Some by (simp add: heuristic_of_def)
    qed
    then show ?thesis
      using dedup_strong_inv [OF Cons.prems(1) Some] Some Cons.prems(2-4)
      by (auto simp: dedup_step_def dedup_strong_def)
  qed
  then obtain st1 where st1: "dedup_step sha e st = Some st1" "dedup_inv (seen @ [e]) st1"
      "ds_canonical st1 = ?c @ [e]" "ds_replayed st1 = 0" "ds_collisions st1 = 0" "ds_heuristic_collisions st1 = []"
    by blast
  then show ?case using Cons.IH [OF st1(2,4,5,6)] Cons.prems(5) by simp
qed simp

text \<open>
  Deduplication is idempotent: run on its own result it keeps every event, in the same order,
  and reports no replay, no collision and no contradiction.
\<close>

theorem dedup_idempotent:
  assumes "deduplicate sha events = Some st"
  shows "\<exists>st'. deduplicate sha' (ds_canonical st) = Some st' \<and> ds_canonical st' = ds_canonical st \<and>
    ds_replayed st' = 0 \<and> ds_collisions st' = 0 \<and> ds_heuristic_collisions st' = []"
proof -
  have "dedup_indexed st" using deduplicate_inv [of sha events] assms by (auto simp: dedup_inv_def)
  then have s: "indexes (om_get (ds_by_strong st)) strong_identity (ds_canonical st)"
    and h: "indexes (om_get (ds_by_heuristic st)) heuristic_of (ds_canonical st)"
    by (simp_all add: dedup_indexed_def)
  have "i = j"
    if "i < length (ds_canonical st)" "j < length (ds_canonical st)"
      "(strong_identity (ds_canonical st ! i), heuristic_of (ds_canonical st ! i)) =
       (strong_identity (ds_canonical st ! j), heuristic_of (ds_canonical st ! j))" for i j
  proof (cases "strong_identity (ds_canonical st ! i)")
    case None
    then have "heuristic_of (ds_canonical st ! i) = Some (heuristic_id (ds_canonical st ! i))"
      by (simp add: heuristic_of_def)
    moreover from this have "heuristic_of (ds_canonical st ! j) = Some (heuristic_id (ds_canonical st ! i))"
      using that(3) by simp
    ultimately show ?thesis by (rule indexes_unique [OF h that(1,2)])
  next
    case (Some k)
    moreover from this have "strong_identity (ds_canonical st ! j) = Some k" using that(3) by simp
    ultimately show ?thesis by (rule indexes_unique [OF s that(1,2)])
  qed
  then have "\<exists>st'. dedup_loop sha' (ds_canonical st) dedup_start = Some st' \<and>
      ds_canonical st' = ds_canonical dedup_start @ ds_canonical st \<and>
      ds_replayed st' = 0 \<and> ds_collisions st' = 0 \<and> ds_heuristic_collisions st' = []"
    by (intro dedup_loop_fresh [OF dedup_start_inv]) (simp_all add: dedup_start_def)
  then show ?thesis by (simp add: deduplicate_def dedup_start_def)
qed

theorem dedup_idempotent_witness:
  "\<exists>st st'. deduplicate id sample_batch = Some st \<and> deduplicate id (ds_canonical st) = Some st' \<and>
     ds_canonical st' = [sample_event ''event-id:m1'' 10 8, sample_event ''file'' 7 1]"
proof -
  obtain st where st: "deduplicate id sample_batch = Some st"
      "ds_canonical st = [sample_event ''event-id:m1'' 10 8, sample_event ''file'' 7 1]"
    using sample_batch_run by blast
  show ?thesis using dedup_idempotent [OF st(1), of id] st by metis
qed

end
