(* ===== verification/Payload.thy ===== *)
theory Payload
  imports Dedup_Laws
begin

text \<open>
  What the canonical payload of \<open>src/dedup.rs\<close> tells apart. Its fields are length-prefixed, so the
  text decodes field by field; inside a field the lists of names are joined without prefixes.
\<close>

lemma show_nat_inj: "show_nat m = show_nat n \<Longrightarrow> m = n"
  by (metis digits_value_show_nat option.inject)

lemma append_at_first:
  fixes c :: char
  assumes "c \<notin> set a" "c \<notin> set b" "a @ c # x = b @ c # y"
  shows "a = b \<and> x = y"
proof -
  have "split_once c (a @ c # x) = Some (a, x)" "split_once c (b @ c # y) = Some (b, y)"
    by (rule split_once_append [OF assms(1)], rule split_once_append [OF assms(2)])
  then show ?thesis unfolding assms(3) by simp
qed

lemma append_at_last:
  fixes c :: char
  assumes "c \<notin> set x" "c \<notin> set y" "a @ c # x = b @ c # y"
  shows "a = b \<and> x = y"
proof -
  have "rev x @ c # rev a = rev y @ c # rev b" using arg_cong [OF assms(3), of rev] by simp
  then show ?thesis using append_at_first [of c "rev x" "rev y" "rev a" "rev b"] assms(1,2) by simp
qed

lemma not_in_show_nat [simp]: "CHR '':'' \<notin> set (show_nat n)" "CHR ''='' \<notin> set (show_nat n)"
  using show_nat_digits [of _ n] by (auto simp: is_ascii_digit_def digit_value_def)

text \<open>A field decodes whatever follows it.\<close>

lemma digest_field_decodes:
  assumes "digest_field tag v @ r = digest_field tag w @ s"
  shows "v = w \<and> r = s"
proof -
  have "show_nat (length v) @ CHR '':'' # (v @ '';'' @ r) = show_nat (length w) @ CHR '':'' # (w @ '';'' @ s)"
    using assms by (simp add: digest_field_def)
  from append_at_first [OF not_in_show_nat(1) not_in_show_nat(1) this]
  have "show_nat (length v) = show_nat (length w)" and rest: "v @ '';'' @ r = w @ '';'' @ s"
    by blast+
  then have "length v = length w" using show_nat_inj by blast
  then show ?thesis using rest by simp
qed

lemma unknown_entry_decodes:
  assumes "n @ ''='' @ show_nat (tc_value c) = m @ ''='' @ show_nat (tc_value d)"
  shows "(n, c) = (m, d)"
  using append_at_last [of "CHR ''=''" "show_nat (tc_value c)" "show_nat (tc_value d)" n m] assms
    show_nat_inj by (auto intro: token_count.expand)

lemma digest_coverage_head: "\<exists>t. digest_coverage c = CHR ''c'' # t"
  by (cases c) (simp_all add: digest_coverage_def digest_field_def)

lemma digest_unknown_decodes:
  assumes "digest_unknown xs @ digest_coverage c @ r = digest_unknown ys @ digest_coverage d @ s"
  shows "xs = ys \<and> digest_coverage c @ r = digest_coverage d @ s"
  using assms
proof (induction xs arbitrary: ys)
  case Nil
  obtain t where "digest_coverage c = CHR ''c'' # t" using digest_coverage_head by blast
  then have "ys = []" using Nil by (cases ys) (auto simp: digest_unknown_def digest_field_def)
  then show ?case using Nil by (simp add: digest_unknown_def)
next
  case (Cons x xs)
  obtain t where t: "digest_coverage d = CHR ''c'' # t" using digest_coverage_head by blast
  obtain y ys' where ys: "ys = y # ys'"
    using Cons.prems t by (cases ys; cases x) (auto simp: digest_unknown_def digest_field_def)
  have "digest_field ''unknown'' (fst x @ ''='' @ show_nat (tc_value (snd x))) @ (digest_unknown xs @ digest_coverage c @ r) =
      digest_field ''unknown'' (fst y @ ''='' @ show_nat (tc_value (snd y))) @ (digest_unknown ys' @ digest_coverage d @ s)"
    using Cons.prems ys by (simp add: digest_unknown_def case_prod_beta')
  then have "fst x @ ''='' @ show_nat (tc_value (snd x)) = fst y @ ''='' @ show_nat (tc_value (snd y))"
    and rest: "digest_unknown xs @ digest_coverage c @ r = digest_unknown ys' @ digest_coverage d @ s"
    using digest_field_decodes by blast+
  then have "x = y" using unknown_entry_decodes [of "fst x" "snd x" "fst y" "snd y"] by simp
  then show ?case using Cons.IH [OF rest] ys by simp
qed

lemma digest_coverage_complete:
  assumes "digest_coverage c @ r = digest_coverage d @ s"
  shows "c = Complete \<longleftrightarrow> d = Complete"
proof -
  have form: "\<exists>v. digest_coverage x = digest_field ''coverage'' v \<and> (x = Complete \<longleftrightarrow> hd v = CHR ''c'')" for x
    by (cases x) (auto simp: digest_coverage_def)
  obtain v w where "digest_coverage c = digest_field ''coverage'' v" "c = Complete \<longleftrightarrow> hd v = CHR ''c''"
      "digest_coverage d = digest_field ''coverage'' w" "d = Complete \<longleftrightarrow> hd w = CHR ''c''"
    using form by metis
  then show ?thesis using assms digest_field_decodes by metis
qed

text \<open>
  Replay growth is all the digest forgives: two occurrences with the same canonical payload
  are the same message, with equal input and cache counts and equal unknown components, whatever
  characters the component names hold, and agree on whether their coverage is complete. So no
  count but the output is lost when the heuristic domain merges them.
\<close>

theorem payload_determines_message:
  assumes "canonical_payload a = canonical_payload b"
  shows "same_message a b \<and>
    (uv_coverage (ue_usage a) = Complete \<longleftrightarrow> uv_coverage (ue_usage b) = Complete)"
proof -
  let ?tail = "\<lambda>e. digest_quality (uv_quality (ue_usage e)) @ digest_classification (ue_classification e)"
  let ?rest = "\<lambda>e. digest_unknown (uv_unknown (ue_usage e)) @ digest_coverage (uv_coverage (ue_usage e)) @ ?tail e"
  from assms have i: "show_nat (event_count a Input_Kind) = show_nat (event_count b Input_Kind)"
    and 1: "digest_field ''cache_read'' (show_nat (event_count a CacheRead_Kind)) @
        digest_field ''cache_write'' (show_nat (event_count a CacheWrite_Kind)) @ ?rest a =
      digest_field ''cache_read'' (show_nat (event_count b CacheRead_Kind)) @
        digest_field ''cache_write'' (show_nat (event_count b CacheWrite_Kind)) @ ?rest b"
    unfolding canonical_payload_def using digest_field_decodes by blast+
  from 1 have r: "show_nat (event_count a CacheRead_Kind) = show_nat (event_count b CacheRead_Kind)"
    and 2: "digest_field ''cache_write'' (show_nat (event_count a CacheWrite_Kind)) @ ?rest a =
      digest_field ''cache_write'' (show_nat (event_count b CacheWrite_Kind)) @ ?rest b"
    using digest_field_decodes by blast+
  from 2 have w: "show_nat (event_count a CacheWrite_Kind) = show_nat (event_count b CacheWrite_Kind)"
    and 3: "?rest a = ?rest b"
    using digest_field_decodes by blast+
  from 3 have u: "uv_unknown (ue_usage a) = uv_unknown (ue_usage b)"
    and 4: "digest_coverage (uv_coverage (ue_usage a)) @ ?tail a = digest_coverage (uv_coverage (ue_usage b)) @ ?tail b"
    using digest_unknown_decodes by blast+
  have "event_count a Input_Kind = event_count b Input_Kind"
    "event_count a CacheRead_Kind = event_count b CacheRead_Kind"
    "event_count a CacheWrite_Kind = event_count b CacheWrite_Kind"
    using i r w show_nat_inj by blast+
  then show ?thesis
    using u digest_coverage_complete [OF 4]
    by (simp add: same_message_def event_count_def known_value_def input_tokens.expand
        cache_read_tokens.expand cache_write_tokens.expand)
qed

theorem payload_determines_message_witness:
  "same_message (sample_event ''file'' 7 1) (sample_event ''file'' 7 9) \<and>
   output_of (sample_event ''file'' 7 1) \<noteq> output_of (sample_event ''file'' 7 9)"
proof -
  have "canonical_payload (sample_event ''file'' 7 1) = canonical_payload (sample_event ''file'' 7 9)"
    by (simp add: canonical_payload_def sample_event_def event_count_def event_known_def event_new_def usage_new_def)
  from payload_determines_message [OF this] show ?thesis
    by (simp add: output_of_def sample_event_def event_known_def event_new_def usage_new_def known_new_def)
qed

text \<open>
  The length prefix protects a field, not the list of names joined inside it: a component
  named with a comma has the same payload as two components, so two records that miss different
  components share one digest and collapse as a replay.
\<close>

theorem payload_aliases_joined_names:
  "canonical_payload (e\<lparr>ue_usage := (ue_usage e)\<lparr>uv_coverage := Partial {ComponentKind ''a,b''}\<rparr>\<rparr>) =
   canonical_payload (e\<lparr>ue_usage := (ue_usage e)\<lparr>uv_coverage := Partial {ComponentKind ''a'', ComponentKind ''b''}\<rparr>\<rparr>)"
  by (simp add: canonical_payload_def digest_coverage_def join_def event_count_def event_known_def)

end
