(* ===== verification/Cumulative.thy ===== *)
theory Cumulative
  imports Dedup_Laws
begin

text \<open>
  \<open>src/dedup/cumulative.rs\<close>: a source that reports totals so far has its surviving events ordered
  into series and differenced into deltas; a total that decreases is a counter reset, rejected and
  named.
\<close>

section \<open>The order of a series\<close>

definition known_components :: "usage_event \<Rightarrow> u64 \<times> u64 \<times> u64 \<times> u64" where
  "known_components e =
     (event_count e Input_Kind, event_count e Output_Kind, event_count e CacheRead_Kind,
      event_count e CacheWrite_Kind)"

definition compare_series_records :: "usage_event \<Rightarrow> usage_event \<Rightarrow> rust_ordering" where
  "compare_series_records a b =
     then_with (then_with (then_with (cmp_ord (ue_sequence a) (ue_sequence b))
       (cmp_ord (ue_occurred_at a) (ue_occurred_at b)))
       (cmp_ord (known_components a) (known_components b)))
       (cmp_ord (source_file a) (source_file b))"

text \<open>The comparison is the comparison of one tuple, in lexicographic order.\<close>

definition series_order_key ::
    "usage_event \<Rightarrow> u64 option \<times> utc_timestamp option \<times> (u64 \<times> u64 \<times> u64 \<times> u64) \<times> string" where
  "series_order_key e = (ue_sequence e, ue_occurred_at e, known_components e, source_file e)"

lemma then_with_cmp_ord:
  "then_with (cmp_ord a b) (cmp_ord c d) = cmp_ord (a, c) (b, d)"
  for a b :: "'a::linorder" and c d :: "'b::linorder"
  by (auto simp: cmp_ord_def less_prod_def less_eq_prod_def)

lemma then_with_assoc: "then_with (then_with a b) c = then_with a (then_with b c)"
  by (cases a) simp_all

lemma compare_series_records_key:
  "compare_series_records a b = cmp_ord (series_order_key a) (series_order_key b)"
  unfolding compare_series_records_def series_order_key_def then_with_assoc
  by (simp only: then_with_cmp_ord)

interpretation series: comparator compare_series_records
  unfolding compare_series_records_key by (rule key_order.comparator_axioms)

type_synonym series_key = "string \<times> string"

definition series_key :: "usage_event \<Rightarrow> series_key" where
  "series_key e =
     (parser_str (ue_parser_version e),
      case ue_session e of
        Some s \<Rightarrow> ''session:'' @ si_source s @ '':'' @ si_native s
      | None \<Rightarrow> ''file:'' @ source_file e)"

section \<open>Differencing\<close>

definition difference :: "usage_event \<Rightarrow> usage_event \<Rightarrow> component_kind list + known_tokens" where
  "difference previous rec =
     (let decreased =
            (if event_count rec Input_Kind < event_count previous Input_Kind then [ComponentKind ''input''] else []) @
            (if event_count rec Output_Kind < event_count previous Output_Kind then [ComponentKind ''output''] else []) @
            (if event_count rec CacheRead_Kind < event_count previous CacheRead_Kind
             then [ComponentKind ''cache_read''] else []) @
            (if event_count rec CacheWrite_Kind < event_count previous CacheWrite_Kind
             then [ComponentKind ''cache_write''] else [])
      in if decreased \<noteq> [] then Inl decreased
         else Inr (known_new
           (InputTokens (event_count rec Input_Kind - event_count previous Input_Kind))
           (OutputTokens (event_count rec Output_Kind - event_count previous Output_Kind))
           (CacheReadTokens (event_count rec CacheRead_Kind - event_count previous CacheRead_Kind))
           (CacheWriteTokens (event_count rec CacheWrite_Kind - event_count previous CacheWrite_Kind))))"

definition with_delta_usage :: "usage_event \<Rightarrow> known_tokens \<Rightarrow> usage_event" where
  "with_delta_usage rec delta =
     (let usage = usage_new delta (uv_unknown (ue_usage rec)) (uv_coverage (ue_usage rec)) (uv_quality (ue_usage rec));
          e0 = event_new usage (ue_classification rec) (ue_provenance rec) (ue_parser_version rec);
          e1 = (case ue_occurred_at rec of Some t \<Rightarrow> with_occurred_at t e0 | None \<Rightarrow> e0);
          e2 = (case ue_session rec of Some s \<Rightarrow> with_session s e1 | None \<Rightarrow> e1)
      in case ue_sequence rec of Some n \<Rightarrow> with_sequence n e2 | None \<Rightarrow> e2)"

definition delta_from_zero :: "usage_event \<Rightarrow> usage_event" where
  "delta_from_zero rec =
     with_delta_usage rec
       (known_new (InputTokens (event_count rec Input_Kind)) (OutputTokens (event_count rec Output_Kind))
         (CacheReadTokens (event_count rec CacheRead_Kind)) (CacheWriteTokens (event_count rec CacheWrite_Kind)))"

record reset_exclusion =
  rx_rejected :: usage_event
  rx_previous :: usage_event
  rx_interval_since :: "utc_timestamp option"
  rx_interval_until :: "utc_timestamp option"
  rx_missing :: "component_kind list"

record cumulative_outcome =
  co_deltas :: "usage_event list"
  co_resets :: "reset_exclusion list"

fun walk_series :: "usage_event option \<Rightarrow> usage_event list \<Rightarrow> cumulative_outcome \<Rightarrow> cumulative_outcome" where
  "walk_series previous [] out = out"
| "walk_series None (rec # rest) out =
     walk_series (Some rec) rest (out\<lparr>co_deltas := co_deltas out @ [delta_from_zero rec]\<rparr>)"
| "walk_series (Some prev) (rec # rest) out =
     walk_series (Some rec) rest
       (case difference prev rec of
          Inr delta \<Rightarrow> out\<lparr>co_deltas := co_deltas out @ [with_delta_usage rec delta]\<rparr>
        | Inl missing \<Rightarrow>
            out\<lparr>co_resets := co_resets out @
              [\<lparr>rx_rejected = rec, rx_previous = prev, rx_interval_since = ue_occurred_at prev,
                rx_interval_until = ue_occurred_at rec, rx_missing = missing\<rparr>]\<rparr>)"

definition group_series :: "usage_event list \<Rightarrow> (series_key, usage_event list) omap" where
  "group_series events = foldl (\<lambda>m e. om_upd (series_key e) [] (\<lambda>es. es @ [e]) m) [] events"

definition derive_cumulative_deltas ::
    "usage_event list \<Rightarrow> (parser_version \<Rightarrow> bool) \<Rightarrow> usage_event list \<times> cumulative_outcome" where
  "derive_cumulative_deltas canonical is_cumulative =
     (let passthrough = filter (\<lambda>e. \<not> is_cumulative (ue_parser_version e)) canonical;
          groups = group_series (filter (\<lambda>e. is_cumulative (ue_parser_version e)) canonical);
          outcome = foldl (\<lambda>out (key, series). walk_series None (sort_by compare_series_records series) out)
            \<lparr>co_deltas = [], co_resets = []\<rparr> groups
      in (passthrough @ co_deltas outcome, outcome))"

definition total_known_components :: "usage_event list \<Rightarrow> known_tokens" where
  "total_known_components events =
     known_new
       (InputTokens (foldl add_u64 0 (map (\<lambda>e. event_count e Input_Kind) events)))
       (OutputTokens (foldl add_u64 0 (map (\<lambda>e. event_count e Output_Kind) events)))
       (CacheReadTokens (foldl add_u64 0 (map (\<lambda>e. event_count e CacheRead_Kind) events)))
       (CacheWriteTokens (foldl add_u64 0 (map (\<lambda>e. event_count e CacheWrite_Kind) events)))"

definition total_unknown_components :: "usage_event list \<Rightarrow> (string, token_count) omap" where
  "total_unknown_components events =
     foldl (\<lambda>m (key, count). om_upd key (TokenCount 0) (\<lambda>c. tc_add c count) m) []
       (concat (map (\<lambda>e. uv_unknown (ue_usage e)) events))"

section \<open>What the deltas add up to\<close>

lemma event_count_with_delta [simp]: "event_count (with_delta_usage rec d) k = known_value d k"
  by (simp add: with_delta_usage_def Let_def event_count_def event_known_def event_new_def usage_new_def
      with_occurred_at_def with_session_def with_sequence_def split: option.split)

lemma event_count_delta_from_zero [simp]: "event_count (delta_from_zero rec) k = event_count rec k"
  by (cases k) (simp_all add: delta_from_zero_def)

lemma difference_Inr:
  "difference prev rec = Inr d \<Longrightarrow>
   event_count prev k \<le> event_count rec k \<and> known_value d k = event_count rec k - event_count prev k"
  by (cases k) (auto simp: difference_def Let_def split: if_splits)

lemma difference_Inl:
  "difference prev rec = Inl missing \<Longrightarrow>
   missing \<noteq> [] \<and>
   (\<forall>k. ComponentKind (kind_label k) \<in> set missing \<longleftrightarrow> event_count rec k < event_count prev k)"
proof (intro conjI allI)
  assume d: "difference prev rec = Inl missing"
  show "missing \<noteq> []" using d by (auto simp: difference_def Let_def split: if_splits)
  fix k
  show "ComponentKind (kind_label k) \<in> set missing \<longleftrightarrow> event_count rec k < event_count prev k"
    using d by (cases k) (auto simp: difference_def kind_label_def Let_def split: if_splits)
qed

definition delta_sum :: "usage_event list \<Rightarrow> token_kind \<Rightarrow> int" where
  "delta_sum ds k = (\<Sum>d\<leftarrow>ds. int (event_count d k))"

definition reset_sum :: "reset_exclusion list \<Rightarrow> token_kind \<Rightarrow> int" where
  "reset_sum rs k = (\<Sum>r\<leftarrow>rs. int (event_count (rx_previous r) k) - int (event_count (rx_rejected r) k))"

definition reset_justified :: "reset_exclusion \<Rightarrow> bool" where
  "reset_justified r \<longleftrightarrow>
     rx_missing r \<noteq> [] \<and>
     (\<forall>k. ComponentKind (kind_label k) \<in> set (rx_missing r) \<longleftrightarrow>
        event_count (rx_rejected r) k < event_count (rx_previous r) k) \<and>
     rx_interval_since r = ue_occurred_at (rx_previous r) \<and> rx_interval_until r = ue_occurred_at (rx_rejected r)"

lemma walk_series_accounts:
  "\<exists>ds rs. walk_series (Some prev) recs out =
       \<lparr>co_deltas = co_deltas out @ ds, co_resets = co_resets out @ rs\<rparr> \<and>
     length ds + length rs = length recs \<and> (\<forall>r\<in>set rs. reset_justified r) \<and>
     (\<forall>k. delta_sum ds k = int (event_count (last (prev # recs)) k) - int (event_count prev k) + reset_sum rs k)"
proof (induction recs arbitrary: prev out)
  case Nil
  then show ?case by (simp add: delta_sum_def reset_sum_def)
next
  case (Cons rec recs)
  show ?case
  proof (cases "difference prev rec")
    case (Inl missing)
    let ?r = "\<lparr>rx_rejected = rec, rx_previous = prev, rx_interval_since = ue_occurred_at prev,
      rx_interval_until = ue_occurred_at rec, rx_missing = missing\<rparr>"
    have r: "reset_justified ?r"
      using difference_Inl [OF Inl] by (simp add: reset_justified_def)
    from Cons [of rec "out\<lparr>co_resets := co_resets out @ [?r]\<rparr>"]
    obtain ds rs where *: "walk_series (Some prev) (rec # recs) out =
          \<lparr>co_deltas = co_deltas out @ ds, co_resets = co_resets out @ ?r # rs\<rparr>"
        "length ds + length rs = length recs" "\<forall>r\<in>set rs. reset_justified r"
        "\<forall>k. delta_sum ds k = int (event_count (last (rec # recs)) k) - int (event_count rec k) + reset_sum rs k"
      using Inl by auto
    then show ?thesis
      using r by (intro exI [of _ ds] exI [of _ "?r # rs"]) (simp add: reset_sum_def)
  next
    case (Inr d)
    let ?d = "with_delta_usage rec d"
    from Cons [of rec "out\<lparr>co_deltas := co_deltas out @ [?d]\<rparr>"]
    obtain ds rs where *: "walk_series (Some prev) (rec # recs) out =
          \<lparr>co_deltas = co_deltas out @ ?d # ds, co_resets = co_resets out @ rs\<rparr>"
        "length ds + length rs = length recs" "\<forall>r\<in>set rs. reset_justified r"
        "\<forall>k. delta_sum ds k = int (event_count (last (rec # recs)) k) - int (event_count rec k) + reset_sum rs k"
      using Inr by auto
    have "delta_sum (?d # ds) k = int (event_count (last (prev # rec # recs)) k) - int (event_count prev k) + reset_sum rs k" for k
      using *(4) difference_Inr [OF Inr, of k] by (simp add: delta_sum_def of_nat_diff)
    then show ?thesis
      using * by (intro exI [of _ "?d # ds"] exI [of _ rs]) simp
  qed
qed

text \<open>
  C24. Differencing loses nothing and invents nothing. Over one series every record becomes exactly
  one delta or one named reset; in each token kind the deltas sum to the last total plus what the
  resets fell back by, so a series without a reset sums to exactly its last total; and a reset
  names exactly the kinds that decreased.
\<close>

theorem series_deltas_account_for_the_total:
  assumes "recs \<noteq> []"
  shows "\<exists>ds rs. walk_series None recs \<lparr>co_deltas = [], co_resets = []\<rparr> = \<lparr>co_deltas = ds, co_resets = rs\<rparr> \<and>
    length ds + length rs = length recs \<and> (\<forall>r\<in>set rs. reset_justified r) \<and>
    (\<forall>k. delta_sum ds k = int (event_count (last recs) k) + reset_sum rs k)"
proof (cases recs)
  case (Cons rec rest)
  let ?d = "delta_from_zero rec"
  obtain ds rs where *: "walk_series (Some rec) rest \<lparr>co_deltas = [?d], co_resets = []\<rparr> =
        \<lparr>co_deltas = ?d # ds, co_resets = rs\<rparr>"
      "length ds + length rs = length rest" "\<forall>r\<in>set rs. reset_justified r"
      "\<forall>k. delta_sum ds k = int (event_count (last (rec # rest)) k) - int (event_count rec k) + reset_sum rs k"
    using walk_series_accounts [of rec rest "\<lparr>co_deltas = [?d], co_resets = []\<rparr>"] by auto
  have "delta_sum (?d # ds) k = int (event_count (last recs) k) + reset_sum rs k" for k
    using *(4) Cons by (simp add: delta_sum_def)
  then show ?thesis using * Cons by (intro exI [of _ "?d # ds"] exI [of _ rs]) simp
qed (use assms in simp)

text \<open>A counter that grows, restarts, and grows again.\<close>

definition sample_series :: "usage_event list" where
  "sample_series = [sample_event ''f'' 10 1, sample_event ''f'' 30 4, sample_event ''f'' 5 4, sample_event ''f'' 12 6]"

lemma sample_series_walk:
  "map (\<lambda>d. event_count d Input_Kind) (co_deltas (walk_series None sample_series \<lparr>co_deltas = [], co_resets = []\<rparr>)) =
     [10, 20, 7] \<and>
   map rx_missing (co_resets (walk_series None sample_series \<lparr>co_deltas = [], co_resets = []\<rparr>)) =
     [[ComponentKind ''input'']]"
proof -
  have c: "event_count (sample_event src i out) Input_Kind = i" "event_count (sample_event src i out) Output_Kind = out"
    "event_count (sample_event src i out) CacheRead_Kind = 0" "event_count (sample_event src i out) CacheWrite_Kind = 0"
    for src i out
    by (simp_all add: sample_event_def event_count_def event_known_def event_new_def usage_new_def)
  show ?thesis by (simp add: sample_series_def difference_def c Let_def)
qed

theorem series_deltas_account_for_the_total_witness:
  "\<exists>ds rs. walk_series None sample_series \<lparr>co_deltas = [], co_resets = []\<rparr> = \<lparr>co_deltas = ds, co_resets = rs\<rparr> \<and>
     delta_sum ds Input_Kind = 37 \<and> int (event_count (last sample_series) Input_Kind) + reset_sum rs Input_Kind = 37"
proof -
  obtain ds rs where w: "walk_series None sample_series \<lparr>co_deltas = [], co_resets = []\<rparr> = \<lparr>co_deltas = ds, co_resets = rs\<rparr>"
      "\<forall>k. delta_sum ds k = int (event_count (last sample_series) k) + reset_sum rs k"
    using series_deltas_account_for_the_total [of sample_series] by (auto simp: sample_series_def)
  have "map (\<lambda>d. event_count d Input_Kind) ds = [10, 20, 7]" using sample_series_walk w(1) by simp
  then have "sum_list (map int (map (\<lambda>d. event_count d Input_Kind) ds)) = 37" by simp
  then have "delta_sum ds Input_Kind = 37" by (simp add: delta_sum_def comp_def)
  with w show ?thesis by metis
qed

section \<open>The order of the batch\<close>

lemma get_group_series:
  "om_get (group_series es) k =
     (case filter (\<lambda>e. series_key e = k) es of [] \<Rightarrow> None | ys \<Rightarrow> Some ys) \<and> om_ok (group_series es)"
proof (induction es rule: rev_induct)
  case Nil
  then show ?case by (simp add: group_series_def)
next
  case (snoc e es)
  have step: "group_series (es @ [e]) = om_upd (series_key e) [] (\<lambda>xs. xs @ [e]) (group_series es)"
    by (simp add: group_series_def)
  show ?case unfolding step using snoc by (auto split: list.splits)
qed

definition sorted_groups :: "usage_event list \<Rightarrow> (series_key, usage_event list) omap" where
  "sorted_groups es = om_map_values (sort_by compare_series_records) (group_series es)"

lemma derive_through_sorted_groups:
  "foldl (\<lambda>out (key, series). walk_series None (sort_by compare_series_records series) out) out (group_series es) =
   foldl (\<lambda>out (key, series). walk_series None series out) out (sorted_groups es)"
proof -
  have "foldl (\<lambda>out (key, series). walk_series None (sort_by compare_series_records series) out) out m =
      foldl (\<lambda>out (key, series). walk_series None series out) out (om_map_values (sort_by compare_series_records) m)" for m :: "(series_key, usage_event list) omap" and out
    by (induction m arbitrary: out) (auto simp: om_map_values_def)
  then show ?thesis by (simp add: sorted_groups_def)
qed

lemma sorted_groups_order:
  assumes "mset es = mset fs" "\<forall>a\<in>set es. \<forall>b\<in>set es. series_order_key a = series_order_key b \<longrightarrow> a = b"
  shows "sorted_groups es = sorted_groups fs"
proof (rule om_ext)
  show "om_ok (sorted_groups es)" "om_ok (sorted_groups fs)"
    by (simp_all add: sorted_groups_def get_group_series)
  fix k
  let ?e = "filter (\<lambda>e. series_key e = k) es" and ?f = "filter (\<lambda>e. series_key e = k) fs"
  have ms: "mset ?e = mset ?f" using assms(1) by (simp add: mset_filter)
  have tie: "\<forall>a\<in>set ?e. \<forall>b\<in>set ?e. compare_series_records a b = Equal \<longrightarrow> a = b"
    using assms(2) by (auto simp: compare_series_records_key cmp_ord_def split: if_splits)
  have "sort_by compare_series_records ?e = sort_by compare_series_records ?f"
    by (rule series.sort_by_unique [OF ms tie])
  moreover have "?e = [] \<longleftrightarrow> ?f = []" using ms by (metis mset.simps(1) mset_zero_iff)
  ultimately show "om_get (sorted_groups es) k = om_get (sorted_groups fs) k"
    by (auto simp: sorted_groups_def get_group_series split: list.splits)
qed

text \<open>
  The pipeline does not depend on the order its records arrive in: as long as no two different
  records tie through the whole series order, any permutation of the batch gives the same deltas
  and the same resets, in the same order.
\<close>

theorem cumulative_deltas_order_independent:
  assumes "mset es = mset fs" "\<forall>a\<in>set es. \<forall>b\<in>set es. series_order_key a = series_order_key b \<longrightarrow> a = b"
  shows "snd (derive_cumulative_deltas es cum) = snd (derive_cumulative_deltas fs cum)"
proof -
  let ?c = "\<lambda>e. cum (ue_parser_version e)"
  have "mset (filter ?c es) = mset (filter ?c fs)" using assms(1) by (simp add: mset_filter)
  then have "sorted_groups (filter ?c es) = sorted_groups (filter ?c fs)"
    using assms(2) by (intro sorted_groups_order) auto
  then show ?thesis by (simp add: derive_cumulative_deltas_def derive_through_sorted_groups Let_def)
qed

theorem cumulative_deltas_order_independent_witness:
  "snd (derive_cumulative_deltas [sample_event ''f'' 10 1, sample_event ''f'' 30 4] (\<lambda>_. True)) =
   snd (derive_cumulative_deltas [sample_event ''f'' 30 4, sample_event ''f'' 10 1] (\<lambda>_. True))"
proof (rule cumulative_deltas_order_independent)
  show "\<forall>a\<in>set [sample_event ''f'' 10 1, sample_event ''f'' 30 4].
      \<forall>b\<in>set [sample_event ''f'' 10 1, sample_event ''f'' 30 4]. series_order_key a = series_order_key b \<longrightarrow> a = b"
    by (auto simp: series_order_key_def known_components_def sample_event_def event_count_def event_known_def
        event_new_def usage_new_def)
qed (simp add: add_mset_commute)

text \<open>
  Unknown components are not differenced: the totals so far a source reports under a name no
  known kind covers are carried into every delta as they are, so their sum over a series exceeds
  the last total, which for the known kinds it never does.
\<close>

theorem unknown_totals_are_summed:
  "let rec = (\<lambda>i n. (sample_event ''f'' i 1)\<lparr>ue_usage := (ue_usage (sample_event ''f'' i 1))
                 \<lparr>uv_unknown := [(''reasoning'', TokenCount n)]\<rparr>\<rparr>);
       out = walk_series None [rec 10 5, rec 30 9] \<lparr>co_deltas = [], co_resets = []\<rparr>
   in total_unknown_components (co_deltas out) = [(''reasoning'', TokenCount 14)] \<and>
      known_value (total_known_components (co_deltas out)) Input_Kind = 30"
  by (simp add: Let_def difference_def with_delta_usage_def delta_from_zero_def sample_event_def event_new_def
      usage_new_def event_count_def event_known_def with_occurred_at_def total_unknown_components_def
      total_known_components_def add_u64_def om_upd_def om_get_def tc_add_def wrap_u64_def)

end
