(* ===== verification/Glob.thy ===== *)
theory Glob
  imports Prelude
begin

text \<open>
  \<open>src/domain/glob.rs\<close>: the glob matcher, a loop with one backtrack point, against the matcher
  that says what \<open>*\<close> and \<open>?\<close> mean.
\<close>

section \<open>The loop\<close>

partial_function (option) glob_loop ::
    "char list \<Rightarrow> char list \<Rightarrow> nat \<Rightarrow> nat \<Rightarrow> nat option \<Rightarrow> nat \<Rightarrow> bool option" where
  "glob_loop pattern text p t star resume =
     (if t < length text
      then
        (if p < length pattern \<and> (pattern ! p = CHR ''?'' \<or> pattern ! p = text ! t)
         then glob_loop pattern text (p + 1) (t + 1) star resume
         else if p < length pattern \<and> pattern ! p = CHR ''*''
         then glob_loop pattern text (p + 1) t (Some p) t
         else case star of
                Some at \<Rightarrow> glob_loop pattern text (at + 1) (resume + 1) star (resume + 1)
              | None \<Rightarrow> Some False)
      else Some (dropWhile (\<lambda>c. c = CHR ''*'') (drop p pattern) = []))"

definition glob_match :: "char list \<Rightarrow> char list \<Rightarrow> bool option" where
  "glob_match pattern text = glob_loop pattern text 0 0 None 0"

section \<open>What a pattern means\<close>

fun glob_spec :: "char list \<Rightarrow> char list \<Rightarrow> bool" where
  "glob_spec [] ts = (ts = [])"
| "glob_spec (c # ps) [] = (c = CHR ''*'' \<and> glob_spec ps [])"
| "glob_spec (c # ps) (t # ts) =
     (if c = CHR ''*'' then glob_spec ps (t # ts) \<or> glob_spec (c # ps) ts
      else (c = CHR ''?'' \<or> c = t) \<and> glob_spec ps ts)"

lemma glob_spec_star: "glob_spec (CHR ''*'' # ps) ts \<longleftrightarrow> (\<exists>k\<le>length ts. glob_spec ps (drop k ts))"
proof (induction ts)
  case Nil
  then show ?case by simp
next
  case (Cons t ts)
  have "(\<exists>k\<le>length (t # ts). glob_spec ps (drop k (t # ts))) \<longleftrightarrow>
      glob_spec ps (t # ts) \<or> (\<exists>k\<le>length ts. glob_spec ps (drop k ts))"
  proof
    assume "\<exists>k\<le>length (t # ts). glob_spec ps (drop k (t # ts))"
    then obtain k where "k \<le> length (t # ts)" "glob_spec ps (drop k (t # ts))" by blast
    then show "glob_spec ps (t # ts) \<or> (\<exists>k\<le>length ts. glob_spec ps (drop k ts))"
      by (cases k) auto
  next
    assume "glob_spec ps (t # ts) \<or> (\<exists>k\<le>length ts. glob_spec ps (drop k ts))"
    then show "\<exists>k\<le>length (t # ts). glob_spec ps (drop k (t # ts))"
      by (metis Suc_le_mono drop0 drop_Suc_Cons le0 length_Cons)
  qed
  then show ?case using Cons by simp
qed

lemma glob_spec_Nil: "glob_spec ps [] \<longleftrightarrow> dropWhile (\<lambda>c. c = CHR ''*'') ps = []"
  by (induction ps) auto

text \<open>What is left of the match at a pair of positions.\<close>

definition rest :: "char list \<Rightarrow> char list \<Rightarrow> nat \<Rightarrow> nat \<Rightarrow> bool" where
  "rest pattern text p t = glob_spec (drop p pattern) (drop t text)"

lemma rest_end: "rest pattern text (length pattern + n) t \<longleftrightarrow> length text \<le> t"
  by (simp add: rest_def)

lemma rest_literal:
  assumes "p < length pattern" "pattern ! p \<noteq> CHR ''*''" "t < length text"
  shows "rest pattern text p t \<longleftrightarrow>
    (pattern ! p = CHR ''?'' \<or> pattern ! p = text ! t) \<and> rest pattern text (p + 1) (t + 1)"
  using assms by (simp add: rest_def Cons_nth_drop_Suc [symmetric])

lemma rest_star:
  assumes "p < length pattern" "pattern ! p = CHR ''*''" "t \<le> length text"
  shows "rest pattern text p t \<longleftrightarrow> (\<exists>r\<ge>t. r \<le> length text \<and> rest pattern text (p + 1) r)"
proof -
  have "rest pattern text p t \<longleftrightarrow> (\<exists>k\<le>length text - t. rest pattern text (p + 1) (t + k))"
    using assms by (simp add: rest_def Cons_nth_drop_Suc [symmetric] glob_spec_star add.commute)
  also have "\<dots> \<longleftrightarrow> (\<exists>r\<ge>t. r \<le> length text \<and> rest pattern text (p + 1) r)"
    using assms(3) by (metis Nat.le_diff_conv2 add.commute le_add1 le_add_diff_inverse)
  finally show ?thesis .
qed

text \<open>A run of literals consumes one character each.\<close>

lemma rest_literals:
  assumes "rest pattern text s r" "s + n \<le> length pattern" "\<forall>i<n. pattern ! (s + i) \<noteq> CHR ''*''" "r \<le> length text"
  shows "r + n \<le> length text \<and> rest pattern text (s + n) (r + n)"
  using assms(2,3)
proof (induction n)
  case 0
  then show ?case using assms by simp
next
  case (Suc n)
  then have IH: "r + n \<le> length text" "rest pattern text (s + n) (r + n)" by simp_all
  have lit: "s + n < length pattern" "pattern ! (s + n) \<noteq> CHR ''*''" using Suc.prems by auto
  have "r + n < length text"
  proof (rule ccontr)
    assume "\<not> r + n < length text"
    then have "drop (r + n) text = []" by simp
    then show False using IH(2) lit by (simp add: rest_def Cons_nth_drop_Suc [symmetric])
  qed
  then show ?case using rest_literal [OF lit] IH(2) by simp
qed

section \<open>The loop computes the meaning\<close>

text \<open>
  The backtrack point is the last star; since it, only literals were passed, one character each.
\<close>

definition glob_inv :: "char list \<Rightarrow> char list \<Rightarrow> nat \<Rightarrow> nat \<Rightarrow> nat option \<Rightarrow> nat \<Rightarrow> bool" where
  "glob_inv pattern text p t star resume \<longleftrightarrow>
     p \<le> length pattern \<and> t \<le> length text \<and>
     (case star of
        None \<Rightarrow> resume = 0
      | Some s \<Rightarrow> s < p \<and> resume \<le> t \<and> p - Suc s = t - resume \<and>
          (\<forall>i. s < i \<and> i < p \<longrightarrow> pattern ! i \<noteq> CHR ''*''))"

definition glob_answer :: "char list \<Rightarrow> char list \<Rightarrow> nat \<Rightarrow> nat \<Rightarrow> nat option \<Rightarrow> nat \<Rightarrow> bool" where
  "glob_answer pattern text p t star resume \<longleftrightarrow>
     rest pattern text p t \<or>
     (case star of
        None \<Rightarrow> False
      | Some s \<Rightarrow> \<exists>r>resume. r \<le> length text \<and> rest pattern text (Suc s) r)"

text \<open>A later start for the last star would have to reach this point later still.\<close>

lemma retry_reaches:
  assumes "glob_inv pattern text p t (Some s) resume" "r > resume" "r \<le> length text"
    and "rest pattern text (Suc s) r"
  shows "\<exists>u>t. u \<le> length text \<and> rest pattern text p u"
proof -
  let ?n = "p - Suc s"
  have p: "Suc s + ?n = p" and n: "resume + ?n = t" using assms(1) by (auto simp: glob_inv_def)
  have "r + ?n \<le> length text \<and> rest pattern text (Suc s + ?n) (r + ?n)"
    by (rule rest_literals [OF assms(4)]) (use assms(1,3) p in \<open>auto simp: glob_inv_def\<close>)
  moreover have "r + ?n > t" using n assms(2) by linarith
  ultimately show ?thesis unfolding p by blast
qed

definition glob_measure :: "char list \<Rightarrow> char list \<Rightarrow> nat \<Rightarrow> nat option \<Rightarrow> nat \<Rightarrow> nat \<times> nat \<times> nat" where
  "glob_measure pattern text t star resume =
     (length text - resume, length pattern - (case star of None \<Rightarrow> 0 | Some s \<Rightarrow> Suc s), length text - t)"

lemma ex_from_Suc: "(\<exists>r>n. P r) \<longleftrightarrow> P (Suc n) \<or> (\<exists>r>Suc n. P r)" for n :: nat
  by (metis Suc_lessD Suc_lessI lessI)

lemma glob_loop_correct:
  assumes "CHR ''*'' \<notin> set text" "glob_inv pattern text p t star resume"
  shows "glob_loop pattern text p t star resume = Some (glob_answer pattern text p t star resume)"
  using assms(2)
proof (induction "glob_measure pattern text t star resume" arbitrary: p t star resume
    rule: wf_induct_rule [OF wf_lex_prod [OF wf_less_than wf_lex_prod [OF wf_less_than wf_less_than]]])
  case (1 t star resume p)
  have IH: "glob_loop pattern text p' t' star' resume' = Some (glob_answer pattern text p' t' star' resume')"
    if "(glob_measure pattern text t' star' resume', glob_measure pattern text t star resume)
        \<in> less_than <*lex*> less_than <*lex*> less_than"
      "glob_inv pattern text p' t' star' resume'" for p' t' star' resume'
    using "1.hyps" [OF that] .
  note inv = "1.prems"
  have bounds: "p \<le> length pattern" "t \<le> length text" using inv by (simp_all add: glob_inv_def)
  consider (literal) "t < length text" "p < length pattern" "pattern ! p = CHR ''?'' \<or> pattern ! p = text ! t"
    | (star) "t < length text" "p < length pattern" "\<not> (pattern ! p = CHR ''?'' \<or> pattern ! p = text ! t)"
        "pattern ! p = CHR ''*''"
    | (mismatch) "t < length text"
        "p < length pattern \<Longrightarrow> \<not> (pattern ! p = CHR ''?'' \<or> pattern ! p = text ! t) \<and> pattern ! p \<noteq> CHR ''*''"
    | (finish) "t = length text"
    using bounds by fastforce
  then show ?case
  proof cases
    case literal
    have lit: "pattern ! p \<noteq> CHR ''*''"
      using literal(3) assms(1) nth_mem [OF literal(1)] by auto
    have step: "rest pattern text p t \<longleftrightarrow> rest pattern text (p + 1) (t + 1)"
      using rest_literal [OF literal(2) lit literal(1)] literal(3) by simp
    have "glob_loop pattern text (p + 1) (t + 1) star resume =
        Some (glob_answer pattern text (p + 1) (t + 1) star resume)"
    proof (rule IH)
      show "glob_inv pattern text (p + 1) (t + 1) star resume"
        using inv literal(1,2) lit by (auto simp: glob_inv_def less_Suc_eq split: option.splits)
    qed (use literal(1) in \<open>simp add: glob_measure_def\<close>)
    then show ?thesis
      using literal step by (subst glob_loop.simps) (simp add: glob_answer_def)
  next
    case star
    have "glob_loop pattern text (p + 1) t (Some p) t = Some (glob_answer pattern text (p + 1) t (Some p) t)"
    proof (rule IH)
      show "glob_inv pattern text (p + 1) t (Some p) t"
        using star(1,2) by (auto simp: glob_inv_def)
      show "(glob_measure pattern text t (Some p) t, glob_measure pattern text t star resume)
          \<in> less_than <*lex*> less_than <*lex*> less_than"
        using inv star(1,2) by (auto simp: glob_measure_def glob_inv_def split: option.splits)
    qed
    moreover have "glob_answer pattern text (p + 1) t (Some p) t \<longleftrightarrow> glob_answer pattern text p t star resume"
    proof -
      have here: "rest pattern text p t \<longleftrightarrow> (\<exists>r\<ge>t. r \<le> length text \<and> rest pattern text (p + 1) r)"
        by (rule rest_star [OF star(2,4) bounds(2)])
      have "rest pattern text p t"
        if "star = Some s" "r > resume" "r \<le> length text" "rest pattern text (Suc s) r" for s r
      proof -
        note later = retry_reaches [OF inv [unfolded that(1)] that(2-4)]
        obtain u where "u > t" "u \<le> length text" "rest pattern text p u"
          using later by blast
        then obtain v where "v \<ge> u" "v \<le> length text" "rest pattern text (p + 1) v"
          using rest_star [OF star(2,4)] by blast
        then show ?thesis using here \<open>u > t\<close> by (meson less_imp_le order_trans)
      qed
      then have "glob_answer pattern text p t star resume \<longleftrightarrow> rest pattern text p t"
        by (auto simp: glob_answer_def split: option.splits)
      moreover have "glob_answer pattern text (p + 1) t (Some p) t \<longleftrightarrow> (\<exists>r\<ge>t. r \<le> length text \<and> rest pattern text (p + 1) r)"
        using bounds(2) by (auto simp: glob_answer_def le_less)
      ultimately show ?thesis using here by simp
    qed
    ultimately show ?thesis using star by (subst glob_loop.simps) simp
  next
    case mismatch
    have no: "\<not> rest pattern text p t"
    proof (cases "p < length pattern")
      case True
      then show ?thesis using mismatch(2) [OF True] rest_literal [OF True _ mismatch(1)] by simp
    next
      case False
      then show ?thesis using rest_end [of pattern "text" 0 t] bounds(1) mismatch(1) by simp
    qed
    show ?thesis
    proof (cases star)
      case None
      then show ?thesis using mismatch no by (subst glob_loop.simps) (auto simp: glob_answer_def)
    next
      case (Some s)
      have "glob_loop pattern text (s + 1) (resume + 1) star (resume + 1) =
          Some (glob_answer pattern text (s + 1) (resume + 1) star (resume + 1))"
      proof (rule IH)
        show "glob_inv pattern text (s + 1) (resume + 1) star (resume + 1)"
          using inv mismatch(1) Some by (simp add: glob_inv_def)
        have "resume < length text" using inv mismatch(1) Some by (simp add: glob_inv_def)
        then show "(glob_measure pattern text (resume + 1) star (resume + 1), glob_measure pattern text t star resume)
            \<in> less_than <*lex*> less_than <*lex*> less_than"
          by (simp add: glob_measure_def diff_less_mono2)
      qed
      moreover have "glob_answer pattern text (s + 1) (resume + 1) star (resume + 1) \<longleftrightarrow>
          glob_answer pattern text p t star resume"
      proof -
        have le: "Suc resume \<le> length text" using inv mismatch(1) Some by (simp add: glob_inv_def)
        then have "(rest pattern text (Suc s) (Suc resume) \<or>
            (\<exists>r>Suc resume. r \<le> length text \<and> rest pattern text (Suc s) r)) \<longleftrightarrow>
            (\<exists>r>resume. r \<le> length text \<and> rest pattern text (Suc s) r)"
          using le ex_from_Suc [of resume "\<lambda>r. r \<le> length text \<and> rest pattern text (Suc s) r"] by blast
        then show ?thesis using no Some by (simp add: glob_answer_def)
      qed
      ultimately show ?thesis using mismatch Some by (subst glob_loop.simps) auto
    qed
  next
    case finish
    have "\<not> (\<exists>s r. star = Some s \<and> r > resume \<and> r \<le> length text \<and> rest pattern text (Suc s) r)"
    proof
      assume "\<exists>s r. star = Some s \<and> r > resume \<and> r \<le> length text \<and> rest pattern text (Suc s) r"
      then obtain s r where s: "star = Some s" and r: "r > resume" "r \<le> length text" "rest pattern text (Suc s) r"
        by blast
      show False using retry_reaches [OF inv [unfolded s] r] finish by auto
    qed
    moreover have "rest pattern text p t \<longleftrightarrow> dropWhile (\<lambda>c. c = CHR ''*'') (drop p pattern) = []"
      using finish by (simp add: rest_def glob_spec_Nil)
    ultimately show ?thesis
      using finish by (subst glob_loop.simps) (auto simp: glob_answer_def split: option.splits)
  qed
qed

text \<open>
  The iterative matcher computes the meaning of the pattern, and always answers, on every text
  that holds no asterisk: one backtrack point is enough, however many stars the pattern has.
\<close>

theorem glob_match_meaning:
  assumes "CHR ''*'' \<notin> set text"
  shows "glob_match pattern text = Some (glob_spec pattern text)"
  using glob_loop_correct [OF assms, of pattern 0 0 None 0]
  by (simp add: glob_match_def glob_inv_def glob_answer_def rest_def)

theorem glob_match_meaning_witness:
  "glob_match ''*a*b?'' ''xxaybbc'' = Some (glob_spec ''*a*b?'' ''xxaybbc'') \<and> glob_spec ''*a*b?'' ''xxaybbc''"
  using glob_match_meaning [of "''xxaybbc''" "''*a*b?''"] by simp

text \<open>
  An asterisk in the text defeats the star of the pattern: the two are compared as literals
  first, so the pattern that matches everything refuses a text that begins with one.
\<close>

theorem glob_match_star_in_text:
  "glob_match ''*'' ''*a'' = Some False \<and> glob_spec ''*'' ''*a''"
  by (simp add: glob_match_def glob_loop.simps)

end
