(* ===== verification/Watermark.thy ===== *)
theory Watermark
  imports Prelude
begin

text \<open>
  \<open>src/transcripts/watermark.rs\<close>: what the index records of a transcript file, how its present state
  is classified against that record, and where a partly written file may be consumed up to. Reading
  the metadata from the file system is outside; the content is its bytes, as characters.
\<close>

datatype change_class = New | Unchanged | Appended | ParserVersionChanged | RebuildRequired

record watermark =
  wm_source_key :: string
  wm_relative_path :: string
  wm_size :: u64
  wm_mtime_nanos :: i64
  wm_identity :: string
  wm_parser_version :: string
  wm_consumed_offset :: u64

record file_state =
  fs_size :: u64
  fs_mtime_nanos :: i64
  fs_identity :: string

definition classify :: "watermark option \<Rightarrow> file_state \<Rightarrow> string \<Rightarrow> change_class" where
  "classify stored current parser =
     (case stored of
        None \<Rightarrow> New
      | Some w \<Rightarrow>
          if wm_identity w \<noteq> fs_identity current then RebuildRequired
          else if fs_size current < wm_size w then RebuildRequired
          else if wm_parser_version w \<noteq> parser then ParserVersionChanged
          else if fs_size current = wm_size w \<and> fs_mtime_nanos current = wm_mtime_nanos w then Unchanged
          else if fs_size current > wm_size w then Appended
          else RebuildRequired)"

abbreviation newline :: char where "newline \<equiv> CHR 0x0A"

text \<open>\<open>rposition\<close>\<close>

fun rposition :: "char \<Rightarrow> string \<Rightarrow> nat option" where
  "rposition c [] = None"
| "rposition c (x # xs) =
     (case rposition c xs of Some i \<Rightarrow> Some (Suc i) | None \<Rightarrow> if x = c then Some 0 else None)"

definition last_complete_line_offset :: "string \<Rightarrow> u64 \<Rightarrow> u64" where
  "last_complete_line_offset content offset0 =
     (let offset = min offset0 (length content);
          bytes = take offset content
      in if bytes \<noteq> [] \<and> last bytes = newline then offset
         else (case rposition newline bytes of Some position \<Rightarrow> position + 1 | None \<Rightarrow> 0))"

lemma rposition_Some:
  "rposition c xs = Some i \<Longrightarrow> i < length xs \<and> xs ! i = c \<and> (\<forall>j. i < j \<and> j < length xs \<longrightarrow> xs ! j \<noteq> c)"
proof (induction xs arbitrary: i)
  case (Cons x xs)
  show ?case
  proof (cases "rposition c xs")
    case None
    then have "c \<notin> set xs" by (induction xs) (auto split: option.splits if_splits)
    then have "xs ! j \<noteq> c" if "j < length xs" for j using that nth_mem by blast
    then show ?thesis using Cons.prems None by (auto simp: nth_Cons split: if_splits nat.splits)
  next
    case (Some k)
    then show ?thesis using Cons by (auto simp: nth_Cons split: nat.splits)
  qed
qed simp

lemma rposition_None: "rposition c xs = None \<longleftrightarrow> c \<notin> set xs"
  by (induction xs) (auto split: option.splits)

text \<open>
  A file is resumed only where resuming is safe: only under the same identity and the same
  parser, and only when it has strictly grown; it is skipped only when nothing observable changed;
  and every other file that is known is read again from the beginning.
\<close>

theorem resume_only_when_safe:
  "(classify (Some w) f parser = Appended \<longleftrightarrow>
      wm_identity w = fs_identity f \<and> wm_parser_version w = parser \<and> wm_size w < fs_size f) \<and>
   (classify (Some w) f parser = Unchanged \<longleftrightarrow>
      wm_identity w = fs_identity f \<and> wm_parser_version w = parser \<and> wm_size w = fs_size f \<and>
      wm_mtime_nanos w = fs_mtime_nanos f) \<and>
   (classify (Some w) f parser \<noteq> New) \<and>
   (wm_identity w \<noteq> fs_identity f \<or> fs_size f < wm_size w \<longrightarrow> classify (Some w) f parser = RebuildRequired) \<and>
   classify None f parser = New"
  by (auto simp: classify_def)

theorem resume_only_when_safe_witness:
  "classify (Some \<lparr>wm_source_key = ''s'', wm_relative_path = ''p'', wm_size = 10, wm_mtime_nanos = 5,
      wm_identity = ''1:2'', wm_parser_version = ''v1'', wm_consumed_offset = 10\<rparr>)
     \<lparr>fs_size = 9, fs_mtime_nanos = 5, fs_identity = ''1:2''\<rparr> ''v1'' = RebuildRequired"
  using resume_only_when_safe [of "\<lparr>wm_source_key = ''s'', wm_relative_path = ''p'', wm_size = 10, wm_mtime_nanos = 5,
      wm_identity = ''1:2'', wm_parser_version = ''v1'', wm_consumed_offset = 10\<rparr>"
      "\<lparr>fs_size = 9, fs_mtime_nanos = 5, fs_identity = ''1:2''\<rparr>" "''v1''"]
  by simp

definition at_line_start :: "string \<Rightarrow> nat \<Rightarrow> bool" where
  "at_line_start content n \<longleftrightarrow> n = 0 \<or> n \<le> length content \<and> content ! (n - 1) = newline"

lemma last_complete_line_offset_spec:
  fixes content :: string and offset :: nat
  defines "r \<equiv> last_complete_line_offset content offset"
  shows "r \<le> offset \<and> r \<le> length content \<and> at_line_start content r \<and>
    (\<forall>n. at_line_start content n \<and> n \<le> offset \<longrightarrow> n \<le> r)"
proof -
  let ?o = "min offset (length content)"
  let ?b = "take ?o content"
  have len: "length ?b = ?o" by simp
  show ?thesis
  proof (cases "?b \<noteq> [] \<and> last ?b = newline")
    case True
    then have pos: "0 < ?o" by (cases ?o) auto
    have "content ! (?o - 1) = newline"
    proof -
      have "last ?b = ?b ! (?o - 1)" using True last_conv_nth [of ?b] unfolding len by blast
      also have "\<dots> = content ! (?o - 1)" using pos by (intro nth_take) linarith
      finally show ?thesis using True by simp
    qed
    then show ?thesis
      using True pos by (auto simp: r_def last_complete_line_offset_def Let_def at_line_start_def)
  next
    case False
    show ?thesis
    proof (cases "rposition newline ?b")
      case None
      then have r: "r = 0" using False by (auto simp: r_def last_complete_line_offset_def Let_def)
      have "n = 0" if n: "at_line_start content n" "n \<le> offset" for n
      proof (rule ccontr)
        assume "n \<noteq> 0"
        then have "n - 1 < ?o" "content ! (n - 1) = newline" using n by (auto simp: at_line_start_def)
        then have "newline \<in> set ?b" by (metis len nth_mem nth_take)
        then show False using None rposition_None by blast
      qed
      then show ?thesis using r by (auto simp: at_line_start_def)
    next
      case (Some i)
      then have i: "i < ?o" "content ! i = newline" "\<forall>j. i < j \<and> j < ?o \<longrightarrow> content ! j \<noteq> newline"
        using rposition_Some [OF Some] by auto
      have r: "r = Suc i" using False Some by (auto simp: r_def last_complete_line_offset_def Let_def)
      have "n \<le> Suc i" if n: "at_line_start content n" "n \<le> offset" for n
      proof (rule ccontr)
        assume "\<not> n \<le> Suc i"
        then have "i < n - 1" "n - 1 < ?o" "content ! (n - 1) = newline" using n by (auto simp: at_line_start_def)
        then show False using i(3) by blast
      qed
      then show ?thesis using r i by (auto simp: at_line_start_def)
    qed
  qed
qed

text \<open>
  Half a record is never consumed: the offset remembered is the largest start of a line at or
  below the bytes read, so no complete line is held back and no partial one is taken; and when the
  file grows by an append, the offset remembered before is still the start of a line.
\<close>

theorem consumed_offset_is_last_line_start:
  "last_complete_line_offset content offset \<le> min offset (length content) \<and>
   at_line_start content (last_complete_line_offset content offset) \<and>
   (\<forall>n. at_line_start content n \<and> n \<le> offset \<longrightarrow> n \<le> last_complete_line_offset content offset) \<and>
   at_line_start (content @ appended) (last_complete_line_offset content offset)"
proof -
  have "at_line_start (content @ appended) n" if "at_line_start content n" for n
    using that by (auto simp: at_line_start_def nth_append)
  then show ?thesis using last_complete_line_offset_spec [of content offset] by simp
qed

theorem consumed_offset_is_last_line_start_witness:
  "last_complete_line_offset ''ab'' 2 \<le> min 2 2 \<and> last_complete_line_offset [CHR ''a'', newline, CHR ''b''] 3 = 2"
  using consumed_offset_is_last_line_start [of "''ab''" 2 "''c''"]
  by (simp add: last_complete_line_offset_def Let_def)

end
