(* ===== verification/Sessions.thy ===== *)
theory Sessions
  imports Ordered_Map Events
begin

text \<open>
  \<open>src/config/aliases.rs\<close>, \<open>src/config/layout.rs\<close>, \<open>src/sessions/resolver.rs\<close> and
  \<open>src/sessions/timeline.rs\<close>: from a working directory to the logical repository and project, and
  from dated events to session timelines. A path is its text; \<open>Path::components\<close> of the standard
  library is modelled for Unix paths. The write to the session table is outside.
\<close>

section \<open>Paths\<close>

datatype path_component = RootDir | CurDir | ParentDir | Normal string

text \<open>
  Repeated separators and \<open>.\<close> components are dropped, except a leading \<open>.\<close> of a relative path.
\<close>

definition piece_component :: "string \<Rightarrow> path_component list" where
  "piece_component w =
     (if w = [] \<or> w = ''.'' then [] else if w = ''..'' then [ParentDir] else [Normal w])"

definition path_components :: "string \<Rightarrow> path_component list" where
  "path_components s =
     (let pieces = split_on (CHR ''/'') s;
          head = (if starts_with ''/'' s then [RootDir] else if hd pieces = ''.'' then [CurDir] else [])
      in head @ concat (map piece_component pieces))"

fun strip_components :: "path_component list \<Rightarrow> path_component list \<Rightarrow> path_component list option" where
  "strip_components [] cs = Some cs"
| "strip_components (r # rs) [] = None"
| "strip_components (r # rs) (c # cs) = (if r = c then strip_components rs cs else None)"

section \<open>Aliases and layout roots\<close>

type_synonym alias_table = "(string, string) omap"

datatype alias_error = EmptyPathKey | EmptyLogicalName string | AbsoluteLogicalName string string

fun alias_check :: "(string, string) omap \<Rightarrow> alias_error option" where
  "alias_check [] = None"
| "alias_check ((path, name) # rest) =
     (if path = [] then Some EmptyPathKey
      else if name = [] then Some (EmptyLogicalName path)
      else if starts_with ''/'' name then Some (AbsoluteLogicalName name path)
      else alias_check rest)"

definition alias_new :: "(string, string) omap \<Rightarrow> alias_error + alias_table" where
  "alias_new entries = (case alias_check entries of Some e \<Rightarrow> Inl e | None \<Rightarrow> Inr entries)"

definition alias_resolve :: "alias_table \<Rightarrow> string \<Rightarrow> string option" where
  "alias_resolve t working_dir = om_get t working_dir"

record layout_roots =
  lr_repositories :: "string option"
  lr_worktrees :: "string option"
  lr_ignore :: "string list"

definition layout_is_empty :: "layout_roots \<Rightarrow> bool" where
  "layout_is_empty l \<longleftrightarrow> lr_repositories l = None \<and> lr_worktrees l = None \<and> lr_ignore l = []"

definition has_root :: "layout_roots \<Rightarrow> bool" where
  "has_root l \<longleftrightarrow> lr_repositories l \<noteq> None \<or> lr_worktrees l \<noteq> None"

definition is_configured_root :: "layout_roots \<Rightarrow> string \<Rightarrow> bool" where
  "is_configured_root l working_dir \<longleftrightarrow>
     list_ex (\<lambda>root. case root of None \<Rightarrow> False | Some r \<Rightarrow> path_components r = path_components working_dir)
       [lr_repositories l, lr_worktrees l]"

definition is_ignored :: "layout_roots \<Rightarrow> string \<Rightarrow> bool" where
  "is_ignored l name \<longleftrightarrow> list_ex (\<lambda>i. i = name) (lr_ignore l)"

definition first_segment_after_root :: "string \<Rightarrow> string \<Rightarrow> string option" where
  "first_segment_after_root root working_dir =
     (if working_dir = [] then None
      else case strip_components (path_components root) (path_components working_dir) of
             None \<Rightarrow> None
           | Some relative \<Rightarrow>
               (case relative of
                  Normal segment # _ \<Rightarrow> if segment = [] then None else Some segment
                | _ \<Rightarrow> None))"

definition layout_repository_name :: "layout_roots \<Rightarrow> string \<Rightarrow> string option" where
  "layout_repository_name l working_dir =
     (if is_configured_root l working_dir then None
      else
        let under = (\<lambda>root. case root of None \<Rightarrow> None | Some r \<Rightarrow> first_segment_after_root r working_dir)
        in case under (lr_worktrees l) of
             Some name \<Rightarrow> Some name
           | None \<Rightarrow> under (lr_repositories l))"

definition valid_layout_repository_name :: "string \<Rightarrow> bool" where
  "valid_layout_repository_name name \<longleftrightarrow>
     name \<noteq> [] \<and> \<not> starts_with ''/'' name \<and> \<not> starts_with ''.'' name"

definition layout_rejected_repository_name :: "layout_roots \<Rightarrow> string \<Rightarrow> string option" where
  "layout_rejected_repository_name l working_dir =
     (case layout_repository_name l working_dir of
        Some name \<Rightarrow> if starts_with ''.'' name then Some name else None
      | None \<Rightarrow> None)"

section \<open>Resolution\<close>

definition unknown_project :: string where "unknown_project = ''unknown-project''"
definition unknown_repository :: string where "unknown_repository = ''unknown-repository''"

definition resolve_project :: "alias_table \<Rightarrow> string option \<Rightarrow> string" where
  "resolve_project aliases working_dir =
     (case Option.bind working_dir (alias_resolve aliases) of
        Some name \<Rightarrow> name
      | None \<Rightarrow> unknown_project)"

definition resolve_repository :: "alias_table \<Rightarrow> string option \<Rightarrow> string" where
  "resolve_repository aliases working_dir =
     (case Option.bind working_dir (alias_resolve aliases) of
        Some name \<Rightarrow> name
      | None \<Rightarrow> unknown_repository)"

definition resolve_repository_with_layout :: "alias_table \<Rightarrow> layout_roots \<Rightarrow> string option \<Rightarrow> string" where
  "resolve_repository_with_layout aliases l working_dir =
     (case working_dir of
        None \<Rightarrow> unknown_repository
      | Some dir \<Rightarrow>
          if dir = [] then unknown_repository
          else case alias_resolve aliases dir of
                 Some name \<Rightarrow> name
               | None \<Rightarrow>
                   (case layout_repository_name l dir of
                      Some name \<Rightarrow>
                        if is_ignored l name then unknown_repository
                        else if valid_layout_repository_name name then name
                        else unknown_repository
                    | None \<Rightarrow> unknown_repository))"

definition resolve_project_with_layout ::
    "alias_table \<Rightarrow> alias_table \<Rightarrow> layout_roots \<Rightarrow> string option \<Rightarrow> string" where
  "resolve_project_with_layout projects repositories l working_dir =
     (case working_dir of
        None \<Rightarrow> unknown_project
      | Some dir \<Rightarrow>
          if dir = [] then unknown_project
          else case alias_resolve projects dir of
                 Some name \<Rightarrow> name
               | None \<Rightarrow>
                   if \<not> has_root l then unknown_project
                   else
                     let repository = resolve_repository_with_layout repositories l (Some dir)
                     in if repository = unknown_repository then unknown_project else repository)"

type_synonym session_key = "string \<times> string"

definition observe_directory ::
    "(session_key, string option) omap \<times> session_key set \<Rightarrow> session_key \<times> string option \<Rightarrow>
     (session_key, string option) omap \<times> session_key set" where
  "observe_directory st obs =
     (case (st, obs) of
        ((first, changed), (session, directory0)) \<Rightarrow>
          let directory = (case directory0 of Some d \<Rightarrow> if d = [] then None else Some d | None \<Rightarrow> None)
          in case om_get first session of
               None \<Rightarrow> (om_insert session directory first, changed)
             | Some stored \<Rightarrow>
                 (case (stored, directory) of
                    (None, Some d) \<Rightarrow> (om_insert session (Some d) first, changed)
                  | (Some kept, Some stated) \<Rightarrow>
                      if kept \<noteq> stated then (first, insert session changed) else (first, changed)
                  | _ \<Rightarrow> (first, changed)))"

definition first_working_directories ::
    "(session_key \<times> string option) list \<Rightarrow> (session_key, string option) omap \<times> u64" where
  "first_working_directories observed =
     (case foldl observe_directory ([], {}) observed of (first, changed) \<Rightarrow> (first, card changed))"

section \<open>Timelines\<close>

record session_timeline =
  st_session :: session_id
  st_start :: utc_timestamp
  st_end :: "utc_timestamp option"

definition derive_session_bounds :: "utc_timestamp list \<Rightarrow> (utc_timestamp \<times> utc_timestamp option) option" where
  "derive_session_bounds events =
     (case events of
        [] \<Rightarrow> None
      | t # ts \<Rightarrow> Some (foldl min t ts, Some (foldl max t ts)))"

definition session_key :: "session_id \<Rightarrow> session_key" where
  "session_key s = (si_source s, si_native s)"

definition group_by_session :: "(session_id \<times> utc_timestamp) list \<Rightarrow> (session_key, utc_timestamp list) omap" where
  "group_by_session events =
     foldl (\<lambda>m (session, at). om_upd (session_key session) [] (\<lambda>ts. ts @ [at]) m) [] events"

definition build_timelines :: "(session_id \<times> utc_timestamp) list \<Rightarrow> session_timeline list" where
  "build_timelines events =
     List.map_filter
       (\<lambda>((source, native), times).
          case derive_session_bounds times of
            None \<Rightarrow> None
          | Some (start, end_) \<Rightarrow>
              Some \<lparr>st_session = \<lparr>si_source = source, si_native = native\<rparr>, st_start = start, st_end = end_\<rparr>)
       (group_by_session events)"

definition count_events_by_project ::
    "(session_id \<times> utc_timestamp) list \<Rightarrow> (session_id \<Rightarrow> string option option) \<Rightarrow> alias_table \<Rightarrow> alias_table \<Rightarrow>
     layout_roots \<Rightarrow> (string, nat) omap" where
  "count_events_by_project events working_dirs projects repositories l =
     foldl (\<lambda>counts (session, at).
        let working_dir = Option.bind (working_dirs session) id;
            key = resolve_project_with_layout projects repositories l working_dir
        in om_upd key 0 (\<lambda>n. n + 1) counts) [] events"

text \<open>The rows the rebuild path derives, before they replace the stored ones.\<close>

record new_session =
  ns_session :: session_id
  ns_start :: utc_timestamp
  ns_end :: "utc_timestamp option"
  ns_project_key :: string
  ns_repository_key :: string
  ns_working_directory :: "string option"

definition rebuilt_sessions ::
    "(session_id \<times> utc_timestamp) list \<Rightarrow> (session_id \<Rightarrow> string option option) \<Rightarrow> alias_table \<Rightarrow> alias_table \<Rightarrow>
     layout_roots \<Rightarrow> new_session list" where
  "rebuilt_sessions events working_dirs projects repositories l =
     map (\<lambda>t.
        let working_dir = (case Option.bind (working_dirs (st_session t)) id of
                             Some d \<Rightarrow> if d = [] then None else Some d
                           | None \<Rightarrow> None)
        in \<lparr>ns_session = st_session t, ns_start = st_start t, ns_end = st_end t,
            ns_project_key = resolve_project_with_layout projects repositories l working_dir,
            ns_repository_key = resolve_repository_with_layout repositories l working_dir,
            ns_working_directory = working_dir\<rparr>)
       (build_timelines events)"

section \<open>Properties of resolution\<close>

definition logical_name :: "string \<Rightarrow> bool" where
  "logical_name name \<longleftrightarrow> name \<noteq> [] \<and> \<not> starts_with ''/'' name"

lemma alias_check_logical:
  "alias_check entries = None \<Longrightarrow> (path, name) \<in> set entries \<Longrightarrow> logical_name name \<and> path \<noteq> []"
  by (induction entries rule: alias_check.induct) (auto simp: logical_name_def split: if_splits)

lemma alias_resolve_logical:
  assumes "alias_new entries = Inr t" "alias_resolve t dir = Some name"
  shows "logical_name name"
proof -
  have "(dir, name) \<in> set t" using assms(2) by (simp add: alias_resolve_def om_get_def map_of_SomeD)
  then show ?thesis
    using assms(1) alias_check_logical by (auto simp: alias_new_def split: option.splits)
qed

lemma unknown_logical: "logical_name unknown_project" "logical_name unknown_repository"
  by (simp_all add: logical_name_def unknown_project_def unknown_repository_def starts_with_def)

lemma resolve_repository_cases:
  "resolve_repository_with_layout aliases l wd = unknown_repository \<or>
   (\<exists>dir. wd = Some dir \<and> alias_resolve aliases dir = Some (resolve_repository_with_layout aliases l wd)) \<or>
   (\<exists>dir. wd = Some dir \<and> alias_resolve aliases dir = None \<and>
      layout_repository_name l dir = Some (resolve_repository_with_layout aliases l wd) \<and>
      valid_layout_repository_name (resolve_repository_with_layout aliases l wd) \<and>
      \<not> is_ignored l (resolve_repository_with_layout aliases l wd))"
  by (auto simp: resolve_repository_with_layout_def split: option.splits)

lemma resolve_repository_logical:
  assumes "alias_new re = Inr repositories"
  shows "logical_name (resolve_repository_with_layout repositories l wd)"
  using resolve_repository_cases [of repositories l wd] alias_resolve_logical [OF assms] unknown_logical
  by (auto simp: valid_layout_repository_name_def logical_name_def)

text \<open>
  No machine path reaches a report: with alias tables that were accepted, the project and the
  repository of any working directory are non-empty names that are not absolute paths; and a
  repository that no alias names is the unknown bucket or a name under a configured root that is
  neither dot-named nor on the ignore list.
\<close>

theorem report_identity_is_logical:
  assumes "alias_new pe = Inr projects" "alias_new re = Inr repositories"
  shows "logical_name (resolve_project_with_layout projects repositories l wd) \<and>
    logical_name (resolve_repository_with_layout repositories l wd) \<and>
    (Option.bind wd (alias_resolve repositories) = None \<longrightarrow>
       (let r = resolve_repository_with_layout repositories l wd
        in r = unknown_repository \<or> \<not> starts_with ''.'' r \<and> \<not> is_ignored l r \<and>
           (\<exists>dir. wd = Some dir \<and> layout_repository_name l dir = Some r)))"
proof (intro conjI impI)
  show "logical_name (resolve_project_with_layout projects repositories l wd)"
    using alias_resolve_logical [OF assms(1)] resolve_repository_logical [OF assms(2), of l wd] unknown_logical
    by (auto simp: resolve_project_with_layout_def Let_def split: option.split)
  show "logical_name (resolve_repository_with_layout repositories l wd)"
    by (rule resolve_repository_logical [OF assms(2)])
  assume "Option.bind wd (alias_resolve repositories) = None"
  then show "let r = resolve_repository_with_layout repositories l wd
     in r = unknown_repository \<or> \<not> starts_with ''.'' r \<and> \<not> is_ignored l r \<and>
        (\<exists>dir. wd = Some dir \<and> layout_repository_name l dir = Some r)"
    using resolve_repository_cases [of repositories l wd]
    by (auto simp: Let_def valid_layout_repository_name_def)
qed

text \<open>The layout of the code's own comment: the worktrees sit inside the repositories root.\<close>

definition sample_layout :: layout_roots where
  "sample_layout = \<lparr>lr_repositories = Some ''/r'', lr_worktrees = Some ''/r/.w'', lr_ignore = [''x'']\<rparr>"

lemmas layout_eval =
  sample_layout_def layout_repository_name_def is_configured_root_def first_segment_after_root_def
  path_components_def piece_component_def split_on_def starts_with_def

lemma sample_layout_names:
  "layout_repository_name sample_layout ''/r/.w/a/t'' = Some ''a''"
  "layout_repository_name sample_layout ''/r/b/src'' = Some ''b''"
  "layout_repository_name sample_layout ''/r/.w'' = None"
  by (simp_all add: layout_eval)

theorem report_identity_is_logical_witness:
  "resolve_repository_with_layout [] sample_layout (Some ''/r/.w/a/t'') = ''a'' \<and>
   logical_name ''a'' \<and> \<not> starts_with ''.'' ''a''"
proof -
  have r: "resolve_repository_with_layout [] sample_layout (Some ''/r/.w/a/t'') = ''a''"
    using sample_layout_names(1)
    by (simp add: resolve_repository_with_layout_def alias_resolve_def is_ignored_def valid_layout_repository_name_def
        sample_layout_def starts_with_def)
  have "alias_new [] = Inr []" by (simp add: alias_new_def)
  from report_identity_is_logical [OF this this, of sample_layout "Some ''/r/.w/a/t''"]
  show ?thesis
    by (simp add: r alias_resolve_def starts_with_def unknown_repository_def)
qed

section \<open>Properties of timelines and totals\<close>

lemma om_get_below: "om_ok ((a, b) # m) \<Longrightarrow> k < a \<Longrightarrow> om_get ((a, b) # m) k = None"
  by (force simp: om_ok_def om_get_def map_of_eq_None_iff)

lemma sum_om_insert:
  fixes m :: "('k::linorder, nat) omap"
  assumes "om_ok m"
  shows "sum_list (map snd (om_insert k v m)) + (case om_get m k of None \<Rightarrow> 0 | Some w \<Rightarrow> w) = v + sum_list (map snd m)"
  using assms
proof (induction m)
  case Nil
  then show ?case by (simp add: om_get_def)
next
  case (Cons p m)
  obtain a b where p: "p = (a, b)" by (cases p)
  have m: "om_ok m" using Cons.prems by (simp add: om_ok_def)
  consider "k < a" | "k = a" | "a < k" by (rule linorder_cases)
  then show ?case
  proof cases
    case 1
    then show ?thesis using om_get_below [of a b m k] Cons.prems p by simp
  next
    case 2
    then show ?thesis by (simp add: p om_get_def)
  next
    case 3
    then have "\<not> k < a" "k \<noteq> a" by auto
    then show ?thesis using Cons.IH [OF m] by (simp add: p om_get_def)
  qed
qed

lemma sum_om_upd:
  assumes "om_ok m"
  shows "sum_list (map snd (om_upd k 0 Suc m)) = Suc (sum_list (map snd m))"
proof (cases "om_get m k")
  case None
  then show ?thesis using sum_om_insert [OF assms, of k 1] by (simp add: om_upd_def)
next
  case (Some w)
  then show ?thesis using sum_om_insert [OF assms, of k "Suc w"] by (simp add: om_upd_def)
qed

lemma count_fold:
  fixes f :: "'e \<Rightarrow> 'k::linorder"
  defines "tally xs \<equiv> foldl (\<lambda>m e. om_upd (f e) 0 Suc m) [] xs"
  shows "om_ok (tally xs)" "sum_list (map snd (tally xs)) = length xs"
    "om_get (tally xs) k =
      (let n = length (filter (\<lambda>e. f e = k) xs) in if n = 0 then None else Some n)"
proof (induction xs rule: rev_induct)
  case (snoc e xs)
  have step: "tally (xs @ [e]) = om_upd (f e) 0 Suc (tally xs)" by (simp add: tally_def)
  { case 1 show ?case using snoc(1) by (simp add: step) }
  { case 2 show ?case using sum_om_upd [OF snoc(1)] snoc(2) by (simp add: step) }
  { case 3 show ?case using snoc(1,3) by (auto simp: step Let_def split: if_splits) }
qed (simp_all add: tally_def)

text \<open>
  Unmapped work stays inside the totals: counting events by project puts every event into
  exactly one bucket, the unknown one included, so the counts sum to the number of events; and
  the count of a project is the number of events that resolve to it.
\<close>

theorem project_counts_cover_every_event:
  "sum_list (map snd (count_events_by_project events dirs projects repositories l)) = length events \<and>
   om_get (count_events_by_project events dirs projects repositories l) key =
     (let n = length (filter (\<lambda>(s, at).
          resolve_project_with_layout projects repositories l (Option.bind (dirs s) id) = key) events)
      in if n = 0 then None else Some n)"
proof -
  let ?key = "\<lambda>e. resolve_project_with_layout projects repositories l (Option.bind (dirs (fst e)) id)"
  have fold: "count_events_by_project events dirs projects repositories l =
      foldl (\<lambda>m e. om_upd (?key e) 0 Suc m) [] events"
    by (simp add: count_events_by_project_def Let_def split_def Suc_eq_plus1 [symmetric] del: Suc_eq_plus1)
  show ?thesis
    unfolding fold split_def
    using count_fold(2) [where f = ?key and xs = events] count_fold(3) [where f = ?key and xs = events and k = key]
    by (rule conjI)
qed

lemma foldl_min: "foldl min a ts \<le> a \<and> (\<forall>t\<in>set ts. foldl min a ts \<le> t) \<and> foldl min a ts \<in> set (a # ts)"
  for a :: int
  by (induction ts rule: rev_induct) (auto simp: min_def)

lemma foldl_max: "a \<le> foldl max a ts \<and> (\<forall>t\<in>set ts. t \<le> foldl max a ts) \<and> foldl max a ts \<in> set (a # ts)"
  for a :: int
  by (induction ts rule: rev_induct) (auto simp: max_def)

lemma derive_session_bounds_spec:
  "derive_session_bounds ts = Some (start, Some stop) \<longleftrightarrow>
     ts \<noteq> [] \<and> start \<in> set ts \<and> stop \<in> set ts \<and> (\<forall>t\<in>set ts. start \<le> t \<and> t \<le> stop)"
proof (cases ts)
  case (Cons t rest)
  have "derive_session_bounds ts = Some (foldl min t rest, Some (foldl max t rest))"
    using Cons by (simp add: derive_session_bounds_def)
  then show ?thesis
    using foldl_min [of t rest] foldl_max [of t rest] Cons by (auto intro: order_antisym)
qed (simp add: derive_session_bounds_def)

lemma get_group_by_session:
  "om_ok (group_by_session events) \<and>
   om_get (group_by_session events) k =
     (case map snd (filter (\<lambda>(s, at). session_key s = k) events) of [] \<Rightarrow> None | ts \<Rightarrow> Some ts)"
proof (induction events rule: rev_induct)
  case Nil
  then show ?case by (simp add: group_by_session_def)
next
  case (snoc e events)
  obtain s t where e: "e = (s, t)" by (cases e)
  have step: "group_by_session (events @ [e]) = om_upd (session_key s) [] (\<lambda>ts. ts @ [t]) (group_by_session events)"
    by (simp add: group_by_session_def e)
  show ?case unfolding step using snoc e by (auto split: list.splits)
qed

lemma set_map_filter_iff: "y \<in> set (List.map_filter f xs) \<longleftrightarrow> (\<exists>x \<in> set xs. f x = Some y)"
  by (induction xs) (auto simp: map_filter_simps split: option.splits)

lemma timeline_row:
  "(case derive_session_bounds ts of
       None \<Rightarrow> None
     | Some (start, stop) \<Rightarrow>
         Some \<lparr>st_session = \<lparr>si_source = source, si_native = native\<rparr>, st_start = start, st_end = stop\<rparr>) = Some tm \<longleftrightarrow>
   session_key (st_session tm) = (source, native) \<and> derive_session_bounds ts = Some (st_start tm, st_end tm)"
  by (cases tm; cases "st_session tm") (auto simp: session_key_def split: option.splits)

lemma set_build_timelines:
  "tm \<in> set (build_timelines events) \<longleftrightarrow>
     (\<exists>ts. om_get (group_by_session events) (session_key (st_session tm)) = Some ts \<and>
        derive_session_bounds ts = Some (st_start tm, st_end tm))"
proof -
  have ok: "om_ok (group_by_session events)" using get_group_by_session by blast
  have "tm \<in> set (build_timelines events) \<longleftrightarrow>
      (\<exists>(k, ts) \<in> set (group_by_session events). session_key (st_session tm) = k \<and>
         derive_session_bounds ts = Some (st_start tm, st_end tm))"
    unfolding build_timelines_def set_map_filter_iff
    by (rule bex_cong [OF refl]) (simp add: timeline_row split: prod.split)
  then show ?thesis by (auto simp: om_ok_get_iff [OF ok])
qed

lemma session_key_inject [simp]: "session_key s = session_key s' \<longleftrightarrow> s = s'"
  by (cases s; cases s') (auto simp: session_key_def)

lemma group_member:
  assumes "(s, t) \<in> set events"
  obtains ts where "om_get (group_by_session events) (session_key s) = Some ts" "t \<in> set ts"
proof -
  have "t \<in> set (map snd (filter (\<lambda>(s', at). session_key s' = session_key s) events))"
    using assms by force
  then obtain t' ts' where "map snd (filter (\<lambda>(s', at). session_key s' = session_key s) events) = t' # ts'"
      "t \<in> set (t' # ts')"
    by (metis list.exhaust list.set_cases)
  then show thesis using get_group_by_session [of events "session_key s"] that by (simp only: list.case)
qed

lemma group_times:
  assumes "om_get (group_by_session events) (session_key s) = Some ts" "t \<in> set ts"
  shows "(s, t) \<in> set events"
proof -
  have "ts = map snd (filter (\<lambda>(s', at). session_key s' = session_key s) events)"
    using assms(1) get_group_by_session [of events "session_key s"] by (auto split: list.splits)
  then show ?thesis using assms(2) by force
qed

lemma timeline_bounds_are_events:
  assumes "tm \<in> set (build_timelines events)"
  shows "(st_session tm, st_start tm) \<in> set events \<and>
    (\<exists>stop. st_end tm = Some stop \<and> (st_session tm, stop) \<in> set events)"
proof -
  obtain ts where ts: "om_get (group_by_session events) (session_key (st_session tm)) = Some ts"
    "derive_session_bounds ts = Some (st_start tm, st_end tm)"
    using assms by (auto simp: set_build_timelines)
  have "st_end tm \<noteq> None" using ts(2) by (cases ts) (auto simp: derive_session_bounds_def dest: sym)
  then obtain stop where stop: "st_end tm = Some stop" by blast
  have "st_start tm \<in> set ts" "stop \<in> set ts"
    using ts(2) unfolding stop derive_session_bounds_spec by auto
  then show ?thesis using group_times [OF ts(1)] stop by blast
qed

text \<open>
  A timeline is exactly the span of its session's events: every event lies within the timeline
  of its own session, whose bounds are attained by events of that session; no session has two, and
  no timeline stands for a session without events.
\<close>

theorem timelines_span_their_events:
  "(\<forall>(s, at) \<in> set events. \<exists>!tm. tm \<in> set (build_timelines events) \<and> st_session tm = s \<and> st_start tm \<le> at \<and>
      (\<exists>stop. st_end tm = Some stop \<and> at \<le> stop)) \<and>
   (\<forall>tm \<in> set (build_timelines events).
      (st_session tm, st_start tm) \<in> set events \<and>
      (\<exists>stop. st_end tm = Some stop \<and> (st_session tm, stop) \<in> set events))"
proof (intro conjI ballI)
  fix e assume e: "e \<in> set events"
  obtain s t where st: "e = (s, t)" by (cases e)
  obtain ts where ts: "om_get (group_by_session events) (session_key s) = Some ts" "t \<in> set ts"
    using group_member e st by blast
  obtain start stop where b: "derive_session_bounds ts = Some (start, Some stop)"
    using ts(2) by (cases ts) (auto simp: derive_session_bounds_def)
  have within: "start \<le> t" "t \<le> stop" using b ts(2) unfolding derive_session_bounds_spec by auto
  have "\<exists>!tm. tm \<in> set (build_timelines events) \<and> st_session tm = s \<and> st_start tm \<le> t \<and>
      (\<exists>stop. st_end tm = Some stop \<and> t \<le> stop)"
  proof (rule ex1I [of _ "\<lparr>st_session = s, st_start = start, st_end = Some stop\<rparr>"])
    show "\<lparr>st_session = s, st_start = start, st_end = Some stop\<rparr> \<in> set (build_timelines events) \<and>
        st_session \<lparr>st_session = s, st_start = start, st_end = Some stop\<rparr> = s \<and>
        st_start \<lparr>st_session = s, st_start = start, st_end = Some stop\<rparr> \<le> t \<and>
        (\<exists>stop'. st_end \<lparr>st_session = s, st_start = start, st_end = Some stop\<rparr> = Some stop' \<and> t \<le> stop')"
      using ts(1) b within by (simp add: set_build_timelines)
  next
    fix tm assume "tm \<in> set (build_timelines events) \<and> st_session tm = s \<and> st_start tm \<le> t \<and>
      (\<exists>stop. st_end tm = Some stop \<and> t \<le> stop)"
    then show "tm = \<lparr>st_session = s, st_start = start, st_end = Some stop\<rparr>"
      using ts(1) b by (cases tm) (auto simp: set_build_timelines)
  qed
  then show "case e of (s, at) \<Rightarrow> \<exists>!tm. tm \<in> set (build_timelines events) \<and> st_session tm = s \<and> st_start tm \<le> at \<and>
      (\<exists>stop. st_end tm = Some stop \<and> at \<le> stop)" by (simp add: st)
next
  fix tm assume "tm \<in> set (build_timelines events)"
  then show "(st_session tm, st_start tm) \<in> set events" using timeline_bounds_are_events by blast
next
  fix tm assume "tm \<in> set (build_timelines events)"
  then show "\<exists>stop. st_end tm = Some stop \<and> (st_session tm, stop) \<in> set events"
    using timeline_bounds_are_events by blast
qed

theorem timelines_span_their_events_witness:
  "let s = \<lparr>si_source = ''claude'', si_native = ''x''\<rparr>; events = [(s, 5), (s, 3), (s, 9)]
   in build_timelines events = [\<lparr>st_session = s, st_start = 3, st_end = Some 9\<rparr>] \<and>
      (\<exists>tm \<in> set (build_timelines events). st_start tm \<le> 5 \<and> (st_session tm, st_start tm) \<in> set events)"
proof -
  let ?s = "\<lparr>si_source = ''claude'', si_native = ''x''\<rparr>"
  let ?ev = "[(?s, 5), (?s, 3), (?s, 9)] :: (session_id \<times> utc_timestamp) list"
  have b: "build_timelines ?ev = [\<lparr>st_session = ?s, st_start = 3, st_end = Some 9\<rparr>]"
    by (simp add: build_timelines_def group_by_session_def session_key_def om_upd_def om_get_def
        derive_session_bounds_def map_filter_def)
  have "(?s, 5) \<in> set ?ev" by simp
  from bspec [OF conjunct1 [OF timelines_span_their_events [of ?ev]] this]
  obtain tm where "tm \<in> set (build_timelines ?ev)" "st_start tm \<le> 5" by (simp only: prod.case) blast
  then show ?thesis by (auto simp: b Let_def)
qed

end
