(* ===== verification/Meter_Coverage.thy ===== *)
theory Meter_Coverage
  imports Due
begin

text \<open>
  \<open>src/coverage.rs\<close>: the sampling opportunities a policy owed over an interval, the attempts and
  observations that happened, and the gaps between them. A \<open>None\<close> of the outer option is a panic
  (a division by a zero cadence). \<open>CoverageFraction\<close> is an \<open>f64\<close> quotient in the code; here it keeps
  the two counts the quotient is taken of. Also the policy string \<open>src/cli.rs\<close> records and this
  module reads back. Rendering the report is outside.
\<close>

section \<open>Records\<close>

record policy_snapshot =
  ps_effective_at :: utc_timestamp
  ps_ordinary_cadence :: monotonic_duration
  ps_retry_backoff_policy :: string

record attempt_result_record =
  arr_finished_at :: utc_timestamp
  arr_retry_after :: "monotonic_duration option"
  arr_is_auth_required :: bool

record attempt_record =
  at_started_at :: utc_timestamp
  at_result :: "attempt_result_record option"
  at_credential_changed :: bool

record coverage_inputs =
  ci_interval_start :: utc_timestamp
  ci_interval_end :: utc_timestamp
  ci_policy_snapshots :: "policy_snapshot list"
  ci_attempts :: "attempt_record list"
  ci_observations :: "utc_timestamp list"
  ci_resets :: "utc_timestamp list"
  ci_timer_runs :: "utc_timestamp list"

record coverage_fraction =
  cf_numerator :: u64
  cf_denominator :: u64

definition coverage_fraction_new :: "u64 \<Rightarrow> u64 \<Rightarrow> coverage_fraction option" where
  "coverage_fraction_new numerator denominator =
     (if denominator = 0 then None
      else Some \<lparr>cf_numerator = numerator, cf_denominator = denominator\<rparr>)"

record gap =
  gap_start :: utc_timestamp
  gap_end :: utc_timestamp

definition gap_duration :: "gap \<Rightarrow> monotonic_duration" where
  "gap_duration g = nat (max 0 (wrap_i64 (gap_end g - gap_start g)))"

definition gap_spans :: "gap \<Rightarrow> utc_timestamp \<Rightarrow> bool" where
  "gap_spans g reset \<longleftrightarrow> gap_start g \<le> reset \<and> reset \<le> gap_end g"

record coverage_report =
  cr_expected_opportunities :: "u64 option"
  cr_policy_covered_span :: "monotonic_duration option"
  cr_attempted_opportunities :: u64
  cr_successful_observations :: u64
  cr_started_without_terminal_result :: u64
  cr_attempt_coverage :: "coverage_fraction option"
  cr_measurement_coverage :: "coverage_fraction option"
  cr_longest_no_attempt_gap :: "gap option"
  cr_longest_no_observation_gap :: "gap option"
  cr_reset_spanning_gaps :: "gap list"
  cr_most_recent_timer_run :: "utc_timestamp option"
  cr_most_recent_successful_observation :: "utc_timestamp option"
  cr_severe :: bool

definition hole_tolerance :: monotonic_duration where "hole_tolerance = from_seconds 60"
definition reset_dedup_window :: monotonic_duration where "reset_dedup_window = from_seconds 5"

record postponement =
  pp_start :: utc_timestamp
  pp_end :: utc_timestamp

section \<open>Policies in force\<close>

definition in_force :: "policy_snapshot list \<Rightarrow> utc_timestamp \<Rightarrow> policy_snapshot option" where
  "in_force snapshots at = find (\<lambda>s. ps_effective_at s \<le> at) (rev snapshots)"

definition cadence_at :: "policy_snapshot list \<Rightarrow> utc_timestamp \<Rightarrow> monotonic_duration option" where
  "cadence_at snapshots at = map_option ps_ordinary_cadence (in_force snapshots at)"

definition parse_capped_retry_after_policy :: "string \<Rightarrow> monotonic_duration option" where
  "parse_capped_retry_after_policy txt =
     (let first = (case split_whitespace txt of [] \<Rightarrow> txt | w # _ \<Rightarrow> w)
      in case strip_prefix ''retry-after-capped-'' first of
           None \<Rightarrow> None
         | Some r \<Rightarrow>
             (case strip_suffix ''s'' r of
                None \<Rightarrow> None
              | Some digits \<Rightarrow> map_option from_seconds (parse_u64 digits)))"

definition parse_auth_backoff_policy :: "string \<Rightarrow> (u32 \<times> monotonic_duration) option" where
  "parse_auth_backoff_policy txt =
     (case find (starts_with ''auth-'') (split_whitespace txt) of
        None \<Rightarrow> None
      | Some segment \<Rightarrow>
          (case strip_prefix ''auth-'' segment of
             None \<Rightarrow> None
           | Some r \<Rightarrow>
               (case strip_suffix ''s'' r of
                  None \<Rightarrow> None
                | Some body \<Rightarrow>
                    (case split_once (CHR ''-'') body of
                       None \<Rightarrow> None
                     | Some (threshold, cap_secs) \<Rightarrow>
                         (case parse_u32 threshold of
                            None \<Rightarrow> None
                          | Some t \<Rightarrow>
                              if t = 0 then None
                              else (case parse_u64 cap_secs of
                                      None \<Rightarrow> None
                                    | Some secs \<Rightarrow> Some (t, from_seconds secs)))))))"

definition retry_after_cap_at :: "policy_snapshot list \<Rightarrow> utc_timestamp \<Rightarrow> monotonic_duration option" where
  "retry_after_cap_at snapshots at =
     (case in_force snapshots at of
        None \<Rightarrow> None
      | Some s \<Rightarrow> parse_capped_retry_after_policy (ps_retry_backoff_policy s))"

definition auth_backoff_at :: "policy_snapshot list \<Rightarrow> utc_timestamp \<Rightarrow> (u32 \<times> monotonic_duration) option" where
  "auth_backoff_at snapshots at =
     (case in_force snapshots at of
        None \<Rightarrow> None
      | Some s \<Rightarrow> parse_auth_backoff_policy (ps_retry_backoff_policy s))"

text \<open>The three sampling settings the recorded policy string is made of, and the string.\<close>

record hold_settings =
  hs_retry_after_cap :: monotonic_duration
  hs_auth_backoff_threshold :: u32
  hs_auth_backoff_cap :: monotonic_duration

definition retry_backoff_snapshot_string :: "hold_settings \<Rightarrow> string" where
  "retry_backoff_snapshot_string c =
     ''retry-after-capped-'' @ show_nat (hs_retry_after_cap c div 1000000000) @ ''s auth-'' @
     show_nat (hs_auth_backoff_threshold c) @ ''-'' @ show_nat (hs_auth_backoff_cap c div 1000000000) @ ''s''"

section \<open>Postponements\<close>

definition retry_hold :: "policy_snapshot list \<Rightarrow> monotonic_duration \<Rightarrow> attempt_result_record \<Rightarrow> postponement list" where
  "retry_hold snapshots cadence r =
     (case arr_retry_after r of
        None \<Rightarrow> []
      | Some retry_after \<Rightarrow>
          let effective = (case retry_after_cap_at snapshots (arr_finished_at r) of
                             Some cap \<Rightarrow> min retry_after cap
                           | None \<Rightarrow> retry_after)
          in if effective > cadence
             then [\<lparr>pp_start = arr_finished_at r, pp_end = plus_nanos (arr_finished_at r) effective\<rparr>]
             else [])"

definition auth_hold ::
    "policy_snapshot list \<Rightarrow> monotonic_duration \<Rightarrow> attempt_result_record \<Rightarrow> u32 \<Rightarrow> postponement list" where
  "auth_hold snapshots cadence r auth_streak =
     (if arr_is_auth_required r
      then (case auth_backoff_at snapshots (arr_finished_at r) of
              None \<Rightarrow> []
            | Some (threshold, cap) \<Rightarrow>
                (case auth_backoff_delay cadence threshold cap auth_streak False of
                   None \<Rightarrow> []
                 | Some delay \<Rightarrow>
                     if delay > cadence
                     then [\<lparr>pp_start = arr_finished_at r, pp_end = plus_nanos (arr_finished_at r) delay\<rparr>]
                     else []))
      else [])"

definition next_streak :: "attempt_record \<Rightarrow> attempt_result_record \<Rightarrow> u32 \<Rightarrow> u32" where
  "next_streak a r streak =
     (if arr_is_auth_required r then sat_add_u32 (if at_credential_changed a then 0 else streak) 1 else 0)"

fun attempt_holds :: "policy_snapshot list \<Rightarrow> u32 \<Rightarrow> attempt_record list \<Rightarrow> postponement list" where
  "attempt_holds snapshots streak [] = []"
| "attempt_holds snapshots streak (a # rest) =
     (case at_result a of
        None \<Rightarrow> attempt_holds snapshots 0 rest
      | Some r \<Rightarrow>
          let auth_streak = next_streak a r streak
          in (case cadence_at snapshots (arr_finished_at r) of
                None \<Rightarrow> []
              | Some cadence \<Rightarrow> retry_hold snapshots cadence r @ auth_hold snapshots cadence r auth_streak) @
             attempt_holds snapshots auth_streak rest)"

fun merge_walk :: "postponement \<Rightarrow> postponement list \<Rightarrow> postponement list" where
  "merge_walk prev [] = [prev]"
| "merge_walk prev (p # ps) =
     (if pp_start p \<le> pp_end prev
      then merge_walk (prev\<lparr>pp_end := max (pp_end prev) (pp_end p)\<rparr>) ps
      else prev # merge_walk p ps)"

definition merge_postponements :: "postponement list \<Rightarrow> postponement list" where
  "merge_postponements intervals =
     (case sort_key (\<lambda>p. (pp_start p, pp_end p)) intervals of
        [] \<Rightarrow> []
      | p # ps \<Rightarrow> merge_walk p ps)"

definition postponements :: "attempt_record list \<Rightarrow> policy_snapshot list \<Rightarrow> postponement list" where
  "postponements attempts snapshots = merge_postponements (attempt_holds snapshots 0 attempts)"

section \<open>The denominator\<close>

definition policy_covered_start :: "utc_timestamp \<Rightarrow> utc_timestamp \<Rightarrow> policy_snapshot list \<Rightarrow> utc_timestamp option" where
  "policy_covered_start start stop snapshots =
     (if cadence_at snapshots start \<noteq> None then Some start
      else
        (case filter (\<lambda>effective. effective > start \<and> effective < stop) (map ps_effective_at snapshots) of
           [] \<Rightarrow> None
         | e # es \<Rightarrow> Some (foldl min e es)))"

fun postponement_overlap :: "utc_timestamp \<Rightarrow> utc_timestamp \<Rightarrow> postponement list \<Rightarrow> u64" where
  "postponement_overlap a b [] = 0"
| "postponement_overlap a b (p # ps) =
     (let overlap_start = max a (pp_start p);
          overlap_end = min b (pp_end p)
      in wrap_u64 ((if overlap_end > overlap_start then i64_as_u64 (wrap_i64 (overlap_end - overlap_start)) else 0) +
           postponement_overlap a b ps))"

definition boundaries :: "utc_timestamp \<Rightarrow> utc_timestamp \<Rightarrow> policy_snapshot list \<Rightarrow> utc_timestamp list" where
  "boundaries covered_start stop snapshots =
     remdups_adj (sort (covered_start # stop #
       filter (\<lambda>e. e > covered_start \<and> e < stop) (map ps_effective_at snapshots)))"

datatype owed_sum = Owed u64 | PolicyUnknown | ZeroCadence

fun owed_over :: "policy_snapshot list \<Rightarrow> postponement list \<Rightarrow> (utc_timestamp \<times> utc_timestamp) list \<Rightarrow> u64 \<Rightarrow> owed_sum" where
  "owed_over snapshots holds [] acc = Owed acc"
| "owed_over snapshots holds ((a, b) # pairs) acc =
     (case cadence_at snapshots a of
        None \<Rightarrow> PolicyUnknown
      | Some cadence \<Rightarrow>
          if cadence = 0 then ZeroCadence
          else
            let duration = nat (max 0 (wrap_i64 (b - a)));
                overlap = postponement_overlap a b holds
            in owed_over snapshots holds pairs (wrap_u64 (acc + (duration - overlap) div cadence)))"

definition expected_opportunities ::
    "utc_timestamp \<Rightarrow> utc_timestamp \<Rightarrow> policy_snapshot list \<Rightarrow> postponement list \<Rightarrow>
     (u64 \<times> monotonic_duration) option option" where
  "expected_opportunities start stop snapshots holds =
     (case policy_covered_start start stop snapshots of
        None \<Rightarrow> Some None
      | Some covered_start \<Rightarrow>
          let covered_span = nat (max 0 (wrap_i64 (stop - covered_start)));
              bs = boundaries covered_start stop snapshots
          in case owed_over snapshots holds (zip bs (tl bs)) 0 of
               Owed owed \<Rightarrow> Some (Some (owed, covered_span))
             | PolicyUnknown \<Rightarrow> Some None
             | ZeroCadence \<Rightarrow> None)"

section \<open>Gaps\<close>

fun gaps :: "utc_timestamp \<Rightarrow> utc_timestamp \<Rightarrow> utc_timestamp list \<Rightarrow> gap list" where
  "gaps prev stop [] = [\<lparr>gap_start = prev, gap_end = stop\<rparr>]"
| "gaps prev stop (t # ts) = \<lparr>gap_start = prev, gap_end = t\<rparr> # gaps t stop ts"

definition longest_gap :: "gap list \<Rightarrow> gap option" where
  "longest_gap gs =
     (case gs of
        [] \<Rightarrow> None
      | g # rest \<Rightarrow> Some (foldl (\<lambda>best g'. if gap_duration g' \<ge> gap_duration best then g' else best) g rest))"

definition is_sampling_hole :: "gap \<Rightarrow> utc_timestamp \<Rightarrow> policy_snapshot list \<Rightarrow> bool" where
  "is_sampling_hole g at snapshots =
     (case cadence_at snapshots at of
        Some cadence \<Rightarrow> gap_duration g > wrap_u64 (cadence + hole_tolerance)
      | None \<Rightarrow> False)"

fun dedup_resets_walk :: "utc_timestamp \<Rightarrow> utc_timestamp list \<Rightarrow> utc_timestamp list" where
  "dedup_resets_walk prev [] = []"
| "dedup_resets_walk prev (r # rs) =
     (if i64_as_u64 (wrap_i64 (r - prev)) \<le> reset_dedup_window
      then dedup_resets_walk prev rs
      else r # dedup_resets_walk r rs)"

definition dedup_resets :: "utc_timestamp list \<Rightarrow> utc_timestamp list" where
  "dedup_resets resets = (case sort resets of [] \<Rightarrow> [] | r # rs \<Rightarrow> r # dedup_resets_walk r rs)"

definition reset_spanning_gaps :: "utc_timestamp list \<Rightarrow> gap list \<Rightarrow> policy_snapshot list \<Rightarrow> gap list" where
  "reset_spanning_gaps resets no_attempt_gaps snapshots =
     (let distinct_resets = dedup_resets resets
      in filter (\<lambda>g. list_ex (\<lambda>r. gap_spans g r \<and> is_sampling_hole g r snapshots) distinct_resets) no_attempt_gaps)"

section \<open>The report\<close>

definition within :: "coverage_inputs \<Rightarrow> utc_timestamp \<Rightarrow> bool" where
  "within inputs t \<longleftrightarrow> ci_interval_start inputs \<le> t \<and> t < ci_interval_end inputs"

definition coverage_compute :: "coverage_inputs \<Rightarrow> coverage_report option" where
  "coverage_compute inputs =
     (let start = ci_interval_start inputs;
          stop = ci_interval_end inputs;
          snapshots = sort_key ps_effective_at (ci_policy_snapshots inputs);
          attempts = sort_key at_started_at (ci_attempts inputs);
          observations = sort (ci_observations inputs);
          resets = sort (ci_resets inputs);
          timer_runs = sort (ci_timer_runs inputs);
          attempt_times = filter (within inputs) (map at_started_at attempts);
          observation_times = filter (within inputs) observations
      in case expected_opportunities start stop snapshots (postponements attempts snapshots) of
           None \<Rightarrow> None
         | Some expected_and_covered \<Rightarrow>
             let expected = map_option fst expected_and_covered;
                 attempted = length attempt_times;
                 successful = length observation_times;
                 unfinished = length (filter (\<lambda>a. within inputs (at_started_at a) \<and> at_result a = None) attempts);
                 since = (case policy_covered_start start stop snapshots of Some s \<Rightarrow> s | None \<Rightarrow> start);
                 no_attempt_gaps = gaps since stop (filter (\<lambda>t. t \<ge> since) attempt_times);
                 no_observation_gaps = gaps since stop (filter (\<lambda>t. t \<ge> since) observation_times);
                 spanning = reset_spanning_gaps resets no_attempt_gaps snapshots;
                 terminal_attempts = attempted - unfinished
             in Some \<lparr>
                  cr_expected_opportunities = expected,
                  cr_policy_covered_span = map_option snd expected_and_covered,
                  cr_attempted_opportunities = attempted,
                  cr_successful_observations = successful,
                  cr_started_without_terminal_result = unfinished,
                  cr_attempt_coverage = Option.bind expected (coverage_fraction_new attempted),
                  cr_measurement_coverage = coverage_fraction_new successful terminal_attempts,
                  cr_longest_no_attempt_gap = longest_gap no_attempt_gaps,
                  cr_longest_no_observation_gap = longest_gap no_observation_gaps,
                  cr_reset_spanning_gaps = spanning,
                  cr_most_recent_timer_run = find (within inputs) (rev timer_runs),
                  cr_most_recent_successful_observation =
                    (if observation_times = [] then None else Some (last observation_times)),
                  cr_severe = (spanning \<noteq> [])\<rparr>)"

end
