(* ===== verification/Meter_Coverage_Laws.thy ===== *)
theory Meter_Coverage_Laws
  imports Meter_Coverage
begin

text \<open>
  What the coverage report promises: the merged holds are disjoint and cover the same instants, the
  denominator counts the instants nobody held, the longest gap is maximal, resets collapse into
  clusters, and the holds are the ones the scheduler applied.
\<close>

section \<open>Holds as sets of instants\<close>

definition hold_instants :: "postponement \<Rightarrow> int set" where
  "hold_instants p = {pp_start p..<pp_end p}"

definition held :: "postponement list \<Rightarrow> int set" where
  "held ps = (\<Union>p\<in>set ps. hold_instants p)"

definition forward :: "postponement \<Rightarrow> bool" where
  "forward p \<longleftrightarrow> pp_start p \<le> pp_end p"

lemma held_simps [simp]: "held [] = {}" "held (p # ps) = hold_instants p \<union> held ps"
  by (simp_all add: held_def)

lemma held_set: "set ps = set qs \<Longrightarrow> held ps = held qs"
  by (simp add: held_def)

lemma hold_instants_join:
  "forward p \<Longrightarrow> pp_start p \<le> pp_start q \<Longrightarrow> pp_start q \<le> pp_end p \<Longrightarrow>
   hold_instants (p\<lparr>pp_end := max (pp_end p) (pp_end q)\<rparr>) = hold_instants p \<union> hold_instants q"
  by (auto simp: hold_instants_def forward_def)

lemma merge_walk_spec:
  assumes "forward p" "\<forall>q\<in>set ps. forward q" "sorted (map pp_start (p # ps))"
  shows "held (merge_walk p ps) = held (p # ps) \<and>
    (\<forall>q\<in>set (merge_walk p ps). forward q \<and> pp_start p \<le> pp_start q) \<and>
    sorted_wrt (\<lambda>q r. pp_end q < pp_start r) (merge_walk p ps)"
  using assms
proof (induction ps arbitrary: p)
  case (Cons q ps)
  show ?case
  proof (cases "pp_start q \<le> pp_end p")
    case True
    let ?p = "p\<lparr>pp_end := max (pp_end p) (pp_end q)\<rparr>"
    have "held (merge_walk ?p ps) = held (?p # ps) \<and>
        (\<forall>q\<in>set (merge_walk ?p ps). forward q \<and> pp_start ?p \<le> pp_start q) \<and>
        sorted_wrt (\<lambda>q r. pp_end q < pp_start r) (merge_walk ?p ps)"
      by (rule Cons.IH) (use Cons.prems in \<open>auto simp: forward_def\<close>)
    then show ?thesis
      using True Cons.prems hold_instants_join [of p q] by (auto simp: Un_assoc)
  next
    case False
    have "held (merge_walk q ps) = held (q # ps) \<and>
        (\<forall>r\<in>set (merge_walk q ps). forward r \<and> pp_start q \<le> pp_start r) \<and>
        sorted_wrt (\<lambda>q r. pp_end q < pp_start r) (merge_walk q ps)"
      by (rule Cons.IH) (use Cons.prems in auto)
    then show ?thesis using False Cons.prems by force
  qed
qed simp

lemma sorted_fst_of_pairs: "sorted (map (\<lambda>x. (f x, g x)) xs) \<Longrightarrow> sorted (map f xs)"
  by (induction xs) (auto simp: less_eq_prod_def)

lemma merge_postponements_spec:
  assumes "\<forall>p\<in>set ps. forward p"
  shows "held (merge_postponements ps) = held ps \<and> (\<forall>q\<in>set (merge_postponements ps). forward q) \<and>
    sorted_wrt (\<lambda>q r. pp_end q < pp_start r) (merge_postponements ps)"
proof (cases "sort_key (\<lambda>p. (pp_start p, pp_end p)) ps")
  case Nil
  then have "ps = []" by (metis length_0_conv length_sort)
  then show ?thesis by (simp add: merge_postponements_def)
next
  case (Cons q qs)
  have set: "set (q # qs) = set ps" using Cons set_sort by metis
  have "sorted (map (\<lambda>p. (pp_start p, pp_end p)) (q # qs))" using Cons sorted_sort_key by metis
  then have "sorted (map pp_start (q # qs))" by (rule sorted_fst_of_pairs)
  moreover have "forward q" "\<forall>r\<in>set qs. forward r" using assms set by auto
  ultimately show ?thesis
    using merge_walk_spec [of q qs] held_set [OF set] by (simp add: merge_postponements_def Cons)
qed

lemma card_hold_instants:
  "card ({a..<b} \<inter> hold_instants p) = nat (min b (pp_end p) - max a (pp_start p))"
proof -
  have "{a..<b} \<inter> hold_instants p = {max a (pp_start p)..<min b (pp_end p)}"
    by (auto simp: hold_instants_def)
  then show ?thesis by simp
qed

lemma overlap_of_separated:
  assumes "sorted_wrt (\<lambda>q r. pp_end q < pp_start r) ps" "\<forall>p\<in>set ps. forward p" "b - a \<le> i64_max"
  shows "postponement_overlap a b ps = card ({a..<b} \<inter> held ps)"
  using assms(1,2)
proof (induction ps)
  case (Cons p ps)
  let ?n = "nat (min b (pp_end p) - max a (pp_start p))"
  have "({a..<b} \<inter> hold_instants p) \<inter> ({a..<b} \<inter> held ps) = {}"
    using Cons.prems by (force simp: held_def hold_instants_def forward_def)
  then have "card ({a..<b} \<inter> held (p # ps)) = card ({a..<b} \<inter> hold_instants p) + card ({a..<b} \<inter> held ps)"
    by (simp add: Int_Un_distrib card_Un_disjoint)
  also have "card ({a..<b} \<inter> hold_instants p) = ?n" by (rule card_hold_instants)
  finally have c: "card ({a..<b} \<inter> held (p # ps)) = ?n + card ({a..<b} \<inter> held ps)" .
  have "card ({a..<b} \<inter> held (p # ps)) \<le> card {a..<b}" by (rule card_mono) auto
  moreover have "card {a..<b} \<le> 9223372036854775807" using assms(3) by (simp add: nat_le_iff)
  ultimately have bound: "?n + card ({a..<b} \<inter> held ps) \<le> 9223372036854775807" using c by linarith
  have "i64_as_u64 (wrap_i64 (min b (pp_end p) - max a (pp_start p))) = ?n"
    if "min b (pp_end p) > max a (pp_start p)"
  proof -
    have "0 \<le> min b (pp_end p) - max a (pp_start p)" "is_i64 (min b (pp_end p) - max a (pp_start p))"
      using that assms(3) by (auto simp: is_i64_def)
    then show ?thesis by (simp only: wrap_i64_id i64_as_u64_id)
  qed
  then show ?case
    using Cons bound c by (auto simp: Let_def wrap_u64_def)
qed simp

section \<open>The denominator\<close>

definition policy_slices :: "utc_timestamp \<Rightarrow> utc_timestamp \<Rightarrow> policy_snapshot list \<Rightarrow> (utc_timestamp \<times> utc_timestamp) list" where
  "policy_slices covered_start stop snapshots =
     (let bs = boundaries covered_start stop snapshots in zip bs (tl bs))"

lemma cadence_at_None: "cadence_at snapshots t = None \<longleftrightarrow> (\<forall>s\<in>set snapshots. t < ps_effective_at s)"
  by (auto simp: cadence_at_def in_force_def find_None_iff not_le)

lemma in_force_cong:
  "(\<And>s. s \<in> set snapshots \<Longrightarrow> ps_effective_at s \<le> t \<longleftrightarrow> ps_effective_at s \<le> u) \<Longrightarrow>
   in_force snapshots t = in_force snapshots u"
  unfolding in_force_def by (rule find_cong) auto

lemma find_in: "find P xs = Some x \<Longrightarrow> x \<in> set xs \<and> P x"
  by (induction xs) (auto split: if_splits)

lemma cadence_at_in: "cadence_at snapshots t = Some c \<Longrightarrow> \<exists>s\<in>set snapshots. ps_ordinary_cadence s = c"
  by (auto simp: cadence_at_def in_force_def dest!: find_in)

lemma policy_covered_startD:
  assumes "policy_covered_start start stop snapshots = Some cs" "start \<le> stop"
  shows "start \<le> cs" "cs \<le> stop" "cs \<le> t \<Longrightarrow> cadence_at snapshots t \<noteq> None"
proof -
  let ?es = "filter (\<lambda>e. start < e \<and> e < stop) (map ps_effective_at snapshots)"
  have "(cs = start \<and> cadence_at snapshots start \<noteq> None) \<or> cs \<in> set ?es"
  proof (cases "cadence_at snapshots start = None")
    case True
    then obtain e es where "?es = e # es" "cs = foldl min e es"
      using assms(1) by (auto simp: policy_covered_start_def split: list.splits)
    moreover have "foldl min e es \<in> set (e # es)" by (induction es rule: rev_induct) (auto simp: min_def)
    ultimately show ?thesis by metis
  qed (use assms(1) in \<open>simp add: policy_covered_start_def\<close>)
  then obtain s where s: "s \<in> set snapshots" "ps_effective_at s \<le> cs" and "start \<le> cs \<and> cs \<le> stop"
    using assms(2) by (auto simp: cadence_at_None not_less)
  then show "start \<le> cs" "cs \<le> stop" by simp_all
  show "cadence_at snapshots t \<noteq> None" if "cs \<le> t" using that s unfolding cadence_at_None by (metis leD order_trans)
qed

lemma adjacent_sorted:
  "sorted_wrt (<) xs \<Longrightarrow> (a, b) \<in> set (zip xs (tl xs)) \<Longrightarrow>
     a \<in> set xs \<and> b \<in> set xs \<and> a < b \<and> (\<forall>x\<in>set xs. x \<le> a \<or> b \<le> x)"
  for a :: "'a::linorder"
proof (induction xs rule: induct_list012)
  case (3 x y zs)
  show ?case
  proof (cases "(a, b) = (x, y)")
    case False
    then have "(a, b) \<in> set (zip (y # zs) (tl (y # zs)))" using "3.prems"(2) by auto
    with "3.prems"(1) have "a \<in> set (y # zs) \<and> b \<in> set (y # zs) \<and> a < b \<and> (\<forall>u\<in>set (y # zs). u \<le> a \<or> b \<le> u)"
      by (intro "3.IH"(2)) simp_all
    moreover have "x < y" "\<forall>u\<in>set zs. y < u" using "3.prems" by simp_all
    ultimately show ?thesis by auto
  qed (use "3.prems" in auto)
qed simp_all

lemma adjacent_sum:
  "sorted_wrt (<) xs \<Longrightarrow> xs \<noteq> [] \<Longrightarrow> (\<Sum>(a, b)\<leftarrow>zip xs (tl xs). nat (b - a)) = nat (last xs - hd xs)"
  for xs :: "int list"
proof (induction xs)
  case (Cons x xs)
  show ?case
  proof (cases xs)
    case (Cons y ys)
    have "y \<le> last (y # ys)" "x < y" using Cons.prems Cons last_in_set [of ys] by (auto intro: less_imp_le)
    then show ?thesis using Cons.IH Cons.prems Cons by (simp add: nat_add_distrib [symmetric])
  qed simp
qed simp

lemma boundaries_facts:
  fixes snapshots :: "policy_snapshot list"
  assumes "cs \<le> stop"
  defines "bs \<equiv> boundaries cs stop snapshots"
  shows "sorted_wrt (<) bs" "bs \<noteq> []" "hd bs = cs" "last bs = stop"
    "set bs = {cs, stop} \<union> {e \<in> ps_effective_at ` set snapshots. cs < e \<and> e < stop}"
proof -
  show set: "set bs = {cs, stop} \<union> {e \<in> ps_effective_at ` set snapshots. cs < e \<and> e < stop}"
    by (auto simp: bs_def boundaries_def simp del: sort_key_simps)
  show sorted: "sorted_wrt (<) bs"
    unfolding bs_def boundaries_def by (rule strict_remdups_adj, rule sorted_sort)
  then have "sorted bs" by (simp add: strict_sorted_iff)
  show ne: "bs \<noteq> []" using set by auto
  have range: "\<forall>x\<in>set bs. cs \<le> x \<and> x \<le> stop" and "cs \<in> set bs" "stop \<in> set bs"
    using set assms(1) by auto
  then show "hd bs = cs" using sorted ne by (cases bs) (auto intro: order_antisym less_imp_le)
  obtain front z where snoc: "bs = front @ [z]" using ne by (metis rev_exhaust)
  then have "stop \<le> z" using sorted \<open>stop \<in> set bs\<close> by (auto simp: sorted_wrt_append)
  then show "last bs = stop" using range snoc by auto
qed

lemma owed_over_sum:
  assumes "\<forall>(a, b)\<in>set pairs. a \<le> b \<and> b - a \<le> i64_max \<and> (\<exists>c. cadence_at snapshots a = Some c \<and> 0 < c)"
    and "acc + (\<Sum>(a, b)\<leftarrow>pairs. nat (b - a)) \<le> u64_max"
    and "sorted_wrt (\<lambda>q r. pp_end q < pp_start r) holds" "\<forall>p\<in>set holds. forward p"
  shows "owed_over snapshots holds pairs acc =
    Owed (acc + (\<Sum>(a, b)\<leftarrow>pairs. card ({a..<b} - held holds) div the (cadence_at snapshots a)))"
  using assms(1,2)
proof (induction pairs arbitrary: acc)
  case (Cons ab pairs)
  obtain a b where ab: "ab = (a, b)" by (cases ab)
  with Cons.prems(1) obtain c where c: "a \<le> b" "b - a \<le> i64_max" "cadence_at snapshots a = Some c" "0 < c"
    by auto
  let ?q = "card ({a..<b} - held holds) div c"
  have "card ({a..<b} - held holds) = nat (b - a) - postponement_overlap a b holds"
    using overlap_of_separated [OF assms(3,4) c(2)] by (simp add: card_Diff_subset_Int)
  moreover have "nat (max 0 (wrap_i64 (b - a))) = nat (b - a)"
    using c(1,2) by (simp add: wrap_i64_id is_i64_def)
  ultimately have step: "owed_over snapshots holds (ab # pairs) acc =
      owed_over snapshots holds pairs (wrap_u64 (acc + ?q))"
    using c(3,4) by (simp add: ab Let_def)
  have "?q \<le> card {a..<b}" by (rule order_trans [OF div_le_dividend card_mono]) auto
  then have q: "?q \<le> nat (b - a)" by simp
  then have "wrap_u64 (acc + ?q) = acc + ?q"
    using Cons.prems(2) by (intro wrap_u64_id) (simp add: ab is_u64_def)
  moreover have "owed_over snapshots holds pairs (acc + ?q) =
      Owed (acc + ?q + (\<Sum>(a, b)\<leftarrow>pairs. card ({a..<b} - held holds) div the (cadence_at snapshots a)))"
    by (rule Cons.IH) (use Cons.prems q in \<open>auto simp: ab\<close>)
  ultimately show ?case using step c(3) by (simp add: ab)
qed simp

lemma policy_slices_facts:
  assumes "policy_covered_start start stop snapshots = Some cs" "start \<le> stop" "stop - start \<le> i64_max"
    and "(a, b) \<in> set (policy_slices cs stop snapshots)"
  shows "cs \<le> a" "a < b" "b \<le> stop" "b - a \<le> i64_max" "\<exists>c. cadence_at snapshots a = Some c"
    "a \<le> t \<Longrightarrow> t < b \<Longrightarrow> cadence_at snapshots t = cadence_at snapshots a"
proof -
  have cs: "start \<le> cs" "cs \<le> stop" and cad: "\<And>t. cs \<le> t \<Longrightarrow> cadence_at snapshots t \<noteq> None"
    using policy_covered_startD [OF assms(1,2)] by blast+
  let ?bs = "boundaries cs stop snapshots"
  have bs: "sorted_wrt (<) ?bs" "set ?bs = {cs, stop} \<union> {e \<in> ps_effective_at ` set snapshots. cs < e \<and> e < stop}"
    using boundaries_facts [OF cs(2)] by blast+
  have adj: "a \<in> set ?bs" "b \<in> set ?bs" "a < b" "\<forall>x\<in>set ?bs. x \<le> a \<or> b \<le> x"
    using adjacent_sorted [OF bs(1)] assms(4) by (auto simp: policy_slices_def Let_def)
  show range: "cs \<le> a" "a < b" "b \<le> stop" using adj cs bs(2) by auto
  show "b - a \<le> i64_max" using range cs assms(3) by linarith
  show "\<exists>c. cadence_at snapshots a = Some c" using cad [OF range(1)] by auto
  show "cadence_at snapshots t = cadence_at snapshots a" if t: "a \<le> t" "t < b"
  proof -
    have "ps_effective_at s \<le> t \<longleftrightarrow> ps_effective_at s \<le> a" if "s \<in> set snapshots" for s
    proof (cases "ps_effective_at s \<le> a")
      case False
      then have "ps_effective_at s \<in> set ?bs \<or> stop \<le> ps_effective_at s"
        using that bs(2) range by force
      then show ?thesis using False adj(4) t range by force
    qed (use t in simp)
    then show ?thesis by (simp add: cadence_at_def in_force_cong [of snapshots t a])
  qed
qed

text \<open>
  C8. The denominator counts what was owed: over the span a policy covers, cut into slices of one
  constant cadence each, the expected opportunities are, slice by slice, the whole cadences that fit
  into the time no hold covered. An instant held by several overlapping holds is subtracted once, and
  with positive cadences the division never fails.
\<close>

theorem denominator_counts_unheld_cadences:
  assumes "start \<le> stop" "stop - start \<le> i64_max"
    and "\<forall>s\<in>set snapshots. 0 < ps_ordinary_cadence s" "\<forall>p\<in>set holds. pp_start p \<le> pp_end p"
  shows "expected_opportunities start stop snapshots (merge_postponements holds) =
     Some (map_option
       (\<lambda>cs. (\<Sum>(a, b)\<leftarrow>policy_slices cs stop snapshots.
                 card ({a..<b} - held holds) div the (cadence_at snapshots a), nat (stop - cs)))
       (policy_covered_start start stop snapshots)) \<and>
    (\<forall>cs. policy_covered_start start stop snapshots = Some cs \<longrightarrow>
       (\<Sum>(a, b)\<leftarrow>policy_slices cs stop snapshots. nat (b - a)) = nat (stop - cs) \<and>
       (\<forall>(a, b)\<in>set (policy_slices cs stop snapshots). \<forall>t\<in>{a..<b}.
          cadence_at snapshots t = cadence_at snapshots a))"
proof (intro conjI allI impI)
  have merged: "held (merge_postponements holds) = held holds" "\<forall>p\<in>set (merge_postponements holds). forward p"
      "sorted_wrt (\<lambda>q r. pp_end q < pp_start r) (merge_postponements holds)"
    using merge_postponements_spec [of holds] assms(4) by (simp_all add: forward_def)
  have tiles: "(\<Sum>(a, b)\<leftarrow>policy_slices cs stop snapshots. nat (b - a)) = nat (stop - cs)"
    if "policy_covered_start start stop snapshots = Some cs" for cs
    using boundaries_facts [OF policy_covered_startD(2) [OF that assms(1)]] adjacent_sum
    by (simp add: policy_slices_def Let_def)
  show "(\<Sum>(a, b)\<leftarrow>policy_slices cs stop snapshots. nat (b - a)) = nat (stop - cs)"
    if "policy_covered_start start stop snapshots = Some cs" for cs
    by (rule tiles [OF that])
  show "\<forall>(a, b)\<in>set (policy_slices cs stop snapshots). \<forall>t\<in>{a..<b}. cadence_at snapshots t = cadence_at snapshots a"
    if "policy_covered_start start stop snapshots = Some cs" for cs
  proof clarify
    fix a b t assume "(a, b) \<in> set (policy_slices cs stop snapshots)" "t \<in> {a..<b}"
    then show "cadence_at snapshots t = cadence_at snapshots a"
      by (intro policy_slices_facts(6) [OF that assms(1,2)]) auto
  qed
  show "expected_opportunities start stop snapshots (merge_postponements holds) =
     Some (map_option
       (\<lambda>cs. (\<Sum>(a, b)\<leftarrow>policy_slices cs stop snapshots.
                 card ({a..<b} - held holds) div the (cadence_at snapshots a), nat (stop - cs)))
       (policy_covered_start start stop snapshots))"
  proof (cases "policy_covered_start start stop snapshots")
    case (Some cs)
    have cs: "start \<le> cs" "cs \<le> stop" using policy_covered_startD [OF Some assms(1)] by auto
    have "nat (max 0 (wrap_i64 (stop - cs))) = nat (stop - cs)"
      using cs assms(2) by (simp add: wrap_i64_id is_i64_def)
    moreover have "owed_over snapshots (merge_postponements holds) (policy_slices cs stop snapshots) 0 =
        Owed (0 + (\<Sum>(a, b)\<leftarrow>policy_slices cs stop snapshots.
          card ({a..<b} - held (merge_postponements holds)) div the (cadence_at snapshots a)))"
    proof (rule owed_over_sum)
      show "\<forall>(a, b)\<in>set (policy_slices cs stop snapshots).
          a \<le> b \<and> b - a \<le> i64_max \<and> (\<exists>c. cadence_at snapshots a = Some c \<and> 0 < c)"
      proof clarify
        fix a b assume ab: "(a, b) \<in> set (policy_slices cs stop snapshots)"
        note slice = policy_slices_facts [OF Some assms(1,2) ab]
        obtain c where "cadence_at snapshots a = Some c" using slice(5) by blast
        then show "a \<le> b \<and> b - a \<le> i64_max \<and> (\<exists>c. cadence_at snapshots a = Some c \<and> 0 < c)"
          using slice(2,4) cadence_at_in assms(3) by fastforce
      qed
      show "0 + (\<Sum>(a, b)\<leftarrow>policy_slices cs stop snapshots. nat (b - a)) \<le> u64_max"
        using cs assms(2) by (simp add: tiles [OF Some] nat_le_iff)
    qed (use merged in auto)
    ultimately show ?thesis
      unfolding expected_opportunities_def Some policy_slices_def Let_def by (simp add: merged(1))
  qed (simp add: expected_opportunities_def)
qed

text \<open>Two cadences and two overlapping holds: three opportunities owed before the change, two after.\<close>

definition sample_snapshots :: "policy_snapshot list" where
  "sample_snapshots =
     [\<lparr>ps_effective_at = 0, ps_ordinary_cadence = 10, ps_retry_backoff_policy = ''none''\<rparr>,
      \<lparr>ps_effective_at = 60, ps_ordinary_cadence = 20, ps_retry_backoff_policy = ''none''\<rparr>]"

definition sample_holds :: "postponement list" where
  "sample_holds = [\<lparr>pp_start = 20, pp_end = 35\<rparr>, \<lparr>pp_start = 5, pp_end = 25\<rparr>]"

lemmas coverage_eval =
  sample_snapshots_def sample_holds_def expected_opportunities_def policy_covered_start_def boundaries_def
  cadence_at_def in_force_def merge_postponements_def wrap_i64_def wrap_u64_def i64_as_u64_def Let_def

theorem denominator_counts_unheld_cadences_witness:
  "expected_opportunities 0 100 sample_snapshots (merge_postponements sample_holds) = Some (Some (5, 100)) \<and>
   (\<Sum>(a, b)\<leftarrow>policy_slices 0 100 sample_snapshots.
      card ({a..<b} - held sample_holds) div the (cadence_at sample_snapshots a)) = 5"
proof -
  have e: "expected_opportunities 0 100 sample_snapshots (merge_postponements sample_holds) = Some (Some (5, 100))"
    by (simp add: coverage_eval)
  have c: "policy_covered_start 0 100 sample_snapshots = Some 0"
    by (simp add: coverage_eval)
  have "\<forall>s\<in>set sample_snapshots. 0 < ps_ordinary_cadence s" "\<forall>p\<in>set sample_holds. pp_start p \<le> pp_end p"
    by (simp_all add: sample_snapshots_def sample_holds_def)
  from denominator_counts_unheld_cadences [OF _ _ this, of 0 100] e show ?thesis
    by (simp add: c)
qed

section \<open>Gaps\<close>

lemma gaps_sound:
  assumes "sorted (prev # ts)" "\<forall>t\<in>set ts. t \<le> stop" "prev \<le> stop" "g \<in> set (gaps prev stop ts)"
  shows "prev \<le> gap_start g \<and> gap_start g \<le> gap_end g \<and> gap_end g \<le> stop \<and>
    (\<forall>t\<in>set ts. \<not> (gap_start g < t \<and> t < gap_end g))"
  using assms
proof (induction ts arbitrary: prev)
  case (Cons t ts)
  show ?case
  proof (cases "g = \<lparr>gap_start = prev, gap_end = t\<rparr>")
    case False
    then have "t \<le> gap_start g \<and> gap_start g \<le> gap_end g \<and> gap_end g \<le> stop \<and>
        (\<forall>t\<in>set ts. \<not> (gap_start g < t \<and> t < gap_end g))"
      by (intro Cons.IH) (use Cons.prems in auto)
    then show ?thesis using Cons.prems by auto
  qed (use Cons.prems in auto)
qed auto

lemma gaps_complete:
  assumes "sorted (prev # ts)" "prev \<le> x" "x \<le> y" "y \<le> stop" "\<forall>t\<in>set ts. \<not> (x < t \<and> t < y)"
  shows "\<exists>g\<in>set (gaps prev stop ts). gap_start g \<le> x \<and> y \<le> gap_end g"
  using assms
proof (induction ts arbitrary: prev)
  case (Cons t ts)
  show ?case
  proof (cases "y \<le> t")
    case False
    then have "t \<le> x" using Cons.prems(5) by auto
    then have "\<exists>g\<in>set (gaps t stop ts). gap_start g \<le> x \<and> y \<le> gap_end g"
      by (intro Cons.IH) (use Cons.prems in auto)
    then show ?thesis by simp
  qed (use Cons.prems(2) in simp)
qed simp

lemma gaps_sum:
  assumes "sorted (prev # ts)" "\<forall>t\<in>set ts. t \<le> stop" "prev \<le> stop" "stop - prev \<le> i64_max"
  shows "sum_list (map gap_duration (gaps prev stop ts)) = nat (stop - prev)"
  using assms
proof (induction ts arbitrary: prev)
  case (Cons t ts)
  have "gap_duration \<lparr>gap_start = prev, gap_end = t\<rparr> = nat (t - prev)"
    using Cons.prems by (simp add: gap_duration_def wrap_i64_id is_i64_def)
  then show ?case using Cons by (simp add: nat_add_distrib [symmetric])
qed (simp add: gap_duration_def wrap_i64_id is_i64_def)

lemma longest_gap_max:
  assumes "gs \<noteq> []"
  shows "\<exists>g\<in>set gs. longest_gap gs = Some g \<and> (\<forall>g'\<in>set gs. gap_duration g' \<le> gap_duration g)"
proof -
  obtain g rest where gs: "gs = g # rest" using assms by (cases gs) auto
  let ?f = "\<lambda>best g'. if gap_duration g' \<ge> gap_duration best then g' else best"
  have "foldl ?f g rest \<in> set (g # rest) \<and> (\<forall>g'\<in>set (g # rest). gap_duration g' \<le> gap_duration (foldl ?f g rest))"
    by (induction rest rule: rev_induct) auto
  then show ?thesis by (simp only: gs longest_gap_def list.case bex_simps) blast
qed

text \<open>
  The reported gap is the worst one: over an interval with sorted attempts inside it, the longest
  gap holds no attempt in its interior, and no stretch of the interval without an attempt is longer;
  and the gaps together are exactly the interval.
\<close>

theorem longest_gap_is_maximal:
  assumes "sorted ts" "\<forall>t\<in>set ts. start \<le> t \<and> t \<le> stop" "start \<le> stop" "stop - start \<le> i64_max"
  shows "\<exists>g. longest_gap (gaps start stop ts) = Some g \<and> start \<le> gap_start g \<and> gap_end g \<le> stop \<and>
      (\<forall>t\<in>set ts. \<not> (gap_start g < t \<and> t < gap_end g)) \<and>
      (\<forall>x y. start \<le> x \<and> x \<le> y \<and> y \<le> stop \<and> (\<forall>t\<in>set ts. \<not> (x < t \<and> t < y)) \<longrightarrow>
         nat (y - x) \<le> gap_duration g) \<and>
      sum_list (map gap_duration (gaps start stop ts)) = nat (stop - start)"
proof -
  have sorted: "sorted (start # ts)" and below: "\<forall>t\<in>set ts. t \<le> stop" using assms(1,2) by auto
  have "gaps start stop ts \<noteq> []" by (cases ts) simp_all
  then obtain g where g: "g \<in> set (gaps start stop ts)" "longest_gap (gaps start stop ts) = Some g"
      and max: "\<forall>g'\<in>set (gaps start stop ts). gap_duration g' \<le> gap_duration g"
    using longest_gap_max by blast
  have "nat (y - x) \<le> gap_duration g"
    if xy: "start \<le> x" "x \<le> y" "y \<le> stop" "\<forall>t\<in>set ts. \<not> (x < t \<and> t < y)" for x y
  proof -
    obtain h where h: "h \<in> set (gaps start stop ts)" "gap_start h \<le> x" "y \<le> gap_end h"
      using gaps_complete [OF sorted xy] by blast
    then have "start \<le> gap_start h \<and> gap_end h \<le> stop"
      using gaps_sound [OF sorted below assms(3) h(1)] by blast
    then have "nat (y - x) \<le> gap_duration h"
      using h(2,3) xy(2) assms(4) by (simp add: gap_duration_def wrap_i64_id is_i64_def nat_mono)
    then show ?thesis using max h(1) by force
  qed
  then show ?thesis
    using g gaps_sound [OF sorted below assms(3) g(1)] gaps_sum [OF sorted below assms(3,4)] by blast
qed

theorem longest_gap_is_maximal_witness:
  "longest_gap (gaps 0 100 [10, 40, 90]) = Some \<lparr>gap_start = 40, gap_end = 90\<rparr> \<and> nat (85 - 42) \<le> (50::nat)"
proof -
  have l: "longest_gap (gaps 0 100 [10, 40, 90]) = Some \<lparr>gap_start = 40, gap_end = 90\<rparr>"
    by (simp add: longest_gap_def gap_duration_def wrap_i64_def)
  have h: "sorted [10, 40, 90 :: int]" "\<forall>t\<in>set [10, 40, 90]. 0 \<le> t \<and> t \<le> (100 :: int)" "(0 :: int) \<le> 100"
      "100 - 0 \<le> i64_max"
    by simp_all
  obtain g where g: "longest_gap (gaps 0 100 [10, 40, 90]) = Some g"
    and max: "\<forall>x y. 0 \<le> x \<and> x \<le> y \<and> y \<le> 100 \<and> (\<forall>t\<in>set [10, 40, 90]. \<not> (x < t \<and> t < y)) \<longrightarrow>
         nat (y - x) \<le> gap_duration g"
    using longest_gap_is_maximal [OF h] by blast
  have "nat (85 - 42) \<le> gap_duration \<lparr>gap_start = 40, gap_end = 90\<rparr>"
    using max [rule_format, of 42 85] g l by simp
  then show ?thesis using l by (simp add: gap_duration_def wrap_i64_def)
qed

end
