(* ===== verification/Meter_Coverage_Holds.thy ===== *)
theory Meter_Coverage_Holds
  imports Meter_Coverage_Laws Durations
begin

text \<open>
  Resets collapse into clusters, and the two families of holds \<open>src/coverage.rs\<close> subtracts are the
  ones \<open>src/meter/due.rs\<close> applied, read back from the policy string \<open>src/cli.rs\<close> recorded.
\<close>

section \<open>Resets\<close>

lemma dedup_resets_walk_spec:
  assumes "sorted (prev # rs)" "\<forall>r\<in>set (prev # rs). is_i64 r" "\<forall>r\<in>set rs. r - prev \<le> i64_max"
  shows "set (dedup_resets_walk prev rs) \<subseteq> set rs \<and>
    sorted_wrt (\<lambda>a b. b - a > 5000000000) (prev # dedup_resets_walk prev rs) \<and>
    (\<forall>r\<in>set rs. \<exists>k\<in>set (prev # dedup_resets_walk prev rs). k \<le> r \<and> r - k \<le> 5000000000)"
  using assms
proof (induction rs arbitrary: prev)
  case (Cons r rs)
  have window: "reset_dedup_window = 5000000000"
    by (simp add: reset_dedup_window_def from_seconds_def sat_mul_u64_def)
  have diff: "i64_as_u64 (wrap_i64 (r - prev)) = nat (r - prev)"
    using Cons.prems by (simp add: wrap_i64_id i64_as_u64_id is_i64_def)
  show ?case
  proof (cases "r - prev \<le> 5000000000")
    case True
    have "set (dedup_resets_walk prev rs) \<subseteq> set rs \<and>
        sorted_wrt (\<lambda>a b. b - a > 5000000000) (prev # dedup_resets_walk prev rs) \<and>
        (\<forall>r\<in>set rs. \<exists>k\<in>set (prev # dedup_resets_walk prev rs). k \<le> r \<and> r - k \<le> 5000000000)"
      by (rule Cons.IH) (use Cons.prems in auto)
    moreover have "dedup_resets_walk prev (r # rs) = dedup_resets_walk prev rs"
      using True by (simp add: diff window nat_le_iff)
    ultimately show ?thesis using True Cons.prems by auto
  next
    case False
    have "set (dedup_resets_walk r rs) \<subseteq> set rs \<and>
        sorted_wrt (\<lambda>a b. b - a > 5000000000) (r # dedup_resets_walk r rs) \<and>
        (\<forall>q\<in>set rs. \<exists>k\<in>set (r # dedup_resets_walk r rs). k \<le> q \<and> q - k \<le> 5000000000)"
      by (rule Cons.IH) (use Cons.prems in force)+
    moreover have "dedup_resets_walk prev (r # rs) = r # dedup_resets_walk r rs"
      using False by (simp add: diff window nat_le_iff)
    ultimately show ?thesis using False Cons.prems by force
  qed
qed simp

text \<open>
  One reset reported many times counts once: the collapsed resets are among the reported ones,
  consecutive ones lie more than the five-second window apart, and every reported reset is within the
  window after a kept one.
\<close>

theorem reset_clusters_collapse:
  assumes "\<forall>r\<in>set resets. 0 \<le> r \<and> r \<le> i64_max"
  shows "set (dedup_resets resets) \<subseteq> set resets \<and>
    sorted_wrt (\<lambda>a b. b - a > 5000000000) (dedup_resets resets) \<and>
    (\<forall>r\<in>set resets. \<exists>k\<in>set (dedup_resets resets). k \<le> r \<and> r - k \<le> 5000000000)"
proof (cases "sort resets")
  case (Cons r rs)
  have sorted: "sorted (r # rs)" and set: "set (r # rs) = set resets" using Cons sorted_sort set_sort by metis+
  have range: "0 \<le> q \<and> q \<le> i64_max" if "q \<in> set (r # rs)" for q using assms that set by blast
  have "\<forall>q\<in>set (r # rs). is_i64 q" using range by (force simp: is_i64_def)
  moreover have "\<forall>q\<in>set rs. q - r \<le> i64_max"
  proof
    fix q assume "q \<in> set rs"
    then show "q - r \<le> i64_max" using range [of q] range [of r] by simp
  qed
  ultimately have walk: "set (dedup_resets_walk r rs) \<subseteq> set rs \<and>
      sorted_wrt (\<lambda>a b. b - a > 5000000000) (r # dedup_resets_walk r rs) \<and>
      (\<forall>q\<in>set rs. \<exists>k\<in>set (r # dedup_resets_walk r rs). k \<le> q \<and> q - k \<le> 5000000000)"
    by (rule dedup_resets_walk_spec [OF sorted])
  show ?thesis unfolding dedup_resets_def Cons list.case
  proof (intro conjI ballI)
    show "set (r # dedup_resets_walk r rs) \<subseteq> set resets" using walk set by auto
    show "sorted_wrt (\<lambda>a b. b - a > 5000000000) (r # dedup_resets_walk r rs)" using walk by blast
    show "\<exists>k\<in>set (r # dedup_resets_walk r rs). k \<le> q \<and> q - k \<le> 5000000000" if "q \<in> set resets" for q
      using walk that set by (cases "q = r") auto
  qed
qed (use set_sort [of "\<lambda>x. x" resets] in \<open>simp add: dedup_resets_def\<close>)

theorem reset_clusters_collapse_witness:
  "dedup_resets [9000000000, 1000000000, 2000000000] = [1000000000, 9000000000] \<and>
   (\<exists>k\<in>set (dedup_resets [9000000000, 1000000000, 2000000000]). k \<le> 2000000000 \<and> 2000000000 - k \<le> 5000000000)"
  using reset_clusters_collapse [of "[9000000000, 1000000000, 2000000000]"]
  by (simp add: dedup_resets_def reset_dedup_window_def from_seconds_def sat_mul_u64_def wrap_i64_def i64_as_u64_def)

section \<open>The holds are the scheduler's\<close>

definition hold_settings_ok :: "hold_settings \<Rightarrow> bool" where
  "hold_settings_ok c \<longleftrightarrow>
     is_u64 (hs_retry_after_cap c) \<and> is_u32 (hs_auth_backoff_threshold c) \<and> is_u64 (hs_auth_backoff_cap c)"

lemma from_whole_seconds: "is_u64 n \<Longrightarrow> from_seconds (n div 1000000000) = n div 1000000000 * 1000000000"
  by (simp add: from_seconds_def sat_mul_u64_def is_u64_def div_times_less_eq_dividend order.trans)

lemma is_u64_div: "is_u64 n \<Longrightarrow> is_u64 (n div k)"
  unfolding is_u64_def by (rule order_trans [OF div_le_dividend])

lemma plain_digits: "c \<in> set (show_nat n) \<Longrightarrow> c \<noteq> CHR '' '' \<and> c \<noteq> CHR ''-'' \<and> \<not> is_ws c"
  using show_nat_digits [of c n] digits_not_ws [of c] not_digit_chars by (auto simp: is_ws_def)

lemma snapshot_words:
  "split_whitespace (retry_backoff_snapshot_string c) =
     [''retry-after-capped-'' @ show_nat (hs_retry_after_cap c div 1000000000) @ ''s'',
      ''auth-'' @ show_nat (hs_auth_backoff_threshold c) @ ''-'' @ show_nat (hs_auth_backoff_cap c div 1000000000) @ ''s'']"
proof -
  let ?w = "''retry-after-capped-'' @ show_nat (hs_retry_after_cap c div 1000000000) @ ''s''"
  let ?v = "''auth-'' @ show_nat (hs_auth_backoff_threshold c) @ ''-'' @
    show_nat (hs_auth_backoff_cap c div 1000000000) @ ''s''"
  have "retry_backoff_snapshot_string c = ?w @ CHR '' '' # ?v"
    by (simp add: retry_backoff_snapshot_string_def)
  moreover have "\<forall>x\<in>set ?w. \<not> is_ws x" "\<forall>x\<in>set ?v. \<not> is_ws x"
    using plain_digits by (auto simp: is_ws_def)
  moreover have "is_ws (CHR '' '')" by (simp add: is_ws_def)
  ultimately show ?thesis
    by (simp only: split_whitespace_def split_pred_append split_pred_none) simp
qed

lemma policy_reads:
  assumes "hold_settings_ok c"
  shows "parse_capped_retry_after_policy (retry_backoff_snapshot_string c) =
      Some (hs_retry_after_cap c div 1000000000 * 1000000000) \<and>
    parse_auth_backoff_policy (retry_backoff_snapshot_string c) =
      (if hs_auth_backoff_threshold c = 0 then None
       else Some (hs_auth_backoff_threshold c, hs_auth_backoff_cap c div 1000000000 * 1000000000))"
proof -
  let ?a = "hs_retry_after_cap c div 1000000000" and ?b = "hs_auth_backoff_cap c div 1000000000"
  let ?t = "hs_auth_backoff_threshold c"
  have u: "is_u64 ?a" "is_u64 ?b" "is_u32 ?t" using assms by (simp_all add: hold_settings_ok_def is_u64_div)
  have dash: "CHR ''-'' \<notin> set (show_nat n)" for n using plain_digits by blast
  have "parse_capped_retry_after_policy (retry_backoff_snapshot_string c) = Some (from_seconds ?a)"
    using u(1) by (simp add: parse_capped_retry_after_policy_def snapshot_words parse_u64_show_nat del: append.simps)
  moreover have "find (starts_with ''auth-'') (split_whitespace (retry_backoff_snapshot_string c)) =
      Some (''auth-'' @ (show_nat ?t @ CHR ''-'' # show_nat ?b) @ ''s'')"
    by (simp add: snapshot_words starts_with_def)
  then have "parse_auth_backoff_policy (retry_backoff_snapshot_string c) =
      (if ?t = 0 then None else Some (?t, from_seconds ?b))"
    unfolding parse_auth_backoff_policy_def
    using u split_once_append [OF dash]
    by (simp only: option.case strip_prefix_append strip_suffix_append prod.case parse_u64_show_nat parse_u32_show_nat)
  ultimately show ?thesis
    using assms by (simp add: from_whole_seconds hold_settings_ok_def)
qed

text \<open>
  What the sampler records is what coverage reads: the policy string written from the three
  hold settings parses back to them, the ceilings cut to whole seconds, and a zero threshold reads
  as no authentication backoff.
\<close>

theorem policy_string_roundtrip:
  assumes "hold_settings_ok c"
  shows "parse_capped_retry_after_policy (retry_backoff_snapshot_string c) =
      Some (hs_retry_after_cap c div 1000000000 * 1000000000) \<and>
    parse_auth_backoff_policy (retry_backoff_snapshot_string c) =
      (if hs_auth_backoff_threshold c = 0 then None
       else Some (hs_auth_backoff_threshold c, hs_auth_backoff_cap c div 1000000000 * 1000000000))"
  using assms by (rule policy_reads)

definition sample_settings :: hold_settings where
  "sample_settings =
     \<lparr>hs_retry_after_cap = 90000000000, hs_auth_backoff_threshold = 3, hs_auth_backoff_cap = 7000000000\<rparr>"

theorem policy_string_roundtrip_witness:
  "retry_backoff_snapshot_string sample_settings = ''retry-after-capped-90s auth-3-7s'' \<and>
   parse_auth_backoff_policy ''retry-after-capped-90s auth-3-7s'' = Some (3, 7000000000)"
proof -
  have s: "retry_backoff_snapshot_string sample_settings = ''retry-after-capped-90s auth-3-7s''"
    by (simp add: retry_backoff_snapshot_string_def sample_settings_def show_nat_small show_nat_step digit_char_def
        char_of_eq_iff)
  have "hold_settings_ok sample_settings"
    by (simp add: hold_settings_ok_def sample_settings_def is_u64_def is_u32_def)
  from policy_string_roundtrip [OF this] show ?thesis unfolding s by (simp add: sample_settings_def)
qed

text \<open>The attempt's result as coverage reads it.\<close>

definition result_record_of :: "attempt_result \<Rightarrow> attempt_result_record" where
  "result_record_of res =
     \<lparr>arr_finished_at = ar_finished_at res, arr_retry_after = outcome_retry_after (ar_outcome res),
      arr_is_auth_required = (ar_outcome res = Outcome_AuthRequired)\<rparr>"

text \<open>The scheduler's inputs agree with the policy row coverage reads, and no other rule applies.\<close>

definition same_policy :: "due_inputs \<Rightarrow> hold_settings \<Rightarrow> policy_snapshot \<Rightarrow> bool" where
  "same_policy inp c s \<longleftrightarrow>
     hold_settings_ok c \<and> hs_retry_after_cap c mod 1000000000 = 0 \<and> hs_auth_backoff_cap c mod 1000000000 = 0 \<and>
     ps_retry_backoff_policy s = retry_backoff_snapshot_string c \<and>
     dp_ordinary_cadence (di_policy inp) = ps_ordinary_cadence s \<and>
     dp_retry_after_cap (di_policy inp) = hs_retry_after_cap c \<and>
     dp_auth_backoff_threshold (di_policy inp) = hs_auth_backoff_threshold c \<and>
     dp_auth_backoff_cap (di_policy inp) = hs_auth_backoff_cap c"

lemma same_policy_reads:
  assumes "same_policy inp c s" "in_force snapshots at = Some s"
  shows "retry_after_cap_at snapshots at = Some (dp_retry_after_cap (di_policy inp))"
    "auth_backoff_at snapshots at =
      (if dp_auth_backoff_threshold (di_policy inp) = 0 then None
       else Some (dp_auth_backoff_threshold (di_policy inp), dp_auth_backoff_cap (di_policy inp)))"
  using assms policy_reads [of c]
  by (auto simp: same_policy_def retry_after_cap_at_def auth_backoff_at_def)

lemma auth_hold_elim:
  assumes "p \<in> set (auth_hold snapshots cadence r n)"
  obtains t cap d where "auth_backoff_at snapshots (arr_finished_at r) = Some (t, cap)"
    "auth_backoff_delay cadence t cap n False = Some d" "pp_end p = plus_nanos (arr_finished_at r) d"
proof (cases "arr_is_auth_required r \<and> auth_backoff_at snapshots (arr_finished_at r) \<noteq> None")
  case True
  then obtain t cap where tc: "auth_backoff_at snapshots (arr_finished_at r) = Some (t, cap)" by auto
  show thesis
  proof (cases "auth_backoff_delay cadence t cap n False")
    case None
    then show thesis using assms True tc by (simp add: auth_hold_def)
  next
    case (Some d)
    then show thesis
      using assms True tc that [OF tc Some] by (cases "cadence < d") (simp_all add: auth_hold_def)
  qed
next
  case False
  then have "arr_is_auth_required r \<Longrightarrow> auth_backoff_at snapshots (arr_finished_at r) = None" by blast
  then have "auth_hold snapshots cadence r n = []" by (cases "arr_is_auth_required r") (simp_all add: auth_hold_def)
  then show thesis using assms by simp
qed

lemma hold_is_postponement:
  assumes "same_policy inp c s" "in_force snapshots (ar_finished_at res) = Some s"
    and "he_result e = Some res" "\<not> di_credential_changed inp"
    and "p \<in> set (retry_hold snapshots (ps_ordinary_cadence s) (result_record_of res) @
            auth_hold snapshots (ps_ordinary_cadence s) (result_record_of res) (di_consecutive_auth_failures inp))"
  shows "retry_postponement e (dp_retry_after_cap (di_policy inp)) = Some (pp_end p) \<or>
    auth_postponement e (dp_ordinary_cadence (di_policy inp)) (dp_auth_backoff_threshold (di_policy inp))
      (dp_auth_backoff_cap (di_policy inp)) (di_consecutive_auth_failures inp) (di_credential_changed inp) = Some (pp_end p)"
proof -
  have cadence: "dp_ordinary_cadence (di_policy inp) = ps_ordinary_cadence s"
    using assms(1) by (simp add: same_policy_def)
  note reads = same_policy_reads [OF assms(1,2)]
  consider "p \<in> set (retry_hold snapshots (ps_ordinary_cadence s) (result_record_of res))"
    | "p \<in> set (auth_hold snapshots (ps_ordinary_cadence s) (result_record_of res) (di_consecutive_auth_failures inp))"
    using assms(5) by auto
  then show ?thesis
  proof cases
    case 1
    then show ?thesis
      using assms(3)
      by (cases "outcome_retry_after (ar_outcome res)")
        (auto simp: retry_hold_def retry_postponement_def result_record_of_def reads(1) Let_def split: if_splits)
  next
    case 2
    obtain t cap d where d: "auth_backoff_at snapshots (ar_finished_at res) = Some (t, cap)"
        "auth_backoff_delay (ps_ordinary_cadence s) t cap (di_consecutive_auth_failures inp) False = Some d"
        "pp_end p = plus_nanos (ar_finished_at res) d"
      by (rule auth_hold_elim [OF 2]) (simp add: result_record_of_def)
    then have "t = dp_auth_backoff_threshold (di_policy inp) \<and> cap = dp_auth_backoff_cap (di_policy inp)"
      using reads(2) by (cases "dp_auth_backoff_threshold (di_policy inp) = 0") simp_all
    then show ?thesis using d assms(3,4) by (simp add: auth_postponement_def cadence)
  qed
qed

text \<open>
  C9. Coverage excuses only what the scheduler held: at every instant of a hold that coverage
  subtracts for the last attempt, under the same policy, whose caps are whole seconds, and the
  same streak, the scheduler's decision is to wait until the hold's end or later, as long as
  nobody forces an attempt, the credential is the one of the streak, and no reset has passed
  unobserved or is within the edge lead.
\<close>

theorem excused_instants_were_held:
  assumes "same_policy inp c s" "in_force snapshots (ar_finished_at res) = Some s"
    and "last_entry inp = Some e" "he_result e = Some res"
    and "p \<in> set (retry_hold snapshots (ps_ordinary_cadence s) (result_record_of res) @
            auth_hold snapshots (ps_ordinary_cadence s) (result_record_of res) (di_consecutive_auth_failures inp))"
    and "di_now inp \<in> hold_instants p"
    and "\<not> di_forced inp" "\<not> di_credential_changed inp" "unobserved_reset inp = None" "edge_reset inp = None"
  shows "\<exists>u. evaluate inp = NotYet u OrdinaryCadence \<and> pp_end p \<le> u"
proof -
  have "pp_end p \<le> effective_due_at inp e"
    using hold_is_postponement [OF assms(1,2,4,8,5)] effective_due_at_holds by blast
  moreover have "di_now inp < pp_end p" using assms(6) by (simp add: hold_instants_def)
  ultimately have "evaluate inp = NotYet (effective_due_at inp e) OrdinaryCadence"
    using assms(3,7,9,10) by (simp add: evaluate_NotYet_iff)
  then show ?thesis using \<open>pp_end p \<le> effective_due_at inp e\<close> by blast
qed

text \<open>A rate-limited attempt under a one-minute cadence; eighty seconds in, coverage excuses and the scheduler waits.\<close>

definition limited_result :: attempt_result where
  "limited_result =
     \<lparr>ar_attempt_id = AttemptId 1, ar_finished_at = 1000000000, ar_elapsed = 1000000000,
      ar_outcome = Unreachable (RateLimited (Some 120000000000))\<rparr>"

definition limited_inputs :: due_inputs where
  "limited_inputs =
     \<lparr>di_policy = \<lparr>dp_ordinary_cadence = 60000000000, dp_reset_edge_lead = 20,
        dp_retry_after_cap = 90000000000, dp_auth_backoff_threshold = 3, dp_auth_backoff_cap = 7000000000\<rparr>,
      di_history = [\<lparr>he_attempt = \<lparr>as_attempt_id = AttemptId 1, as_started_at = 0\<rparr>, he_due_at = 0,
        he_result = Some limited_result\<rparr>],
      di_known_resets = [], di_now = 80000000000, di_forced = False, di_consecutive_auth_failures = 0,
      di_credential_changed = False\<rparr>"

definition limited_snapshot :: policy_snapshot where
  "limited_snapshot =
     \<lparr>ps_effective_at = 0, ps_ordinary_cadence = 60000000000,
      ps_retry_backoff_policy = retry_backoff_snapshot_string sample_settings\<rparr>"

theorem excused_instants_were_held_witness:
  "\<exists>u. evaluate limited_inputs = NotYet u OrdinaryCadence \<and> 91000000000 \<le> u"
proof -
  let ?p = "\<lparr>pp_start = 1000000000, pp_end = 91000000000\<rparr>"
  have same: "same_policy limited_inputs sample_settings limited_snapshot"
    by (simp add: same_policy_def limited_inputs_def limited_snapshot_def sample_settings_def hold_settings_ok_def
        is_u64_def is_u32_def)
  have force: "in_force [limited_snapshot] (ar_finished_at limited_result) = Some limited_snapshot"
    by (simp add: in_force_def limited_snapshot_def limited_result_def)
  have cap: "retry_after_cap_at [limited_snapshot] 1000000000 = Some 90000000000"
    using same_policy_reads(1) [OF same force] by (simp add: limited_inputs_def limited_result_def)
  have hold: "?p \<in> set (retry_hold [limited_snapshot] (ps_ordinary_cadence limited_snapshot)
        (result_record_of limited_result) @
      auth_hold [limited_snapshot] (ps_ordinary_cadence limited_snapshot) (result_record_of limited_result)
        (di_consecutive_auth_failures limited_inputs))"
    by (simp add: retry_hold_def result_record_of_def limited_result_def limited_snapshot_def
        cap [unfolded limited_snapshot_def] u64_as_i64_def wrap_i64_def)
  have last: "last_entry limited_inputs = Some \<lparr>he_attempt = \<lparr>as_attempt_id = AttemptId 1, as_started_at = 0\<rparr>,
      he_due_at = 0, he_result = Some limited_result\<rparr>"
    by (simp add: last_entry_def limited_inputs_def)
  have "\<exists>u. evaluate limited_inputs = NotYet u OrdinaryCadence \<and> pp_end ?p \<le> u"
    by (rule excused_instants_were_held [OF same force last _ hold])
      (simp_all add: limited_inputs_def hold_instants_def unobserved_reset_def edge_reset_def passed_reset_def
        next_reset_def filter_opt_def)
  then show ?thesis by simp
qed

end
