(* ===== verification/Meter_Coverage_Report.thy ===== *)
theory Meter_Coverage_Report
  imports Meter_Coverage_Laws
begin

text \<open>
  The whole report of \<open>src/coverage.rs\<close>: it exists for positive cadences, its counts are those of
  the interval, and it does not depend on the order of the records it is given.
\<close>

lemma owed_over_positive:
  "\<forall>s\<in>set snapshots. 0 < ps_ordinary_cadence s \<Longrightarrow> owed_over snapshots holds pairs acc \<noteq> ZeroCadence"
proof (induction pairs arbitrary: acc)
  case (Cons ab pairs)
  obtain a b where ab: "ab = (a, b)" by (cases ab)
  show ?case
  proof (cases "cadence_at snapshots a")
    case (Some c)
    then have "c \<noteq> 0" using cadence_at_in Cons.prems by fastforce
    then show ?thesis using Cons Some by (simp add: ab Let_def)
  qed (simp add: ab)
qed simp

lemma expected_opportunities_positive:
  assumes "\<forall>s\<in>set snapshots. 0 < ps_ordinary_cadence s"
  shows "expected_opportunities start stop snapshots holds \<noteq> None"
  using owed_over_positive [OF assms]
  by (auto simp: expected_opportunities_def Let_def split: option.splits owed_sum.splits)

lemma length_filter_sort_key: "length (filter P (sort_key f xs)) = length (filter P xs)"
proof -
  have "mset (filter P (sort_key f xs)) = mset (filter P xs)" by simp
  then show ?thesis by (metis size_mset)
qed

lemma length_filter_split:
  "length (filter P xs) = length (filter (\<lambda>x. P x \<and> Q x) xs) + length (filter (\<lambda>x. P x \<and> \<not> Q x) xs)"
  by (induction xs) auto

text \<open>
  Collector interruption is not provider failure: with positive cadences the report exists; the
  attempts it counts are the ones started in the interval, split exactly into the unfinished and the
  terminal ones; measurement coverage divides the observations of the interval by the terminal
  attempts alone, and is absent when there is none; and the run is severe exactly when a reset fell
  into a sampling hole.
\<close>

theorem report_counts_are_exact:
  assumes "\<forall>s\<in>set (ci_policy_snapshots i). 0 < ps_ordinary_cadence s"
  shows "\<exists>r. coverage_compute i = Some r \<and>
    cr_attempted_opportunities r = length (filter (\<lambda>a. within i (at_started_at a)) (ci_attempts i)) \<and>
    cr_started_without_terminal_result r =
      length (filter (\<lambda>a. within i (at_started_at a) \<and> at_result a = None) (ci_attempts i)) \<and>
    cr_measurement_coverage r =
      coverage_fraction_new (length (filter (within i) (ci_observations i)))
        (length (filter (\<lambda>a. within i (at_started_at a) \<and> at_result a \<noteq> None) (ci_attempts i))) \<and>
    (cr_severe r \<longleftrightarrow> cr_reset_spanning_gaps r \<noteq> [])"
proof -
  let ?snaps = "sort_key ps_effective_at (ci_policy_snapshots i)"
  let ?attempts = "sort_key at_started_at (ci_attempts i)"
  have "\<forall>s\<in>set ?snaps. 0 < ps_ordinary_cadence s" using assms by simp
  from expected_opportunities_positive [OF this] obtain e where e:
    "expected_opportunities (ci_interval_start i) (ci_interval_end i) ?snaps (postponements ?attempts ?snaps) = Some e"
    by blast
  have attempted: "length (filter (within i) (map at_started_at ?attempts)) =
      length (filter (\<lambda>a. within i (at_started_at a)) (ci_attempts i))"
    by (simp add: filter_map comp_def length_filter_sort_key)
  have terminal: "length (filter (\<lambda>a. within i (at_started_at a)) (ci_attempts i)) -
      length (filter (\<lambda>a. within i (at_started_at a) \<and> at_result a = None) (ci_attempts i)) =
      length (filter (\<lambda>a. within i (at_started_at a) \<and> at_result a \<noteq> None) (ci_attempts i))"
    using length_filter_split [of "\<lambda>a. within i (at_started_at a)" "ci_attempts i" "\<lambda>a. at_result a = None"] by simp
  show ?thesis
    unfolding coverage_compute_def Let_def e option.case
    by (simp add: attempted filter_map comp_def length_filter_sort_key terminal del: not_None_eq)
qed

definition sample_coverage :: coverage_inputs where
  "sample_coverage =
     \<lparr>ci_interval_start = 0, ci_interval_end = 100,
      ci_policy_snapshots = [\<lparr>ps_effective_at = 0, ps_ordinary_cadence = 10, ps_retry_backoff_policy = ''none''\<rparr>],
      ci_attempts =
        [\<lparr>at_started_at = 30, at_result = None, at_credential_changed = False\<rparr>,
         \<lparr>at_started_at = 20, at_result = Some \<lparr>arr_finished_at = 21, arr_retry_after = None,
           arr_is_auth_required = False\<rparr>, at_credential_changed = False\<rparr>],
      ci_observations = [21], ci_resets = [], ci_timer_runs = []\<rparr>"

theorem report_counts_are_exact_witness:
  "\<exists>r. coverage_compute sample_coverage = Some r \<and> cr_attempted_opportunities r = 2 \<and>
     cr_started_without_terminal_result r = 1 \<and>
     cr_measurement_coverage r = Some \<lparr>cf_numerator = 1, cf_denominator = 1\<rparr>"
proof -
  have "\<forall>s\<in>set (ci_policy_snapshots sample_coverage). 0 < ps_ordinary_cadence s"
    by (simp add: sample_coverage_def)
  then obtain r where r: "coverage_compute sample_coverage = Some r"
    "cr_attempted_opportunities r =
       length (filter (\<lambda>a. within sample_coverage (at_started_at a)) (ci_attempts sample_coverage))"
    "cr_started_without_terminal_result r =
       length (filter (\<lambda>a. within sample_coverage (at_started_at a) \<and> at_result a = None) (ci_attempts sample_coverage))"
    "cr_measurement_coverage r =
       coverage_fraction_new (length (filter (within sample_coverage) (ci_observations sample_coverage)))
         (length (filter (\<lambda>a. within sample_coverage (at_started_at a) \<and> at_result a \<noteq> None) (ci_attempts sample_coverage)))"
    using report_counts_are_exact [of sample_coverage] by blast
  have "cr_attempted_opportunities r = 2" "cr_started_without_terminal_result r = 1"
      "cr_measurement_coverage r = Some \<lparr>cf_numerator = 1, cf_denominator = 1\<rparr>"
    unfolding r(2-4) by (simp_all add: sample_coverage_def within_def coverage_fraction_new_def)
  then show ?thesis using r(1) by blast
qed

text \<open>
  The order of the records does not matter: inputs that are permutations of one another, with no
  two snapshots effective at one instant and no two attempts started at one instant, give the same
  report.
\<close>

theorem coverage_order_independent:
  assumes "ci_interval_start i = ci_interval_start j" "ci_interval_end i = ci_interval_end j"
    and "mset (ci_policy_snapshots i) = mset (ci_policy_snapshots j)" "mset (ci_attempts i) = mset (ci_attempts j)"
    and "mset (ci_observations i) = mset (ci_observations j)" "mset (ci_resets i) = mset (ci_resets j)"
    and "mset (ci_timer_runs i) = mset (ci_timer_runs j)"
    and "inj_on ps_effective_at (set (ci_policy_snapshots i))" "inj_on at_started_at (set (ci_attempts i))"
  shows "coverage_compute i = coverage_compute j"
proof -
  have sorted: "sort xs = sort ys" if "mset xs = mset ys" for xs ys :: "int list"
    using that by (metis sorted_list_of_multiset_mset)
  have "sort_key ps_effective_at (ci_policy_snapshots i) = sort_key ps_effective_at (ci_policy_snapshots j)"
    by (rule sort_key_inj_key_eq) (use assms(3,8) in simp_all)
  moreover have "sort_key at_started_at (ci_attempts i) = sort_key at_started_at (ci_attempts j)"
    by (rule sort_key_inj_key_eq) (use assms(4,9) in simp_all)
  moreover have "within i = within j" using assms(1,2) by (simp add: within_def fun_eq_iff)
  ultimately show ?thesis
    unfolding coverage_compute_def using assms(1,2) sorted [OF assms(5)] sorted [OF assms(6)] sorted [OF assms(7)]
    by (simp only:)
qed

theorem coverage_order_independent_witness:
  "coverage_compute sample_coverage =
   coverage_compute (sample_coverage\<lparr>ci_attempts := rev (ci_attempts sample_coverage)\<rparr>)"
  by (rule coverage_order_independent) (simp_all add: sample_coverage_def)

end
