(* ===== verification/Leases.thy ===== *)
theory Leases
  imports Ordered_Map Time_Model
begin

text \<open>
  \<open>src/store/sampling_lease.rs\<close> with its table from
  \<open>src/store/migrations/0002_sampling_lease.rs\<close>: at most one sampler per account. The table is a map
  from account name to row (its primary key), with the row checks of the migration. Each operation is
  one immediate transaction or one statement, so it is one atomic step; a database failure leaves the
  table as it was. What several samplers do in turn is a step relation over the table and a log of the
  grants, releases and repairs; each operation brings the reading of its own caller's clock, and nothing
  relates the readings of different operations.
\<close>

section \<open>The table and its operations\<close>

record lease =
  ls_account :: string
  ls_holder :: string
  ls_acquired_at :: utc_timestamp
  ls_expires_at :: utc_timestamp

datatype lease_outcome = Granted lease | AlreadyHeld lease

datatype lease_error = ZeroTtl | TtlOutOfRange | ConstraintFailed

record lease_health =
  lh_live :: nat
  lh_expired :: nat

type_synonym lease_table = "(string, lease) omap"

definition default_lease_ttl :: monotonic_duration where "default_lease_ttl = from_seconds 30"

definition expiry :: "utc_timestamp \<Rightarrow> monotonic_duration \<Rightarrow> utc_timestamp option" where
  "expiry now ttl =
     (if int ttl \<le> i64_max \<and> is_i64 (now + int ttl) then Some (now + int ttl) else None)"

definition row_checks :: "lease \<Rightarrow> bool" where
  "row_checks l \<longleftrightarrow> ls_account l \<noteq> [] \<and> ls_holder l \<noteq> [] \<and> ls_expires_at l > ls_acquired_at l"

definition read_lease :: "lease_table \<Rightarrow> string \<Rightarrow> lease option" where
  "read_lease t account = om_get t account"

definition live_at :: "utc_timestamp \<Rightarrow> lease \<Rightarrow> bool" where
  "live_at now l \<longleftrightarrow> ls_expires_at l > now"

definition acquire ::
    "lease_table \<Rightarrow> string \<Rightarrow> string \<Rightarrow> monotonic_duration \<Rightarrow> utc_timestamp \<Rightarrow>
     (lease_error + lease_outcome) \<times> lease_table" where
  "acquire t account holder ttl now =
     (if ttl = 0 then (Inl ZeroTtl, t)
      else case expiry now ttl of
        None \<Rightarrow> (Inl TtlOutOfRange, t)
      | Some expires_at \<Rightarrow>
          (case filter (live_at now) (case read_lease t account of None \<Rightarrow> [] | Some l \<Rightarrow> [l]) of
             existing # _ \<Rightarrow> (Inr (AlreadyHeld existing), t)
           | [] \<Rightarrow>
               let granted = \<lparr>ls_account = account, ls_holder = holder, ls_acquired_at = now,
                              ls_expires_at = expires_at\<rparr>
               in if row_checks granted
                  then (Inr (Granted granted), om_insert account granted t)
                  else (Inl ConstraintFailed, t)))"

definition release :: "lease_table \<Rightarrow> string \<Rightarrow> string \<Rightarrow> bool \<times> lease_table" where
  "release t account holder =
     (case om_get t account of
        Some l \<Rightarrow> if ls_holder l = holder then (True, om_remove account t) else (False, t)
      | None \<Rightarrow> (False, t))"

definition clear_expired :: "lease_table \<Rightarrow> utc_timestamp \<Rightarrow> nat \<times> lease_table" where
  "clear_expired t now =
     (length (filter (\<lambda>(k, l). ls_expires_at l \<le> now) t), filter (\<lambda>(k, l). \<not> ls_expires_at l \<le> now) t)"

definition lease_health_of :: "lease_table \<Rightarrow> utc_timestamp \<Rightarrow> lease_health" where
  "lease_health_of t now =
     (let live = length (filter (\<lambda>(k, l). live_at now l) t)
      in \<lparr>lh_live = live, lh_expired = length t - live\<rparr>)"

section \<open>Samplers taking turns\<close>

datatype lease_event = Grant lease | Release string string | Repair utc_timestamp

record lease_world =
  lw_table :: lease_table
  lw_log :: "lease_event list"

text \<open>
  A caller that dies takes no further step: its lease stays in the table with nobody to release it.
\<close>

inductive lease_step :: "lease_world \<Rightarrow> lease_world \<Rightarrow> bool" where
  grant: "acquire (lw_table w) account holder ttl now = (Inr (Granted l), t) \<Longrightarrow>
    lease_step w \<lparr>lw_table = t, lw_log = lw_log w @ [Grant l]\<rparr>"
| refuse: "acquire (lw_table w) account holder ttl now = (r, t) \<Longrightarrow> (\<And>l. r \<noteq> Inr (Granted l)) \<Longrightarrow>
    lease_step w (w\<lparr>lw_table := t\<rparr>)"
| released: "release (lw_table w) account holder = (True, t) \<Longrightarrow>
    lease_step w \<lparr>lw_table = t, lw_log = lw_log w @ [Release account holder]\<rparr>"
| not_released: "release (lw_table w) account holder = (False, t) \<Longrightarrow> lease_step w (w\<lparr>lw_table := t\<rparr>)"
| cleared: "clear_expired (lw_table w) now = (n, t) \<Longrightarrow>
    lease_step w \<lparr>lw_table = t, lw_log = lw_log w @ [Repair now]\<rparr>"

inductive lease_reachable :: "lease_world \<Rightarrow> bool" where
  start: "lease_reachable \<lparr>lw_table = [], lw_log = []\<rparr>"
| step: "lease_reachable w \<Longrightarrow> lease_step w w' \<Longrightarrow> lease_reachable w'"

inductive_cases lease_stepE: "lease_step w w'"

text \<open>The clock readings of a log, and the events after which a lease no longer stands.\<close>

fun clock_readings :: "lease_event list \<Rightarrow> utc_timestamp list" where
  "clock_readings [] = []"
| "clock_readings (Grant l # log) = ls_acquired_at l # clock_readings log"
| "clock_readings (Repair now # log) = now # clock_readings log"
| "clock_readings (Release account holder # log) = clock_readings log"

definition ended_by :: "lease \<Rightarrow> lease_event \<Rightarrow> bool" where
  "ended_by l e =
     (case e of
        Grant k \<Rightarrow> ls_account k = ls_account l \<and> ls_expires_at l \<le> ls_acquired_at k
      | Repair now \<Rightarrow> ls_expires_at l \<le> now
      | Release account holder \<Rightarrow> account = ls_account l \<and> holder = ls_holder l)"

section \<open>What each operation does\<close>

lemma acquire_cases:
  "acquire t account holder ttl now = (r, t') \<Longrightarrow>
     (t' = t \<and> (\<forall>l. r \<noteq> Inr (Granted l))) \<or>
     (\<exists>e. r = Inr (Granted \<lparr>ls_account = account, ls_holder = holder, ls_acquired_at = now, ls_expires_at = e\<rparr>) \<and>
        t' = om_insert account \<lparr>ls_account = account, ls_holder = holder, ls_acquired_at = now, ls_expires_at = e\<rparr> t \<and>
        now < e \<and> (\<forall>l. om_get t account = Some l \<longrightarrow> ls_expires_at l \<le> now))"
  by (auto simp: acquire_def read_lease_def live_at_def row_checks_def Let_def
      split: if_splits option.splits list.splits)

lemma acquire_Granted:
  assumes "acquire t account holder ttl now = (Inr (Granted l), t')"
  shows "ls_account l = account" "ls_holder l = holder" "ls_acquired_at l = now" "now < ls_expires_at l"
    "t' = om_insert account l t" "om_get t account = Some l' \<Longrightarrow> ls_expires_at l' \<le> now"
  using acquire_cases [OF assms] by auto

lemma release_True:
  assumes "release t account holder = (True, t')"
  shows "t' = om_remove account t" "\<exists>l. om_get t account = Some l \<and> ls_holder l = holder"
  using assms by (auto simp: release_def split: option.splits if_splits)

lemma release_False: "release t account holder = (False, t') \<Longrightarrow> t' = t"
  by (auto simp: release_def split: option.splits if_splits)

lemma om_get_filter:
  "om_ok t \<Longrightarrow> om_get (filter (\<lambda>(k, l). P l) t) a = (case om_get t a of Some l \<Rightarrow> if P l then Some l else None | None \<Rightarrow> None)"
proof (induction t)
  case (Cons x t)
  obtain k l where x: "x = (k, l)" by (cases x)
  have "om_ok t" using Cons.prems by (simp add: om_ok_def)
  moreover have "om_get t a = None" if "k = a"
    using Cons.prems that by (force simp: x om_ok_def om_get_def map_of_eq_None_iff)
  ultimately show ?case using Cons.IH by (auto simp: x om_get_def)
qed (simp add: om_get_def)

lemma om_ok_filter: "om_ok t \<Longrightarrow> om_ok (filter P t)"
  by (auto simp: om_ok_def sorted_wrt_map intro: sorted_wrt_filter)

section \<open>The invariant of every run\<close>

text \<open>A grant is accounted for: something ended it since, or its row still stands.\<close>

definition accounted :: "lease_world \<Rightarrow> lease \<Rightarrow> lease_event list \<Rightarrow> bool" where
  "accounted w l later \<longleftrightarrow> list_ex (ended_by l) later \<or> om_get (lw_table w) (ls_account l) = Some l"

definition exclusive :: "lease_event list \<Rightarrow> bool" where
  "exclusive log \<longleftrightarrow>
     (\<forall>before l1 between l2 after. log = before @ Grant l1 # between @ Grant l2 # after \<longrightarrow>
        ls_account l1 = ls_account l2 \<longrightarrow> list_ex (ended_by l1) (between @ [Grant l2]))"

definition lease_inv :: "lease_world \<Rightarrow> bool" where
  "lease_inv w \<longleftrightarrow>
     om_ok (lw_table w) \<and>
     (\<forall>before l later. lw_log w = before @ Grant l # later \<longrightarrow> accounted w l later) \<and> exclusive (lw_log w)"

lemma snoc_eq_cases:
  "log @ [e] = before @ x # later \<longleftrightarrow>
     (later = [] \<and> log = before \<and> e = x) \<or> (\<exists>later'. later = later' @ [e] \<and> log = before @ x # later')"
  by (cases later rule: rev_cases) auto

lemma exclusive_snoc:
  assumes "exclusive log"
    and "\<And>l before l1 between. e = Grant l \<Longrightarrow> log = before @ Grant l1 # between \<Longrightarrow> ls_account l1 = ls_account l \<Longrightarrow>
      list_ex (ended_by l1) (between @ [Grant l])"
  shows "exclusive (log @ [e])"
  unfolding exclusive_def
proof (intro allI impI)
  fix before l1 between l2 after
  assume "log @ [e] = before @ Grant l1 # between @ Grant l2 # after" and acc: "ls_account l1 = ls_account l2"
  then have "log @ [e] = (before @ Grant l1 # between) @ Grant l2 # after" by simp
  then consider "log = before @ Grant l1 # between" "e = Grant l2"
    | after' where "log = (before @ Grant l1 # between) @ Grant l2 # after'"
    unfolding snoc_eq_cases by auto
  then show "list_ex (ended_by l1) (between @ [Grant l2])"
  proof cases
    case 1
    then show ?thesis using assms(2) acc by simp
  next
    case 2
    then show ?thesis using assms(1) acc unfolding exclusive_def by (metis append.assoc append_Cons)
  qed
qed

text \<open>A step that logs an event keeps the invariant when the leases the event does not end keep their rows.\<close>

lemma lease_inv_snoc:
  assumes inv: "lease_inv w" and ok: "om_ok t"
    and kept: "\<And>k. om_get (lw_table w) (ls_account k) = Some k \<Longrightarrow> ended_by k e \<or> om_get t (ls_account k) = Some k"
    and granted: "\<And>l. e = Grant l \<Longrightarrow> om_get t (ls_account l) = Some l \<and>
      (\<forall>k. ls_account k = ls_account l \<longrightarrow> om_get (lw_table w) (ls_account k) = Some k \<longrightarrow> ended_by k e)"
  shows "lease_inv \<lparr>lw_table = t, lw_log = lw_log w @ [e]\<rparr>"
proof -
  have old: "list_ex (ended_by k) (later @ [e]) \<or> om_get t (ls_account k) = Some k"
    if "lw_log w = before @ Grant k # later" for before k later
    using inv that kept [of k] by (auto simp: lease_inv_def accounted_def)
  have "accounted \<lparr>lw_table = t, lw_log = lw_log w @ [e]\<rparr> k later" if "lw_log w @ [e] = before @ Grant k # later" for before k later
    using that unfolding snoc_eq_cases
  proof (elim disjE exE conjE)
    fix later' assume later: "later = later' @ [e]" "lw_log w = before @ Grant k # later'"
    show ?thesis using old [OF later(2)] by (simp add: accounted_def later(1))
  qed (use granted in \<open>simp add: accounted_def\<close>)
  moreover have "exclusive (lw_log w @ [e])"
  proof (rule exclusive_snoc)
    fix l before l1 between
    assume "e = Grant l" "lw_log w = before @ Grant l1 # between" "ls_account l1 = ls_account l"
    then show "list_ex (ended_by l1) (between @ [Grant l])"
      using inv granted [of l] by (fastforce simp: lease_inv_def accounted_def)
  qed (use inv in \<open>simp add: lease_inv_def\<close>)
  ultimately show ?thesis using ok by (simp add: lease_inv_def)
qed

lemma lease_step_inv: "lease_step w w' \<Longrightarrow> lease_inv w \<Longrightarrow> lease_inv w'"
proof (induction rule: lease_step.induct)
  case (grant w account holder ttl now l t)
  note a = acquire_Granted [OF grant.hyps]
  have "om_ok (lw_table w)" using grant.prems by (simp add: lease_inv_def)
  then show ?case
    using grant.prems a by (intro lease_inv_snoc) (auto simp: ended_by_def om_ok_insert)
next
  case (refuse w account holder ttl now r t)
  then have "t = lw_table w" using acquire_cases by blast
  then show ?case using refuse.prems by simp
next
  case (released w account holder t)
  then have "om_ok (lw_table w)" by (simp add: lease_inv_def)
  then show ?case
    using released.prems release_True [OF released.hyps] by (intro lease_inv_snoc) (auto simp: ended_by_def)
next
  case (not_released w account holder t)
  then show ?case by (simp add: release_False [OF not_released.hyps])
next
  case (cleared w now n t)
  then have ok: "om_ok (lw_table w)" and t: "t = filter (\<lambda>(k, l). \<not> ls_expires_at l \<le> now) (lw_table w)"
    by (auto simp: lease_inv_def clear_expired_def)
  show ?case
    using cleared.prems
    by (intro lease_inv_snoc) (auto simp: t ended_by_def om_get_filter [OF ok] intro: om_ok_filter ok)
qed

lemma lease_reachable_inv: "lease_reachable w \<Longrightarrow> lease_inv w"
proof (induction rule: lease_reachable.induct)
  case start
  then show ?case by (simp add: lease_inv_def exclusive_def om_ok_def)
qed (rule lease_step_inv)

section \<open>Properties\<close>

lemma clock_readings_append: "clock_readings (log @ log') = clock_readings log @ clock_readings log'"
  by (induction log rule: clock_readings.induct) simp_all

lemma ended_by_reading:
  "ended_by l e \<Longrightarrow> e \<in> set log \<Longrightarrow>
     Release (ls_account l) (ls_holder l) \<in> set log \<or> (\<exists>now\<in>set (clock_readings log). ls_expires_at l \<le> now)"
  by (induction log rule: clock_readings.induct) (auto simp: ended_by_def)

text \<open>
  C4. At most one sampler per account. In every run of acquisitions, releases and repairs, whatever the clocks of the
  callers read, an earlier lease never stands when its account is granted again: between the two grants, or with the
  second, it was released by its holder, or cleared by a repair or replaced by a grant whose own clock had reached its
  expiry. If the clock does not go back from the first grant to the second, the earlier lease had expired by the
  second one's own clock unless its holder released it in between.
\<close>

theorem leases_exclude_each_other:
  assumes "lease_reachable w"
    and "lw_log w = before @ Grant l1 # between @ Grant l2 # after" "ls_account l1 = ls_account l2"
  shows "list_ex (ended_by l1) (between @ [Grant l2]) \<and>
    (sorted (clock_readings (Grant l1 # between @ [Grant l2])) \<longrightarrow>
       ls_expires_at l1 \<le> ls_acquired_at l2 \<or> Release (ls_account l1) (ls_holder l1) \<in> set between)"
proof -
  have ended: "list_ex (ended_by l1) (between @ [Grant l2])"
    using lease_reachable_inv [OF assms(1)] assms(2,3) unfolding lease_inv_def exclusive_def by blast
  then obtain e where "ended_by l1 e" "e \<in> set (between @ [Grant l2])" by (auto simp: list_ex_iff)
  then have "Release (ls_account l1) (ls_holder l1) \<in> set between \<or>
      (\<exists>now\<in>set (clock_readings (between @ [Grant l2])). ls_expires_at l1 \<le> now)"
    using ended_by_reading [of l1 e "between @ [Grant l2]"] by auto
  then show ?thesis using ended by (auto simp: clock_readings_append sorted_append)
qed

text \<open>Two triggers at one instant, and a third after the first lease ran out unreleased.\<close>

definition sample_lease :: "string \<Rightarrow> utc_timestamp \<Rightarrow> lease" where
  "sample_lease holder at =
     \<lparr>ls_account = ''a'', ls_holder = holder, ls_acquired_at = at, ls_expires_at = at + 30\<rparr>"

lemma acquire_sample:
  assumes "case om_get t ''a'' of None \<Rightarrow> True | Some l \<Rightarrow> ls_expires_at l \<le> at"
    and "is_i64 (at + 30)" "holder \<noteq> []"
  shows "acquire t ''a'' holder 30 at =
    (Inr (Granted (sample_lease holder at)), om_insert ''a'' (sample_lease holder at) t)"
  using assms
  by (auto simp: acquire_def expiry_def read_lease_def live_at_def row_checks_def sample_lease_def Let_def
      split: option.splits)

lemma sample_run:
  "lease_reachable \<lparr>lw_table = [(''a'', sample_lease ''cli'' 40)],
     lw_log = [Grant (sample_lease ''timer'' 0), Grant (sample_lease ''cli'' 40)]\<rparr>"
proof -
  let ?w0 = "\<lparr>lw_table = [], lw_log = []\<rparr>"
  let ?w1 = "\<lparr>lw_table = [(''a'', sample_lease ''timer'' 0)], lw_log = [Grant (sample_lease ''timer'' 0)]\<rparr>"
  have "acquire [] ''a'' ''timer'' 30 0 = (Inr (Granted (sample_lease ''timer'' 0)), [(''a'', sample_lease ''timer'' 0)])"
    using acquire_sample [where t = "[]" and at = 0 and holder = "''timer''"] by (simp add: om_get_def is_i64_def)
  then have "lease_step ?w0 ?w1"
    using lease_step.grant [where w = ?w0 and now = 0 and account = "''a''" and holder = "''timer''" and ttl = 30] by simp
  with lease_reachable.start
  have one: "lease_reachable ?w1" by (rule lease_reachable.step)
  have "acquire [(''a'', sample_lease ''timer'' 0)] ''a'' ''cli'' 30 40 =
      (Inr (Granted (sample_lease ''cli'' 40)), [(''a'', sample_lease ''cli'' 40)])"
    using acquire_sample [where t = "[(''a'', sample_lease ''timer'' 0)]" and at = 40 and holder = "''cli''"]
    by (simp add: om_get_def is_i64_def sample_lease_def [of "''timer''"])
  then have "lease_step ?w1 \<lparr>lw_table = [(''a'', sample_lease ''cli'' 40)],
      lw_log = [Grant (sample_lease ''timer'' 0), Grant (sample_lease ''cli'' 40)]\<rparr>"
    using lease_step.grant [where w = ?w1 and now = 40 and account = "''a''" and holder = "''cli''" and ttl = 30] by simp
  with one show ?thesis by (rule lease_reachable.step)
qed

theorem leases_exclude_each_other_witness:
  "ls_expires_at (sample_lease ''timer'' 0) \<le> ls_acquired_at (sample_lease ''cli'' 40)"
  using leases_exclude_each_other [OF sample_run, of "[]" "sample_lease ''timer'' 0" "[]" "sample_lease ''cli'' 40" "[]"]
  by (simp add: sample_lease_def)

text \<open>
  When a clock goes back, the later lease may begin before the earlier one's expiry: a repair whose clock runs ahead
  clears the row, and the next caller's own clock is not asked.
\<close>

lemma clocks_apart_can_overlap:
  "\<exists>w l1 l2 now. lease_reachable w \<and> lw_log w = [Grant l1, Repair now, Grant l2] \<and> ls_account l1 = ls_account l2 \<and>
     ls_acquired_at l2 < ls_expires_at l1"
proof -
  let ?first = "\<lparr>lw_table = [(''a'', sample_lease ''timer'' 0)], lw_log = [Grant (sample_lease ''timer'' 0)]\<rparr>"
  let ?empty = "\<lparr>lw_table = [], lw_log = [Grant (sample_lease ''timer'' 0), Repair 50]\<rparr>"
  have "lease_step \<lparr>lw_table = [], lw_log = []\<rparr> ?first"
    using acquire_sample [where t = "[]" and at = 0 and holder = "''timer''"]
      lease_step.grant [where w = "\<lparr>lw_table = [], lw_log = []\<rparr>" and now = 0 and account = "''a''" and holder = "''timer''" and ttl = 30]
    by (simp add: om_get_def is_i64_def)
  moreover have "lease_step ?first ?empty"
    using lease_step.cleared [where w = ?first and now = 50 and t = "[]"] by (simp add: clear_expired_def sample_lease_def)
  moreover have "lease_step ?empty
      \<lparr>lw_table = [(''a'', sample_lease ''cli'' 10)], lw_log = lw_log ?empty @ [Grant (sample_lease ''cli'' 10)]\<rparr>"
    using acquire_sample [where t = "[]" and at = 10 and holder = "''cli''"]
      lease_step.grant [where w = ?empty and now = 10 and account = "''a''" and holder = "''cli''" and ttl = 30]
    by (simp add: om_get_def is_i64_def)
  ultimately have "lease_reachable \<lparr>lw_table = [(''a'', sample_lease ''cli'' 10)],
      lw_log = lw_log ?empty @ [Grant (sample_lease ''cli'' 10)]\<rparr>"
    using lease_reachable.intros by blast
  moreover have "ls_acquired_at (sample_lease ''cli'' 10) < ls_expires_at (sample_lease ''timer'' 0)"
      "ls_account (sample_lease ''timer'' 0) = ls_account (sample_lease ''cli'' 10)"
    by (simp_all add: sample_lease_def)
  ultimately show ?thesis by fastforce
qed

text \<open>
  A dead holder blocks its account for at most its time to live: a request is answered by the
  recorded lease exactly while that lease is unexpired, and otherwise it is granted, from the instant
  of the request for the requested time; a refusal of any kind changes nothing, and a grant changes
  only the row of its account.
\<close>

theorem acquisition_outcomes:
  assumes "om_ok t" "0 < ttl" "int ttl \<le> i64_max" "is_i64 (now + int ttl)" "account \<noteq> []" "holder \<noteq> []"
  shows "let granted = \<lparr>ls_account = account, ls_holder = holder, ls_acquired_at = now, ls_expires_at = now + int ttl\<rparr>;
      result = acquire t account holder ttl now
    in (case om_get t account of
          Some l \<Rightarrow> if now < ls_expires_at l then result = (Inr (AlreadyHeld l), t) else fst result = Inr (Granted granted)
        | None \<Rightarrow> fst result = Inr (Granted granted)) \<and>
       (fst result = Inr (Granted granted) \<longrightarrow>
          (\<forall>a. om_get (snd result) a = (if a = account then Some granted else om_get t a)))"
  using assms
  by (cases "om_get t account")
    (simp_all add: acquire_def expiry_def read_lease_def live_at_def row_checks_def Let_def)

theorem acquisition_outcomes_witness:
  "acquire [(''a'', sample_lease ''timer'' 0)] ''a'' ''cli'' 30 29 =
     (Inr (AlreadyHeld (sample_lease ''timer'' 0)), [(''a'', sample_lease ''timer'' 0)]) \<and>
   fst (acquire [(''a'', sample_lease ''timer'' 0)] ''a'' ''cli'' 30 30) = Inr (Granted (sample_lease ''cli'' 30))"
proof -
  have ok: "om_ok [(''a'', sample_lease ''timer'' 0)]" by (simp add: om_ok_def)
  have get: "om_get [(''a'', sample_lease ''timer'' 0)] ''a'' = Some (sample_lease ''timer'' 0)" by (simp add: om_get_def)
  have e: "ls_expires_at (sample_lease ''timer'' 0) = 30"
      "\<lparr>ls_account = ''a'', ls_holder = ''cli'', ls_acquired_at = 30, ls_expires_at = 30 + int 30\<rparr> = sample_lease ''cli'' 30"
    by (simp_all add: sample_lease_def)
  show ?thesis
    using acquisition_outcomes [OF ok, of 30 29 "''a''" "''cli''"] acquisition_outcomes [OF ok, of 30 30 "''a''" "''cli''"]
    unfolding Let_def get e option.case by (simp add: e(1) is_i64_def)
qed

text \<open>
  The repair is safe: it removes exactly the expired rows, so a live lease is never touched and
  no expired one is left, and its count is the health report's.
\<close>

theorem repair_removes_only_expired:
  assumes "om_ok t"
  shows "om_get (snd (clear_expired t now)) a =
      (case om_get t a of Some l \<Rightarrow> if live_at now l then Some l else None | None \<Rightarrow> None) \<and>
    fst (clear_expired t now) = lh_expired (lease_health_of t now) \<and>
    lease_health_of (snd (clear_expired t now)) now = \<lparr>lh_live = lh_live (lease_health_of t now), lh_expired = 0\<rparr>"
proof -
  have neg: "(\<lambda>(k :: string, l). \<not> ls_expires_at l \<le> now) = (\<lambda>(k, l). live_at now l)"
    by (auto simp: live_at_def)
  have sum: "length (filter (\<lambda>(k, l). ls_expires_at l \<le> now) t) + length (filter (\<lambda>(k, l). live_at now l) t) = length t"
    by (induction t) (auto simp: live_at_def)
  show ?thesis
    using om_get_filter [OF assms, of "live_at now"] sum
    by (simp add: clear_expired_def lease_health_of_def neg Let_def)
qed

theorem repair_removes_only_expired_witness:
  "clear_expired [(''a'', sample_lease ''timer'' 0), (''b'', sample_lease ''cli'' 40)] 50 =
     (1, [(''b'', sample_lease ''cli'' 40)]) \<and>
   lh_expired (lease_health_of [(''a'', sample_lease ''timer'' 0), (''b'', sample_lease ''cli'' 40)] 50) = 1"
proof -
  have ok: "om_ok [(''a'', sample_lease ''timer'' 0), (''b'', sample_lease ''cli'' 40)]"
    by (simp add: om_ok_def less_char_def)
  have c: "clear_expired [(''a'', sample_lease ''timer'' 0), (''b'', sample_lease ''cli'' 40)] 50 =
     (1, [(''b'', sample_lease ''cli'' 40)])"
    by (simp add: clear_expired_def sample_lease_def)
  then show ?thesis using repair_removes_only_expired [OF ok, of 50] by simp
qed

end
