(* ===== verification/Selection.thy ===== *)
theory Selection
  imports Prelude
begin

text \<open>
  The first best element of a list under a strict weak order: what \<open>Iterator::min_by_key\<close> returns and what
  the selection loops of the code keep, replacing the best so far only by something that beats it.
\<close>

fun first_best :: "('a \<Rightarrow> 'a \<Rightarrow> bool) \<Rightarrow> 'a list \<Rightarrow> 'a option" where
  "first_best beats [] = None"
| "first_best beats (x # xs) =
     (case first_best beats xs of None \<Rightarrow> Some x | Some y \<Rightarrow> if beats y x then Some y else Some x)"

definition keep_best :: "('a \<Rightarrow> 'a \<Rightarrow> bool) \<Rightarrow> 'a option \<Rightarrow> 'a \<Rightarrow> 'a option" where
  "keep_best beats best x = (case best of None \<Rightarrow> Some x | Some y \<Rightarrow> if beats x y then Some x else best)"

lemma first_best_None [simp]: "first_best beats xs = None \<longleftrightarrow> xs = []"
  by (cases xs) (auto split: option.splits)

lemma first_best_in: "first_best beats xs = Some x \<Longrightarrow> x \<in> set xs"
  by (induction xs arbitrary: x) (auto split: option.splits if_splits)

lemma first_best_cong:
  "(\<And>x y. x \<in> set xs \<Longrightarrow> y \<in> set xs \<Longrightarrow> b1 x y \<longleftrightarrow> b2 x y) \<Longrightarrow> first_best b1 xs = first_best b2 xs"
proof (induction xs)
  case (Cons x xs)
  then have IH: "first_best b1 xs = first_best b2 xs" by simp
  show ?case using Cons.prems first_best_in [of b2 xs] by (auto simp: IH split: option.splits)
qed simp

lemma first_best_map: "first_best beats (map h xs) = map_option h (first_best (\<lambda>x y. beats (h x) (h y)) xs)"
  by (induction xs) (auto split: option.splits)

locale best_first =
  fixes beats :: "'a \<Rightarrow> 'a \<Rightarrow> bool"
  assumes irrefl: "\<not> beats x x"
    and trans: "beats x y \<Longrightarrow> beats y z \<Longrightarrow> beats x z"
    and weak: "\<not> beats x y \<Longrightarrow> \<not> beats y z \<Longrightarrow> \<not> beats x z"
begin

lemma unbeaten: "first_best beats xs = Some x \<Longrightarrow> y \<in> set xs \<Longrightarrow> \<not> beats y x"
proof (induction xs arbitrary: x y)
  case (Cons a xs)
  show ?case
  proof (cases "first_best beats xs")
    case None
    with Cons.prems irrefl show ?thesis by simp
  next
    case (Some z)
    then have z: "\<forall>v\<in>set xs. \<not> beats v z" using Cons.IH by blast
    show ?thesis
    proof (cases "beats z a")
      case True
      then have "x = z" using Cons.prems Some by auto
      moreover have "\<not> beats a z" using True trans irrefl by blast
      ultimately have "x = z" "\<not> beats a z" by simp_all
      then show ?thesis using z Cons.prems by auto
    next
      case False
      then have "x = a" using Cons.prems Some by auto
      then show ?thesis using z False Cons.prems irrefl weak by auto
    qed
  qed
qed simp

lemma first_best_iff:
  "first_best beats xs = Some x \<longleftrightarrow>
     (\<exists>pre post. xs = pre @ x # post \<and> (\<forall>y\<in>set pre. beats x y) \<and> (\<forall>y\<in>set post. \<not> beats y x))"
proof
  show "first_best beats xs = Some x \<Longrightarrow>
     \<exists>pre post. xs = pre @ x # post \<and> (\<forall>y\<in>set pre. beats x y) \<and> (\<forall>y\<in>set post. \<not> beats y x)"
  proof (induction xs)
    case (Cons z zs)
    show ?case
    proof (cases "first_best beats zs")
      case None
      then show ?thesis using Cons.prems by (intro exI [of _ "[]"]) auto
    next
      case (Some y)
      show ?thesis
      proof (cases "beats y z")
        case True
        then have "first_best beats zs = Some x" "x = y" using Cons.prems Some by auto
        with Cons.IH obtain pre post
          where "zs = pre @ x # post" "\<forall>y\<in>set pre. beats x y" "\<forall>y\<in>set post. \<not> beats y x" by blast
        then show ?thesis using True \<open>x = y\<close> by (intro exI [of _ "z # pre"] exI [of _ post]) auto
      next
        case False
        then have "x = z" using Cons.prems Some by auto
        moreover have "\<forall>v\<in>set zs. \<not> beats v z"
          using unbeaten [OF Some] False weak by blast
        ultimately show ?thesis by (intro exI [of _ "[]"] exI [of _ zs]) auto
      qed
    qed
  qed simp
  show "\<exists>pre post. xs = pre @ x # post \<and> (\<forall>y\<in>set pre. beats x y) \<and> (\<forall>y\<in>set post. \<not> beats y x) \<Longrightarrow>
     first_best beats xs = Some x"
  proof (elim exE conjE)
    fix pre post
    assume "xs = pre @ x # post" "\<forall>y\<in>set pre. beats x y" "\<forall>y\<in>set post. \<not> beats y x"
    then show "first_best beats xs = Some x"
    proof (induction pre arbitrary: xs)
      case Nil
      then show ?case using first_best_in by (fastforce split: option.splits)
    next
      case (Cons a pre)
      then have "first_best beats (pre @ x # post) = Some x" by auto
      then show ?case using Cons.prems by auto
    qed
  qed
qed

lemma keep_keep: "keep_best beats (keep_best beats b x) y = keep_best beats b (if beats y x then y else x)"
proof (cases b)
  case (Some z)
  then show ?thesis using trans [of y x z] weak [of y x z] by (simp add: keep_best_def)
qed (simp add: keep_best_def)

lemma foldl_keep:
  "foldl (keep_best beats) b xs =
     (case first_best beats xs of None \<Rightarrow> b | Some y \<Rightarrow> keep_best beats b y)"
  by (induction xs arbitrary: b) (auto simp: keep_keep split: option.splits)

lemma foldl_keep_None: "foldl (keep_best beats) None xs = first_best beats xs"
  by (simp add: foldl_keep keep_best_def split: option.splits)

lemma first_best_mset:
  assumes "mset xs = mset ys" "\<And>x y. x \<in> set xs \<Longrightarrow> y \<in> set xs \<Longrightarrow> x \<noteq> y \<Longrightarrow> beats x y \<or> beats y x"
  shows "first_best beats xs = first_best beats ys"
proof (cases "first_best beats xs")
  case None
  then show ?thesis using assms(1) by auto
next
  case (Some c)
  have same: "set ys = set xs" using assms(1) by (metis set_mset_mset)
  have "ys \<noteq> []" using assms(1) Some by auto
  then obtain d where d: "first_best beats ys = Some d"
    by (cases "first_best beats ys") simp_all
  have "c \<in> set xs" using Some by (rule first_best_in)
  moreover have "d \<in> set xs" using first_best_in [OF d] same by simp
  ultimately have "c \<in> set xs" "d \<in> set xs" by simp_all
  then have "\<not> beats d c" "\<not> beats c d" using unbeaten [OF Some, of d] unbeaten [OF d, of c] same by simp_all
  then have "c = d" using assms(2) \<open>c \<in> set xs\<close> \<open>d \<in> set xs\<close> by blast
  then show ?thesis using Some d by simp
qed

end

text \<open>The least key, and the greatest.\<close>

interpretation least: best_first "\<lambda>x y. f x < f y" for f :: "'a \<Rightarrow> 'k::linorder"
  by unfold_locales auto

interpretation greatest: best_first "\<lambda>x y. f y < f x" for f :: "'a \<Rightarrow> 'k::linorder"
  by unfold_locales auto

end
