(* ===== verification/Windows.thy ===== *)
theory Windows
  imports Ordered_Map Quantities Calendar Selection
begin

text \<open>
  \<open>src/domain/window.rs\<close>: quota windows, which models they constrain, and the two selections, the
  one for display by remaining fraction and the one for work by calibrated credit headroom. The
  identifier newtypes are their text. Then \<open>src/advice/headroom.rs\<close>, the conversion of every
  constraining window into a credit interval.
\<close>

section \<open>Windows\<close>

datatype window_scope_kind = AccountWideKind | ModelSpecificKind | ModelGroupKind

datatype window_scope = AccountWide | ModelSpecific string | ModelGroup string

fun scope_kind :: "window_scope \<Rightarrow> window_scope_kind" where
  "scope_kind AccountWide = AccountWideKind"
| "scope_kind (ModelSpecific _) = ModelSpecificKind"
| "scope_kind (ModelGroup _) = ModelGroupKind"

fun scoped_model :: "window_scope \<Rightarrow> string option" where
  "scoped_model (ModelSpecific model) = Some model"
| "scoped_model _ = None"

fun group_name :: "window_scope \<Rightarrow> string option" where
  "group_name (ModelGroup g) = Some g"
| "group_name _ = None"

fun scope_constrains :: "window_scope \<Rightarrow> string \<Rightarrow> bool" where
  "scope_constrains AccountWide model = True"
| "scope_constrains (ModelSpecific scoped) model = (scoped = model)"
| "scope_constrains (ModelGroup _) model = False"

datatype reported_resolution = ReportedResolution (resolution_ppm: quota_fraction)

definition reported_resolution_new :: "quota_fraction \<Rightarrow> reported_resolution option" where
  "reported_resolution_new f = (if ppm f \<noteq> 0 then Some (ReportedResolution f) else None)"

datatype quantization = Exact | RoundedToNearest | RoundedDown | RoundedUp | UnknownQuantization

definition quantization_from_code :: "string \<Rightarrow> quantization option" where
  "quantization_from_code code =
     (if code = ''exact'' then Some Exact
      else if code = ''rounded_to_nearest'' then Some RoundedToNearest
      else if code = ''rounded_down'' then Some RoundedDown
      else if code = ''rounded_up'' then Some RoundedUp
      else if code = ''unknown'' then Some UnknownQuantization
      else None)"

fun quantization_as_str :: "quantization \<Rightarrow> string" where
  "quantization_as_str Exact = ''exact''"
| "quantization_as_str RoundedToNearest = ''rounded_to_nearest''"
| "quantization_as_str RoundedDown = ''rounded_down''"
| "quantization_as_str RoundedUp = ''rounded_up''"
| "quantization_as_str UnknownQuantization = ''unknown''"

type_synonym nominal_duration = u64

datatype reset_precision = ResetPrecision (precision_nanos: i64)

definition reset_precision_from_seconds :: "u64 \<Rightarrow> reset_precision option" where
  "reset_precision_from_seconds seconds =
     (if seconds = 0 then None
      else if int seconds > i64_max then None
      else map_option ResetPrecision (checked_mul_i64 (int seconds) 1000000000))"

definition reset_precision_from_nanos :: "i64 \<Rightarrow> reset_precision option" where
  "reset_precision_from_nanos nanos = (if nanos > 0 then Some (ResetPrecision nanos) else None)"

datatype reset_grid = OllamaCloudV1

definition grid_as_str :: "reset_grid \<Rightarrow> string" where
  "grid_as_str g = (case g of OllamaCloudV1 \<Rightarrow> ''ollama-cloud-v1'')"

definition grid_from_code :: "string \<Rightarrow> reset_grid option" where
  "grid_from_code code = (if code = ''ollama-cloud-v1'' then Some OllamaCloudV1 else None)"

datatype reset_state = Known utc_timestamp | NotStarted | Scheduled utc_timestamp reset_grid

fun reset_instant :: "reset_state \<Rightarrow> utc_timestamp option" where
  "reset_instant (Known ts) = Some ts"
| "reset_instant (Scheduled at _) = Some at"
| "reset_instant NotStarted = None"

definition is_not_started :: "reset_state \<Rightarrow> bool" where
  "is_not_started r \<longleftrightarrow> r = NotStarted"

definition is_known :: "reset_state \<Rightarrow> bool" where
  "is_known r = (case r of Known _ \<Rightarrow> True | Scheduled _ _ \<Rightarrow> True | NotStarted \<Rightarrow> False)"

definition severity_unknown :: string where "severity_unknown = ''unknown''"

definition severity_is_unknown :: "string \<Rightarrow> bool" where
  "severity_is_unknown s \<longleftrightarrow> s = ''unknown''"

record meter_window =
  mw_semantic_key :: string
  mw_scope :: window_scope
  mw_quota_used :: quota_used
  mw_reported_resolution :: reported_resolution
  mw_quantization :: quantization
  mw_resets_at :: reset_state
  mw_nominal_duration :: nominal_duration
  mw_is_active :: bool
  mw_severity :: string

definition window_new ::
    "string \<Rightarrow> window_scope \<Rightarrow> quota_used \<Rightarrow> reported_resolution \<Rightarrow> quantization \<Rightarrow> reset_state \<Rightarrow>
     nominal_duration \<Rightarrow> meter_window" where
  "window_new key scope used resolution quant resets_at duration =
     \<lparr>mw_semantic_key = key, mw_scope = scope, mw_quota_used = used, mw_reported_resolution = resolution,
      mw_quantization = quant, mw_resets_at = resets_at, mw_nominal_duration = duration,
      mw_is_active = is_known resets_at, mw_severity = severity_unknown\<rparr>"

definition is_active_at :: "meter_window \<Rightarrow> utc_timestamp \<Rightarrow> bool" where
  "is_active_at w now =
     (case mw_resets_at w of Known reset \<Rightarrow> now < reset | Scheduled at _ \<Rightarrow> now < at | NotStarted \<Rightarrow> False)"

definition remaining_fraction :: "meter_window \<Rightarrow> quota_remaining" where
  "remaining_fraction w = complement_used (mw_quota_used w)"

definition window_constrains :: "meter_window \<Rightarrow> string \<Rightarrow> bool" where
  "window_constrains w model = scope_constrains (mw_scope w) model"

definition remaining_percentage_points :: "meter_window \<Rightarrow> percentage_points" where
  "remaining_percentage_points w = fraction_sub (remaining_ppm (remaining_fraction w)) (QuotaFractionPpm 0)"

definition window_ok :: "meter_window \<Rightarrow> bool" where
  "window_ok w \<longleftrightarrow> fraction_ok (used_ppm (mw_quota_used w))"

section \<open>Selection\<close>

text \<open>\<open>min_by_key\<close> returns the first of several minima.\<close>

abbreviation first_min :: "('a \<Rightarrow> 'k::linorder) \<Rightarrow> 'a list \<Rightarrow> 'a option" where
  "first_min f \<equiv> first_best (\<lambda>x y. f x < f y)"

definition remaining_order_key :: "meter_window \<Rightarrow> nat" where
  "remaining_order_key w =
     (if is_not_started (mw_resets_at w) then 1000000 else ppm (remaining_ppm (remaining_fraction w)))"

definition lowest_remaining_fraction_window :: "meter_window list \<Rightarrow> string \<Rightarrow> meter_window option" where
  "lowest_remaining_fraction_window windows model =
     first_min remaining_order_key (filter (\<lambda>w. window_constrains w model) windows)"

datatype headroom_selection = KnownHeadroom meter_window credits | UnknownHeadroom meter_window

fun selected_window :: "headroom_selection \<Rightarrow> meter_window" where
  "selected_window (KnownHeadroom w _) = w"
| "selected_window (UnknownHeadroom w) = w"

fun limiting_walk ::
    "(string, credits_per_point) omap \<Rightarrow> (meter_window \<times> credits) option \<Rightarrow> meter_window list \<Rightarrow>
     headroom_selection option" where
  "limiting_walk calibrations limiting [] = map_option (\<lambda>(w, headroom). KnownHeadroom w headroom) limiting"
| "limiting_walk calibrations limiting (w # ws) =
     (case om_get calibrations (mw_semantic_key w) of
        None \<Rightarrow> Some (UnknownHeadroom w)
      | Some calibration \<Rightarrow>
          let headroom = per_point_times calibration (remaining_percentage_points w)
          in limiting_walk calibrations
               (if (case limiting of None \<Rightarrow> True
                    | Some (_, current) \<Rightarrow> credit_micros headroom < credit_micros current)
                then Some (w, headroom) else limiting) ws)"

definition limiting_credit_headroom_window ::
    "meter_window list \<Rightarrow> string \<Rightarrow> (string, credits_per_point) omap \<Rightarrow> headroom_selection option" where
  "limiting_credit_headroom_window windows model calibrations =
     limiting_walk calibrations None (filter (\<lambda>w. window_constrains w model) windows)"

section \<open>Headroom\<close>

datatype calibration_health = Provisional | Current | ReviewDue | Suspect | Superseded | Inapplicable

definition health_is_current :: "calibration_health \<Rightarrow> bool" where
  "health_is_current h \<longleftrightarrow> h = Current"

fun health_label :: "calibration_health \<Rightarrow> string" where
  "health_label Provisional = ''provisional''"
| "health_label Current = ''current''"
| "health_label ReviewDue = ''review_due''"
| "health_label Suspect = ''suspect''"
| "health_label Superseded = ''superseded''"
| "health_label Inapplicable = ''inapplicable''"

record coefficient_uncertainty =
  cu_lower :: credits_per_point
  cu_upper :: credits_per_point

definition coefficient_uncertainty_new ::
    "credits_per_point \<Rightarrow> credits_per_point \<Rightarrow> string + coefficient_uncertainty" where
  "coefficient_uncertainty_new lo hi =
     (if micros_per_point lo > micros_per_point hi
      then Inl ''coefficient uncertainty lower bound exceeds upper bound''
      else Inr \<lparr>cu_lower = lo, cu_upper = hi\<rparr>)"

record window_constraint =
  wc_uncertainty :: coefficient_uncertainty
  wc_health :: calibration_health

definition constraint_current :: "coefficient_uncertainty \<Rightarrow> window_constraint" where
  "constraint_current u = \<lparr>wc_uncertainty = u, wc_health = Current\<rparr>"

definition constraint_current_point :: "credits_per_point \<Rightarrow> window_constraint" where
  "constraint_current_point fitted = constraint_current \<lparr>cu_lower = fitted, cu_upper = fitted\<rparr>"

instantiation credits :: linorder
begin
definition "a \<le> b \<longleftrightarrow> credit_micros a \<le> credit_micros b"
definition "(a::credits) < b \<longleftrightarrow> credit_micros a < credit_micros b"
instance by standard (auto simp: less_eq_credits_def less_credits_def credits.expand)
end

datatype window_headroom = HeadroomKnown meter_window "credits interval" | HeadroomUnknown meter_window

fun headroom_window :: "window_headroom \<Rightarrow> meter_window" where
  "headroom_window (HeadroomKnown w _) = w"
| "headroom_window (HeadroomUnknown w) = w"

fun headroom_interval :: "window_headroom \<Rightarrow> credits interval option" where
  "headroom_interval (HeadroomKnown _ h) = Some h"
| "headroom_interval (HeadroomUnknown _) = None"

definition window_credit_headroom :: "meter_window \<Rightarrow> window_constraint option \<Rightarrow> window_headroom" where
  "window_credit_headroom w calibration =
     (case calibration of
        None \<Rightarrow> HeadroomUnknown w
      | Some cal \<Rightarrow>
          if \<not> health_is_current (wc_health cal) then HeadroomUnknown w
          else
            let remaining_points = remaining_percentage_points w;
                p1 = per_point_times (cu_lower (wc_uncertainty cal)) remaining_points;
                p2 = per_point_times (cu_upper (wc_uncertainty cal)) remaining_points
            in HeadroomKnown w \<lparr>lower = min p1 p2, upper = max p1 p2\<rparr>)"

definition convert_constraining_windows ::
    "meter_window list \<Rightarrow> string \<Rightarrow> (string, window_constraint) omap \<Rightarrow> window_headroom list" where
  "convert_constraining_windows windows model calibrations =
     map (\<lambda>w. window_credit_headroom w (om_get calibrations (mw_semantic_key w)))
       (filter (\<lambda>w. window_constrains w model) windows)"

section \<open>Laws\<close>

text \<open>What one window's calibration says it still holds.\<close>

definition credit_of :: "(string, credits_per_point) omap \<Rightarrow> meter_window \<Rightarrow> credits option" where
  "credit_of calibrations w =
     map_option (\<lambda>c. per_point_times c (remaining_percentage_points w)) (om_get calibrations (mw_semantic_key w))"

lemma limiting_walk_uncalibrated:
  "\<exists>w\<in>set ws. credit_of cal w = None \<Longrightarrow>
   limiting_walk cal lim ws = map_option UnknownHeadroom (find (\<lambda>w. credit_of cal w = None) ws)"
  by (induction ws arbitrary: lim) (auto simp: credit_of_def Let_def split: option.splits)

text \<open>The walk keeps the window of fewest credits, the first of several.\<close>

abbreviation keep_limiting ::
    "(meter_window \<times> credits) option \<Rightarrow> meter_window \<times> credits \<Rightarrow> (meter_window \<times> credits) option" where
  "keep_limiting \<equiv> keep_best (\<lambda>x y. snd x < snd y)"

lemma limiting_walk_calibrated:
  "\<forall>w\<in>set ws. credit_of cal w \<noteq> None \<Longrightarrow>
   limiting_walk cal lim ws =
     map_option (\<lambda>(w, h). KnownHeadroom w h) (foldl keep_limiting lim (map (\<lambda>w. (w, the (credit_of cal w))) ws))"
proof (induction ws arbitrary: lim)
  case (Cons w ws)
  then obtain c where c: "om_get cal (mw_semantic_key w) = Some c" by (auto simp: credit_of_def)
  let ?h = "per_point_times c (remaining_percentage_points w)"
  have "limiting_walk cal lim (w # ws) = limiting_walk cal (keep_limiting lim (w, ?h)) ws"
    by (simp add: c Let_def keep_best_def less_credits_def split: option.splits prod.splits)
  then show ?case using Cons c by (simp add: credit_of_def)
qed simp

lemma limiting_eq:
  "limiting_credit_headroom_window ws model cal =
     (let cs = filter (\<lambda>w. window_constrains w model) ws in
      case find (\<lambda>w. credit_of cal w = None) cs of
        Some w \<Rightarrow> Some (UnknownHeadroom w)
      | None \<Rightarrow> map_option (\<lambda>w. KnownHeadroom w (the (credit_of cal w)))
                  (first_min (\<lambda>w. the (credit_of cal w)) cs))"
proof (cases "\<exists>w\<in>set (filter (\<lambda>w. window_constrains w model) ws). credit_of cal w = None")
  case True
  then have "find (\<lambda>w. credit_of cal w = None) (filter (\<lambda>w. window_constrains w model) ws) \<noteq> None"
    unfolding find_None_iff by blast
  then obtain w where "find (\<lambda>w. credit_of cal w = None) (filter (\<lambda>w. window_constrains w model) ws) = Some w"
    by blast
  then show ?thesis
    using limiting_walk_uncalibrated [OF True] by (simp add: limiting_credit_headroom_window_def Let_def)
next
  case False
  then have "find (\<lambda>w. credit_of cal w = None) (filter (\<lambda>w. window_constrains w model) ws) = None"
    by (simp add: find_None_iff)
  then show ?thesis
    using False by (simp add: limiting_credit_headroom_window_def Let_def limiting_walk_calibrated
        least.foldl_keep_None first_best_map option.map_comp comp_def)
qed

text \<open>
  The selection that decides whether work fits is known exactly when every window constraining
  the model has its own calibration; it then names the first window whose calibrated credits are least,
  and those credits.\<close>

theorem limiting_selection_characterised:
  "limiting_credit_headroom_window ws model cal = Some (KnownHeadroom w h) \<longleftrightarrow>
     (\<exists>pre post. filter (\<lambda>w. window_constrains w model) ws = pre @ w # post \<and>
        credit_of cal w = Some h \<and>
        (\<forall>v\<in>set pre. \<exists>c. credit_of cal v = Some c \<and> h < c) \<and>
        (\<forall>v\<in>set post. \<exists>c. credit_of cal v = Some c \<and> h \<le> c))"
  (is "?sel \<longleftrightarrow> ?spec")
proof -
  let ?cs = "filter (\<lambda>w. window_constrains w model) ws"
  let ?f = "\<lambda>w. the (credit_of cal w)"
  have "?sel \<longleftrightarrow> (\<forall>v\<in>set ?cs. credit_of cal v \<noteq> None) \<and> first_min ?f ?cs = Some w \<and> h = ?f w"
  proof (cases "find (\<lambda>w. credit_of cal w = None) ?cs")
    case None
    then have "\<forall>v\<in>set ?cs. credit_of cal v \<noteq> None" unfolding find_None_iff by auto
    then show ?thesis using None by (auto simp: limiting_eq Let_def)
  next
    case (Some u)
    then have "\<exists>v\<in>set ?cs. credit_of cal v = None" unfolding find_Some_iff by (metis nth_mem)
    then show ?thesis using Some by (auto simp: limiting_eq Let_def)
  qed
  also have "\<dots> \<longleftrightarrow> ?spec"
    unfolding least.first_best_iff by (fastforce simp: image_iff)
  finally show ?thesis .
qed

definition sample_window :: "string \<Rightarrow> window_scope \<Rightarrow> nat \<Rightarrow> meter_window" where
  "sample_window key scope used =
     window_new key scope (QuotaUsed (QuotaFractionPpm used)) (ReportedResolution (QuotaFractionPpm 10000))
       RoundedToNearest (Known 100) 1000000000"

definition sample_windows :: "meter_window list" where
  "sample_windows = [sample_window ''account'' AccountWide 800000, sample_window ''opus'' (ModelSpecific ''opus'') 100000,
     sample_window ''haiku'' (ModelSpecific ''haiku'') 0]"

definition sample_rates :: "(string, credits_per_point) omap" where
  "sample_rates = [(''account'', CreditsPerPercentagePoint 10), (''opus'', CreditsPerPercentagePoint 1)]"

lemmas sample_defs = sample_windows_def sample_window_def sample_rates_def window_new_def window_constrains_def
  credit_of_def per_point_times_def remaining_percentage_points_def remaining_fraction_def complement_used_def
  fraction_sub_def om_get_def less_credits_def less_eq_credits_def wrap_i64_def

theorem limiting_selection_characterised_witness:
  "limiting_credit_headroom_window sample_windows ''opus'' sample_rates =
     Some (KnownHeadroom (sample_window ''opus'' (ModelSpecific ''opus'') 100000) (Credits 900000))"
  by (subst limiting_selection_characterised)
    (rule exI [of _ "[sample_window ''account'' AccountWide 800000]"], rule exI [of _ "[]"],
      simp add: sample_defs)

text \<open>The display selection is the first window constraining the model whose remaining fraction is
  least, a window that has not started counting as full; it is absent only when no window constrains the
  model.\<close>

theorem lowest_remaining_characterised:
  "(lowest_remaining_fraction_window ws model = Some w \<longleftrightarrow>
     (\<exists>pre post. filter (\<lambda>w. window_constrains w model) ws = pre @ w # post \<and>
        (\<forall>v\<in>set pre. remaining_order_key w < remaining_order_key v) \<and>
        (\<forall>v\<in>set post. remaining_order_key w \<le> remaining_order_key v))) \<and>
   (lowest_remaining_fraction_window ws model = None \<longleftrightarrow> (\<forall>v\<in>set ws. \<not> window_constrains v model))"
  by (simp add: lowest_remaining_fraction_window_def least.first_best_iff filter_empty_conv not_less)

theorem lowest_remaining_characterised_witness:
  "lowest_remaining_fraction_window sample_windows ''opus'' = Some (sample_window ''account'' AccountWide 800000)"
  by (subst lowest_remaining_characterised [THEN conjunct1])
    (rule exI [of _ "[]"], rule exI [of _ "[sample_window ''opus'' (ModelSpecific ''opus'') 100000]"],
      simp add: sample_defs remaining_order_key_def is_not_started_def)

lemma remaining_points:
  assumes "window_ok w"
  shows "0 \<le> pp (remaining_percentage_points w)" "pp (remaining_percentage_points w) \<le> 1000000"
  using assms by (simp_all add: window_ok_def fraction_ok_def remaining_percentage_points_def remaining_fraction_def
      complement_used_def fraction_sub_def)

lemma per_point_times_mono:
  assumes "0 \<le> pp p" "\<bar>micros_per_point a\<bar> * pp p \<le> i64_max" "\<bar>micros_per_point b\<bar> * pp p \<le> i64_max"
    "micros_per_point a \<le> micros_per_point b"
  shows "per_point_times a p \<le> per_point_times b p" "credit_micros (per_point_times a p) = micros_per_point a * pp p"
proof -
  have "is_i64 (micros_per_point r * pp p)" if "\<bar>micros_per_point r\<bar> * pp p \<le> i64_max" for r
  proof -
    have "\<bar>micros_per_point r * pp p\<bar> \<le> i64_max" using that assms(1) by (simp add: abs_mult)
    then show ?thesis by (simp add: is_i64_def abs_le_iff)
  qed
  with assms show "per_point_times a p \<le> per_point_times b p"
    "credit_micros (per_point_times a p) = micros_per_point a * pp p"
    by (simp_all add: per_point_times_def less_eq_credits_def wrap_i64_id mult_right_mono)
qed

lemma per_point_times_between:
  assumes "window_ok w" "micros_per_point lo \<le> micros_per_point c" "micros_per_point c \<le> micros_per_point hi"
    "\<bar>micros_per_point lo\<bar> \<le> 9223372036854" "\<bar>micros_per_point hi\<bar> \<le> 9223372036854"
  defines "p \<equiv> remaining_percentage_points w"
  shows "per_point_times lo p \<le> per_point_times c p" "per_point_times c p \<le> per_point_times hi p"
    "credit_micros (per_point_times c p) = micros_per_point c * pp p"
proof -
  have p: "0 \<le> pp p" "pp p \<le> 1000000" using remaining_points [OF assms(1)] by (simp_all add: p_def)
  have small: "\<bar>r\<bar> * pp p \<le> i64_max" if "\<bar>r\<bar> \<le> 9223372036854" for r
  proof -
    have "\<bar>r\<bar> * pp p \<le> 9223372036854 * 1000000" by (rule mult_mono) (use that p in auto)
    then show ?thesis by simp
  qed
  have "\<bar>micros_per_point c\<bar> \<le> 9223372036854" using assms(2-5) by linarith
  with small assms(2-5) p
  show "per_point_times lo p \<le> per_point_times c p" "per_point_times c p \<le> per_point_times hi p"
    "credit_micros (per_point_times c p) = micros_per_point c * pp p"
    by (simp_all add: per_point_times_mono(1) per_point_times_mono(2) [where a = c and b = c])
qed

text \<open>
  C38. A window's headroom is known exactly when it has a calibration of its own in current health; when
  both bounds of the calibrated uncertainty are at most 9223372036854 microcredits a point in size, the interval lies in
  order and encloses what every coefficient between them would give, both ends being attained without wrapping.
  Beyond that size the products may wrap and nothing is claimed.\<close>

theorem headroom_encloses_every_coefficient:
  assumes "window_ok w" "coefficient_uncertainty_new lo hi = Inr u"
    and "\<bar>micros_per_point lo\<bar> \<le> 9223372036854" "\<bar>micros_per_point hi\<bar> \<le> 9223372036854"
    and "micros_per_point lo \<le> micros_per_point c" "micros_per_point c \<le> micros_per_point hi"
  shows "\<exists>h. headroom_interval (window_credit_headroom w (Some \<lparr>wc_uncertainty = u, wc_health = health\<rparr>)) =
         (if health = Current then Some h else None) \<and>
      interval_ok h \<and> contains h (per_point_times c (remaining_percentage_points w)) \<and>
      credit_micros (lower h) = micros_per_point lo * pp (remaining_percentage_points w) \<and>
      credit_micros (upper h) = micros_per_point hi * pp (remaining_percentage_points w)"
proof -
  have u: "u = \<lparr>cu_lower = lo, cu_upper = hi\<rparr>" using assms(2)
    by (simp add: coefficient_uncertainty_new_def split: if_splits)
  let ?p = "remaining_percentage_points w"
  let ?h = "\<lparr>lower = per_point_times lo ?p, upper = per_point_times hi ?p\<rparr>"
  note c = per_point_times_between [OF assms(1) assms(5,6,3,4)]
    per_point_times_between(3) [OF assms(1) order_refl order_trans [OF assms(5,6)] assms(3,4)]
    per_point_times_between(3) [OF assms(1) order_trans [OF assms(5,6)] order_refl assms(3,4)]
  have le: "per_point_times lo ?p \<le> per_point_times hi ?p" using c(1,2) by (rule order_trans)
  then have "headroom_interval (window_credit_headroom w (Some \<lparr>wc_uncertainty = u, wc_health = health\<rparr>)) =
      (if health = Current then Some ?h else None)"
    by (simp add: window_credit_headroom_def u health_is_current_def Let_def min_absorb1 max_absorb2)
  moreover have "interval_ok ?h" using le by (simp add: interval_ok_def)
  moreover have "contains ?h (per_point_times c ?p)" using c(1,2) by (simp add: contains_def)
  ultimately show ?thesis using c(4,5) by (intro exI [of _ ?h]) simp
qed

definition sample_uncertainty :: coefficient_uncertainty where
  "sample_uncertainty = \<lparr>cu_lower = CreditsPerPercentagePoint 10, cu_upper = CreditsPerPercentagePoint 30\<rparr>"

theorem headroom_encloses_every_coefficient_witness:
  "\<exists>h. headroom_interval (window_credit_headroom (sample_window ''account'' AccountWide 800000)
          (Some \<lparr>wc_uncertainty = sample_uncertainty, wc_health = Current\<rparr>)) = Some h \<and>
      contains h (per_point_times (CreditsPerPercentagePoint 20)
        (remaining_percentage_points (sample_window ''account'' AccountWide 800000)))"
  using headroom_encloses_every_coefficient [of "sample_window ''account'' AccountWide 800000"
      "CreditsPerPercentagePoint 10" "CreditsPerPercentagePoint 30" sample_uncertainty
      "CreditsPerPercentagePoint 20" Current]
  by (auto simp: coefficient_uncertainty_new_def sample_uncertainty_def window_ok_def fraction_ok_def
      sample_window_def window_new_def)

lemma headroom_known_iff:
  "headroom_interval (window_credit_headroom w (map_option constraint_current_point (om_get cal (mw_semantic_key w)))) =
     map_option (\<lambda>h. \<lparr>lower = h, upper = h\<rparr>) (credit_of cal w)"
  by (auto simp: window_credit_headroom_def credit_of_def constraint_current_point_def constraint_current_def
      health_is_current_def Let_def split: option.splits)

lemma headroom_lower: "credit_of cal w \<noteq> None \<Longrightarrow>
    lower (the (map_option (\<lambda>h. \<lparr>lower = h, upper = h\<rparr>) (credit_of cal w))) = the (credit_of cal w)"
  by auto

lemma headroom_window_id [simp]: "headroom_window (window_credit_headroom w c) = w"
  by (auto simp: window_credit_headroom_def Let_def split: option.splits)

text \<open>The headroom list holds one entry per window constraining the model, in order, none dropped; and
  on point calibrations in current health the selection for work is that list's answer: unknown at its
  first unknown entry, otherwise its first entry of least headroom.\<close>

theorem headroom_list_decides_selection:
  "map headroom_window (convert_constraining_windows ws model constraints) =
     filter (\<lambda>w. window_constrains w model) ws \<and>
   limiting_credit_headroom_window ws model cal =
     (let hs = convert_constraining_windows ws model (om_map_values constraint_current_point cal) in
      case find (\<lambda>h. headroom_interval h = None) hs of
        Some h \<Rightarrow> Some (UnknownHeadroom (headroom_window h))
      | None \<Rightarrow> map_option (\<lambda>h. KnownHeadroom (headroom_window h) (lower (the (headroom_interval h))))
                  (first_min (\<lambda>h. lower (the (headroom_interval h))) hs))"
proof -
  let ?cs = "filter (\<lambda>w. window_constrains w model) ws"
  let ?h = "\<lambda>w. window_credit_headroom w (map_option constraint_current_point (om_get cal (mw_semantic_key w)))"
  have "map headroom_window (convert_constraining_windows ws model constraints) = ?cs"
    by (simp add: convert_constraining_windows_def comp_def)
  moreover have "find (\<lambda>h. headroom_interval h = None) (map ?h xs) =
      map_option ?h (find (\<lambda>w. credit_of cal w = None) xs)" for xs
    by (induction xs) (auto simp: headroom_known_iff)
  moreover have "first_min (\<lambda>w. lower (the (headroom_interval (?h w)))) ?cs = first_min (\<lambda>w. the (credit_of cal w)) ?cs"
    if "find (\<lambda>w. credit_of cal w = None) ?cs = None"
    using that by (intro first_best_cong) (auto simp: headroom_known_iff headroom_lower find_None_iff simp del: not_None_eq)
  moreover have "lower (the (headroom_interval (?h w))) = the (credit_of cal w)"
    if "find (\<lambda>w. credit_of cal w = None) ?cs = None" "first_min (\<lambda>w. the (credit_of cal w)) ?cs = Some w" for w
    using that first_best_in [OF that(2)] by (auto simp: headroom_known_iff find_None_iff)
  ultimately show ?thesis
    by (cases "first_min (\<lambda>w. the (credit_of cal w)) ?cs")
      (simp_all add: limiting_eq convert_constraining_windows_def Let_def first_best_map split: option.splits)
qed

lemma quantization_roundtrip: "quantization_from_code (quantization_as_str q) = Some q"
  by (cases q) (simp_all add: quantization_from_code_def)

end
