(* ===== verification/Window_Anomalies.thy ===== *)
theory Window_Anomalies
  imports Windows
begin

text \<open>
  \<open>src/domain/window_anomaly.rs\<close>: what two consecutive readings of one quota window may show. The
  theory models the reset comparison with its saturating instants and its jitter tolerance, the
  transition classifier and the window-set classifier; the theorems say exactly when a fall in usage or
  a moved reset is excused, and that usage read inside one boundary never falls unreported.
\<close>

section \<open>Readings\<close>

definition jitter_tolerance :: i64 where "jitter_tolerance = 2000000000"

datatype anomaly_kind = PercentageDecreaseWithoutReset | UnexpectedResetTimestampChange

fun anomaly_as_str :: "anomaly_kind \<Rightarrow> string" where
  "anomaly_as_str PercentageDecreaseWithoutReset = ''percentage_decrease_without_reset''"
| "anomaly_as_str UnexpectedResetTimestampChange = ''unexpected_reset_change''"

definition anomaly_from_code :: "string \<Rightarrow> anomaly_kind option" where
  "anomaly_from_code code =
     (if code = ''percentage_decrease_without_reset'' then Some PercentageDecreaseWithoutReset
      else if code = ''unexpected_reset_change'' then Some UnexpectedResetTimestampChange
      else None)"

record window_reading =
  wr_quota_used :: quota_used
  wr_resets_at :: reset_state
  wr_observed_at :: utc_timestamp
  wr_precision :: "reset_precision option"
  wr_nominal :: "nominal_duration option"

definition reading_ok :: "window_reading \<Rightarrow> bool" where
  "reading_ok r \<longleftrightarrow> is_i64 (wr_observed_at r) \<and> (\<forall>t. reset_instant (wr_resets_at r) = Some t \<longrightarrow> is_i64 t) \<and>
     (\<forall>q. wr_precision r = Some q \<longrightarrow> 0 < precision_nanos q \<and> is_i64 (precision_nanos q))"

section \<open>Comparing reset states\<close>

definition reset_due :: "reset_state \<Rightarrow> utc_timestamp \<Rightarrow> bool" where
  "reset_due previous observed =
     (case reset_instant previous of
        Some at \<Rightarrow> observed \<ge> sat_sub_i64 at jitter_tolerance
      | None \<Rightarrow> False)"

definition reset_advanced :: "reset_state \<Rightarrow> reset_state \<Rightarrow> bool" where
  "reset_advanced previous current =
     (case (reset_instant previous, reset_instant current) of
        (Some old, Some new) \<Rightarrow> new \<ge> sat_add_i64 old jitter_tolerance
      | (Some _, None) \<Rightarrow> True
      | (None, Some _) \<Rightarrow> True
      | (None, None) \<Rightarrow> False)"

definition reset_changed :: "reset_state \<Rightarrow> reset_state \<Rightarrow> i64 \<Rightarrow> bool" where
  "reset_changed previous current tolerance =
     (case (reset_instant previous, reset_instant current) of
        (Some old, Some new) \<Rightarrow> nat \<bar>old - new\<bar> \<ge> i64_as_u64 tolerance
      | (None, None) \<Rightarrow> False
      | (Some _, None) \<Rightarrow> True
      | (None, Some _) \<Rightarrow> True)"

definition same_reset_tolerance :: "window_reading \<Rightarrow> window_reading \<Rightarrow> i64" where
  "same_reset_tolerance previous current =
     (case (wr_precision previous, wr_precision current) of
        (Some p, Some c) \<Rightarrow>
          if p = c then
            max jitter_tolerance
              (sat_add_i64 (precision_nanos p) (sat_sub_i64 (wr_observed_at current) (wr_observed_at previous)))
          else jitter_tolerance
      | _ \<Rightarrow> jitter_tolerance)"

fun is_scheduled :: "reset_state \<Rightarrow> bool" where
  "is_scheduled (Scheduled _ _) = True"
| "is_scheduled _ = False"

definition either_is_scheduled :: "reset_state \<Rightarrow> reset_state \<Rightarrow> bool" where
  "either_is_scheduled previous current \<longleftrightarrow> is_scheduled previous \<or> is_scheduled current"

definition is_window_start :: "window_reading \<Rightarrow> window_reading \<Rightarrow> bool" where
  "is_window_start previous current \<longleftrightarrow>
     wr_resets_at previous = NotStarted \<and>
     (case (wr_resets_at current, wr_nominal current) of
        (Known at, Some nominal) \<Rightarrow>
          at \<le> sat_add_i64 (sat_add_i64 (wr_observed_at current) (min (int nominal) i64_max))
                (same_reset_tolerance previous current)
      | _ \<Rightarrow> False)"

definition legitimate_reset :: "window_reading \<Rightarrow> window_reading \<Rightarrow> bool" where
  "legitimate_reset previous current \<longleftrightarrow>
     reset_changed (wr_resets_at previous) (wr_resets_at current) (same_reset_tolerance previous current) \<and>
     reset_due (wr_resets_at previous) (wr_observed_at current) \<and>
     reset_advanced (wr_resets_at previous) (wr_resets_at current)"

definition decreased :: "window_reading \<Rightarrow> window_reading \<Rightarrow> bool" where
  "decreased previous current \<longleftrightarrow> ppm (used_ppm (wr_quota_used current)) < ppm (used_ppm (wr_quota_used previous))"

definition classify_window_transition :: "window_reading \<Rightarrow> window_reading \<Rightarrow> anomaly_kind option" where
  "classify_window_transition previous current =
     (if decreased previous current then
        if legitimate_reset previous current then None else Some PercentageDecreaseWithoutReset
      else if reset_changed (wr_resets_at previous) (wr_resets_at current) (same_reset_tolerance previous current) \<and>
          \<not> legitimate_reset previous current \<and>
          \<not> either_is_scheduled (wr_resets_at previous) (wr_resets_at current) \<and>
          \<not> is_window_start previous current
      then Some UnexpectedResetTimestampChange
      else None)"

section \<open>Window sets\<close>

datatype set_change_kind = NewAccountWideWindow | MissingModelSpecificWindow

fun set_change_as_str :: "set_change_kind \<Rightarrow> string" where
  "set_change_as_str NewAccountWideWindow = ''new_account_wide_window''"
| "set_change_as_str MissingModelSpecificWindow = ''missing_model_specific_window''"

definition set_change_from_code :: "string \<Rightarrow> set_change_kind option" where
  "set_change_from_code code =
     (if code = ''new_account_wide_window'' then Some NewAccountWideWindow
      else if code = ''missing_model_specific_window'' then Some MissingModelSpecificWindow
      else None)"

datatype presence_change = Appeared | Disappeared

fun classify_window_set_change :: "window_scope_kind \<Rightarrow> presence_change \<Rightarrow> set_change_kind option" where
  "classify_window_set_change AccountWideKind Appeared = Some NewAccountWideWindow"
| "classify_window_set_change ModelSpecificKind Disappeared = Some MissingModelSpecificWindow"
| "classify_window_set_change ModelGroupKind _ = None"
| "classify_window_set_change AccountWideKind Disappeared = None"
| "classify_window_set_change ModelSpecificKind Appeared = None"

section \<open>Laws\<close>

lemma tolerance_floor: "2000000000 \<le> same_reset_tolerance p c"
  by (auto simp: same_reset_tolerance_def jitter_tolerance_def split: option.splits)

lemma tolerance_i64: "reading_ok p \<Longrightarrow> reading_ok c \<Longrightarrow> is_i64 (same_reset_tolerance p c)"
  by (auto simp: same_reset_tolerance_def jitter_tolerance_def is_i64_def sat_add_i64_def split: option.splits)

lemma changed_iff:
  assumes "reading_ok p" "reading_ok c"
  shows "reset_changed (wr_resets_at p) (wr_resets_at c) (same_reset_tolerance p c) \<longleftrightarrow>
    (case (reset_instant (wr_resets_at p), reset_instant (wr_resets_at c)) of
       (Some old, Some new) \<Rightarrow> same_reset_tolerance p c \<le> \<bar>old - new\<bar>
     | (o1, o2) \<Rightarrow> (o1 = None) \<noteq> (o2 = None))"
  using tolerance_i64 [OF assms] tolerance_floor [of p c]
  by (auto simp: reset_changed_def i64_as_u64_id nat_le_iff split: option.splits)

lemma legitimate_iff:
  assumes "reading_ok p" "reading_ok c"
  shows "legitimate_reset p c \<longleftrightarrow>
    (\<exists>old. reset_instant (wr_resets_at p) = Some old \<and> old - 2000000000 \<le> wr_observed_at c \<and>
       (\<forall>new. reset_instant (wr_resets_at c) = Some new \<longrightarrow> same_reset_tolerance p c \<le> new - old))"
proof (cases "reset_instant (wr_resets_at p)")
  case None
  then show ?thesis by (simp add: legitimate_reset_def reset_due_def)
next
  case (Some old)
  then have old: "is_i64 old" and obs: "is_i64 (wr_observed_at c)" using assms by (auto simp: reading_ok_def)
  then have due: "reset_due (wr_resets_at p) (wr_observed_at c) \<longleftrightarrow> old - 2000000000 \<le> wr_observed_at c"
    by (auto simp: reset_due_def Some sat_sub_i64_def jitter_tolerance_def is_i64_def)
  show ?thesis
  proof (cases "reset_instant (wr_resets_at c)")
    case None
    then show ?thesis using Some due by (simp add: legitimate_reset_def reset_changed_def reset_advanced_def)
  next
    case (Some new)
    then have "is_i64 new" using assms by (simp add: reading_ok_def)
    with old have "reset_changed (wr_resets_at p) (wr_resets_at c) (same_reset_tolerance p c) \<and>
        reset_advanced (wr_resets_at p) (wr_resets_at c) \<longleftrightarrow> same_reset_tolerance p c \<le> new - old"
      using tolerance_floor [of p c] unfolding changed_iff [OF assms]
      by (auto simp: Some \<open>reset_instant (wr_resets_at p) = Some old\<close> reset_advanced_def sat_add_i64_def
          jitter_tolerance_def is_i64_def)
    then show ?thesis using Some \<open>reset_instant (wr_resets_at p) = Some old\<close> due
      by (auto simp: legitimate_reset_def)
  qed
qed

definition sample_reading :: "nat \<Rightarrow> reset_state \<Rightarrow> i64 \<Rightarrow> window_reading" where
  "sample_reading used reset at =
     \<lparr>wr_quota_used = QuotaUsed (QuotaFractionPpm used), wr_resets_at = reset, wr_observed_at = at,
      wr_precision = None, wr_nominal = Some 18000000000000\<rparr>"

lemmas reading_simps = sample_reading_def reading_ok_def is_i64_def decreased_def same_reset_tolerance_def
  jitter_tolerance_def

text \<open>
  A fall in the reported usage passes without an anomaly exactly when the previous reading named a
  boundary that had come due, to within the jitter tolerance, and the current one names none or one later
  by at least the tolerance of the pair: every other fall is reported as a decrease without reset.\<close>

theorem decrease_excused_only_by_reset:
  assumes "reading_ok p" "reading_ok c" "decreased p c"
  shows "classify_window_transition p c =
    (if \<exists>old. reset_instant (wr_resets_at p) = Some old \<and> old - 2000000000 \<le> wr_observed_at c \<and>
         (\<forall>new. reset_instant (wr_resets_at c) = Some new \<longrightarrow> same_reset_tolerance p c \<le> new - old)
     then None else Some PercentageDecreaseWithoutReset)"
  using assms(3) unfolding legitimate_iff [OF assms(1,2), symmetric] by (simp add: classify_window_transition_def)

theorem decrease_excused_only_by_reset_witness:
  "classify_window_transition (sample_reading 500000 (Known 9000000000) 5000000000)
     (sample_reading 400000 (Known 10000000000) 8000000000) = Some PercentageDecreaseWithoutReset \<and>
   classify_window_transition (sample_reading 500000 (Known 9000000000) 5000000000)
     (sample_reading 400000 (Known 18000000000) 7000000000) = None"
  using decrease_excused_only_by_reset [of "sample_reading 500000 (Known 9000000000) 5000000000"
      "sample_reading 400000 (Known 10000000000) 8000000000"]
    decrease_excused_only_by_reset [of "sample_reading 500000 (Known 9000000000) 5000000000"
      "sample_reading 400000 (Known 18000000000) 7000000000"]
  by (simp add: reading_simps)

text \<open>
  Without a fall in usage, a reset change is reported exactly when both states are provider-reported
  and either the boundary moved by the tolerance of the pair or more without having come due and moved
  forward, or a boundary not yet due gave way to no window, or a first boundary lies more than one nominal
  length, or one of unknown length, after the reading.\<close>

theorem reset_change_reported_iff:
  assumes "reading_ok p" "reading_ok c" "\<not> decreased p c"
  shows "classify_window_transition p c =
    (if (case (wr_resets_at p, wr_resets_at c) of
          (Known old, Known new) \<Rightarrow>
            same_reset_tolerance p c \<le> \<bar>old - new\<bar> \<and> \<not> (old - 2000000000 \<le> wr_observed_at c \<and> old \<le> new)
        | (Known old, NotStarted) \<Rightarrow> wr_observed_at c < old - 2000000000
        | (NotStarted, Known new) \<Rightarrow>
            (\<forall>d. wr_nominal c = Some d \<longrightarrow>
               sat_add_i64 (sat_add_i64 (wr_observed_at c) (min (int d) i64_max)) (same_reset_tolerance p c) < new)
        | _ \<Rightarrow> False)
     then Some UnexpectedResetTimestampChange else None)"
  unfolding classify_window_transition_def changed_iff [OF assms(1,2)] legitimate_iff [OF assms(1,2)]
    either_is_scheduled_def is_window_start_def
  using assms(3) tolerance_floor [of p c]
  by (cases "wr_resets_at p"; cases "wr_resets_at c"; cases "wr_nominal c") (auto simp: not_le)

theorem reset_change_reported_iff_witness:
  "classify_window_transition (sample_reading 0 NotStarted 0) (sample_reading 0 (Known 1500000000000000) 0) =
     Some UnexpectedResetTimestampChange \<and>
   classify_window_transition (sample_reading 0 NotStarted 0) (sample_reading 0 (Known 17000000000000) 0) = None"
  using reset_change_reported_iff [of "sample_reading 0 NotStarted 0" "sample_reading 0 (Known 1500000000000000) 0"]
    reset_change_reported_iff [of "sample_reading 0 NotStarted 0" "sample_reading 0 (Known 17000000000000) 0"]
  by (simp add: reading_simps sat_add_i64_def)

text \<open>In a run of readings none of which is reported and each taken more than the jitter tolerance before
  the boundary the reading before it named, the reported usage never falls.\<close>

theorem clean_run_never_falls:
  assumes "\<forall>r\<in>set rs. reading_ok r" "successively (\<lambda>p c. classify_window_transition p c = None) rs"
    and "successively (\<lambda>p c. \<forall>old. reset_instant (wr_resets_at p) = Some old \<longrightarrow> wr_observed_at c < old - 2000000000) rs"
  shows "sorted (map (\<lambda>r. ppm (used_ppm (wr_quota_used r))) rs)"
proof -
  have "\<not> decreased p c" if "p \<in> set rs" "c \<in> set rs" "classify_window_transition p c = None"
    "\<forall>old. reset_instant (wr_resets_at p) = Some old \<longrightarrow> wr_observed_at c < old - 2000000000" for p c
    using that assms(1) legitimate_iff [of p c] by (fastforce simp: classify_window_transition_def split: if_splits)
  moreover have "successively (\<lambda>p c. classify_window_transition p c = None \<and>
      (\<forall>old. reset_instant (wr_resets_at p) = Some old \<longrightarrow> wr_observed_at c < old - 2000000000)) rs"
    using assms(2,3) by (induction rs rule: induct_list012) auto
  ultimately have "successively (\<lambda>p c. \<not> decreased p c) rs"
    by (elim successively_mono) auto
  then have "successively (\<le>) (map (\<lambda>r. ppm (used_ppm (wr_quota_used r))) rs)"
    by (simp add: successively_map decreased_def not_less)
  then show ?thesis by (simp add: successively_conv_sorted_wrt)
qed

theorem clean_run_never_falls_witness:
  "sorted (map (\<lambda>r. ppm (used_ppm (wr_quota_used r)))
     [sample_reading 10 (Known 9000000000000) 0, sample_reading 20 (Known 9000100000000) 100,
      sample_reading 20 (Known 9000000000000) 200])"
  by (rule clean_run_never_falls)
    (simp_all add: classify_window_transition_def legitimate_reset_def reset_changed_def either_is_scheduled_def
      i64_as_u64_def reading_simps)

end
