(* ===== verification/Rate_Cards.thy ===== *)
theory Rate_Cards
  imports Calendar "HOL-Library.Word"
begin

text \<open>
  \<open>src/domain/rate_card.rs\<close>: the dated vendor prices, the symbolic codes of their fields, the exact
  reader of decimal rates and the weekly schedule a card may be confined to. A schedule's day set is
  the byte it is in the code, with Monday as bit 0.
\<close>

unbundle bit_operations_syntax

section \<open>Fields and their codes\<close>

datatype token_class = InputClass | OutputClass | CacheReadClass | CacheWrite5m | CacheWrite1h

fun token_class_as_str :: "token_class \<Rightarrow> string" where
  "token_class_as_str InputClass = ''input''"
| "token_class_as_str OutputClass = ''output''"
| "token_class_as_str CacheReadClass = ''cache_read''"
| "token_class_as_str CacheWrite5m = ''cache_write_5m''"
| "token_class_as_str CacheWrite1h = ''cache_write_1h''"

definition token_class_parse :: "string \<Rightarrow> token_class option" where
  "token_class_parse t =
     (if t = ''input'' then Some InputClass
      else if t = ''output'' then Some OutputClass
      else if t = ''cache_read'' then Some CacheReadClass
      else if t = ''cache_write_5m'' then Some CacheWrite5m
      else if t = ''cache_write_1h'' then Some CacheWrite1h
      else None)"

datatype billing_basis = PerMillionTokens | PercentOfWindowPerMillionTokens

fun basis_as_str :: "billing_basis \<Rightarrow> string" where
  "basis_as_str PerMillionTokens = ''per_million_tokens''"
| "basis_as_str PercentOfWindowPerMillionTokens = ''percent_of_window_per_million_tokens''"

definition basis_parse :: "string \<Rightarrow> billing_basis option" where
  "basis_parse t =
     (if t = ''per_million_tokens'' then Some PerMillionTokens
      else if t = ''percent_of_window_per_million_tokens'' then Some PercentOfWindowPerMillionTokens
      else None)"

datatype quota_window_kind = FiveHour | SevenDay

fun window_kind_as_str :: "quota_window_kind \<Rightarrow> string" where
  "window_kind_as_str FiveHour = ''five_hour''"
| "window_kind_as_str SevenDay = ''seven_day''"

definition window_kind_parse :: "string \<Rightarrow> quota_window_kind option" where
  "window_kind_parse t =
     (if t = ''five_hour'' then Some FiveHour else if t = ''seven_day'' then Some SevenDay else None)"

datatype rate_unit = PercentagePointsUnit

fun unit_as_str :: "rate_unit \<Rightarrow> string" where
  "unit_as_str PercentagePointsUnit = ''percentage_points''"

definition unit_parse :: "string \<Rightarrow> rate_unit option" where
  "unit_parse t = (if t = ''percentage_points'' then Some PercentagePointsUnit else None)"

datatype card_quality = Estimate

fun quality_as_str :: "card_quality \<Rightarrow> string" where
  "quality_as_str Estimate = ''estimate''"

definition quality_parse :: "string \<Rightarrow> card_quality option" where
  "quality_parse t = (if t = ''estimate'' then Some Estimate else None)"

record window_estimate =
  we_window :: quota_window_kind
  we_unit :: rate_unit
  we_quality :: card_quality

datatype currency_code = USD | EUR

fun currency_as_str :: "currency_code \<Rightarrow> string" where
  "currency_as_str USD = ''USD''"
| "currency_as_str EUR = ''EUR''"

definition currency_parse :: "string \<Rightarrow> currency_code option" where
  "currency_parse t = (if t = ''USD'' then Some USD else if t = ''EUR'' then Some EUR else None)"

datatype rate_denomination = MoneyRate currency_code | PointsRate rate_unit

fun denomination_as_str :: "rate_denomination \<Rightarrow> string" where
  "denomination_as_str (MoneyRate c) = currency_as_str c"
| "denomination_as_str (PointsRate u) = unit_as_str u"

definition denomination_parse :: "string \<Rightarrow> rate_denomination option" where
  "denomination_parse t =
     (case currency_parse t of
        Some c \<Rightarrow> Some (MoneyRate c)
      | None \<Rightarrow> map_option PointsRate (unit_parse t))"

fun denomination_currency :: "rate_denomination \<Rightarrow> currency_code option" where
  "denomination_currency (MoneyRate c) = Some c"
| "denomination_currency (PointsRate _) = None"

datatype review_due = NoReview | ReviewOn utc_date

fun review_iso :: "review_due \<Rightarrow> string option" where
  "review_iso NoReview = None"
| "review_iso (ReviewOn d) = Some (iso d)"

record publication =
  pub_source :: "string option"
  pub_published_at :: "utc_timestamp option"

definition fully_sourced :: "publication \<Rightarrow> bool" where
  "fully_sourced p \<longleftrightarrow> pub_source p \<noteq> None \<and> pub_published_at p \<noteq> None"

section \<open>Schedules\<close>

record schedule =
  sc_days :: "8 word"
  sc_start :: nat
  sc_end :: nat

definition add_day :: "8 word \<Rightarrow> nat \<Rightarrow> 8 word" where
  "add_day days d = days OR push_bit (d - 1) 1"

definition schedule_new :: "nat list \<Rightarrow> nat \<Rightarrow> nat \<Rightarrow> schedule option" where
  "schedule_new days_iso start_minutes end_minutes =
     (if days_iso = [] \<or> start_minutes \<ge> end_minutes \<or> end_minutes > 24 * 60 then None
      else if list_ex (\<lambda>d. \<not> (1 \<le> d \<and> d \<le> 7)) days_iso then None
      else Some \<lparr>sc_days = foldl add_day 0 days_iso, sc_start = start_minutes, sc_end = end_minutes\<rparr>)"

definition schedule_contains :: "schedule \<Rightarrow> nat \<Rightarrow> nat \<Rightarrow> bool" where
  "schedule_contains s weekday_iso minutes \<longleftrightarrow>
     1 \<le> weekday_iso \<and> weekday_iso \<le> 7 \<and>
     drop_bit (weekday_iso - 1) (sc_days s) AND 1 = 1 \<and> sc_start s \<le> minutes \<and> minutes < sc_end s"

definition schedule_overlaps :: "schedule \<Rightarrow> schedule \<Rightarrow> bool" where
  "schedule_overlaps s t \<longleftrightarrow>
     sc_days s AND sc_days t \<noteq> 0 \<and> sc_start s < sc_end t \<and> sc_start t < sc_end s"

definition window_minutes :: "schedule \<Rightarrow> nat" where
  "window_minutes s = sc_end s - sc_start s"

definition days_iso :: "schedule \<Rightarrow> nat list" where
  "days_iso s = filter (\<lambda>d. drop_bit (d - 1) (sc_days s) AND 1 = 1) [1..<8]"

definition day_name :: "nat \<Rightarrow> string option" where
  "day_name d =
     (if d = 1 then Some ''mon'' else if d = 2 then Some ''tue'' else if d = 3 then Some ''wed''
      else if d = 4 then Some ''thu'' else if d = 5 then Some ''fri'' else if d = 6 then Some ''sat''
      else if d = 7 then Some ''sun'' else None)"

definition day_name_or :: "nat \<Rightarrow> string" where
  "day_name_or d = (case day_name d of Some n \<Rightarrow> n | None \<Rightarrow> ''?'')"

definition parse_day_name :: "string \<Rightarrow> nat option" where
  "parse_day_name text =
     (let t = to_lowercase (trim text)
      in if t = ''mon'' then Some 1 else if t = ''tue'' then Some 2 else if t = ''wed'' then Some 3
         else if t = ''thu'' then Some 4 else if t = ''fri'' then Some 5 else if t = ''sat'' then Some 6
         else if t = ''sun'' then Some 7 else None)"

definition days_text :: "schedule \<Rightarrow> string" where
  "days_text s = join '','' (map day_name_or (days_iso s))"

definition days_compact :: "schedule \<Rightarrow> string" where
  "days_compact s =
     (let days = days_iso s
      in if last days - hd days + 1 = length days then
           (if hd days = last days then day_name_or (hd days)
            else day_name_or (hd days) @ ''-'' @ day_name_or (last days))
         else join '','' (map day_name_or days))"

definition format_minutes :: "nat \<Rightarrow> string" where
  "format_minutes m = pad0 2 (m div 60) @ '':'' @ pad0 2 (m mod 60)"

definition hours_text :: "schedule \<Rightarrow> string" where
  "hours_text s = format_minutes (sc_start s) @ ''-'' @ format_minutes (sc_end s)"

definition describe :: "schedule \<Rightarrow> string" where
  "describe s = ''peak '' @ days_compact s @ '' '' @ hours_text s @ '' UTC''"

datatype hours_error = Malformed string | StartNotBeforeEnd string | CrossesMidnight string

abbreviation u16_max :: nat where "u16_max \<equiv> 65535"

definition parse_clock :: "string \<Rightarrow> nat option" where
  "parse_clock text =
     (case split_once (CHR '':'') text of
        None \<Rightarrow> None
      | Some (hours, minutes) \<Rightarrow>
          if length hours \<noteq> 2 \<or> length minutes \<noteq> 2 then None
          else
            (case (parse_unsigned u16_max hours, parse_unsigned u16_max minutes) of
               (Some h, Some m) \<Rightarrow> if h > 23 \<or> m > 59 then None else Some (h * 60 + m)
             | _ \<Rightarrow> None))"

definition parse_hours_utc :: "string \<Rightarrow> hours_error + nat \<times> nat" where
  "parse_hours_utc text =
     (case split_once (CHR ''-'') text of
        None \<Rightarrow> Inl (Malformed text)
      | Some (s, e) \<Rightarrow>
          (case (parse_clock (trim s), parse_clock (trim e)) of
             (Some start_m, Some end_m) \<Rightarrow>
               if start_m = end_m then Inl (StartNotBeforeEnd text)
               else if start_m > end_m then Inl (CrossesMidnight text)
               else Inr (start_m, end_m)
           | _ \<Rightarrow> Inl (Malformed text)))"

section \<open>Cards\<close>

record rate_card_draft =
  rd_vendor :: string
  rd_model :: string
  rd_token_class :: token_class
  rd_rate_micros :: i64
  rd_denomination :: rate_denomination
  rd_billing_basis :: billing_basis
  rd_window_estimate :: "window_estimate option"
  rd_effective_start :: utc_date
  rd_effective_end :: "utc_date option"
  rd_schedule :: "schedule option"
  rd_publication :: publication
  rd_review_due :: review_due

record rate_card =
  rc_id :: i64
  rc_imported_at :: utc_timestamp
  rc_draft :: rate_card_draft

text \<open>Dates are ordered by year, month and day, as the code derives it.\<close>

definition date_key :: "utc_date \<Rightarrow> i64 \<times> u32 \<times> u32" where
  "date_key d = (year d, month d, day d)"

section \<open>Rates\<close>

datatype rate_error = RateNotANumber string | RateTooFine string | RateOutOfRange string | NegativeRate string

fun add_fraction :: "string \<Rightarrow> i64 \<Rightarrow> i64 \<Rightarrow> string \<Rightarrow> rate_error + i64" where
  "add_fraction text micros scale [] = Inr micros"
| "add_fraction text micros scale (c # cs) =
     (case digit_value c of
        None \<Rightarrow> Inl (RateNotANumber text)
      | Some d \<Rightarrow>
          if is_i64 (micros + int d * scale) then add_fraction text (micros + int d * scale) (scale div 10) cs
          else Inl (RateOutOfRange text))"

definition parse_rate_micros :: "string \<Rightarrow> rate_error + i64" where
  "parse_rate_micros raw =
     (let text = trim raw;
          negative = starts_with ''-'' text;
          body = (case strip_prefix ''-'' text of Some b \<Rightarrow> b | None \<Rightarrow> text);
          (whole, fraction) = (case split_once (CHR ''.'') body of Some p \<Rightarrow> p | None \<Rightarrow> (body, []))
      in if whole = [] \<and> fraction = [] then Inl (RateNotANumber text)
         else if length fraction > 6 then Inl (RateTooFine text)
         else
           (case (if whole = [] then Some 0 else parse_i64 whole) of
              None \<Rightarrow> Inl (RateNotANumber text)
            | Some w \<Rightarrow>
                (case checked_mul_i64 w 1000000 of
                   None \<Rightarrow> Inl (RateOutOfRange text)
                 | Some m \<Rightarrow>
                     (case add_fraction text m 100000 fraction of
                        Inl e \<Rightarrow> Inl e
                      | Inr micros \<Rightarrow> if negative then Inl (NegativeRate text) else Inr micros))))"

section \<open>Laws of rates\<close>

lemma digits_value_acc:
  "digits_value a s = map_option (\<lambda>n. a * 10 ^ length s + n) (digits_value 0 s)"
proof (induction s arbitrary: a)
  case (Cons c cs)
  show ?case
  proof (cases "digit_value c")
    case (Some d)
    have "digits_value (10 * a + d) cs = map_option (\<lambda>n. (10 * a + d) * 10 ^ length cs + n) (digits_value 0 cs)"
      by (rule Cons.IH)
    moreover have "digits_value d cs = map_option (\<lambda>n. d * 10 ^ length cs + n) (digits_value 0 cs)"
      by (rule Cons.IH)
    ultimately show ?thesis using Some by (simp add: option.map_comp comp_def algebra_simps)
  qed simp
qed simp

lemma add_fraction_exact:
  assumes "length fs \<le> n" "0 \<le> m" "m \<le> i64_max" "digits_value 0 fs = Some k"
  shows "add_fraction t m (10 ^ n div 10) fs =
    (if m + int k * 10 ^ (n - length fs) \<le> i64_max then Inr (m + int k * 10 ^ (n - length fs)) else Inl (RateOutOfRange t))"
  using assms
proof (induction fs arbitrary: n m k)
  case (Cons c cs)
  then obtain n' where n: "n = Suc n'" by (cases n) auto
  obtain d where d: "digit_value c = Some d" and dk: "digits_value d cs = Some k"
    using Cons.prems(4) by (auto split: option.splits)
  obtain j where j: "digits_value 0 cs = Some j" and k: "k = d * 10 ^ length cs + j"
    using dk unfolding digits_value_acc [of d cs] by auto
  have pow: "(10::int) ^ n' = 10 ^ length cs * 10 ^ (n' - length cs)"
    using Cons.prems(1) n by (simp flip: power_add)
  have total: "m + int k * 10 ^ (n - length (c # cs)) = (m + int d * 10 ^ n') + int j * 10 ^ (n' - length cs)"
    by (simp add: k n pow algebra_simps)
  show ?case
  proof (cases "m + int d * 10 ^ n' \<le> i64_max")
    case True
    moreover have "0 \<le> m + int d * 10 ^ n'" using Cons.prems(2) by simp
    then have "i64_min \<le> m + int d * 10 ^ n'" by simp
    ultimately show ?thesis
      using Cons.IH [of n' "m + int d * 10 ^ n'" j] Cons.prems j d total by (simp add: n is_i64_def)
  next
    case False
    have "0 \<le> int j * 10 ^ (n' - length cs)" by simp
    with False have "\<not> m + int k * 10 ^ (n - length (c # cs)) \<le> i64_max" unfolding total by linarith
    then show ?thesis using False by (simp add: n d is_i64_def)
  qed
qed simp

lemma parse_i64_digit_text:
  assumes "\<forall>c\<in>set s. is_ascii_digit c" "s \<noteq> []" "digits_value 0 s = Some n"
  shows "parse_i64 s = (if int n \<le> i64_max then Some (int n) else None)"
  using assms hd_digit_no_sign [OF assms(1,2)] by (cases s) (auto simp: parse_i64_def unsigned_body_def)

text \<open>
  A decimal rate is read exactly or refused: digits before and at most six after the point give
  their value in micros, with no rounding, and anything past the range or finer than a micro is an error
  that names its cause.\<close>

theorem rate_read_exactly:
  assumes "\<forall>c\<in>set ws. is_ascii_digit c" "\<forall>c\<in>set fs. is_ascii_digit c" "ws \<noteq> [] \<or> fs \<noteq> []"
    and "digits_value 0 ws = Some w" "digits_value 0 fs = Some f"
  shows "parse_rate_micros (ws @ ''.'' @ fs) =
    (let text = ws @ ''.'' @ fs; value = int w * 1000000 + int f * 10 ^ (6 - length fs)
     in if length fs > 6 then Inl (RateTooFine text)
        else if int w > i64_max then Inl (RateNotANumber text)
        else if value > i64_max then Inl (RateOutOfRange text)
        else Inr value)"
proof -
  let ?t = "ws @ ''.'' @ fs"
  have "\<not> is_ws (hd ?t)"
    using assms(1) digits_not_ws by (cases ws) (auto simp: is_ws_def)
  moreover have "\<not> is_ws (last ?t)"
    using assms(2) digits_not_ws [of "last fs"] by (cases "fs = []") (simp_all add: is_ws_def)
  ultimately have t: "trim ?t = ?t" by (intro trim_id) blast
  have dash: "strip_prefix ''-'' ?t = None"
    using assms(1) by (cases ws) auto
  have split: "split_once (CHR ''.'') ?t = Some (ws, fs)"
    using split_once_append [of "CHR ''.''" ws fs] assms(1) not_digit_chars(4) by (simp, blast)
  have whole: "(if ws = [] then Some 0 else parse_i64 ws) = (if int w \<le> i64_max then Some (int w) else None)"
    using parse_i64_digit_text [OF assms(1) _ assms(4)] assms(4) by auto
  have frac: "add_fraction ?t m 100000 fs =
    (if m + int f * 10 ^ (6 - length fs) \<le> i64_max then Inr (m + int f * 10 ^ (6 - length fs)) else Inl (RateOutOfRange ?t))"
    if "length fs \<le> 6" "0 \<le> m" "m \<le> i64_max" for m
    using add_fraction_exact [OF that assms(5), of ?t] by simp
  have over: "i64_max < int w * 1000000 + int f * 10 ^ (6 - length fs)" if "i64_max < int w * 1000000"
    by (rule less_le_trans [OF that]) simp
  show ?thesis
    unfolding parse_rate_micros_def Let_def t starts_with_def dash option.case split prod.case whole
    using assms(3) over frac [of "int w * 1000000"] by (auto simp: not_le checked_mul_i64_def is_i64_def)
qed

theorem rate_read_exactly_witness:
  "parse_rate_micros ''10.05'' = Inr 10050000 \<and> parse_rate_micros ''0.0000001'' = Inl (RateTooFine ''0.0000001'')"
  using rate_read_exactly [of "''10''" "''05''" 10 5] rate_read_exactly [of "''0''" "''0000001''" 0 1]
  by (simp add: string_eval)

text \<open>No text is read as a negative rate or as one outside the machine range.\<close>

lemma rate_range:
  assumes "parse_rate_micros text = Inr micros"
  shows "0 \<le> micros \<and> micros \<le> i64_max"
proof -
  define t where "t = trim text"
  have frac: "add_fraction t m sc fs = Inr r \<Longrightarrow> 0 \<le> sc \<Longrightarrow> 0 \<le> m \<Longrightarrow> m \<le> i64_max \<Longrightarrow> 0 \<le> r \<and> r \<le> i64_max" for m sc fs r
    by (induction t m sc fs rule: add_fraction.induct) (auto simp: is_i64_def split: option.splits if_splits)
  have nodash: "\<not> starts_with ''-'' t" using assms
    by (auto simp: parse_rate_micros_def Let_def t_def split: option.splits prod.splits if_splits sum.splits)
  then have "strip_prefix ''-'' t = None" by (simp add: starts_with_def)
  then obtain wh fr w m where split: "(case split_once (CHR ''.'') t of Some p \<Rightarrow> p | None \<Rightarrow> (t, [])) = (wh, fr)"
    and w: "(if wh = [] then Some 0 else parse_i64 wh) = Some w"
    and m: "checked_mul_i64 w 1000000 = Some m" and r: "add_fraction t m 100000 fr = Inr micros"
    using assms nodash
    by (auto simp: parse_rate_micros_def Let_def t_def [symmetric] split: option.splits prod.splits if_splits sum.splits)
  have "wh = [] \<or> hd wh \<noteq> CHR ''-''"
    using split nodash split_once_SomeD [of "CHR ''.''" t]
    by (cases wh) (auto simp: starts_with_iff split: option.splits)
  then have "0 \<le> w" using w by (cases wh) (auto simp: parse_i64_def split: option.splits if_splits)
  then have "0 \<le> m" "m \<le> i64_max" using m by (auto simp: checked_mul_i64_def is_i64_def split: if_splits)
  with frac [OF r] show ?thesis by simp
qed

section \<open>Laws of schedules\<close>

lemma bit_test: "drop_bit n (w :: 8 word) AND 1 = 1 \<longleftrightarrow> bit w n"
  by (simp add: and_one_eq bit_iff_odd_drop_bit odd_iff_mod_2_eq_one)

lemma byte_bit: "bit (w :: 8 word) n \<Longrightarrow> n < 8"
  using bit_imp_le_length [of w n] by simp

lemma schedule_contains_bit:
  "schedule_contains s d m \<longleftrightarrow> 1 \<le> d \<and> d \<le> 7 \<and> bit (sc_days s) (d - 1) \<and> sc_start s \<le> m \<and> m < sc_end s"
  by (auto simp: schedule_contains_def bit_test)

lemma bit_add_day: "bit (add_day days d) n \<longleftrightarrow> bit days n \<or> n < 8 \<and> n = d - 1"
  by (auto simp: add_day_def bit_or_iff bit_exp_iff)

lemma bit_days: "bit (foldl add_day w ds) n \<longleftrightarrow> bit w n \<or> n < 8 \<and> (\<exists>d\<in>set ds. n = d - 1)"
  by (induction ds arbitrary: w) (auto simp: bit_add_day)

definition schedule_ok :: "schedule \<Rightarrow> bool" where
  "schedule_ok s \<longleftrightarrow> \<not> bit (sc_days s) 7 \<and> sc_days s \<noteq> 0 \<and> sc_start s < sc_end s \<and> sc_end s \<le> 1440"

lemma schedule_new_Some:
  assumes "schedule_new ds a b = Some s"
  shows "\<forall>d\<in>set ds. 1 \<le> d \<and> d \<le> 7" "ds \<noteq> []" "sc_start s = a" "sc_end s = b"
    "\<And>n. bit (sc_days s) n \<longleftrightarrow> (\<exists>d\<in>set ds. n = d - 1)" "schedule_ok s"
proof -
  have c: "\<forall>d\<in>set ds. 1 \<le> d \<and> d \<le> 7" "ds \<noteq> []" "a < b" "b \<le> 1440"
    and s: "s = \<lparr>sc_days = foldl add_day 0 ds, sc_start = a, sc_end = b\<rparr>"
    using assms by (auto simp: schedule_new_def list_ex_iff split: if_splits)
  then show 1: "\<forall>d\<in>set ds. 1 \<le> d \<and> d \<le> 7" "ds \<noteq> []" "sc_start s = a" "sc_end s = b" by simp_all
  show 2: "bit (sc_days s) n \<longleftrightarrow> (\<exists>d\<in>set ds. n = d - 1)" for n
    using c(1) by (auto simp: s bit_days)
  have "bit (sc_days s) (hd ds - 1)" using c(2) by (auto simp: 2)
  then have "sc_days s \<noteq> 0" by auto
  moreover have "\<not> bit (sc_days s) 7" using c(1) by (auto simp: 2)
  ultimately show "schedule_ok s" using c by (simp add: schedule_ok_def s)
qed

text \<open>A schedule applies at exactly the weekdays it was given and the minutes from its start to just
  before its end, and lists those weekdays in order, once each.\<close>

theorem schedule_applies_as_given:
  assumes "schedule_new ds a b = Some s"
  shows "(schedule_contains s d m \<longleftrightarrow> d \<in> set ds \<and> a \<le> m \<and> m < b) \<and>
    set (days_iso s) = set ds \<and> sorted (days_iso s) \<and> distinct (days_iso s)"
proof -
  note s = schedule_new_Some [OF assms]
  have day: "1 \<le> e \<and> e \<le> 7 \<and> bit (sc_days s) (e - 1) \<longleftrightarrow> e \<in> set ds" for e
    using s(1) unfolding s(5) by (metis One_nat_def Suc_pred' less_eq_Suc_le)
  have "set (days_iso s) = {e. 1 \<le> e \<and> e \<le> 7 \<and> bit (sc_days s) (e - 1)}"
    by (auto simp: days_iso_def bit_test)
  also have "\<dots> = set ds" using day by blast
  finally have "set (days_iso s) = set ds" .
  moreover have "sorted (days_iso s)" "distinct (days_iso s)" by (simp_all add: days_iso_def sorted_wrt_filter)
  ultimately show ?thesis using day [of d] s(3,4) by (auto simp: schedule_contains_bit)
qed

theorem schedule_applies_as_given_witness:
  "schedule_contains \<lparr>sc_days = 0b11111, sc_start = 720, sc_end = 1080\<rparr> 3 720"
  using schedule_applies_as_given [of "[1, 2, 3, 4, 5]" 720 1080 "\<lparr>sc_days = 0b11111, sc_start = 720, sc_end = 1080\<rparr>" 3 720]
  by (simp add: schedule_new_def add_day_def push_bit_eq_mult)

text \<open>The overlap test on two schedules is true exactly when some weekday and minute fall in both.\<close>

theorem schedule_overlap_is_shared_instant:
  assumes "schedule_new ds a b = Some s" "schedule_new es c d = Some t"
  shows "schedule_overlaps s t \<longleftrightarrow> (\<exists>w m. schedule_contains s w m \<and> schedule_contains t w m)"
proof -
  note s = schedule_new_Some(6) [OF assms(1)] and t = schedule_new_Some(6) [OF assms(2)]
  have "sc_days s AND sc_days t \<noteq> 0 \<longleftrightarrow> (\<exists>n. bit (sc_days s) n \<and> bit (sc_days t) n)"
    by (auto simp: bit_eq_iff bit_and_iff) (use byte_bit in blast)
  also have "\<dots> \<longleftrightarrow> (\<exists>w\<in>{1..7}. bit (sc_days s) (w - 1) \<and> bit (sc_days t) (w - 1))"
  proof
    assume "\<exists>n. bit (sc_days s) n \<and> bit (sc_days t) n"
    then obtain n where n: "bit (sc_days s) n" "bit (sc_days t) n" by blast
    then have "n < 8" by (simp add: byte_bit)
    moreover have "n \<noteq> 7" using n s by (auto simp: schedule_ok_def)
    ultimately show "\<exists>w\<in>{1..7}. bit (sc_days s) (w - 1) \<and> bit (sc_days t) (w - 1)"
      using n by (intro bexI [of _ "Suc n"]) auto
  qed blast
  finally have days: "sc_days s AND sc_days t \<noteq> 0 \<longleftrightarrow>
    (\<exists>w. 1 \<le> w \<and> w \<le> 7 \<and> bit (sc_days s) (w - 1) \<and> bit (sc_days t) (w - 1))" by auto
  have "sc_start s < sc_end t \<and> sc_start t < sc_end s \<longleftrightarrow>
    (\<exists>m. sc_start s \<le> m \<and> m < sc_end s \<and> sc_start t \<le> m \<and> m < sc_end t)"
    using s t by (auto simp: schedule_ok_def intro!: exI [of _ "max (sc_start s) (sc_start t)"])
  with days show ?thesis by (auto simp: schedule_overlaps_def schedule_contains_bit)
qed

theorem schedule_overlap_is_shared_instant_witness:
  "\<not> schedule_overlaps \<lparr>sc_days = 1, sc_start = 0, sc_end = 60\<rparr> \<lparr>sc_days = 1, sc_start = 60, sc_end = 120\<rparr>"
  using schedule_overlap_is_shared_instant [of "[1]" 0 60 "\<lparr>sc_days = 1, sc_start = 0, sc_end = 60\<rparr>"
      "[1]" 60 120 "\<lparr>sc_days = 1, sc_start = 60, sc_end = 120\<rparr>"]
  by (simp add: schedule_new_def add_day_def schedule_contains_def)

section \<open>Text of a schedule\<close>

lemma day_names: "1 \<le> d \<Longrightarrow> d \<le> 7 \<Longrightarrow>
    parse_day_name (day_name_or d) = Some d \<and> CHR '','' \<notin> set (day_name_or d)"
proof -
  assume "1 \<le> d" "d \<le> 7"
  then have "d = 1 \<or> d = 2 \<or> d = 3 \<or> d = 4 \<or> d = 5 \<or> d = 6 \<or> d = 7" by linarith
  then show ?thesis
    by (elim disjE) (simp_all add: day_name_or_def day_name_def parse_day_name_def string_eval Let_def)
qed

lemma parse_clock_format:
  assumes "m < 1440"
  shows "parse_clock (format_minutes m) = Some m"
proof -
  have h: "m div 60 < 24" using assms by (simp add: less_mult_imp_div_less)
  have "m div 60 < 10 ^ 2" "m mod 60 < 10 ^ 2" using h by (simp_all add: order_less_le_trans)
  then have len: "length (pad0 2 (m div 60)) = 2" "length (pad0 2 (m mod 60)) = 2"
    by (simp_all only: length_pad0)
  have p: "parse_unsigned u16_max (pad0 2 n) = Some n" if "n < 100" for n
    using that by (intro parse_unsigned_digits) (auto simp: pad0_digits digits_value_pad0)
  have "split_once (CHR '':'') (format_minutes m) = Some (pad0 2 (m div 60), pad0 2 (m mod 60))"
    by (simp add: format_minutes_def split_once_append)
  then show ?thesis using h len p [of "m div 60"] p [of "m mod 60"] by (simp add: parse_clock_def)
qed

lemma format_minutes_chars: "c \<in> set (format_minutes m) \<Longrightarrow> is_ascii_digit c \<or> c = CHR '':''"
  by (auto simp: format_minutes_def dest: pad0_digits)

lemma trim_format_minutes: "trim (format_minutes m) = format_minutes m"
proof (rule trim_id)
  have "format_minutes m \<noteq> []" by (simp add: format_minutes_def)
  then have "is_ascii_digit (hd (format_minutes m)) \<or> hd (format_minutes m) = CHR '':''"
    "is_ascii_digit (last (format_minutes m)) \<or> last (format_minutes m) = CHR '':''"
    by (meson format_minutes_chars hd_in_set last_in_set)+
  then show "format_minutes m = [] \<or> \<not> is_ws (hd (format_minutes m)) \<and> \<not> is_ws (last (format_minutes m))"
    using digits_not_ws by (auto simp: is_ws_def)
qed

text \<open>The stored spellings of a schedule read back: the comma-joined day names give its weekdays and, when
  it ends before midnight, the hour range gives its minutes, so the schedule is rebuilt from its text.\<close>

theorem schedule_text_roundtrip:
  assumes "schedule_new ds a b = Some s" "b < 1440"
  shows "map parse_day_name (split_on (CHR '','') (days_text s)) = map Some (days_iso s) \<and>
    parse_hours_utc (hours_text s) = Inr (a, b) \<and> schedule_new (days_iso s) a b = Some s"
proof -
  note s = schedule_new_Some [OF assms(1)]
  have ab: "a < b" using s(3,4,6) by (simp add: schedule_ok_def)
  have days: "d \<in> set (days_iso s) \<Longrightarrow> 1 \<le> d \<and> d \<le> 7" for d by (auto simp: days_iso_def)
  have day: "e \<in> set (days_iso s) \<longleftrightarrow> e \<in> set ds" for e
  proof -
    have "1 \<le> e \<and> e \<le> 7 \<and> bit (sc_days s) (e - 1) \<longleftrightarrow> e \<in> set ds"
      using s(1) unfolding s(5) by (metis One_nat_def Suc_pred' less_eq_Suc_le)
    then show ?thesis by (auto simp: days_iso_def bit_test)
  qed
  then have ne: "days_iso s \<noteq> []" using s(2) by (metis empty_iff list.set(1) list.set_intros(1) neq_Nil_conv)
  have "split_on (CHR '','') (days_text s) = map day_name_or (days_iso s)"
    unfolding days_text_def using ne days day_names by (intro split_on_join) auto
  moreover have "map parse_day_name (map day_name_or (days_iso s)) = map Some (days_iso s)"
    using days day_names by simp
  moreover have "parse_hours_utc (hours_text s) = Inr (a, b)"
  proof -
    have "CHR ''-'' \<notin> set (format_minutes (sc_start s))"
      using format_minutes_chars not_digit_chars(1) by fastforce
    then have "split_once (CHR ''-'') (hours_text s) = Some (format_minutes (sc_start s), format_minutes (sc_end s))"
      by (simp add: hours_text_def split_once_append)
    then show ?thesis using ab assms(2)
      by (simp add: parse_hours_utc_def trim_format_minutes parse_clock_format s(3,4))
  qed
  moreover have "schedule_new (days_iso s) a b = Some s"
  proof -
    have "foldl add_day 0 (days_iso s) = sc_days s"
      using s(1) by (intro bit_eqI) (auto simp: bit_days day s(5))
    then show ?thesis using ne days ab assms(2) s(3,4) by (auto simp: schedule_new_def list_ex_iff)
  qed
  ultimately show ?thesis by simp
qed

theorem schedule_text_roundtrip_witness:
  "parse_hours_utc (hours_text \<lparr>sc_days = 1, sc_start = 720, sc_end = 1080\<rparr>) = Inr (720, 1080)"
  using schedule_text_roundtrip [of "[1]" 720 1080 "\<lparr>sc_days = 1, sc_start = 720, sc_end = 1080\<rparr>"]
  by (simp add: schedule_new_def add_day_def)

text \<open>Every symbolic code reads back to the field it was written from, and a denomination's symbol never
  reads as a currency unless it is money.\<close>

theorem rate_codes_roundtrip:
  "token_class_parse (token_class_as_str c) = Some c \<and> basis_parse (basis_as_str b) = Some b \<and>
   window_kind_parse (window_kind_as_str w) = Some w \<and> unit_parse (unit_as_str u) = Some u \<and>
   quality_parse (quality_as_str q) = Some q \<and> denomination_parse (denomination_as_str d) = Some d \<and>
   currency_parse (denomination_as_str d) = denomination_currency d"
proof (intro conjI)
  show "token_class_parse (token_class_as_str c) = Some c" by (cases c) (simp_all add: token_class_parse_def)
  show "basis_parse (basis_as_str b) = Some b" by (cases b) (simp_all add: basis_parse_def)
  show "window_kind_parse (window_kind_as_str w) = Some w" by (cases w) (simp_all add: window_kind_parse_def)
  show "unit_parse (unit_as_str u) = Some u" by (cases u) (simp add: unit_parse_def)
  show "quality_parse (quality_as_str q) = Some q" by (cases q) (simp add: quality_parse_def)
  have money: "currency_parse (currency_as_str k) = Some k" for k by (cases k) (simp_all add: currency_parse_def)
  have points: "currency_parse (unit_as_str k) = None \<and> unit_parse (unit_as_str k) = Some k" for k
    by (cases k) (simp add: currency_parse_def unit_parse_def)
  show "denomination_parse (denomination_as_str d) = Some d"
    by (cases d) (simp_all add: denomination_parse_def money points)
  show "currency_parse (denomination_as_str d) = denomination_currency d"
    by (cases d) (simp_all add: money points)
qed

end
