(* ===== verification/Valuation.thy ===== *)
theory Valuation
  imports Rate_Cards Token_Vectors
begin

text \<open>
  \<open>src/valuation.rs\<close>: which rate card is in force for a token class at an instant, and what a usage
  vector or a batch of them costs at list price or moves in a quota window. A currency is the type
  parameter of its money and the code text that \<open>C::CODE\<close> names, an argument here. The set of used
  cards is a set; totals add with the wrap-around of the release build.
\<close>

section \<open>Outcomes\<close>

datatype 'c list_price = ListPrice (price_amount: "'c money")

definition price_micros :: "'c list_price \<Rightarrow> i64" where
  "price_micros p = micros (price_amount p)"

definition price_zero :: "'c list_price" where
  "price_zero = ListPrice (Money 0)"

definition price_add :: "'c list_price \<Rightarrow> 'c list_price \<Rightarrow> 'c list_price" where
  "price_add a b = ListPrice (money_add (price_amount a) (price_amount b))"

datatype missing_rate =
  MissingRate (mr_vendor: string) (mr_model: string) (mr_token_class: string) (mr_at: utc_timestamp)

text \<open>The derived order: field by field.\<close>

definition missing_key :: "missing_rate \<Rightarrow> string \<times> string \<times> string \<times> utc_timestamp" where
  "missing_key m = (mr_vendor m, mr_model m, mr_token_class m, mr_at m)"

lemma missing_key_inj: "missing_key m = missing_key n \<Longrightarrow> m = n"
  by (simp add: missing_key_def missing_rate.expand)

instantiation missing_rate :: linorder
begin
definition "m \<le> n \<longleftrightarrow> missing_key m \<le> missing_key n"
definition "(m::missing_rate) < n \<longleftrightarrow> missing_key m < missing_key n"
instance
  by standard (auto simp: less_eq_missing_rate_def less_missing_rate_def intro: missing_key_inj)
end

datatype 'c valuation =
    Complete "'c list_price"
  | Incomplete "'c list_price" "missing_rate list"
  | UnsupportedCurrency currency_code string

fun combine :: "'c valuation \<Rightarrow> 'c valuation \<Rightarrow> 'c valuation" where
  "combine (Complete a) (Complete b) = Complete (price_add a b)"
| "combine (Complete a) (Incomplete b mb) = Incomplete (price_add a b) mb"
| "combine (Incomplete a ma) (Complete b) = Incomplete (price_add a b) ma"
| "combine (Incomplete a ma) (Incomplete b mb) = Incomplete (price_add a b) (ma @ mb)"
| "combine (UnsupportedCurrency f e) _ = UnsupportedCurrency f e"
| "combine _ (UnsupportedCurrency f e) = UnsupportedCurrency f e"

section \<open>The book\<close>

record rate_book =
  rb_cards :: "rate_card list"
  rb_version :: "string option"

definition book_new :: "rate_card list \<Rightarrow> rate_book" where
  "book_new cards = \<lparr>rb_cards = cards, rb_version = None\<rparr>"

definition book_with_version :: "rate_card list \<Rightarrow> string \<Rightarrow> rate_book" where
  "book_with_version cards version = \<lparr>rb_cards = cards, rb_version = Some version\<rparr>"

text \<open>\<open>Iterator::max\<close> keeps the last of equal maxima.\<close>

fun last_max :: "('a \<Rightarrow> 'k::linorder) \<Rightarrow> 'a \<Rightarrow> 'a list \<Rightarrow> 'a" where
  "last_max f best [] = best"
| "last_max f best (x # xs) = last_max f (if f x < f best then best else x) xs"

definition book_version :: "rate_book \<Rightarrow> string option" where
  "book_version book =
     (case rb_version book of
        Some v \<Rightarrow> Some v
      | None \<Rightarrow>
          (case map (\<lambda>c. rd_effective_start (rc_draft c)) (rb_cards book) of
             [] \<Rightarrow> None
           | d # ds \<Rightarrow> Some (''rate-card-'' @ iso (last_max date_key d ds))))"

definition stale_cards :: "rate_book \<Rightarrow> utc_date \<Rightarrow> rate_card list" where
  "stale_cards book at =
     filter (\<lambda>c. case rd_review_due (rc_draft c) of ReviewOn due \<Rightarrow> date_key at \<ge> date_key due | NoReview \<Rightarrow> False)
       (rb_cards book)"

definition card_in_force_on :: "rate_card \<Rightarrow> utc_date \<Rightarrow> bool" where
  "card_in_force_on rcard date \<longleftrightarrow>
     date_key date \<ge> date_key (rd_effective_start (rc_draft rcard)) \<and>
     (case rd_effective_end (rc_draft rcard) of None \<Rightarrow> True | Some e \<Rightarrow> date_key date \<le> date_key e)"

definition normalized :: "string \<Rightarrow> string" where
  "normalized s = to_lowercase (trim s)"

definition card_exact_date_match :: "rate_card \<Rightarrow> string \<Rightarrow> string \<Rightarrow> token_class \<Rightarrow> utc_date \<Rightarrow> bool" where
  "card_exact_date_match rcard normalized_vendor normalized_model cls date \<longleftrightarrow>
     rd_billing_basis (rc_draft rcard) = PerMillionTokens \<and>
     normalized (rd_vendor (rc_draft rcard)) = normalized_vendor \<and>
     normalized (rd_model (rc_draft rcard)) = normalized_model \<and>
     rd_token_class (rc_draft rcard) = cls \<and> card_in_force_on rcard date"

definition revision :: "rate_card \<Rightarrow> (i64 \<times> u32 \<times> u32) \<times> i64 \<times> utc_timestamp" where
  "revision rcard = (date_key (rd_effective_start (rc_draft rcard)), rc_id rcard, rc_imported_at rcard)"

definition is_later_revision :: "rate_card option \<Rightarrow> rate_card \<Rightarrow> bool" where
  "is_later_revision best rcard = (case best of None \<Rightarrow> True | Some current \<Rightarrow> revision rcard > revision current)"

definition is_narrower_or_later :: "(rate_card \<times> nat) option \<Rightarrow> rate_card \<Rightarrow> nat \<Rightarrow> bool" where
  "is_narrower_or_later best rcard wid =
     (case best of
        None \<Rightarrow> True
      | Some (current, current_width) \<Rightarrow>
          wid < current_width \<or> wid = current_width \<and> is_later_revision (Some current) rcard)"

fun find_rate_walk ::
    "(rate_card \<Rightarrow> bool) \<Rightarrow> nat \<Rightarrow> nat \<Rightarrow> rate_card option \<Rightarrow> (rate_card \<times> nat) option \<Rightarrow> rate_card list \<Rightarrow>
     rate_card option" where
  "find_rate_walk matches wd minutes best_default best_scheduled [] =
     (case best_scheduled of Some (rcard, _) \<Rightarrow> Some rcard | None \<Rightarrow> best_default)"
| "find_rate_walk matches wd minutes best_default best_scheduled (rcard # cards) =
     (if \<not> matches rcard then find_rate_walk matches wd minutes best_default best_scheduled cards
      else
        case rd_schedule (rc_draft rcard) of
          None \<Rightarrow>
            find_rate_walk matches wd minutes
              (if is_later_revision best_default rcard then Some rcard else best_default) best_scheduled cards
        | Some s \<Rightarrow>
            if \<not> schedule_contains s wd minutes
            then find_rate_walk matches wd minutes best_default best_scheduled cards
            else
              let wid = window_minutes s
              in find_rate_walk matches wd minutes best_default
                   (if is_narrower_or_later best_scheduled rcard wid then Some (rcard, wid) else best_scheduled)
                   cards)"

definition find_rate :: "rate_book \<Rightarrow> string \<Rightarrow> string \<Rightarrow> token_class \<Rightarrow> utc_timestamp \<Rightarrow> rate_card option" where
  "find_rate book vendor model cls at =
     (let date = timestamp_date at;
          (hour, minute) = hour_minute_utc at;
          v = normalized vendor;
          m = normalized model
      in find_rate_walk (\<lambda>c. card_exact_date_match c v m cls date) (weekday at) (hour * 60 + minute)
           None None (rb_cards book))"

fun latest_walk :: "(rate_card \<Rightarrow> bool) \<Rightarrow> rate_card option \<Rightarrow> rate_card list \<Rightarrow> rate_card option" where
  "latest_walk matches best [] = best"
| "latest_walk matches best (rcard # cards) =
     latest_walk matches (if matches rcard \<and> is_later_revision best rcard then Some rcard else best) cards"

definition find_default_rate ::
    "rate_book \<Rightarrow> string \<Rightarrow> string \<Rightarrow> token_class \<Rightarrow> utc_date \<Rightarrow> rate_card option" where
  "find_default_rate book vendor model cls date =
     (let v = normalized vendor; m = normalized model
      in latest_walk (\<lambda>c. rd_schedule (rc_draft c) = None \<and> card_exact_date_match c v m cls date) None (rb_cards book))"

definition window_card_match ::
    "rate_card \<Rightarrow> string \<Rightarrow> string \<Rightarrow> token_class \<Rightarrow> quota_window_kind \<Rightarrow> utc_date \<Rightarrow> bool" where
  "window_card_match rcard v m cls window date \<longleftrightarrow>
     rd_billing_basis (rc_draft rcard) = PercentOfWindowPerMillionTokens \<and>
     (case rd_window_estimate (rc_draft rcard) of None \<Rightarrow> False | Some e \<Rightarrow> we_window e = window) \<and>
     normalized (rd_vendor (rc_draft rcard)) = v \<and> normalized (rd_model (rc_draft rcard)) = m \<and>
     rd_token_class (rc_draft rcard) = cls \<and> card_in_force_on rcard date"

definition find_window_rate ::
    "rate_book \<Rightarrow> string \<Rightarrow> string \<Rightarrow> token_class \<Rightarrow> quota_window_kind \<Rightarrow> utc_timestamp \<Rightarrow> rate_card option" where
  "find_window_rate book vendor model cls window at =
     (let date = timestamp_date at; v = normalized vendor; m = normalized model
      in latest_walk (\<lambda>c. window_card_match c v m cls window date) None (rb_cards book))"

definition find_custom_rate :: "rate_book \<Rightarrow> string \<Rightarrow> string \<Rightarrow> string \<Rightarrow> utc_timestamp \<Rightarrow> rate_card option" where
  "find_custom_rate book vendor model cls_name at =
     (case token_class_parse cls_name of None \<Rightarrow> None | Some cls \<Rightarrow> find_rate book vendor model cls at)"

definition find_default_custom_rate :: "rate_book \<Rightarrow> string \<Rightarrow> string \<Rightarrow> string \<Rightarrow> utc_date \<Rightarrow> rate_card option" where
  "find_default_custom_rate book vendor model cls_name date =
     (case token_class_parse cls_name of None \<Rightarrow> None | Some cls \<Rightarrow> find_default_rate book vendor model cls date)"

section \<open>Valuing usage\<close>

fun token_kind_to_class :: "token_kind \<Rightarrow> token_class" where
  "token_kind_to_class Input_Kind = InputClass"
| "token_kind_to_class Output_Kind = OutputClass"
| "token_kind_to_class CacheRead_Kind = CacheReadClass"
| "token_kind_to_class CacheWrite_Kind = CacheWrite5m"

record used_rate_card =
  uc_vendor :: string
  uc_model :: string
  uc_token_class :: string
  uc_schedule :: "schedule option"

definition used_of :: "rate_card \<Rightarrow> used_rate_card" where
  "used_of rcard =
     \<lparr>uc_vendor = rd_vendor (rc_draft rcard), uc_model = rd_model (rc_draft rcard),
      uc_token_class = token_class_as_str (rd_token_class (rc_draft rcard)), uc_schedule = rd_schedule (rc_draft rcard)\<rparr>"

definition schedule_label :: "used_rate_card \<Rightarrow> string" where
  "schedule_label u = (case uc_schedule u of Some s \<Rightarrow> describe s | None \<Rightarrow> ''default'')"

text \<open>A component to price: the class name a missing rate would carry, the selected card, the count.\<close>

type_synonym component = "string \<times> rate_card option \<times> u64"

record price_state =
  ps_total :: i64
  ps_missing :: "missing_rate list"
  ps_cards :: "used_rate_card set"

fun price_components ::
    "string \<Rightarrow> string \<Rightarrow> string \<Rightarrow> utc_timestamp \<Rightarrow> price_state \<Rightarrow> component list \<Rightarrow>
     (currency_code \<times> used_rate_card set) + price_state" where
  "price_components code vendor model at st [] = Inr st"
| "price_components code vendor model at st ((name, rcard, tokens) # rest) =
     (if tokens = 0 then price_components code vendor model at st rest
      else
        let unpriced = price_components code vendor model at
              (st\<lparr>ps_missing := ps_missing st @ [MissingRate vendor model name at]\<rparr>) rest
        in case rcard of
             None \<Rightarrow> unpriced
           | Some c \<Rightarrow>
               (case denomination_currency (rd_denomination (rc_draft c)) of
                  None \<Rightarrow> unpriced
                | Some currency \<Rightarrow>
                    if currency_as_str currency \<noteq> code then Inl (currency, ps_cards st)
                    else
                      price_components code vendor model at
                        (st\<lparr>ps_total := wrap_i64 (ps_total st +
                               micros (money_times_tokens (MoneyPerMillionTokens (rd_rate_micros (rc_draft c)) :: unit money_rate) tokens)),
                             ps_cards := insert (used_of c) (ps_cards st)\<rparr>) rest))"

definition value_scoped ::
    "string \<Rightarrow> rate_book \<Rightarrow> string \<Rightarrow> string \<Rightarrow> utc_timestamp \<Rightarrow> bool \<Rightarrow> usage_vector \<Rightarrow>
     'c valuation \<times> used_rate_card set" where
  "value_scoped code book vendor model at default_only usage =
     (let date = timestamp_date at;
          select = (\<lambda>cls. if default_only then find_default_rate book vendor model cls date
                         else find_rate book vendor model cls at);
          select_custom = (\<lambda>name. if default_only then find_default_custom_rate book vendor model name date
                         else find_custom_rate book vendor model name at);
          known = map (\<lambda>k. (token_class_as_str (token_kind_to_class k), select (token_kind_to_class k),
                            known_value (uv_known usage) k)) token_kinds;
          unknown = map (\<lambda>(name, tokens). (name, select_custom name, tc_value tokens)) (uv_unknown usage)
      in case price_components code vendor model at \<lparr>ps_total = 0, ps_missing = [], ps_cards = {}\<rparr> known of
           Inl (found, cards) \<Rightarrow> (UnsupportedCurrency found code, cards)
         | Inr st \<Rightarrow>
             (case price_components code vendor model at st unknown of
                Inl (found, cards) \<Rightarrow> (UnsupportedCurrency found code, cards)
              | Inr st' \<Rightarrow>
                  let subtotal = ListPrice (Money (ps_total st'))
                  in (if ps_missing st' = [] then Complete subtotal else Incomplete subtotal (ps_missing st'),
                      ps_cards st')))"

definition value_usage_vector ::
    "string \<Rightarrow> rate_book \<Rightarrow> string \<Rightarrow> string \<Rightarrow> utc_timestamp \<Rightarrow> usage_vector \<Rightarrow> 'c valuation" where
  "value_usage_vector code book vendor model at usage = fst (value_scoped code book vendor model at False usage)"

definition value_usage_vector_default_card ::
    "string \<Rightarrow> rate_book \<Rightarrow> string \<Rightarrow> string \<Rightarrow> utc_timestamp \<Rightarrow> usage_vector \<Rightarrow> 'c valuation" where
  "value_usage_vector_default_card code book vendor model at usage =
     fst (value_scoped code book vendor model at True usage)"

definition used_rate_cards ::
    "rate_book \<Rightarrow> string \<Rightarrow> string \<Rightarrow> utc_timestamp \<Rightarrow> usage_vector \<Rightarrow> used_rate_card set" where
  "used_rate_cards book vendor model at usage =
     snd (value_scoped ''USD'' book vendor model at False usage :: usd valuation \<times> used_rate_card set)"

definition used_rate_cards_default_card ::
    "rate_book \<Rightarrow> string \<Rightarrow> string \<Rightarrow> utc_timestamp \<Rightarrow> usage_vector \<Rightarrow> used_rate_card set" where
  "used_rate_cards_default_card book vendor model at usage =
     snd (value_scoped ''USD'' book vendor model at True usage :: usd valuation \<times> used_rate_card set)"

section \<open>Batches\<close>

record usage_item =
  ui_vendor :: string
  ui_model :: string
  ui_at :: utc_timestamp
  ui_usage :: usage_vector

fun value_batch_walk ::
    "string \<Rightarrow> rate_book \<Rightarrow> i64 \<Rightarrow> missing_rate list \<Rightarrow> usage_item list \<Rightarrow> 'c valuation" where
  "value_batch_walk code book sum_so_far missing [] =
     (let all_missing = remdups_adj (sort missing);
          subtotal = ListPrice (Money sum_so_far)
      in if all_missing = [] then Complete subtotal else Incomplete subtotal all_missing)"
| "value_batch_walk code book sum_so_far missing (item # items) =
     (case (value_usage_vector code book (ui_vendor item) (ui_model item) (ui_at item) (ui_usage item) :: 'c valuation) of
        Complete p \<Rightarrow> value_batch_walk code book (wrap_i64 (sum_so_far + price_micros p)) missing items
      | Incomplete p rates \<Rightarrow> value_batch_walk code book (wrap_i64 (sum_so_far + price_micros p)) (missing @ rates) items
      | UnsupportedCurrency found expected \<Rightarrow> UnsupportedCurrency found expected)"

definition value_batch :: "string \<Rightarrow> rate_book \<Rightarrow> usage_item list \<Rightarrow> 'c valuation" where
  "value_batch code book items = value_batch_walk code book 0 [] items"

section \<open>Window movement\<close>

datatype window_valuation =
    WindowComplete percentage_points "i64 list"
  | WindowIncomplete percentage_points "i64 list" "missing_rate list"
  | WindowOutOfRange string

record window_state =
  ws_total :: i64
  ws_ids :: "i64 list"
  ws_missing :: "missing_rate list"

fun price_window ::
    "rate_book \<Rightarrow> string \<Rightarrow> string \<Rightarrow> quota_window_kind \<Rightarrow> utc_timestamp \<Rightarrow> window_state \<Rightarrow> (string \<times> u64) list \<Rightarrow>
     string + window_state" where
  "price_window book vendor model window at st [] = Inr st"
| "price_window book vendor model window at st ((name, tokens) # rest) =
     (if tokens = 0 then price_window book vendor model window at st rest
      else
        case (case token_class_parse name of None \<Rightarrow> None | Some cls \<Rightarrow> find_window_rate book vendor model cls window at) of
          None \<Rightarrow>
            price_window book vendor model window at
              (st\<lparr>ws_missing := ws_missing st @ [MissingRate vendor model name at]\<rparr>) rest
        | Some rcard \<Rightarrow>
            (case points_times_tokens (PointsPerMillionTokens (rd_rate_micros (rc_draft rcard))) tokens of
               None \<Rightarrow> Inl name
             | Some points \<Rightarrow>
                 let sum_so_far = ws_total st + pp points
                 in if \<not> (is_i32 sum_so_far \<and> points_new sum_so_far \<noteq> None) then Inl name
                    else price_window book vendor model window at
                           (st\<lparr>ws_total := sum_so_far, ws_ids := ws_ids st @ [rc_id rcard]\<rparr>) rest))"

definition value_usage_vector_in_window ::
    "rate_book \<Rightarrow> string \<Rightarrow> string \<Rightarrow> quota_window_kind \<Rightarrow> utc_timestamp \<Rightarrow> usage_vector \<Rightarrow> window_valuation" where
  "value_usage_vector_in_window book vendor model window at usage =
     (let known = map (\<lambda>k. (token_class_as_str (token_kind_to_class k), known_value (uv_known usage) k)) token_kinds;
          unknown = map (\<lambda>(name, tokens). (name, tc_value tokens)) (uv_unknown usage)
      in case price_window book vendor model window at \<lparr>ws_total = 0, ws_ids = [], ws_missing = []\<rparr> known of
           Inl name \<Rightarrow> WindowOutOfRange name
         | Inr st \<Rightarrow>
             (case price_window book vendor model window at st unknown of
                Inl name \<Rightarrow> WindowOutOfRange name
              | Inr st' \<Rightarrow>
                  let ids = remdups_adj (sort (ws_ids st')); subtotal = PercentagePoints (ws_total st')
                  in if ws_missing st' = [] then WindowComplete subtotal ids
                     else WindowIncomplete subtotal ids (ws_missing st')))"

end
