(* ===== verification/Valuation_Laws.thy ===== *)
theory Valuation_Laws
  imports Valuation Selection
begin

text \<open>
  What the selectors of \<open>src/valuation.rs\<close> promise: the card in force is the best one of those that apply,
  whatever the order of the book; what a valuation and a batch of them add up to is in
  \<open>Valuation_Totals\<close>.
\<close>

section \<open>The card in force\<close>

definition minute_of_day :: "utc_timestamp \<Rightarrow> nat" where
  "minute_of_day at = (let (hour, minute) = hour_minute_utc at in hour * 60 + minute)"

definition card_applies :: "string \<Rightarrow> string \<Rightarrow> token_class \<Rightarrow> utc_timestamp \<Rightarrow> rate_card \<Rightarrow> bool" where
  "card_applies vendor model cls at c \<longleftrightarrow>
     card_exact_date_match c (normalized vendor) (normalized model) cls (timestamp_date at) \<and>
     (case rd_schedule (rc_draft c) of None \<Rightarrow> True | Some s \<Rightarrow> schedule_contains s (weekday at) (minute_of_day at))"

text \<open>A scheduled card before a default, the narrower window first, then the later revision.\<close>

definition card_rank :: "rate_card \<Rightarrow> nat \<times> int \<times> (i64 \<times> u32 \<times> u32) \<times> i64 \<times> utc_timestamp" where
  "card_rank c =
     (case rd_schedule (rc_draft c) of
        None \<Rightarrow> (0, 0, revision c)
      | Some s \<Rightarrow> (1, - int (window_minutes s), revision c))"

abbreviation outranks :: "rate_card \<Rightarrow> rate_card \<Rightarrow> bool" where
  "outranks \<equiv> \<lambda>x y. card_rank y < card_rank x"

definition walk_best :: "rate_card option \<Rightarrow> (rate_card \<times> nat) option \<Rightarrow> rate_card option" where
  "walk_best bd bs = (case bs of Some (c, _) \<Rightarrow> Some c | None \<Rightarrow> bd)"

lemma find_rate_walk_best:
  assumes "\<And>c. bd = Some c \<Longrightarrow> rd_schedule (rc_draft c) = None"
    and "\<And>c wid. bs = Some (c, wid) \<Longrightarrow> \<exists>s. rd_schedule (rc_draft c) = Some s \<and> wid = window_minutes s"
  shows "find_rate_walk P wd m bd bs cs = foldl (keep_best outranks) (walk_best bd bs)
    (filter (\<lambda>c. P c \<and> (case rd_schedule (rc_draft c) of None \<Rightarrow> True | Some s \<Rightarrow> schedule_contains s wd m)) cs)"
  using assms
proof (induction cs arbitrary: bd bs)
  case Nil
  then show ?case by (simp add: walk_best_def split: option.splits prod.splits)
next
  case (Cons c cs)
  show ?case
  proof (cases "P c")
    case True
    show ?thesis
    proof (cases "rd_schedule (rc_draft c)")
      case None
      have "keep_best outranks (walk_best bd bs) c = walk_best (if is_later_revision bd c then Some c else bd) bs"
      proof (cases bs)
        case None
        then show ?thesis using \<open>rd_schedule (rc_draft c) = None\<close> Cons.prems(1)
          by (auto simp: walk_best_def keep_best_def is_later_revision_def card_rank_def split: option.splits)
      next
        case (Some p)
        then obtain d wid s where "bs = Some (d, wid)" "rd_schedule (rc_draft d) = Some s"
          using Cons.prems(2) by (cases p) blast
        then show ?thesis using None by (simp add: walk_best_def keep_best_def card_rank_def)
      qed
      moreover have "find_rate_walk P wd m (if is_later_revision bd c then Some c else bd) bs cs =
          foldl (keep_best outranks) (walk_best (if is_later_revision bd c then Some c else bd) bs)
            (filter (\<lambda>c. P c \<and> (case rd_schedule (rc_draft c) of None \<Rightarrow> True | Some s \<Rightarrow> schedule_contains s wd m)) cs)"
        using None Cons.prems by (intro Cons.IH) (auto split: if_splits)
      ultimately show ?thesis using True None by simp
    next
      case (Some s)
      show ?thesis
      proof (cases "schedule_contains s wd m")
        case False
        then show ?thesis using True Some Cons.IH [OF Cons.prems] by simp
      next
        case contains: True
        let ?bs = "if is_narrower_or_later bs c (window_minutes s) then Some (c, window_minutes s) else bs"
        have "keep_best outranks (walk_best bd bs) c = walk_best bd ?bs"
        proof (cases bs)
          case None
          then show ?thesis using Some Cons.prems(1)
            by (auto simp: walk_best_def keep_best_def is_narrower_or_later_def card_rank_def split: option.splits)
        next
          case p: (Some p)
          then obtain d t where "bs = Some (d, window_minutes t)" "rd_schedule (rc_draft d) = Some t"
            using Cons.prems(2) by (cases p) blast
          then show ?thesis using Some
            by (auto simp: walk_best_def keep_best_def is_narrower_or_later_def is_later_revision_def card_rank_def)
        qed
        moreover have "find_rate_walk P wd m bd ?bs cs = foldl (keep_best outranks) (walk_best bd ?bs)
            (filter (\<lambda>c. P c \<and> (case rd_schedule (rc_draft c) of None \<Rightarrow> True | Some s \<Rightarrow> schedule_contains s wd m)) cs)"
          using Some Cons.prems by (intro Cons.IH) (auto split: if_splits)
        ultimately show ?thesis using True Some contains by (simp add: Let_def)
      qed
    qed
  next
    case False
    then show ?thesis using Cons.IH [OF Cons.prems] by simp
  qed
qed

lemma find_rate_eq:
  "find_rate book vendor model cls at = first_best outranks (filter (card_applies vendor model cls at) (rb_cards book))"
proof -
  obtain h m where hm: "hour_minute_utc at = (h, m)" by fastforce
  have "find_rate book vendor model cls at =
      foldl (keep_best outranks) None (filter (card_applies vendor model cls at) (rb_cards book))"
    unfolding find_rate_def Let_def card_applies_def minute_of_day_def hm prod.case
    using find_rate_walk_best [of None None] by (simp add: walk_best_def)
  then show ?thesis by (simp add: greatest.foldl_keep_None)
qed

lemma latest_walk_best:
  "latest_walk P b cs = foldl (keep_best (\<lambda>x y. revision y < revision x)) b (filter P cs)"
  by (induction cs arbitrary: b) (auto simp: keep_best_def is_later_revision_def split: option.splits)

lemma latest_walk_eq: "latest_walk P None cs = first_best (\<lambda>x y. revision y < revision x) (filter P cs)"
  by (simp add: latest_walk_best greatest.foldl_keep_None)

text \<open>
  C5. The card that prices a class at an instant is the first, among the cards that match exactly, are in
  force on that day and, if scheduled, contain the instant, of the highest rank: scheduled before default,
  then the narrowest window, then the latest revision. There is none exactly when no card applies.\<close>

theorem card_in_force_is_best:
  "(find_rate book vendor model cls at = Some c \<longleftrightarrow>
     (\<exists>pre post. filter (card_applies vendor model cls at) (rb_cards book) = pre @ c # post \<and>
        (\<forall>d\<in>set pre. card_rank d < card_rank c) \<and> (\<forall>d\<in>set post. card_rank d \<le> card_rank c))) \<and>
   (find_rate book vendor model cls at = None \<longleftrightarrow> (\<forall>d\<in>set (rb_cards book). \<not> card_applies vendor model cls at d))"
  by (simp add: find_rate_eq greatest.first_best_iff filter_empty_conv not_less)

definition sample_card :: "i64 \<Rightarrow> i64 \<Rightarrow> schedule option \<Rightarrow> rate_card" where
  "sample_card i rate sched =
     \<lparr>rc_id = i, rc_imported_at = 0,
      rc_draft = \<lparr>rd_vendor = ''anthropic'', rd_model = ''opus'', rd_token_class = InputClass, rd_rate_micros = rate,
        rd_denomination = MoneyRate USD, rd_billing_basis = PerMillionTokens, rd_window_estimate = None,
        rd_effective_start = \<lparr>year = 1970, month = 1, day = 1\<rparr>, rd_effective_end = None, rd_schedule = sched,
        rd_publication = \<lparr>pub_source = None, pub_published_at = None\<rparr>, rd_review_due = NoReview\<rparr>\<rparr>"

definition peak :: schedule where
  "peak = \<lparr>sc_days = 0b1111111, sc_start = 0, sc_end = 60\<rparr>"

definition sample_book :: rate_book where
  "sample_book = book_new [sample_card 1 15000000 None, sample_card 2 20000000 (Some peak), sample_card 3 16000000 None]"

lemma epoch_instant: "timestamp_date 0 = \<lparr>year = 1970, month = 1, day = 1\<rparr>" "weekday 0 = 4" "minute_of_day 0 = 0"
  by code_simp+

lemma sample_names:
  "normalized ''anthropic'' = ''anthropic''" "normalized ''opus'' = ''opus''"
  "normalized ''Anthropic'' = ''anthropic''" "normalized '' opus '' = ''opus''"
  by (simp_all add: normalized_def string_eval)

lemma sample_card_applies:
  "card_applies ''Anthropic'' '' opus '' InputClass 0 (sample_card i rate sched) \<longleftrightarrow>
     (case sched of None \<Rightarrow> True | Some s \<Rightarrow> schedule_contains s 4 0)"
  by (simp add: card_applies_def card_exact_date_match_def card_in_force_on_def sample_card_def epoch_instant sample_names date_key_def
      split: option.split)

lemma sample_applies:
  "filter (card_applies ''Anthropic'' '' opus '' InputClass 0) (rb_cards sample_book) =
     [sample_card 1 15000000 None, sample_card 2 20000000 (Some peak), sample_card 3 16000000 None]"
  by (simp add: sample_book_def book_new_def sample_card_applies peak_def schedule_contains_def)

theorem card_in_force_is_best_witness:
  "find_rate sample_book ''Anthropic'' '' opus '' InputClass 0 = Some (sample_card 2 20000000 (Some peak))"
  by (subst card_in_force_is_best [THEN conjunct1])
    (unfold sample_applies, rule exI [of _ "[sample_card 1 15000000 None]"], rule exI [of _ "[sample_card 3 16000000 None]"],
      simp add: sample_card_def card_rank_def)

lemma revision_inj: "revision c = revision d \<Longrightarrow> rc_id c = rc_id d"
  by (simp add: revision_def)

lemma rank_revision: "card_rank c = card_rank d \<Longrightarrow> revision c = revision d"
  by (auto simp: card_rank_def split: option.splits)

text \<open>With distinct row ids the order the cards were loaded in cannot change a selection, be it the card in
  force, the default card or the card of a quota window.\<close>

theorem selection_ignores_book_order:
  assumes "mset (rb_cards book) = mset (rb_cards book')" "distinct (map rc_id (rb_cards book))"
  shows "find_rate book vendor model cls at = find_rate book' vendor model cls at \<and>
    find_default_rate book vendor model cls date = find_default_rate book' vendor model cls date \<and>
    find_window_rate book vendor model cls window at = find_window_rate book' vendor model cls window at"
proof -
  have ids: "c = d" if "c \<in> set (rb_cards book)" "d \<in> set (rb_cards book)" "rc_id c = rc_id d" for c d
    using assms(2) that by (auto simp: distinct_map dest: inj_onD)
  have ms: "mset (filter P (rb_cards book)) = mset (filter P (rb_cards book'))" for P
    using assms(1) by (simp add: mset_filter)
  have "first_best outranks (filter P (rb_cards book)) = first_best outranks (filter P (rb_cards book'))" for P
    by (rule greatest.first_best_mset [OF ms]) (metis filter_is_subset ids linorder_neqE rank_revision revision_inj subsetD)
  moreover have "first_best (\<lambda>x y. revision y < revision x) (filter P (rb_cards book)) =
      first_best (\<lambda>x y. revision y < revision x) (filter P (rb_cards book'))" for P
    by (rule greatest.first_best_mset [OF ms]) (metis filter_is_subset ids linorder_neqE revision_inj subsetD)
  ultimately show ?thesis
    by (simp add: find_rate_eq find_default_rate_def find_window_rate_def latest_walk_eq Let_def)
qed

theorem selection_ignores_book_order_witness:
  "find_rate sample_book ''anthropic'' ''opus'' InputClass 0 =
   find_rate (book_new [sample_card 3 16000000 None, sample_card 2 20000000 (Some peak), sample_card 1 15000000 None])
     ''anthropic'' ''opus'' InputClass 0"
  using selection_ignores_book_order [of sample_book
      "book_new [sample_card 3 16000000 None, sample_card 2 20000000 (Some peak), sample_card 1 15000000 None]"]
  by (simp add: sample_book_def book_new_def sample_card_def add_mset_commute)

end
