(* ===== verification/Valuation_Totals.thy ===== *)
theory Valuation_Totals
  imports Valuation_Laws
begin

text \<open>
  What a valuation adds up to: it is the itemised sum of the components a card prices, with the others
  named; a batch is the normalised combination of its items and ignores their order; the movement of a
  quota window is exact or refused.
\<close>

section \<open>Items\<close>

definition item_currency :: "component \<Rightarrow> currency_code option" where
  "item_currency = (\<lambda>(name, c, n). case c of None \<Rightarrow> None | Some d \<Rightarrow> denomination_currency (rd_denomination (rc_draft d)))"

definition item_foreign :: "string \<Rightarrow> component \<Rightarrow> bool" where
  "item_foreign code i \<longleftrightarrow> (\<exists>k. item_currency i = Some k \<and> currency_as_str k \<noteq> code)"

definition item_cost :: "component \<Rightarrow> int" where
  "item_cost = (\<lambda>(name, c, n).
     case c of None \<Rightarrow> 0
     | Some d \<Rightarrow> micros (money_times_tokens (MoneyPerMillionTokens (rd_rate_micros (rc_draft d)) :: unit money_rate) n))"

definition priced_items :: "component list \<Rightarrow> component list" where
  "priced_items cs = filter (\<lambda>i. item_currency i \<noteq> None) (filter (\<lambda>(name, c, n). n \<noteq> 0) cs)"

definition unpriced_items :: "component list \<Rightarrow> component list" where
  "unpriced_items cs = filter (\<lambda>i. item_currency i = None) (filter (\<lambda>(name, c, n). n \<noteq> 0) cs)"

definition missing_of :: "string \<Rightarrow> string \<Rightarrow> utc_timestamp \<Rightarrow> component \<Rightarrow> missing_rate" where
  "missing_of vendor model at = (\<lambda>(name, c, n). MissingRate vendor model name at)"

definition items_total :: "component list \<Rightarrow> int" where
  "items_total cs = sum_list (map item_cost (priced_items cs))"

definition used_cards :: "component list \<Rightarrow> used_rate_card set" where
  "used_cards cs = (\<lambda>(name, c, n). used_of (the c)) ` set (priced_items cs)"

lemmas item_defs = item_currency_def item_foreign_def item_cost_def priced_items_def unpriced_items_def missing_of_def
  items_total_def used_cards_def

lemma price_components_Inr:
  assumes "\<not> list_ex (item_foreign code) (priced_items cs)"
  shows "price_components code vendor model at st cs =
    Inr \<lparr>ps_total = (if priced_items cs = [] then ps_total st else wrap_i64 (ps_total st + items_total cs)),
         ps_missing = ps_missing st @ map (missing_of vendor model at) (unpriced_items cs),
         ps_cards = ps_cards st \<union> used_cards cs\<rparr>"
  using assms
proof (induction cs arbitrary: st)
  case Nil
  then show ?case by (simp add: item_defs)
next
  case (Cons i cs)
  obtain name c n where i: "i = (name, c, n)" by (cases i)
  show ?case
  proof (cases "n = 0")
    case True
    then show ?thesis using Cons by (simp add: i item_defs)
  next
    case False
    show ?thesis
    proof (cases "item_currency i")
      case None
      then have "priced_items (i # cs) = priced_items cs" "unpriced_items (i # cs) = i # unpriced_items cs"
        using False by (simp_all add: i priced_items_def unpriced_items_def)
      then show ?thesis using None False Cons
        by (auto simp: i item_currency_def items_total_def used_cards_def missing_of_def split: option.splits)
    next
      case (Some k)
      then have p: "priced_items (i # cs) = i # priced_items cs" "unpriced_items (i # cs) = unpriced_items cs"
        using False by (simp_all add: i priced_items_def unpriced_items_def)
      obtain d where d: "c = Some d" "denomination_currency (rd_denomination (rc_draft d)) = Some k"
        using Some by (auto simp: i item_currency_def split: option.splits)
      have "currency_as_str k = code" using Cons.prems Some by (simp add: p item_foreign_def)
      moreover have "\<not> list_ex (item_foreign code) (priced_items cs)" using Cons.prems by (simp add: p)
      note IH = Cons.IH [OF this]
      moreover have "items_total (i # cs) = item_cost i + items_total cs" by (simp add: items_total_def p)
      moreover have "used_cards (i # cs) = insert (used_of d) (used_cards cs)" unfolding used_cards_def p by (simp add: i d)
      moreover have "items_total cs = 0" if "priced_items cs = []" using that by (simp add: items_total_def)
      ultimately show ?thesis using False d
        by (simp add: i p [unfolded i d(1)] item_cost_def wrap_i64_add_left add.assoc)
    qed
  qed
qed

lemma price_components_Inl:
  "list_ex (item_foreign code) (priced_items cs) \<Longrightarrow>
   \<exists>cards. price_components code vendor model at st cs =
     Inl (the (item_currency (the (find (item_foreign code) (priced_items cs)))), cards)"
proof (induction cs arbitrary: st)
  case Nil
  then show ?case by (simp add: priced_items_def)
next
  case (Cons i cs)
  obtain name c n where i: "i = (name, c, n)" by (cases i)
  show ?case
  proof (cases "n = 0 \<or> item_currency i = None")
    case True
    then have p: "priced_items (i # cs) = priced_items cs" by (auto simp: i priced_items_def)
    then show ?thesis using True Cons by (auto simp: i item_currency_def split: option.splits)
  next
    case False
    then have p: "priced_items (i # cs) = i # priced_items cs" by (simp add: i priced_items_def)
    obtain k where k: "item_currency i = Some k" using False by auto
    then obtain d where d: "c = Some d" "denomination_currency (rd_denomination (rc_draft d)) = Some k"
      by (auto simp: i item_currency_def split: option.splits)
    show ?thesis
    proof (cases "currency_as_str k = code")
      case True
      then have "\<not> item_foreign code i" using k by (simp add: item_foreign_def)
      then show ?thesis using Cons True False d by (simp add: p [unfolded i d(1)] i)
    next
      case neq: False
      then have "item_foreign code i" using k by (simp add: item_foreign_def)
      then show ?thesis using neq False d k by (simp add: p [unfolded i d(1)] i)
    qed
  qed
qed

section \<open>One usage vector\<close>

definition usage_items :: "rate_book \<Rightarrow> string \<Rightarrow> string \<Rightarrow> utc_timestamp \<Rightarrow> bool \<Rightarrow> usage_vector \<Rightarrow> component list" where
  "usage_items book vendor model at default_only u =
     map (\<lambda>k. (token_class_as_str (token_kind_to_class k),
               if default_only then find_default_rate book vendor model (token_kind_to_class k) (timestamp_date at)
               else find_rate book vendor model (token_kind_to_class k) at,
               known_value (uv_known u) k)) token_kinds @
     map (\<lambda>(name, n). (name,
               if default_only then find_default_custom_rate book vendor model name (timestamp_date at)
               else find_custom_rate book vendor model name at,
               tc_value n)) (uv_unknown u)"

lemma price_components_append:
  "price_components code vendor model at st (xs @ ys) =
     (case price_components code vendor model at st xs of
        Inl e \<Rightarrow> Inl e
      | Inr st' \<Rightarrow> price_components code vendor model at st' ys)"
  by (induction code vendor model at st xs rule: price_components.induct)
    (simp_all add: Let_def split: option.splits)

lemma value_scoped_items:
  "value_scoped code book vendor model at dflt u =
     (case price_components code vendor model at \<lparr>ps_total = 0, ps_missing = [], ps_cards = {}\<rparr>
             (usage_items book vendor model at dflt u) of
        Inl (found, cards) \<Rightarrow> (UnsupportedCurrency found code, cards)
      | Inr st \<Rightarrow> (if ps_missing st = [] then Complete (ListPrice (Money (ps_total st)))
                  else Incomplete (ListPrice (Money (ps_total st))) (ps_missing st), ps_cards st))"
  unfolding value_scoped_def usage_items_def price_components_append Let_def
  by (auto split: sum.splits)

lemma no_foreign: "find (item_foreign code) (priced_items cs) = None \<longleftrightarrow> \<not> list_ex (item_foreign code) (priced_items cs)"
  by (auto simp: find_None_iff list_ex_iff)

text \<open>
  A valuation is the itemised list-price sum: every component with tokens that a card in the requested
  currency prices adds that card's rate times its tokens, every other one is named, the result is complete
  exactly when none is named, and the first card in another currency refuses the whole.\<close>

theorem valuation_is_itemised:
  "fst (value_scoped code book vendor model at dflt u) =
     (let items = usage_items book vendor model at dflt u;
          price = ListPrice (Money (wrap_i64 (items_total items)));
          unpriced = map (missing_of vendor model at) (unpriced_items items)
      in case find (item_foreign code) (priced_items items) of
           Some i \<Rightarrow> UnsupportedCurrency (the (item_currency i)) code
         | None \<Rightarrow> if unpriced = [] then Complete price else Incomplete price unpriced)"
proof -
  let ?items = "usage_items book vendor model at dflt u"
  let ?st = "\<lparr>ps_total = 0, ps_missing = [], ps_cards = {}\<rparr>"
  show ?thesis
  proof (cases "find (item_foreign code) (priced_items ?items)")
    case (Some i)
    then have "list_ex (item_foreign code) (priced_items ?items)" using no_foreign [of code ?items] by simp
    then show ?thesis using Some price_components_Inl [of code ?items vendor model at ?st]
      by (auto simp: value_scoped_items Let_def)
  next
    case None
    moreover have "priced_items ?items = [] \<Longrightarrow> items_total ?items = 0" by (simp add: items_total_def)
    moreover have "wrap_i64 0 = 0" by (simp add: wrap_i64_def)
    ultimately show ?thesis
      using price_components_Inr [OF None [unfolded no_foreign], of vendor model at ?st]
      by (simp add: value_scoped_items Let_def)
  qed
qed

text \<open>Valuing usage whose hour is only a guess, at default cards, is valuing it against the book without its
  scheduled cards, so no peak price can enter.\<close>

definition without_schedules :: "rate_book \<Rightarrow> rate_book" where
  "without_schedules book = book\<lparr>rb_cards := filter (\<lambda>c. rd_schedule (rc_draft c) = None) (rb_cards book)\<rparr>"

lemma find_rate_without_schedules:
  "find_rate (without_schedules book) vendor model cls at =
   find_default_rate book vendor model cls (timestamp_date at)"
proof -
  have "filter (card_applies vendor model cls at) (rb_cards (without_schedules book)) =
      filter (\<lambda>c. rd_schedule (rc_draft c) = None \<and>
        card_exact_date_match c (normalized vendor) (normalized model) cls (timestamp_date at)) (rb_cards book)"
    by (auto simp: without_schedules_def card_applies_def intro!: filter_cong)
  then show ?thesis
    unfolding find_rate_eq find_default_rate_def Let_def latest_walk_eq
    by (auto simp: card_rank_def intro!: first_best_cong)
qed

theorem default_valuation_ignores_schedules:
  "value_usage_vector_default_card code book vendor model at u = value_usage_vector code (without_schedules book) vendor model at u \<and>
   used_rate_cards_default_card book vendor model at u = used_rate_cards (without_schedules book) vendor model at u"
proof -
  have "usage_items book vendor model at True u = usage_items (without_schedules book) vendor model at False u"
    by (simp add: usage_items_def find_rate_without_schedules find_default_custom_rate_def find_custom_rate_def
        split: prod.split option.split)
  then show ?thesis
    by (simp add: value_usage_vector_default_card_def value_usage_vector_def used_rate_cards_default_card_def
        used_rate_cards_def value_scoped_items)
qed

section \<open>Combining and batches\<close>

lemma price_add_assoc: "price_add (price_add a b) c = price_add a (price_add b c)"
  by (simp add: price_add_def money_sum.combine_assoc)

lemma combine_assoc: "combine (combine a b) c = combine a (combine b c)"
  by (cases a; cases b; cases c) (simp_all add: price_add_assoc)

lemma sort_empty_iff: "sort xs = [] \<longleftrightarrow> xs = []"
  by (metis length_0_conv length_sort)

fun normalise :: "'c valuation \<Rightarrow> 'c valuation" where
  "normalise (Complete p) = Complete p"
| "normalise (Incomplete p ms) = (if ms = [] then Complete p else Incomplete p (remdups_adj (sort ms)))"
| "normalise (UnsupportedCurrency f e) = UnsupportedCurrency f e"

abbreviation item_value :: "string \<Rightarrow> rate_book \<Rightarrow> usage_item \<Rightarrow> 'c valuation" where
  "item_value code book i \<equiv> value_usage_vector code book (ui_vendor i) (ui_model i) (ui_at i) (ui_usage i)"

lemma foldl_combine_unsupported: "foldl combine (UnsupportedCurrency f e) xs = UnsupportedCurrency f e"
  by (induction xs) simp_all

lemma value_batch_walk_combine:
  "value_batch_walk code book t ms is =
     normalise (foldl combine (Incomplete (ListPrice (Money t)) ms) (map (item_value code book) is))"
proof (induction "is" arbitrary: t ms)
  case (Cons i "is")
  show ?case
    by (cases "item_value code book i :: 'a valuation")
      (simp_all add: Cons.IH price_micros_def price_add_def money_add_def foldl_combine_unsupported)
qed (simp add: Let_def sort_empty_iff)

fun demote :: "'c valuation \<Rightarrow> 'c valuation" where
  "demote (Complete p) = Incomplete p []"
| "demote v = v"

lemma combine_demote: "combine (demote a) b = demote (combine a b)"
  by (cases a; cases b) simp_all

lemma foldl_combine_demote: "foldl combine (demote a) xs = demote (foldl combine a xs)"
  by (induction xs arbitrary: a) (simp_all add: combine_demote)

lemma normalise_demote: "normalise (demote v) = normalise v"
  by (cases v) simp_all

lemma value_batch_combine:
  "value_batch code book is = normalise (foldl combine (Complete price_zero) (map (item_value code book) is))"
  unfolding value_batch_def value_batch_walk_combine price_zero_def demote.simps(1) [symmetric] foldl_combine_demote
    normalise_demote ..

text \<open>What an outcome amounts to: the refusal, or the price with the collection of what is missing.\<close>

fun abstract_outcome :: "'c valuation \<Rightarrow> ('c list_price \<times> missing_rate multiset) option" where
  "abstract_outcome (Complete p) = Some (p, {#})"
| "abstract_outcome (Incomplete p ms) = Some (p, mset ms)"
| "abstract_outcome (UnsupportedCurrency _ _) = None"

definition merge ::
    "('c list_price \<times> missing_rate multiset) option \<Rightarrow> ('c list_price \<times> missing_rate multiset) option \<Rightarrow>
     ('c list_price \<times> missing_rate multiset) option" where
  "merge a b = (case (a, b) of (Some (p, m), Some (q, n)) \<Rightarrow> Some (price_add p q, m + n) | _ \<Rightarrow> None)"

interpretation outcome_sum: aggregation merge
proof unfold_locales
  fix a b c :: "('c list_price \<times> missing_rate multiset) option"
  show "merge (merge a b) c = merge a (merge b c)"
    by (cases a; cases b; cases c) (auto simp: merge_def price_add_assoc add.assoc)
  show "merge a b = merge b a"
    by (cases a; cases b) (auto simp: merge_def price_add_def money_sum.combine_comm add.commute)
qed

lemma abstract_combine: "abstract_outcome (combine a b) = merge (abstract_outcome a) (abstract_outcome b)"
  by (cases a; cases b) (simp_all add: merge_def)

lemma abstract_foldl:
  "abstract_outcome (foldl combine a xs) = foldl merge (abstract_outcome a) (map abstract_outcome xs)"
  by (induction xs arbitrary: a) (simp_all add: abstract_combine)

fun other_currency :: "currency_code \<Rightarrow> currency_code" where
  "other_currency USD = EUR"
| "other_currency EUR = USD"

definition refuses_only_other :: "currency_code \<Rightarrow> 'c valuation \<Rightarrow> bool" where
  "refuses_only_other k v \<longleftrightarrow> (\<forall>f e. v = UnsupportedCurrency f e \<longrightarrow> f = other_currency k \<and> e = currency_as_str k)"

lemma foreign_is_other: "currency_as_str f \<noteq> currency_as_str k \<Longrightarrow> f = other_currency k"
  by (cases f; cases k) simp_all

lemma value_refuses_only_other: "refuses_only_other k (value_usage_vector (currency_as_str k) book vendor model at u)"
proof -
  have "the (item_currency i) = other_currency k"
    if "find (item_foreign (currency_as_str k)) xs = Some i" for xs i
    using that by (auto simp: find_Some_iff item_foreign_def foreign_is_other)
  then show ?thesis
    unfolding refuses_only_other_def value_usage_vector_def valuation_is_itemised Let_def
    by (auto split: option.splits if_splits)
qed

lemma combine_refuses: "refuses_only_other k a \<Longrightarrow> refuses_only_other k b \<Longrightarrow> refuses_only_other k (combine a b)"
  by (cases a; cases b) (simp_all add: refuses_only_other_def)

lemma foldl_refuses:
  "refuses_only_other k a \<Longrightarrow> \<forall>v\<in>set xs. refuses_only_other k v \<Longrightarrow> refuses_only_other k (foldl combine a xs)"
  by (induction xs arbitrary: a) (simp_all add: combine_refuses)

definition render_outcome :: "currency_code \<Rightarrow> ('c list_price \<times> missing_rate multiset) option \<Rightarrow> 'c valuation" where
  "render_outcome k v =
     (case v of
        None \<Rightarrow> UnsupportedCurrency (other_currency k) (currency_as_str k)
      | Some (p, m) \<Rightarrow> if m = {#} then Complete p else Incomplete p (remdups_adj (sorted_list_of_multiset m)))"

lemma normalise_render: "refuses_only_other k v \<Longrightarrow> normalise v = render_outcome k (abstract_outcome v)"
  by (cases v) (simp_all add: refuses_only_other_def render_outcome_def)

text \<open>
  C35. A batch refines the abstract total of its items: the prices added and the missing rates collected, or
  a refusal as soon as one item is in the other currency; so the total does not depend on the order of the
  items, and no missing rate is listed twice.\<close>

theorem batch_refines_order_free_total:
  "(value_batch (currency_as_str k) book items :: 'c valuation) =
     render_outcome k (foldl merge (Some (price_zero, {#}))
       (map (\<lambda>i. abstract_outcome (item_value (currency_as_str k) book i)) items)) \<and>
   (mset items = mset items' \<longrightarrow>
     (value_batch (currency_as_str k) book items :: 'c valuation) = value_batch (currency_as_str k) book items')"
proof -
  have batch: "(value_batch (currency_as_str k) book js :: 'c valuation) =
      render_outcome k (foldl merge (Some (price_zero, {#}))
        (map (\<lambda>i. abstract_outcome (item_value (currency_as_str k) book i)) js))" for js
  proof -
    let ?v = "foldl combine (Complete price_zero) (map (item_value (currency_as_str k) book) js)"
    have "refuses_only_other k ?v"
      by (rule foldl_refuses) (auto simp: value_refuses_only_other, simp add: refuses_only_other_def)
    then have "normalise ?v = render_outcome k (abstract_outcome ?v)" by (rule normalise_render)
    then show ?thesis by (simp add: value_batch_combine abstract_foldl comp_def)
  qed
  let ?f = "\<lambda>i. abstract_outcome (item_value (currency_as_str k) book i :: 'c valuation)"
  have "foldl merge s (map ?f items) = foldl merge s (map ?f items')" if "mset items = mset items'" for s
    by (rule outcome_sum.fold_order_irrelevant) (simp add: that)
  then show ?thesis unfolding batch by (intro conjI refl impI arg_cong [where f = "render_outcome k"])
qed

definition sample_item :: "string \<Rightarrow> u64 \<Rightarrow> usage_item" where
  "sample_item model n =
     \<lparr>ui_vendor = ''anthropic'', ui_model = model, ui_at = 0,
      ui_usage = usage_new (known_new (InputTokens n) (OutputTokens 0) (CacheReadTokens 0) (CacheWriteTokens 0)) []
        coverage_completeness.Complete Measured\<rparr>"

theorem batch_refines_order_free_total_witness:
  "(value_batch (currency_as_str USD) sample_book [sample_item ''opus'' 2000000, sample_item ''sonnet'' 5] :: usd valuation) =
   value_batch (currency_as_str USD) sample_book [sample_item ''sonnet'' 5, sample_item ''opus'' 2000000]"
  using batch_refines_order_free_total [where k = USD and book = sample_book and
      items = "[sample_item ''opus'' 2000000, sample_item ''sonnet'' 5]" and
      items' = "[sample_item ''sonnet'' 5, sample_item ''opus'' 2000000]", THEN conjunct2]
  by (simp add: add_mset_commute)

section \<open>Window movement\<close>

definition window_card ::
    "rate_book \<Rightarrow> string \<Rightarrow> string \<Rightarrow> quota_window_kind \<Rightarrow> utc_timestamp \<Rightarrow> string \<Rightarrow> rate_card option" where
  "window_card book vendor model window at name =
     (case token_class_parse name of None \<Rightarrow> None | Some cls \<Rightarrow> find_window_rate book vendor model cls window at)"

definition window_items :: "usage_vector \<Rightarrow> (string \<times> u64) list" where
  "window_items u =
     map (\<lambda>k. (token_class_as_str (token_kind_to_class k), known_value (uv_known u) k)) token_kinds @
     map (\<lambda>(name, n). (name, tc_value n)) (uv_unknown u)"

text \<open>The movement a priced item states: its exact product rounded once, half away from zero.\<close>

definition item_move :: "(string \<Rightarrow> rate_card option) \<Rightarrow> string \<times> u64 \<Rightarrow> int" where
  "item_move lookup i =
     (case lookup (fst i) of
        None \<Rightarrow> 0
      | Some c \<Rightarrow> round_div (rd_rate_micros (rc_draft c) * int (snd i)) 100000000)"

definition window_priced :: "(string \<Rightarrow> rate_card option) \<Rightarrow> (string \<times> u64) list \<Rightarrow> (string \<times> u64) list" where
  "window_priced lookup is = filter (\<lambda>i. snd i \<noteq> 0 \<and> lookup (fst i) \<noteq> None) is"

definition window_unpriced :: "(string \<Rightarrow> rate_card option) \<Rightarrow> (string \<times> u64) list \<Rightarrow> (string \<times> u64) list" where
  "window_unpriced lookup is = filter (\<lambda>i. snd i \<noteq> 0 \<and> lookup (fst i) = None) is"

lemma price_window_append:
  "price_window book vendor model window at st (xs @ ys) =
     (case price_window book vendor model window at st xs of
        Inl e \<Rightarrow> Inl e
      | Inr st' \<Rightarrow> price_window book vendor model window at st' ys)"
  by (induction book vendor model window at st xs rule: price_window.induct)
    (simp_all add: Let_def split: option.splits)

lemma round_div_pos: "0 \<le> n \<Longrightarrow> 0 < d \<Longrightarrow> 0 \<le> round_div n d"
  by (simp add: round_div_nonneg pos_imp_zdiv_nonneg_iff)

lemma price_window_total:
  fixes book vendor model window at
  defines "f \<equiv> window_card book vendor model window at"
  assumes rates: "\<forall>name c. f name = Some c \<longrightarrow> 0 \<le> rd_rate_micros (rc_draft c)"
    and "0 \<le> ws_total st" "ws_total st \<le> 1000000"
  shows "(ws_total st + sum_list (map (item_move f) (window_priced f is)) \<le> 1000000 \<longrightarrow>
      price_window book vendor model window at st is =
        Inr \<lparr>ws_total = ws_total st + sum_list (map (item_move f) (window_priced f is)),
             ws_ids = ws_ids st @ map (\<lambda>i. rc_id (the (f (fst i)))) (window_priced f is),
             ws_missing = ws_missing st @ map (\<lambda>i. MissingRate vendor model (fst i) at) (window_unpriced f is)\<rparr>) \<and>
    (1000000 < ws_total st + sum_list (map (item_move f) (window_priced f is)) \<longrightarrow>
      (\<exists>name. price_window book vendor model window at st is = Inl name))"
  using assms(3,4)
proof (induction "is" arbitrary: st)
  case Nil
  then show ?case by (simp add: window_priced_def window_unpriced_def)
next
  case (Cons i "is")
  obtain name n where i: "i = (name, n)" by (cases i)
  have moves: "0 \<le> item_move f j" for j
    using rates by (auto simp: item_move_def intro!: round_div_pos split: option.splits)
  then have rest: "0 \<le> sum_list (map (item_move f) js)" for js by (intro sum_list_nonneg) auto
  show ?case
  proof (cases "n = 0")
    case True
    then have p: "window_priced f (i # is) = window_priced f is" "window_unpriced f (i # is) = window_unpriced f is"
      "price_window book vendor model window at st (i # is) = price_window book vendor model window at st is"
      by (simp_all add: i window_priced_def window_unpriced_def)
    show ?thesis unfolding p by (rule Cons.IH [OF Cons.prems])
  next
    case False
    show ?thesis
    proof (cases "f name")
      case None
      then have "window_priced f (i # is) = window_priced f is" "window_unpriced f (i # is) = i # window_unpriced f is"
        using False by (simp_all add: i window_priced_def window_unpriced_def)
      moreover have "price_window book vendor model window at st (i # is) = price_window book vendor model window at
          (st\<lparr>ws_missing := ws_missing st @ [MissingRate vendor model name at]\<rparr>) is"
        using None [unfolded f_def window_card_def] False by (simp add: i)
      ultimately show ?thesis
        using Cons.IH [of "st\<lparr>ws_missing := ws_missing st @ [MissingRate vendor model name at]\<rparr>"] Cons.prems
        by (simp add: i)
    next
      case (Some c)
      then have p: "window_priced f (i # is) = i # window_priced f is" "window_unpriced f (i # is) = window_unpriced f is"
        using False by (simp_all add: i window_priced_def window_unpriced_def)
      let ?m = "item_move f i"
      have pts: "points_times_tokens (PointsPerMillionTokens (rd_rate_micros (rc_draft c))) n = points_new ?m"
        by (simp add: points_times_tokens_rounds_once item_move_def i Some)
      show ?thesis
      proof (cases "ws_total st + ?m \<le> 1000000")
        case True
        have m: "0 \<le> ?m" "?m \<le> 1000000" using moves True Cons.prems by (simp, smt (verit))
        then have "price_window book vendor model window at st (i # is) = price_window book vendor model window at
            (st\<lparr>ws_total := ws_total st + ?m, ws_ids := ws_ids st @ [rc_id c]\<rparr>) is"
          using False Some [unfolded f_def window_card_def] pts True Cons.prems
          by (simp add: i points_new_def is_i32_def)
        then show ?thesis
          using Cons.IH [of "st\<lparr>ws_total := ws_total st + ?m, ws_ids := ws_ids st @ [rc_id c]\<rparr>"] m True Cons.prems
          unfolding p by (simp add: i Some add.assoc)
      next
        case over: False
        then have "price_window book vendor model window at st (i # is) = Inl name"
          using False Some [unfolded f_def window_card_def] pts Cons.prems by (auto simp: i points_new_def is_i32_def)
        moreover have "1000000 < ws_total st + sum_list (map (item_move f) (window_priced f (i # is)))"
          using over rest [of "window_priced f is"] unfolding p by simp
        ultimately show ?thesis by simp
      qed
    qed
  qed
qed

lemma window_card_in_book:
  "window_card book vendor model window at name = Some c \<Longrightarrow>
   c \<in> set (rb_cards book) \<and> rd_billing_basis (rc_draft c) = PercentOfWindowPerMillionTokens"
  by (auto simp: window_card_def find_window_rate_def latest_walk_eq window_card_match_def Let_def
      dest!: first_best_in split: option.splits)

text \<open>
  With non-negative rates the movement of a quota window is the exact sum of the items its own cards
  price, each rounded once, with every other item named; it is refused, never clamped, exactly when that sum
  leaves the range of percentage points.\<close>

theorem window_movement_exact_or_refused:
  assumes "\<forall>c\<in>set (rb_cards book). 0 \<le> rd_rate_micros (rc_draft c)"
  shows "let f = window_card book vendor model window at;
        priced = window_priced f (window_items u);
        movement = sum_list (map (item_move f) priced);
        ids = remdups_adj (sort (map (\<lambda>i. rc_id (the (f (fst i)))) priced));
        unpriced = map (\<lambda>i. MissingRate vendor model (fst i) at) (window_unpriced f (window_items u))
      in ((\<exists>name. value_usage_vector_in_window book vendor model window at u = WindowOutOfRange name) \<longleftrightarrow>
            1000000 < movement) \<and>
         (movement \<le> 1000000 \<longrightarrow> value_usage_vector_in_window book vendor model window at u =
            (if unpriced = [] then WindowComplete (PercentagePoints movement) ids
             else WindowIncomplete (PercentagePoints movement) ids unpriced))"
proof -
  let ?st = "\<lparr>ws_total = 0, ws_ids = [], ws_missing = []\<rparr>"
  have val: "value_usage_vector_in_window book vendor model window at u =
    (case price_window book vendor model window at ?st (window_items u) of
       Inl name \<Rightarrow> WindowOutOfRange name
     | Inr st \<Rightarrow>
         if ws_missing st = [] then WindowComplete (PercentagePoints (ws_total st)) (remdups_adj (sort (ws_ids st)))
         else WindowIncomplete (PercentagePoints (ws_total st)) (remdups_adj (sort (ws_ids st))) (ws_missing st))"
    unfolding value_usage_vector_in_window_def window_items_def price_window_append Let_def
    by (auto split: sum.splits)
  have "\<forall>name c. window_card book vendor model window at name = Some c \<longrightarrow> 0 \<le> rd_rate_micros (rc_draft c)"
    using window_card_in_book assms(1) by blast
  note price = price_window_total [of book vendor model window at ?st "window_items u", OF this]
  let ?f = "window_card book vendor model window at"
  show ?thesis
  proof (cases "sum_list (map (item_move ?f) (window_priced ?f (window_items u))) \<le> 1000000")
    case True
    then show ?thesis using price unfolding val by (simp add: Let_def)
  next
    case False
    then show ?thesis using price unfolding val by (auto simp: Let_def)
  qed
qed

definition sample_estimate :: "i64 \<Rightarrow> rate_card" where
  "sample_estimate rate =
     \<lparr>rc_id = 9, rc_imported_at = 0,
      rc_draft = (rc_draft (sample_card 9 rate None))
        \<lparr>rd_denomination := PointsRate PercentagePointsUnit, rd_billing_basis := PercentOfWindowPerMillionTokens,
         rd_window_estimate := Some \<lparr>we_window = FiveHour, we_unit = PercentagePointsUnit, we_quality = Estimate\<rparr>\<rparr>\<rparr>"

theorem window_movement_exact_or_refused_witness:
  "\<exists>name. value_usage_vector_in_window (book_new [sample_estimate 90000000]) ''anthropic'' ''opus'' FiveHour 0
     (ui_usage (sample_item ''opus'' 2000000)) = WindowOutOfRange name"
proof -
  have "find_window_rate (book_new [sample_estimate 90000000]) ''anthropic'' ''opus'' InputClass FiveHour 0 =
      Some (sample_estimate 90000000)"
    by (simp add: find_window_rate_def book_new_def sample_estimate_def sample_card_def window_card_match_def
        card_in_force_on_def epoch_instant sample_names is_later_revision_def)
  then have "window_card (book_new [sample_estimate 90000000]) ''anthropic'' ''opus'' FiveHour 0 ''input'' =
      Some (sample_estimate 90000000)"
    by (simp add: window_card_def token_class_parse_def)
  then show ?thesis
    using window_movement_exact_or_refused [of "book_new [sample_estimate 90000000]" "''anthropic''" "''opus''" FiveHour 0
        "ui_usage (sample_item ''opus'' 2000000)"]
    by (simp add: sample_item_def usage_new_def known_new_def known_value_def window_items_def token_kinds_def
        window_priced_def item_move_def sample_estimate_def sample_card_def book_new_def round_div_nonneg)
qed

end
