(* ===== verification/Rate_Book.thy ===== *)
theory Rate_Book
  imports Valuation_Totals
begin

text \<open>
  \<open>src/rate_book.rs\<close>: the rate book file as an import source. The TOML reader is not code of the repository:
  it is a parameter, and what it yields is the tree of strings, arrays and tables the importer looks at.
  A refusal keeps the index of the card and, for each message the code formats, a constructor with the
  values the message shows.
\<close>

section \<open>The file\<close>

datatype toml = TString string | TArray "toml list" | TTable "(string \<times> toml) list" | TOther

type_synonym toml_table = "(string, toml) omap"

fun toml_str :: "toml \<Rightarrow> string option" where
  "toml_str (TString s) = Some s"
| "toml_str _ = None"

fun toml_array :: "toml \<Rightarrow> toml list option" where
  "toml_array (TArray xs) = Some xs"
| "toml_array _ = None"

fun toml_table_of :: "toml \<Rightarrow> toml_table option" where
  "toml_table_of (TTable t) = Some t"
| "toml_table_of _ = None"

definition card_keys :: "string list" where
  "card_keys =
     [''vendor'', ''model'', ''token_class'', ''rate'', ''currency'', ''billing_basis'', ''effective_start'',
      ''effective_end'', ''published_at'', ''source'', ''review_due'', ''schedule'', ''window'', ''unit'', ''quality'']"

definition schedule_keys :: "string list" where
  "schedule_keys = [''days'', ''hours_utc'']"

datatype book_reason =
    InvalidToml string | NoCards | CardsNotArray | EntryNotTable
  | UnknownKey string | UnknownScheduleKey string | MissingKey string | BadTokenClass string
  | BadRate rate_error | BadBasis string | BadDate string string | BadPublishedAt string
  | ForbiddenField string | RequiredField string | BadCurrency string | BadWindow string | BadUnit string
  | BadQuality string | ScheduleNotTable | ScheduleMissingDays | ScheduleDaysNotNames | ScheduleNoDay
  | ScheduleBadDay string | ScheduleMissingHours | ScheduleBadHours hours_error | ScheduleInvalid
  | Overlaps nat string string token_class

record book_error =
  be_card_index :: nat
  be_reason :: book_reason

definition refuse :: "nat \<Rightarrow> book_reason \<Rightarrow> book_error" where
  "refuse index reason = \<lparr>be_card_index = index, be_reason = reason\<rparr>"

definition get_str :: "toml_table \<Rightarrow> string \<Rightarrow> string option" where
  "get_str card_table key = (case om_get card_table key of None \<Rightarrow> None | Some v \<Rightarrow> toml_str v)"

definition required :: "nat \<Rightarrow> toml_table \<Rightarrow> string \<Rightarrow> book_error + string" where
  "required index t key = ok_or (refuse index (MissingKey key)) (get_str t key)"

definition optional_string :: "toml_table \<Rightarrow> string \<Rightarrow> string option" where
  "optional_string t key = get_str t key"

definition optional_date :: "toml_table \<Rightarrow> nat \<Rightarrow> string \<Rightarrow> book_error + utc_date option" where
  "optional_date t index key =
     (case optional_string t key of
        None \<Rightarrow> Inr None
      | Some text \<Rightarrow>
          (case parse_date text of None \<Rightarrow> Inl (refuse index (BadDate key text)) | Some d \<Rightarrow> Inr (Some d)))"

definition contains_key :: "toml_table \<Rightarrow> string \<Rightarrow> bool" where
  "contains_key t key \<longleftrightarrow> om_get t key \<noteq> None"

definition parse_denomination ::
    "nat \<Rightarrow> toml_table \<Rightarrow> billing_basis \<Rightarrow> book_error + rate_denomination \<times> window_estimate option" where
  "parse_denomination index t basis =
     (case basis of
        PerMillionTokens \<Rightarrow>
          (case find (contains_key t) [''window'', ''unit'', ''quality''] of
             Some forbidden \<Rightarrow> Inl (refuse index (ForbiddenField forbidden))
           | None \<Rightarrow>
               and_then (required index t ''currency'') (\<lambda>text.
               and_then (ok_or (refuse index (BadCurrency text)) (currency_parse text)) (\<lambda>currency.
                 Inr (MoneyRate currency, None))))
      | PercentOfWindowPerMillionTokens \<Rightarrow>
          if contains_key t ''schedule'' then Inl (refuse index (ForbiddenField ''schedule''))
          else if contains_key t ''currency'' then Inl (refuse index (ForbiddenField ''currency''))
          else
            and_then (ok_or (refuse index (RequiredField ''window'')) (get_str t ''window'')) (\<lambda>window_text.
            and_then (ok_or (refuse index (BadWindow window_text)) (window_kind_parse window_text)) (\<lambda>window.
            and_then (ok_or (refuse index (RequiredField ''unit'')) (get_str t ''unit'')) (\<lambda>unit_text.
            and_then (ok_or (refuse index (BadUnit unit_text)) (unit_parse unit_text)) (\<lambda>unit.
            and_then (ok_or (refuse index (RequiredField ''quality'')) (get_str t ''quality'')) (\<lambda>quality_text.
            and_then (ok_or (refuse index (BadQuality quality_text)) (quality_parse quality_text)) (\<lambda>quality.
              if optional_string t ''source'' = None then Inl (refuse index (RequiredField ''source''))
              else Inr (PointsRate unit, Some \<lparr>we_window = window, we_unit = unit, we_quality = quality\<rparr>))))))))"

fun parse_days :: "nat \<Rightarrow> toml list \<Rightarrow> book_error + nat list" where
  "parse_days index [] = Inr []"
| "parse_days index (v # vs) =
     and_then (ok_or (refuse index ScheduleDaysNotNames) (toml_str v)) (\<lambda>name.
     and_then (ok_or (refuse index (ScheduleBadDay name)) (parse_day_name name)) (\<lambda>d.
     and_then (parse_days index vs) (\<lambda>ds. Inr (d # ds))))"

definition parse_schedule :: "nat \<Rightarrow> toml \<Rightarrow> book_error + schedule" where
  "parse_schedule index v =
     and_then (ok_or (refuse index ScheduleNotTable) (toml_table_of v)) (\<lambda>t.
     case find (\<lambda>key. key \<notin> set schedule_keys) (map fst t) of
       Some key \<Rightarrow> Inl (refuse index (UnknownScheduleKey key))
     | None \<Rightarrow>
         and_then (ok_or (refuse index ScheduleMissingDays) (om_get t ''days'')) (\<lambda>days_value.
         and_then (ok_or (refuse index ScheduleDaysNotNames) (toml_array days_value)) (\<lambda>days_array.
         if days_array = [] then Inl (refuse index ScheduleNoDay)
         else
           and_then (parse_days index days_array) (\<lambda>days.
           and_then (ok_or (refuse index ScheduleMissingHours) (get_str t ''hours_utc'')) (\<lambda>hours.
           case parse_hours_utc hours of
             Inl e \<Rightarrow> Inl (refuse index (ScheduleBadHours e))
           | Inr (start_m, end_m) \<Rightarrow> ok_or (refuse index ScheduleInvalid) (schedule_new days start_m end_m))))))"

definition parse_published_at :: "nat \<Rightarrow> string \<Rightarrow> book_error + utc_timestamp" where
  "parse_published_at index text =
     (case parse_rfc3339 text of
        Some t \<Rightarrow> Inr t
      | None \<Rightarrow>
          (case parse_date text of
             None \<Rightarrow> Inl (refuse index (BadPublishedAt text))
           | Some d \<Rightarrow> Inr (date_start d)))"

definition parse_card :: "nat \<Rightarrow> toml_table \<Rightarrow> book_error + rate_card_draft" where
  "parse_card index t =
     and_then (required index t ''vendor'') (\<lambda>vendor.
     and_then (required index t ''model'') (\<lambda>model.
     and_then (required index t ''token_class'') (\<lambda>class_text.
     and_then (ok_or (refuse index (BadTokenClass class_text)) (token_class_parse class_text)) (\<lambda>cls.
     and_then (required index t ''rate'') (\<lambda>rate_text.
     and_then (case parse_rate_micros rate_text of Inl e \<Rightarrow> Inl (refuse index (BadRate e)) | Inr m \<Rightarrow> Inr m) (\<lambda>rate_micros.
     and_then (required index t ''billing_basis'') (\<lambda>basis_text.
     and_then (ok_or (refuse index (BadBasis basis_text)) (basis_parse basis_text)) (\<lambda>basis.
     and_then (parse_denomination index t basis) (\<lambda>(denomination, estimate).
     and_then (required index t ''effective_start'') (\<lambda>start_text.
     and_then (ok_or (refuse index (BadDate ''effective_start'' start_text)) (parse_date start_text)) (\<lambda>effective_start.
     and_then (optional_date t index ''effective_end'') (\<lambda>effective_end.
     and_then (optional_date t index ''review_due'') (\<lambda>due.
     and_then (case om_get t ''schedule'' of None \<Rightarrow> Inr None
               | Some v \<Rightarrow> and_then (parse_schedule index v) (\<lambda>s. Inr (Some s))) (\<lambda>schedule.
     and_then (case optional_string t ''published_at'' of None \<Rightarrow> Inr None
               | Some text \<Rightarrow> and_then (parse_published_at index text) (\<lambda>p. Inr (Some p))) (\<lambda>published_at.
       Inr \<lparr>rd_vendor = vendor, rd_model = model, rd_token_class = cls, rd_rate_micros = rate_micros,
            rd_denomination = denomination, rd_billing_basis = basis, rd_window_estimate = estimate,
            rd_effective_start = effective_start, rd_effective_end = effective_end, rd_schedule = schedule,
            rd_publication = \<lparr>pub_source = optional_string t ''source'', pub_published_at = published_at\<rparr>,
            rd_review_due = (case due of None \<Rightarrow> NoReview | Some d \<Rightarrow> ReviewOn d)\<rparr>)))))))))))))))"

section \<open>Consistency\<close>

definition effective_overlap :: "utc_date \<Rightarrow> utc_date option \<Rightarrow> utc_date \<Rightarrow> utc_date option \<Rightarrow> bool" where
  "effective_overlap first_start first_end second_start second_end \<longleftrightarrow>
     (case second_end of None \<Rightarrow> True | Some e \<Rightarrow> date_key first_start < date_key e) \<and>
     (case first_end of None \<Rightarrow> True | Some e \<Rightarrow> date_key second_start < date_key e)"

definition conflicts :: "rate_card_draft \<Rightarrow> rate_card_draft \<Rightarrow> bool" where
  "conflicts c other \<longleftrightarrow>
     rd_vendor c = rd_vendor other \<and> rd_model c = rd_model other \<and> rd_token_class c = rd_token_class other \<and>
     rd_billing_basis c = rd_billing_basis other \<and>
     map_option we_window (rd_window_estimate c) = map_option we_window (rd_window_estimate other) \<and>
     effective_overlap (rd_effective_start c) (rd_effective_end c) (rd_effective_start other) (rd_effective_end other) \<and>
     (case (rd_schedule c, rd_schedule other) of
        (None, None) \<Rightarrow> True
      | (Some s, Some s') \<Rightarrow> schedule_overlaps s s'
      | _ \<Rightarrow> False)"

fun first_conflict :: "rate_card_draft \<Rightarrow> nat \<Rightarrow> rate_card_draft list \<Rightarrow> nat option" where
  "first_conflict c i [] = None"
| "first_conflict c i (other # others) = (if conflicts c other then Some i else first_conflict c (Suc i) others)"

fun consistency_walk :: "rate_card_draft list \<Rightarrow> rate_card_draft list \<Rightarrow> book_error + unit" where
  "consistency_walk before [] = Inr ()"
| "consistency_walk before (c # cs) =
     (case first_conflict c 0 before of
        Some earlier \<Rightarrow>
          Inl (refuse (length before) (Overlaps earlier (rd_vendor c) (rd_model c) (rd_token_class c)))
      | None \<Rightarrow> consistency_walk (before @ [c]) cs)"

definition check_consistency :: "rate_card_draft list \<Rightarrow> book_error + unit" where
  "check_consistency cards = consistency_walk [] cards"

fun parse_entries :: "nat \<Rightarrow> toml list \<Rightarrow> book_error + rate_card_draft list" where
  "parse_entries index [] = Inr []"
| "parse_entries index (entry # entries) =
     and_then (ok_or (refuse index EntryNotTable) (toml_table_of entry)) (\<lambda>t.
     case find (\<lambda>key. key \<notin> set card_keys) (map fst t) of
       Some key \<Rightarrow> Inl (refuse index (UnknownKey key))
     | None \<Rightarrow>
         and_then (parse_card index t) (\<lambda>draft.
         and_then (parse_entries (Suc index) entries) (\<lambda>drafts. Inr (draft # drafts))))"

definition parse_book :: "(string \<Rightarrow> string + toml_table) \<Rightarrow> string \<Rightarrow> book_error + rate_card_draft list" where
  "parse_book toml_parse text =
     and_then (case toml_parse text of Inl e \<Rightarrow> Inl (refuse 0 (InvalidToml e)) | Inr t \<Rightarrow> Inr t) (\<lambda>table.
     and_then (ok_or (refuse 0 NoCards) (om_get table ''card'')) (\<lambda>entry.
     and_then (ok_or (refuse 0 CardsNotArray) (toml_array entry)) (\<lambda>cards.
     if cards = [] then Inl (refuse 0 NoCards)
     else
       and_then (parse_entries 0 cards) (\<lambda>parsed.
       and_then (check_consistency parsed) (\<lambda>_. Inr parsed)))))"

end
