(* ===== verification/Rate_Book_Laws.thy ===== *)
theory Rate_Book_Laws
  imports Rate_Book
begin

text \<open>
  What an imported book promises the valuation: each card states exactly one dimension, with a rate that is
  not negative, and two cards that apply at one instant are either the same kind of card or a default beside
  its peak. Intervals are read with an exclusive end here and an inclusive one in the valuation; the last
  theorem shows the day on which the two readings differ.
\<close>

lemmas import_simps = and_then_Inr ok_or_Inr

definition card_well_formed :: "rate_card_draft \<Rightarrow> bool" where
  "card_well_formed d \<longleftrightarrow>
     0 \<le> rd_rate_micros d \<and> rd_rate_micros d \<le> i64_max \<and>
     (case rd_billing_basis d of
        PerMillionTokens \<Rightarrow> (\<exists>k. rd_denomination d = MoneyRate k) \<and> rd_window_estimate d = None
      | PercentOfWindowPerMillionTokens \<Rightarrow>
          (\<exists>w. rd_window_estimate d = Some w \<and> rd_denomination d = PointsRate (we_unit w)) \<and>
          rd_schedule d = None \<and> pub_source (rd_publication d) \<noteq> None) \<and>
     (\<forall>s. rd_schedule d = Some s \<longrightarrow> schedule_ok s)"

lemma parse_denomination_ok:
  assumes "parse_denomination index t basis = Inr (denomination, estimate)"
  shows "case basis of
      PerMillionTokens \<Rightarrow> (\<exists>k. denomination = MoneyRate k) \<and> estimate = None
    | PercentOfWindowPerMillionTokens \<Rightarrow>
        (\<exists>w. estimate = Some w \<and> denomination = PointsRate (we_unit w)) \<and>
        om_get t ''schedule'' = None \<and> optional_string t ''source'' \<noteq> None"
  using assms
  by (cases basis)
    (auto simp: parse_denomination_def import_simps contains_key_def split: option.splits if_splits)

lemma hours_case:
  "(case h of Inl e \<Rightarrow> Inl (g e) | Inr (a, b) \<Rightarrow> ok_or e' (schedule_new ds a b)) = Inr s \<Longrightarrow> schedule_ok s"
  by (cases h) (auto simp: ok_or_Inr dest: schedule_new_Some(6))

lemma parse_schedule_ok: "parse_schedule index v = Inr s \<Longrightarrow> schedule_ok s"
  by (auto simp: parse_schedule_def import_simps split: option.splits if_splits dest: hours_case)

lemma rate_case: "(case r of Inl e \<Rightarrow> Inl (g e) | Inr m \<Rightarrow> Inr m) = Inr x \<longleftrightarrow> r = Inr x"
  by (cases r) simp_all

lemma parse_card_ok:
  assumes "parse_card index t = Inr d"
  shows "card_well_formed d"
proof -
  obtain rate_text rate basis denomination estimate schedule where
    d: "rd_rate_micros d = rate" "rd_billing_basis d = basis" "rd_denomination d = denomination"
      "rd_window_estimate d = estimate" "rd_schedule d = schedule"
      "pub_source (rd_publication d) = optional_string t ''source''"
    and rate: "parse_rate_micros rate_text = Inr rate"
    and den: "parse_denomination index t basis = Inr (denomination, estimate)"
    and sched: "(case om_get t ''schedule'' of None \<Rightarrow> Inr None
               | Some v \<Rightarrow> and_then (parse_schedule index v) (\<lambda>s. Inr (Some s))) = Inr schedule"
    using assms unfolding parse_card_def import_simps rate_case by (elim exE conjE) (auto simp: import_simps split: prod.splits)
  have "schedule_ok s" if "schedule = Some s" for s
    using sched that by (auto simp: import_simps split: option.splits dest: parse_schedule_ok)
  moreover have "schedule = None" if "om_get t ''schedule'' = None" using sched that by simp
  ultimately show ?thesis
    using rate_range [OF rate] parse_denomination_ok [OF den] d
    by (cases basis) (simp_all add: card_well_formed_def)
qed

lemma parse_entries_ok: "parse_entries index vs = Inr ds \<Longrightarrow> \<forall>d\<in>set ds. card_well_formed d"
  by (induction index vs arbitrary: ds rule: parse_entries.induct)
    (auto simp: import_simps split: option.splits dest: parse_card_ok)

lemma parse_book_ok:
  assumes "parse_book toml_parse text = Inr ds"
  shows "(\<forall>d\<in>set ds. card_well_formed d) \<and> check_consistency ds = Inr ()"
  using assms by (auto simp: parse_book_def import_simps split: if_splits dest: parse_entries_ok)

section \<open>Consistency\<close>

lemma first_conflict_None: "first_conflict c i others = None \<longleftrightarrow> (\<forall>d\<in>set others. \<not> conflicts c d)"
  by (induction others arbitrary: i) auto

lemma consistency_walk_iff:
  "consistency_walk before cs = Inr () \<longleftrightarrow>
     (\<forall>d\<in>set before. \<forall>c\<in>set cs. \<not> conflicts c d) \<and> sorted_wrt (\<lambda>d c. \<not> conflicts c d) cs"
proof (induction cs arbitrary: before)
  case (Cons c cs)
  show ?case
  proof (cases "first_conflict c 0 before")
    case None
    then have "\<forall>d\<in>set before. \<not> conflicts c d" by (simp add: first_conflict_None)
    then show ?thesis using None Cons.IH [of "before @ [c]"] by auto
  next
    case (Some i)
    then have "\<exists>d\<in>set before. conflicts c d" using first_conflict_None [of c 0 before] by auto
    then show ?thesis using Some by auto
  qed
qed simp

definition same_key :: "rate_card_draft \<Rightarrow> rate_card_draft \<Rightarrow> bool" where
  "same_key c d \<longleftrightarrow>
     rd_vendor c = rd_vendor d \<and> rd_model c = rd_model d \<and> rd_token_class c = rd_token_class d \<and>
     rd_billing_basis c = rd_billing_basis d \<and>
     map_option we_window (rd_window_estimate c) = map_option we_window (rd_window_estimate d)"

text \<open>A card applies on a day from its start to before its end, at the weekday and minute its schedule holds.\<close>

definition draft_applies :: "rate_card_draft \<Rightarrow> utc_date \<Rightarrow> nat \<Rightarrow> nat \<Rightarrow> bool" where
  "draft_applies c date wd m \<longleftrightarrow>
     date_key (rd_effective_start c) \<le> date_key date \<and>
     (case rd_effective_end c of None \<Rightarrow> True | Some e \<Rightarrow> date_key date < date_key e) \<and>
     (case rd_schedule c of None \<Rightarrow> True | Some s \<Rightarrow> schedule_contains s wd m)"

lemma shared_instant_overlaps:
  assumes "schedule_contains s wd m" "schedule_contains t wd m"
  shows "schedule_overlaps s t"
proof -
  have "bit (sc_days s AND sc_days t) (wd - 1)"
    using assms by (simp add: schedule_contains_bit bit_and_iff)
  then have "sc_days s AND sc_days t \<noteq> 0" by auto
  then show ?thesis using assms by (simp add: schedule_overlaps_def schedule_contains_bit)
qed

lemma applying_together_conflict:
  assumes "same_key c d" "draft_applies c date wd m" "draft_applies d date wd m"
    and "rd_schedule c = None \<longleftrightarrow> rd_schedule d = None"
  shows "conflicts c d"
proof -
  have "effective_overlap (rd_effective_start c) (rd_effective_end c) (rd_effective_start d) (rd_effective_end d)"
    using assms(2,3) by (auto simp: effective_overlap_def draft_applies_def split: option.splits)
  then show ?thesis
    using assms by (auto simp: conflicts_def same_key_def draft_applies_def split: option.splits
        intro: shared_instant_overlaps)
qed

text \<open>
  In an accepted book two cards of one vendor, model, class, basis and window that both apply at one
  instant, ends read as exclusive, are a default and a scheduled card: the price is never ambiguous.\<close>

theorem accepted_book_is_unambiguous:
  assumes "parse_book toml_parse text = Inr ds" "i < j" "j < length ds"
    and "same_key (ds ! i) (ds ! j)" "draft_applies (ds ! i) date wd m" "draft_applies (ds ! j) date wd m"
  shows "(rd_schedule (ds ! i) = None) \<noteq> (rd_schedule (ds ! j) = None)"
proof
  assume sched: "(rd_schedule (ds ! i) = None) = (rd_schedule (ds ! j) = None)"
  have "\<not> conflicts (ds ! j) (ds ! i)"
    using parse_book_ok [OF assms(1)] assms(2,3)
    by (auto simp: check_consistency_def consistency_walk_iff dest: sorted_wrt_nth_less)
  moreover have "same_key (ds ! j) (ds ! i)" using assms(4) by (simp add: same_key_def)
  ultimately show False using applying_together_conflict [of "ds ! j" "ds ! i" date wd m] assms(5,6) sched by simp
qed

text \<open>
  C39. Every card of an accepted book states one dimension: a selected price card carries a currency and a
  selected window card percentage points of that window, neither with a negative rate.\<close>

theorem imported_cards_state_one_dimension:
  assumes "parse_book toml_parse text = Inr ds" "\<forall>c\<in>set (rb_cards book). rc_draft c \<in> set ds"
  shows "(find_rate book vendor model cls at = Some c \<longrightarrow>
       (\<exists>k. rd_denomination (rc_draft c) = MoneyRate k) \<and> rd_window_estimate (rc_draft c) = None) \<and>
    (find_window_rate book vendor model cls window at = Some c \<longrightarrow>
       (\<exists>e. rd_window_estimate (rc_draft c) = Some e \<and> we_window e = window \<and>
            rd_denomination (rc_draft c) = PointsRate (we_unit e))) \<and>
    (\<forall>c\<in>set (rb_cards book). 0 \<le> rd_rate_micros (rc_draft c))"
proof -
  have wf: "card_well_formed (rc_draft c)" if "c \<in> set (rb_cards book)" for c
    using assms that parse_book_ok by blast
  have "c \<in> set (rb_cards book) \<and> rd_billing_basis (rc_draft c) = PerMillionTokens"
    if "find_rate book vendor model cls at = Some c" for c
    using first_best_in that unfolding find_rate_eq by (fastforce simp: card_applies_def card_exact_date_match_def)
  moreover have "c \<in> set (rb_cards book) \<and> rd_billing_basis (rc_draft c) = PercentOfWindowPerMillionTokens \<and>
      (\<exists>e. rd_window_estimate (rc_draft c) = Some e \<and> we_window e = window)"
    if "find_window_rate book vendor model cls window at = Some c" for c
    using first_best_in that unfolding find_window_rate_def latest_walk_eq Let_def
    by (fastforce simp: window_card_match_def split: option.splits)
  ultimately show ?thesis using wf by (fastforce simp: card_well_formed_def)
qed

section \<open>The handoff day\<close>

definition handoff_draft :: "i64 \<Rightarrow> utc_date \<Rightarrow> utc_date option \<Rightarrow> rate_card_draft" where
  "handoff_draft rate start_date end_date =
     (rc_draft (sample_card 1 rate None))\<lparr>rd_effective_start := start_date, rd_effective_end := end_date\<rparr>"

text \<open>The importer reads an end as exclusive and accepts a card that starts on the day another ends; the
  valuation reads it as inclusive, so on that day both price the same instant and the later one wins.\<close>

theorem handoff_day_has_two_cards:
  "\<exists>old new book.
     check_consistency [old, new] = Inr () \<and> map rc_draft (rb_cards book) = [old, new] \<and>
     rd_schedule old = None \<and> rd_schedule new = None \<and>
     (\<forall>c\<in>set (rb_cards book). card_applies ''anthropic'' ''opus'' InputClass 0 c) \<and>
     map_option rc_draft (find_rate book ''anthropic'' ''opus'' InputClass 0) = Some new"
proof -
  let ?day = "\<lparr>year = 1970, month = 1, day = 1\<rparr> :: utc_date"
  let ?old = "handoff_draft 15000000 \<lparr>year = 1969, month = 1, day = 1\<rparr> (Some ?day)"
  let ?new = "handoff_draft 5000000 ?day None"
  let ?card = "\<lambda>i d. \<lparr>rc_id = i, rc_imported_at = 0, rc_draft = d\<rparr>"
  let ?book = "book_new [?card 1 ?old, ?card 2 ?new]"
  have "check_consistency [?old, ?new] = Inr ()"
    by (simp add: check_consistency_def conflicts_def effective_overlap_def handoff_draft_def date_key_def)
  moreover have "card_applies ''anthropic'' ''opus'' InputClass 0 (?card 1 ?old)"
    "card_applies ''anthropic'' ''opus'' InputClass 0 (?card 2 ?new)"
    by (simp_all add: card_applies_def card_exact_date_match_def card_in_force_on_def handoff_draft_def sample_card_def
        epoch_instant sample_names date_key_def)
  moreover from this have "find_rate ?book ''anthropic'' ''opus'' InputClass 0 = Some (?card 2 ?new)"
    by (simp add: find_rate_eq book_new_def card_rank_def handoff_draft_def sample_card_def revision_def date_key_def)
  ultimately show ?thesis
    by (intro exI [of _ ?old] exI [of _ ?new] exI [of _ ?book])
      (simp add: book_new_def handoff_draft_def sample_card_def)
qed

section \<open>A book that is accepted\<close>

definition sample_table :: "string \<Rightarrow> toml_table" where
  "sample_table rate =
     [(''billing_basis'', TString ''per_million_tokens''), (''currency'', TString ''USD''),
      (''effective_start'', TString ''1970-01-01''), (''model'', TString ''opus''), (''rate'', TString rate),
      (''schedule'', TTable [(''days'', TArray [TString ''Mon'']), (''hours_utc'', TString ''00:00-01:00'')]),
      (''token_class'', TString ''input''), (''vendor'', TString ''anthropic'')]"

definition sample_draft :: "i64 \<Rightarrow> rate_card_draft" where
  "sample_draft rate = (rc_draft (sample_card 1 rate None))\<lparr>rd_schedule := Some \<lparr>sc_days = 1, sc_start = 0, sc_end = 60\<rparr>\<rparr>"

definition sample_file :: toml_table where
  "sample_file = [(''card'', TArray [TTable (sample_table ''15.00'')])]"

lemma sample_fields:
  "parse_rate_micros ''15.00'' = Inr 15000000"
  "parse_date ''1970-01-01'' = Some \<lparr>year = 1970, month = 1, day = 1\<rparr>"
  "parse_day_name ''Mon'' = Some 1"
  "parse_hours_utc ''00:00-01:00'' = Inr (0, 60)"
  by (simp_all add: parse_rate_micros_def string_eval Let_def checked_mul_i64_def is_i64_def parse_date_def
      numeral_3_eq_3 days_in_month_def parse_day_name_def parse_hours_utc_def parse_clock_def)

lemma sample_schedule: "schedule_new [Suc 0] 0 60 = Some \<lparr>sc_days = 1, sc_start = 0, sc_end = 60\<rparr>"
  by (simp add: schedule_new_def add_day_def)

lemma sample_file_parses: "parse_book (\<lambda>_. Inr sample_file) [] = Inr [sample_draft 15000000]"
  by (simp add: parse_book_def sample_file_def sample_table_def sample_fields sample_schedule parse_card_def parse_schedule_def
      ok_or_def om_get_def card_keys_def schedule_keys_def required_def get_str_def token_class_parse_def basis_parse_def
      parse_denomination_def contains_key_def currency_parse_def optional_date_def optional_string_def
      check_consistency_def sample_draft_def sample_card_def)

theorem imported_cards_state_one_dimension_witness:
  "list_all (\<lambda>c. 0 \<le> rd_rate_micros (rc_draft c))
     (rb_cards (book_new [\<lparr>rc_id = 1, rc_imported_at = 0, rc_draft = sample_draft 15000000\<rparr>]))"
  using imported_cards_state_one_dimension [OF sample_file_parses,
      of "book_new [\<lparr>rc_id = 1, rc_imported_at = 0, rc_draft = sample_draft 15000000\<rparr>]"]
  by (simp add: book_new_def)

definition sample_pair :: toml_table where
  "sample_pair = [(''card'', TArray [TTable (sample_table ''15.00''),
     TTable (filter (\<lambda>kv. fst kv \<noteq> ''schedule'') (sample_table ''15.00''))])]"

lemma sample_pair_parses:
  "parse_book (\<lambda>_. Inr sample_pair) [] = Inr [sample_draft 15000000, rc_draft (sample_card 1 15000000 None)]"
  by (simp add: parse_book_def sample_pair_def sample_table_def sample_fields sample_schedule parse_card_def parse_schedule_def
      ok_or_def om_get_def card_keys_def schedule_keys_def required_def get_str_def token_class_parse_def basis_parse_def
      parse_denomination_def contains_key_def currency_parse_def optional_date_def optional_string_def
      check_consistency_def conflicts_def sample_draft_def sample_card_def)

theorem accepted_book_is_unambiguous_witness:
  "(rd_schedule (sample_draft 15000000) = None) \<noteq> (rd_schedule (rc_draft (sample_card 1 15000000 None)) = None)"
  using accepted_book_is_unambiguous [OF sample_pair_parses, of 0 1 "\<lparr>year = 1970, month = 1, day = 1\<rparr>" 1 0]
  by (simp add: same_key_def draft_applies_def sample_draft_def sample_card_def schedule_contains_def)

end
