(* ===== verification/Rate_Card_Store.thy ===== *)
theory Rate_Card_Store
  imports Rate_Book_Laws Calendar_Laws
begin

text \<open>
  \<open>src/store/rate_card.rs\<close> with the table of migrations 0011, 0037 and 0043: the columns a draft is
  written to and read from, the insert that never rewrites, and the interval reads. The table is the list of
  its rows in insertion order; the checks, the pairing triggers and the content index are the guards of the
  insert, and a new row id is one above the largest, as SQLite documents below the largest row id.
\<close>

section \<open>Rows\<close>

record rate_card_row =
  rr_id :: i64
  rr_vendor :: string
  rr_model :: string
  rr_token_class :: string
  rr_rate_micros :: i64
  rr_currency :: string
  rr_billing_basis :: string
  rr_effective_start :: string
  rr_effective_end :: "string option"
  rr_imported_at :: i64
  rr_published_at :: "i64 option"
  rr_source :: "string option"
  rr_review_due :: "string option"
  rr_schedule_days :: "string option"
  rr_schedule_hours :: "string option"
  rr_window :: "string option"
  rr_unit :: "string option"
  rr_quality :: "string option"

definition schedule_columns :: "schedule option \<Rightarrow> string option \<times> string option" where
  "schedule_columns s = (case s of None \<Rightarrow> (None, None) | Some w \<Rightarrow> (Some (days_text w), Some (hours_text w)))"

definition window_estimate_columns :: "window_estimate option \<Rightarrow> string option \<times> string option \<times> string option" where
  "window_estimate_columns e =
     (case e of
        None \<Rightarrow> (None, None, None)
      | Some w \<Rightarrow> (Some (window_kind_as_str (we_window w)), Some (unit_as_str (we_unit w)),
                   Some (quality_as_str (we_quality w))))"

definition to_row :: "i64 \<Rightarrow> utc_timestamp \<Rightarrow> rate_card_draft \<Rightarrow> rate_card_row" where
  "to_row i imported_at d =
     (let (days, hours) = schedule_columns (rd_schedule d);
          (window, unit, quality) = window_estimate_columns (rd_window_estimate d)
      in \<lparr>rr_id = i, rr_vendor = rd_vendor d, rr_model = rd_model d,
          rr_token_class = token_class_as_str (rd_token_class d), rr_rate_micros = rd_rate_micros d,
          rr_currency = denomination_as_str (rd_denomination d), rr_billing_basis = basis_as_str (rd_billing_basis d),
          rr_effective_start = iso (rd_effective_start d), rr_effective_end = map_option iso (rd_effective_end d),
          rr_imported_at = imported_at, rr_published_at = pub_published_at (rd_publication d),
          rr_source = pub_source (rd_publication d), rr_review_due = review_iso (rd_review_due d),
          rr_schedule_days = days, rr_schedule_hours = hours,
          rr_window = window, rr_unit = unit, rr_quality = quality\<rparr>)"

text \<open>The column a row is refused at, the code's conversion error.\<close>

datatype decode_error = CorruptColumn nat

fun days_of_names :: "string list \<Rightarrow> nat list option" where
  "days_of_names [] = Some []"
| "days_of_names (n # ns) =
     (case parse_day_name n of
        None \<Rightarrow> None
      | Some d \<Rightarrow> (case days_of_names ns of None \<Rightarrow> None | Some ds \<Rightarrow> Some (d # ds)))"

definition decode_schedule :: "string option \<Rightarrow> string option \<Rightarrow> decode_error + schedule option" where
  "decode_schedule days hours =
     (case (days, hours) of
        (None, None) \<Rightarrow> Inr None
      | (Some d, Some h) \<Rightarrow>
          (case days_of_names (split_on (CHR '','') d) of
             None \<Rightarrow> Inl (CorruptColumn 13)
           | Some iso_days \<Rightarrow>
               (case parse_hours_utc h of
                  Inl _ \<Rightarrow> Inl (CorruptColumn 14)
                | Inr (s, e) \<Rightarrow>
                    and_then (ok_or (CorruptColumn 13) (schedule_new iso_days s e)) (\<lambda>w. Inr (Some w))))
      | _ \<Rightarrow> Inl (CorruptColumn 13))"

definition decode_window_estimate ::
    "string option \<Rightarrow> string option \<Rightarrow> string option \<Rightarrow> decode_error + window_estimate option" where
  "decode_window_estimate window unit quality =
     (case (window, unit, quality) of
        (None, None, None) \<Rightarrow> Inr None
      | (Some w, Some u, Some q) \<Rightarrow>
          and_then (ok_or (CorruptColumn 15) (window_kind_parse w)) (\<lambda>pw.
          and_then (ok_or (CorruptColumn 15) (unit_parse u)) (\<lambda>pu.
          and_then (ok_or (CorruptColumn 15) (quality_parse q)) (\<lambda>pq.
            Inr (Some \<lparr>we_window = pw, we_unit = pu, we_quality = pq\<rparr>))))
      | _ \<Rightarrow> Inl (CorruptColumn 15))"

definition decode_date :: "nat \<Rightarrow> string option \<Rightarrow> decode_error + utc_date option" where
  "decode_date column text =
     (case text of
        None \<Rightarrow> Inr None
      | Some t \<Rightarrow> and_then (ok_or (CorruptColumn column) (parse_date t)) (\<lambda>d. Inr (Some d)))"

definition row_to_card :: "rate_card_row \<Rightarrow> decode_error + rate_card" where
  "row_to_card r =
     and_then (decode_schedule (rr_schedule_days r) (rr_schedule_hours r)) (\<lambda>schedule.
     and_then (decode_window_estimate (rr_window r) (rr_unit r) (rr_quality r)) (\<lambda>estimate.
     and_then (ok_or (CorruptColumn 4) (token_class_parse (rr_token_class r))) (\<lambda>cls.
     and_then (ok_or (CorruptColumn 6) (denomination_parse (rr_currency r))) (\<lambda>denomination.
     and_then (ok_or (CorruptColumn 7) (basis_parse (rr_billing_basis r))) (\<lambda>basis.
     and_then (ok_or (CorruptColumn 8) (parse_date (rr_effective_start r))) (\<lambda>effective_start.
     and_then (decode_date 9 (rr_effective_end r)) (\<lambda>effective_end.
     and_then (decode_date 12 (rr_review_due r)) (\<lambda>due.
       Inr \<lparr>rc_id = rr_id r, rc_imported_at = rr_imported_at r,
            rc_draft = \<lparr>rd_vendor = rr_vendor r, rd_model = rr_model r, rd_token_class = cls,
              rd_rate_micros = rr_rate_micros r, rd_denomination = denomination, rd_billing_basis = basis,
              rd_window_estimate = estimate, rd_effective_start = effective_start, rd_effective_end = effective_end,
              rd_schedule = schedule,
              rd_publication = \<lparr>pub_source = rr_source r, pub_published_at = rr_published_at r\<rparr>,
              rd_review_due = (case due of None \<Rightarrow> NoReview | Some d \<Rightarrow> ReviewOn d)\<rparr>\<rparr>))))))))"

section \<open>The table\<close>

definition coalesce :: "'a \<Rightarrow> 'a option \<Rightarrow> 'a" where
  "coalesce fallback v = (case v of None \<Rightarrow> fallback | Some x \<Rightarrow> x)"

text \<open>The columns of the content index, as migration 0043 leaves it.\<close>

definition content_key :: "rate_card_row \<Rightarrow>
    (string \<times> string \<times> string \<times> i64 \<times> string \<times> string \<times> string) \<times> (string \<times> string \<times> i64 \<times> string) \<times>
    (string \<times> string) \<times> (string \<times> string \<times> string)" where
  "content_key r =
     ((rr_vendor r, rr_model r, rr_token_class r, rr_rate_micros r, rr_currency r, rr_billing_basis r, rr_effective_start r),
      (coalesce [] (rr_effective_end r), coalesce [] (rr_source r), coalesce (- 1) (rr_published_at r),
       coalesce [] (rr_review_due r)),
      (coalesce [] (rr_schedule_days r), coalesce [] (rr_schedule_hours r)),
      (coalesce [] (rr_window r), coalesce [] (rr_unit r), coalesce [] (rr_quality r)))"

definition row_checks :: "rate_card_row \<Rightarrow> bool" where
  "row_checks r \<longleftrightarrow>
     rr_vendor r \<noteq> [] \<and> rr_model r \<noteq> [] \<and> rr_token_class r \<noteq> [] \<and> 0 \<le> rr_rate_micros r \<and>
     rr_currency r \<noteq> [] \<and> rr_billing_basis r \<noteq> [] \<and> rr_effective_start r \<noteq> [] \<and>
     rr_effective_end r \<noteq> Some [] \<and> rr_source r \<noteq> Some [] \<and> rr_review_due r \<noteq> Some [] \<and>
     rr_schedule_days r \<noteq> Some [] \<and> rr_schedule_hours r \<noteq> Some [] \<and>
     rr_window r \<noteq> Some [] \<and> rr_unit r \<noteq> Some [] \<and> rr_quality r \<noteq> Some []"

definition row_triggers :: "rate_card_row \<Rightarrow> bool" where
  "row_triggers r \<longleftrightarrow>
     (rr_schedule_days r = None \<longleftrightarrow> rr_schedule_hours r = None) \<and>
     (rr_window r = None \<longleftrightarrow> rr_unit r = None) \<and> (rr_window r = None \<longleftrightarrow> rr_quality r = None) \<and>
     (\<forall>u \<in> set_option (rr_unit r). rr_currency r = u)"

definition next_id :: "rate_card_row list \<Rightarrow> i64" where
  "next_id table = foldl max 0 (map rr_id table) + 1"

record import_summary =
  is_added :: u64
  is_unchanged :: u64

datatype insert_error = ConstraintRefused

fun insert_walk ::
    "utc_timestamp \<Rightarrow> import_summary \<Rightarrow> rate_card_row list \<Rightarrow> rate_card_draft list \<Rightarrow>
     (insert_error + import_summary) \<times> rate_card_row list" where
  "insert_walk imported_at summary table [] = (Inr summary, table)"
| "insert_walk imported_at summary table (d # ds) =
     (let r = to_row (next_id table) imported_at d
      in if \<not> (row_triggers r \<and> row_checks r) then (Inl ConstraintRefused, table)
         else if content_key r \<in> content_key ` set table
         then insert_walk imported_at (summary\<lparr>is_unchanged := is_unchanged summary + 1\<rparr>) table ds
         else insert_walk imported_at (summary\<lparr>is_added := is_added summary + 1\<rparr>) (table @ [r]) ds)"

definition insert_cards ::
    "rate_card_row list \<Rightarrow> rate_card_draft list \<Rightarrow> utc_timestamp \<Rightarrow>
     (insert_error + import_summary) \<times> rate_card_row list" where
  "insert_cards table drafts imported_at = insert_walk imported_at \<lparr>is_added = 0, is_unchanged = 0\<rparr> table drafts"

definition row_order :: "rate_card_row \<Rightarrow> string \<times> string \<times> string \<times> string \<times> i64" where
  "row_order r = (rr_vendor r, rr_model r, rr_token_class r, rr_effective_start r, rr_id r)"

fun decode_all :: "rate_card_row list \<Rightarrow> decode_error + rate_card list" where
  "decode_all [] = Inr []"
| "decode_all (r # rs) =
     and_then (row_to_card r) (\<lambda>c. and_then (decode_all rs) (\<lambda>cs. Inr (c # cs)))"

definition history :: "rate_card_row list \<Rightarrow> decode_error + rate_card list" where
  "history table = decode_all (sort_key row_order table)"

definition effective_at :: "rate_card_row list \<Rightarrow> utc_timestamp \<Rightarrow> decode_error + rate_card list" where
  "effective_at table at =
     (let day = iso (timestamp_date at)
      in decode_all (sort_key row_order
           (filter (\<lambda>r. rr_effective_start r \<le> day \<and>
              (case rr_effective_end r of None \<Rightarrow> True | Some e \<Rightarrow> e > day)) table)))"

definition stale_rate_cards :: "rate_card_row list \<Rightarrow> utc_timestamp \<Rightarrow> decode_error + rate_card list" where
  "stale_rate_cards table at =
     (let day = iso (timestamp_date at)
      in decode_all (sort_key row_order
           (filter (\<lambda>r. case rr_review_due r of None \<Rightarrow> False | Some due \<Rightarrow> due \<le> day) table)))"

definition row_count_of :: "rate_card_row list \<Rightarrow> u64" where
  "row_count_of table = length table"

end
