(* ===== verification/Rate_Card_Store_Laws.thy ===== *)
theory Rate_Card_Store_Laws
  imports Rate_Card_Store
begin

text \<open>
  What the rate-card table promises: an imported card reads back as it was written, an insert only appends
  and repeating it adds nothing, and the text comparison of dates is the comparison of dates.
\<close>

section \<open>Rows read back\<close>

lemma decode_date_iso:
  "valid_date d \<Longrightarrow> 0 \<le> year d \<Longrightarrow> year d \<le> i64_max \<Longrightarrow> decode_date n (Some (iso d)) = Inr (Some d)"
  by (simp add: decode_date_def parse_date_iso ok_or_def)

definition date_storable :: "utc_date \<Rightarrow> bool" where
  "date_storable d \<longleftrightarrow> valid_date d \<and> 0 \<le> year d \<and> year d \<le> i64_max"

lemma storable_iso: "date_storable d \<Longrightarrow> parse_date (iso d) = Some d"
  by (simp add: date_storable_def parse_date_iso)

lemma parse_date_storable:
  assumes "parse_date str = Some d"
  shows "date_storable d"
proof -
  obtain ys ms ds where sp: "splitn 3 (CHR ''-'') str = [ys, ms, ds]" and y: "parse_i64 ys = Some (year d)"
    and v: "valid_date d"
    using assms by (auto simp: parse_date_def valid_date_def Option.bind_eq_Some_conv split: list.splits if_splits)
  have "CHR ''-'' \<notin> set ys"
    using sp split_once_SomeD [of "CHR ''-''" str] by (auto simp: numeral_3_eq_3 split: option.splits prod.splits)
  then have "0 \<le> year d \<and> year d \<le> i64_max"
    using y by (auto simp: parse_i64_def split: list.splits option.splits if_splits)
  then show ?thesis using v by (simp add: date_storable_def)
qed

definition draft_storable :: "rate_card_draft \<Rightarrow> bool" where
  "draft_storable d \<longleftrightarrow>
     date_storable (rd_effective_start d) \<and>
     (\<forall>e. rd_effective_end d = Some e \<longrightarrow> date_storable e) \<and>
     (\<forall>e. rd_review_due d = ReviewOn e \<longrightarrow> date_storable e) \<and>
     (\<forall>s. rd_schedule d = Some s \<longrightarrow> (\<exists>ds a b. schedule_new ds a b = Some s \<and> b < 1440))"

lemma days_of_names_map:
  "map parse_day_name names = map Some ds \<Longrightarrow> days_of_names names = Some ds"
  by (induction names arbitrary: ds) (auto split: option.splits)

lemma decode_schedule_columns:
  assumes "\<forall>w. s = Some w \<longrightarrow> (\<exists>ds a b. schedule_new ds a b = Some w \<and> b < 1440)"
  shows "decode_schedule (fst (schedule_columns s)) (snd (schedule_columns s)) = Inr s"
proof (cases s)
  case None
  then show ?thesis by (simp add: schedule_columns_def decode_schedule_def)
next
  case (Some w)
  then obtain ds a b where w: "schedule_new ds a b = Some w" "b < 1440" using assms by blast
  note reads = schedule_text_roundtrip [OF w]
  then have "days_of_names (split_on (CHR '','') (days_text w)) = Some (days_iso w)"
    using days_of_names_map by blast
  then show ?thesis using reads
    by (simp add: Some schedule_columns_def decode_schedule_def ok_or_def)
qed

lemma decode_window_columns:
  "(case window_estimate_columns e of (w, u, q) \<Rightarrow> decode_window_estimate w u q) = Inr e"
  using rate_codes_roundtrip
  by (cases e) (simp_all add: window_estimate_columns_def decode_window_estimate_def ok_or_def)

lemma row_reads_back:
  assumes "draft_storable d"
  shows "row_to_card (to_row i imported_at d) = Inr \<lparr>rc_id = i, rc_imported_at = imported_at, rc_draft = d\<rparr>"
proof -
  obtain days hours where cols: "schedule_columns (rd_schedule d) = (days, hours)" by fastforce
  obtain w u q where est: "window_estimate_columns (rd_window_estimate d) = (w, u, q)" by (metis prod_cases3)
  have sched: "decode_schedule days hours = Inr (rd_schedule d)"
    using decode_schedule_columns [of "rd_schedule d"] assms by (simp add: cols draft_storable_def)
  have window: "decode_window_estimate w u q = Inr (rd_window_estimate d)"
    using decode_window_columns [of "rd_window_estimate d"] by (simp add: est)
  have start: "parse_date (iso (rd_effective_start d)) = Some (rd_effective_start d)"
    using assms by (simp add: draft_storable_def storable_iso)
  have ends: "decode_date 9 (map_option iso (rd_effective_end d)) = Inr (rd_effective_end d)"
    using assms by (cases "rd_effective_end d") (simp_all add: draft_storable_def storable_iso decode_date_def ok_or_def)
  have due: "\<exists>x. decode_date 12 (review_iso (rd_review_due d)) = Inr x \<and>
      (case x of None \<Rightarrow> NoReview | Some e \<Rightarrow> ReviewOn e) = rd_review_due d"
    using assms by (cases "rd_review_due d") (simp_all add: draft_storable_def storable_iso decode_date_def ok_or_def)
  show ?thesis
    using due rate_codes_roundtrip
    by (auto simp: row_to_card_def to_row_def cols est sched window start ends ok_or_def)
qed

lemma parse_hours_before_midnight: "parse_hours_utc str = Inr (a, b) \<Longrightarrow> b < 1440"
  by (auto simp: parse_hours_utc_def parse_clock_def split: option.splits prod.splits if_splits)

lemma hours_case_new:
  "(case parse_hours_utc str of Inl e \<Rightarrow> Inl (g e) | Inr (a, b) \<Rightarrow> ok_or e' (schedule_new ds a b)) = Inr s \<Longrightarrow>
   \<exists>ds a b. schedule_new ds a b = Some s \<and> b < 1440"
  by (cases "parse_hours_utc str") (auto simp: ok_or_Inr split: prod.splits intro: parse_hours_before_midnight)

lemma parse_schedule_new: "parse_schedule index v = Inr s \<Longrightarrow> \<exists>ds a b. schedule_new ds a b = Some s \<and> b < 1440"
  by (auto simp: parse_schedule_def import_simps split: option.splits if_splits dest: hours_case_new)

lemma optional_date_storable: "optional_date t index key = Inr (Some d) \<Longrightarrow> date_storable d"
  by (auto simp: optional_date_def split: option.splits dest: parse_date_storable)

lemma parse_card_storable:
  assumes "parse_card index t = Inr d"
  shows "draft_storable d"
proof -
  obtain str ends due schedule where
    d: "parse_date str = Some (rd_effective_start d)" "rd_effective_end d = ends" "rd_schedule d = schedule"
      "rd_review_due d = (case due of None \<Rightarrow> NoReview | Some e \<Rightarrow> ReviewOn e)"
    and ends: "optional_date t index ''effective_end'' = Inr ends"
    and due: "optional_date t index ''review_due'' = Inr due"
    and sched: "(case om_get t ''schedule'' of None \<Rightarrow> Inr None
               | Some v \<Rightarrow> and_then (parse_schedule index v) (\<lambda>s. Inr (Some s))) = Inr schedule"
    using assms unfolding parse_card_def import_simps rate_case
    by (elim exE conjE) (auto simp: import_simps split: prod.splits)
  have "\<exists>ds a b. schedule_new ds a b = Some s \<and> b < 1440" if "schedule = Some s" for s
    using sched that by (auto simp: import_simps split: option.splits dest: parse_schedule_new)
  then show ?thesis
    using d parse_date_storable optional_date_storable ends due
    by (auto simp: draft_storable_def split: option.splits)
qed

lemma parse_entries_storable: "parse_entries index vs = Inr ds \<Longrightarrow> \<forall>d\<in>set ds. draft_storable d"
  by (induction index vs arbitrary: ds rule: parse_entries.induct)
    (auto simp: import_simps split: option.splits dest: parse_card_storable)

text \<open>
  C36. Every card of an accepted book file, written to the table, reads back as the same card: prices, dates,
  schedule and window estimate survive their text columns.\<close>

theorem imported_cards_survive_storage:
  assumes "parse_book toml_parse str = Inr ds" "d \<in> set ds"
  shows "row_to_card (to_row i imported_at d) = Inr \<lparr>rc_id = i, rc_imported_at = imported_at, rc_draft = d\<rparr>"
  using assms
  by (intro row_reads_back) (auto simp: parse_book_def import_simps split: if_splits dest: parse_entries_storable)

theorem imported_cards_survive_storage_witness:
  "row_to_card (to_row 7 0 (sample_draft 15000000)) =
     Inr \<lparr>rc_id = 7, rc_imported_at = 0, rc_draft = sample_draft 15000000\<rparr>"
  by (rule imported_cards_survive_storage [OF sample_file_parses]) simp

section \<open>Inserting\<close>

lemma next_id_fresh: "\<forall>r\<in>set table. rr_id r < next_id table" "0 < next_id table"
proof -
  have "n \<le> foldl max n xs \<and> (\<forall>x\<in>set xs. x \<le> foldl max n xs)" for n :: int and xs
    by (induction xs arbitrary: n) (auto, (meson max.boundedE order_trans)+)
  from this [of 0 "map rr_id table"] show "\<forall>r\<in>set table. rr_id r < next_id table" "0 < next_id table"
    by (auto simp: next_id_def)
qed

definition table_ok :: "rate_card_row list \<Rightarrow> bool" where
  "table_ok table \<longleftrightarrow>
     distinct (map rr_id table) \<and> distinct (map content_key table) \<and>
     (\<forall>r\<in>set table. row_checks r \<and> row_triggers r)"

lemma to_row_id [simp]: "rr_id (to_row i at d) = i"
  by (simp add: to_row_def split: prod.split)

lemma to_row_content: "content_key (to_row i at d) = content_key (to_row j at' d)"
  "row_checks (to_row i at d) = row_checks (to_row j at' d)"
  "row_triggers (to_row i at d) = row_triggers (to_row j at' d)"
  by (simp_all add: to_row_def content_key_def row_checks_def row_triggers_def split: prod.split)

lemma insert_walk_appends:
  "\<exists>rows. snd (insert_walk at s table ds) = table @ rows"
  by (induction ds arbitrary: s table) (auto simp: Let_def, metis append_assoc)

lemma insert_walk_ok: "table_ok table \<Longrightarrow> table_ok (snd (insert_walk at s table ds))"
proof (induction ds arbitrary: s table)
  case (Cons d ds)
  have "table_ok (table @ [to_row (next_id table) at d])"
    if "row_triggers (to_row (next_id table) at d)" "row_checks (to_row (next_id table) at d)"
      "content_key (to_row (next_id table) at d) \<notin> content_key ` set table"
    using that Cons.prems next_id_fresh(1) [of table] by (force simp: table_ok_def)
  then show ?case using Cons by (auto simp: Let_def)
qed simp

lemma insert_walk_keys:
  assumes "insert_walk at s table ds = (Inr s', table')"
  shows "is_added s' + is_unchanged s' = is_added s + is_unchanged s + length ds"
    and "\<forall>d\<in>set ds. row_triggers (to_row i at d) \<and> row_checks (to_row i at d) \<and>
      content_key (to_row i at d) \<in> content_key ` set table'"
proof -
  show "is_added s' + is_unchanged s' = is_added s + is_unchanged s + length ds"
    using assms by (induction ds arbitrary: s table) (auto simp: Let_def split: if_splits)
  show "\<forall>d\<in>set ds. row_triggers (to_row i at d) \<and> row_checks (to_row i at d) \<and>
      content_key (to_row i at d) \<in> content_key ` set table'"
    using assms
  proof (induction ds arbitrary: s table)
    case (Cons d ds)
    let ?r = "to_row (next_id table) at d"
    have ok: "row_triggers ?r" "row_checks ?r" using Cons.prems by (auto simp: Let_def split: if_splits)
    obtain s2 t2 where step: "insert_walk at s2 t2 ds = (Inr s', table')" "content_key ?r \<in> content_key ` set t2"
      using Cons.prems ok by (auto simp: Let_def split: if_splits)
    have "set t2 \<subseteq> set table'" using insert_walk_appends [of at s2 t2 ds] step(1) by auto
    then have "content_key ?r \<in> content_key ` set table'" using step(2) by blast
    then show ?case using Cons.IH [OF step(1)] ok to_row_content [of "next_id table" at d i at] by simp
  qed simp
qed

lemma insert_walk_known:
  "\<forall>d\<in>set ds. row_triggers (to_row 0 at d) \<and> row_checks (to_row 0 at d) \<and>
      content_key (to_row 0 at d) \<in> content_key ` set table \<Longrightarrow>
   insert_walk at s table ds = (Inr (s\<lparr>is_unchanged := is_unchanged s + length ds\<rparr>), table)"
  by (induction ds arbitrary: s)
    (simp_all add: Let_def to_row_content(2,3) [of "next_id table" at _ 0 at] to_row_content(1) [of "next_id table" at _ 0 at])

lemma insert_walk_adds:
  "insert_walk at s table ds = (Inr s', table') \<Longrightarrow> is_added s' + length table = is_added s + length table'"
  by (induction ds arbitrary: s table) (fastforce simp: Let_def split: if_splits)+

lemma insert_walk_accepts:
  "\<forall>d\<in>set ds. row_triggers (to_row 0 at d) \<and> row_checks (to_row 0 at d) \<Longrightarrow>
   \<exists>s' t. insert_walk at s table ds = (Inr s', t)"
  by (induction ds arbitrary: s table)
    (simp_all add: Let_def to_row_content(2,3) [of "next_id table" at _ 0 at for table])

lemma sample_days: "join '','' (map day_name_or (days_iso \<lparr>sc_days = 1, sc_start = a, sc_end = b\<rparr>)) = ''mon''"
proof -
  have "days_iso \<lparr>sc_days = 1, sc_start = a, sc_end = b\<rparr> = [1]"
    unfolding days_iso_def by code_simp
  then show ?thesis by (simp add: join_def day_name_or_def day_name_def)
qed

lemma sample_row_valid: "row_triggers (to_row 0 at (sample_draft r)) \<and> (0 \<le> r \<longrightarrow> row_checks (to_row 0 at (sample_draft r)))"
  by (simp add: to_row_def row_triggers_def row_checks_def sample_draft_def sample_card_def schedule_columns_def
      window_estimate_columns_def iso_def days_text_def hours_text_def sample_days)

text \<open>
  C37. An import only appends rows, whether it succeeds or is refused part way, and keeps row ids and
  contents distinct; a successful import accounts for every card, and importing the same book again, at any
  time, adds nothing.\<close>

theorem import_appends_and_repeats:
  assumes "table_ok table" "insert_cards table drafts at = (result, table')"
  shows "(\<exists>rows. table' = table @ rows) \<and> table_ok table' \<and>
    (\<forall>s. result = Inr s \<longrightarrow>
       is_added s + is_unchanged s = length drafts \<and> is_added s = length table' - length table \<and>
       insert_cards table' drafts at' = (Inr \<lparr>is_added = 0, is_unchanged = length drafts\<rparr>, table'))"
proof (intro conjI allI impI)
  show "\<exists>rows. table' = table @ rows" "table_ok table'"
    using insert_walk_appends [of at "\<lparr>is_added = 0, is_unchanged = 0\<rparr>" table drafts]
      insert_walk_ok [OF assms(1), of at "\<lparr>is_added = 0, is_unchanged = 0\<rparr>" drafts] assms(2)
    by (simp_all add: insert_cards_def)
  fix s
  assume "result = Inr s"
  then have run: "insert_walk at \<lparr>is_added = 0, is_unchanged = 0\<rparr> table drafts = (Inr s, table')"
    using assms(2) by (simp add: insert_cards_def)
  show "is_added s + is_unchanged s = length drafts" "is_added s = length table' - length table"
    using insert_walk_keys(1) [OF run] insert_walk_adds [OF run] by simp_all
  have "\<forall>d\<in>set drafts. row_triggers (to_row 0 at' d) \<and> row_checks (to_row 0 at' d) \<and>
      content_key (to_row 0 at' d) \<in> content_key ` set table'"
    using insert_walk_keys(2) [OF run, of 0] to_row_content [of 0 at _ 0 at'] by simp
  from insert_walk_known [OF this]
  show "insert_cards table' drafts at' = (Inr \<lparr>is_added = 0, is_unchanged = length drafts\<rparr>, table')"
    by (simp add: insert_cards_def)
qed

theorem import_appends_and_repeats_witness:
  "insert_cards (snd (insert_cards [] [sample_draft 15000000, sample_draft 16000000] 5))
      [sample_draft 15000000, sample_draft 16000000] 9 =
   (Inr \<lparr>is_added = 0, is_unchanged = 2\<rparr>, snd (insert_cards [] [sample_draft 15000000, sample_draft 16000000] 5))"
proof -
  let ?ds = "[sample_draft 15000000, sample_draft 16000000]"
  have ok: "table_ok []" by (simp add: table_ok_def)
  obtain s t where run: "insert_cards [] ?ds 5 = (Inr s, t)"
    using insert_walk_accepts [of ?ds 5 "\<lparr>is_added = 0, is_unchanged = 0\<rparr>" "[]"] sample_row_valid
    by (auto simp: insert_cards_def)
  show ?thesis
    using import_appends_and_repeats [OF ok run, of 9] by (simp add: run)
qed

section \<open>Reading an interval by text\<close>

lemma digits_value_less:
  "\<lbrakk>length xs = length ys; digits_value p xs = Some a; digits_value q ys = Some b; p < q\<rbrakk> \<Longrightarrow> a < b"
proof (induction xs ys arbitrary: p q rule: list_induct2)
  case (Cons x xs y ys)
  obtain d e where de: "digit_value x = Some d" "digit_value y = Some e"
    "digits_value (10 * p + d) xs = Some a" "digits_value (10 * q + e) ys = Some b"
    using Cons.prems by (auto split: option.splits)
  have "10 * p + d < 10 * q + e" using digit_value_bound [OF de(1)] Cons.prems(3) by simp
  then show ?case by (rule Cons.IH [OF de(3,4)])
qed simp

lemma digit_value_order: "digit_value x = Some d \<Longrightarrow> digit_value y = Some e \<Longrightarrow> x < y \<longleftrightarrow> d < e"
  by (auto simp: digit_value_def Let_def less_char_def split: if_splits)

lemma digits_value_mono:
  "\<lbrakk>length xs = length ys; digits_value p xs = Some a; digits_value p ys = Some b; xs < ys\<rbrakk> \<Longrightarrow> a < b"
proof (induction xs ys arbitrary: p rule: list_induct2)
  case (Cons x xs y ys)
  obtain d e where de: "digit_value x = Some d" "digit_value y = Some e"
    "digits_value (10 * p + d) xs = Some a" "digits_value (10 * p + e) ys = Some b"
    using Cons.prems by (auto split: option.splits)
  show ?case
  proof (cases "x = y")
    case True
    then show ?thesis using de Cons.IH Cons.prems(3) by auto
  next
    case False
    then have "d < e" using Cons.prems(3) digit_value_order [OF de(1,2)] by simp
    then show ?thesis using digits_value_less [OF Cons.hyps de(3,4)] by simp
  qed
qed simp

lemma pad0_inject: "pad0 w m = pad0 w n \<longleftrightarrow> m = n"
  using digits_value_pad0 by (metis option.inject)

lemma pad0_order:
  assumes "m < 10 ^ w" "n < 10 ^ w" "0 < w"
  shows "pad0 w m < pad0 w n \<longleftrightarrow> m < n"
proof -
  have len: "length (pad0 w m) = length (pad0 w n)" using assms by (simp add: length_pad0)
  have mono: "pad0 w a < pad0 w b \<Longrightarrow> a < b" if "length (pad0 w a) = length (pad0 w b)" for a b
    using digits_value_mono [OF that digits_value_pad0 digits_value_pad0] .
  show ?thesis using mono [OF len] mono [OF len [symmetric]] by (cases "pad0 w m" "pad0 w n" rule: linorder_cases) (auto simp: pad0_inject)
qed

lemma append_order:
  fixes xs ys us vs :: string
  shows "length xs = length ys \<Longrightarrow> xs @ us < ys @ vs \<longleftrightarrow> xs < ys \<or> xs = ys \<and> us < vs"
  by (induction xs ys rule: list_induct2) auto

text \<open>Four-digit years, where the text comparison of the query is the comparison of dates.\<close>

definition four_digit :: "utc_date \<Rightarrow> bool" where
  "four_digit d \<longleftrightarrow> valid_date d \<and> 0 \<le> year d \<and> year d \<le> 9999"

lemma four_digit_bounds:
  "four_digit d \<Longrightarrow> nat (year d) < 10 ^ 4 \<and> month d < 10 ^ 2 \<and> day d < 10 ^ 2 \<and> 0 \<le> year d"
  by (auto simp: four_digit_def valid_date_def days_in_month_def split: if_splits)

lemma iso_order:
  assumes "four_digit d" "four_digit e"
  shows "iso d < iso e \<longleftrightarrow> date_key d < date_key e"
proof -
  note b = four_digit_bounds [OF assms(1)] four_digit_bounds [OF assms(2)]
  have pos: "pad0_int 4 (year d) = pad0 4 (nat (year d))" "pad0_int 4 (year e) = pad0 4 (nat (year e))"
    using b by (simp_all add: pad0_int_def)
  show ?thesis
    using b by (auto simp: iso_def pos append_order length_pad0 pad0_order pad0_inject date_key_def less_prod_def)
qed

lemma iso_order_le:
  assumes "four_digit d" "four_digit e"
  shows "iso d \<le> iso e \<longleftrightarrow> date_key d \<le> date_key e"
  using iso_order [OF assms(2,1)] by (simp add: linorder_not_less [symmetric])

lemma decode_all_map: "\<forall>r\<in>set rs. row_to_card r = Inr (f r) \<Longrightarrow> decode_all rs = Inr (map f rs)"
  by (induction rs) simp_all

definition card_of_draft :: "i64 \<times> utc_timestamp \<times> rate_card_draft \<Rightarrow> rate_card" where
  "card_of_draft x = (case x of (i, t, d) \<Rightarrow> \<lparr>rc_id = i, rc_imported_at = t, rc_draft = d\<rparr>)"

definition stored :: "(i64 \<times> utc_timestamp \<times> rate_card_draft) list \<Rightarrow> rate_card_row list" where
  "stored xs = map (\<lambda>(i, t, d). to_row i t d) xs"

definition draft_four_digit :: "rate_card_draft \<Rightarrow> bool" where
  "draft_four_digit d \<longleftrightarrow> four_digit (rd_effective_start d) \<and> (\<forall>e. rd_effective_end d = Some e \<longrightarrow> four_digit e)"

lemma to_row_dates:
  "rr_effective_start (to_row i t d) = iso (rd_effective_start d)"
  "rr_effective_end (to_row i t d) = map_option iso (rd_effective_end d)"
  by (simp_all add: to_row_def split: prod.split)

lemma date_key_less: "date_key d < date_key e \<longleftrightarrow> date_key d \<le> date_key e \<and> e \<noteq> d"
  by (cases d; cases e) (auto simp: date_key_def less_le)

text \<open>
  For a table written from drafts whose dates have four-digit years, the text query for the cards in
  effect decodes and returns exactly the cards in force on that day other than those ending on it.\<close>

theorem effective_cards_are_in_force:
  assumes "\<forall>(i, t, d)\<in>set xs. draft_storable d \<and> draft_four_digit d" "four_digit (timestamp_date now)"
  shows "\<exists>cards. effective_at (stored xs) now = Inr cards \<and>
    set cards = {c \<in> card_of_draft ` set xs. card_in_force_on c (timestamp_date now) \<and>
                   rd_effective_end (rc_draft c) \<noteq> Some (timestamp_date now)}"
proof -
  let ?day = "timestamp_date now"
  let ?row = "\<lambda>(i, t, d). to_row i t d"
  let ?sel = "\<lambda>r. rr_effective_start r \<le> iso ?day \<and> (case rr_effective_end r of None \<Rightarrow> True | Some e \<Rightarrow> e > iso ?day)"
  let ?rows = "sort_key row_order (filter ?sel (stored xs))"
  have reads: "row_to_card (?row x) = Inr (card_of_draft x)" if "x \<in> set xs" for x
    using assms(1) that by (auto simp: card_of_draft_def row_reads_back split: prod.splits)
  have sel: "?sel (?row x) \<longleftrightarrow> card_in_force_on (card_of_draft x) ?day \<and>
      rd_effective_end (rc_draft (card_of_draft x)) \<noteq> Some ?day" if x: "x \<in> set xs" for x
  proof -
    obtain i t d where [simp]: "x = (i, t, d)" by (cases x)
    have d: "four_digit (rd_effective_start d)" "\<forall>e. rd_effective_end d = Some e \<longrightarrow> four_digit e"
      using assms(1) x by (auto simp: draft_four_digit_def)
    then show ?thesis
      using assms(2)
      by (auto simp: card_of_draft_def card_in_force_on_def to_row_dates iso_order iso_order_le date_key_less
          split: option.splits)
  qed
  have read: "effective_at (stored xs) now = Inr (map (\<lambda>r. projr (row_to_card r)) ?rows)"
    unfolding effective_at_def Let_def
    using reads by (intro decode_all_map) (fastforce simp: stored_def)
  have "set (map (\<lambda>r. projr (row_to_card r)) ?rows) =
      (\<lambda>x. projr (row_to_card (?row x))) ` {x \<in> set xs. ?sel (?row x)}" by (force simp: stored_def)
  also have "\<dots> = card_of_draft ` {x \<in> set xs. ?sel (?row x)}" by (rule image_cong) (use reads in auto)
  also have "\<dots> = {c \<in> card_of_draft ` set xs. card_in_force_on c ?day \<and> rd_effective_end (rc_draft c) \<noteq> Some ?day}"
    using sel by blast
  finally show ?thesis using read by blast
qed

theorem effective_cards_are_in_force_witness:
  "\<exists>cards. effective_at (stored [(1, 0, sample_draft 15000000), (2, 0, (sample_draft 7)\<lparr>rd_effective_end :=
       Some \<lparr>year = 1970, month = 1, day = 1\<rparr>\<rparr>)]) 0 = Inr cards \<and> set cards = {card_of_draft (1, 0, sample_draft 15000000)}"
proof -
  let ?xs = "[(1, 0, sample_draft 15000000), (2, 0, (sample_draft 7)\<lparr>rd_effective_end :=
       Some \<lparr>year = 1970, month = 1, day = 1\<rparr>\<rparr>)]"
  have today: "timestamp_date 0 = \<lparr>year = 1970, month = 1, day = 1\<rparr>" by code_simp
  have "valid_date \<lparr>year = 1970, month = 1, day = 1\<rparr>" by code_simp
  then have dates: "four_digit \<lparr>year = 1970, month = 1, day = 1\<rparr>" "date_storable \<lparr>year = 1970, month = 1, day = 1\<rparr>"
    by (simp_all add: four_digit_def date_storable_def)
  have sched: "\<exists>ds a b. schedule_new ds a b = Some \<lparr>sc_days = 1, sc_start = 0, sc_end = 60\<rparr> \<and> b < 1440"
    using sample_schedule by (intro exI [of _ "[Suc 0]"] exI [of _ 0] exI [of _ 60]) simp
  have ok: "\<forall>(i, t, d)\<in>set ?xs. draft_storable d \<and> draft_four_digit d"
    using dates sched by (simp add: draft_storable_def draft_four_digit_def sample_draft_def sample_card_def)
  have "{c \<in> card_of_draft ` set ?xs. card_in_force_on c (timestamp_date 0) \<and>
      rd_effective_end (rc_draft c) \<noteq> Some (timestamp_date 0)} = {card_of_draft (1, 0, sample_draft 15000000)}"
    by (auto simp: today card_of_draft_def card_in_force_on_def sample_draft_def sample_card_def date_key_def)
  then show ?thesis using effective_cards_are_in_force [OF ok, of 0] dates(1) unfolding today by simp
qed

end
