(* ===== verification/Task_Identity.thy ===== *)
theory Task_Identity
  imports Calendar Ordered_Map Rust_Strings Selection
begin

text \<open>
  \<open>src/attribution.rs\<close>: tracker records turned into task events and into typed task identities. The classes the
  code derives an order for are instances of \<open>linorder\<close> by declaration order; the log formatting of errors is
  kept as the axis and the raw value.
\<close>

section \<open>Events\<close>

record task_id =
  ti_source :: string
  ti_native :: string

record tracker_event =
  te_upstream_id :: i64
  te_task_native :: string
  te_event_type :: string
  te_old_value :: "string option"
  te_new_value :: "string option"
  te_occurred_at :: string
  te_actor :: "string option"

datatype task_event_kind = Claim | Release | UnknownEvent string

definition event_kind_as_str :: "task_event_kind \<Rightarrow> string" where
  "event_kind_as_str k = (case k of Claim \<Rightarrow> ''claim'' | Release \<Rightarrow> ''release'' | UnknownEvent s \<Rightarrow> s)"

record task_event =
  tv_source :: string
  tv_upstream_id :: i64
  tv_task :: task_id
  tv_occurred_at :: utc_timestamp
  tv_kind :: task_event_kind
  tv_agent :: "string option"

record task_event_quarantine =
  tq_source :: string
  tq_upstream_id :: i64
  tq_raw_timestamp :: string
  tq_reason :: string

definition event_kind_of :: "tracker_event \<Rightarrow> task_event_kind" where
  "event_kind_of e =
     (if te_event_type e = ''status_changed'' \<and> te_new_value e = Some ''in_progress'' then Claim
      else if te_event_type e = ''status_changed'' \<and> te_old_value e = Some ''in_progress'' then Release
      else UnknownEvent (te_event_type e))"

definition normalize_tracker_event :: "string \<Rightarrow> tracker_event \<Rightarrow> task_event_quarantine + task_event" where
  "normalize_tracker_event tracker_source e =
     (case parse_rfc3339 (te_occurred_at e) of
        None \<Rightarrow> Inl \<lparr>tq_source = tracker_source, tq_upstream_id = te_upstream_id e,
                      tq_raw_timestamp = te_occurred_at e, tq_reason = ''unusable timestamp''\<rparr>
      | Some t \<Rightarrow>
          Inr \<lparr>tv_source = tracker_source, tv_upstream_id = te_upstream_id e,
               tv_task = \<lparr>ti_source = tracker_source, ti_native = te_task_native e\<rparr>,
               tv_occurred_at = t, tv_kind = event_kind_of e,
               tv_agent = (case te_actor e of Some a \<Rightarrow> if a = [] then None else Some a | None \<Rightarrow> None)\<rparr>)"

section \<open>Vocabularies\<close>

datatype task_kind = Task | Epic | Bug | Docs | Question
datatype task_size = S | M | L | XL
datatype task_difficulty = Mechanical | Reasoning | Critical
datatype task_verify = Local | Gate | External
datatype task_spec = Closed | Open

definition kind_as_str :: "task_kind \<Rightarrow> string" where
  "kind_as_str k =
     (case k of Task \<Rightarrow> ''task'' | Epic \<Rightarrow> ''epic'' | Bug \<Rightarrow> ''bug'' | Docs \<Rightarrow> ''docs'' | Question \<Rightarrow> ''question'')"

definition kind_parse :: "string \<Rightarrow> task_kind option" where
  "kind_parse raw =
     (if raw = ''task'' then Some Task else if raw = ''epic'' then Some Epic else if raw = ''bug'' then Some Bug
      else if raw = ''docs'' then Some Docs else if raw = ''question'' then Some Question else None)"

definition size_as_str :: "task_size \<Rightarrow> string" where
  "size_as_str s = (case s of S \<Rightarrow> ''S'' | M \<Rightarrow> ''M'' | L \<Rightarrow> ''L'' | XL \<Rightarrow> ''XL'')"

definition size_label :: "task_size \<Rightarrow> string" where
  "size_label s = (case s of S \<Rightarrow> ''size:S'' | M \<Rightarrow> ''size:M'' | L \<Rightarrow> ''size:L'' | XL \<Rightarrow> ''size:XL'')"

definition size_parse :: "string \<Rightarrow> task_size option" where
  "size_parse raw =
     (if raw \<in> {''S'', ''size:S''} then Some S else if raw \<in> {''M'', ''size:M''} then Some M
      else if raw \<in> {''L'', ''size:L''} then Some L else if raw \<in> {''XL'', ''size:XL''} then Some XL else None)"

definition difficulty_as_str :: "task_difficulty \<Rightarrow> string" where
  "difficulty_as_str d =
     (case d of Mechanical \<Rightarrow> ''mechanical'' | Reasoning \<Rightarrow> ''reasoning'' | Critical \<Rightarrow> ''critical'')"

definition difficulty_label :: "task_difficulty \<Rightarrow> string" where
  "difficulty_label d =
     (case d of Mechanical \<Rightarrow> ''difficulty:mechanical'' | Reasoning \<Rightarrow> ''difficulty:reasoning''
              | Critical \<Rightarrow> ''difficulty:critical'')"

definition difficulty_parse :: "string \<Rightarrow> task_difficulty option" where
  "difficulty_parse raw =
     (if raw \<in> {''mechanical'', ''difficulty:mechanical''} then Some Mechanical
      else if raw \<in> {''reasoning'', ''difficulty:reasoning''} then Some Reasoning
      else if raw \<in> {''critical'', ''difficulty:critical''} then Some Critical else None)"

definition verify_as_str :: "task_verify \<Rightarrow> string" where
  "verify_as_str v = (case v of Local \<Rightarrow> ''local'' | Gate \<Rightarrow> ''gate'' | External \<Rightarrow> ''external'')"

definition verify_parse :: "string \<Rightarrow> task_verify option" where
  "verify_parse raw =
     (if raw = ''local'' then Some Local else if raw = ''gate'' then Some Gate
      else if raw = ''external'' then Some External else None)"

definition spec_as_str :: "task_spec \<Rightarrow> string" where
  "spec_as_str s = (case s of Closed \<Rightarrow> ''closed'' | Open \<Rightarrow> ''open'')"

definition spec_parse :: "string \<Rightarrow> task_spec option" where
  "spec_parse raw = (if raw = ''closed'' then Some Closed else if raw = ''open'' then Some Open else None)"

text \<open>The derived order of the vocabularies is their declaration order.\<close>

definition kind_index_of :: "task_kind \<Rightarrow> nat" where
  "kind_index_of k = (case k of Task \<Rightarrow> 0 | Epic \<Rightarrow> 1 | Bug \<Rightarrow> 2 | Docs \<Rightarrow> 3 | Question \<Rightarrow> 4)"

definition size_index_of :: "task_size \<Rightarrow> nat" where
  "size_index_of s = (case s of S \<Rightarrow> 0 | M \<Rightarrow> 1 | L \<Rightarrow> 2 | XL \<Rightarrow> 3)"

definition difficulty_index_of :: "task_difficulty \<Rightarrow> nat" where
  "difficulty_index_of d = (case d of Mechanical \<Rightarrow> 0 | Reasoning \<Rightarrow> 1 | Critical \<Rightarrow> 2)"

definition verify_index_of :: "task_verify \<Rightarrow> nat" where
  "verify_index_of v = (case v of Local \<Rightarrow> 0 | Gate \<Rightarrow> 1 | External \<Rightarrow> 2)"

definition spec_index_of :: "task_spec \<Rightarrow> nat" where
  "spec_index_of s = (case s of Closed \<Rightarrow> 0 | Open \<Rightarrow> 1)"

lemma index_inject [simp]:
  "kind_index_of a = kind_index_of b \<longleftrightarrow> a = b"
  "size_index_of c = size_index_of d \<longleftrightarrow> c = d"
  "difficulty_index_of e = difficulty_index_of f \<longleftrightarrow> e = f"
  "verify_index_of g = verify_index_of h \<longleftrightarrow> g = h"
  "spec_index_of i = spec_index_of j \<longleftrightarrow> i = j"
  by (cases a; cases b; simp add: kind_index_of_def) (cases c; cases d; simp add: size_index_of_def |
    cases e; cases f; simp add: difficulty_index_of_def | cases g; cases h; simp add: verify_index_of_def |
    cases i; cases j; simp add: spec_index_of_def)+

instantiation task_kind :: linorder
begin
definition less_eq_task_kind where "less_eq_task_kind (a :: task_kind) b \<longleftrightarrow> kind_index_of a \<le> kind_index_of b"
definition less_task_kind where "less_task_kind (a :: task_kind) b \<longleftrightarrow> kind_index_of a < kind_index_of b"
instance by standard (auto simp: less_eq_task_kind_def less_task_kind_def)
end

instantiation task_size :: linorder
begin
definition less_eq_task_size where "less_eq_task_size (a :: task_size) b \<longleftrightarrow> size_index_of a \<le> size_index_of b"
definition less_task_size where "less_task_size (a :: task_size) b \<longleftrightarrow> size_index_of a < size_index_of b"
instance by standard (auto simp: less_eq_task_size_def less_task_size_def)
end

instantiation task_difficulty :: linorder
begin
definition less_eq_task_difficulty where
  "less_eq_task_difficulty (a :: task_difficulty) b \<longleftrightarrow> difficulty_index_of a \<le> difficulty_index_of b"
definition less_task_difficulty where
  "less_task_difficulty (a :: task_difficulty) b \<longleftrightarrow> difficulty_index_of a < difficulty_index_of b"
instance by standard (auto simp: less_eq_task_difficulty_def less_task_difficulty_def)
end

instantiation task_verify :: linorder
begin
definition less_eq_task_verify where "less_eq_task_verify (a :: task_verify) b \<longleftrightarrow> verify_index_of a \<le> verify_index_of b"
definition less_task_verify where "less_task_verify (a :: task_verify) b \<longleftrightarrow> verify_index_of a < verify_index_of b"
instance by standard (auto simp: less_eq_task_verify_def less_task_verify_def)
end

instantiation task_spec :: linorder
begin
definition less_eq_task_spec where "less_eq_task_spec (a :: task_spec) b \<longleftrightarrow> spec_index_of a \<le> spec_index_of b"
definition less_task_spec where "less_task_spec (a :: task_spec) b \<longleftrightarrow> spec_index_of a < spec_index_of b"
instance by standard (auto simp: less_eq_task_spec_def less_task_spec_def)
end

section \<open>Candidates\<close>

datatype task_origin = TrackerField string | TrackerLabel string

definition origin_rank :: "task_origin \<Rightarrow> nat" where
  "origin_rank o' = (case o' of TrackerField _ \<Rightarrow> 1 | TrackerLabel _ \<Rightarrow> 2)"

definition provenance_id :: "task_origin \<Rightarrow> string" where
  "provenance_id o' =
     (case o' of TrackerField f \<Rightarrow> ''tracker_field:'' @ f | TrackerLabel l \<Rightarrow> ''tracker_label:'' @ l)"

definition from_provenance_id :: "string \<Rightarrow> task_origin option" where
  "from_provenance_id raw =
     (case split_once (CHR '':'') raw of
        None \<Rightarrow> None
      | Some (tag, detail) \<Rightarrow>
          if tag = ''tracker_field'' then Some (TrackerField detail)
          else if tag = ''tracker_label'' then Some (TrackerLabel detail)
          else None)"

record task_candidate =
  tc_task :: task_id
  tc_origin :: task_origin
  tc_raw :: string

record tracker_task =
  tt_native :: string
  tt_issue_type :: string
  tt_labels :: "string list"

definition emit_task_kind_candidates :: "string \<Rightarrow> tracker_task \<Rightarrow> task_candidate list" where
  "emit_task_kind_candidates tracker_source r =
     (let task = \<lparr>ti_source = tracker_source, ti_native = tt_native r\<rparr>
      in \<lparr>tc_task = task, tc_origin = TrackerField ''issue_type'', tc_raw = tt_issue_type r\<rparr> #
         map (\<lambda>label. \<lparr>tc_task = task, tc_origin = TrackerLabel label, tc_raw = label\<rparr>) (tt_labels r))"

section \<open>The versioned mapping\<close>

datatype mapping_error = VersionZero | PaddedRaw string string

record task_mapping =
  tm_version :: u32
  tm_entries :: "(string, task_kind) omap"
  tm_sizes :: "(string, task_size) omap"
  tm_difficulties :: "(string, task_difficulty) omap"

definition validate_mapping_raw :: "string \<Rightarrow> string \<Rightarrow> mapping_error + unit" where
  "validate_mapping_raw axis raw = (if raw = [] \<or> trim raw \<noteq> raw then Inl (PaddedRaw axis raw) else Inr ())"

fun validate_walk :: "string \<Rightarrow> (string, 'v) omap \<Rightarrow> (string \<times> 'v) list \<Rightarrow> mapping_error + (string, 'v) omap" where
  "validate_walk axis table [] = Inr table"
| "validate_walk axis table ((raw, v) # rest) =
     and_then (validate_mapping_raw axis raw) (\<lambda>_. validate_walk axis (om_insert raw v table) rest)"

definition validate_mapping_entries :: "string \<Rightarrow> (string \<times> 'v) list \<Rightarrow> mapping_error + (string, 'v) omap" where
  "validate_mapping_entries axis entries = validate_walk axis [] entries"

definition mapping_with_entries ::
    "u32 \<Rightarrow> (string \<times> task_kind) list \<Rightarrow> (string \<times> task_size) list \<Rightarrow> (string \<times> task_difficulty) list \<Rightarrow>
     mapping_error + task_mapping" where
  "mapping_with_entries version entries sizes difficulties =
     (if version = 0 then Inl VersionZero
      else and_then (validate_mapping_entries ''task-kind'' entries) (\<lambda>table.
           and_then (validate_mapping_entries ''task-size'' sizes) (\<lambda>size_table.
           and_then (validate_mapping_entries ''task-difficulty'' difficulties) (\<lambda>difficulty_table.
             Inr \<lparr>tm_version = version, tm_entries = table, tm_sizes = size_table,
                  tm_difficulties = difficulty_table\<rparr>))))"

definition default_size_entries :: "(string \<times> task_size) list" where
  "default_size_entries = map (\<lambda>s. (size_label s, s)) [S, M, L, XL]"

definition default_difficulty_entries :: "(string \<times> task_difficulty) list" where
  "default_difficulty_entries = map (\<lambda>d. (difficulty_label d, d)) [Mechanical, Reasoning, Critical]"

definition mapping_new :: "u32 \<Rightarrow> (string \<times> task_kind) list \<Rightarrow> mapping_error + task_mapping" where
  "mapping_new version entries = mapping_with_entries version entries default_size_entries default_difficulty_entries"

definition default_v1 :: "mapping_error + task_mapping" where
  "default_v1 = mapping_new 1
     [(''task'', Task), (''epic'', Epic), (''bug'', Bug), (''docs'', Docs), (''question'', Question)]"

definition normalize_kind :: "task_mapping \<Rightarrow> string \<Rightarrow> task_kind option" where
  "normalize_kind m raw = om_get (tm_entries m) raw"

definition normalize_size :: "task_mapping \<Rightarrow> string \<Rightarrow> task_size option" where
  "normalize_size m raw = om_get (tm_sizes m) raw"

definition normalize_difficulty :: "task_mapping \<Rightarrow> string \<Rightarrow> task_difficulty option" where
  "normalize_difficulty m raw = om_get (tm_difficulties m) raw"

definition normalize_verify :: "task_mapping \<Rightarrow> string \<Rightarrow> task_verify option" where
  "normalize_verify m raw = (case strip_prefix ''verify:'' raw of None \<Rightarrow> None | Some r \<Rightarrow> verify_parse r)"

definition normalize_spec :: "task_mapping \<Rightarrow> string \<Rightarrow> task_spec option" where
  "normalize_spec m raw = (case strip_prefix ''spec:'' raw of None \<Rightarrow> None | Some r \<Rightarrow> spec_parse r)"

definition with_size_entry :: "task_mapping \<Rightarrow> u32 \<Rightarrow> string \<Rightarrow> task_size \<Rightarrow> mapping_error + task_mapping" where
  "with_size_entry m version raw s =
     and_then (validate_mapping_raw ''task-size'' raw) (\<lambda>_.
       if version = 0 then Inl VersionZero
       else Inr (m\<lparr>tm_version := version, tm_sizes := om_insert raw s (tm_sizes m)\<rparr>))"

definition with_difficulty_entry ::
    "task_mapping \<Rightarrow> u32 \<Rightarrow> string \<Rightarrow> task_difficulty \<Rightarrow> mapping_error + task_mapping" where
  "with_difficulty_entry m version raw d =
     and_then (validate_mapping_raw ''task-difficulty'' raw) (\<lambda>_.
       if version = 0 then Inl VersionZero
       else Inr (m\<lparr>tm_version := version, tm_difficulties := om_insert raw d (tm_difficulties m)\<rparr>))"

section \<open>Resolution\<close>

text \<open>The four resolved types of the code differ in the type of the value and in whether a winner is kept.\<close>

datatype 'v resolved = Resolved 'v task_origin string | UnknownIdentity string | ConflictIdentity string
datatype 'v routing_axis = RoutingResolved 'v string | RoutingUnknown string | RoutingConflict string
datatype identity_state = StateResolved | StateUnknown | StateConflict

definition resolved_state :: "'v resolved \<Rightarrow> identity_state" where
  "resolved_state r =
     (case r of Resolved _ _ _ \<Rightarrow> StateResolved | UnknownIdentity _ \<Rightarrow> StateUnknown | ConflictIdentity _ \<Rightarrow> StateConflict)"

definition routing_state :: "'v routing_axis \<Rightarrow> identity_state" where
  "routing_state r =
     (case r of RoutingResolved _ _ \<Rightarrow> StateResolved | RoutingUnknown _ \<Rightarrow> StateUnknown | RoutingConflict _ \<Rightarrow> StateConflict)"

definition state_label :: "identity_state \<Rightarrow> string" where
  "state_label s =
     (case s of StateResolved \<Rightarrow> ''resolved'' | StateUnknown \<Rightarrow> ''unknown'' | StateConflict \<Rightarrow> ''conflict'')"

definition state_parse :: "string \<Rightarrow> identity_state option" where
  "state_parse label =
     (if label = ''resolved'' then Some StateResolved else if label = ''unknown'' then Some StateUnknown
      else if label = ''conflict'' then Some StateConflict else None)"

definition is_classification_label :: "string \<Rightarrow> bool" where
  "is_classification_label raw \<longleftrightarrow>
     list_ex (\<lambda>p. starts_with p raw) [''size:'', ''difficulty:'', ''verify:'', ''spec:''] \<or> raw = ''critical''"

definition render_evidence :: "task_candidate list \<Rightarrow> string" where
  "render_evidence candidates =
     join '';'' (remdups_adj (sort (map (\<lambda>c. provenance_id (tc_origin c) @ ''='' @ tc_raw c) candidates)))"

definition first_origin :: "task_origin list \<Rightarrow> task_origin option" where
  "first_origin origins = first_best (\<lambda>a b. provenance_id a < provenance_id b) origins"

definition asserted_kinds :: "task_candidate list \<Rightarrow> task_mapping \<Rightarrow> (nat \<times> task_kind) list" where
  "asserted_kinds candidates m =
     List.map_filter (\<lambda>c. map_option (\<lambda>k. (origin_rank (tc_origin c), k)) (normalize_kind m (tc_raw c)))
       (filter (\<lambda>c. \<not> is_classification_label (tc_raw c)) candidates)"

text \<open>The winner's \<open>expect\<close> is the value \<open>None\<close>.\<close>

definition resolve_task_kind :: "task_candidate list \<Rightarrow> task_mapping \<Rightarrow> task_kind resolved option" where
  "resolve_task_kind candidates m =
     (let evidence = render_evidence candidates
      in case sort (asserted_kinds candidates m) of
           [] \<Rightarrow> Some (UnknownIdentity evidence)
         | (winning_rank, k) # rest \<Rightarrow>
             (case remdups_adj (map snd (filter (\<lambda>(r, _). r = winning_rank) ((winning_rank, k) # rest))) of
                [v] \<Rightarrow>
                  map_option (\<lambda>w. Resolved v w evidence)
                    (first_origin (map tc_origin (filter (\<lambda>c. origin_rank (tc_origin c) = winning_rank \<and>
                       normalize_kind m (tc_raw c) = Some v) candidates)))
              | _ \<Rightarrow> Some (ConflictIdentity evidence)))"

text \<open>
  \<open>resolve_task_size\<close> and \<open>resolve_task_difficulty\<close> are one body over two vocabularies.
\<close>

definition resolve_labels ::
    "string \<Rightarrow> (string \<Rightarrow> 'v::linorder option) \<Rightarrow> task_candidate list \<Rightarrow> 'v resolved option" where
  "resolve_labels prefix reads candidates =
     (let relevant = filter (\<lambda>c. (case tc_origin c of TrackerLabel _ \<Rightarrow> True | TrackerField _ \<Rightarrow> False) \<and>
                         starts_with prefix (tc_raw c)) candidates;
          evidence = render_evidence relevant;
          asserted = sort_key (\<lambda>(v, o'). (v, provenance_id o'))
            (List.map_filter (\<lambda>c. map_option (\<lambda>v. (v, tc_origin c)) (reads (tc_raw c))) relevant)
      in case asserted of
           [] \<Rightarrow> Some (UnknownIdentity evidence)
         | (winning, _) # _ \<Rightarrow>
             if length (remdups (map fst asserted)) > 1 then Some (ConflictIdentity evidence)
             else map_option (\<lambda>w. Resolved winning w evidence)
                    (first_origin (map snd (filter (\<lambda>(v, _). v = winning) asserted))))"

definition resolve_task_size :: "task_candidate list \<Rightarrow> task_mapping \<Rightarrow> task_size resolved option" where
  "resolve_task_size candidates m = resolve_labels ''size:'' (normalize_size m) candidates"

definition resolve_task_difficulty :: "task_candidate list \<Rightarrow> task_mapping \<Rightarrow> task_difficulty resolved option" where
  "resolve_task_difficulty candidates m = resolve_labels ''difficulty:'' (normalize_difficulty m) candidates"

definition resolve_task_routing_axis ::
    "task_candidate list \<Rightarrow> string \<Rightarrow> (string \<Rightarrow> 'v::linorder option) \<Rightarrow> 'v routing_axis" where
  "resolve_task_routing_axis candidates prefix reads =
     (let relevant = filter (\<lambda>c. (case tc_origin c of TrackerLabel _ \<Rightarrow> True | TrackerField _ \<Rightarrow> False) \<and>
                         starts_with prefix (tc_raw c)) candidates;
          evidence = render_evidence relevant;
          asserted = remdups (List.map_filter (\<lambda>c. reads (tc_raw c)) relevant)
      in if length asserted > 1 then RoutingConflict evidence
         else case sort asserted of [] \<Rightarrow> RoutingUnknown evidence | v # _ \<Rightarrow> RoutingResolved v evidence)"

definition resolve_task_verify :: "task_candidate list \<Rightarrow> task_mapping \<Rightarrow> task_verify routing_axis" where
  "resolve_task_verify candidates m = resolve_task_routing_axis candidates ''verify:'' (normalize_verify m)"

definition resolve_task_spec :: "task_candidate list \<Rightarrow> task_mapping \<Rightarrow> task_spec routing_axis" where
  "resolve_task_spec candidates m = resolve_task_routing_axis candidates ''spec:'' (normalize_spec m)"

end
