(* ===== verification/Task_Identity_Laws.thy ===== *)
theory Task_Identity_Laws
  imports Task_Identity
begin

text \<open>
  What task identity promises: codes and provenance read back, the resolutions depend on the set of candidates and
  not on their order, a winner is named exactly when the best rank agrees, and a mapping reads what it was given.
\<close>

section \<open>Codes\<close>

lemma task_codes_roundtrip:
  "kind_parse (kind_as_str k) = Some k"
  "size_parse (size_as_str s) = Some s" "size_parse (size_label s) = Some s"
  "difficulty_parse (difficulty_as_str d) = Some d" "difficulty_parse (difficulty_label d) = Some d"
  "verify_parse (verify_as_str v) = Some v" "spec_parse (spec_as_str c) = Some c"
  "state_parse (state_label i) = Some i"
  by (cases k; simp add: kind_parse_def kind_as_str_def)
    (cases s; simp add: size_parse_def size_as_str_def size_label_def |
     cases d; simp add: difficulty_parse_def difficulty_as_str_def difficulty_label_def |
     cases v; simp add: verify_parse_def verify_as_str_def | cases c; simp add: spec_parse_def spec_as_str_def |
     cases i; simp add: state_parse_def state_label_def)+

lemma provenance_roundtrip: "from_provenance_id (provenance_id w) = Some w"
proof -
  have "split_once (CHR '':'') (''tracker_field'' @ CHR '':'' # s) = Some (''tracker_field'', s)"
    "split_once (CHR '':'') (''tracker_label'' @ CHR '':'' # s) = Some (''tracker_label'', s)" for s
    by (rule split_once_append; simp)+
  then show ?thesis by (cases w) (simp_all add: from_provenance_id_def provenance_id_def)
qed

lemma provenance_inject [simp]: "provenance_id v = provenance_id w \<longleftrightarrow> v = w"
  by (metis option.inject provenance_roundtrip)

text \<open>
  A persisted origin reads back as the origin it was written from, so two origins never share an identifier.
\<close>

theorem origins_read_back:
  "from_provenance_id (provenance_id v) = Some v \<and> (provenance_id v = provenance_id w \<longleftrightarrow> v = w)"
  by (simp add: provenance_roundtrip)

section \<open>Choices that ignore order\<close>

lemma first_origin_Some:
  "first_origin ws = Some w \<longleftrightarrow> w \<in> set ws \<and> (\<forall>v\<in>set ws. provenance_id w \<le> provenance_id v)"
proof
  assume "first_origin ws = Some w"
  then show "w \<in> set ws \<and> (\<forall>v\<in>set ws. provenance_id w \<le> provenance_id v)"
    unfolding first_origin_def using first_best_in least.unbeaten [of provenance_id ws w] by (force simp: not_less)
next
  assume w: "w \<in> set ws \<and> (\<forall>v\<in>set ws. provenance_id w \<le> provenance_id v)"
  then have "ws \<noteq> []" by auto
  then obtain v where v: "first_origin ws = Some v" by (cases "first_origin ws") (simp_all add: first_origin_def)
  then have "v \<in> set ws" "provenance_id v \<le> provenance_id w"
    using w first_best_in least.unbeaten [of provenance_id ws v] unfolding first_origin_def by (force simp: not_less)+
  then have "v = w" using w by (metis order_antisym provenance_inject)
  then show "first_origin ws = Some w" using v by simp
qed

lemma first_origin_set: "set ws = set vs \<Longrightarrow> first_origin ws = first_origin vs"
  by (metis first_origin_Some option.exhaust)

lemma first_origin_None [simp]: "first_origin ws = None \<longleftrightarrow> ws = []"
  by (simp add: first_origin_def)

lemma render_evidence_set: "set cs = set ds \<Longrightarrow> render_evidence cs = render_evidence ds"
  unfolding render_evidence_def by (rule arg_cong [where f = "join '';''"], rule remdups_adj_sort_set) simp

section \<open>Kinds\<close>

text \<open>The kinds asserted at each rank, and the origins that assert a kind at a rank.\<close>

definition asserts :: "task_candidate list \<Rightarrow> task_mapping \<Rightarrow> (nat \<times> task_kind) set" where
  "asserts cs m = {(origin_rank (tc_origin c), k) |c k.
     c \<in> set cs \<and> \<not> is_classification_label (tc_raw c) \<and> normalize_kind m (tc_raw c) = Some k}"

lemma set_asserted: "set (asserted_kinds cs m) = asserts cs m"
  by (force simp: asserted_kinds_def asserts_def map_filter_def)

lemma snd_sorted:
  fixes ps :: "(nat \<times> 'v::linorder) list"
  shows "sorted ps \<Longrightarrow> sorted (map snd (filter (\<lambda>(r, _). r = w) ps))"
  by (induction ps) (auto simp: less_eq_prod_def)

lemma distinct_single: "distinct xs \<Longrightarrow> set xs = {v} \<longleftrightarrow> xs = [v]"
  by (cases xs) (auto simp: subset_singleton_iff)

lemma kind_resolution:
  fixes cs :: "task_candidate list" and m :: task_mapping
  defines "ranks \<equiv> fst ` asserts cs m"
  defines "kinds \<equiv> {k. (Min ranks, k) \<in> asserts cs m}"
  shows "(resolve_task_kind cs m = Some (UnknownIdentity ev) \<longleftrightarrow> asserts cs m = {} \<and> ev = render_evidence cs) \<and>
    (resolve_task_kind cs m = Some (ConflictIdentity ev) \<longleftrightarrow> 1 < card kinds \<and> ev = render_evidence cs) \<and>
    (resolve_task_kind cs m = Some (Resolved k w ev) \<longleftrightarrow> kinds = {k} \<and> asserts cs m \<noteq> {} \<and> ev = render_evidence cs \<and>
       first_origin (map tc_origin (filter (\<lambda>c. origin_rank (tc_origin c) = Min ranks \<and>
         normalize_kind m (tc_raw c) = Some k) cs)) = Some w) \<and>
    resolve_task_kind cs m \<noteq> None"
proof (cases "sort (asserted_kinds cs m)")
  case Nil
  then have none: "asserts cs m = {}" using set_asserted [of cs m] by (metis list.set(1) set_sort)
  then show ?thesis using Nil by (auto simp: resolve_task_kind_def kinds_def)
next
  case (Cons p rest)
  obtain r k0 where p: "p = (r, k0)" by (cases p)
  let ?S = "sort (asserted_kinds cs m)"
  have A: "set ?S = asserts cs m" by (simp add: set_asserted)
  have "p \<in> asserts cs m" using Cons A by (metis list.set_intros(1))
  moreover have "r \<le> fst q" if "q \<in> asserts cs m" for q
  proof -
    have "p \<le> q" using that Cons A sorted_sort [of "asserted_kinds cs m"] by (cases "q = p") auto
    then show ?thesis using p by (auto simp: less_eq_prod_def)
  qed
  moreover have fin: "finite (asserts cs m)" using A by (metis List.finite_set)
  ultimately have "Min ranks = r"
    unfolding ranks_def using p by (intro Min_eqI) (auto intro: rev_image_eqI)
  then have r: "Min ranks = r" "asserts cs m \<noteq> {}" using \<open>p \<in> asserts cs m\<close> by auto
  let ?vs = "remdups_adj (map snd (filter (\<lambda>(q, _). q = r) ?S))"
  have "set ?vs = snd ` {q \<in> asserts cs m. fst q = r}"
    by (simp add: set_asserted case_prod_beta)
  also have "\<dots> = kinds" unfolding kinds_def r(1) by force
  finally have vs: "set ?vs = kinds" "distinct ?vs"
    by (simp_all only: distinct_remdups_adj snd_sorted sorted_sort)
  have "k0 \<in> set ?vs" unfolding vs(1) kinds_def r(1) using \<open>p \<in> asserts cs m\<close> p by simp
  then have nonempty: "?vs \<noteq> []" by (metis empty_iff list.set(1))
  have run: "resolve_task_kind cs m =
      (case ?vs of
         [v] \<Rightarrow> map_option (\<lambda>w. Resolved v w (render_evidence cs))
                  (first_origin (map tc_origin (filter (\<lambda>c. origin_rank (tc_origin c) = r \<and>
                     normalize_kind m (tc_raw c) = Some v) cs)))
       | _ \<Rightarrow> Some (ConflictIdentity (render_evidence cs)))"
    unfolding resolve_task_kind_def Let_def Cons p by simp
  show ?thesis
  proof (cases "\<exists>v. ?vs = [v]")
    case True
    then obtain v where v: "?vs = [v]" by blast
    then have K: "kinds = {v}" using vs(1) by simp
    then have "(r, v) \<in> asserts cs m" using r(1) by (auto simp: kinds_def)
    then obtain c where "c \<in> set cs" "origin_rank (tc_origin c) = r" "normalize_kind m (tc_raw c) = Some v"
      by (auto simp: asserts_def)
    then have "first_origin (map tc_origin (filter (\<lambda>c. origin_rank (tc_origin c) = r \<and>
        normalize_kind m (tc_raw c) = Some v) cs)) \<noteq> None" by (auto simp: filter_empty_conv)
    then show ?thesis using r K unfolding run v by auto
  next
    case False
    then obtain a b rest' where "?vs = a # b # rest'" using nonempty by (metis neq_Nil_conv)
    moreover from this have "1 < card kinds" using vs distinct_card [OF vs(2)] by simp
    ultimately show ?thesis using r unfolding run by auto
  qed
qed

text \<open>
  The kind of a task is resolved exactly when the assertions of the best rank agree on it, and then names the least
  origin that asserts it; it is unknown exactly when nothing asserts a kind and a conflict otherwise. No input makes
  the resolution fail.
\<close>

theorem kind_resolution_characterised:
  fixes cs :: "task_candidate list" and m :: task_mapping
  defines "ranks \<equiv> fst ` asserts cs m"
  defines "kinds \<equiv> {k. (Min ranks, k) \<in> asserts cs m}"
  shows "(resolve_task_kind cs m = Some (UnknownIdentity ev) \<longleftrightarrow> asserts cs m = {} \<and> ev = render_evidence cs) \<and>
    (resolve_task_kind cs m = Some (ConflictIdentity ev) \<longleftrightarrow> 1 < card kinds \<and> ev = render_evidence cs) \<and>
    (resolve_task_kind cs m = Some (Resolved k w ev) \<longleftrightarrow> kinds = {k} \<and> asserts cs m \<noteq> {} \<and> ev = render_evidence cs \<and>
       first_origin (map tc_origin (filter (\<lambda>c. origin_rank (tc_origin c) = Min ranks \<and>
         normalize_kind m (tc_raw c) = Some k) cs)) = Some w) \<and>
    resolve_task_kind cs m \<noteq> None"
  unfolding ranks_def kinds_def by (rule kind_resolution)

section \<open>Labels\<close>

definition is_label :: "string \<Rightarrow> task_candidate \<Rightarrow> bool" where
  "is_label prefix c \<longleftrightarrow> (\<exists>l. tc_origin c = TrackerLabel l) \<and> starts_with prefix (tc_raw c)"

lemma label_filter:
  "(case tc_origin c of TrackerLabel _ \<Rightarrow> True | TrackerField _ \<Rightarrow> False) \<and> starts_with prefix (tc_raw c) \<longleftrightarrow> is_label prefix c"
  by (simp add: is_label_def split: task_origin.split)

definition label_values :: "string \<Rightarrow> (string \<Rightarrow> 'v option) \<Rightarrow> task_candidate list \<Rightarrow> 'v set" where
  "label_values prefix reads cs = {v. \<exists>c\<in>set cs. is_label prefix c \<and> reads (tc_raw c) = Some v}"

lemma labels_resolved:
  fixes reads :: "string \<Rightarrow> 'v::linorder option"
  shows "resolve_labels prefix reads cs =
    (if label_values prefix reads cs = {} then Some (UnknownIdentity (render_evidence (filter (is_label prefix) cs)))
     else if card (label_values prefix reads cs) \<noteq> 1 then Some (ConflictIdentity (render_evidence (filter (is_label prefix) cs)))
     else map_option (\<lambda>w. Resolved (the_elem (label_values prefix reads cs)) w (render_evidence (filter (is_label prefix) cs)))
       (first_origin (map tc_origin (filter (\<lambda>c. is_label prefix c \<and> reads (tc_raw c) = Some (the_elem (label_values prefix reads cs))) cs))))"
proof -
  let ?A = "sort_key (\<lambda>(v, o'). (v, provenance_id o'))
      (List.map_filter (\<lambda>c. map_option (\<lambda>v. (v, tc_origin c)) (reads (tc_raw c))) (filter (is_label prefix) cs))"
  have A: "set ?A = {(v, tc_origin c) |v c. c \<in> set cs \<and> is_label prefix c \<and> reads (tc_raw c) = Some v}"
    by (force simp: map_filter_def)
  have valued: "set (map fst ?A) = label_values prefix reads cs" using A by (auto simp: label_values_def image_iff)
  have run: "resolve_labels prefix reads cs =
     (case ?A of
        [] \<Rightarrow> Some (UnknownIdentity (render_evidence (filter (is_label prefix) cs)))
      | (v, _) # _ \<Rightarrow>
          if length (remdups (map fst ?A)) > 1 then Some (ConflictIdentity (render_evidence (filter (is_label prefix) cs)))
          else map_option (\<lambda>w. Resolved v w (render_evidence (filter (is_label prefix) cs)))
                 (first_origin (map snd (filter (\<lambda>(u, _). u = v) ?A))))"
    by (simp only: resolve_labels_def label_filter Let_def)
  have count: "length (remdups (map fst ?A)) = card (label_values prefix reads cs)"
    unfolding length_remdups_card_conv valued ..
  show ?thesis
  proof (cases ?A)
    case Nil
    then have "label_values prefix reads cs = {}" using valued [unfolded Nil] by simp
    then show ?thesis using run [unfolded Nil] by simp
  next
    case (Cons p rest)
    obtain v w where p: "p = (v, w)" by (cases p)
    have v: "v \<in> label_values prefix reads cs" using valued [unfolded Cons p] by auto
    have fin: "finite (label_values prefix reads cs)" unfolding valued [symmetric] by (rule List.finite_set)
    show ?thesis
    proof (cases "card (label_values prefix reads cs) = 1")
      case True
      then have one: "label_values prefix reads cs = {v}" using v by (auto simp: card_1_singleton_iff)
      have "set (map snd (filter (\<lambda>(u, _). u = v) ?A)) =
          set (map tc_origin (filter (\<lambda>c. is_label prefix c \<and> reads (tc_raw c) = Some v) cs))"
        using A by force
      then have "first_origin (map snd (filter (\<lambda>(u, _). u = v) ?A)) =
          first_origin (map tc_origin (filter (\<lambda>c. is_label prefix c \<and> reads (tc_raw c) = Some v) cs))"
        by (rule first_origin_set)
      from this [unfolded Cons p] show ?thesis using run [unfolded Cons p] count [unfolded Cons p] one by simp
    next
      case False
      moreover have "card (label_values prefix reads cs) \<noteq> 0" using v fin by auto
      ultimately have "1 < card (label_values prefix reads cs)" by linarith
      then show ?thesis using run [unfolded Cons p] count [unfolded Cons p] v by auto
    qed
  qed
qed

lemma routing_resolved:
  fixes reads :: "string \<Rightarrow> 'v::linorder option"
  shows "resolve_task_routing_axis cs prefix reads =
    (if label_values prefix reads cs = {} then RoutingUnknown (render_evidence (filter (is_label prefix) cs))
     else if card (label_values prefix reads cs) \<noteq> 1 then RoutingConflict (render_evidence (filter (is_label prefix) cs))
     else RoutingResolved (the_elem (label_values prefix reads cs)) (render_evidence (filter (is_label prefix) cs)))"
proof -
  let ?A = "remdups (List.map_filter (\<lambda>c. reads (tc_raw c)) (filter (is_label prefix) cs))"
  have A: "set ?A = label_values prefix reads cs" by (force simp: map_filter_def label_values_def)
  then have count: "length ?A = card (label_values prefix reads cs)" by (metis distinct_card distinct_remdups)
  have run: "resolve_task_routing_axis cs prefix reads =
     (if length ?A > 1 then RoutingConflict (render_evidence (filter (is_label prefix) cs))
      else case sort ?A of [] \<Rightarrow> RoutingUnknown (render_evidence (filter (is_label prefix) cs))
           | v # _ \<Rightarrow> RoutingResolved v (render_evidence (filter (is_label prefix) cs)))"
    by (simp only: resolve_task_routing_axis_def label_filter Let_def)
  show ?thesis
  proof (cases ?A)
    case Nil
    then show ?thesis using run A by simp
  next
    case (Cons v rest)
    then show ?thesis
    proof (cases rest)
      case Nil
      then have "label_values prefix reads cs = {v}" using A Cons by simp
      then show ?thesis using run Cons Nil by simp
    next
      case (Cons u us)
      then have "1 < card (label_values prefix reads cs)" using count \<open>?A = v # rest\<close> by simp
      then show ?thesis using run count A by auto
    qed
  qed
qed

text \<open>
  Every axis of a task's identity is a function of the set of its candidates: their order and their repetition change
  neither the state, nor the value, nor the winner, nor the evidence that is stored.
\<close>

theorem identity_ignores_candidate_order:
  assumes "set cs = set ds"
  shows "resolve_task_kind cs m = resolve_task_kind ds m \<and> resolve_task_size cs m = resolve_task_size ds m \<and>
    resolve_task_difficulty cs m = resolve_task_difficulty ds m \<and>
    resolve_task_verify cs m = resolve_task_verify ds m \<and> resolve_task_spec cs m = resolve_task_spec ds m"
proof -
  have kind: "asserts cs m = asserts ds m" by (simp add: asserts_def assms)
  have origins: "first_origin (map tc_origin (filter P cs)) = first_origin (map tc_origin (filter P ds))" for P
    by (rule first_origin_set) (simp add: assms)
  have evidence: "render_evidence (filter P cs) = render_evidence (filter P ds)" for P
    by (rule render_evidence_set) (simp add: assms)
  have vals: "label_values prefix reads cs = label_values prefix reads ds" for prefix and reads :: "string \<Rightarrow> 'v option"
    by (simp add: label_values_def assms)
  have labels: "resolve_labels prefix reads cs = resolve_labels prefix reads ds"
    for prefix and reads :: "string \<Rightarrow> 'v::linorder option"
    unfolding labels_resolved origins evidence vals ..
  have routing: "resolve_task_routing_axis cs prefix reads = resolve_task_routing_axis ds prefix reads"
    for prefix and reads :: "string \<Rightarrow> 'v::linorder option"
    unfolding routing_resolved evidence vals ..
  have "resolve_task_kind cs m = Some x \<longleftrightarrow> resolve_task_kind ds m = Some x" for x
  proof (cases x)
    case (Resolved k w ev)
    show ?thesis unfolding Resolved kind_resolution [THEN conjunct2, THEN conjunct2, THEN conjunct1]
        kind origins render_evidence_set [OF assms] ..
  next
    case (UnknownIdentity ev)
    show ?thesis unfolding UnknownIdentity kind_resolution [THEN conjunct1] kind render_evidence_set [OF assms] ..
  next
    case (ConflictIdentity ev)
    show ?thesis unfolding ConflictIdentity kind_resolution [THEN conjunct2, THEN conjunct1]
        kind render_evidence_set [OF assms] ..
  qed
  then have "resolve_task_kind cs m = resolve_task_kind ds m" by (metis option.exhaust)
  then show ?thesis
    by (simp add: resolve_task_size_def resolve_task_difficulty_def resolve_task_verify_def resolve_task_spec_def
        labels routing)
qed

definition sample_candidate :: "task_origin \<Rightarrow> string \<Rightarrow> task_candidate" where
  "sample_candidate w raw = \<lparr>tc_task = \<lparr>ti_source = ''beads'', ti_native = ''1''\<rparr>, tc_origin = w, tc_raw = raw\<rparr>"

definition sample_mapping :: task_mapping where
  "sample_mapping = \<lparr>tm_version = 1, tm_entries = [(''bug'', Bug), (''task'', Task)],
     tm_sizes = [(''size:M'', M)], tm_difficulties = []\<rparr>"

theorem identity_ignores_candidate_order_witness:
  "resolve_task_size [sample_candidate (TrackerField ''issue_type'') ''bug'', sample_candidate (TrackerLabel ''size:M'') ''size:M'']
     sample_mapping =
   resolve_task_size [sample_candidate (TrackerLabel ''size:M'') ''size:M'', sample_candidate (TrackerField ''issue_type'') ''bug'',
     sample_candidate (TrackerLabel ''size:M'') ''size:M''] sample_mapping"
  using identity_ignores_candidate_order
    [of "[sample_candidate (TrackerField ''issue_type'') ''bug'', sample_candidate (TrackerLabel ''size:M'') ''size:M'']"
      "[sample_candidate (TrackerLabel ''size:M'') ''size:M'', sample_candidate (TrackerField ''issue_type'') ''bug'',
        sample_candidate (TrackerLabel ''size:M'') ''size:M'']" sample_mapping] by auto

section \<open>The mapping\<close>

definition clean_raw :: "string \<Rightarrow> bool" where
  "clean_raw raw \<longleftrightarrow> raw \<noteq> [] \<and> trim raw = raw"

lemma validate_walk_eq:
  "validate_walk axis t es =
     (case find (\<lambda>e. \<not> clean_raw (fst e)) es of
        Some e \<Rightarrow> Inl (PaddedRaw axis (fst e))
      | None \<Rightarrow> Inr (foldl (\<lambda>t (raw, v). om_insert raw v t) t es))"
  by (induction axis t es rule: validate_walk.induct) (auto simp: validate_mapping_raw_def clean_raw_def split: option.splits)

lemma foldl_insert_get: "om_get (foldl (\<lambda>t (raw, v). om_insert raw v t) t es) raw =
    (case map_of (rev es) raw of None \<Rightarrow> om_get t raw | Some v \<Rightarrow> Some v)"
  by (induction es arbitrary: t) (auto simp: map_add_def split: option.splits)

lemma find_None: "find P xs = None \<longleftrightarrow> (\<forall>x\<in>set xs. \<not> P x)"
  by (induction xs) auto

lemma mapping_entries:
  "((\<exists>m. mapping_with_entries version es ss ds = Inr m) \<longleftrightarrow>
      version \<noteq> 0 \<and> list_all clean_raw (map fst es @ map fst ss @ map fst ds)) \<and>
   (mapping_with_entries version es ss ds = Inr m \<longrightarrow>
      tm_version m = version \<and> normalize_kind m raw = map_of (rev es) raw \<and>
      normalize_size m raw = map_of (rev ss) raw \<and> normalize_difficulty m raw = map_of (rev ds) raw)"
proof -
  have walk: "(\<exists>t. validate_mapping_entries axis xs = Inr t) \<longleftrightarrow> list_all clean_raw (map fst xs)"
    "validate_mapping_entries axis xs = Inr t \<longrightarrow> om_get t raw = map_of (rev xs) raw" for axis t and xs :: "(string \<times> 'v) list"
    by (auto simp: validate_mapping_entries_def validate_walk_eq find_None find_Some_iff list_all_iff foldl_insert_get
        split: option.splits)
  show ?thesis
    by (cases "validate_mapping_entries ''task-kind'' es"; cases "validate_mapping_entries ''task-size'' ss";
        cases "validate_mapping_entries ''task-difficulty'' ds")
      (use walk(1) [of "''task-kind''" es] walk(1) [of "''task-size''" ss] walk(1) [of "''task-difficulty''" ds]
        walk(2) [of "''task-kind''" es] walk(2) [of "''task-size''" ss] walk(2) [of "''task-difficulty''" ds] in
       \<open>auto simp: mapping_with_entries_def normalize_kind_def normalize_size_def normalize_difficulty_def\<close>)
qed

text \<open>
  A mapping is built exactly from a positive version and raw values that are non-empty and unpadded on all three axes,
  and then reads each raw value as the last entry given for it.
\<close>

theorem mapping_reads_its_entries:
  "((\<exists>m. mapping_with_entries version es ss ds = Inr m) \<longleftrightarrow>
      version \<noteq> 0 \<and> list_all clean_raw (map fst es @ map fst ss @ map fst ds)) \<and>
   (mapping_with_entries version es ss ds = Inr m \<longrightarrow>
      tm_version m = version \<and> normalize_kind m raw = map_of (rev es) raw \<and>
      normalize_size m raw = map_of (rev ss) raw \<and> normalize_difficulty m raw = map_of (rev ds) raw)"
  by (rule mapping_entries)

lemma default_mapping_builds:
  "\<exists>m. default_v1 = Inr m"
proof -
  have "list_all clean_raw (map fst [(''task'', Task), (''epic'', Epic), (''bug'', Bug), (''docs'', Docs),
      (''question'', Question)] @ map fst default_size_entries @ map fst default_difficulty_entries)"
    by (simp add: clean_raw_def default_size_entries_def default_difficulty_entries_def size_label_def
        difficulty_label_def string_eval)
  then show ?thesis using mapping_entries by (simp add: default_v1_def mapping_new_def)
qed

section \<open>A winner that asserts nothing\<close>

text \<open>
  The winner is searched among all candidates of the winning rank, those that carry a classification label included:
  a mapping that also reads such a label names a candidate as winner that took no part in the decision.
\<close>

lemma winner_may_assert_nothing:
  fixes m :: task_mapping
  assumes "tm_entries m = [(''critical'', Bug), (''defect'', Bug)]"
  shows "\<exists>ev. resolve_task_kind
      [sample_candidate (TrackerLabel ''defect'') ''defect'', sample_candidate (TrackerLabel ''critical'') ''critical''] m =
      Some (Resolved Bug (TrackerLabel ''critical'') ev)"
    "is_classification_label ''critical''"
proof -
  show "is_classification_label ''critical''" by (simp add: is_classification_label_def)
  have labels: "\<not> is_classification_label ''defect''" by (simp add: is_classification_label_def starts_with_def)
  have "''tracker_label:critical'' < ''tracker_label:defect''" by code_simp
  then show "\<exists>ev. resolve_task_kind
      [sample_candidate (TrackerLabel ''defect'') ''defect'', sample_candidate (TrackerLabel ''critical'') ''critical''] m =
      Some (Resolved Bug (TrackerLabel ''critical'') ev)"
    using labels \<open>is_classification_label ''critical''\<close>
    by (simp add: resolve_task_kind_def asserted_kinds_def sample_candidate_def normalize_kind_def assms om_get_def
        origin_rank_def map_filter_simps first_origin_def provenance_id_def)
qed

end
