(* ===== verification/Buckets.thy ===== *)
theory Buckets
  imports Prelude
begin

text \<open>
  Totals kept per key in a hash map: the entry of a key is made from a start value the first time it is met and
  added to from then on. The map is a list of entries with distinct keys; the lemmas hold for every order of it.
\<close>

fun bucket_add :: "('v \<Rightarrow> 'v \<Rightarrow> 'v) \<Rightarrow> 'v \<Rightarrow> 'k \<Rightarrow> 'v \<Rightarrow> ('k \<times> 'v) list \<Rightarrow> ('k \<times> 'v) list" where
  "bucket_add combine zero_of k v [] = [(k, combine zero_of v)]"
| "bucket_add combine zero_of k v ((j, w) # rest) =
     (if j = k then (j, combine w v) # rest else (j, w) # bucket_add combine zero_of k v rest)"

lemma bucket_keys: "set (map fst (bucket_add combine zero_of k v bs)) = insert k (set (map fst bs))"
  by (induction combine zero_of k v bs rule: bucket_add.induct) auto

lemma bucket_distinct: "distinct (map fst bs) \<Longrightarrow> distinct (map fst (bucket_add combine zero_of k v bs))"
proof (induction combine zero_of k v bs rule: bucket_add.induct)
  case (2 combine zero_of k v j w rest)
  then show ?case using bucket_keys [of combine zero_of k v rest] by (cases "j = k") auto
qed simp

lemma bucket_get:
  "map_of (bucket_add combine zero_of k v bs) j =
     (if j = k then Some (combine (case map_of bs k of None \<Rightarrow> zero_of | Some w \<Rightarrow> w) v) else map_of bs j)"
  by (induction bs) auto

text \<open>Addition that is associative and commutative and absorbs its start value on the left of a sum.\<close>

locale bucket_sum = aggregation combine for combine :: "'v \<Rightarrow> 'v \<Rightarrow> 'v" +
  fixes zero_of :: 'v
  assumes absorb: "combine (combine zero_of x) y = combine x y"
begin

lemma fold_Cons: "foldl combine zero_of (w # vs) = combine (foldl combine zero_of vs) w"
proof -
  have "foldl combine zero_of (w # vs) = foldl combine (combine w zero_of) vs"
    by (simp add: combine_comm [of zero_of w])
  also have "\<dots> = combine w (foldl combine zero_of vs)" by (rule fold_step)
  finally show ?thesis by (simp only: combine_comm [of w])
qed

lemma fold_bucket_add:
  "foldl combine zero_of (map snd (bucket_add combine zero_of k v bs)) = combine (foldl combine zero_of (map snd bs)) v"
proof (induction bs)
  case Nil
  have "combine zero_of (combine zero_of v) = combine zero_of v"
    using absorb [of v zero_of] combine_comm [of zero_of v] combine_comm [of "combine zero_of v" zero_of] by simp
  then show ?case by simp
next
  case (Cons b bs)
  obtain j w where b: "b = (j, w)" by (cases b)
  let ?f = "foldl combine zero_of" and ?ws = "map snd bs"
  show ?case
  proof (cases "j = k")
    case True
    have "?f (map snd (bucket_add combine zero_of k v (b # bs))) = combine (?f ?ws) (combine w v)"
      using True by (simp add: b fold_Cons del: foldl.simps)
    also have "\<dots> = combine (?f (w # ?ws)) v" unfolding fold_Cons by (simp only: combine_assoc)
    finally show ?thesis by (simp add: b del: foldl.simps)
  next
    case False
    have "?f (map snd (bucket_add combine zero_of k v (b # bs))) = combine (combine (?f ?ws) v) w"
      using False Cons by (simp add: b fold_Cons del: foldl.simps)
    also have "\<dots> = combine (combine (?f ?ws) w) v" by (metis combine_assoc combine_comm)
    finally show ?thesis by (simp add: b fold_Cons del: foldl.simps)
  qed
qed

lemma fold_bucket_add_front:
  "foldl combine zero_of (map snd (bucket_add combine zero_of k v bs) @ vs) =
     combine (foldl combine zero_of (map snd bs @ vs)) v"
proof -
  let ?t = "foldl combine zero_of (map snd bs)"
  have "foldl combine (combine ?t v) vs = combine (foldl combine ?t vs) v"
    unfolding combine_comm [of ?t v] fold_step by (rule combine_comm)
  then show ?thesis by (simp add: fold_bucket_add)
qed

lemma fold_bucket_add_back:
  "foldl combine zero_of (vs @ map snd (bucket_add combine zero_of k v bs)) =
     combine (foldl combine zero_of (vs @ map snd bs)) v"
proof -
  have "foldl combine zero_of (vs @ ws) = foldl combine zero_of (ws @ vs)" for ws
    by (rule fold_order_irrelevant) simp
  then show ?thesis by (simp only: fold_bucket_add_front)
qed

lemma fold_perm: "mset vs = mset ws \<Longrightarrow> foldl combine zero_of vs = foldl combine zero_of ws"
  by (rule fold_order_irrelevant)

end

end
