(* ===== verification/Segments.thy ===== *)
theory Segments
  imports Buckets Events Token_Vectors Task_Identity
begin

text \<open>
  \<open>src/attribution/segment.rs\<close>: a session's usage windows placed on tasks by the claim and release events of
  the tracker, or in a named overhead bucket. A panic of the interval lookup is \<open>None\<close>; its hash maps are
  lists of entries, and the sets of one instant's tasks are lists without repetitions.
\<close>

section \<open>Reasons, boundaries and results\<close>

datatype overhead_reason =
  BeforeFirstClaim | AfterReleaseWithNoNextClaim | AmbiguousBoundary | MissingTimestamp | UnmappedSession
| TrackerUnavailable | Contended | UnclaimedSession

fun reason_as_str :: "overhead_reason \<Rightarrow> string" where
  "reason_as_str BeforeFirstClaim = ''before_first_claim''"
| "reason_as_str AfterReleaseWithNoNextClaim = ''after_release_with_no_next_claim''"
| "reason_as_str AmbiguousBoundary = ''ambiguous_boundary''"
| "reason_as_str MissingTimestamp = ''missing_timestamp''"
| "reason_as_str UnmappedSession = ''unmapped_session''"
| "reason_as_str TrackerUnavailable = ''tracker_unavailable''"
| "reason_as_str Contended = ''contended''"
| "reason_as_str UnclaimedSession = ''unclaimed_session''"

definition all_reasons :: "overhead_reason list" where
  "all_reasons = [BeforeFirstClaim, AfterReleaseWithNoNextClaim, AmbiguousBoundary, MissingTimestamp,
     UnmappedSession, TrackerUnavailable, Contended, UnclaimedSession]"

datatype segment_target = TaskTarget task_id | Overhead overhead_reason

record claim_boundary =
  cb_task :: task_id
  cb_occurred_at :: utc_timestamp
  cb_kind :: task_event_kind
  cb_agent :: "string option"
  cb_session :: "session_id option"

section \<open>The session a claim was made in\<close>

definition actor_suffix_len :: nat where
  "actor_suffix_len = 8"

datatype claim_resolution = SessionMatch session_id | Unresolved | AmbiguousSession

definition is_hexdigit :: "char \<Rightarrow> bool" where
  "is_hexdigit c \<longleftrightarrow> is_ascii_digit c \<or> lower_char c \<in> set ''abcdef''"

fun match_walk :: "string \<Rightarrow> session_id option \<Rightarrow> session_id list \<Rightarrow> claim_resolution" where
  "match_walk needle matched [] =
     (case matched of Some s \<Rightarrow> SessionMatch s | None \<Rightarrow> Unresolved)"
| "match_walk needle matched (s # known) =
     (if \<not> starts_with needle (to_lowercase (si_native s)) then match_walk needle matched known
      else if matched \<noteq> None then AmbiguousSession
      else match_walk needle (Some s) known)"

definition resolve_claim_session :: "string option \<Rightarrow> session_id list \<Rightarrow> claim_resolution" where
  "resolve_claim_session actor known =
     (case actor of
        None \<Rightarrow> Unresolved
      | Some a \<Rightarrow>
          (let fragment = last (split_on (CHR ''-'') a)
           in if length fragment \<noteq> actor_suffix_len \<or> \<not> list_all is_hexdigit fragment then Unresolved
              else match_walk (to_lowercase fragment) None known))"

record claim_counts =
  cc_unresolved :: u64
  cc_ambiguous :: u64

definition tally :: "claim_counts \<Rightarrow> claim_resolution \<Rightarrow> claim_counts" where
  "tally counts r =
     (case r of
        SessionMatch _ \<Rightarrow> counts
      | Unresolved \<Rightarrow> counts\<lparr>cc_unresolved := add_u64 (cc_unresolved counts) 1\<rparr>
      | AmbiguousSession \<Rightarrow> counts\<lparr>cc_ambiguous := add_u64 (cc_ambiguous counts) 1\<rparr>)"

section \<open>Windows and totals\<close>

record usage_window =
  uw_start :: "utc_timestamp option"
  uw_end :: "utc_timestamp option"
  uw_usage :: known_tokens

record segmentation_context =
  sx_session_is_mapped :: bool
  sx_tracker_available :: bool

record segmentation_inputs =
  sg_context :: segmentation_context
  sg_boundaries :: "claim_boundary list"
  sg_usage :: "usage_window list"

definition zero_vector :: known_tokens where
  "zero_vector = known_new (InputTokens 0) (OutputTokens 0) (CacheReadTokens 0) (CacheWriteTokens 0)"

record segmentation_result =
  sr_per_task :: "(task_id \<times> known_tokens) list"
  sr_overhead :: "(overhead_reason \<times> known_tokens) list"

definition empty_result :: segmentation_result where
  "empty_result = \<lparr>sr_per_task = [], sr_overhead = []\<rparr>"

definition result_add :: "segmentation_result \<Rightarrow> segment_target \<Rightarrow> known_tokens \<Rightarrow> segmentation_result" where
  "result_add r target usage =
     (case target of
        TaskTarget t \<Rightarrow> r\<lparr>sr_per_task := bucket_add known_add zero_vector t usage (sr_per_task r)\<rparr>
      | Overhead reason \<Rightarrow> r\<lparr>sr_overhead := bucket_add known_add zero_vector reason usage (sr_overhead r)\<rparr>)"

definition task_usage :: "segmentation_result \<Rightarrow> task_id \<Rightarrow> known_tokens option" where
  "task_usage r t = map_of (sr_per_task r) t"

definition overhead_usage :: "segmentation_result \<Rightarrow> overhead_reason \<Rightarrow> known_tokens option" where
  "overhead_usage r reason = map_of (sr_overhead r) reason"

definition result_total :: "segmentation_result \<Rightarrow> known_tokens" where
  "result_total r = foldl known_add zero_vector (map snd (sr_per_task r) @ map snd (sr_overhead r))"

section \<open>The timeline\<close>

record time_interval =
  iv_lo :: "utc_timestamp option"
  iv_hi :: "utc_timestamp option"
  iv_target :: segment_target

datatype active_state = Unclaimed | Claimed task_id | ContendedState

definition interval_target :: "active_state \<Rightarrow> bool \<Rightarrow> segment_target" where
  "interval_target active is_before_first_claim =
     (case active of
        Unclaimed \<Rightarrow> Overhead (if is_before_first_claim then BeforeFirstClaim else AfterReleaseWithNoNextClaim)
      | Claimed t \<Rightarrow> TaskTarget t
      | ContendedState \<Rightarrow> Overhead Contended)"

definition is_claim :: "claim_boundary \<Rightarrow> bool" where "is_claim b \<longleftrightarrow> cb_kind b = Claim"
definition is_release :: "claim_boundary \<Rightarrow> bool" where "is_release b \<longleftrightarrow> cb_kind b = Release"

definition advance_state :: "active_state \<Rightarrow> claim_boundary list \<Rightarrow> active_state" where
  "advance_state active instant =
     (let released = map cb_task (filter is_release instant);
          claimed = remdups (map cb_task (filter is_claim instant));
          kept = (case active of Claimed t \<Rightarrow> if t \<in> set released then Unclaimed else active | _ \<Rightarrow> active)
      in case claimed of [] \<Rightarrow> kept | [t] \<Rightarrow> Claimed t | _ \<Rightarrow> ContendedState)"

function intervals_walk ::
    "active_state \<Rightarrow> utc_timestamp option \<Rightarrow> bool \<Rightarrow> claim_boundary list \<Rightarrow> time_interval list" where
  "intervals_walk active lo is_first [] = [\<lparr>iv_lo = lo, iv_hi = None, iv_target = interval_target active False\<rparr>]"
| "intervals_walk active lo is_first (b # bs) =
     (let same = (\<lambda>c. cb_occurred_at c = cb_occurred_at b);
          instant = Some (cb_occurred_at b)
      in \<lparr>iv_lo = lo, iv_hi = instant, iv_target = interval_target active is_first\<rparr> #
         intervals_walk (advance_state active (b # takeWhile same bs)) instant False (dropWhile same bs))"
  by pat_completeness auto
termination
  by (relation "measure (\<lambda>(_, _, _, bs). length bs)") (auto simp: length_dropWhile_le le_imp_less_Suc)

definition build_intervals :: "claim_boundary list \<Rightarrow> time_interval list" where
  "build_intervals boundaries =
     (let sorted = sort_key cb_occurred_at (filter (\<lambda>b. is_claim b \<or> is_release b) boundaries)
      in if sorted = [] then [] else intervals_walk Unclaimed None True sorted)"

definition interval_holds :: "time_interval \<Rightarrow> utc_timestamp \<Rightarrow> bool" where
  "interval_holds i t \<longleftrightarrow>
     (case iv_lo i of None \<Rightarrow> True | Some lo \<Rightarrow> lo \<le> t) \<and> (case iv_hi i of None \<Rightarrow> True | Some hi \<Rightarrow> t < hi)"

definition locate :: "time_interval list \<Rightarrow> utc_timestamp \<Rightarrow> time_interval option" where
  "locate intervals t = find (\<lambda>i. interval_holds i t) intervals"

definition classify_window :: "usage_window \<Rightarrow> time_interval list \<Rightarrow> segment_target option" where
  "classify_window w intervals =
     (case (uw_start w, uw_end w) of
        (Some start, Some end_at) \<Rightarrow>
          (case locate intervals start of
             None \<Rightarrow> None
           | Some home \<Rightarrow>
               if case iv_hi home of None \<Rightarrow> True | Some hi \<Rightarrow> end_at \<le> hi then Some (iv_target home)
               else Some (Overhead AmbiguousBoundary))
      | _ \<Rightarrow> Some (Overhead MissingTimestamp))"

section \<open>Segmenting\<close>

definition short_circuit :: "segmentation_context \<Rightarrow> overhead_reason option" where
  "short_circuit x =
     (if \<not> sx_session_is_mapped x then Some UnmappedSession
      else if \<not> sx_tracker_available x then Some TrackerUnavailable
      else None)"

definition classify :: "segmentation_inputs \<Rightarrow> segment_target option list" where
  "classify inputs =
     (case short_circuit (sg_context inputs) of
        Some reason \<Rightarrow> map (\<lambda>_. Some (Overhead reason)) (sg_usage inputs)
      | None \<Rightarrow>
          (let intervals = build_intervals (sg_boundaries inputs)
           in if intervals = [] then map (\<lambda>_. Some (Overhead UnclaimedSession)) (sg_usage inputs)
              else map (\<lambda>w. classify_window w intervals) (sg_usage inputs)))"

fun segment_walk :: "segmentation_result \<Rightarrow> (usage_window \<times> segment_target option) list \<Rightarrow> segmentation_result option" where
  "segment_walk r [] = Some r"
| "segment_walk r ((w, target) # rest) =
     (case target of None \<Rightarrow> None | Some t \<Rightarrow> segment_walk (result_add r t (uw_usage w)) rest)"

definition segment :: "segmentation_inputs \<Rightarrow> segmentation_result option" where
  "segment inputs = segment_walk empty_result (zip (sg_usage inputs) (classify inputs))"

end
