(* ===== verification/Segments_Laws.thy ===== *)
theory Segments_Laws
  imports Segments
begin

text \<open>
  What segmentation promises: the interval timeline decides the declarative attribution of a window, no usage
  is lost or split, and a claim is bound to a session exactly when its fragment fits one session.
\<close>

section \<open>The state the claims leave\<close>

text \<open>
  The task held after a set of boundaries: the one claimed at the last claim instant, unless it was released
  since or another task was claimed at that same instant.
\<close>

definition held_state :: "claim_boundary set \<Rightarrow> active_state" where
  "held_state P =
     (let claims = {b \<in> P. is_claim b};
          last_claim = Max (cb_occurred_at ` claims);
          tasks = cb_task ` {b \<in> claims. cb_occurred_at b = last_claim}
      in if claims = {} then Unclaimed
         else if card tasks \<noteq> 1 then ContendedState
         else if \<exists>r\<in>P. is_release r \<and> cb_task r \<in> tasks \<and> last_claim < cb_occurred_at r then Unclaimed
         else Claimed (the_elem tasks))"

lemma claim_not_release: "is_claim b \<Longrightarrow> \<not> is_release b"
  by (simp add: is_claim_def is_release_def)

lemma remdups_single: "set xs = {t} \<Longrightarrow> remdups xs = [t]"
proof -
  assume xs: "set xs = {t}"
  then have "length (remdups xs) = 1" by (simp add: length_remdups_card_conv)
  then obtain u where "remdups xs = [u]" by (cases "remdups xs") simp_all
  moreover from this have "u = t" using xs set_remdups [of xs] by simp
  ultimately show ?thesis by simp
qed

lemma claimed_cases:
  "(case remdups xs of [] \<Rightarrow> a | [t] \<Rightarrow> f t | _ \<Rightarrow> c) =
     (if xs = [] then a else if card (set xs) = 1 then f (the_elem (set xs)) else c)"
proof (cases "card (set xs) = 1")
  case True
  then obtain t where "set xs = {t}" by (rule card_1_singletonE)
  then show ?thesis using remdups_single [of xs t] by auto
next
  case False
  then have "length (remdups xs) \<noteq> 1" by (simp add: length_remdups_card_conv)
  then show ?thesis using False by (cases "remdups xs" rule: remdups_adj.cases) (auto simp: remdups_eq_nil_iff)
qed

lemma advance_held:
  assumes "finite P" "\<forall>b\<in>P. cb_occurred_at b < i" "\<forall>b\<in>set instant. cb_occurred_at b = i"
  shows "advance_state (held_state P) instant = held_state (P \<union> set instant)"
proof (cases "filter is_claim instant = []")
  case True
  then have "{b \<in> P \<union> set instant. is_claim b} = {b \<in> P. is_claim b}" by (auto simp: filter_empty_conv)
  note same = this
  define claims where "claims = {b \<in> P. is_claim b}"
  define last_claim where "last_claim = Max (cb_occurred_at ` claims)"
  define tasks where "tasks = cb_task ` {b \<in> claims. cb_occurred_at b = last_claim}"
  have before: "last_claim < i" if "claims \<noteq> {}"
    using assms(1,2) that by (auto simp: last_claim_def claims_def)
  have kept: "advance_state a instant =
      (case a of Claimed t \<Rightarrow> if t \<in> cb_task ` {b \<in> set instant. is_release b} then Unclaimed else a | _ \<Rightarrow> a)" for a
    using True by (cases a) (simp_all add: advance_state_def)
  show ?thesis
  proof (cases "claims = {}")
    case False
    have later: "last_claim < cb_occurred_at r" if "r \<in> set instant" for r
      using before [OF False] assms(3) that by auto
    show ?thesis
    proof (cases "card tasks = 1")
      case True
      then obtain t where "tasks = {t}" by (rule card_1_singletonE)
      then show ?thesis
        unfolding held_state_def same Let_def kept claims_def [symmetric] last_claim_def [symmetric] tasks_def [symmetric]
        using False later by auto
    next
      case several: False
      then show ?thesis
        unfolding held_state_def same Let_def kept claims_def [symmetric] last_claim_def [symmetric] tasks_def [symmetric]
        using False by simp
    qed
  next
    case True
    then show ?thesis unfolding held_state_def Let_def same kept claims_def [symmetric] by simp
  qed
next
  case False
  let ?G = "{b \<in> P \<union> set instant. is_claim b}"
  obtain g where g: "g \<in> set instant" "is_claim g" using False by (auto simp: filter_empty_conv)
  let ?T = "cb_task ` {b \<in> set instant. is_claim b}"
  have max: "Max (cb_occurred_at ` ?G) = i"
    using g assms by (intro Max_eqI) (force intro: less_imp_le)+
  have tasks: "{b \<in> ?G. cb_occurred_at b = i} = {b \<in> set instant. is_claim b}"
    using assms(2,3) by auto
  have no_release: "(\<exists>r\<in>P \<union> set instant. is_release r \<and> cb_task r \<in> ?T \<and> i < cb_occurred_at r) = False"
    using assms(2,3) by force
  have "(?G = {}) = False" using g by auto
  then have "held_state (P \<union> set instant) = (if card ?T \<noteq> 1 then ContendedState else Claimed (the_elem ?T))"
    by (simp only: held_state_def Let_def max tasks no_release if_False)
  moreover have "set (map cb_task (filter is_claim instant)) = ?T" by auto
  ultimately show ?thesis
    unfolding advance_state_def Let_def claimed_cases using False by simp
qed

section \<open>The timeline\<close>

lemma same_instant_split:
  fixes f :: "'b \<Rightarrow> 'k::linorder"
  assumes "sorted (map f (b # bs))"
  shows "\<forall>x\<in>set (takeWhile (\<lambda>c. f c = f b) bs). f x = f b"
    "\<forall>x\<in>set (dropWhile (\<lambda>c. f c = f b) bs). f b < f x"
    "set bs = set (takeWhile (\<lambda>c. f c = f b) bs) \<union> set (dropWhile (\<lambda>c. f c = f b) bs)"
    "sorted (map f (dropWhile (\<lambda>c. f c = f b) bs))"
proof -
  show "\<forall>x\<in>set (takeWhile (\<lambda>c. f c = f b) bs). f x = f b" by (auto dest: set_takeWhileD)
  show "set bs = set (takeWhile (\<lambda>c. f c = f b) bs) \<union> set (dropWhile (\<lambda>c. f c = f b) bs)"
    by (metis set_append takeWhile_dropWhile_id)
  have "map f bs = map f (takeWhile (\<lambda>c. f c = f b) bs) @ map f (dropWhile (\<lambda>c. f c = f b) bs)"
    by (metis map_append takeWhile_dropWhile_id)
  then show "sorted (map f (dropWhile (\<lambda>c. f c = f b) bs))"
    using assms by (simp add: sorted_append)
  show "\<forall>x\<in>set (dropWhile (\<lambda>c. f c = f b) bs). f b < f x"
    using assms
  proof (induction bs)
    case (Cons c cs)
    show ?case
    proof (cases "f c = f b")
      case False
      then have "f b < f c" using Cons.prems by (simp add: order_less_le)
      then show ?thesis using Cons.prems False by (auto intro: less_le_trans)
    qed (use Cons in simp)
  qed simp
qed

lemma walk_locates:
  assumes "sorted (map cb_occurred_at xs)" "finite P" "\<forall>p\<in>P. \<forall>x\<in>set xs. cb_occurred_at p < cb_occurred_at x"
    and "\<forall>l. lo = Some l \<longrightarrow> l \<le> s"
  shows "\<exists>iv. locate (intervals_walk (held_state P) lo is_first xs) s = Some iv \<and>
    iv_target iv = interval_target (held_state (P \<union> {b \<in> set xs. cb_occurred_at b \<le> s}))
      (is_first \<and> xs \<noteq> [] \<and> (\<forall>b\<in>set xs. s < cb_occurred_at b)) \<and>
    (\<forall>e. (case iv_hi iv of None \<Rightarrow> True | Some h \<Rightarrow> e \<le> h) \<longleftrightarrow>
       (\<forall>b\<in>set xs. s < cb_occurred_at b \<longrightarrow> e \<le> cb_occurred_at b))"
  using assms
proof (induction "length xs" arbitrary: P lo is_first xs rule: less_induct)
  case less
  show ?case
  proof (cases xs)
    case Nil
    then show ?thesis using less.prems by (auto simp: locate_def interval_holds_def split: option.splits)
  next
    case (Cons b bs)
    note split = same_instant_split [of cb_occurred_at b bs, folded Cons, OF less.prems(1)]
    show ?thesis
    proof (cases "s < cb_occurred_at b")
      case True
      then have late: "\<forall>x\<in>set xs. s < cb_occurred_at x" using Cons less.prems(1) by (auto intro: less_le_trans)
      then have none: "{x \<in> set xs. cb_occurred_at x \<le> s} = {}" by auto
      have "e \<le> cb_occurred_at b \<longleftrightarrow> (\<forall>x\<in>set xs. e \<le> cb_occurred_at x)" for e
        using Cons less.prems(1) by (auto intro: order_trans)
      moreover have "locate (intervals_walk (held_state P) lo is_first xs) s =
          Some \<lparr>iv_lo = lo, iv_hi = Some (cb_occurred_at b), iv_target = interval_target (held_state P) is_first\<rparr>"
        using True less.prems(4) by (simp add: Cons locate_def interval_holds_def Let_def split: option.splits)
      moreover have "xs \<noteq> []" using Cons by simp
      ultimately show ?thesis unfolding none Un_empty_right using late by simp
    next
      case False
      let ?same = "\<lambda>c. cb_occurred_at c = cb_occurred_at b"
      let ?G = "b # takeWhile ?same bs" let ?rest = "dropWhile ?same bs"
      let ?P = "P \<union> set ?G"
      have all: "set xs = set ?G \<union> set ?rest" using split(3) Cons by simp
      have now: "\<forall>c\<in>set ?G. cb_occurred_at c = cb_occurred_at b" using split(1) by (metis set_ConsD)
      then have due: "\<forall>c\<in>set ?G. \<not> s < cb_occurred_at c" "\<forall>c\<in>set ?G. cb_occurred_at c \<le> s"
        using False by (metis not_le)+
      have adv: "advance_state (held_state P) ?G = held_state ?P"
      proof (rule advance_held [of _ "cb_occurred_at b"])
        have "b \<in> set xs" by (simp add: Cons)
        then show "\<forall>p\<in>P. cb_occurred_at p < cb_occurred_at b" using less.prems(3) by blast
      qed (rule less.prems(2), rule now)
      have "length ?rest < length xs" using Cons length_dropWhile_le [of ?same bs] by simp
      moreover have "\<forall>p\<in>?P. \<forall>x\<in>set ?rest. cb_occurred_at p < cb_occurred_at x"
        using less.prems(3) now split(2) all by (metis UnCI UnE)
      ultimately have IH: "\<exists>iv. locate (intervals_walk (held_state ?P) (Some (cb_occurred_at b)) False ?rest) s = Some iv \<and>
          iv_target iv = interval_target (held_state (?P \<union> {b \<in> set ?rest. cb_occurred_at b \<le> s})) False \<and>
          (\<forall>e. (case iv_hi iv of None \<Rightarrow> True | Some h \<Rightarrow> e \<le> h) \<longleftrightarrow>
             (\<forall>b\<in>set ?rest. s < cb_occurred_at b \<longrightarrow> e \<le> cb_occurred_at b))"
        using less.hyps [of ?rest ?P "Some (cb_occurred_at b)" False] less.prems(2) split(4) False by simp
      have "P \<union> {x \<in> set xs. cb_occurred_at x \<le> s} = ?P \<union> {x \<in> set ?rest. cb_occurred_at x \<le> s}"
        using due(2) unfolding all by blast
      moreover have "(\<forall>x\<in>set xs. s < cb_occurred_at x \<longrightarrow> e \<le> cb_occurred_at x) \<longleftrightarrow>
          (\<forall>x\<in>set ?rest. s < cb_occurred_at x \<longrightarrow> e \<le> cb_occurred_at x)" for e
        using due(1) unfolding all by blast
      moreover have "\<not> (\<forall>x\<in>set xs. s < cb_occurred_at x)" using False Cons by auto
      ultimately show ?thesis
        using IH False adv by (simp add: Cons locate_def interval_holds_def Let_def)
    qed
  qed
qed

section \<open>Attribution\<close>

definition attributed :: "segmentation_context \<Rightarrow> claim_boundary set \<Rightarrow> usage_window \<Rightarrow> segment_target" where
  "attributed x bs w =
     (let marks = {b \<in> bs. is_claim b \<or> is_release b}
      in if \<not> sx_session_is_mapped x then Overhead UnmappedSession
         else if \<not> sx_tracker_available x then Overhead TrackerUnavailable
         else if marks = {} then Overhead UnclaimedSession
         else case (uw_start w, uw_end w) of
                (Some s, Some e) \<Rightarrow>
                  if \<exists>b\<in>marks. s < cb_occurred_at b \<and> cb_occurred_at b < e then Overhead AmbiguousBoundary
                  else interval_target (held_state {b \<in> marks. cb_occurred_at b \<le> s}) (\<forall>b\<in>marks. s < cb_occurred_at b)
              | _ \<Rightarrow> Overhead MissingTimestamp)"

lemma walk_not_Nil: "intervals_walk a lo first xs \<noteq> []"
  by (cases xs) (simp_all add: Let_def)

lemma build_intervals_Nil: "build_intervals bs = [] \<longleftrightarrow> {b \<in> set bs. is_claim b \<or> is_release b} = {}"
  by (simp add: build_intervals_def Let_def sort_key_Nil walk_not_Nil filter_empty_conv) blast

lemma attributed_window:
  assumes "short_circuit x = None" "{b \<in> bs. is_claim b \<or> is_release b} = marks" "marks \<noteq> {}"
    "uw_start w = Some s" "uw_end w = Some e"
  shows "attributed x bs w =
    (if \<forall>b\<in>marks. s < cb_occurred_at b \<longrightarrow> e \<le> cb_occurred_at b
     then interval_target (held_state {b \<in> marks. cb_occurred_at b \<le> s}) (\<forall>b\<in>marks. s < cb_occurred_at b)
     else Overhead AmbiguousBoundary)"
proof -
  have "(\<exists>b\<in>marks. s < cb_occurred_at b \<and> cb_occurred_at b < e) \<longleftrightarrow>
      \<not> (\<forall>b\<in>marks. s < cb_occurred_at b \<longrightarrow> e \<le> cb_occurred_at b)" by (auto simp: not_le)
  moreover have "sx_session_is_mapped x" "sx_tracker_available x"
    using assms(1) by (simp_all add: short_circuit_def split: if_splits)
  ultimately show ?thesis using assms(3-5) by (auto simp: attributed_def assms(2) Let_def not_le)
qed

lemma classify_attributed:
  "classify inputs = map (\<lambda>w. Some (attributed (sg_context inputs) (set (sg_boundaries inputs)) w)) (sg_usage inputs)"
proof -
  let ?bs = "sg_boundaries inputs"
  define marks where "marks = {b \<in> set ?bs. is_claim b \<or> is_release b}"
  have "classify_window w (build_intervals ?bs) = Some (attributed (sg_context inputs) (set ?bs) w)"
    if ctx: "short_circuit (sg_context inputs) = None" and some: "marks \<noteq> {}" for w
  proof (cases "uw_start w = None \<or> uw_end w = None")
    case True
    have "sx_session_is_mapped (sg_context inputs)" "sx_tracker_available (sg_context inputs)"
      using ctx by (simp_all add: short_circuit_def split: if_splits)
    then show ?thesis
      using True some by (auto simp: classify_window_def attributed_def Let_def marks_def split: option.splits)
  next
    case False
    then obtain s e where w: "uw_start w = Some s" "uw_end w = Some e" by auto
    let ?xs = "sort_key cb_occurred_at (filter (\<lambda>b. is_claim b \<or> is_release b) ?bs)"
    have xs: "set ?xs = marks" by (simp add: marks_def)
    then have "?xs \<noteq> []" using some by (metis list.set(1))
    moreover from this have walk: "build_intervals ?bs = intervals_walk (held_state {}) None True ?xs"
      by (simp add: build_intervals_def Let_def held_state_def)
    ultimately obtain iv where "locate (build_intervals ?bs) s = Some iv"
        "iv_target iv = interval_target (held_state {b \<in> marks. cb_occurred_at b \<le> s}) (\<forall>b\<in>marks. s < cb_occurred_at b)"
        "(case iv_hi iv of None \<Rightarrow> True | Some h \<Rightarrow> e \<le> h) \<longleftrightarrow>
           (\<forall>b\<in>marks. s < cb_occurred_at b \<longrightarrow> e \<le> cb_occurred_at b)"
      using walk_locates [of ?xs "{}" None s True] unfolding walk xs by auto
    then show ?thesis
      using w attributed_window [OF ctx marks_def [symmetric] some w] by (auto simp: classify_window_def)
  qed
  then show ?thesis
    using build_intervals_Nil [of ?bs]
    by (cases "short_circuit (sg_context inputs)")
      (auto simp: classify_def Let_def marks_def attributed_def short_circuit_def split: if_splits)
qed

text \<open>
  C11. Every window of a session is attributed, without a panic, to what the claims say: a window that strictly spans a
  boundary is ambiguous, any other belongs to the task held at its start, in whatever order the boundaries come.
\<close>

theorem windows_follow_the_claims:
  "classify inputs = map (\<lambda>w. Some (attributed (sg_context inputs) (set (sg_boundaries inputs)) w)) (sg_usage inputs)"
  by (rule classify_attributed)

section \<open>Totals\<close>

lemma zero_vector_value [simp]: "known_value zero_vector k = 0"
  by (cases k) (simp_all add: zero_vector_def)

interpretation usage_buckets: bucket_sum known_add zero_vector
proof unfold_locales
  fix x y
  show "known_add (known_add zero_vector x) y = known_add x y"
    by (rule known_eqI) (simp add: known_value_add zero_vector_value add_u64_def wrap_u64_def mod_simps)
qed

lemma segment_walk_Some:
  "segment_walk r (zip ws (map (\<lambda>w. Some (f w)) ws)) = Some (foldl (\<lambda>r w. result_add r (f w) (uw_usage w)) r ws)"
  by (induction ws arbitrary: r) simp_all

definition total_where :: "('w \<Rightarrow> bool) \<Rightarrow> ('w \<Rightarrow> known_tokens) \<Rightarrow> 'w list \<Rightarrow> known_tokens option" where
  "total_where P usage ws =
     (if \<exists>w\<in>set ws. P w then Some (foldl known_add zero_vector (map usage (filter P ws))) else None)"

lemma total_where_snoc:
  "total_where P usage (ws @ [w]) =
     (if P w then Some (known_add (case total_where P usage ws of None \<Rightarrow> zero_vector | Some v \<Rightarrow> v) (usage w))
      else total_where P usage ws)"
proof (cases "\<exists>v\<in>set ws. P v")
  case False
  then have "filter P ws = []" by (simp add: filter_empty_conv)
  then show ?thesis using False by (auto simp: total_where_def)
qed (auto simp: total_where_def)

lemma result_add_total: "result_total (result_add r t usage) = known_add (result_total r) usage"
  by (simp add: result_total_def result_add_def usage_buckets.fold_bucket_add_front
      usage_buckets.fold_bucket_add_back del: foldl_append split: segment_target.split)

lemma fold_results:
  fixes f :: "usage_window \<Rightarrow> segment_target"
  defines "run \<equiv> foldl (\<lambda>r w. result_add r (f w) (uw_usage w)) empty_result"
  shows "result_total (run ws) = foldl known_add zero_vector (map uw_usage ws)"
    and "task_usage (run ws) t = total_where (\<lambda>w. f w = TaskTarget t) uw_usage ws"
    and "overhead_usage (run ws) reason = total_where (\<lambda>w. f w = Overhead reason) uw_usage ws"
proof (induction ws rule: rev_induct)
  case Nil
  show "result_total (run []) = foldl known_add zero_vector (map uw_usage [])"
    "task_usage (run []) t = total_where (\<lambda>w. f w = TaskTarget t) uw_usage []"
    "overhead_usage (run []) reason = total_where (\<lambda>w. f w = Overhead reason) uw_usage []"
    by (simp_all add: run_def empty_result_def result_total_def task_usage_def overhead_usage_def total_where_def)
next
  case (snoc w ws)
  have run: "run (ws @ [w]) = result_add (run ws) (f w) (uw_usage w)" by (simp add: run_def)
  show "result_total (run (ws @ [w])) = foldl known_add zero_vector (map uw_usage (ws @ [w]))"
    unfolding run result_add_total snoc(1) by simp
  show "task_usage (run (ws @ [w])) t = total_where (\<lambda>w. f w = TaskTarget t) uw_usage (ws @ [w])"
    unfolding run total_where_snoc using snoc(2)
    by (simp add: task_usage_def result_add_def bucket_get split: segment_target.split)
  show "overhead_usage (run (ws @ [w])) reason = total_where (\<lambda>w. f w = Overhead reason) uw_usage (ws @ [w])"
    unfolding run total_where_snoc using snoc(3)
    by (simp add: overhead_usage_def result_add_def bucket_get split: segment_target.split)
qed

text \<open>
  C12. Segmentation conserves usage: it always returns, what it attributes to tasks and to overhead together is the
  sum of the windows, per token kind and modulo the width of a count, and each bucket holds exactly the whole usage
  of the windows attributed to it.
\<close>

theorem segmentation_conserves_usage:
  "\<exists>r. segment inputs = Some r \<and>
     result_total r = foldl known_add zero_vector (map uw_usage (sg_usage inputs)) \<and>
     (\<forall>t. task_usage r t =
        total_where (\<lambda>w. attributed (sg_context inputs) (set (sg_boundaries inputs)) w = TaskTarget t) uw_usage
          (sg_usage inputs)) \<and>
     (\<forall>reason. overhead_usage r reason =
        total_where (\<lambda>w. attributed (sg_context inputs) (set (sg_boundaries inputs)) w = Overhead reason) uw_usage
          (sg_usage inputs))"
  using fold_results by (simp add: segment_def classify_attributed segment_walk_Some)

section \<open>The session of a claim\<close>

definition session_fragment :: "string option \<Rightarrow> string option" where
  "session_fragment actor =
     (case actor of
        None \<Rightarrow> None
      | Some a \<Rightarrow>
          (let fragment = last (split_on (CHR ''-'') a)
           in if length fragment = 8 \<and> list_all is_hexdigit fragment then Some (to_lowercase fragment) else None))"

lemma match_walk_eq:
  "match_walk needle matched known =
     (case (matched, filter (\<lambda>s. starts_with needle (to_lowercase (si_native s))) known) of
        (None, []) \<Rightarrow> Unresolved
      | (None, [s]) \<Rightarrow> SessionMatch s
      | (Some s, []) \<Rightarrow> SessionMatch s
      | _ \<Rightarrow> AmbiguousSession)"
  by (induction needle matched known rule: match_walk.induct) (auto split: list.splits option.splits)

text \<open>
  A claim is bound to a session exactly when its actor ends in eight hexadecimal digits that begin the native id of
  exactly one known session; two or more make it ambiguous, none leaves it unresolved, in any order of the sessions.
\<close>

theorem claim_binds_to_the_only_match:
  "resolve_claim_session actor known =
     (case session_fragment actor of
        None \<Rightarrow> Unresolved
      | Some fragment \<Rightarrow>
          (case filter (\<lambda>s. starts_with fragment (to_lowercase (si_native s))) known of
             [] \<Rightarrow> Unresolved
           | [s] \<Rightarrow> SessionMatch s
           | _ \<Rightarrow> AmbiguousSession))"
  by (simp add: resolve_claim_session_def session_fragment_def match_walk_eq Let_def actor_suffix_len_def
      split: option.split)

text \<open>The reasons render to distinct names.\<close>

lemma reason_names_distinct: "distinct (map reason_as_str all_reasons)" "r \<in> set all_reasons"
  by (simp_all add: all_reasons_def) (cases r; simp)

text \<open>
  The overhead reason between a release and the next claim is the one documented for a release that no claim follows.
\<close>

lemma gap_before_next_claim:
  fixes t :: task_id
  defines "mark k at_time \<equiv> \<lparr>cb_task = t, cb_occurred_at = at_time, cb_kind = k, cb_agent = None, cb_session = None\<rparr>"
  shows "attributed \<lparr>sx_session_is_mapped = True, sx_tracker_available = True\<rparr>
      {mark Claim 0, mark Release 10, mark Claim 20} \<lparr>uw_start = Some 15, uw_end = Some 15, uw_usage = zero_vector\<rparr> =
    Overhead AfterReleaseWithNoNextClaim"
proof -
  let ?bs = "{mark Claim 0, mark Release 10, mark Claim 20}"
  have marks: "{b \<in> ?bs. is_claim b \<or> is_release b} = ?bs" by (auto simp: mark_def is_claim_def is_release_def)
  have early: "{b \<in> ?bs. cb_occurred_at b \<le> 15} = {mark Claim 0, mark Release 10}" by (auto simp: mark_def)
  have claims: "{b \<in> {mark Claim 0, mark Release 10}. is_claim b} = {mark Claim 0}" by (auto simp: mark_def is_claim_def)
  have last_claim: "{b \<in> {mark Claim 0}. cb_occurred_at b = 0} = {mark Claim 0}" by (auto simp: mark_def)
  have "held_state {mark Claim 0, mark Release 10} = Unclaimed"
    unfolding held_state_def Let_def claims using last_claim by (simp add: mark_def is_release_def)
  moreover have "attributed \<lparr>sx_session_is_mapped = True, sx_tracker_available = True\<rparr> ?bs
      \<lparr>uw_start = Some 15, uw_end = Some 15, uw_usage = zero_vector\<rparr> =
    (if \<forall>b\<in>?bs. 15 < cb_occurred_at b \<longrightarrow> 15 \<le> cb_occurred_at b
     then interval_target (held_state {b \<in> ?bs. cb_occurred_at b \<le> 15}) (\<forall>b\<in>?bs. 15 < cb_occurred_at b)
     else Overhead AmbiguousBoundary)"
    by (rule attributed_window [OF _ marks]) (simp_all add: short_circuit_def)
  moreover have "\<not> (\<forall>b\<in>?bs. 15 < cb_occurred_at b)" by (simp add: mark_def)
  ultimately show ?thesis unfolding early by (simp add: interval_target_def)
qed

end
