(* ===== verification/Attribution_Report.thy ===== *)
theory Attribution_Report
  imports Segments_Laws
begin

text \<open>
  \<open>src/attribution/report.rs\<close>: a batch of usage records of many sessions attributed to tasks. Claims bound to a
  session form that session's timeline, the others one fallback timeline; the records are classified per session
  and written back to their own positions.
\<close>

section \<open>The batch\<close>

record attributable_event =
  ev_canonical_id :: string
  ev_occurred_at :: utc_timestamp
  ev_session :: "session_id option"
  ev_usage :: known_tokens

record event_attribution =
  ea_canonical_id :: string
  ea_target :: segment_target

definition session_scoped_claim_covers :: "segment_target \<Rightarrow> bool" where
  "session_scoped_claim_covers t \<longleftrightarrow>
     t \<notin> {Overhead BeforeFirstClaim, Overhead AfterReleaseWithNoNextClaim, Overhead UnclaimedSession}"

definition session_label :: "session_id \<Rightarrow> string" where
  "session_label s = si_source s @ '':'' @ si_native s"

text \<open>Entries of a map grown by pushing each element to the list of its key.\<close>

definition om_group :: "('x \<Rightarrow> string option) \<Rightarrow> 'x list \<Rightarrow> (string, 'x list) omap" where
  "om_group key xs = foldl (\<lambda>m x. case key x of None \<Rightarrow> m | Some k \<Rightarrow> om_upd k [] (\<lambda>ys. ys @ [x]) m) [] xs"

definition event_window :: "attributable_event list \<Rightarrow> nat \<Rightarrow> usage_window" where
  "event_window events i =
     \<lparr>uw_start = Some (ev_occurred_at (events ! i)), uw_end = Some (ev_occurred_at (events ! i)),
      uw_usage = ev_usage (events ! i)\<rparr>"

definition classify_events ::
    "bool \<Rightarrow> bool \<Rightarrow> claim_boundary list \<Rightarrow> attributable_event list \<Rightarrow> nat list \<Rightarrow> segment_target option list" where
  "classify_events mapped available boundaries events indices =
     classify \<lparr>sg_context = \<lparr>sx_session_is_mapped = mapped, sx_tracker_available = available\<rparr>,
               sg_boundaries = boundaries, sg_usage = map (event_window events) indices\<rparr>"

definition attribute_session ::
    "(string, claim_boundary list) omap \<Rightarrow> claim_boundary list \<Rightarrow> bool \<Rightarrow> attributable_event list \<Rightarrow>
     segment_target option list \<Rightarrow> string \<times> nat list \<Rightarrow> segment_target option list" where
  "attribute_session scoped fallback available events targets entry =
     (let (key, indices) = entry;
          own = classify_events True available (case om_get scoped key of None \<Rightarrow> [] | Some bs \<Rightarrow> bs) events indices;
          shared = classify_events True available fallback events indices
      in foldl (\<lambda>ts (i, mine, theirs).
           case (mine, theirs) of
             (Some m, Some t) \<Rightarrow> ts[i := Some (if session_scoped_claim_covers m \<or> fallback = [] then m else t)]
           | _ \<Rightarrow> ts) targets (zip indices (zip own shared)))"

fun collect_targets :: "attributable_event list \<Rightarrow> segment_target option list \<Rightarrow> event_attribution list option" where
  "collect_targets [] ts = Some []"
| "collect_targets (e # es) [] = Some []"
| "collect_targets (e # es) (t # ts) =
     (case (t, collect_targets es ts) of
        (Some target, Some rest) \<Rightarrow> Some (\<lparr>ea_canonical_id = ev_canonical_id e, ea_target = target\<rparr> # rest)
      | _ \<Rightarrow> None)"

definition attribute_events ::
    "claim_boundary list \<Rightarrow> bool \<Rightarrow> attributable_event list \<Rightarrow> event_attribution list option" where
  "attribute_events boundaries available events =
     (let fallback = filter (\<lambda>b. cb_session b = None) boundaries;
          scoped = om_group (\<lambda>b. map_option session_label (cb_session b)) boundaries;
          by_session = om_group (\<lambda>i. map_option session_label (ev_session (events ! i))) [0..<length events];
          unmapped = filter (\<lambda>i. ev_session (events ! i) = None) [0..<length events];
          targets = foldl (attribute_session scoped fallback available events) (replicate (length events) None) by_session;
          finished = foldl (\<lambda>ts (i, t). case t of None \<Rightarrow> ts | Some target \<Rightarrow> ts[i := Some target]) targets
            (zip unmapped (classify_events False available boundaries events unmapped))
      in collect_targets events finished)"

section \<open>Each record follows its own session\<close>

definition session_boundaries :: "claim_boundary list \<Rightarrow> session_id \<Rightarrow> claim_boundary set" where
  "session_boundaries bs s = {b \<in> set bs. cb_session b = Some s}"

definition sessions_of :: "claim_boundary list \<Rightarrow> attributable_event list \<Rightarrow> session_id set" where
  "sessions_of bs events = {s. Some s \<in> cb_session ` set bs \<or> Some s \<in> ev_session ` set events}"

definition event_target :: "claim_boundary list \<Rightarrow> bool \<Rightarrow> attributable_event \<Rightarrow> segment_target" where
  "event_target bs available e =
     (let w = \<lparr>uw_start = Some (ev_occurred_at e), uw_end = Some (ev_occurred_at e), uw_usage = ev_usage e\<rparr>;
          x = \<lparr>sx_session_is_mapped = ev_session e \<noteq> None, sx_tracker_available = available\<rparr>;
          fallback = {b \<in> set bs. cb_session b = None}
      in case ev_session e of
           None \<Rightarrow> attributed x (set bs) w
         | Some s \<Rightarrow>
             (let own = attributed x (session_boundaries bs s) w
              in if session_scoped_claim_covers own \<or> fallback = {} then own else attributed x fallback w))"

lemma om_group_get:
  "om_ok (om_group key xs) \<and>
   om_get (om_group key xs) k =
     (if filter (\<lambda>x. key x = Some k) xs = [] then None else Some (filter (\<lambda>x. key x = Some k) xs))"
proof (induction xs rule: rev_induct)
  case (snoc x xs)
  have "om_group key (xs @ [x]) =
      (case key x of None \<Rightarrow> om_group key xs | Some j \<Rightarrow> om_upd j [] (\<lambda>ys. ys @ [x]) (om_group key xs))"
    by (simp add: om_group_def split: option.split)
  then show ?case using snoc by (cases "key x") auto
qed (simp add: om_group_def)

lemma foldl_updates:
  "length (foldl (\<lambda>ts i. ts[i := g i]) ts js) = length ts"
  "j < length ts \<Longrightarrow> foldl (\<lambda>ts i. ts[i := g i]) ts js ! j = (if j \<in> set js then g j else ts ! j)"
  by (induction js arbitrary: ts) (auto simp: nth_list_update)

lemma foldl_zip_map: "foldl f s (zip xs (map g xs)) = foldl (\<lambda>s x. f s (x, g x)) s xs"
  by (induction xs arbitrary: s) simp_all

lemma classify_events_eq:
  "classify_events mapped available bs events indices =
     map (\<lambda>i. Some (attributed \<lparr>sx_session_is_mapped = mapped, sx_tracker_available = available\<rparr> (set bs)
       (event_window events i))) indices"
  by (simp add: classify_events_def classify_attributed comp_def)

lemma attribute_session_updates:
  assumes "om_get scoped key = (if bs = [] then None else Some bs)" "set fallback = {b \<in> set boundaries. cb_session b = None}"
    and "\<And>i. i \<in> set indices \<Longrightarrow> \<exists>s. ev_session (events ! i) = Some s \<and> set bs = session_boundaries boundaries s"
  shows "attribute_session scoped fallback available events ts (key, indices) =
    foldl (\<lambda>ts i. ts[i := Some (event_target boundaries available (events ! i))]) ts indices"
proof -
  have own: "(case om_get scoped key of None \<Rightarrow> [] | Some bs \<Rightarrow> bs) = bs" using assms(1) by simp
  have "foldl (\<lambda>ts i. ts[i := Some (let m = attributed \<lparr>sx_session_is_mapped = True, sx_tracker_available = available\<rparr>
          (set bs) (event_window events i)
        in if session_scoped_claim_covers m \<or> fallback = [] then m
           else attributed \<lparr>sx_session_is_mapped = True, sx_tracker_available = available\<rparr> (set fallback)
             (event_window events i))]) ts indices =
      foldl (\<lambda>ts i. ts[i := Some (event_target boundaries available (events ! i))]) ts indices"
  proof (rule foldl_cong)
    fix ts' i
    assume "i \<in> set indices"
    then obtain s where "ev_session (events ! i) = Some s" "set bs = session_boundaries boundaries s"
      using assms(3) by blast
    then show "ts'[i := Some (let m = attributed \<lparr>sx_session_is_mapped = True, sx_tracker_available = available\<rparr>
          (set bs) (event_window events i)
        in if session_scoped_claim_covers m \<or> fallback = [] then m
           else attributed \<lparr>sx_session_is_mapped = True, sx_tracker_available = available\<rparr> (set fallback)
             (event_window events i))] = ts'[i := Some (event_target boundaries available (events ! i))]"
      by (simp add: event_target_def event_window_def assms(2) [symmetric] Let_def)
  qed simp_all
  then show ?thesis
    unfolding attribute_session_def Let_def case_prod_conv own classify_events_eq
    by (simp add: zip_map_map foldl_zip_map zip_same_conv_map)
qed

lemma foldl_partitions:
  assumes "\<And>ts p. p \<in> set parts \<Longrightarrow> f ts p = foldl (\<lambda>ts i. ts[i := g i]) ts (snd p)"
  shows "length (foldl f ts parts) = length ts \<and> (j < length ts \<longrightarrow>
    foldl f ts parts ! j = (if \<exists>p\<in>set parts. j \<in> set (snd p) then g j else ts ! j))"
  using assms
proof (induction parts arbitrary: ts)
  case (Cons p parts)
  have step: "f ts p = foldl (\<lambda>ts i. ts[i := g i]) ts (snd p)" using Cons.prems(1) by simp
  then show ?case
    using Cons.IH [of "f ts p"] Cons.prems foldl_updates [where ts = ts and g = g and js = "snd p"] by auto
qed simp

lemma collect_all: "length ts = length es \<Longrightarrow> (\<And>i. i < length es \<Longrightarrow> ts ! i = Some (h (es ! i))) \<Longrightarrow>
    collect_targets es ts = Some (map (\<lambda>e. \<lparr>ea_canonical_id = ev_canonical_id e, ea_target = h e\<rparr>) es)"
proof (induction es ts rule: collect_targets.induct)
  case (3 e es t ts)
  have "ts ! i = Some (h (es ! i))" if "i < length es" for i using 3(3) [of "Suc i"] that by simp
  then show ?case using 3(1,2) 3(3) [of 0] by simp
qed simp_all

lemma group_entries:
  "p \<in> set (om_group key xs) \<longleftrightarrow> snd p \<noteq> [] \<and> snd p = filter (\<lambda>x. key x = Some (fst p)) xs"
  using om_group_get [of key xs "fst p"] om_ok_get_iff [of "om_group key xs" "fst p" "snd p"] by auto

lemma in_some_group:
  assumes "j \<in> set xs"
  shows "(\<exists>p\<in>set (om_group key xs). j \<in> set (snd p)) \<longleftrightarrow> key j \<noteq> None"
proof
  assume "key j \<noteq> None"
  then obtain k where k: "key j = Some k" by auto
  let ?p = "(k, filter (\<lambda>x. key x = Some k) xs)"
  have "j \<in> set (snd ?p)" using k assms by simp
  moreover from this have "?p \<in> set (om_group key xs)"
    unfolding group_entries by (metis fst_conv list.distinct(1) list.set_cases snd_conv)
  ultimately show "\<exists>p\<in>set (om_group key xs). j \<in> set (snd p)" by blast
next
  assume "\<exists>p\<in>set (om_group key xs). j \<in> set (snd p)"
  then obtain p where p: "p \<in> set (om_group key xs)" "j \<in> set (snd p)" by blast
  then have "snd p = filter (\<lambda>x. key x = Some (fst p)) xs" using group_entries by blast
  then have "j \<in> set (filter (\<lambda>x. key x = Some (fst p)) xs)" using p(2) by simp
  then show "key j \<noteq> None" by auto
qed

lemma label_names_session:
  assumes "inj_on session_label (sessions_of boundaries events)" "s \<in> sessions_of boundaries events"
  shows "set (filter (\<lambda>b. map_option session_label (cb_session b) = Some (session_label s)) boundaries) =
    session_boundaries boundaries s"
proof -
  have "s' = s" if "b \<in> set boundaries" "cb_session b = Some s'" "session_label s' = session_label s" for b s'
  proof -
    have "s' \<in> sessions_of boundaries events" using that(1,2) by (force simp: sessions_of_def)
    then show ?thesis using assms that(3) by (simp add: inj_on_eq_iff)
  qed
  then show ?thesis by (auto simp: session_boundaries_def)
qed

text \<open>
  C10. As long as different sessions of the batch and its claims have different labels, a batch is attributed record by
  record, in order and without a panic: a record without a session is unmapped, one with a session follows the claims
  bound to that session and, only where none of them covers its instant, the claims bound to no session; claims bound
  to other sessions never reach it.
\<close>

theorem records_follow_their_session:
  assumes "inj_on session_label (sessions_of boundaries events)"
  shows "attribute_events boundaries available events =
     Some (map (\<lambda>e. \<lparr>ea_canonical_id = ev_canonical_id e, ea_target = event_target boundaries available e\<rparr>) events)"
proof -
  let ?n = "length events"
  let ?fallback = "filter (\<lambda>b. cb_session b = None) boundaries"
  let ?scoped = "om_group (\<lambda>b. map_option session_label (cb_session b)) boundaries"
  let ?key = "\<lambda>i. map_option session_label (ev_session (events ! i))"
  let ?parts = "om_group ?key [0..<?n]"
  let ?g = "\<lambda>i. Some (event_target boundaries available (events ! i))"
  let ?unmapped = "filter (\<lambda>i. ev_session (events ! i) = None) [0..<?n]"
  have own: "attribute_session ?scoped ?fallback available events ts p = foldl (\<lambda>ts i. ts[i := ?g i]) ts (snd p)"
    if p: "p \<in> set ?parts" for ts p
  proof -
    have "attribute_session ?scoped ?fallback available events ts (fst p, snd p) = foldl (\<lambda>ts i. ts[i := ?g i]) ts (snd p)"
    proof (rule attribute_session_updates)
      show "om_get ?scoped (fst p) =
          (if filter (\<lambda>b. map_option session_label (cb_session b) = Some (fst p)) boundaries = [] then None
           else Some (filter (\<lambda>b. map_option session_label (cb_session b) = Some (fst p)) boundaries))"
        using om_group_get by blast
      show "set ?fallback = {b \<in> set boundaries. cb_session b = None}" by simp
      fix i
      assume "i \<in> set (snd p)"
      moreover have "snd p = filter (\<lambda>i. ?key i = Some (fst p)) [0..<?n]" using group_entries [THEN iffD1, OF p] by (rule conjunct2)
      ultimately have i: "i \<in> set (filter (\<lambda>i. ?key i = Some (fst p)) [0..<?n])" by simp
      then obtain s where s: "ev_session (events ! i) = Some s" "session_label s = fst p" by auto
      have "s \<in> sessions_of boundaries events"
        using s(1) i by (auto simp: sessions_of_def image_iff intro!: bexI [of _ "events ! i"])
      from label_names_session [OF assms this]
      show "\<exists>s. ev_session (events ! i) = Some s \<and>
          set (filter (\<lambda>b. map_option session_label (cb_session b) = Some (fst p)) boundaries) = session_boundaries boundaries s"
        unfolding s(2) using s(1) by (intro exI [of _ s] conjI)
    qed
    then show ?thesis by simp
  qed
  let ?targets = "foldl (attribute_session ?scoped ?fallback available events) (replicate ?n None) ?parts"
  have in_part: "(\<exists>p\<in>set ?parts. j \<in> set (snd p)) \<longleftrightarrow> ev_session (events ! j) \<noteq> None" if "j < ?n" for j
    using in_some_group [of j "[0..<?n]" ?key] that by simp
  have "length ?targets = ?n \<and> (j < ?n \<longrightarrow> ?targets ! j = (if \<exists>p\<in>set ?parts. j \<in> set (snd p) then ?g j else None))" for j
    using foldl_partitions [where f = "attribute_session ?scoped ?fallback available events" and g = ?g and
        parts = ?parts and ts = "replicate ?n None" and j = j, OF own] by simp
  then have targets: "length ?targets = ?n"
      "j < ?n \<Longrightarrow> ?targets ! j = (if ev_session (events ! j) \<noteq> None then ?g j else None)" for j
    using in_part by simp_all
  have unmapped: "foldl (\<lambda>ts (i, t). case t of None \<Rightarrow> ts | Some target \<Rightarrow> ts[i := Some target]) ts
      (zip ?unmapped (classify_events False available boundaries events ?unmapped)) =
      foldl (\<lambda>ts i. ts[i := ?g i]) ts ?unmapped" for ts
  proof -
    have "foldl (\<lambda>ts i. ts[i := Some (attributed \<lparr>sx_session_is_mapped = False, sx_tracker_available = available\<rparr>
        (set boundaries) (event_window events i))]) ts ?unmapped = foldl (\<lambda>ts i. ts[i := ?g i]) ts ?unmapped"
      by (rule foldl_cong) (simp_all add: event_target_def event_window_def)
    then show ?thesis unfolding classify_events_eq foldl_zip_map by simp
  qed
  show ?thesis
    unfolding attribute_events_def Let_def unmapped
  proof (rule collect_all)
    show "length (foldl (\<lambda>ts i. ts[i := ?g i]) ?targets ?unmapped) = length events"
      unfolding foldl_updates(1) by (rule targets(1))
    fix i
    assume "i < ?n"
    then show "foldl (\<lambda>ts i. ts[i := ?g i]) ?targets ?unmapped ! i = ?g i"
      using foldl_updates(2) [of i ?targets ?g ?unmapped] targets(1) targets(2) [of i] by (cases "ev_session (events ! i)") simp_all
  qed
qed

text \<open>
  The partition key joins the source and the native id with a separator either of them may contain; sources without
  the separator have different labels for different sessions.
\<close>

lemma session_labels_differ:
  assumes "\<And>s. s \<in> sessions \<Longrightarrow> CHR '':'' \<notin> set (si_source s)"
  shows "inj_on session_label sessions"
proof (rule inj_onI)
  have parts: "split_once (CHR '':'') (session_label s) = Some (si_source s, si_native s)" if "s \<in> sessions" for s
    using assms that by (simp add: session_label_def split_once_append)
  fix s s' assume "s \<in> sessions" "s' \<in> sessions" "session_label s = session_label s'"
  then show "s = s'" using parts [of s] parts [of s'] by simp
qed

lemma session_label_aliases:
  "session_label \<lparr>si_source = ''a'', si_native = ''b:c''\<rparr> = session_label \<lparr>si_source = ''a:b'', si_native = ''c''\<rparr>"
  "\<lparr>si_source = ''a'', si_native = ''b:c''\<rparr> \<noteq> \<lparr>si_source = ''a:b'', si_native = ''c''\<rparr>"
  by (simp_all add: session_label_def)

definition sample_session :: "string \<Rightarrow> session_id" where
  "sample_session native = \<lparr>si_source = ''pi'', si_native = native\<rparr>"

definition sample_claims :: "claim_boundary list" where
  "sample_claims =
     [\<lparr>cb_task = \<lparr>ti_source = ''br'', ti_native = ''t1''\<rparr>, cb_occurred_at = 5, cb_kind = Claim, cb_agent = None,
       cb_session = Some (sample_session ''one'')\<rparr>]"

definition sample_usage_record :: "string \<Rightarrow> utc_timestamp \<Rightarrow> session_id option \<Rightarrow> attributable_event" where
  "sample_usage_record i t s =
     \<lparr>ev_canonical_id = i, ev_occurred_at = t, ev_session = s,
      ev_usage = known_new (InputTokens 1) (OutputTokens 1) (CacheReadTokens 0) (CacheWriteTokens 0)\<rparr>"

definition sample_usage_records :: "attributable_event list" where
  "sample_usage_records =
     [sample_usage_record ''a'' 9 (Some (sample_session ''one'')), sample_usage_record ''b'' 9 (Some (sample_session ''two'')),
      sample_usage_record ''c'' 3 (Some (sample_session ''one'')), sample_usage_record ''d'' 9 None]"

theorem records_follow_their_session_witness:
  "attribute_events sample_claims True sample_usage_records = Some
     [\<lparr>ea_canonical_id = ''a'', ea_target = TaskTarget \<lparr>ti_source = ''br'', ti_native = ''t1''\<rparr>\<rparr>,
      \<lparr>ea_canonical_id = ''b'', ea_target = Overhead UnclaimedSession\<rparr>,
      \<lparr>ea_canonical_id = ''c'', ea_target = Overhead BeforeFirstClaim\<rparr>,
      \<lparr>ea_canonical_id = ''d'', ea_target = Overhead UnmappedSession\<rparr>]"
proof -
  have labels: "inj_on session_label (sessions_of sample_claims sample_usage_records)"
    by (rule session_labels_differ)
      (auto simp: sessions_of_def sample_claims_def sample_usage_records_def sample_usage_record_def sample_session_def)
  have one: "session_boundaries sample_claims (sample_session ''one'') = set sample_claims"
    and two: "session_boundaries sample_claims (sample_session ''two'') = {}"
    and none: "{b \<in> set sample_claims. cb_session b = None} = {}"
    by (auto simp: session_boundaries_def sample_claims_def sample_session_def)
  show ?thesis
    unfolding records_follow_their_session [OF labels]
    by (simp add: sample_usage_records_def sample_usage_record_def event_target_def one two none)
      (simp add: sample_claims_def attributed_def interval_target_def held_state_def is_claim_def is_release_def
        session_scoped_claim_covers_def Collect_conv_if conj_disj_distribR cong: conj_cong)
qed

end
