(* ===== verification/Account_Segments.thy ===== *)
theory Account_Segments
  imports Segments_Laws Selection "HOL-Library.Option_ord" "HOL-Library.Product_Lexorder"
begin

text \<open>
  \<open>src/attribution/account_segment.rs\<close>: a session's usage placed on accounts by the timeline of its account
  markers of the best evidence class, and what that guarantees. The hash map is a list of entries; its zero vector
  is the one of the task segments.
\<close>

section \<open>Evidence classes\<close>

datatype evidence_class =
  ExplicitLauncherOrHook | ExplicitProviderIdentity | ConfiguredCredentialMapping
| ConservativeTemporalInference | Unattributed

definition all_classes :: "evidence_class list" where
  "all_classes = [ExplicitLauncherOrHook, ExplicitProviderIdentity, ConfiguredCredentialMapping,
     ConservativeTemporalInference, Unattributed]"

fun class_rank :: "evidence_class \<Rightarrow> nat" where
  "class_rank ExplicitLauncherOrHook = 1"
| "class_rank ExplicitProviderIdentity = 2"
| "class_rank ConfiguredCredentialMapping = 3"
| "class_rank ConservativeTemporalInference = 4"
| "class_rank Unattributed = 5"

definition takes_precedence_over :: "evidence_class \<Rightarrow> evidence_class \<Rightarrow> bool" where
  "takes_precedence_over a b \<longleftrightarrow> class_rank a < class_rank b"

definition is_inferred :: "evidence_class \<Rightarrow> bool" where
  "is_inferred c \<longleftrightarrow> c = ConservativeTemporalInference"

definition is_explicit :: "evidence_class \<Rightarrow> bool" where
  "is_explicit c \<longleftrightarrow> c = ExplicitLauncherOrHook \<or> c = ExplicitProviderIdentity"

definition is_eligible_for_passive_calibration :: "evidence_class \<Rightarrow> bool" where
  "is_eligible_for_passive_calibration c \<longleftrightarrow> \<not> is_inferred c \<and> c \<noteq> Unattributed"

fun class_as_str :: "evidence_class \<Rightarrow> string" where
  "class_as_str ExplicitLauncherOrHook = ''explicit_launcher_or_hook''"
| "class_as_str ExplicitProviderIdentity = ''explicit_provider_identity''"
| "class_as_str ConfiguredCredentialMapping = ''configured_credential_mapping''"
| "class_as_str ConservativeTemporalInference = ''conservative_temporal_inference''"
| "class_as_str Unattributed = ''unattributed''"

definition class_parse :: "string \<Rightarrow> evidence_class option" where
  "class_parse s =
     (if s \<in> {''explicit_launcher_or_hook'', ''launcher_or_hook''} then Some ExplicitLauncherOrHook
      else if s \<in> {''explicit_provider_identity'', ''provider_identity''} then Some ExplicitProviderIdentity
      else if s \<in> {''configured_credential_mapping'', ''credential_mapping''} then Some ConfiguredCredentialMapping
      else if s \<in> {''conservative_temporal_inference'', ''temporal_inference'', ''inferred''}
      then Some ConservativeTemporalInference
      else if s = ''unattributed'' then Some Unattributed else None)"

lemma class_rank_inject [simp]: "class_rank a = class_rank b \<longleftrightarrow> a = b"
  by (cases a; cases b) simp_all

lemma class_parse_as_str: "class_parse (class_as_str c) = Some c"
  by (cases c) (simp_all add: class_parse_def)

section \<open>Markers and events\<close>

record account_marker =
  am_account :: string
  am_observed_at :: utc_timestamp
  am_ordering_key :: "i64 option"
  am_class :: evidence_class
  am_validated :: bool

definition marker_explicit :: "string \<Rightarrow> utc_timestamp \<Rightarrow> i64 option \<Rightarrow> account_marker" where
  "marker_explicit account observed_at key =
     \<lparr>am_account = account, am_observed_at = observed_at, am_ordering_key = key,
      am_class = ExplicitLauncherOrHook, am_validated = True\<rparr>"

definition marker_inferred :: "string \<Rightarrow> utc_timestamp \<Rightarrow> i64 option \<Rightarrow> account_marker" where
  "marker_inferred account observed_at key =
     \<lparr>am_account = account, am_observed_at = observed_at, am_ordering_key = key,
      am_class = ConservativeTemporalInference, am_validated = True\<rparr>"

definition effective_class :: "account_marker \<Rightarrow> evidence_class" where
  "effective_class m =
     (if am_class m = ConfiguredCredentialMapping \<and> \<not> am_validated m then ConservativeTemporalInference else am_class m)"

record account_event =
  ae_occurred_at :: utc_timestamp
  ae_usage :: known_tokens

datatype account_target = Account string | UnknownAccount

record account_inputs =
  ai_markers :: "account_marker list"
  ai_usage :: "account_event list"

record account_result =
  ar_per_account :: "(string \<times> known_tokens \<times> evidence_class) list"
  ar_unknown :: "known_tokens option"

definition empty_account_result :: account_result where
  "empty_account_result = \<lparr>ar_per_account = [], ar_unknown = None\<rparr>"

definition entry_add :: "known_tokens \<times> evidence_class \<Rightarrow> known_tokens \<times> evidence_class \<Rightarrow> known_tokens \<times> evidence_class" where
  "entry_add e new =
     (known_add (fst e) (fst new), if takes_precedence_over (snd new) (snd e) then snd new else snd e)"

definition account_add :: "account_result \<Rightarrow> account_target \<Rightarrow> known_tokens \<Rightarrow> evidence_class \<Rightarrow> account_result" where
  "account_add r target usage c =
     (case target of
        Account a \<Rightarrow> r\<lparr>ar_per_account := bucket_add entry_add (zero_vector, c) a (usage, c) (ar_per_account r)\<rparr>
      | UnknownAccount \<Rightarrow>
          r\<lparr>ar_unknown := Some (known_add (case ar_unknown r of None \<Rightarrow> zero_vector | Some v \<Rightarrow> v) usage)\<rparr>)"

definition account_usage :: "account_result \<Rightarrow> string \<Rightarrow> known_tokens option" where
  "account_usage r a = map_option fst (map_of (ar_per_account r) a)"

definition account_evidence_class :: "account_result \<Rightarrow> string \<Rightarrow> evidence_class option" where
  "account_evidence_class r a = map_option snd (map_of (ar_per_account r) a)"

definition account_total :: "account_result \<Rightarrow> known_tokens" where
  "account_total r = foldl known_add zero_vector
     (map (fst \<circ> snd) (ar_per_account r) @ (case ar_unknown r of None \<Rightarrow> [] | Some v \<Rightarrow> [v]))"

section \<open>The timeline\<close>

record marker_interval =
  mi_lo :: utc_timestamp
  mi_hi :: "utc_timestamp option"
  mi_account :: string
  mi_class :: evidence_class

definition marker_order :: "account_marker \<Rightarrow> utc_timestamp \<times> i64 option" where
  "marker_order m = (am_observed_at m, am_ordering_key m)"

fun marker_walk :: "account_marker list \<Rightarrow> marker_interval list" where
  "marker_walk [] = []"
| "marker_walk (m # ms) =
     \<lparr>mi_lo = am_observed_at m, mi_hi = (case ms of [] \<Rightarrow> None | n # _ \<Rightarrow> Some (am_observed_at n)),
      mi_account = am_account m, mi_class = effective_class m\<rparr> # marker_walk ms"

definition winning_rank :: "account_marker list \<Rightarrow> nat" where
  "winning_rank markers = Min (set (map (\<lambda>m. class_rank (effective_class m)) markers))"

definition marker_intervals :: "account_marker list \<Rightarrow> marker_interval list" where
  "marker_intervals markers =
     (if markers = [] then []
      else marker_walk (sort_key marker_order
             (filter (\<lambda>m. class_rank (effective_class m) = winning_rank markers) markers)))"

definition marker_locate :: "marker_interval list \<Rightarrow> utc_timestamp \<Rightarrow> marker_interval option" where
  "marker_locate intervals t =
     find (\<lambda>i. mi_lo i \<le> t \<and> (case mi_hi i of None \<Rightarrow> True | Some hi \<Rightarrow> t < hi)) intervals"

definition assign :: "account_inputs \<Rightarrow> (account_target \<times> evidence_class) list" where
  "assign inputs =
     (let intervals = marker_intervals (ai_markers inputs)
      in map (\<lambda>e. case marker_locate intervals (ae_occurred_at e) of
                     Some i \<Rightarrow> (Account (mi_account i), mi_class i)
                   | None \<Rightarrow> (UnknownAccount, Unattributed)) (ai_usage inputs))"

definition account_segment :: "account_inputs \<Rightarrow> account_result" where
  "account_segment inputs =
     foldl (\<lambda>r (e, target, c). account_add r target (ae_usage e) c) empty_account_result
       (zip (ai_usage inputs) (assign inputs))"

section \<open>Which marker governs an instant\<close>

lemma last_insort:
  "sorted (map k zs) \<Longrightarrow> zs \<noteq> [] \<Longrightarrow> last (insort_key k y zs) = (if k (last zs) < k y then y else last zs)"
proof (induction zs)
  case (Cons z zs)
  show ?case
  proof (cases zs)
    case (Cons w ws)
    have "k z \<le> k (last zs)" using Cons.prems Cons by (auto intro: last_in_set)
    then show ?thesis using Cons.IH Cons.prems Cons by auto
  qed auto
qed simp

lemma last_sort_key:
  "xs \<noteq> [] \<Longrightarrow> first_best (\<lambda>x y. k y < k x) (rev xs) = Some (last (sort_key k xs))"
proof (induction xs)
  case (Cons x xs)
  have snoc: "first_best (\<lambda>x y. k y < k x) (ys @ [x]) = keep_best (\<lambda>x y. k y < k x) (first_best (\<lambda>x y. k y < k x) ys) x" for ys
    using greatest.foldl_keep_None [of k "ys @ [x]"] greatest.foldl_keep_None [of k ys] by simp
  show ?case
  proof (cases "xs = []")
    case False
    then have "sort_key k xs \<noteq> []" by (simp add: sort_key_Nil)
    then show ?thesis
      using Cons.IH [OF False] snoc [of "rev xs"] last_insort [of k "sort_key k xs" x]
      by (simp add: keep_best_def)
  qed (simp add: keep_best_def)
qed simp

lemma walk_locates_last:
  "sorted (map am_observed_at ms) \<Longrightarrow>
   map_option (\<lambda>i. (mi_account i, mi_class i)) (marker_locate (marker_walk ms) t) =
     (let ds = filter (\<lambda>m. am_observed_at m \<le> t) ms
      in if ds = [] then None else Some (am_account (last ds), effective_class (last ds)))"
proof (induction ms)
  case (Cons m ms)
  then have IH: "map_option (\<lambda>i. (mi_account i, mi_class i)) (marker_locate (marker_walk ms) t) =
     (let ds = filter (\<lambda>m. am_observed_at m \<le> t) ms
      in if ds = [] then None else Some (am_account (last ds), effective_class (last ds)))" by simp
  have late: "filter (\<lambda>m. am_observed_at m \<le> t) ms = []" if "ms \<noteq> []" "t < am_observed_at (hd ms)"
    using that Cons.prems by (cases ms) (auto simp: filter_empty_conv)
  show ?case
  proof (cases ms)
    case Nil
    then show ?thesis by (simp add: marker_locate_def Let_def)
  next
    case (Cons n ns)
    consider "t < am_observed_at m" | "am_observed_at m \<le> t" "t < am_observed_at n" | "am_observed_at n \<le> t"
      by (auto simp: not_le [symmetric])
    then show ?thesis
    proof cases
      case 1
      then have "t < am_observed_at n" using Cons \<open>sorted (map am_observed_at (m # ms))\<close> by simp
      then have "filter (\<lambda>m. am_observed_at m \<le> t) ms = []" using late Cons by simp
      then show ?thesis using 1 IH by (simp add: marker_locate_def Let_def)
    next
      case 2
      then have "filter (\<lambda>m. am_observed_at m \<le> t) ms = []" using late Cons by simp
      then show ?thesis using 2 by (simp add: marker_locate_def Let_def Cons)
    next
      case 3
      then have "am_observed_at m \<le> t" using Cons \<open>sorted (map am_observed_at (m # ms))\<close> by simp
      moreover have "filter (\<lambda>m. am_observed_at m \<le> t) ms \<noteq> []" using 3 Cons by simp
      ultimately show ?thesis using 3 IH Cons by (simp add: marker_locate_def Let_def)
    qed
  qed
qed (simp add: marker_locate_def)

text \<open>The marker in force: of the best class, observed by the instant, and the last of these in marker order.\<close>

definition governs :: "account_marker list \<Rightarrow> utc_timestamp \<Rightarrow> account_marker \<Rightarrow> bool" where
  "governs markers t m \<longleftrightarrow> class_rank (effective_class m) = winning_rank markers \<and> am_observed_at m \<le> t"

definition governing_marker :: "account_marker list \<Rightarrow> utc_timestamp \<Rightarrow> account_marker option" where
  "governing_marker markers t =
     first_best (\<lambda>x y. marker_order y < marker_order x) (rev (filter (governs markers t) markers))"

definition assigned :: "account_marker list \<Rightarrow> account_event \<Rightarrow> account_target \<times> evidence_class" where
  "assigned markers e =
     (case governing_marker markers (ae_occurred_at e) of
        None \<Rightarrow> (UnknownAccount, Unattributed)
      | Some m \<Rightarrow> (Account (am_account m), effective_class m))"

lemma sorted_marker_order: "sorted (map marker_order ms) \<Longrightarrow> sorted (map am_observed_at ms)"
  by (induction ms) (force simp: marker_order_def less_eq_prod_def)+

lemma assign_eq: "assign inputs = map (assigned (ai_markers inputs)) (ai_usage inputs)"
proof -
  let ?ms = "ai_markers inputs"
  let ?w = "\<lambda>m. class_rank (effective_class m) = winning_rank ?ms"
  let ?qs = "sort_key marker_order (filter ?w ?ms)"
  have "(case marker_locate (marker_intervals ?ms) t of
          Some i \<Rightarrow> (Account (mi_account i), mi_class i) | None \<Rightarrow> (UnknownAccount, Unattributed)) =
        (case governing_marker ?ms t of
          None \<Rightarrow> (UnknownAccount, Unattributed) | Some m \<Rightarrow> (Account (am_account m), effective_class m))" for t
  proof -
    let ?ds = "filter (\<lambda>m. am_observed_at m \<le> t) ?qs"
    have walk: "marker_intervals ?ms = marker_walk ?qs" by (simp add: marker_intervals_def)
    have "?ds = sort_key marker_order (filter (governs ?ms t) ?ms)"
      by (simp add: filter_sort governs_def [abs_def] conj_commute)
    moreover from this have "?ds = [] \<longleftrightarrow> filter (governs ?ms t) ?ms = []" by (simp only: sort_key_Nil)
    ultimately have "governing_marker ?ms t = (if ?ds = [] then None else Some (last ?ds))"
      using last_sort_key [of "filter (governs ?ms t) ?ms" marker_order] by (auto simp: governing_marker_def)
    moreover have "map_option (\<lambda>i. (mi_account i, mi_class i)) (marker_locate (marker_walk ?qs) t) =
        (if ?ds = [] then None else Some (am_account (last ?ds), effective_class (last ?ds)))"
      using walk_locates_last [of ?qs t] sorted_marker_order [of ?qs] by (simp add: Let_def)
    ultimately show ?thesis unfolding walk by (auto split: option.splits if_splits)
  qed
  then show ?thesis by (simp add: assign_def assigned_def Let_def)
qed

text \<open>
  Each event goes to the account of one marker: a marker of the best evidence class of the session, observed no
  later than the event, that comes after every other such marker in marker order, ties going to the later in the
  input; it goes to the unknown account exactly when no marker of that class precedes it.
\<close>

theorem usage_follows_the_best_markers:
  "assign inputs = map (assigned (ai_markers inputs)) (ai_usage inputs) \<and>
   (governing_marker markers t = Some m \<longleftrightarrow>
      (\<exists>pre post. filter (governs markers t) markers = pre @ m # post \<and>
         (\<forall>n\<in>set pre. marker_order n \<le> marker_order m) \<and> (\<forall>n\<in>set post. marker_order n < marker_order m))) \<and>
   (governing_marker markers t = None \<longleftrightarrow> (\<forall>n\<in>set markers. \<not> governs markers t n))"
proof -
  let ?xs = "filter (governs markers t) markers"
  have "rev ?xs = pre @ m # post \<longleftrightarrow> ?xs = rev post @ m # rev pre" for pre post
    by (metis append.assoc append_Cons append_Nil rev.simps(2) rev_append rev_swap)
  then have turn: "(\<exists>pre post. rev ?xs = pre @ m # post \<and> P pre \<and> Q post) \<longleftrightarrow>
      (\<exists>pre post. ?xs = pre @ m # post \<and> Q (rev pre) \<and> P (rev post))" for P Q
    by (metis rev_rev_ident)
  show ?thesis
    using turn [of "\<lambda>pre. \<forall>y\<in>set pre. marker_order y < marker_order m"
        "\<lambda>post. \<forall>y\<in>set post. \<not> marker_order m < marker_order y"]
    by (simp add: assign_eq not_less conj_commute governing_marker_def greatest.first_best_iff filter_empty_conv)
qed

section \<open>Totals\<close>

definition usage_of :: "(string \<times> known_tokens \<times> evidence_class) list \<Rightarrow> (string \<times> known_tokens) list" where
  "usage_of bs = map (\<lambda>(a, v, _). (a, v)) bs"

lemma usage_of_add:
  "usage_of (bucket_add entry_add (zero_vector, c) a (usage, c) bs) = bucket_add known_add zero_vector a usage (usage_of bs)"
  by (induction bs) (auto simp: usage_of_def entry_add_def)

lemma values_usage_of: "map (fst \<circ> snd) bs = map snd (usage_of bs)"
  by (auto simp: usage_of_def)

lemma map_of_usage_of: "map_option fst (map_of bs a) = map_of (usage_of bs) a"
  by (induction bs) (auto simp: usage_of_def)

lemma account_add_total: "account_total (account_add r target usage c) = known_add (account_total r) usage"
proof (cases target)
  case UnknownAccount
  have zero: "known_add (foldl known_add zero_vector vs) (known_add zero_vector usage) = known_add (foldl known_add zero_vector vs) usage" for vs
    by (rule known_eqI) (simp add: known_value_add add_u64_def wrap_u64_def mod_simps)
  then show ?thesis
    using UnknownAccount
    by (cases "ar_unknown r") (simp_all add: account_total_def account_add_def zero known_sum.combine_assoc)
qed (simp add: account_total_def account_add_def values_usage_of usage_of_add usage_buckets.fold_bucket_add_front
    del: foldl_append)

lemma assigned_class:
  assumes "assigned markers e = (Account a, c)"
  shows "class_rank c = winning_rank markers"
proof -
  obtain m where m: "governing_marker markers (ae_occurred_at e) = Some m" "c = effective_class m"
    using assms by (auto simp: assigned_def split: option.splits)
  then have "m \<in> set (filter (governs markers (ae_occurred_at e)) markers)"
    using first_best_in unfolding governing_marker_def by fastforce
  then show ?thesis using m(2) by (simp add: governs_def)
qed

lemma fold_accounts:
  fixes f :: "account_event \<Rightarrow> account_target \<times> evidence_class"
  defines "run \<equiv> foldl (\<lambda>r e. account_add r (fst (f e)) (ae_usage e) (snd (f e))) empty_account_result"
  shows "account_total (run es) = foldl known_add zero_vector (map ae_usage es)"
    and "account_usage (run es) a = total_where (\<lambda>e. fst (f e) = Account a) ae_usage es"
    and "ar_unknown (run es) = total_where (\<lambda>e. fst (f e) = UnknownAccount) ae_usage es"
    and "(\<And>e b. e \<in> set es \<Longrightarrow> fst (f e) = Account b \<Longrightarrow> P (snd (f e))) \<Longrightarrow>
      \<forall>c\<in>set (map (snd \<circ> snd) (ar_per_account (run es))). P c"
proof (induction es rule: rev_induct)
  case Nil
  show "account_total (run []) = foldl known_add zero_vector (map ae_usage [])"
    "account_usage (run []) a = total_where (\<lambda>e. fst (f e) = Account a) ae_usage []"
    "ar_unknown (run []) = total_where (\<lambda>e. fst (f e) = UnknownAccount) ae_usage []"
    "\<forall>c\<in>set (map (snd \<circ> snd) (ar_per_account (run []))). P c"
    by (simp_all add: run_def empty_account_result_def account_total_def account_usage_def total_where_def)
next
  case (snoc e es)
  have run: "run (es @ [e]) = account_add (run es) (fst (f e)) (ae_usage e) (snd (f e))" by (simp add: run_def)
  show "account_total (run (es @ [e])) = foldl known_add zero_vector (map ae_usage (es @ [e]))"
    unfolding run account_add_total snoc(1) by simp
  show "account_usage (run (es @ [e])) a = total_where (\<lambda>e. fst (f e) = Account a) ae_usage (es @ [e])"
    unfolding run total_where_snoc using snoc(2)
    by (simp add: account_usage_def account_add_def map_of_usage_of usage_of_add bucket_get split: account_target.split)
  show "ar_unknown (run (es @ [e])) = total_where (\<lambda>e. fst (f e) = UnknownAccount) ae_usage (es @ [e])"
    unfolding run total_where_snoc using snoc(3) by (simp add: account_add_def split: account_target.split)
  assume ok: "\<And>e' b. e' \<in> set (es @ [e]) \<Longrightarrow> fst (f e') = Account b \<Longrightarrow> P (snd (f e'))"
  have keep: "\<forall>c\<in>set (map (snd \<circ> snd) bs). P c \<Longrightarrow> P d \<Longrightarrow>
      \<forall>c\<in>set (map (snd \<circ> snd) (bucket_add entry_add (zero_vector, d) b (u, d) bs)). P c" for bs b u d
  proof (induction bs)
    case (Cons x xs)
    then show ?case by (cases x) (simp add: entry_add_def)
  qed (simp add: entry_add_def)
  have "\<forall>c\<in>set (map (snd \<circ> snd) (ar_per_account (run es))). P c" using snoc(4) ok by (metis UnI1 set_append)
  note before = this
  show "\<forall>c\<in>set (map (snd \<circ> snd) (ar_per_account (run (es @ [e])))). P c"
  proof (cases "fst (f e)")
    case (Account b)
    have "P (snd (f e))" by (rule ok [OF _ Account]) simp
    from keep [OF before this]
    have "\<forall>c\<in>set (map (snd \<circ> snd) (bucket_add entry_add (zero_vector, snd (f e)) b (ae_usage e, snd (f e))
        (ar_per_account (run es)))). P c" .
    moreover have "ar_per_account (run (es @ [e])) =
        bucket_add entry_add (zero_vector, snd (f e)) b (ae_usage e, snd (f e)) (ar_per_account (run es))"
      unfolding run by (simp add: account_add_def Account)
    ultimately show ?thesis by (simp only:)
  next
    case UnknownAccount
    then have "ar_per_account (run (es @ [e])) = ar_per_account (run es)" unfolding run by (simp add: account_add_def)
    then show ?thesis using before by (simp only:)
  qed
qed

lemma account_segment_run:
  "account_segment inputs =
     foldl (\<lambda>r e. account_add r (fst (assigned (ai_markers inputs) e)) (ae_usage e) (snd (assigned (ai_markers inputs) e)))
       empty_account_result (ai_usage inputs)"
proof -
  have "foldl (\<lambda>r (e, target, c). account_add r target (ae_usage e) c) r (zip es (map g es)) =
      foldl (\<lambda>r e. account_add r (fst (g e)) (ae_usage e) (snd (g e))) r es" for r es g
    by (induction es arbitrary: r) (simp_all add: case_prod_beta)
  then show ?thesis by (simp add: account_segment_def assign_eq)
qed

lemma accounts_conserved:
  "account_total (account_segment inputs) = foldl known_add zero_vector (map ae_usage (ai_usage inputs))"
  "account_usage (account_segment inputs) a =
     total_where (\<lambda>e. fst (assigned (ai_markers inputs) e) = Account a) ae_usage (ai_usage inputs)"
  "ar_unknown (account_segment inputs) =
     total_where (\<lambda>e. fst (assigned (ai_markers inputs) e) = UnknownAccount) ae_usage (ai_usage inputs)"
  unfolding account_segment_run using fold_accounts(1-3) by blast+

lemma account_classes:
  "set (map (snd \<circ> snd) (ar_per_account (account_segment inputs))) \<subseteq> {c. class_rank c = winning_rank (ai_markers inputs)}"
proof -
  have "class_rank (snd (assigned (ai_markers inputs) e)) = winning_rank (ai_markers inputs)"
    if "fst (assigned (ai_markers inputs) e) = Account b" for e b
    using assigned_class that by (metis prod.collapse)
  then show ?thesis
    unfolding account_segment_run
    using fold_accounts(4) [of "ai_usage inputs" "assigned (ai_markers inputs)"
      "\<lambda>c. class_rank c = winning_rank (ai_markers inputs)"] by blast
qed

text \<open>
  Account segmentation conserves usage: the accounts and the unknown bucket together hold the sum of the events, per
  token kind and modulo the width of a count; each holds exactly the events assigned to it; and every account is
  justified by the one evidence class that wins in the session.
\<close>

theorem accounts_conserve_usage:
  "account_total (account_segment inputs) = foldl known_add zero_vector (map ae_usage (ai_usage inputs)) \<and>
   account_usage (account_segment inputs) a =
     total_where (\<lambda>e. fst (assigned (ai_markers inputs) e) = Account a) ae_usage (ai_usage inputs) \<and>
   ar_unknown (account_segment inputs) =
     total_where (\<lambda>e. fst (assigned (ai_markers inputs) e) = UnknownAccount) ae_usage (ai_usage inputs) \<and>
   set (map (snd \<circ> snd) (ar_per_account (account_segment inputs))) \<subseteq> {c. class_rank c = winning_rank (ai_markers inputs)}"
  using accounts_conserved account_classes by blast

end
