(* ===== verification/Attribution_Quality.thy ===== *)
theory Attribution_Quality
  imports Account_Segments
begin

text \<open>
  \<open>src/attribution/quality.rs\<close>: how much usage carries an account, per token kind and evidence class, over all
  history and over a recent window, and the advisory floor. The floor is its parts per million; the constructor
  from a float and the float views are not modelled.
\<close>

section \<open>Observations and fractions\<close>

record quality_observation =
  qo_class :: evidence_class
  qo_usage :: known_tokens
  qo_observed_at :: "utc_timestamp option"

definition observations_from_segmentation :: "account_result \<Rightarrow> utc_timestamp option \<Rightarrow> quality_observation list" where
  "observations_from_segmentation r observed_at =
     map (\<lambda>(_, usage, c). \<lparr>qo_class = c, qo_usage = usage, qo_observed_at = observed_at\<rparr>) (ar_per_account r) @
     (case ar_unknown r of
        None \<Rightarrow> []
      | Some usage \<Rightarrow> [\<lparr>qo_class = Unattributed, qo_usage = usage, qo_observed_at = observed_at\<rparr>])"

record attribution_fraction =
  af_numerator :: u64
  af_denominator :: u64

definition fraction_ppm :: "attribution_fraction \<Rightarrow> u32 option" where
  "fraction_ppm f =
     (if af_denominator f = 0 then None
      else Some (min ((af_numerator f * 1000000 + af_denominator f div 2) div af_denominator f) 1000000))"

definition is_below :: "attribution_fraction \<Rightarrow> u32 \<Rightarrow> bool" where
  "is_below f floor_ppm \<longleftrightarrow>
     af_denominator f \<noteq> 0 \<and> af_numerator f * 1000000 < floor_ppm * af_denominator f"

section \<open>The metric\<close>

type_synonym class_breakdown = "u64 list"

definition empty_breakdown :: class_breakdown where
  "empty_breakdown = replicate 5 0"

definition breakdown_add :: "class_breakdown \<Rightarrow> evidence_class \<Rightarrow> u64 \<Rightarrow> class_breakdown" where
  "breakdown_add b c tokens = b[class_rank c - 1 := add_u64 (b ! (class_rank c - 1)) tokens]"

definition class_tokens :: "class_breakdown \<Rightarrow> evidence_class \<Rightarrow> u64" where
  "class_tokens b c = b ! (class_rank c - 1)"

definition breakdown_total :: "class_breakdown \<Rightarrow> u64" where
  "breakdown_total b = foldl add_u64 0 b"

definition attributed_tokens :: "class_breakdown \<Rightarrow> u64" where
  "attributed_tokens b = foldl add_u64 0 (map (class_tokens b) (filter (\<lambda>c. c \<noteq> Unattributed) all_classes))"

definition unknown_account_tokens :: "class_breakdown \<Rightarrow> u64" where
  "unknown_account_tokens b = class_tokens b Unattributed"

definition attributed_fraction :: "class_breakdown \<Rightarrow> attribution_fraction" where
  "attributed_fraction b = \<lparr>af_numerator = attributed_tokens b, af_denominator = breakdown_total b\<rparr>"

definition class_fraction :: "class_breakdown \<Rightarrow> evidence_class \<Rightarrow> attribution_fraction" where
  "class_fraction b c = \<lparr>af_numerator = class_tokens b c, af_denominator = breakdown_total b\<rparr>"

definition kind_index :: "token_kind \<Rightarrow> nat" where
  "kind_index k = (case k of Input_Kind \<Rightarrow> 0 | Output_Kind \<Rightarrow> 1 | CacheRead_Kind \<Rightarrow> 2 | CacheWrite_Kind \<Rightarrow> 3)"

record attribution_quality =
  aq_per_kind :: "class_breakdown list"
  aq_observation_count :: u64

definition observe_kind :: "quality_observation \<Rightarrow> class_breakdown list \<Rightarrow> token_kind \<Rightarrow> class_breakdown list" where
  "observe_kind ob per_kind k =
     per_kind[kind_index k := breakdown_add (per_kind ! kind_index k) (qo_class ob) (known_value (qo_usage ob) k)]"

fun over_walk :: "attribution_quality \<Rightarrow> quality_observation list \<Rightarrow> attribution_quality" where
  "over_walk q [] = q"
| "over_walk q (ob # obs) =
     over_walk \<lparr>aq_per_kind = foldl (observe_kind ob) (aq_per_kind q) token_kinds,
                aq_observation_count = add_u64 (aq_observation_count q) 1\<rparr> obs"

definition quality_over :: "quality_observation list \<Rightarrow> attribution_quality" where
  "quality_over obs = over_walk \<lparr>aq_per_kind = replicate 4 empty_breakdown, aq_observation_count = 0\<rparr> obs"

record windowed_quality =
  wq_since :: utc_timestamp
  wq_quality :: attribution_quality
  wq_undated :: u64

definition quality_windowed :: "quality_observation list \<Rightarrow> utc_timestamp \<Rightarrow> windowed_quality" where
  "quality_windowed obs since =
     \<lparr>wq_since = since,
      wq_quality = quality_over (filter (\<lambda>ob. case qo_observed_at ob of Some t \<Rightarrow> t \<ge> since | None \<Rightarrow> False) obs),
      wq_undated = length (filter (\<lambda>ob. qo_observed_at ob = None) obs)\<rparr>"

definition breakdown :: "attribution_quality \<Rightarrow> token_kind \<Rightarrow> class_breakdown" where
  "breakdown q k = aq_per_kind q ! kind_index k"

definition quality_is_empty :: "attribution_quality \<Rightarrow> bool" where
  "quality_is_empty q \<longleftrightarrow> list_all (\<lambda>k. breakdown_total (breakdown q k) = 0) token_kinds"

datatype metric_scope = AllHistory | RecentWindow utc_timestamp

record floor_breach =
  fb_scope :: metric_scope
  fb_kind :: token_kind
  fb_fraction :: attribution_fraction
  fb_floor :: u32

definition floor_breaches :: "attribution_quality \<Rightarrow> metric_scope \<Rightarrow> u32 \<Rightarrow> floor_breach list" where
  "floor_breaches q scope floor_ppm =
     map (\<lambda>k. \<lparr>fb_scope = scope, fb_kind = k, fb_fraction = attributed_fraction (breakdown q k), fb_floor = floor_ppm\<rparr>)
       (filter (\<lambda>k. is_below (attributed_fraction (breakdown q k)) floor_ppm) token_kinds)"

record quality_assessment =
  qa_all_history :: attribution_quality
  qa_recent_window :: windowed_quality
  qa_breaches :: "floor_breach list"

definition assess :: "quality_observation list \<Rightarrow> utc_timestamp \<Rightarrow> u32 option \<Rightarrow> quality_assessment" where
  "assess obs window_since floor_ppm =
     (let all_history = quality_over obs;
          recent = quality_windowed obs window_since
      in \<lparr>qa_all_history = all_history, qa_recent_window = recent,
          qa_breaches =
            (case floor_ppm of
               None \<Rightarrow> []
             | Some f \<Rightarrow> floor_breaches all_history AllHistory f @
                         floor_breaches (wq_quality recent) (RecentWindow window_since) f)\<rparr>)"

definition has_breach :: "quality_assessment \<Rightarrow> bool" where
  "has_breach a \<longleftrightarrow> qa_breaches a \<noteq> []"

section \<open>The counts are the sums\<close>

lemma kind_index_less: "kind_index k < 4"
  by (cases k) (simp_all add: kind_index_def)

lemma kind_index_inject [simp]: "kind_index k = kind_index j \<longleftrightarrow> k = j"
  by (cases k; cases j) (simp_all add: kind_index_def)

lemma class_rank_bounds: "1 \<le> class_rank c" "class_rank c - 1 < 5"
  by (cases c; simp)+

lemma class_slot_inject: "class_rank c - 1 = class_rank d - 1 \<longleftrightarrow> c = d"
  by (cases c; cases d) simp_all

lemma class_tokens_add:
  "length b = 5 \<Longrightarrow> class_tokens (breakdown_add b c n) d = (if c = d then add_u64 (class_tokens b d) n else class_tokens b d)"
  using class_rank_bounds(2) [of c] class_slot_inject [of c d]
  by (auto simp: class_tokens_def breakdown_add_def nth_list_update)

definition quality_ok :: "attribution_quality \<Rightarrow> bool" where
  "quality_ok q \<longleftrightarrow> length (aq_per_kind q) = 4 \<and> (\<forall>k. length (breakdown q k) = 5)"

lemma observe_all_kinds:
  assumes "length ps = 4"
  shows "length (foldl (observe_kind ob) ps token_kinds) = 4"
    and "foldl (observe_kind ob) ps token_kinds ! kind_index k =
      breakdown_add (ps ! kind_index k) (qo_class ob) (known_value (qo_usage ob) k)"
  using assms by (auto simp: token_kinds_def observe_kind_def kind_index_def nth_list_update split: token_kind.split)

lemma over_walk_spec:
  "quality_ok q \<Longrightarrow>
   quality_ok (over_walk q obs) \<and>
   class_tokens (breakdown (over_walk q obs) k) c =
     foldl add_u64 (class_tokens (breakdown q k) c)
       (map (\<lambda>ob. known_value (qo_usage ob) k) (filter (\<lambda>ob. qo_class ob = c) obs))"
proof (induction obs arbitrary: q)
  case (Cons ob obs)
  define next_q where "next_q = \<lparr>aq_per_kind = foldl (observe_kind ob) (aq_per_kind q) token_kinds,
      aq_observation_count = add_u64 (aq_observation_count q) 1\<rparr>"
  have walk: "over_walk q (ob # obs) = over_walk next_q obs" by (simp add: next_q_def)
  have step: "breakdown next_q j = breakdown_add (breakdown q j) (qo_class ob) (known_value (qo_usage ob) j)" for j
    using Cons.prems observe_all_kinds(2) by (simp add: breakdown_def quality_ok_def next_q_def)
  have "length (aq_per_kind next_q) = 4"
    using Cons.prems observe_all_kinds(1) by (simp add: quality_ok_def next_q_def)
  then have "quality_ok next_q"
    using Cons.prems step by (simp add: quality_ok_def breakdown_add_def)
  from Cons.IH [OF this] show ?case
    using Cons.prems unfolding walk by (simp add: step class_tokens_add quality_ok_def)
qed simp

lemma over_spec:
  "quality_ok (quality_over obs)"
  "class_tokens (breakdown (quality_over obs) k) c =
     foldl add_u64 0 (map (\<lambda>ob. known_value (qo_usage ob) k) (filter (\<lambda>ob. qo_class ob = c) obs))"
proof -
  let ?start = "\<lparr>aq_per_kind = replicate 4 empty_breakdown, aq_observation_count = 0\<rparr>"
  have start: "quality_ok ?start" "class_tokens (breakdown ?start k) c = 0"
    using kind_index_less class_rank_bounds(2) [of c]
    by (simp_all add: quality_ok_def breakdown_def empty_breakdown_def class_tokens_def)
  show "quality_ok (quality_over obs)"
    "class_tokens (breakdown (quality_over obs) k) c =
       foldl add_u64 0 (map (\<lambda>ob. known_value (qo_usage ob) k) (filter (\<lambda>ob. qo_class ob = c) obs))"
    using over_walk_spec [OF start(1), of obs k c] start(2) by (simp_all add: quality_over_def)
qed

text \<open>Sums of counts modulo the width of a count.\<close>

abbreviation kind_sum :: "token_kind \<Rightarrow> known_tokens list \<Rightarrow> nat" where
  "kind_sum k vs \<equiv> sum_list (map (\<lambda>v. known_value v k) vs)"

lemma foldl_add_zero: "foldl add_u64 0 ns = sum_list ns mod 2 ^ 64"
proof -
  have "foldl add_u64 n ns mod 2 ^ 64 = (n + sum_list ns) mod 2 ^ 64" for n
    by (induction ns arbitrary: n) (simp_all add: add_u64_def wrap_u64_def mod_simps add.assoc)
  moreover have "foldl add_u64 0 ns mod 2 ^ 64 = foldl add_u64 0 ns"
    by (cases ns rule: rev_cases) (simp_all add: add_u64_def wrap_u64_def)
  ultimately show ?thesis by simp
qed

lemma sum_of_mods: "sum_list (map (\<lambda>x. f x mod m) xs) mod m = sum_list (map f xs) mod (m :: nat)"
  by (induction xs) (simp_all, metis mod_add_left_eq mod_add_right_eq)

definition observed_sum :: "quality_observation list \<Rightarrow> token_kind \<Rightarrow> (evidence_class \<Rightarrow> bool) \<Rightarrow> nat" where
  "observed_sum obs k P = sum_list (map (\<lambda>ob. known_value (qo_usage ob) k) (filter (\<lambda>ob. P (qo_class ob)) obs))"

lemma observed_sum_classes:
  "sum_list (map (\<lambda>c. observed_sum obs k (\<lambda>d. d = c)) (filter P all_classes)) = observed_sum obs k P"
proof (induction obs)
  case (Cons ob obs)
  then show ?case by (cases "qo_class ob") (auto simp: observed_sum_def all_classes_def)
qed (simp add: observed_sum_def)

lemma class_tokens_sum:
  "class_tokens (breakdown (quality_over obs) k) c = observed_sum obs k (\<lambda>d. d = c) mod 2 ^ 64"
  by (simp add: over_spec(2) foldl_add_zero observed_sum_def)

lemma class_sums:
  "foldl add_u64 0 (map (class_tokens (breakdown (quality_over obs) k)) (filter P all_classes)) =
     observed_sum obs k P mod 2 ^ 64"
proof -
  have "class_tokens (breakdown (quality_over obs) k) = (\<lambda>c. observed_sum obs k (\<lambda>d. d = c) mod 2 ^ 64)"
    by (rule ext) (rule class_tokens_sum)
  then show ?thesis
    using sum_of_mods [of "\<lambda>c. observed_sum obs k (\<lambda>d. d = c)" "2 ^ 64" "filter P all_classes"]
    by (simp add: foldl_add_zero observed_sum_classes)
qed

lemma breakdown_classes: "length b = 5 \<Longrightarrow> b = map (class_tokens b) (filter (\<lambda>_. True) all_classes)"
  by (auto simp: all_classes_def class_tokens_def list_eq_iff_nth_eq less_Suc_eq numeral_eq_Suc)

lemma quality_counts:
  "breakdown_total (breakdown (quality_over obs) k) = observed_sum obs k (\<lambda>_. True) mod 2 ^ 64 \<and>
   attributed_tokens (breakdown (quality_over obs) k) = observed_sum obs k (\<lambda>c. c \<noteq> Unattributed) mod 2 ^ 64 \<and>
   unknown_account_tokens (breakdown (quality_over obs) k) = observed_sum obs k (\<lambda>c. c = Unattributed) mod 2 ^ 64"
proof -
  have "breakdown (quality_over obs) k =
      map (class_tokens (breakdown (quality_over obs) k)) (filter (\<lambda>_. True) all_classes)"
    using over_spec(1) by (intro breakdown_classes) (simp add: quality_ok_def)
  then have "breakdown_total (breakdown (quality_over obs) k) = observed_sum obs k (\<lambda>_. True) mod 2 ^ 64"
    using class_sums [of obs k "\<lambda>_. True"] by (simp add: breakdown_total_def)
  then show ?thesis
    using class_sums by (simp add: attributed_tokens_def unknown_account_tokens_def class_tokens_sum)
qed

text \<open>
  The metric accounts for every token: per kind, the total is the sum of the observations' counts, the attributed
  part that of the observations with an account, the unknown part that of the others, modulo the width of a count.
\<close>

theorem quality_counts_every_token:
  "breakdown_total (breakdown (quality_over obs) k) = observed_sum obs k (\<lambda>_. True) mod 2 ^ 64 \<and>
   attributed_tokens (breakdown (quality_over obs) k) = observed_sum obs k (\<lambda>c. c \<noteq> Unattributed) mod 2 ^ 64 \<and>
   unknown_account_tokens (breakdown (quality_over obs) k) = observed_sum obs k (\<lambda>c. c = Unattributed) mod 2 ^ 64"
  by (rule quality_counts)

text \<open>
  A floor is breached exactly below the exact ratio, and the rounded parts per million that are shown agree with that
  decision up to the rounding: below the floor they mean a breach, above it they mean none.
\<close>

theorem breach_agrees_with_shown_ppm:
  assumes "fraction_ppm f = Some p" "floor_ppm \<le> 1000000"
  shows "(p < floor_ppm \<longrightarrow> is_below f floor_ppm) \<and> (floor_ppm < p \<longrightarrow> \<not> is_below f floor_ppm)"
proof -
  let ?n = "af_numerator f * 1000000" and ?d = "af_denominator f"
  have d: "0 < ?d" and p: "p = min ((?n + ?d div 2) div ?d) 1000000"
    using assms(1) by (auto simp: fraction_ppm_def split: if_splits)
  have "?n < floor_ppm * ?d" if "p < floor_ppm"
  proof -
    have "(?n + ?d div 2) div ?d < floor_ppm" using that p assms(2) by auto
    then have "?n + ?d div 2 < floor_ppm * ?d" using d by (simp add: div_less_iff_less_mult)
    then show ?thesis by simp
  qed
  moreover have "\<not> ?n < floor_ppm * ?d" if "floor_ppm < p"
  proof
    assume "?n < floor_ppm * ?d"
    then have "?n + ?d div 2 < floor_ppm * ?d + ?d" using d by (simp add: add_less_le_mono)
    then have "?n + ?d div 2 < (floor_ppm + 1) * ?d" by (simp add: distrib_right)
    then have "(?n + ?d div 2) div ?d < floor_ppm + 1" using d by (simp add: div_less_iff_less_mult)
    then show False using that p by auto
  qed
  ultimately show ?thesis using d by (simp add: is_below_def)
qed

theorem breach_agrees_with_shown_ppm_witness:
  "is_below \<lparr>af_numerator = 799999, af_denominator = 1000000\<rparr> 800000"
  using breach_agrees_with_shown_ppm [of "\<lparr>af_numerator = 799999, af_denominator = 1000000\<rparr>" 799999 800000]
  by (simp add: fraction_ppm_def)

section \<open>From the events to the metric\<close>

definition session_observations :: "account_inputs \<Rightarrow> utc_timestamp option \<Rightarrow> quality_observation list" where
  "session_observations inputs observed_at = observations_from_segmentation (account_segment inputs) observed_at"

lemma kind_sum_foldl: "known_value (foldl known_add zero_vector vs) k = kind_sum k vs mod 2 ^ 64"
  by (simp add: foldl_known foldl_add_zero)

lemma observed_values:
  "map qo_usage (observations_from_segmentation r t) =
     map (fst \<circ> snd) (ar_per_account r) @ (case ar_unknown r of None \<Rightarrow> [] | Some v \<Rightarrow> [v])"
  by (auto simp: observations_from_segmentation_def split: option.split)

lemma session_total:
  "observed_sum (session_observations inputs t) k (\<lambda>_. True) mod 2 ^ 64 = kind_sum k (map ae_usage (ai_usage inputs)) mod 2 ^ 64"
proof -
  have "observed_sum (session_observations inputs t) k (\<lambda>_. True) =
      kind_sum k (map qo_usage (session_observations inputs t))" by (simp add: observed_sum_def comp_def)
  also have "\<dots> mod 2 ^ 64 = known_value (account_total (account_segment inputs)) k"
    unfolding session_observations_def observed_values account_total_def by (simp only: kind_sum_foldl)
  finally show ?thesis using accounts_conserved(1) by (simp only: kind_sum_foldl)
qed

lemma total_where_sum:
  "sum_list (map (\<lambda>v. known_value v k) (case total_where P usage ws of None \<Rightarrow> [] | Some v \<Rightarrow> [v])) mod 2 ^ 64 =
     kind_sum k (map usage (filter P ws)) mod 2 ^ 64"
proof (cases "\<exists>w\<in>set ws. P w")
  case True
  then show ?thesis by (simp add: total_where_def kind_sum_foldl del: map_map)
next
  case False
  then have "filter P ws = []" by (simp add: filter_empty_conv)
  then show ?thesis using False by (auto simp: total_where_def)
qed

lemma session_unknown:
  "observed_sum (session_observations inputs t) k (\<lambda>c. c = Unattributed) mod 2 ^ 64 =
     kind_sum k (map ae_usage (filter (\<lambda>e. snd (assigned (ai_markers inputs) e) = Unattributed) (ai_usage inputs))) mod 2 ^ 64"
proof (cases "winning_rank (ai_markers inputs) = 5")
  case True
  have none: "c = Unattributed" if "class_rank c = 5" for c using that by (cases c) simp_all
  have "qo_class ob = Unattributed" if "ob \<in> set (session_observations inputs t)" for ob
    using that account_classes [of inputs] none True
    by (auto simp: session_observations_def observations_from_segmentation_def split: option.splits)
  then have "filter (\<lambda>ob. qo_class ob = Unattributed) (session_observations inputs t) = session_observations inputs t"
    by (simp add: filter_id_conv)
  then have "observed_sum (session_observations inputs t) k (\<lambda>c. c = Unattributed) =
      observed_sum (session_observations inputs t) k (\<lambda>_. True)" by (simp add: observed_sum_def)
  moreover have "snd (assigned (ai_markers inputs) e) = Unattributed" for e
  proof (cases "fst (assigned (ai_markers inputs) e)")
    case (Account a)
    then have "class_rank (snd (assigned (ai_markers inputs) e)) = 5"
      using assigned_class [of "ai_markers inputs" e a] True by (metis prod.collapse)
    then show ?thesis by (rule none)
  qed (auto simp: assigned_def split: option.splits)
  ultimately show ?thesis using session_total by simp
next
  case False
  let ?r = "account_segment inputs"
  have "snd (snd x) \<noteq> Unattributed" if "x \<in> set (ar_per_account ?r)" for x
  proof -
    have "snd (snd x) \<in> set (map (snd \<circ> snd) (ar_per_account ?r))" using that by auto
    then have "class_rank (snd (snd x)) \<noteq> 5" using account_classes [of inputs] False by auto
    then show ?thesis by auto
  qed
  then have "filter (\<lambda>ob. qo_class ob = Unattributed)
      (map (\<lambda>(_, usage, c). \<lparr>qo_class = c, qo_usage = usage, qo_observed_at = t\<rparr>) (ar_per_account ?r)) = []"
    by (fastforce simp: filter_empty_conv)
  then have "observed_sum (session_observations inputs t) k (\<lambda>c. c = Unattributed) =
      sum_list (map (\<lambda>v. known_value v k) (case ar_unknown ?r of None \<Rightarrow> [] | Some v \<Rightarrow> [v]))"
    by (simp add: observed_sum_def session_observations_def observations_from_segmentation_def split: option.split)
  also have "\<dots> mod 2 ^ 64 =
      kind_sum k (map ae_usage (filter (\<lambda>e. fst (assigned (ai_markers inputs) e) = UnknownAccount) (ai_usage inputs))) mod 2 ^ 64"
    unfolding accounts_conserved(3) by (rule total_where_sum)
  also have "(\<lambda>e. fst (assigned (ai_markers inputs) e) = UnknownAccount) =
      (\<lambda>e. snd (assigned (ai_markers inputs) e) = Unattributed)"
  proof
    fix e
    show "fst (assigned (ai_markers inputs) e) = UnknownAccount \<longleftrightarrow> snd (assigned (ai_markers inputs) e) = Unattributed"
    proof (cases "fst (assigned (ai_markers inputs) e)")
      case (Account a)
      then have "class_rank (snd (assigned (ai_markers inputs) e)) \<noteq> 5"
        using assigned_class [of "ai_markers inputs" e a] False by (metis prod.collapse)
      then show ?thesis using Account by auto
    qed (auto simp: assigned_def split: option.splits)
  qed
  finally show ?thesis .
qed

lemma observed_sum_concat:
  "observed_sum (concat obss) k P = sum_list (map (\<lambda>obs. observed_sum obs k P) obss)"
  by (induction obss) (simp_all add: observed_sum_def)

lemma sum_mod_cong:
  fixes m :: nat
  assumes "\<And>x. x \<in> set xs \<Longrightarrow> f x mod m = g x mod m"
  shows "sum_list (map f xs) mod m = sum_list (map g xs) mod m"
proof -
  have "map (\<lambda>x. f x mod m) xs = map (\<lambda>x. g x mod m) xs" using assms by simp
  then have "sum_list (map (\<lambda>x. f x mod m) xs) mod m = sum_list (map (\<lambda>x. g x mod m) xs) mod m" by (simp only:)
  then show ?thesis by (simp only: sum_of_mods)
qed

text \<open>
  From the events of any number of sessions to the metric no token is lost and none changes side: the total is the
  sum of all events, the unknown part the sum of the events no marker could place on an account with evidence.
\<close>

theorem metric_conserves_session_usage:
  fixes sessions :: "(account_inputs \<times> utc_timestamp option) list"
  defines "q \<equiv> quality_over (concat (map (\<lambda>(inputs, t). session_observations inputs t) sessions))"
  shows "breakdown_total (breakdown q k) =
      sum_list (map (\<lambda>(inputs, _). kind_sum k (map ae_usage (ai_usage inputs))) sessions) mod 2 ^ 64 \<and>
    unknown_account_tokens (breakdown q k) =
      sum_list (map (\<lambda>(inputs, _). kind_sum k (map ae_usage
        (filter (\<lambda>e. snd (assigned (ai_markers inputs) e) = Unattributed) (ai_usage inputs)))) sessions) mod 2 ^ 64"
proof -
  have total: "observed_sum (session_observations (fst x) (snd x)) k (\<lambda>_. True) mod 2 ^ 64 =
      kind_sum k (map ae_usage (ai_usage (fst x))) mod 2 ^ 64" for x by (rule session_total)
  have unknown: "observed_sum (session_observations (fst x) (snd x)) k (\<lambda>c. c = Unattributed) mod 2 ^ 64 =
      kind_sum k (map ae_usage (filter (\<lambda>e. snd (assigned (ai_markers (fst x)) e) = Unattributed) (ai_usage (fst x)))) mod 2 ^ 64"
    for x by (rule session_unknown)
  have pair: "(\<lambda>(inputs, t). session_observations inputs t) = (\<lambda>x. session_observations (fst x) (snd x))"
    by (rule ext) (simp add: case_prod_beta)
  show ?thesis
    unfolding q_def quality_counts [THEN conjunct1] quality_counts [THEN conjunct2, THEN conjunct2] observed_sum_concat
      pair map_map comp_def case_prod_beta
    by (rule conjI; rule sum_mod_cong) (rule total [unfolded map_map comp_def], rule unknown [unfolded map_map comp_def])
qed

end
