(* ===== verification/Settlement.thy ===== *)
theory Settlement
  imports Windows
begin

text \<open>
  \<open>src/calibration/settlement.rs\<close>: when a provider's meter has settled before and after controlled work. A
  criterion is built only with at least two observations and a reported resolution is never zero, so the scan's
  index and the division by the resolution are total.
\<close>

section \<open>Criteria and policies\<close>

datatype settlement_role = BaselineRole | TerminalRole

datatype settlement_policy_error =
  EmptyVersion | TooFewObservations | ZeroSamplingInterval | ZeroMinimumSpan | ZeroMaximumSettlementWindow
| SettlementWindowBeforeMinimumSpan | SharedCriteriaReasonRequired | EmptySharedCriteriaReason

record settlement_criterion =
  sc_sampling_interval :: monotonic_duration
  sc_required_observations :: u32
  sc_minimum_span :: monotonic_duration
  sc_maximum_change_units :: u32
  sc_maximum_window :: monotonic_duration
  sc_resolution :: reported_resolution

definition criterion_new ::
    "monotonic_duration \<Rightarrow> u32 \<Rightarrow> monotonic_duration \<Rightarrow> u32 \<Rightarrow> monotonic_duration \<Rightarrow> reported_resolution \<Rightarrow>
     settlement_policy_error + settlement_criterion" where
  "criterion_new interval required span units window resolution =
     (if required < 2 then Inl TooFewObservations
      else if interval = 0 then Inl ZeroSamplingInterval
      else if span = 0 then Inl ZeroMinimumSpan
      else if window = 0 then Inl ZeroMaximumSettlementWindow
      else if window < span then Inl SettlementWindowBeforeMinimumSpan
      else Inr \<lparr>sc_sampling_interval = interval, sc_required_observations = required, sc_minimum_span = span,
                sc_maximum_change_units = units, sc_maximum_window = window, sc_resolution = resolution\<rparr>)"

record settlement_policy =
  sp_version :: string
  sp_baseline :: settlement_criterion
  sp_terminal :: settlement_criterion
  sp_shared_reason :: "string option"

definition settlement_policy_new ::
    "string \<Rightarrow> settlement_criterion \<Rightarrow> settlement_criterion \<Rightarrow> string option \<Rightarrow>
     settlement_policy_error + settlement_policy" where
  "settlement_policy_new version baseline terminal reason =
     (let shared = map_option trim reason
      in if trim version = [] then Inl EmptyVersion
         else if shared = Some [] then Inl EmptySharedCriteriaReason
         else if baseline = terminal \<and> shared = None then Inl SharedCriteriaReasonRequired
         else Inr \<lparr>sp_version = version, sp_baseline = baseline, sp_terminal = terminal, sp_shared_reason = shared\<rparr>)"

text \<open>Both constructions of the built-in policy succeed; their \<open>expect\<close> is the left value.\<close>

definition conservative_default :: "reported_resolution \<Rightarrow> settlement_policy_error + settlement_policy" where
  "conservative_default resolution =
     and_then (criterion_new 300000000000 3 600000000000 0 3600000000000 resolution) (\<lambda>c.
       settlement_policy_new ''settled-boundary-v1'' c c
         (Some ''baseline and terminal share the conservative provider-lag criterion''))"

definition policy_criterion :: "settlement_policy \<Rightarrow> settlement_role \<Rightarrow> settlement_criterion" where
  "policy_criterion p role = (case role of BaselineRole \<Rightarrow> sp_baseline p | TerminalRole \<Rightarrow> sp_terminal p)"

section \<open>Series and outcomes\<close>

record settlement_observation =
  so_at :: utc_timestamp
  so_quota_used :: quota_used
  so_resolution :: reported_resolution

datatype settlement_coverage = CompleteCoverage | InsufficientCoverage u32 u32

definition coverage_is_complete :: "settlement_coverage \<Rightarrow> bool" where
  "coverage_is_complete c \<longleftrightarrow> c = CompleteCoverage"

record settlement_series =
  ss_started_at :: utc_timestamp
  ss_observations :: "settlement_observation list"
  ss_coverage :: settlement_coverage

datatype incomplete_reason = InsufficientMeterCoverage | NoPlateauWithinWindow

record settled_boundary =
  sb_index :: nat
  sb_observed_at :: utc_timestamp
  sb_quota_used :: quota_used

datatype settlement_outcome =
  Settled settled_boundary
| Incomplete incomplete_reason utc_timestamp "utc_timestamp option"

definition outcome_boundary :: "settlement_outcome \<Rightarrow> settled_boundary option" where
  "outcome_boundary r = (case r of Settled b \<Rightarrow> Some b | Incomplete _ _ _ \<Rightarrow> None)"

record experiment_settlement =
  es_baseline :: settlement_outcome
  es_terminal :: settlement_outcome

definition experiment_is_incomplete :: "experiment_settlement \<Rightarrow> bool" where
  "experiment_is_incomplete e \<longleftrightarrow> outcome_boundary (es_baseline e) = None \<or> outcome_boundary (es_terminal e) = None"

definition publishable_fit :: "experiment_settlement \<Rightarrow> (settled_boundary \<times> settled_boundary) option" where
  "publishable_fit e =
     (case outcome_boundary (es_baseline e) of
        None \<Rightarrow> None
      | Some b \<Rightarrow> (case outcome_boundary (es_terminal e) of None \<Rightarrow> None | Some t \<Rightarrow> Some (b, t)))"

section \<open>Detection\<close>

definition settlement_deadline :: "utc_timestamp \<Rightarrow> monotonic_duration \<Rightarrow> utc_timestamp" where
  "settlement_deadline started_at window = sat_add_i64 started_at (min (int window) i64_max)"

fun has_required_spacing :: "(nat \<times> settlement_observation) list \<Rightarrow> monotonic_duration \<Rightarrow> bool" where
  "has_required_spacing (a # b # rest) interval \<longleftrightarrow>
     int interval \<le> \<bar>so_at (snd b) - so_at (snd a)\<bar> \<and> has_required_spacing (b # rest) interval"
| "has_required_spacing _ interval \<longleftrightarrow> True"

definition has_required_span :: "(nat \<times> settlement_observation) list \<Rightarrow> monotonic_duration \<Rightarrow> bool" where
  "has_required_span window minimum_span \<longleftrightarrow>
     window \<noteq> [] \<and> int minimum_span \<le> \<bar>so_at (snd (last window)) - so_at (snd (hd window))\<bar>"

definition change_units :: "settlement_criterion \<Rightarrow> settlement_observation \<Rightarrow> settlement_observation \<Rightarrow> nat" where
  "change_units c a b =
     nat \<bar>int (ppm (used_ppm (so_quota_used a))) - int (ppm (used_ppm (so_quota_used b)))\<bar> div
       ppm (resolution_ppm (sc_resolution c))"

fun pairs_stable :: "settlement_criterion \<Rightarrow> (nat \<times> settlement_observation) list \<Rightarrow> bool" where
  "pairs_stable c [] \<longleftrightarrow> True"
| "pairs_stable c (a # rest) \<longleftrightarrow>
     list_all (\<lambda>b. change_units c (snd a) (snd b) \<le> sc_maximum_change_units c) rest \<and> pairs_stable c rest"

definition has_resolution_stability :: "(nat \<times> settlement_observation) list \<Rightarrow> settlement_criterion \<Rightarrow> bool" where
  "has_resolution_stability window c \<longleftrightarrow>
     \<not> list_ex (\<lambda>w. so_resolution (snd w) \<noteq> sc_resolution c) window \<and> pairs_stable c window"

definition is_plateau :: "settlement_criterion \<Rightarrow> (nat \<times> settlement_observation) list \<Rightarrow> bool" where
  "is_plateau c window \<longleftrightarrow>
     has_required_spacing window (sc_sampling_interval c) \<and> has_required_span window (sc_minimum_span c) \<and>
     has_resolution_stability window c"

fun first_plateau :: "settlement_criterion \<Rightarrow> (nat \<times> settlement_observation) list \<Rightarrow> (nat \<times> settlement_observation) option" where
  "first_plateau c [] = None"
| "first_plateau c (x # xs) =
     (let window = take (sc_required_observations c) (x # xs)
      in if length (x # xs) < sc_required_observations c then None
         else if is_plateau c window then Some (last window)
         else first_plateau c xs)"

definition eligible_observations :: "settlement_series \<Rightarrow> utc_timestamp \<Rightarrow> (nat \<times> settlement_observation) list" where
  "eligible_observations s deadline =
     sort_key (\<lambda>w. so_at (snd w))
       (filter (\<lambda>w. ss_started_at s \<le> so_at (snd w) \<and> so_at (snd w) \<le> deadline) (enumerate 0 (ss_observations s)))"

definition observed_until :: "settlement_series \<Rightarrow> utc_timestamp option" where
  "observed_until s =
     (case filter (\<lambda>t. t \<ge> ss_started_at s) (map so_at (ss_observations s)) of
        [] \<Rightarrow> None | t # ts \<Rightarrow> Some (foldl max t ts))"

definition detect_settlement :: "settlement_series \<Rightarrow> settlement_policy \<Rightarrow> settlement_role \<Rightarrow> settlement_outcome" where
  "detect_settlement s p role =
     (let c = policy_criterion p role;
          deadline = settlement_deadline (ss_started_at s) (sc_maximum_window c)
      in if \<not> coverage_is_complete (ss_coverage s) then Incomplete InsufficientMeterCoverage deadline (observed_until s)
         else case first_plateau c (eligible_observations s deadline) of
                Some (i, ob) \<Rightarrow> Settled \<lparr>sb_index = i, sb_observed_at = so_at ob, sb_quota_used = so_quota_used ob\<rparr>
              | None \<Rightarrow> Incomplete NoPlateauWithinWindow deadline (observed_until s))"

definition evaluate_experiment_settlement ::
    "settlement_series \<Rightarrow> settlement_series \<Rightarrow> settlement_policy \<Rightarrow> experiment_settlement" where
  "evaluate_experiment_settlement baseline terminal p =
     \<lparr>es_baseline = detect_settlement baseline p BaselineRole, es_terminal = detect_settlement terminal p TerminalRole\<rparr>"

section \<open>The scan\<close>

definition criterion_ok :: "settlement_criterion \<Rightarrow> bool" where
  "criterion_ok c \<longleftrightarrow> 2 \<le> sc_required_observations c \<and> 0 < ppm (resolution_ppm (sc_resolution c))"

definition plateau_at :: "settlement_criterion \<Rightarrow> (nat \<times> settlement_observation) list \<Rightarrow> nat \<Rightarrow> bool" where
  "plateau_at c xs n \<longleftrightarrow>
     n + sc_required_observations c \<le> length xs \<and> is_plateau c (take (sc_required_observations c) (drop n xs))"

lemma plateau_at_Suc: "plateau_at c (y # ys) (Suc n) \<longleftrightarrow> plateau_at c ys n"
  by (simp add: plateau_at_def)

lemma first_plateau_Cons:
  "first_plateau c (y # ys) =
     (if plateau_at c (y # ys) 0 then Some (last (take (sc_required_observations c) (y # ys)))
      else if length (y # ys) < sc_required_observations c then None else first_plateau c ys)"
  by (auto simp: plateau_at_def Let_def)

lemma no_plateau_short: "length xs < sc_required_observations c \<Longrightarrow> \<not> plateau_at c xs n"
  by (simp add: plateau_at_def)

lemma first_plateau_iff:
  assumes "0 < sc_required_observations c"
  shows "first_plateau c xs = Some x \<longleftrightarrow>
    (\<exists>n. plateau_at c xs n \<and> (\<forall>i<n. \<not> plateau_at c xs i) \<and> x = last (take (sc_required_observations c) (drop n xs)))"
proof (induction xs)
  case Nil
  then show ?case using assms by (simp add: plateau_at_def)
next
  case (Cons y ys)
  let ?k = "sc_required_observations c"
  consider "plateau_at c (y # ys) 0" | "\<not> plateau_at c (y # ys) 0" "length (y # ys) < ?k"
    | "\<not> plateau_at c (y # ys) 0" "\<not> length (y # ys) < ?k" by blast
  then show ?case
  proof cases
    case 1
    then have "first_plateau c (y # ys) = Some (last (take ?k (y # ys)))" by (simp only: first_plateau_Cons if_True)
    moreover have "(\<forall>i<n. \<not> plateau_at c (y # ys) i) \<longleftrightarrow> n = 0" for n using 1 by (cases n) auto
    ultimately show ?thesis using 1 by (auto simp del: first_plateau.simps)
  next
    case 2
    then have "first_plateau c (y # ys) = None" by (simp only: first_plateau_Cons if_True if_False)
    then show ?thesis using no_plateau_short [OF 2(2)] by (simp del: first_plateau.simps)
  next
    case 3
    then have "first_plateau c (y # ys) = first_plateau c ys" by (simp only: first_plateau_Cons if_False)
    moreover have "(\<exists>n. plateau_at c (y # ys) n \<and> (\<forall>i<n. \<not> plateau_at c (y # ys) i) \<and> x = last (take ?k (drop n (y # ys)))) \<longleftrightarrow>
        (\<exists>n. plateau_at c ys n \<and> (\<forall>i<n. \<not> plateau_at c ys i) \<and> x = last (take ?k (drop n ys)))" (is "?l \<longleftrightarrow> ?r")
    proof
      assume ?l
      then obtain n where n: "plateau_at c (y # ys) n" "\<forall>i<n. \<not> plateau_at c (y # ys) i" "x = last (take ?k (drop n (y # ys)))"
        by blast
      then obtain m where m: "n = Suc m" using 3(1) by (cases n) auto
      have "\<not> plateau_at c ys i" if "i < m" for i using n(2) that m plateau_at_Suc by (metis Suc_mono)
      then show ?r using n m plateau_at_Suc by (metis drop_Suc_Cons)
    next
      assume ?r
      then obtain n where n: "plateau_at c ys n" "\<forall>i<n. \<not> plateau_at c ys i" "x = last (take ?k (drop n ys))" by blast
      have "\<not> plateau_at c (y # ys) i" if "i < Suc n" for i using n(2) that 3(1) plateau_at_Suc by (cases i) auto
      then show ?l using n plateau_at_Suc by (metis drop_Suc_Cons)
    qed
    ultimately show ?thesis using Cons by (simp del: first_plateau.simps)
  qed
qed

lemma first_plateau_append:
  assumes "first_plateau c xs = Some x" "0 < sc_required_observations c"
  shows "first_plateau c (xs @ ys) = Some x"
proof -
  let ?k = "sc_required_observations c"
  obtain n where n: "plateau_at c xs n" "\<forall>i<n. \<not> plateau_at c xs i" "x = last (take ?k (drop n xs))"
    using assms first_plateau_iff by blast
  have len: "n + ?k \<le> length xs" using n(1) by (simp add: plateau_at_def)
  have same: "take ?k (drop i (xs @ ys)) = take ?k (drop i xs)" if "i \<le> n" for i using len that by simp
  then have "plateau_at c (xs @ ys) i \<longleftrightarrow> plateau_at c xs i" if "i \<le> n" for i
    using len that by (simp add: plateau_at_def)
  then show ?thesis unfolding first_plateau_iff [OF assms(2)] using n same by (metis less_imp_le order_refl)
qed

text \<open>What a plateau is: readings of the criterion's resolution that differ pairwise by at most the allowed steps.\<close>

definition within_steps :: "settlement_criterion \<Rightarrow> settlement_observation \<Rightarrow> settlement_observation \<Rightarrow> bool" where
  "within_steps c a b \<longleftrightarrow>
     \<bar>int (ppm (used_ppm (so_quota_used a))) - int (ppm (used_ppm (so_quota_used b)))\<bar>
       < int ((sc_maximum_change_units c + 1) * ppm (resolution_ppm (sc_resolution c)))"

lemma change_units_within: "criterion_ok c \<Longrightarrow> change_units c a b \<le> sc_maximum_change_units c \<longleftrightarrow> within_steps c a b"
  by (simp add: change_units_def within_steps_def criterion_ok_def less_Suc_eq_le [symmetric] div_less_iff_less_mult
      nat_less_iff del: of_nat_mult)

lemma within_steps_sym: "within_steps c a b \<longleftrightarrow> within_steps c b a"
  by (simp add: within_steps_def abs_minus_commute)

lemma pairs_stable_iff:
  assumes "criterion_ok c"
  shows "pairs_stable c ws \<longleftrightarrow> (\<forall>a\<in>set ws. \<forall>b\<in>set ws. within_steps c (snd a) (snd b))"
proof (induction ws)
  case (Cons w ws)
  have "within_steps c a a" for a using assms by (simp add: within_steps_def criterion_ok_def add_pos_nonneg)
  then show ?case using Cons assms by (auto simp: list_all_iff change_units_within within_steps_sym)
qed simp

lemma eligible_facts:
  "set (eligible_observations s deadline) =
     {w \<in> set (enumerate 0 (ss_observations s)). ss_started_at s \<le> so_at (snd w) \<and> so_at (snd w) \<le> deadline}"
  "sorted (map (\<lambda>w. so_at (snd w)) (eligible_observations s deadline))"
  "distinct (eligible_observations s deadline)"
  by (auto simp: eligible_observations_def distinct_enumerate)

lemma detect_Settled:
  "detect_settlement s p role = Settled b \<longleftrightarrow>
     ss_coverage s = CompleteCoverage \<and>
     (\<exists>ob. first_plateau (policy_criterion p role) (eligible_observations s
         (settlement_deadline (ss_started_at s) (sc_maximum_window (policy_criterion p role)))) = Some (sb_index b, ob) \<and>
        sb_observed_at b = so_at ob \<and> sb_quota_used b = so_quota_used ob)"
  by (cases b) (auto simp: detect_settlement_def coverage_is_complete_def Let_def split: option.splits)

lemma insort_key_append: "\<forall>y\<in>set bs. f x \<le> f y \<Longrightarrow> insort_key f x (as @ bs) = insort_key f x as @ bs"
proof (induction as)
  case Nil
  then show ?case by (cases bs) auto
qed simp

lemma sort_key_append:
  "\<forall>x\<in>set xs. \<forall>y\<in>set ys. f x \<le> f y \<Longrightarrow> sort_key f (xs @ ys) = sort_key f xs @ sort_key f ys"
  by (induction xs) (simp_all add: insort_key_append)

definition sample_criterion :: settlement_criterion where
  "sample_criterion = \<lparr>sc_sampling_interval = 10, sc_required_observations = 2, sc_minimum_span = 10,
     sc_maximum_change_units = 0, sc_maximum_window = 100, sc_resolution = ReportedResolution (QuotaFractionPpm 10000)\<rparr>"

definition sample_policy :: settlement_policy where
  "sample_policy = \<lparr>sp_version = ''v1'', sp_baseline = sample_criterion, sp_terminal = sample_criterion,
     sp_shared_reason = Some ''same''\<rparr>"

definition sample_reading :: "utc_timestamp \<Rightarrow> nat \<Rightarrow> settlement_observation" where
  "sample_reading t used = \<lparr>so_at = t, so_quota_used = QuotaUsed (QuotaFractionPpm used),
     so_resolution = ReportedResolution (QuotaFractionPpm 10000)\<rparr>"

definition sample_series :: settlement_series where
  "sample_series = \<lparr>ss_started_at = 0,
     ss_observations = [sample_reading 0 500000, sample_reading 10 520000, sample_reading 20 525000],
     ss_coverage = CompleteCoverage\<rparr>"

definition sample_boundary :: settled_boundary where
  "sample_boundary = \<lparr>sb_index = 2, sb_observed_at = 20, sb_quota_used = QuotaUsed (QuotaFractionPpm 525000)\<rparr>"

lemma sample_settles:
  "criterion_ok (policy_criterion sample_policy BaselineRole)"
  "detect_settlement sample_series sample_policy BaselineRole = Settled sample_boundary"
  by (simp_all add: criterion_ok_def detect_settlement_def policy_criterion_def sample_policy_def sample_criterion_def
      sample_series_def sample_reading_def sample_boundary_def settlement_deadline_def sat_add_i64_def
      coverage_is_complete_def eligible_observations_def is_plateau_def has_required_span_def
      has_resolution_stability_def change_units_def Let_def numeral_2_eq_2)

lemma first_plateau_split:
  assumes "first_plateau c xs = Some x" "0 < sc_required_observations c"
  shows "\<exists>before window after. xs = before @ window @ after \<and> length window = sc_required_observations c \<and>
    is_plateau c window \<and> last window = x \<and>
    (\<forall>i<length before. \<not> is_plateau c (take (sc_required_observations c) (drop i (before @ window))))"
proof -
  let ?k = "sc_required_observations c"
  obtain n where n: "plateau_at c xs n" "\<forall>i<n. \<not> plateau_at c xs i" "x = last (take ?k (drop n xs))"
    using assms first_plateau_iff by blast
  let ?before = "take n xs" and ?window = "take ?k (drop n xs)"
  have len: "n + ?k \<le> length xs" using n(1) by (simp add: plateau_at_def)
  have split: "xs = ?before @ ?window @ drop (n + ?k) xs" by (metis add.commute append_take_drop_id drop_drop)
  have "\<not> is_plateau c (take ?k (drop i (?before @ ?window)))" if "i < n" for i
  proof -
    have "take ?k (drop i xs) = take ?k (drop i (?before @ ?window))"
      using len that by (subst split) simp
    then show ?thesis using n(2) that len by (auto simp: plateau_at_def)
  qed
  then show ?thesis
    using split n len by (intro exI [of _ ?before] exI [of _ ?window] exI [of _ "drop (n + ?k) xs"]) (simp add: plateau_at_def)
qed

text \<open>
  C13. With a criterion of at least two observations and a resolution that is not zero, as the constructors require, a
  boundary settles only on evidence: at its observation ends the first run of the required number of consecutive
  readings, among those between the start and the deadline in time order, that is spaced and spans as required, read at
  the criterion's resolution and pairwise within the allowed number of resolution steps; no reading taken strictly
  between the two ends of the run is left out of it; and coverage is complete.
\<close>

theorem settled_rests_on_a_plateau:
  assumes "criterion_ok (policy_criterion p role)" "detect_settlement s p role = Settled b"
  shows "ss_coverage s = CompleteCoverage \<and>
    (\<exists>before window after.
       eligible_observations s (settlement_deadline (ss_started_at s) (sc_maximum_window (policy_criterion p role))) =
         before @ window @ after \<and>
       length window = sc_required_observations (policy_criterion p role) \<and> distinct window \<and>
       set window \<subseteq> set (enumerate 0 (ss_observations s)) \<and> sorted (map (\<lambda>w. so_at (snd w)) window) \<and>
       (\<forall>w\<in>set (enumerate 0 (ss_observations s)). so_at (snd (hd window)) < so_at (snd w) \<longrightarrow>
          so_at (snd w) < sb_observed_at b \<longrightarrow> w \<in> set window) \<and>
       (\<forall>i<length before. \<not> is_plateau (policy_criterion p role)
          (take (sc_required_observations (policy_criterion p role)) (drop i (before @ window)))) \<and>
       fst (last window) = sb_index b \<and> so_at (snd (last window)) = sb_observed_at b \<and>
       so_quota_used (snd (last window)) = sb_quota_used b \<and>
       ss_started_at s \<le> so_at (snd (hd window)) \<and>
       sb_observed_at b \<le> settlement_deadline (ss_started_at s) (sc_maximum_window (policy_criterion p role)) \<and>
       int (sc_minimum_span (policy_criterion p role)) \<le> sb_observed_at b - so_at (snd (hd window)) \<and>
       has_required_spacing window (sc_sampling_interval (policy_criterion p role)) \<and>
       (\<forall>v\<in>set window. so_resolution (snd v) = sc_resolution (policy_criterion p role)) \<and>
       (\<forall>v\<in>set window. \<forall>w\<in>set window. within_steps (policy_criterion p role) (snd v) (snd w)))"
proof -
  let ?c = "policy_criterion p role"
  let ?k = "sc_required_observations ?c"
  let ?deadline = "settlement_deadline (ss_started_at s) (sc_maximum_window ?c)"
  let ?xs = "eligible_observations s ?deadline"
  have k: "2 \<le> ?k" using assms(1) by (simp add: criterion_ok_def)
  obtain ob where cov: "ss_coverage s = CompleteCoverage" and first: "first_plateau ?c ?xs = Some (sb_index b, ob)"
    and b: "sb_observed_at b = so_at ob" "sb_quota_used b = so_quota_used ob"
    using assms(2) unfolding detect_Settled by blast
  obtain before window after where split: "?xs = before @ window @ after" and len: "length window = ?k"
    and plateau: "is_plateau ?c window" and last_window: "last window = (sb_index b, ob)"
    and first_run: "\<forall>i<length before. \<not> is_plateau ?c (take ?k (drop i (before @ window)))"
    using first_plateau_split [OF first] k by auto
  then have ne: "window \<noteq> []" using k by auto
  have sub: "set window \<subseteq> set ?xs" unfolding split by auto
  have order: "sorted (map (\<lambda>w. so_at (snd w)) window)"
    using eligible_facts(2) [of s ?deadline] unfolding split by (simp add: sorted_append)
  have "\<forall>w\<in>set window. so_at (snd (hd window)) \<le> so_at (snd w)"
    using order ne by (cases window) auto
  then have le: "so_at (snd (hd window)) \<le> so_at ob"
    using last_in_set [OF ne] last_window by fastforce
  have "hd window \<in> set ?xs" "(sb_index b, ob) \<in> set ?xs"
    using sub ne last_window by (metis hd_in_set last_in_set subsetD)+
  then have start: "ss_started_at s \<le> so_at (snd (hd window))" and deadline: "sb_observed_at b \<le> ?deadline"
    unfolding eligible_facts(1) by (auto simp: b(1))
  have distinct: "distinct window" using eligible_facts(3) [of s ?deadline] unfolding split by simp
  have listed: "set window \<subseteq> set (enumerate 0 (ss_observations s))" using sub unfolding eligible_facts(1) by blast
  have nothing_between: "\<forall>w\<in>set (enumerate 0 (ss_observations s)). so_at (snd (hd window)) < so_at (snd w) \<longrightarrow>
      so_at (snd w) < sb_observed_at b \<longrightarrow> w \<in> set window"
  proof (intro ballI impI)
    fix w
    assume w: "w \<in> set (enumerate 0 (ss_observations s))" "so_at (snd (hd window)) < so_at (snd w)" "so_at (snd w) < sb_observed_at b"
    then have "w \<in> set ?xs" using start deadline unfolding eligible_facts(1) by auto
    then have "w \<in> set before \<union> set window \<union> set after" unfolding split by simp
    moreover have "so_at (snd v) \<le> so_at (snd (hd window))" if "v \<in> set before" for v
      using eligible_facts(2) [of s ?deadline] that ne unfolding split by (simp add: sorted_append)
    moreover have "so_at (snd (last window)) \<le> so_at (snd v)" if "v \<in> set after" for v
      using eligible_facts(2) [of s ?deadline] that ne unfolding split by (simp add: sorted_append)
    ultimately show "w \<in> set window" using w last_window b(1) by fastforce
  qed
  have ends: "fst (last window) = sb_index b" "so_at (snd (last window)) = sb_observed_at b"
      "so_quota_used (snd (last window)) = sb_quota_used b"
    by (simp_all add: last_window b)
  have stable: "\<forall>v\<in>set window. \<forall>w\<in>set window. within_steps ?c (snd v) (snd w)"
      "\<forall>v\<in>set window. so_resolution (snd v) = sc_resolution ?c"
      "has_required_spacing window (sc_sampling_interval ?c)"
      "int (sc_minimum_span ?c) \<le> sb_observed_at b - so_at (snd (hd window))"
    using plateau pairs_stable_iff [OF assms(1), of window] le last_window
    by (auto simp: is_plateau_def has_required_span_def has_resolution_stability_def list_ex_iff b(1))
  show ?thesis
    by (intro conjI exI [of _ before] exI [of _ window] exI [of _ after] cov split len distinct listed order nothing_between
        first_run ends start deadline stable)
qed

theorem settled_rests_on_a_plateau_witness:
  "\<exists>before after.
     eligible_observations sample_series 100 = before @ [(1, sample_reading 10 520000), (2, sample_reading 20 525000)] @ after \<and>
     within_steps sample_criterion (sample_reading 10 520000) (sample_reading 20 525000)"
proof -
  have eligible: "eligible_observations sample_series 100 =
      [(0, sample_reading 0 500000), (1, sample_reading 10 520000), (2, sample_reading 20 525000)]"
    by (simp add: eligible_observations_def sample_series_def sample_reading_def)
  have deadline: "settlement_deadline (ss_started_at sample_series) (sc_maximum_window sample_criterion) = 100"
    by (simp add: settlement_deadline_def sample_series_def sample_criterion_def sat_add_i64_def)
  have criterion: "policy_criterion sample_policy BaselineRole = sample_criterion"
    by (simp add: policy_criterion_def sample_policy_def)
  obtain before window after where w: "eligible_observations sample_series 100 = before @ window @ after"
      "length window = 2" "fst (last window) = 2" "\<forall>v\<in>set window. \<forall>w\<in>set window. within_steps sample_criterion (snd v) (snd w)"
    using settled_rests_on_a_plateau [OF sample_settles]
    unfolding criterion deadline by (auto simp: sample_criterion_def sample_boundary_def)
  then obtain u v where "window = [u, v]" by (auto simp: numeral_2_eq_2 length_Suc_conv)
  then have "window = [(1, sample_reading 10 520000), (2, sample_reading 20 525000)]"
    using w(1,3) unfolding eligible by (auto simp: Cons_eq_append_conv append_eq_Cons_conv)
  then show ?thesis using w(1,4) by (intro exI [of _ before] exI [of _ after]) simp
qed

text \<open>
  Once a boundary has settled, later observations never move it: appending readings taken no earlier than every
  reading so far leaves the outcome as it is.
\<close>

theorem settled_boundary_stays:
  assumes "criterion_ok (policy_criterion p role)" "detect_settlement s p role = Settled b"
    and "\<forall>v\<in>set (ss_observations s). \<forall>w\<in>set later. so_at v \<le> so_at w"
  shows "detect_settlement (s\<lparr>ss_observations := ss_observations s @ later\<rparr>) p role = Settled b"
proof -
  let ?c = "policy_criterion p role"
  let ?deadline = "settlement_deadline (ss_started_at s) (sc_maximum_window ?c)"
  let ?s = "s\<lparr>ss_observations := ss_observations s @ later\<rparr>"
  let ?P = "\<lambda>w. ss_started_at s \<le> so_at (snd w) \<and> so_at (snd w) \<le> ?deadline"
  let ?new = "filter ?P (enumerate (length (ss_observations s)) later)"
  have split: "eligible_observations ?s ?deadline = sort_key (\<lambda>w. so_at (snd w)) (filter ?P (enumerate 0 (ss_observations s)) @ ?new)"
    by (simp add: eligible_observations_def enumerate_append_eq)
  have "so_at (snd v) \<le> so_at (snd w)" if "v \<in> set (enumerate 0 (ss_observations s))" "w \<in> set (enumerate k later)" for v w k
  proof -
    have "snd v \<in> set (ss_observations s)" "snd w \<in> set later"
      using that by (metis imageI list.set_map map_snd_enumerate)+
    then show ?thesis using assms(3) by blast
  qed
  then have "eligible_observations ?s ?deadline = eligible_observations s ?deadline @ sort_key (\<lambda>w. so_at (snd w)) ?new"
    unfolding split by (subst sort_key_append) (auto simp: eligible_observations_def)
  then show ?thesis
    using assms(1,2) first_plateau_append [of ?c] unfolding detect_Settled by (auto simp: criterion_ok_def)
qed

theorem settled_boundary_stays_witness:
  "detect_settlement (sample_series\<lparr>ss_observations := ss_observations sample_series @ [sample_reading 30 900000]\<rparr>)
     sample_policy BaselineRole = Settled sample_boundary"
  by (rule settled_boundary_stays [OF sample_settles]) (simp add: sample_series_def sample_reading_def)

end
