(* ===== verification/Contamination.thy ===== *)
theory Contamination
  imports Time_Model Quantities Rust_Strings
begin

text \<open>
  \<open>src/calibration/contamination.rs\<close>: the four signals that the account was not exclusive during a controlled
  experiment, and the gate that refuses a contaminated candidate. A verdict is the list of its findings.
\<close>

section \<open>Signals and thresholds\<close>

datatype contamination_signal = PreBurnIdle | SettlementDrift | FlatCredits | OverlappingSession

definition signal_label :: "contamination_signal \<Rightarrow> string" where
  "signal_label s =
     (case s of
        PreBurnIdle \<Rightarrow> ''pre_burn_idle_movement''
      | SettlementDrift \<Rightarrow> ''extended_settlement_drift''
      | FlatCredits \<Rightarrow> ''flat_credits_with_meter_movement''
      | OverlappingSession \<Rightarrow> ''overlapping_session'')"

definition all_signals :: "contamination_signal list" where
  "all_signals = [PreBurnIdle, SettlementDrift, FlatCredits, OverlappingSession]"

datatype thresholds_error = EmptyThresholdsVersion | PostSettlementGraceIsZero

record contamination_thresholds =
  ct_version :: string
  ct_pre_burn_max :: u32
  ct_post_settlement_max :: u32
  ct_grace :: monotonic_duration
  ct_flat_min_movement :: u32
  ct_flat_max_local :: credits

definition thresholds_new ::
    "string \<Rightarrow> u32 \<Rightarrow> u32 \<Rightarrow> monotonic_duration \<Rightarrow> u32 \<Rightarrow> credits \<Rightarrow> thresholds_error + contamination_thresholds" where
  "thresholds_new version pre post grace flat_min flat_max =
     (if trim version = [] then Inl EmptyThresholdsVersion
      else if grace = 0 then Inl PostSettlementGraceIsZero
      else Inr \<lparr>ct_version = version, ct_pre_burn_max = pre, ct_post_settlement_max = post, ct_grace = grace,
                ct_flat_min_movement = flat_min, ct_flat_max_local = flat_max\<rparr>)"

text \<open>The built-in thresholds construct; their \<open>expect\<close> is the left value.\<close>

definition default_thresholds :: "thresholds_error + contamination_thresholds" where
  "default_thresholds = thresholds_new ''contamination-v1'' 10000 10000 3600000000000 20000 (Credits 0)"

section \<open>Inputs and findings\<close>

record meter_point =
  mp_at :: utc_timestamp
  mp_quota_used :: quota_used

record marker_point =
  mp_source :: string
  mp_native :: string
  mp_account :: string
  mp_observed_at :: utc_timestamp

definition marker_label :: "marker_point \<Rightarrow> string" where
  "marker_label m = mp_source m @ ''/'' @ mp_native m"

record contamination_inputs =
  ci_account :: string
  ci_plateau_started_at :: utc_timestamp
  ci_started_at :: utc_timestamp
  ci_ended_at :: "utc_timestamp option"
  ci_evaluated_at :: utc_timestamp
  ci_pre_burn :: "meter_point list"
  ci_post :: "meter_point list"
  ci_meter_start :: quota_used
  ci_meter_end :: quota_used
  ci_local_credits :: credits
  ci_markers :: "marker_point list"

datatype contamination_magnitude =
  IdleMovement u32
| DriftMovement u32
| FlatMovement u32 i64
| Overlap "string list"

definition magnitude_signal :: "contamination_magnitude \<Rightarrow> contamination_signal" where
  "magnitude_signal m =
     (case m of IdleMovement _ \<Rightarrow> PreBurnIdle | DriftMovement _ \<Rightarrow> SettlementDrift
              | FlatMovement _ _ \<Rightarrow> FlatCredits | Overlap _ \<Rightarrow> OverlappingSession)"

definition show_magnitude :: "contamination_magnitude \<Rightarrow> string" where
  "show_magnitude m =
     (case m of
        IdleMovement n \<Rightarrow> ''pre-burn movement of '' @ show_nat n @ '' ppm''
      | DriftMovement n \<Rightarrow> ''post-settlement movement of '' @ show_nat n @ '' ppm''
      | FlatMovement n c \<Rightarrow>
          ''meter moved '' @ show_nat n @ '' ppm while local credits totalled '' @ show_int c @ '' micros''
      | Overlap sessions \<Rightarrow> show_nat (length sessions) @ '' overlapping session(s): '' @ join '', '' sessions)"

record contamination_finding =
  cf_signal :: contamination_signal
  cf_magnitude :: contamination_magnitude
  cf_detail :: string

definition finding_summary :: "contamination_finding \<Rightarrow> string" where
  "finding_summary f = signal_label (cf_signal f) @ '': '' @ show_magnitude (cf_magnitude f)"

type_synonym contamination_verdict = "contamination_finding list"

definition is_contaminated :: "contamination_verdict \<Rightarrow> bool" where
  "is_contaminated v \<longleftrightarrow> v \<noteq> []"

definition findings_for :: "contamination_verdict \<Rightarrow> contamination_signal \<Rightarrow> contamination_finding list" where
  "findings_for v s = filter (\<lambda>f. cf_signal f = s) v"

definition contamination_mark :: "contamination_verdict \<Rightarrow> string option" where
  "contamination_mark v =
     (if v = [] then None else Some (''contaminated('' @ join ''; '' (map finding_summary v) @ '')''))"

section \<open>Detection\<close>

definition used :: "quota_used \<Rightarrow> nat" where
  "used q = ppm (used_ppm q)"

text \<open>The movement of at least two readings, once sorted; the code's subtraction saturates at zero.\<close>

definition movement :: "nat list \<Rightarrow> u32 option" where
  "movement readings = (if length readings < 2 then None else Some (last (sort readings) - hd (sort readings)))"

definition idle_readings :: "contamination_inputs \<Rightarrow> nat list" where
  "idle_readings i =
     map (used \<circ> mp_quota_used)
       (filter (\<lambda>p. ci_plateau_started_at i \<le> mp_at p \<and> mp_at p \<le> ci_started_at i) (ci_pre_burn i))"

definition check_pre_burn_idle :: "contamination_inputs \<Rightarrow> contamination_thresholds \<Rightarrow> contamination_finding option" where
  "check_pre_burn_idle i t =
     (case movement (idle_readings i) of
        None \<Rightarrow> None
      | Some moved \<Rightarrow>
          if moved > ct_pre_burn_max t
          then Some \<lparr>cf_signal = PreBurnIdle, cf_magnitude = IdleMovement moved,
                     cf_detail = ''quota moved '' @ show_nat moved @
                       '' ppm inside the asserted idle plateau, above the recorded tolerance of '' @
                       show_nat (ct_pre_burn_max t) @ '' ppm''\<rparr>
          else None)"

definition work_end :: "contamination_inputs \<Rightarrow> utc_timestamp" where
  "work_end i = (case ci_ended_at i of Some e \<Rightarrow> e | None \<Rightarrow> ci_evaluated_at i)"

definition drift_start :: "contamination_inputs \<Rightarrow> contamination_thresholds \<Rightarrow> utc_timestamp" where
  "drift_start i t = sat_add_i64 (work_end i) (min (int (ct_grace t)) i64_max)"

definition drift_readings :: "contamination_inputs \<Rightarrow> contamination_thresholds \<Rightarrow> nat list" where
  "drift_readings i t = map (used \<circ> mp_quota_used) (filter (\<lambda>p. mp_at p > drift_start i t) (ci_post i))"

definition check_settlement_drift :: "contamination_inputs \<Rightarrow> contamination_thresholds \<Rightarrow> contamination_finding option" where
  "check_settlement_drift i t =
     (case movement (drift_readings i t) of
        None \<Rightarrow> None
      | Some moved \<Rightarrow>
          if moved > ct_post_settlement_max t
          then Some \<lparr>cf_signal = SettlementDrift, cf_magnitude = DriftMovement moved,
                     cf_detail = ''quota moved '' @ show_nat moved @
                       '' ppm past the settlement grace, above the recorded tolerance of '' @
                       show_nat (ct_post_settlement_max t) @ '' ppm; either contamination or a wrong lag model''\<rparr>
          else None)"

definition meter_movement :: "contamination_inputs \<Rightarrow> u32" where
  "meter_movement i = nat \<bar>int (used (ci_meter_start i)) - int (used (ci_meter_end i))\<bar>"

definition check_flat_credits :: "contamination_inputs \<Rightarrow> contamination_thresholds \<Rightarrow> contamination_finding option" where
  "check_flat_credits i t =
     (let moved = meter_movement i; local_micros = credit_micros (ci_local_credits i)
      in if ct_flat_min_movement t \<le> moved \<and> local_micros \<le> credit_micros (ct_flat_max_local t)
         then Some \<lparr>cf_signal = FlatCredits, cf_magnitude = FlatMovement moved local_micros,
                    cf_detail = ''meter moved '' @ show_nat moved @
                      '' ppm across controlled work while local credits totalled '' @ show_int local_micros @
                      '' micros (flat at or under '' @ show_int (credit_micros (ct_flat_max_local t)) @ '' micros)''\<rparr>
         else None)"

definition inside_experiment :: "contamination_inputs \<Rightarrow> marker_point \<Rightarrow> bool" where
  "inside_experiment i m \<longleftrightarrow>
     mp_account m = ci_account i \<and> ci_started_at i \<le> mp_observed_at m \<and> mp_observed_at m \<le> work_end i"

definition check_overlapping_sessions :: "contamination_inputs \<Rightarrow> contamination_finding option" where
  "check_overlapping_sessions i =
     (let sessions = remdups_adj (sort (map marker_label (filter (inside_experiment i) (ci_markers i))))
      in if sessions = [] then None
         else Some \<lparr>cf_signal = OverlappingSession, cf_magnitude = Overlap sessions,
                    cf_detail = show_nat (length sessions) @
                      '' other session(s) marked against the same account inside the experiment window''\<rparr>)"

definition evaluate_contamination :: "contamination_inputs \<Rightarrow> contamination_thresholds \<Rightarrow> contamination_verdict" where
  "evaluate_contamination i t =
     List.map_filter id
       [check_pre_burn_idle i t, check_settlement_drift i t, check_flat_credits i t, check_overlapping_sessions i]"

record contaminated_refusal =
  cr_signal :: contamination_signal
  cr_magnitude :: contamination_magnitude

definition show_refusal :: "contaminated_refusal \<Rightarrow> string" where
  "show_refusal r =
     ''candidate refused for activation: contaminated by '' @ signal_label (cr_signal r) @ '': '' @
     show_magnitude (cr_magnitude r)"

definition require_uncontaminated :: "contamination_verdict \<Rightarrow> contaminated_refusal + unit" where
  "require_uncontaminated v =
     (case v of [] \<Rightarrow> Inr () | f # _ \<Rightarrow> Inl \<lparr>cr_signal = cf_signal f, cr_magnitude = cf_magnitude f\<rparr>)"

section \<open>What each signal means\<close>

definition fires :: "contamination_inputs \<Rightarrow> contamination_thresholds \<Rightarrow> contamination_signal \<Rightarrow> bool" where
  "fires i t s =
     (case s of
        PreBurnIdle \<Rightarrow> \<exists>p q. p \<in> set (idle_readings i) \<and> q \<in> set (idle_readings i) \<and> p > q + ct_pre_burn_max t
      | SettlementDrift \<Rightarrow>
          \<exists>p q. p \<in> set (drift_readings i t) \<and> q \<in> set (drift_readings i t) \<and> p > q + ct_post_settlement_max t
      | FlatCredits \<Rightarrow>
          ct_flat_min_movement t \<le> meter_movement i \<and>
          credit_micros (ci_local_credits i) \<le> credit_micros (ct_flat_max_local t)
      | OverlappingSession \<Rightarrow> \<exists>m. m \<in> set (ci_markers i) \<and> inside_experiment i m)"

lemma sorted_last: "sorted rs \<Longrightarrow> y \<in> set rs \<Longrightarrow> y \<le> last rs" for rs :: "'a::linorder list"
  by (induction rs) auto

lemma sort_ends:
  assumes "rs \<noteq> []"
  shows "hd (sort rs) = Min (set rs)" "last (sort rs) = Max (set rs)"
proof -
  obtain x xs where s: "sort rs = x # xs"
    using assms by (metis neq_Nil_conv set_empty set_sort)
  have order: "sorted (x # xs)" using sorted_sort [of rs] by (simp only: s)
  have elements: "set rs = set (x # xs)" using set_sort [of "\<lambda>x. x" rs] by (simp only: s)
  show "hd (sort rs) = Min (set rs)"
    unfolding s elements using order by (intro Min_eqI [symmetric]) auto
  show "last (sort rs) = Max (set rs)"
    unfolding s elements using order sorted_last [of "x # xs"] last_in_set [of "x # xs"]
    by (intro Max_eqI [symmetric]) auto
qed

lemma movement_check:
  "(case movement rs of None \<Rightarrow> None | Some moved \<Rightarrow> if moved > k then Some (F moved) else None) =
   (if \<exists>p q. p \<in> set rs \<and> q \<in> set rs \<and> p > q + k then Some (F (Max (set rs) - Min (set rs))) else None)"
proof (cases "length rs < 2")
  case True
  then have "\<exists>x. set rs \<subseteq> {x}" by (cases rs) auto
  then show ?thesis using True by (auto simp: movement_def)
next
  case False
  then have ne: "rs \<noteq> []" by auto
  then have "movement rs = Some (Max (set rs) - Min (set rs))"
    using False by (simp add: movement_def sort_ends)
  moreover have "Max (set rs) - Min (set rs) > k \<longleftrightarrow> (\<exists>p q. p \<in> set rs \<and> q \<in> set rs \<and> p > q + k)"
  proof
    show "Max (set rs) - Min (set rs) > k \<Longrightarrow> \<exists>p q. p \<in> set rs \<and> q \<in> set rs \<and> p > q + k"
      using ne by (intro exI [of _ "Max (set rs)"] exI [of _ "Min (set rs)"]) auto
    show "\<exists>p q. p \<in> set rs \<and> q \<in> set rs \<and> p > q + k \<Longrightarrow> Max (set rs) - Min (set rs) > k"
    proof (elim exE conjE)
      fix p q
      assume "p \<in> set rs" "q \<in> set rs" "p > q + k"
      then have "p \<le> Max (set rs)" "Min (set rs) \<le> q" by simp_all
      then show ?thesis using \<open>p > q + k\<close> by linarith
    qed
  qed
  ultimately show ?thesis by simp
qed

lemma overlapping_sessions_empty:
  "remdups_adj (sort (map marker_label (filter (inside_experiment i) ms))) = [] \<longleftrightarrow>
   \<not> (\<exists>m. m \<in> set ms \<and> inside_experiment i m)"
  by (subst remdups_adj_sort_canonical) auto

lemma checks_fire:
  "map_option cf_signal (check_pre_burn_idle i t) = (if fires i t PreBurnIdle then Some PreBurnIdle else None)"
  "map_option cf_signal (check_settlement_drift i t) = (if fires i t SettlementDrift then Some SettlementDrift else None)"
  "map_option cf_signal (check_flat_credits i t) = (if fires i t FlatCredits then Some FlatCredits else None)"
  "map_option cf_signal (check_overlapping_sessions i) = (if fires i t OverlappingSession then Some OverlappingSession else None)"
  by (simp_all add: check_pre_burn_idle_def check_settlement_drift_def check_flat_credits_def
      check_overlapping_sessions_def movement_check overlapping_sessions_empty fires_def Let_def
      del: remdups_adj_Nil_iff)

lemma map_filter_options: "map f (List.map_filter id xs) = List.map_filter id (map (map_option f) xs)"
  by (induction xs) (auto simp: List.map_filter_simps split: option.split)

lemma fired_signals: "map cf_signal (evaluate_contamination i t) = filter (fires i t) all_signals"
  unfolding evaluate_contamination_def map_filter_options
  by (simp add: checks_fire [where t = t] all_signals_def List.map_filter_simps)

lemma check_kinds:
  "check_pre_burn_idle i t = Some f \<Longrightarrow> magnitude_signal (cf_magnitude f) = cf_signal f"
  "check_settlement_drift i t = Some f \<Longrightarrow> magnitude_signal (cf_magnitude f) = cf_signal f"
  "check_flat_credits i t = Some f \<Longrightarrow> magnitude_signal (cf_magnitude f) = cf_signal f"
  "check_overlapping_sessions i = Some f \<Longrightarrow> magnitude_signal (cf_magnitude f) = cf_signal f"
  by (auto simp: check_pre_burn_idle_def magnitude_signal_def split: option.splits if_splits)
    (auto simp: check_settlement_drift_def magnitude_signal_def split: option.splits if_splits,
     auto simp: check_flat_credits_def magnitude_signal_def Let_def split: if_splits,
     auto simp: check_overlapping_sessions_def magnitude_signal_def Let_def split: if_splits)

lemma finding_kinds: "f \<in> set (evaluate_contamination i t) \<Longrightarrow> magnitude_signal (cf_magnitude f) = cf_signal f"
  by (auto simp: evaluate_contamination_def List.map_filter_simps split: option.splits dest: check_kinds sym)

text \<open>
  The verdict holds exactly the signals that fire, in evaluation order and once each; a candidate passes the gate,
  and goes unmarked, exactly when none fires, and otherwise the first one is the reason it is refused.
\<close>

theorem contamination_findings_characterised:
  "map cf_signal (evaluate_contamination i t) = filter (fires i t) all_signals \<and>
   (require_uncontaminated (evaluate_contamination i t) = Inr () \<longleftrightarrow> filter (fires i t) all_signals = []) \<and>
   (contamination_mark (evaluate_contamination i t) = None \<longleftrightarrow> filter (fires i t) all_signals = []) \<and>
   (case require_uncontaminated (evaluate_contamination i t) of
      Inr _ \<Rightarrow> filter (fires i t) all_signals = []
    | Inl r \<Rightarrow> cr_signal r = hd (filter (fires i t) all_signals) \<and> magnitude_signal (cr_magnitude r) = cr_signal r)"
  unfolding fired_signals [symmetric] using finding_kinds [of _ i t]
  by (cases "evaluate_contamination i t") (simp_all add: require_uncontaminated_def contamination_mark_def)

text \<open>
  Evidence only ever adds findings: with more meter points and markers every signal that fired still fires, and the
  order and repetition of the evidence change nothing.
\<close>

theorem evidence_never_clears_contamination:
  assumes "set (ci_pre_burn i) \<subseteq> set pre" "set (ci_post i) \<subseteq> set post" "set (ci_markers i) \<subseteq> set markers"
  defines "j \<equiv> i\<lparr>ci_pre_burn := pre, ci_post := post, ci_markers := markers\<rparr>"
  shows "cf_signal ` set (evaluate_contamination i t) \<subseteq> cf_signal ` set (evaluate_contamination j t) \<and>
    (set (ci_pre_burn i) = set pre \<and> set (ci_post i) = set post \<and> set (ci_markers i) = set markers \<longrightarrow>
      evaluate_contamination i t = evaluate_contamination j t)"
proof -
  have same: "work_end j = work_end i" "meter_movement j = meter_movement i" "inside_experiment j = inside_experiment i"
    "drift_start j t = drift_start i t"
    by (simp_all add: j_def work_end_def meter_movement_def inside_experiment_def fun_eq_iff drift_start_def split: option.split)
  have readings: "set (idle_readings i) \<subseteq> set (idle_readings j)" "set (drift_readings i t) \<subseteq> set (drift_readings j t)"
    using assms(1,2) by (auto simp: idle_readings_def drift_readings_def same) (auto simp: j_def)
  have "fires i t s \<Longrightarrow> fires j t s" for s
    using readings assms(3) unfolding fires_def same
    by (cases s) (simp_all add: j_def, blast+)
  then have "set (map cf_signal (evaluate_contamination i t)) \<subseteq> set (map cf_signal (evaluate_contamination j t))"
    unfolding fired_signals by auto
  moreover have "evaluate_contamination i t = evaluate_contamination j t"
    if "set (ci_pre_burn i) = set pre" "set (ci_post i) = set post" "set (ci_markers i) = set markers"
  proof -
    have "set (idle_readings i) = set (idle_readings j)" "set (drift_readings i t) = set (drift_readings j t)"
      using that by (simp_all add: idle_readings_def drift_readings_def same) (simp_all add: j_def)
    moreover have "remdups_adj (sort (map marker_label (filter (inside_experiment i) (ci_markers i)))) =
        remdups_adj (sort (map marker_label (filter (inside_experiment i) markers)))"
      by (rule remdups_adj_sort_set) (simp add: that)
    ultimately show ?thesis
      unfolding evaluate_contamination_def check_pre_burn_idle_def check_settlement_drift_def movement_check
        check_flat_credits_def check_overlapping_sessions_def same
      by (simp add: j_def)
  qed
  ultimately show ?thesis by simp
qed

definition sample_inputs :: contamination_inputs where
  "sample_inputs =
     \<lparr>ci_account = ''acct'', ci_plateau_started_at = 0, ci_started_at = 10, ci_ended_at = Some 20,
      ci_evaluated_at = 30, ci_pre_burn = [], ci_post = [],
      ci_meter_start = QuotaUsed (QuotaFractionPpm 0), ci_meter_end = QuotaUsed (QuotaFractionPpm 0),
      ci_local_credits = Credits 0,
      ci_markers = [\<lparr>mp_source = ''claude'', mp_native = ''s1'', mp_account = ''acct'', mp_observed_at = 15\<rparr>]\<rparr>"

definition sample_thresholds :: contamination_thresholds where
  "sample_thresholds =
     \<lparr>ct_version = ''v1'', ct_pre_burn_max = 10000, ct_post_settlement_max = 10000, ct_grace = 5,
      ct_flat_min_movement = 20000, ct_flat_max_local = Credits 0\<rparr>"

theorem evidence_never_clears_contamination_witness:
  "OverlappingSession \<in> cf_signal ` set (evaluate_contamination
     (sample_inputs\<lparr>ci_pre_burn := [\<lparr>mp_at = 5, mp_quota_used = QuotaUsed (QuotaFractionPpm 7)\<rparr>], ci_post := [],
                   ci_markers := ci_markers sample_inputs\<rparr>) sample_thresholds)"
proof -
  have "OverlappingSession \<in> set (map cf_signal (evaluate_contamination sample_inputs sample_thresholds))"
    unfolding fired_signals by (simp add: all_signals_def fires_def sample_inputs_def inside_experiment_def work_end_def)
  moreover have "set (ci_pre_burn sample_inputs) \<subseteq> set [\<lparr>mp_at = 5, mp_quota_used = QuotaUsed (QuotaFractionPpm 7)\<rparr>]"
    "set (ci_post sample_inputs) \<subseteq> set []" "set (ci_markers sample_inputs) \<subseteq> set (ci_markers sample_inputs)"
    by (simp_all add: sample_inputs_def)
  note evidence_never_clears_contamination [OF this, of sample_thresholds]
  ultimately show ?thesis by auto
qed

end
