(* ===== verification/Provenance.thy ===== *)
theory Provenance
  imports Prelude Rust_Strings "HOL-Library.Word" "HOL-Library.Product_Lexorder"
begin

text \<open>
  \<open>src/domain/provenance.rs\<close>: content-addressed manifests of what a quantity was derived from. The digest is
  the 64-bit FNV-1a hash on machine words, an identifier's bytes are those of its ASCII text, and a set of
  identifiers is the strictly ascending list the code's ordered set iterates over.
\<close>

unbundle bit_operations_syntax

section \<open>The digest\<close>

type_synonym byte = "8 word"
type_synonym digest = "64 word"

definition fnv_prime :: digest where
  "fnv_prime = 0x100000001b3"

definition fnv_step :: "digest \<Rightarrow> byte \<Rightarrow> digest" where
  "fnv_step h b = (h XOR ucast b) * fnv_prime"

definition digest_of_bytes :: "byte list \<Rightarrow> digest" where
  "digest_of_bytes bytes = foldl fnv_step 0xcbf29ce484222325 bytes"

definition hex_digit :: "nat \<Rightarrow> char" where
  "hex_digit n = ''0123456789abcdef'' ! n"

definition to_hex :: "digest \<Rightarrow> string" where
  "to_hex d = map (\<lambda>i. hex_digit (unat (drop_bit (4 * i) d AND 15))) (rev [0..<16])"

definition to_le_bytes :: "digest \<Rightarrow> byte list" where
  "to_le_bytes d = map (\<lambda>i. ucast (drop_bit (8 * i) d)) [0..<8]"

definition text_bytes :: "string \<Rightarrow> byte list" where
  "text_bytes s = map of_char s"

section \<open>Manifests\<close>

datatype witness_id = CostModelWitness string | WindowCalibrationWitness string | RateCardWitness string

definition witness_key :: "witness_id \<Rightarrow> nat \<times> string" where
  "witness_key w =
     (case w of CostModelWitness s \<Rightarrow> (0, s) | WindowCalibrationWitness s \<Rightarrow> (1, s) | RateCardWitness s \<Rightarrow> (2, s))"

definition witness_cost_model :: "witness_id \<Rightarrow> string option" where
  "witness_cost_model w = (case w of CostModelWitness s \<Rightarrow> Some s | WindowCalibrationWitness _ \<Rightarrow> None | RateCardWitness _ \<Rightarrow> None)"

definition witness_window_calibration :: "witness_id \<Rightarrow> string option" where
  "witness_window_calibration w =
     (case w of WindowCalibrationWitness s \<Rightarrow> Some s | CostModelWitness _ \<Rightarrow> None | RateCardWitness _ \<Rightarrow> None)"

definition witness_rate_card :: "witness_id \<Rightarrow> string option" where
  "witness_rate_card w = (case w of RateCardWitness s \<Rightarrow> Some s | CostModelWitness _ \<Rightarrow> None | WindowCalibrationWitness _ \<Rightarrow> None)"

record query_semantics =
  qs_grouping :: string
  qs_filtering :: string

definition semantics_bytes :: "query_semantics \<Rightarrow> byte list" where
  "semantics_bytes q = text_bytes (qs_grouping q) @ 0 # text_bytes (qs_filtering q)"

definition canonical_bytes :: "string list \<Rightarrow> byte list" where
  "canonical_bytes ids = concat (map (\<lambda>s. text_bytes s @ [0]) ids)"

definition canonical_inputs_hash :: "string list \<Rightarrow> digest" where
  "canonical_inputs_hash ids = digest_of_bytes (canonical_bytes ids)"

definition evidence_set :: "string list \<Rightarrow> string list" where
  "evidence_set ids = remdups_adj (sort ids)"

record provenance_manifest =
  pm_inputs_hash :: digest
  pm_input_count :: nat
  pm_witnesses :: "witness_id list"
  pm_semantics :: query_semantics

definition manifest_new :: "string list \<Rightarrow> witness_id list \<Rightarrow> query_semantics \<Rightarrow> provenance_manifest" where
  "manifest_new inputs witnesses q =
     \<lparr>pm_inputs_hash = canonical_inputs_hash (evidence_set inputs), pm_input_count = length (evidence_set inputs),
      pm_witnesses = remdups_adj (sort_key witness_key witnesses), pm_semantics = q\<rparr>"

definition verify_expansion :: "provenance_manifest \<Rightarrow> string list \<Rightarrow> bool" where
  "verify_expansion m members \<longleftrightarrow>
     length members = pm_input_count m \<and> canonical_inputs_hash members = pm_inputs_hash m"

definition derivation_id :: "provenance_manifest \<Rightarrow> digest" where
  "derivation_id m = digest_of_bytes (to_le_bytes (pm_inputs_hash m) @ semantics_bytes (pm_semantics m))"

section \<open>One changed byte changes the digest\<close>

lemma fnv_prime_unit: "fnv_prime * 14886173955864302971 = 1"
  by (simp add: fnv_prime_def)

lemma times_fnv_prime_eq: "a * fnv_prime = b * fnv_prime \<longleftrightarrow> a = b"
proof
  assume eq: "a * fnv_prime = b * fnv_prime"
  have "a * (fnv_prime * 14886173955864302971) = b * (fnv_prime * 14886173955864302971)"
    by (simp only: mult.assoc [symmetric] eq)
  then show "a = b" by (simp only: fnv_prime_unit mult_1_right)
qed simp

lemma xor_left_eq: "x XOR y = x XOR z \<longleftrightarrow> y = z" for x y z :: digest
  by (auto simp: bit_eq_iff bit_xor_iff)

lemma xor_right_eq: "y XOR x = z XOR x \<longleftrightarrow> y = z" for x y z :: digest
  by (auto simp: bit_eq_iff bit_xor_iff)

lemma byte_back: "ucast (ucast b :: digest) = b" for b :: byte
  by (rule bit_word_eqI) (simp add: bit_ucast_iff)

lemma byte_ucast_eq: "(ucast b :: digest) = ucast c \<longleftrightarrow> b = c" for b c :: byte
  by (metis byte_back)

lemma fnv_step_eq_left: "fnv_step h b = fnv_step h' b \<longleftrightarrow> h = h'"
  by (simp add: fnv_step_def times_fnv_prime_eq xor_right_eq)

lemma fnv_step_eq_right: "fnv_step h b = fnv_step h c \<longleftrightarrow> b = c"
  by (simp add: fnv_step_def times_fnv_prime_eq xor_left_eq byte_ucast_eq)

lemma fnv_fold_eq: "foldl fnv_step h bs = foldl fnv_step h' bs \<longleftrightarrow> h = h'"
  by (induction bs arbitrary: h h') (simp_all add: fnv_step_eq_left)

lemma digest_one_byte:
  "digest_of_bytes (us @ b # vs) = digest_of_bytes (us @ c # vs) \<longleftrightarrow> b = c"
  by (simp add: digest_of_bytes_def fnv_fold_eq fnv_step_eq_right)

lemma byte_of_nat_char: "unat (of_char c :: byte) = of_char c"
proof -
  have "unat (of_nat (of_char c) :: byte) = of_char c"
    by (simp add: unat_of_nat)
  then show ?thesis by (simp only: of_nat_of_char)
qed

lemma char_byte_eq: "(of_char c :: byte) = of_char d \<longleftrightarrow> c = d"
  by (metis byte_of_nat_char of_char_eq_iff)

section \<open>The canonical serialization\<close>

definition nul_free :: "string \<Rightarrow> bool" where
  "nul_free s \<longleftrightarrow> CHR 0x00 \<notin> set s"

lemma nul_byte: "(of_char c :: byte) = 0 \<longleftrightarrow> c = CHR 0x00"
  using char_byte_eq [of c "CHR 0x00"] by simp

lemma text_bytes_nul: "0 \<in> set (text_bytes s) \<longleftrightarrow> \<not> nul_free s"
  by (auto simp: text_bytes_def nul_free_def nul_byte image_iff dest: sym)

lemma text_bytes_eq: "text_bytes s = text_bytes t \<longleftrightarrow> s = t"
  by (simp add: text_bytes_def inj_map_eq_map inj_on_def char_byte_eq)

lemma split_at_nul:
  assumes "0 \<notin> set us" "0 \<notin> set us'"
  shows "us @ 0 # vs = us' @ 0 # vs' \<longleftrightarrow> us = us' \<and> vs = vs'"
  using assms by (auto simp: append_eq_append_conv2 Cons_eq_append_conv append_eq_Cons_conv)

lemma canonical_bytes_eq:
  "list_all nul_free xs \<Longrightarrow> list_all nul_free ys \<Longrightarrow> canonical_bytes xs = canonical_bytes ys \<longleftrightarrow> xs = ys"
proof (induction xs arbitrary: ys)
  case Nil
  then show ?case by (cases ys) (simp_all add: canonical_bytes_def)
next
  case (Cons x xs)
  then show ?case
    by (cases ys) (auto simp: canonical_bytes_def split_at_nul text_bytes_nul text_bytes_eq)
qed

lemma semantics_bytes_eq:
  assumes "nul_free (qs_grouping p)" "nul_free (qs_grouping q)"
  shows "semantics_bytes p = semantics_bytes q \<longleftrightarrow> p = q"
  using assms
  by (cases p; cases q) (auto simp: semantics_bytes_def split_at_nul text_bytes_nul text_bytes_eq)

text \<open>Identifiers that contain the terminator alias: the serialization does not say where one ends.\<close>

lemma identifiers_with_nul_alias:
  "canonical_inputs_hash [CHR ''a'' # CHR 0x00 # ''b''] = canonical_inputs_hash [''a'', ''b'']"
  by (simp add: canonical_inputs_hash_def canonical_bytes_def text_bytes_def)

lemma semantics_with_nul_alias:
  "semantics_bytes \<lparr>qs_grouping = ''g'', qs_filtering = CHR 0x00 # ''f''\<rparr> =
   semantics_bytes \<lparr>qs_grouping = CHR ''g'' # [CHR 0x00], qs_filtering = ''f''\<rparr>"
  by (simp add: semantics_bytes_def text_bytes_def)

section \<open>Manifests are canonical and detect corruption\<close>

lemma evidence_set_canonical: "evidence_set xs = sorted_list_of_set (set xs)"
  by (simp add: evidence_set_def remdups_adj_sort_canonical)

lemma witness_key_eq: "witness_key v = witness_key w \<longleftrightarrow> v = w"
  by (cases v; cases w) (simp_all add: witness_key_def)

lemma manifest_new_set:
  "set xs = set ys \<Longrightarrow> set vs = set ws \<Longrightarrow> manifest_new xs vs q = manifest_new ys ws q"
  unfolding manifest_new_def evidence_set_def
  by (simp add: remdups_adj_sort_set [of xs ys] remdups_adj_sort_key_set [of witness_key vs ws] inj_on_def witness_key_eq)

text \<open>
  A manifest is a function of the sets it was given: neither the order in which identifiers and witnesses
  arrive nor their repetitions show in it, it verifies the expansion to its own evidence, and its identifier
  does not depend on the witnesses.
\<close>

theorem manifest_is_canonical:
  "manifest_new xs vs q = manifest_new (sorted_list_of_set (set xs)) (rev vs) q \<and>
   pm_input_count (manifest_new xs vs q) = card (set xs) \<and>
   verify_expansion (manifest_new xs vs q) (sorted_list_of_set (set xs)) \<and>
   derivation_id (manifest_new xs vs q) = derivation_id (manifest_new (remdups xs) [] q)"
proof -
  have "manifest_new xs vs q = manifest_new (sorted_list_of_set (set xs)) (rev vs) q"
    by (rule manifest_new_set) simp_all
  moreover have "manifest_new (remdups xs) vs q = manifest_new xs vs q"
    by (rule manifest_new_set) simp_all
  then have "evidence_set (remdups xs) = evidence_set xs"
    by (simp add: evidence_set_canonical)
  ultimately show ?thesis
    by (auto simp: manifest_new_def verify_expansion_def derivation_id_def evidence_set_canonical)
qed

lemma changed_byte_changes_hash:
  assumes "c \<noteq> d"
  shows "canonical_inputs_hash (us @ (p @ c # q) # vs) \<noteq> canonical_inputs_hash (us @ (p @ d # q) # vs)"
proof -
  define pre where "pre = concat (map (\<lambda>s. text_bytes s @ [0]) us) @ text_bytes p"
  define post where "post = text_bytes q @ 0 # concat (map (\<lambda>s. text_bytes s @ [0]) vs)"
  have "canonical_bytes (us @ (p @ x # q) # vs) = pre @ of_char x # post" for x
    by (simp add: canonical_bytes_def pre_def post_def text_bytes_def)
  then show ?thesis
    using assms by (simp add: canonical_inputs_hash_def digest_one_byte char_byte_eq)
qed

text \<open>
  Changing a single byte of one expanded member changes the hash: a manifest never verifies two member lists
  that differ in one byte, whatever the identifiers contain. The same holds for a byte of the semantics and
  the derivation identifier.
\<close>

theorem corrupted_byte_is_detected:
  assumes "verify_expansion m (us @ (p @ c # q) # vs)" and "c \<noteq> d"
  shows "\<not> verify_expansion m (us @ (p @ d # q) # vs) \<and>
    derivation_id (m\<lparr>pm_semantics := \<lparr>qs_grouping = g @ c # h, qs_filtering = f\<rparr>\<rparr>) \<noteq>
      derivation_id (m\<lparr>pm_semantics := \<lparr>qs_grouping = g @ d # h, qs_filtering = f\<rparr>\<rparr>) \<and>
    derivation_id (m\<lparr>pm_semantics := \<lparr>qs_grouping = f, qs_filtering = g @ c # h\<rparr>\<rparr>) \<noteq>
      derivation_id (m\<lparr>pm_semantics := \<lparr>qs_grouping = f, qs_filtering = g @ d # h\<rparr>\<rparr>)"
proof -
  have ne: "(of_char c :: byte) \<noteq> of_char d" using assms(2) by (simp add: char_byte_eq)
  have "canonical_inputs_hash (us @ (p @ c # q) # vs) \<noteq> canonical_inputs_hash (us @ (p @ d # q) # vs)"
    using assms(2) by (rule changed_byte_changes_hash)
  then have A: "\<not> verify_expansion m (us @ (p @ d # q) # vs)"
    using assms(1) by (auto simp: verify_expansion_def)
  have eq: "derivation_id (m\<lparr>pm_semantics := \<lparr>qs_grouping = g @ x # h, qs_filtering = f\<rparr>\<rparr>) =
      digest_of_bytes ((to_le_bytes (pm_inputs_hash m) @ text_bytes g) @ of_char x # (text_bytes h @ 0 # text_bytes f))"
    "derivation_id (m\<lparr>pm_semantics := \<lparr>qs_grouping = f, qs_filtering = g @ x # h\<rparr>\<rparr>) =
      digest_of_bytes ((to_le_bytes (pm_inputs_hash m) @ text_bytes f @ 0 # text_bytes g) @ of_char x # text_bytes h)" for x
    by (simp_all add: derivation_id_def semantics_bytes_def text_bytes_def)
  from A show ?thesis unfolding eq digest_one_byte using ne by blast
qed

theorem corrupted_byte_is_detected_witness:
  "\<not> verify_expansion (manifest_new [''ev-2'', ''ev-1''] [] \<lparr>qs_grouping = ''task'', qs_filtering = ''all''\<rparr>) [''ev-1'', ''ev-3'']"
proof -
  let ?q = "\<lparr>qs_grouping = ''task'', qs_filtering = ''all''\<rparr>"
  have "sorted_list_of_set (set [''ev-2'', ''ev-1'']) = [''ev-1'', ''ev-2'']"
    by (simp add: less_eq_char_def insort_key.simps)
  then have "verify_expansion (manifest_new [''ev-2'', ''ev-1''] [] ?q) ([''ev-1''] @ (''ev-'' @ CHR ''2'' # []) # [])"
    by (simp add: verify_expansion_def manifest_new_def evidence_set_canonical)
  from corrupted_byte_is_detected [OF this, of "CHR ''3''" "[]" "[]" "[]"] show ?thesis by simp
qed

end
