(* ===== verification/Activation.thy ===== *)
theory Activation
  imports Contamination Provenance Windows "HOL-Library.FSet"
begin

text \<open>
  \<open>src/calibration/health.rs\<close> and the gate of \<open>src/calibration/activation.rs\<close>: when a calibration may become
  active, and what state an active one is in. The evidence of a request is a finite set of identifiers, read in ascending
  order as the code's ordered set is; a fingerprint is the canonical hash of that list, and the texts of refusals are
  kept as the values they name. The held-out residual
  is computed over floats and is an input here.
\<close>

section \<open>Health\<close>

text \<open>The states themselves are \<open>calibration_health\<close> of theory \<open>Windows\<close>.\<close>

datatype lifecycle_state = NeverActivated | LifecycleActive | LifecycleSuperseded

record significant_drift =
  sd_finding_id :: string

record applicability =
  ap_plan_tier :: string
  ap_meter_semantics :: string
  ap_billing_semantics :: string

record health_inputs =
  hi_calibration :: applicability
  hi_context :: applicability
  hi_lifecycle :: lifecycle_state
  hi_cost_model_superseded :: bool
  hi_drift :: "significant_drift option"
  hi_review_due_at :: "utc_timestamp option"

definition applies :: "applicability \<Rightarrow> applicability \<Rightarrow> bool" where
  "applies c x \<longleftrightarrow>
     ap_plan_tier c = ap_plan_tier x \<and> ap_meter_semantics c = ap_meter_semantics x \<and>
     ap_billing_semantics c = ap_billing_semantics x"

definition compute_per_kind_health ::
    "lifecycle_state \<Rightarrow> significant_drift option \<Rightarrow> utc_timestamp option \<Rightarrow> utc_timestamp \<Rightarrow> calibration_health" where
  "compute_per_kind_health lifecycle drift review_due_at now =
     (if lifecycle = LifecycleSuperseded then Superseded
      else if lifecycle = NeverActivated then Provisional
      else if drift \<noteq> None then Suspect
      else case review_due_at of
             Some due \<Rightarrow> if now \<ge> due then ReviewDue else Current
           | None \<Rightarrow> Current)"

definition compute_health :: "health_inputs \<Rightarrow> utc_timestamp \<Rightarrow> calibration_health" where
  "compute_health i now =
     (if \<not> applies (hi_calibration i) (hi_context i) then Inapplicable
      else if hi_cost_model_superseded i then Superseded
      else compute_per_kind_health (hi_lifecycle i) (hi_drift i) (hi_review_due_at i) now)"

definition review_instant :: "utc_timestamp \<Rightarrow> monotonic_duration \<Rightarrow> utc_timestamp" where
  "review_instant fitted_at review_after = sat_add_i64 fitted_at (min (int review_after) i64_max)"

definition require_current :: "calibration_health \<Rightarrow> calibration_health + unit" where
  "require_current h = (case h of Current \<Rightarrow> Inr () | _ \<Rightarrow> Inl h)"

text \<open>
  Only a calibration that matches the environment, is active, whose cost model stands, without a drift finding and
  before its review instant is usable; and the state only ever leaves that: as time passes, everything else being
  equal, nothing changes but a current calibration falling due for review.
\<close>

theorem usable_only_when_every_condition_holds:
  "(require_current (compute_health i now) = Inr () \<longleftrightarrow>
      applies (hi_calibration i) (hi_context i) \<and> \<not> hi_cost_model_superseded i \<and> hi_lifecycle i = LifecycleActive \<and>
      hi_drift i = None \<and> (case hi_review_due_at i of None \<Rightarrow> True | Some due \<Rightarrow> now < due)) \<and>
   (compute_health i (max now later) = compute_health i now \<or>
      compute_health i now = Current \<and> compute_health i (max now later) = ReviewDue)"
  by (cases "hi_lifecycle i"; cases "hi_review_due_at i"; cases "hi_drift i")
    (auto simp: compute_health_def compute_per_kind_health_def require_current_def)

text \<open>The review instant never precedes the fit, and is the exact sum while that fits the clock's range.\<close>

lemma review_instant_bounds:
  assumes "is_i64 fitted_at"
  shows "fitted_at \<le> review_instant fitted_at horizon"
    and "int horizon \<le> i64_max \<Longrightarrow> fitted_at + int horizon \<le> i64_max \<Longrightarrow> review_instant fitted_at horizon = fitted_at + int horizon"
  using assms by (auto simp: review_instant_def sat_add_i64_def is_i64_def)

section \<open>The activation gate\<close>

record activation_policy =
  pl_version :: string
  pl_max_residual :: credits
  pl_max_quota_residual :: "quota_fraction option"
  pl_max_condition :: i64

datatype activation_config_error = EmptyPolicyVersion | EmptyActor

definition activation_policy_new :: "string \<Rightarrow> credits \<Rightarrow> i64 \<Rightarrow> activation_config_error + activation_policy" where
  "activation_policy_new version residual condition =
     (if version = [] then Inl EmptyPolicyVersion
      else Inr \<lparr>pl_version = version, pl_max_residual = residual, pl_max_quota_residual = None,
                pl_max_condition = condition\<rparr>)"

definition with_max_quota_residual :: "activation_policy \<Rightarrow> quota_fraction \<Rightarrow> activation_policy" where
  "with_max_quota_residual p maximum = p\<lparr>pl_max_quota_residual := Some maximum\<rparr>"

type_synonym activation_actor = string

definition activation_actor_new :: "string \<Rightarrow> activation_config_error + activation_actor" where
  "activation_actor_new value = (if value = [] then Inl EmptyActor else Inr value)"

datatype evidence_role = FittingRole | ValidationRole

datatype activation_refusal =
  PolicyVersionMismatch string string
| EvidenceMismatch evidence_role
| OverlappingEvidence "string list"
| ContaminatedCandidate string
| IllConditioned i64 i64
| MissingHeldOutResidual
| HeldOutResidualExceedsPolicy credits credits string
| HeldOutQuotaResidualExceedsPolicy quota_fraction quota_fraction string
| MissingQuotaResidualBound string
| IncompleteCostModel string "string list"

record activation_request =
  rq_actor :: activation_actor
  rq_policy :: activation_policy
  rq_training :: "string fset"
  rq_validation :: "string fset"
  rq_contamination :: contamination_verdict

datatype held_out_residual = CreditsResidual credits | QuotaResidual quota_fraction

record recorded_validation =
  rv_policy_version :: string
  rv_residual :: "held_out_residual option"
  rv_condition :: "i64 option"
  rv_fitting :: digest
  rv_validation :: digest

text \<open>The fingerprint of a set does not depend on the order its members were named in, nor on repetitions.\<close>

definition evidence_fingerprint :: "string fset \<Rightarrow> digest" where
  "evidence_fingerprint inputs = canonical_inputs_hash (sorted_list_of_fset inputs)"

definition check_evidence_disjoint :: "string fset \<Rightarrow> string fset \<Rightarrow> activation_refusal + unit" where
  "check_evidence_disjoint training validation =
     (let overlap = sorted_list_of_fset (training |\<inter>| validation)
      in if overlap = [] then Inr () else Inl (OverlappingEvidence overlap))"

definition check_cost_model_completeness :: "string \<Rightarrow> string list \<Rightarrow> activation_refusal + unit" where
  "check_cost_model_completeness cost_model missing =
     (if missing = [] then Inr () else Inl (IncompleteCostModel cost_model missing))"

definition check_condition :: "activation_request \<Rightarrow> recorded_validation \<Rightarrow> activation_refusal + unit" where
  "check_condition rq rv =
     (case rv_condition rv of
        None \<Rightarrow> Inr ()
      | Some c \<Rightarrow> if c > pl_max_condition (rq_policy rq) then Inl (IllConditioned c (pl_max_condition (rq_policy rq)))
                  else Inr ())"

definition check_residual :: "activation_request \<Rightarrow> recorded_validation \<Rightarrow> activation_refusal + unit" where
  "check_residual rq rv =
     (case rv_residual rv of
        None \<Rightarrow> Inl MissingHeldOutResidual
      | Some (CreditsResidual residual) \<Rightarrow>
          (let maximum = pl_max_residual (rq_policy rq)
           in if credit_micros residual > credit_micros maximum
              then Inl (HeldOutResidualExceedsPolicy residual maximum (pl_version (rq_policy rq)))
              else Inr ())
      | Some (QuotaResidual residual) \<Rightarrow>
          (case pl_max_quota_residual (rq_policy rq) of
             None \<Rightarrow> Inl (MissingQuotaResidualBound (pl_version (rq_policy rq)))
           | Some maximum \<Rightarrow>
               if ppm residual > ppm maximum
               then Inl (HeldOutQuotaResidualExceedsPolicy residual maximum (pl_version (rq_policy rq)))
               else Inr ()))"

definition check_activation :: "activation_request \<Rightarrow> recorded_validation \<Rightarrow> activation_refusal + unit" where
  "check_activation rq rv =
     (if pl_version (rq_policy rq) \<noteq> rv_policy_version rv
      then Inl (PolicyVersionMismatch (rv_policy_version rv) (pl_version (rq_policy rq)))
      else if evidence_fingerprint (rq_training rq) \<noteq> rv_fitting rv then Inl (EvidenceMismatch FittingRole)
      else if evidence_fingerprint (rq_validation rq) \<noteq> rv_validation rv then Inl (EvidenceMismatch ValidationRole)
      else and_then (check_evidence_disjoint (rq_training rq) (rq_validation rq)) (\<lambda>_.
           and_then (case require_uncontaminated (rq_contamination rq) of
                       Inl r \<Rightarrow> Inl (ContaminatedCandidate (show_refusal r)) | Inr _ \<Rightarrow> Inr ()) (\<lambda>_.
           and_then (check_condition rq rv) (\<lambda>_. check_residual rq rv))))"

section \<open>What the gate guarantees\<close>

definition within_bounds :: "activation_policy \<Rightarrow> recorded_validation \<Rightarrow> bool" where
  "within_bounds p rv \<longleftrightarrow>
     (case rv_condition rv of None \<Rightarrow> True | Some c \<Rightarrow> c \<le> pl_max_condition p) \<and>
     (case rv_residual rv of
        None \<Rightarrow> False
      | Some (CreditsResidual r) \<Rightarrow> credit_micros r \<le> credit_micros (pl_max_residual p)
      | Some (QuotaResidual r) \<Rightarrow>
          (case pl_max_quota_residual p of None \<Rightarrow> False | Some maximum \<Rightarrow> ppm r \<le> ppm maximum))"

definition judges_recorded :: "activation_request \<Rightarrow> recorded_validation \<Rightarrow> bool" where
  "judges_recorded rq rv \<longleftrightarrow>
     pl_version (rq_policy rq) = rv_policy_version rv \<and> evidence_fingerprint (rq_training rq) = rv_fitting rv \<and>
     evidence_fingerprint (rq_validation rq) = rv_validation rv"

lemma check_bounds: "check_condition rq rv = Inr () \<and> check_residual rq rv = Inr () \<longleftrightarrow> within_bounds (rq_policy rq) rv"
  by (auto simp: check_condition_def check_residual_def within_bounds_def Let_def not_less
      split: option.split held_out_residual.split)

lemma sorted_list_of_fset_Nil: "sorted_list_of_fset S = [] \<longleftrightarrow> S = {||}"
  by (metis finite_fset fset_simps(1) fset_inject sorted_list_of_fset.rep_eq sorted_list_of_set.sorted_key_list_of_set_eq_Nil_iff)

lemma check_disjoint: "check_evidence_disjoint S T = Inr () \<longleftrightarrow> S |\<inter>| T = {||}"
  by (simp add: check_evidence_disjoint_def Let_def sorted_list_of_fset_Nil)

lemma sorted_list_of_fset_of_list: "sorted_wrt (<) xs \<Longrightarrow> sorted_list_of_fset (fset_of_list xs) = xs"
  by (simp add: sorted_list_of_fset.rep_eq fset_of_list.rep_eq sorted_list_of_set.idem_if_sorted_distinct
      strict_sorted_iff)

lemma require_clean: "require_uncontaminated v = Inr () \<longleftrightarrow> v = []"
  by (cases v) (simp_all add: require_uncontaminated_def)

lemma check_activation_iff:
  "check_activation rq rv = Inr () \<longleftrightarrow>
     judges_recorded rq rv \<and> rq_training rq |\<inter>| rq_validation rq = {||} \<and> rq_contamination rq = [] \<and>
     within_bounds (rq_policy rq) rv"
proof -
  have "(case require_uncontaminated v of Inl r \<Rightarrow> Inl (ContaminatedCandidate (show_refusal r)) | Inr _ \<Rightarrow> Inr ()) = Inr () \<longleftrightarrow> v = []"
    for v
    by (cases v) (simp_all add: require_uncontaminated_def)
  then show ?thesis
    by (simp add: check_activation_def and_then_Inr check_disjoint judges_recorded_def check_bounds)
qed

text \<open>
  C14. From the experiment to the gate: a candidate that passes comes from an experiment on which no contamination signal
  fires, and the same request with one byte of one training identifier changed, so that the identifier keeps its place
  in the order of the set, is refused as a substitute.
\<close>

theorem activation_judges_the_recorded_evidence:
  assumes "check_activation rq rv = Inr ()" "rq_contamination rq = evaluate_contamination i t"
    and "sorted_list_of_fset (rq_training rq) = us @ (p @ c # q) # vs" "c \<noteq> d"
    and "sorted_wrt (<) (us @ (p @ d # q) # vs)"
  shows "filter (fires i t) all_signals = [] \<and>
    check_activation (rq\<lparr>rq_training := fset_of_list (us @ (p @ d # q) # vs)\<rparr>) rv = Inl (EvidenceMismatch FittingRole)"
proof -
  have ok: "judges_recorded rq rv" "evaluate_contamination i t = []"
    using assms(1,2) by (simp_all add: check_activation_iff)
  then have "filter (fires i t) all_signals = []" by (simp flip: fired_signals)
  moreover have "canonical_inputs_hash (us @ (p @ c # q) # vs) \<noteq> canonical_inputs_hash (us @ (p @ d # q) # vs)"
    using assms(4) by (rule changed_byte_changes_hash)
  then have "evidence_fingerprint (rq_training rq) \<noteq> evidence_fingerprint (fset_of_list (us @ (p @ d # q) # vs))"
    unfolding evidence_fingerprint_def assms(3) sorted_list_of_fset_of_list [OF assms(5)] .
  ultimately show ?thesis using ok(1) by (simp add: judges_recorded_def check_activation_def)
qed

definition sample_request :: activation_request where
  "sample_request =
     \<lparr>rq_actor = ''op'',
      rq_policy = \<lparr>pl_version = ''v1'', pl_max_residual = Credits 10, pl_max_quota_residual = None, pl_max_condition = 30\<rparr>,
      rq_training = {|''ev-1''|}, rq_validation = {|''ev-2''|},
      rq_contamination = evaluate_contamination (sample_inputs\<lparr>ci_markers := []\<rparr>) sample_thresholds\<rparr>"

definition sample_recorded :: recorded_validation where
  "sample_recorded =
     \<lparr>rv_policy_version = ''v1'', rv_residual = Some (CreditsResidual (Credits 4)), rv_condition = Some 2,
      rv_fitting = evidence_fingerprint {|''ev-1''|}, rv_validation = evidence_fingerprint {|''ev-2''|}\<rparr>"

lemma sample_clean: "evaluate_contamination (sample_inputs\<lparr>ci_markers := []\<rparr>) sample_thresholds = []"
proof -
  have "map cf_signal (evaluate_contamination (sample_inputs\<lparr>ci_markers := []\<rparr>) sample_thresholds) = []"
    unfolding fired_signals
    by (simp add: all_signals_def fires_def sample_inputs_def sample_thresholds_def meter_movement_def used_def
        idle_readings_def drift_readings_def)
  then show ?thesis by simp
qed

lemma sample_passes: "check_activation sample_request sample_recorded = Inr ()"
  by (simp add: check_activation_iff sample_request_def sample_recorded_def judges_recorded_def within_bounds_def sample_clean)

lemma sorted_list_of_singleton: "sorted_list_of_fset {|x|} = [x]"
  by (simp add: sorted_list_of_fset.rep_eq)

theorem activation_judges_the_recorded_evidence_witness:
  "check_activation (sample_request\<lparr>rq_training := {|''ev-3''|}\<rparr>) sample_recorded = Inl (EvidenceMismatch FittingRole)"
  using activation_judges_the_recorded_evidence
    [OF sample_passes, of "sample_inputs\<lparr>ci_markers := []\<rparr>" sample_thresholds "[]" "''ev-''" "CHR ''1''" "[]" "[]" "CHR ''3''"]
  by (simp add: sample_request_def sorted_list_of_singleton)

end
