(* ===== verification/Lifecycle_History.thy ===== *)
theory Lifecycle_History
  imports Selection Time_Model
begin

text \<open>
  What the two activation ledgers share: rows are only appended, the row in force at an instant is the latest one at
  or before it, and a new row names as replaced what was in force just before its own instant. An event's key is its
  instant and the rank of its table, the order the queries sort by; rows of equal keys are ranked by insertion.
\<close>

definition instant_before :: "utc_timestamp \<Rightarrow> utc_timestamp" where
  "instant_before t = sat_sub_i64 t 1"

definition latest_event :: "('e \<Rightarrow> utc_timestamp \<times> nat) \<Rightarrow> 'e list \<Rightarrow> utc_timestamp \<Rightarrow> 'e option" where
  "latest_event key events t = first_best (\<lambda>a b. key b < key a) (rev (filter (\<lambda>e. fst (key e) \<le> t) events))"

definition in_order :: "('e \<Rightarrow> utc_timestamp \<times> nat) \<Rightarrow> 'e list \<Rightarrow> bool" where
  "in_order key events \<longleftrightarrow> sorted_wrt (<) (map (fst \<circ> key) events)"

definition names_predecessors ::
    "('e \<Rightarrow> utc_timestamp \<times> nat) \<Rightarrow> ('e \<Rightarrow> 's) \<Rightarrow> ('e \<Rightarrow> 's option) \<Rightarrow> 'e list \<Rightarrow> bool" where
  "names_predecessors key subject replaces events \<longleftrightarrow>
     (\<forall>i<length events.
        is_i64 (fst (key (events ! i))) \<and> replaces (events ! i) \<noteq> Some (subject (events ! i)) \<and>
        replaces (events ! i) =
          map_option subject (latest_event key (take i events) (instant_before (fst (key (events ! i))))))"

lemma latest_event_in: "latest_event key events t = Some e \<Longrightarrow> e \<in> set events \<and> fst (key e) \<le> t"
  using first_best_in unfolding latest_event_def by fastforce

lemma latest_event_None: "latest_event key events t = None \<longleftrightarrow> (\<forall>e\<in>set events. t < fst (key e))"
  by (auto simp: latest_event_def filter_empty_conv not_le)

lemma latest_event_append:
  "(\<forall>e\<in>set later. t < fst (key e)) \<Longrightarrow> latest_event key (events @ later) t = latest_event key events t"
  by (simp add: latest_event_def filter_empty_conv not_le)

lemma latest_in_order:
  assumes "in_order key events"
  shows "latest_event key events t =
    (let seen = filter (\<lambda>e. fst (key e) \<le> t) events in if seen = [] then None else Some (last seen))"
proof -
  let ?seen = "filter (\<lambda>e. fst (key e) \<le> t) events"
  have order: "sorted_wrt (<) (map (fst \<circ> key) ?seen)"
    using assms by (simp add: in_order_def sorted_wrt_map sorted_wrt_filter)
  show ?thesis
  proof (cases ?seen rule: rev_cases)
    case Nil
    then show ?thesis by (simp add: latest_event_def)
  next
    case (snoc pre e)
    then have "\<forall>x\<in>set pre. fst (key x) < fst (key e)" using order by (simp add: sorted_wrt_append)
    then have "\<forall>x\<in>set (rev pre). \<not> key e < key x" by (auto simp: less_prod_def)
    then have "first_best (\<lambda>a b. key b < key a) (e # rev pre) = Some e"
      unfolding greatest.first_best_iff by (intro exI [of _ "[]"] exI [of _ "rev pre"]) simp
    then show ?thesis by (simp add: latest_event_def snoc)
  qed
qed

lemma names_predecessors_snoc:
  "names_predecessors key subject replaces (events @ [e]) \<longleftrightarrow>
     names_predecessors key subject replaces events \<and> is_i64 (fst (key e)) \<and> replaces e \<noteq> Some (subject e) \<and>
     replaces e = map_option subject (latest_event key events (instant_before (fst (key e))))"
  by (auto simp: names_predecessors_def All_less_Suc nth_append)

lemma names_predecessors_Nil [simp]: "names_predecessors key subject replaces []"
  by (simp add: names_predecessors_def)

lemma latest_at_end:
  assumes "in_order key events" "\<forall>e\<in>set events. fst (key e) \<le> t" "events \<noteq> []"
  shows "latest_event key events t = Some (last events)"
proof -
  have "filter (\<lambda>e. fst (key e) \<le> t) events = events" using assms(2) by (simp add: filter_id_conv)
  then show ?thesis using assms by (simp add: latest_in_order Let_def)
qed

lemma latest_of_all:
  assumes "names_predecessors key subject replaces events" "in_order key events" "events \<noteq> []"
  shows "latest_event key events i64_max = Some (last events)"
proof (rule latest_at_end [OF assms(2) _ assms(3)])
  have "is_i64 (fst (key (events ! i)))" if "i < length events" for i
    using assms(1) that unfolding names_predecessors_def by blast
  then show "\<forall>e\<in>set events. fst (key e) \<le> i64_max" by (auto simp: in_set_conv_nth is_i64_def)
qed

text \<open>When the instants increase, the rows form one chain: each replaces the one before it.\<close>

lemma predecessor_chain:
  assumes "names_predecessors key subject replaces events" "in_order key events"
  shows "map replaces events = take (length events) (None # map (\<lambda>e. Some (subject e)) events)"
  using assms
proof (induction events rule: rev_induct)
  case (snoc e events)
  then have IH: "map replaces events = take (length events) (None # map (\<lambda>e. Some (subject e)) events)"
    and e: "is_i64 (fst (key e))" "replaces e = map_option subject (latest_event key events (instant_before (fst (key e))))"
    and before: "\<forall>x\<in>set events. fst (key x) < fst (key e)" and order: "in_order key events"
    by (simp_all add: names_predecessors_snoc in_order_def sorted_wrt_append)
  have "filter (\<lambda>x. fst (key x) \<le> instant_before (fst (key e))) events = events"
    using before e(1) by (auto simp: filter_id_conv instant_before_def sat_sub_i64_def is_i64_def)
  then have "replaces e = (if events = [] then None else Some (subject (last events)))"
    using e(2) by (simp add: latest_in_order [OF order] Let_def)
  moreover have "take (Suc (length events)) (None # map (\<lambda>e. Some (subject e)) (events @ [e])) =
      take (length events) (None # map (\<lambda>e. Some (subject e)) events) @
      [if events = [] then None else Some (subject (last events))]"
    by (cases events rule: rev_cases) simp_all
  ultimately show ?case using IH by simp
qed simp

lemma replaced_iff:
  assumes "names_predecessors key subject replaces events" "in_order key events"
  shows "(\<exists>e\<in>set events. replaces e = Some s) \<longleftrightarrow> s \<in> subject ` set (butlast events)"
proof -
  have "(\<exists>e\<in>set events. replaces e = Some s) \<longleftrightarrow> Some s \<in> set (map replaces events)" by force
  also have "\<dots> \<longleftrightarrow> s \<in> subject ` set (butlast events)"
    unfolding predecessor_chain [OF assms] by (cases events rule: rev_cases) auto
  finally show ?thesis .
qed

locale lifecycle_history =
  fixes key :: "'e \<Rightarrow> utc_timestamp \<times> nat" and subject :: "'e \<Rightarrow> 's" and replaces :: "'e \<Rightarrow> 's option"
    and events :: "'w \<Rightarrow> 'e list" and step :: "'w \<Rightarrow> 'w \<Rightarrow> bool" and ok :: "'w \<Rightarrow> bool"
  assumes step_ok: "ok w \<Longrightarrow> step w w' \<Longrightarrow> ok w'"
    and step_appends:
    "ok w \<Longrightarrow> step w w' \<Longrightarrow> events w' = events w \<or>
       (\<exists>e. events w' = events w @ [e] \<and> is_i64 (fst (key e)) \<and> replaces e \<noteq> Some (subject e) \<and>
            replaces e = map_option subject (latest_event key (events w) (instant_before (fst (key e)))))"
begin

lemma run_ok: "step\<^sup>*\<^sup>* w w' \<Longrightarrow> ok w \<Longrightarrow> ok w'"
  by (induction rule: rtranclp_induct) (auto intro: step_ok)

lemma run_appends: "step\<^sup>*\<^sup>* w w' \<Longrightarrow> ok w \<Longrightarrow> \<exists>es. events w' = events w @ es"
proof (induction rule: rtranclp_induct)
  case (step y z)
  then show ?case using step_appends [of y z] run_ok [of w y] by fastforce
qed simp

lemma run_names_predecessors:
  assumes "step\<^sup>*\<^sup>* w w'" "ok w" "events w = []"
  shows "names_predecessors key subject replaces (events w')"
  using assms
proof (induction rule: rtranclp_induct)
  case (step y z)
  then show ?case using step_appends [of y z] run_ok [of w y] by (auto simp: names_predecessors_snoc)
qed simp

text \<open>What was in force at an instant no later row reaches stays the answer for that instant.\<close>

lemma past_stays_answerable:
  assumes "step\<^sup>*\<^sup>* w w'" "ok w" "\<forall>e\<in>set (drop (length (events w)) (events w')). t < fst (key e)"
  shows "latest_event key (events w') t = latest_event key (events w) t"
  using run_appends [OF assms(1,2)] assms(3) by (auto simp: latest_event_append)

lemma run_chain:
  assumes "step\<^sup>*\<^sup>* w w'" "ok w" "events w = []" "in_order key (events w')"
  shows "map replaces (events w') = take (length (events w')) (None # map (\<lambda>e. Some (subject e)) (events w'))"
  using run_names_predecessors [OF assms(1-3)] assms(4) by (rule predecessor_chain)

lemma run_replaced_iff:
  assumes "step\<^sup>*\<^sup>* w w'" "ok w" "events w = []" "in_order key (events w')"
  shows "(\<exists>e\<in>set (events w'). replaces e = Some s) \<longleftrightarrow> s \<in> subject ` set (butlast (events w'))"
  using run_names_predecessors [OF assms(1-3)] assms(4) by (rule replaced_iff)

end

end
