(* ===== verification/Cost_Models.thy ===== *)
theory Cost_Models
  imports Token_Vectors Provenance Lifecycle_History
begin

text \<open>
  \<open>src/store/cost_model.rs\<close> with its migration and \<open>src/cost_model.rs\<close>: typed cost models, their append-only table
  with its activation ledger, and the conversion of usage into credits. A stored model is kept as its typed value and
  a lifecycle row names models by their unique identifier; the rows are in insertion order.
\<close>

section \<open>Models\<close>

datatype cost_model_scope = ModelClassScope | ModelScope string

record rate_uncertainty =
  ru_lower :: credits_per_token
  ru_upper :: credits_per_token

definition rate_uncertainty_new :: "credits_per_token \<Rightarrow> credits_per_token \<Rightarrow> string + rate_uncertainty" where
  "rate_uncertainty_new lo hi =
     (if micros_per_million_tokens lo > micros_per_million_tokens hi
      then Inl ''coefficient uncertainty lower bound exceeds upper bound''
      else Inr \<lparr>ru_lower = lo, ru_upper = hi\<rparr>)"

datatype derivation_method = PublishedBillingSemantics | ControlledExperiment | Assumed

definition method_as_str :: "derivation_method \<Rightarrow> string" where
  "method_as_str m =
     (case m of PublishedBillingSemantics \<Rightarrow> ''published_billing_semantics''
              | ControlledExperiment \<Rightarrow> ''controlled_experiment'' | Assumed \<Rightarrow> ''assumed'')"

definition method_from_str :: "string \<Rightarrow> derivation_method option" where
  "method_from_str s =
     (if s = ''published_billing_semantics'' then Some PublishedBillingSemantics
      else if s = ''controlled_experiment'' then Some ControlledExperiment
      else if s = ''assumed'' then Some Assumed else None)"

record validity_interval =
  vi_from :: utc_timestamp
  vi_until :: utc_timestamp

definition validity_new :: "utc_timestamp \<Rightarrow> utc_timestamp \<Rightarrow> validity_interval option" where
  "validity_new f u = (if f > u then None else Some \<lparr>vi_from = f, vi_until = u\<rparr>)"

record model_provenance =
  mv_digest :: digest
  mv_input_count :: nat

definition provenance_from_manifest :: "provenance_manifest \<Rightarrow> model_provenance" where
  "provenance_from_manifest m = \<lparr>mv_digest = pm_inputs_hash m, mv_input_count = pm_input_count m\<rparr>"

definition verify_model_provenance :: "model_provenance \<Rightarrow> string list \<Rightarrow> bool" where
  "verify_model_provenance v members \<longleftrightarrow>
     length members = mv_input_count v \<and> canonical_inputs_hash members = mv_digest v"

record cost_model_term =
  ct_kind :: token_kind
  ct_coefficient :: credits_per_token
  ct_uncertainty :: "rate_uncertainty option"
  ct_method :: derivation_method
  ct_evidence :: "string option"

record cost_model =
  cm_id :: string
  cm_provider :: string
  cm_scope :: cost_model_scope
  cm_billing_semantics :: string
  cm_plan_scope :: "string option"
  cm_version :: string
  cm_validity :: validity_interval
  cm_published_at :: utc_timestamp
  cm_provenance :: model_provenance
  cm_terms :: "cost_model_term list"

text \<open>The constructor refuses only a second term of one kind; its loop names the first such kind.\<close>

fun repeated_kind :: "token_kind set \<Rightarrow> cost_model_term list \<Rightarrow> token_kind option" where
  "repeated_kind seen [] = None"
| "repeated_kind seen (t # ts) =
     (if ct_kind t \<in> seen then Some (ct_kind t) else repeated_kind (insert (ct_kind t) seen) ts)"

definition cost_model_new :: "cost_model \<Rightarrow> (string \<times> string) + cost_model" where
  "cost_model_new m =
     (case repeated_kind {} (cm_terms m) of Some k \<Rightarrow> Inl (cm_id m, kind_label k) | None \<Rightarrow> Inr m)"

definition model_term :: "cost_model \<Rightarrow> token_kind \<Rightarrow> cost_model_term option" where
  "model_term m k = find (\<lambda>t. ct_kind t = k) (cm_terms m)"

definition is_complete :: "cost_model \<Rightarrow> bool" where
  "is_complete m \<longleftrightarrow> list_all (\<lambda>k. model_term m k \<noteq> None) token_kinds"

definition missing_token_kinds :: "cost_model \<Rightarrow> token_kind list" where
  "missing_token_kinds m = filter (\<lambda>k. model_term m k = None) token_kinds"

section \<open>Conversion\<close>

definition unknown_components_missing :: "usage_vector \<Rightarrow> required_fact list" where
  "unknown_components_missing u = map (\<lambda>(k, _). RequiredFact (''unknown component: '' @ k)) (uv_unknown u)"

definition missing_terms :: "cost_model \<Rightarrow> usage_vector \<Rightarrow> required_fact list" where
  "missing_terms m u =
     map (\<lambda>k. RequiredFact (kind_label k @ '' rate''))
       (filter (\<lambda>k. known_value (uv_known u) k > 0 \<and> model_term m k = None) token_kinds)"

definition total_micros_for :: "cost_model \<Rightarrow> usage_vector \<Rightarrow> i64" where
  "total_micros_for m u =
     wrap_i64 (foldl (\<lambda>total k.
       case model_term m k of
         None \<Rightarrow> total
       | Some t \<Rightarrow> total + credit_micros (per_token_times (ct_coefficient t) (known_value (uv_known u) k))) 0 token_kinds)"

definition conversion_provenance :: "cost_model \<Rightarrow> provenance" where
  "conversion_provenance m = provenance_new [''cost-model:'' @ cm_id m, ''provider:'' @ cm_provider m]"

definition lift_quality :: "token_count quality \<Rightarrow> cost_model \<Rightarrow> credits quality" where
  "lift_quality q m =
     (if q = Measured \<and> \<not> list_ex (\<lambda>t. ct_uncertainty t \<noteq> None) (cm_terms m) then Measured
      else Estimated (quality_methods q) None)"

text \<open>The left value is the panic of \<open>expect\<close>; the theorem below shows that it is never reached.\<close>

definition convert :: "cost_model \<Rightarrow> usage_vector \<Rightarrow> missing_required_facts + credits derivation" where
  "convert m u =
     (let missing = unknown_components_missing u @ missing_terms m u
      in if missing \<noteq> [] then derivation_unavailable missing (conversion_provenance m)
         else Inr (Available \<lparr>q_value = Credits (total_micros_for m u), q_coverage = uv_coverage u,
                              q_quality = lift_quality (uv_quality u) m, q_provenance = conversion_provenance m\<rparr>))"

definition exact_contribution :: "cost_model \<Rightarrow> usage_vector \<Rightarrow> token_kind \<Rightarrow> int" where
  "exact_contribution m u k =
     (case model_term m k of
        None \<Rightarrow> 0
      | Some t \<Rightarrow> round_div (micros_per_million_tokens (ct_coefficient t) * int (known_value (uv_known u) k)) 1000000)"

definition absent_facts :: "cost_model \<Rightarrow> usage_vector \<Rightarrow> required_fact set" where
  "absent_facts m u =
     {RequiredFact (''unknown component: '' @ k) |k. om_get (uv_unknown u) k \<noteq> None} \<union>
     {RequiredFact (kind_label k @ '' rate'') |k. known_value (uv_known u) k > 0 \<and> k \<notin> ct_kind ` set (cm_terms m)}"

lemma model_term_None: "model_term m k = None \<longleftrightarrow> k \<notin> ct_kind ` set (cm_terms m)"
  by (auto simp: model_term_def find_None_iff)

lemma missing_facts: "set (unknown_components_missing u @ missing_terms m u) = absent_facts m u"
proof -
  have keys: "om_get (uv_unknown u) k \<noteq> None \<longleftrightarrow> k \<in> fst ` set (uv_unknown u)" for k
    by (simp add: om_get_def map_of_eq_None_iff)
  have "set (unknown_components_missing u) =
      {RequiredFact (''unknown component: '' @ k) |k. k \<in> fst ` set (uv_unknown u)}"
    by (force simp: unknown_components_missing_def)
  moreover have "set (missing_terms m u) =
      {RequiredFact (kind_label k @ '' rate'') |k. known_value (uv_known u) k > 0 \<and> k \<notin> ct_kind ` set (cm_terms m)}"
    using token_kind_cases by (auto simp: missing_terms_def model_term_None)
  ultimately show ?thesis unfolding absent_facts_def keys by simp
qed

lemma total_micros_exact: "total_micros_for m u = wrap_i64 (\<Sum>k\<leftarrow>token_kinds. exact_contribution m u k)"
proof -
  have step: "wrap_i64 (x + (case model_term m k of None \<Rightarrow> 0
        | Some t \<Rightarrow> credit_micros (per_token_times (ct_coefficient t) (known_value (uv_known u) k)))) =
      wrap_i64 (x + exact_contribution m u k)" for x k
    by (simp add: exact_contribution_def per_token_times_def wrap_i64_add_right split: option.split)
  have "wrap_i64 (foldl (\<lambda>total k. case model_term m k of None \<Rightarrow> total
        | Some t \<Rightarrow> total + credit_micros (per_token_times (ct_coefficient t) (known_value (uv_known u) k))) x ks) =
      wrap_i64 (x + (\<Sum>k\<leftarrow>ks. exact_contribution m u k))" for x ks
  proof (induction ks arbitrary: x)
    case (Cons k ks)
    let ?y = "case model_term m k of None \<Rightarrow> x
        | Some t \<Rightarrow> x + credit_micros (per_token_times (ct_coefficient t) (known_value (uv_known u) k))"
    have "?y = x + (case model_term m k of None \<Rightarrow> 0
        | Some t \<Rightarrow> credit_micros (per_token_times (ct_coefficient t) (known_value (uv_known u) k)))"
      by (simp split: option.split)
    then have "wrap_i64 (?y + z) = wrap_i64 (x + exact_contribution m u k + z)" for z
      using step [of x k] by (metis wrap_i64_add_left)
    then show ?case using Cons.IH [of ?y] by (simp add: add.assoc)
  qed simp
  then show ?thesis by (simp add: total_micros_for_def)
qed

text \<open>
  C19. Conversion fails closed: a component no known kind names, or a kind with tokens and no term, makes the result
  unavailable and is named, and nothing else does; otherwise the credits are the sum over the kinds, each rounded
  once, exact in two's complement.
\<close>

theorem conversion_fails_closed:
  "convert m u =
     (if absent_facts m u = {}
      then Inr (Available \<lparr>q_value = Credits (wrap_i64 (\<Sum>k\<leftarrow>token_kinds. exact_contribution m u k)),
             q_coverage = uv_coverage u, q_quality = lift_quality (uv_quality u) m,
             q_provenance = conversion_provenance m\<rparr>)
      else Inr (Unavailable (absent_facts m u) (conversion_provenance m)))"
proof -
  have "unknown_components_missing u @ missing_terms m u = [] \<longleftrightarrow> absent_facts m u = {}"
    by (metis missing_facts set_empty)
  then show ?thesis
    by (simp add: convert_def derivation_unavailable_def missing_facts Let_def total_micros_exact del: append_is_Nil_conv set_append)
qed

text \<open>Usage known to be mixed comes out as estimated: the conversion does not keep that distinction.\<close>

lemma mixed_usage_becomes_estimated: "lift_quality (Mixed methods spread) m = Estimated methods None"
  by (simp add: lift_quality_def)

end
