(* ===== verification/Cost_Model_Store.thy ===== *)
theory Cost_Model_Store
  imports Cost_Models
begin

text \<open>
  The repository half of \<open>src/store/cost_model.rs\<close> and the checks of its migration: inserting and activating models,
  which model was active when, and the published models. Tables are lists in insertion order, so a row's number is
  its position; a refused statement leaves the store as it was, as the transaction does.
\<close>

section \<open>Tables\<close>

record cost_model_event =
  ce_model :: string
  ce_at :: utc_timestamp
  ce_supersedes :: "string option"

definition event_kind_label :: "cost_model_event \<Rightarrow> string" where
  "event_kind_label e = (if ce_supersedes e = None then ''activation'' else ''supersession'')"

record cost_model_store =
  ms_models :: "cost_model list"
  ms_events :: "cost_model_event list"

datatype cost_model_error =
  FirstNamesPredecessor string
| MustSupersedeModel string utc_timestamp string
| SupersedesInactiveModel string string string
| SupersedesItselfModel string
| ModelRowRefused string
| TermRowRefused string

definition model_row_checks :: "cost_model \<Rightarrow> bool" where
  "model_row_checks m \<longleftrightarrow>
     cm_id m \<noteq> [] \<and> cm_provider m \<noteq> [] \<and> cm_scope m \<noteq> ModelScope [] \<and> cm_billing_semantics m \<noteq> [] \<and>
     cm_plan_scope m \<noteq> Some [] \<and> cm_version m \<noteq> [] \<and> vi_from (cm_validity m) \<le> vi_until (cm_validity m) \<and>
     is_i64 (int (mv_input_count (cm_provenance m)))"

definition term_row_checks :: "cost_model_term \<Rightarrow> bool" where
  "term_row_checks t \<longleftrightarrow>
     ct_evidence t \<noteq> Some [] \<and>
     (case ct_uncertainty t of
        None \<Rightarrow> True
      | Some u \<Rightarrow> micros_per_million_tokens (ru_lower u) \<le> micros_per_million_tokens (ru_upper u))"

definition insert_model_rows :: "cost_model_store \<Rightarrow> cost_model \<Rightarrow> cost_model_error + cost_model_store" where
  "insert_model_rows st m =
     (if \<not> model_row_checks m \<or> cm_id m \<in> set (map cm_id (ms_models st)) then Inl (ModelRowRefused (cm_id m))
      else if \<not> list_all term_row_checks (cm_terms m) \<or> repeated_kind {} (cm_terms m) \<noteq> None
      then Inl (TermRowRefused (cm_id m))
      else Inr (st\<lparr>ms_models := ms_models st @ [m]\<rparr>))"

definition insert_model :: "cost_model_store \<Rightarrow> cost_model \<Rightarrow> cost_model_error + cost_model_store" where
  "insert_model st m = insert_model_rows st m"

section \<open>Reading\<close>

text \<open>The terms of a loaded model come in the order of their kinds' texts.\<close>

definition stored_form :: "cost_model \<Rightarrow> cost_model" where
  "stored_form m = m\<lparr>cm_terms := sort_key (\<lambda>t. kind_label (ct_kind t)) (cm_terms m)\<rparr>"

definition load_by_semantic_id :: "cost_model_store \<Rightarrow> string \<Rightarrow> cost_model option" where
  "load_by_semantic_id st i = map_option stored_form (find (\<lambda>m. cm_id m = i) (ms_models st))"

abbreviation cost_key :: "cost_model_event \<Rightarrow> utc_timestamp \<times> nat" where
  "cost_key e \<equiv> (ce_at e, 0)"

definition active_lifecycle_row :: "cost_model_store \<Rightarrow> utc_timestamp \<Rightarrow> (string \<times> utc_timestamp) option" where
  "active_lifecycle_row st t = map_option (\<lambda>e. (ce_model e, ce_at e)) (latest_event cost_key (ms_events st) t)"

definition load_active_at :: "cost_model_store \<Rightarrow> utc_timestamp \<Rightarrow> cost_model option" where
  "load_active_at st t =
     (case active_lifecycle_row st t of None \<Rightarrow> None | Some (i, _) \<Rightarrow> load_by_semantic_id st i)"

definition load_active_with_activation_at :: "cost_model_store \<Rightarrow> utc_timestamp \<Rightarrow> (cost_model \<times> utc_timestamp) option" where
  "load_active_with_activation_at st t =
     (case active_lifecycle_row st t of
        None \<Rightarrow> None
      | Some (i, since) \<Rightarrow> map_option (\<lambda>m. (m, since)) (load_by_semantic_id st i))"

definition model_superseded :: "cost_model_store \<Rightarrow> string \<Rightarrow> bool" where
  "model_superseded st i \<longleftrightarrow> list_ex (\<lambda>e. ce_supersedes e = Some i) (ms_events st)"

section \<open>Activation\<close>

definition check_model_predecessor ::
    "cost_model option \<Rightarrow> cost_model \<Rightarrow> utc_timestamp \<Rightarrow> string option \<Rightarrow> cost_model_error + unit" where
  "check_model_predecessor active m at_time supersedes =
     (case (active, supersedes) of
        (None, None) \<Rightarrow> Inr ()
      | (None, Some _) \<Rightarrow> Inl (FirstNamesPredecessor (cm_id m))
      | (Some a, None) \<Rightarrow> Inl (MustSupersedeModel (cm_id m) at_time (cm_id a))
      | (Some a, Some named) \<Rightarrow>
          if cm_id a \<noteq> named then Inl (SupersedesInactiveModel (cm_id m) named (cm_id a))
          else if cm_id m = named then Inl (SupersedesItselfModel (cm_id m))
          else Inr ())"

definition activate_model ::
    "cost_model_store \<Rightarrow> cost_model \<Rightarrow> utc_timestamp \<Rightarrow> string option \<Rightarrow> cost_model_error + cost_model_store" where
  "activate_model st m at_time supersedes =
     and_then (check_model_predecessor (load_active_at st (instant_before at_time)) m at_time supersedes) (\<lambda>_.
     and_then (insert_model_rows st m) (\<lambda>st'.
       Inr (st'\<lparr>ms_events := ms_events st' @
         [\<lparr>ce_model = cm_id m, ce_at = at_time, ce_supersedes = supersedes\<rparr>]\<rparr>)))"

definition activate_if_not_active ::
    "cost_model_store \<Rightarrow> cost_model \<Rightarrow> utc_timestamp \<Rightarrow> cost_model_error + cost_model_store \<times> bool" where
  "activate_if_not_active st m at_time =
     (let active = map_option cm_id (load_active_at st at_time)
      in if active = Some (cm_id m) then Inr (st, False)
         else and_then (activate_model st m at_time active) (\<lambda>st'. Inr (st', True)))"

section \<open>Published models\<close>

definition published_term :: "token_kind \<Rightarrow> i64 \<Rightarrow> cost_model_term" where
  "published_term k rate =
     \<lparr>ct_kind = k, ct_coefficient = CreditsPerToken rate, ct_uncertainty = None,
      ct_method = PublishedBillingSemantics, ct_evidence = None\<rparr>"

definition anthropic_v1_id :: string where
  "anthropic_v1_id = ''anthropic-claude-messages-v1''"

definition anthropic_incomplete_v1_id :: string where
  "anthropic_incomplete_v1_id = ''anthropic-claude-messages-incomplete-v1''"

definition anthropic_v1 :: "utc_timestamp \<Rightarrow> cost_model" where
  "anthropic_v1 valid_from =
     \<lparr>cm_id = anthropic_v1_id, cm_provider = ''anthropic'', cm_scope = ModelClassScope,
      cm_billing_semantics = ''anthropic-messages-subscription-v1'', cm_plan_scope = None, cm_version = ''1.0'',
      cm_validity = \<lparr>vi_from = valid_from, vi_until = i64_max\<rparr>, cm_published_at = valid_from,
      cm_provenance = provenance_from_manifest
        (manifest_new [''anthropic-pricing-2024-06-01''] [CostModelWitness anthropic_v1_id]
          \<lparr>qs_grouping = ''cost_model'', qs_filtering = ''published_seed''\<rparr>),
      cm_terms = [published_term Input_Kind 3000000, published_term Output_Kind 15000000,
                  published_term CacheRead_Kind 300000, published_term CacheWrite_Kind 3750000]\<rparr>"

definition anthropic_incomplete_v1 :: "utc_timestamp \<Rightarrow> cost_model" where
  "anthropic_incomplete_v1 valid_from =
     \<lparr>cm_id = anthropic_incomplete_v1_id, cm_provider = ''anthropic'', cm_scope = ModelClassScope,
      cm_billing_semantics = ''anthropic-messages-subscription-v1'', cm_plan_scope = None,
      cm_version = ''1.0-incomplete'',
      cm_validity = \<lparr>vi_from = valid_from, vi_until = i64_max\<rparr>, cm_published_at = valid_from,
      cm_provenance = provenance_from_manifest
        (manifest_new [''anthropic-pricing-2024-06-01''] [CostModelWitness anthropic_incomplete_v1_id]
          \<lparr>qs_grouping = ''cost_model'', qs_filtering = ''published_seed_without_cache_write''\<rparr>),
      cm_terms = filter (\<lambda>t. ct_kind t \<noteq> CacheWrite_Kind) (cm_terms (anthropic_v1 valid_from))\<rparr>"

definition published_model :: "string \<Rightarrow> utc_timestamp \<Rightarrow> cost_model option" where
  "published_model i valid_from =
     (if i = anthropic_v1_id then Some (anthropic_v1 valid_from)
      else if i = anthropic_incomplete_v1_id then Some (anthropic_incomplete_v1 valid_from) else None)"

definition seed_initial_cost_model ::
    "cost_model_store \<Rightarrow> utc_timestamp \<Rightarrow> cost_model_error + cost_model_store \<times> cost_model" where
  "seed_initial_cost_model st at_time =
     (case load_active_at st at_time of
        Some active \<Rightarrow> Inr (st, active)
      | None \<Rightarrow> and_then (activate_model st (anthropic_v1 at_time) at_time None) (\<lambda>st'. Inr (st', anthropic_v1 at_time)))"

section \<open>Runs\<close>

inductive cost_step :: "cost_model_store \<Rightarrow> cost_model_store \<Rightarrow> bool" where
  cost_insert: "insert_model st m = Inr st' \<Longrightarrow> cost_step st st'"
| cost_activate: "is_i64 at_time \<Longrightarrow> activate_model st m at_time supersedes = Inr st' \<Longrightarrow> cost_step st st'"

inductive_cases cost_stepE: "cost_step st st'"

definition no_models :: cost_model_store where
  "no_models = \<lparr>ms_models = [], ms_events = []\<rparr>"

definition cost_store_ok :: "cost_model_store \<Rightarrow> bool" where
  "cost_store_ok st \<longleftrightarrow>
     distinct (map cm_id (ms_models st)) \<and> distinct (map ce_model (ms_events st)) \<and>
     (\<forall>e\<in>set (ms_events st). ce_model e \<in> cm_id ` set (ms_models st))"

lemma find_by_id: "find (\<lambda>m. cm_id m = i) ms = None \<longleftrightarrow> i \<notin> cm_id ` set ms"
  by (auto simp: find_None_iff)

lemma find_append: "find P (xs @ ys) = (case find P xs of None \<Rightarrow> find P ys | Some x \<Rightarrow> Some x)"
  by (induction xs) auto

lemma load_by_id_Some: "load_by_semantic_id st i = Some m \<Longrightarrow> cm_id m = i"
  by (auto simp: load_by_semantic_id_def stored_form_def find_Some_iff)

lemma load_by_id_None: "load_by_semantic_id st i = None \<longleftrightarrow> i \<notin> cm_id ` set (ms_models st)"
  by (simp add: load_by_semantic_id_def find_by_id)

lemma insert_rows_ok:
  "insert_model_rows st m = Inr st' \<Longrightarrow>
     st' = st\<lparr>ms_models := ms_models st @ [m]\<rparr> \<and> cm_id m \<notin> cm_id ` set (ms_models st)"
  by (auto simp: insert_model_rows_def split: if_splits)

text \<open>With every event's model stored, what is active is the subject of the latest event.\<close>

lemma active_id:
  assumes "cost_store_ok st"
  shows "map_option cm_id (load_active_at st t) = map_option ce_model (latest_event cost_key (ms_events st) t)"
proof (cases "latest_event cost_key (ms_events st) t")
  case (Some e)
  then have "ce_model e \<in> cm_id ` set (ms_models st)"
    using latest_event_in [OF Some] assms by (auto simp: cost_store_ok_def)
  then obtain m where "load_by_semantic_id st (ce_model e) = Some m"
    using load_by_id_None [of st "ce_model e"] by auto
  then show ?thesis
    using Some load_by_id_Some by (simp add: load_active_at_def active_lifecycle_row_def)
qed (simp add: load_active_at_def active_lifecycle_row_def)

lemma check_model_predecessor_ok:
  "check_model_predecessor active m t supersedes = Inr () \<longleftrightarrow>
     map_option cm_id active = supersedes \<and> supersedes \<noteq> Some (cm_id m)"
  by (auto simp: check_model_predecessor_def split: option.split)

lemma activate_model_ok:
  "activate_model st m t supersedes = Inr st' \<longleftrightarrow>
     map_option cm_id (load_active_at st (instant_before t)) = supersedes \<and> supersedes \<noteq> Some (cm_id m) \<and>
     (\<exists>rows. insert_model_rows st m = Inr rows \<and>
        st' = rows\<lparr>ms_events := ms_events rows @ [\<lparr>ce_model = cm_id m, ce_at = t, ce_supersedes = supersedes\<rparr>]\<rparr>)"
  by (auto simp: activate_model_def and_then_Inr check_model_predecessor_ok)

interpretation costs: lifecycle_history cost_key ce_model ce_supersedes ms_events cost_step cost_store_ok
proof unfold_locales
  fix w w'
  assume "cost_store_ok w" "cost_step w w'"
  then show "cost_store_ok w'"
    by (elim cost_stepE)
      (fastforce simp: insert_model_def activate_model_ok cost_store_ok_def dest!: insert_rows_ok)+
next
  fix w w'
  assume ok: "cost_store_ok w" and "cost_step w w'"
  then show "ms_events w' = ms_events w \<or>
    (\<exists>e. ms_events w' = ms_events w @ [e] \<and> is_i64 (fst (cost_key e)) \<and> ce_supersedes e \<noteq> Some (ce_model e) \<and>
      ce_supersedes e = map_option ce_model (latest_event cost_key (ms_events w) (instant_before (fst (cost_key e)))))"
    by (elim cost_stepE)
      (auto simp: insert_model_def activate_model_ok active_id [OF ok] dest!: insert_rows_ok)
qed

lemma no_models_ok [simp]: "cost_store_ok no_models" "ms_events no_models = []"
  by (simp_all add: no_models_def cost_store_ok_def)

lemma run_models: "cost_step\<^sup>*\<^sup>* st st' \<Longrightarrow> \<exists>ms. ms_models st' = ms_models st @ ms"
proof (induction rule: rtranclp_induct)
  case (step y z)
  then show ?case
    by (auto elim!: cost_stepE simp: insert_model_def activate_model_ok dest!: insert_rows_ok)
qed simp

section \<open>One chain, and a past that stays answerable\<close>

lemma superseded_by_event: "model_superseded st i \<longleftrightarrow> (\<exists>e\<in>set (ms_events st). ce_supersedes e = Some i)"
  by (auto simp: model_superseded_def list_ex_iff)

text \<open>
  C6. Starting from an empty store, whatever is inserted and activated, as long as activations come at increasing
  instants: each names exactly the model activated before it, no model is activated twice, and of all the models that
  were ever activated exactly one is not superseded, the one in force at the end.
\<close>

theorem cost_models_form_one_chain:
  assumes "cost_step\<^sup>*\<^sup>* no_models st" "in_order cost_key (ms_events st)" "ms_events st \<noteq> []"
  shows "map ce_supersedes (ms_events st) =
      take (length (ms_events st)) (None # map (\<lambda>e. Some (ce_model e)) (ms_events st)) \<and>
    distinct (map ce_model (ms_events st)) \<and>
    (\<exists>m. load_active_at st i64_max = Some m \<and> cm_id m = ce_model (last (ms_events st)) \<and>
       (\<forall>i. model_superseded st i \<longleftrightarrow> i \<in> ce_model ` set (ms_events st) \<and> i \<noteq> cm_id m))"
proof -
  have ok: "cost_store_ok st" using costs.run_ok [OF assms(1)] by simp
  have names: "names_predecessors cost_key ce_model ce_supersedes (ms_events st)"
    using costs.run_names_predecessors [OF assms(1)] by simp
  then have "latest_event cost_key (ms_events st) i64_max = Some (last (ms_events st))"
    using assms(2,3) by (rule latest_of_all)
  then obtain m where m: "load_active_at st i64_max = Some m" "cm_id m = ce_model (last (ms_events st))"
    using active_id [OF ok, of i64_max] by auto
  have dist: "distinct (map ce_model (ms_events st))" using ok by (simp add: cost_store_ok_def)
  have "i \<in> ce_model ` set (butlast (ms_events st)) \<longleftrightarrow>
      i \<in> ce_model ` set (ms_events st) \<and> i \<noteq> ce_model (last (ms_events st))" for i
    using dist assms(3) by (cases "ms_events st" rule: rev_cases) (auto simp: image_iff)
  then have "model_superseded st i \<longleftrightarrow> i \<in> ce_model ` set (ms_events st) \<and> i \<noteq> cm_id m" for i
    using replaced_iff [OF names assms(2)] m(2) by (simp add: superseded_by_event)
  then show ?thesis using predecessor_chain [OF names assms(2)] dist m by blast
qed

text \<open>
  What was active at an instant, and since when, stays the answer for it: no later step changes it unless it activates
  a model at or before that very instant.
\<close>

theorem cost_history_stays_answerable:
  assumes "cost_step\<^sup>*\<^sup>* no_models st" "cost_step\<^sup>*\<^sup>* st st'"
    and "\<forall>e\<in>set (drop (length (ms_events st)) (ms_events st')). t < ce_at e"
  shows "load_active_at st' t = load_active_at st t \<and>
    load_active_with_activation_at st' t = load_active_with_activation_at st t"
proof -
  have ok: "cost_store_ok st" using costs.run_ok [OF assms(1)] by simp
  have latest: "latest_event cost_key (ms_events st') t = latest_event cost_key (ms_events st) t"
    using costs.past_stays_answerable [OF assms(2) ok, of t] assms(3) by simp
  obtain ms where ms: "ms_models st' = ms_models st @ ms" using run_models [OF assms(2)] by blast
  have "load_by_semantic_id st' (ce_model e) = load_by_semantic_id st (ce_model e)"
    if "latest_event cost_key (ms_events st) t = Some e" for e
  proof -
    have "ce_model e \<in> cm_id ` set (ms_models st)"
      using latest_event_in [OF that] ok by (auto simp: cost_store_ok_def)
    then have "find (\<lambda>m. cm_id m = ce_model e) (ms_models st @ ms) = find (\<lambda>m. cm_id m = ce_model e) (ms_models st)"
      by (auto simp: find_append find_by_id split: option.split)
    then show ?thesis by (simp add: load_by_semantic_id_def ms)
  qed
  then show ?thesis
    by (simp add: load_active_at_def load_active_with_activation_at_def active_lifecycle_row_def latest
        split: option.split)
qed

section \<open>The published models\<close>

lemma published_terms:
  "model_term (anthropic_v1 t) k \<noteq> None"
  "model_term (anthropic_incomplete_v1 t) k = None \<longleftrightarrow> k = CacheWrite_Kind"
  by (cases k; simp add: model_term_def anthropic_v1_def anthropic_incomplete_v1_def published_term_def)+

lemma published_models_complete:
  "is_complete (anthropic_v1 t)" "missing_token_kinds (anthropic_incomplete_v1 t) = [CacheWrite_Kind]"
  using published_terms [of t] by (auto simp: is_complete_def missing_token_kinds_def token_kinds_def list_all_iff)

text \<open>
  Activation always inserts its model's row, whose identifier is unique: a model that is stored, because it was
  imported or because another one superseded it, can never be activated.
\<close>

lemma stored_model_never_activates:
  assumes "cm_id m \<in> cm_id ` set (ms_models st)"
  shows "\<exists>err. activate_model st m t supersedes = Inl err"
proof (cases "check_model_predecessor (load_active_at st (instant_before t)) m t supersedes")
  case (Inr u)
  then show ?thesis using assms by (auto simp: activate_model_def insert_model_rows_def)
qed (simp add: activate_model_def)

lemma published_rows:
  assumes "t \<le> i64_max"
  shows "insert_model_rows st (anthropic_v1 t) =
      (if anthropic_v1_id \<in> set (map cm_id (ms_models st)) then Inl (ModelRowRefused anthropic_v1_id)
       else Inr (st\<lparr>ms_models := ms_models st @ [anthropic_v1 t]\<rparr>))"
    "insert_model_rows st (anthropic_incomplete_v1 t) =
      (if anthropic_incomplete_v1_id \<in> set (map cm_id (ms_models st)) then Inl (ModelRowRefused anthropic_incomplete_v1_id)
       else Inr (st\<lparr>ms_models := ms_models st @ [anthropic_incomplete_v1 t]\<rparr>))"
  using assms
  by (auto simp: insert_model_rows_def model_row_checks_def anthropic_v1_def anthropic_incomplete_v1_def
      anthropic_v1_id_def anthropic_incomplete_v1_id_def term_row_checks_def published_term_def
      provenance_from_manifest_def manifest_new_def evidence_set_def is_i64_def)

definition after_two :: cost_model_store where
  "after_two =
     \<lparr>ms_models = [anthropic_v1 1, anthropic_incomplete_v1 2],
      ms_events = [\<lparr>ce_model = anthropic_v1_id, ce_at = 1, ce_supersedes = None\<rparr>,
                   \<lparr>ce_model = anthropic_incomplete_v1_id, ce_at = 2, ce_supersedes = Some anthropic_v1_id\<rparr>]\<rparr>"

lemma published_ids:
  "cm_id (anthropic_v1 t) = anthropic_v1_id" "cm_id (anthropic_incomplete_v1 t) = anthropic_incomplete_v1_id"
  "anthropic_v1_id \<noteq> anthropic_incomplete_v1_id"
  by (simp_all add: anthropic_v1_def anthropic_incomplete_v1_def anthropic_v1_id_def anthropic_incomplete_v1_id_def)

lemmas activation_simps = activate_model_def check_model_predecessor_def load_active_at_def active_lifecycle_row_def
  latest_event_def instant_before_def sat_sub_i64_def load_by_semantic_id_def stored_form_def published_rows published_ids

text \<open>
  The command that switches to the incomplete published model cannot switch back: the third activation is refused by
  the unique identifier.
\<close>

lemma published_model_cannot_return:
  "activate_model no_models (anthropic_v1 1) 1 None =
     Inr \<lparr>ms_models = [anthropic_v1 1], ms_events = [\<lparr>ce_model = anthropic_v1_id, ce_at = 1, ce_supersedes = None\<rparr>]\<rparr>"
  "activate_if_not_active
     \<lparr>ms_models = [anthropic_v1 1], ms_events = [\<lparr>ce_model = anthropic_v1_id, ce_at = 1, ce_supersedes = None\<rparr>]\<rparr>
     (anthropic_incomplete_v1 2) 2 = Inr (after_two, True)"
  "activate_if_not_active after_two (anthropic_v1 3) 3 = Inl (ModelRowRefused anthropic_v1_id)"
  by (simp_all add: activate_if_not_active_def activation_simps no_models_def after_two_def
      published_ids(3) [symmetric])

text \<open>
  An activation dated before the existing ones is accepted as another first one: the ledger then has two models
  without predecessor, and the one of the earlier date is neither in force at the end nor superseded.
\<close>

lemma backdated_activation_breaks_the_chain:
  defines "late \<equiv> \<lparr>ms_models = [anthropic_v1 1], ms_events = [\<lparr>ce_model = anthropic_v1_id, ce_at = 10, ce_supersedes = None\<rparr>]\<rparr>"
  shows "\<exists>st. activate_model late (anthropic_incomplete_v1 2) 5 None = Inr st \<and>
    map ce_supersedes (ms_events st) = [None, None] \<and>
    \<not> model_superseded st anthropic_incomplete_v1_id \<and>
    map_option cm_id (load_active_at st 20) = Some anthropic_v1_id"
  by (simp add: late_def activation_simps model_superseded_def published_ids(3) [symmetric])

definition after_one :: cost_model_store where
  "after_one =
     \<lparr>ms_models = [anthropic_v1 1], ms_events = [\<lparr>ce_model = anthropic_v1_id, ce_at = 1, ce_supersedes = None\<rparr>]\<rparr>"

lemma sample_steps: "cost_step no_models after_one" "cost_step after_one after_two"
proof -
  have "activate_model no_models (anthropic_v1 1) 1 None = Inr after_one"
    unfolding after_one_def by (rule published_model_cannot_return(1))
  then show "cost_step no_models after_one" by (intro cost_activate [of 1]) (simp_all add: is_i64_def)
  have "activate_model after_one (anthropic_incomplete_v1 2) 2 (Some anthropic_v1_id) = Inr after_two"
    by (simp add: activation_simps after_one_def after_two_def published_ids(3) [symmetric])
  then show "cost_step after_one after_two" by (intro cost_activate [of 2]) (simp_all add: is_i64_def)
qed

lemma sample_runs: "cost_step\<^sup>*\<^sup>* no_models after_one" "cost_step\<^sup>*\<^sup>* after_one after_two" "cost_step\<^sup>*\<^sup>* no_models after_two"
  using sample_steps by auto

theorem cost_models_form_one_chain_witness:
  "model_superseded after_two anthropic_v1_id \<and> \<not> model_superseded after_two anthropic_incomplete_v1_id"
proof -
  have "in_order cost_key (ms_events after_two)" "ms_events after_two \<noteq> []"
    by (simp_all add: in_order_def after_two_def)
  from cost_models_form_one_chain [OF sample_runs(3) this, THEN conjunct2, THEN conjunct2]
  obtain m where m: "load_active_at after_two i64_max = Some m \<and> cm_id m = ce_model (last (ms_events after_two)) \<and>
      (\<forall>i. model_superseded after_two i \<longleftrightarrow> i \<in> ce_model ` set (ms_events after_two) \<and> i \<noteq> cm_id m)"
    by (rule exE)
  note superseded = m [THEN conjunct2, THEN conjunct2, THEN spec]
  have "cm_id m = anthropic_incomplete_v1_id"
    "ce_model ` set (ms_events after_two) = {anthropic_v1_id, anthropic_incomplete_v1_id}"
    using m [THEN conjunct2, THEN conjunct1] by (simp_all add: after_two_def)
  then show ?thesis using superseded published_ids(3) by simp
qed

theorem cost_history_stays_answerable_witness:
  "load_active_at after_two 1 = load_active_at after_one 1"
  using cost_history_stays_answerable [OF sample_runs(1,2), of 1]
  by (simp add: after_one_def after_two_def)

end
