(* ===== verification/Calibration_Ledger.thy ===== *)
theory Calibration_Ledger
  imports Activation Cost_Model_Store
begin

text \<open>
  The calibration ledger: results of both shapes, their activation events and who is in force when, from
  \<open>src/store/calibration.rs\<close>, \<open>src/store/calibration_multivariate_result.rs\<close>, their migrations, and the health the
  commands of \<open>src/cli.rs\<close> show. The two lifecycle tables are one list in insertion order, each row tagged with the
  shape of its table; a result is named by its identifier, which is unique across both shapes.
\<close>

section \<open>Results\<close>

record calibration_scope =
  kp_provider :: string
  kp_plan_tier :: string
  kp_window_key :: string

record excluded_sample =
  xs_ref :: string
  xs_reason :: string

record evidence_digest =
  ed_digest :: digest
  ed_count :: nat

record window_calibration =
  wk_id :: string
  wk_scope :: calibration_scope
  wk_meter_semantics :: string
  wk_billing_semantics :: string
  wk_cost_model :: string
  wk_fitted :: credits_per_point
  wk_full_window_capacity :: credits
  wk_fit_residual :: credits
  wk_uncertainty :: coefficient_uncertainty
  wk_lag_estimate :: "monotonic_duration option"
  wk_lag_handling :: string
  wk_sample_count :: u32
  wk_fit_timestamp :: utc_timestamp
  wk_inputs :: evidence_digest
  wk_fitting_evidence :: digest
  wk_validation_evidence :: digest
  wk_validation_method :: string
  wk_validation_version :: string
  wk_out_of_sample_residual :: "credits option"
  wk_statistical_method :: string
  wk_statistical_parameters :: string
  wk_condition_number :: "i64 option"
  wk_coverage_requirement :: string
  wk_settling_policy :: string
  wk_excluded_samples :: "excluded_sample list"
  wk_activation_policy_version :: string
  wk_aub_version :: string
  wk_source_revision :: string
  wk_validity :: validity_interval
  wk_knowledge_time :: utc_timestamp

text \<open>The nine texts the constructor requires.\<close>

definition window_calibration_new :: "window_calibration \<Rightarrow> (string \<times> string) + window_calibration" where
  "window_calibration_new c =
     (case find (\<lambda>(_, v). v = [])
        [(''validation method'', wk_validation_method c), (''validation version'', wk_validation_version c),
         (''statistical method'', wk_statistical_method c), (''statistical parameters'', wk_statistical_parameters c),
         (''observation coverage requirement'', wk_coverage_requirement c), (''settling policy'', wk_settling_policy c),
         (''activation policy version'', wk_activation_policy_version c), (''aub version'', wk_aub_version c),
         (''source revision'', wk_source_revision c)] of
        Some (label, _) \<Rightarrow> Inl (wk_id c, label)
      | None \<Rightarrow> Inr c)"

record kind_coefficient =
  kc_kind :: token_kind
  kc_estimate :: i64
  kc_std_error :: i64
  kc_low :: i64
  kc_high :: i64

record multivariate_calibration =
  mk_id :: string
  mk_candidate :: string
  mk_experiment :: string
  mk_scope :: calibration_scope
  mk_coefficients :: "kind_coefficient list"
  mk_condition_number :: i64
  mk_condition_threshold :: i64
  mk_fit_residual :: quota_fraction
  mk_held_out_residual :: quota_fraction
  mk_validation_observations :: u32
  mk_sample_count :: u32
  mk_inputs :: evidence_digest
  mk_fitting_evidence :: digest
  mk_validation_evidence :: digest
  mk_validation_method :: string
  mk_validation_version :: string
  mk_statistical_method :: string
  mk_statistical_parameters :: string
  mk_phase_design :: string
  mk_activation_policy_version :: string
  mk_aub_version :: string
  mk_source_revision :: string
  mk_validity :: validity_interval
  mk_fit_timestamp :: utc_timestamp
  mk_knowledge_time :: utc_timestamp

definition scalar_validation :: "window_calibration \<Rightarrow> recorded_validation" where
  "scalar_validation c =
     \<lparr>rv_policy_version = wk_activation_policy_version c,
      rv_residual = map_option CreditsResidual (wk_out_of_sample_residual c),
      rv_condition = wk_condition_number c, rv_fitting = wk_fitting_evidence c,
      rv_validation = wk_validation_evidence c\<rparr>"

definition per_kind_validation :: "multivariate_calibration \<Rightarrow> recorded_validation" where
  "per_kind_validation c =
     \<lparr>rv_policy_version = mk_activation_policy_version c,
      rv_residual = Some (QuotaResidual (mk_held_out_residual c)),
      rv_condition = Some (mk_condition_number c), rv_fitting = mk_fitting_evidence c,
      rv_validation = mk_validation_evidence c\<rparr>"

section \<open>Excluded samples in one column\<close>

definition record_separators :: "char set" where
  "record_separators = {CHR 0x0A, CHR 0x1F}"

definition excluded_sample_new :: "string \<Rightarrow> string \<Rightarrow> string + excluded_sample" where
  "excluded_sample_new r reason =
     (if r = [] then Inl ''reference is empty''
      else if set r \<inter> record_separators \<noteq> {} then Inl ''reference contains a separator character''
      else if reason = [] then Inl ''reason is empty''
      else if set reason \<inter> record_separators \<noteq> {} then Inl ''reason contains a separator character''
      else Inr \<lparr>xs_ref = r, xs_reason = reason\<rparr>)"

definition encode_excluded :: "excluded_sample list \<Rightarrow> string" where
  "encode_excluded samples =
     (if samples = [] then ''[]''
      else join [CHR 0x0A] (map (\<lambda>x. xs_ref x @ CHR 0x1F # xs_reason x) samples))"

fun decode_records :: "string list \<Rightarrow> string + excluded_sample list" where
  "decode_records [] = Inr []"
| "decode_records (r # rs) =
     (case split_once (CHR 0x1F) r of
        None \<Rightarrow> Inl r
      | Some (a, b) \<Rightarrow> and_then (excluded_sample_new a b) (\<lambda>x. and_then (decode_records rs) (\<lambda>xs. Inr (x # xs))))"

definition decode_excluded :: "string \<Rightarrow> string + excluded_sample list" where
  "decode_excluded s = (if s = ''[]'' then Inr [] else decode_records (split_on (CHR 0x0A) s))"

text \<open>What the constructor accepts comes back from the column as it was, for any number of samples.\<close>

lemma excluded_sample_new_Inr:
  "excluded_sample_new r reason = Inr x \<longleftrightarrow>
     r \<noteq> [] \<and> reason \<noteq> [] \<and> (set r \<union> set reason) \<inter> record_separators = {} \<and> x = \<lparr>xs_ref = r, xs_reason = reason\<rparr>"
  by (auto simp: excluded_sample_new_def)

abbreviation sample_record :: "excluded_sample \<Rightarrow> string" where
  "sample_record x \<equiv> xs_ref x @ CHR 0x1F # xs_reason x"

lemma decode_sample_records:
  "list_all (\<lambda>x. excluded_sample_new (xs_ref x) (xs_reason x) = Inr x) samples \<Longrightarrow>
     decode_records (map sample_record samples) = Inr samples"
proof (induction samples)
  case (Cons x samples)
  then have "CHR 0x1F \<notin> set (xs_ref x)" "excluded_sample_new (xs_ref x) (xs_reason x) = Inr x"
    by (auto simp: excluded_sample_new_Inr record_separators_def)
  then show ?case using Cons by (simp add: split_once_append and_then_Inr)
qed simp

theorem excluded_samples_round_trip:
  assumes "list_all (\<lambda>x. excluded_sample_new (xs_ref x) (xs_reason x) = Inr x) samples"
  shows "decode_excluded (encode_excluded samples) = Inr samples"
proof (cases samples)
  case (Cons x rest)
  have "\<forall>w\<in>set (map sample_record samples). CHR 0x0A \<notin> set w"
    using assms by (auto simp: list_all_iff excluded_sample_new_Inr record_separators_def)
  then have "split_on (CHR 0x0A) (join [CHR 0x0A] (map sample_record samples)) = map sample_record samples"
    using Cons by (intro split_on_join) simp_all
  moreover have "CHR 0x1F \<in> set (join [CHR 0x0A] (map sample_record samples))" using Cons by (simp add: join_def)
  then have "join [CHR 0x0A] (map sample_record samples) \<noteq> ''[]''" by auto
  ultimately show ?thesis
    using Cons decode_sample_records [OF assms] by (simp add: decode_excluded_def encode_excluded_def)
qed (simp add: encode_excluded_def decode_excluded_def)

theorem excluded_samples_round_trip_witness:
  "decode_excluded (encode_excluded [\<lparr>xs_ref = ''s1'', xs_reason = ''settling''\<rparr>, \<lparr>xs_ref = ''[]'', xs_reason = ''lag''\<rparr>]) =
     Inr [\<lparr>xs_ref = ''s1'', xs_reason = ''settling''\<rparr>, \<lparr>xs_ref = ''[]'', xs_reason = ''lag''\<rparr>]"
  by (rule excluded_samples_round_trip) (simp add: excluded_sample_new_def record_separators_def)

section \<open>The ledger\<close>

datatype result_shape = ScalarShape | PerKindShape

definition shape_rank :: "result_shape \<Rightarrow> nat" where
  "shape_rank s = (case s of ScalarShape \<Rightarrow> 0 | PerKindShape \<Rightarrow> 1)"

record calibration_event =
  cv_shape :: result_shape
  cv_id :: string
  cv_at :: utc_timestamp
  cv_supersedes :: "(result_shape \<times> string) option"
  cv_actor :: activation_actor
  cv_policy :: string
  cv_fitting :: digest
  cv_validation :: digest

text \<open>
  The identifiers of experiments stand for their table, and of a joint candidate only what a per-kind result reads
  back through it: its experiment and the instant it was recorded.
\<close>

record joint_candidate =
  jc_id :: string
  jc_experiment :: string
  jc_recorded :: utc_timestamp

record calibration_ledger =
  cl_experiments :: "string list"
  cl_candidates :: "joint_candidate list"
  cl_scalars :: "window_calibration list"
  cl_sources :: "(string \<times> string) list"
  cl_per_kind :: "multivariate_calibration list"
  cl_events :: "calibration_event list"
  cl_costs :: cost_model_store

datatype ledger_error =
  NoSuchResult string
| ActivationRefused activation_refusal
| PredecessorNotActive string string
| MustSupersede string string
| SupersedesOther string string string
| SupersedesItself string
| PerKindPredecessor string string
| RowRefused string
| NoSourceExperiment string
| UnknownExperiment string
| UnknownCandidate string
| UnreadableResult string

datatype active_calibration = ScalarActive window_calibration | PerKindActive multivariate_calibration

definition active_id_of :: "active_calibration \<Rightarrow> string" where
  "active_id_of a = (case a of ScalarActive c \<Rightarrow> wk_id c | PerKindActive c \<Rightarrow> mk_id c)"

definition active_scope_of :: "active_calibration \<Rightarrow> calibration_scope" where
  "active_scope_of a = (case a of ScalarActive c \<Rightarrow> wk_scope c | PerKindActive c \<Rightarrow> mk_scope c)"

definition active_name :: "active_calibration \<Rightarrow> result_shape \<times> string" where
  "active_name a = (case a of ScalarActive c \<Rightarrow> (ScalarShape, wk_id c) | PerKindActive c \<Rightarrow> (PerKindShape, mk_id c))"

definition load_result :: "calibration_ledger \<Rightarrow> string \<Rightarrow> window_calibration option" where
  "load_result l i = find (\<lambda>c. wk_id c = i) (cl_scalars l)"

definition load_multivariate_result :: "calibration_ledger \<Rightarrow> string \<Rightarrow> multivariate_calibration option" where
  "load_multivariate_result l i = find (\<lambda>c. mk_id c = i) (cl_per_kind l)"

subsection \<open>Storing results\<close>

definition result_row_checks :: "window_calibration \<Rightarrow> bool" where
  "result_row_checks c \<longleftrightarrow>
     [] \<notin> {wk_id c, kp_provider (wk_scope c), kp_plan_tier (wk_scope c), kp_window_key (wk_scope c),
           wk_meter_semantics c, wk_billing_semantics c, wk_cost_model c, wk_lag_handling c, wk_validation_method c,
           wk_validation_version c, wk_statistical_method c, wk_statistical_parameters c, wk_coverage_requirement c,
           wk_settling_policy c, encode_excluded (wk_excluded_samples c), wk_activation_policy_version c,
           wk_aub_version c, wk_source_revision c} \<and>
     credit_micros (wk_fit_residual c) \<ge> 0 \<and>
     micros_per_point (cu_lower (wk_uncertainty c)) \<le> micros_per_point (cu_upper (wk_uncertainty c)) \<and>
     vi_from (wk_validity c) \<le> vi_until (wk_validity c)"

text \<open>The column of the lag holds an \<open>i64\<close>: a longer one is stored as the largest.\<close>

definition result_row :: "window_calibration \<Rightarrow> window_calibration" where
  "result_row c = c\<lparr>wk_lag_estimate := map_option (\<lambda>d. min d (nat i64_max)) (wk_lag_estimate c)\<rparr>"

fun link_sources :: "string list \<Rightarrow> string \<Rightarrow> string list \<Rightarrow> string list \<Rightarrow> ledger_error + (string \<times> string) list" where
  "link_sources experiments i linked [] = Inr []"
| "link_sources experiments i linked (x # xs) =
     (if x \<notin> set experiments then Inl (UnknownExperiment x)
      else if x \<in> set linked then Inl (RowRefused i)
      else and_then (link_sources experiments i (x # linked) xs) (\<lambda>rows. Inr ((i, x) # rows)))"

definition insert_result ::
    "calibration_ledger \<Rightarrow> window_calibration \<Rightarrow> string list \<Rightarrow> ledger_error + calibration_ledger" where
  "insert_result l c experiments =
     (if experiments = [] then Inl (NoSourceExperiment (wk_id c))
      else if \<not> is_i64 (int (ed_count (wk_inputs c))) \<or> \<not> result_row_checks c \<or>
              wk_id c \<in> set (map wk_id (cl_scalars l) @ map mk_id (cl_per_kind l))
      then Inl (RowRefused (wk_id c))
      else and_then (link_sources (cl_experiments l) (wk_id c) [] experiments) (\<lambda>rows.
             Inr (l\<lparr>cl_scalars := cl_scalars l @ [result_row c], cl_sources := cl_sources l @ rows\<rparr>)))"

definition per_kind_row_checks :: "multivariate_calibration \<Rightarrow> bool" where
  "per_kind_row_checks c \<longleftrightarrow>
     [] \<notin> {mk_id c, kp_provider (mk_scope c), kp_plan_tier (mk_scope c), kp_window_key (mk_scope c),
           mk_validation_method c, mk_validation_version c, mk_statistical_method c, mk_statistical_parameters c,
           mk_phase_design c, mk_activation_policy_version c, mk_aub_version c, mk_source_revision c} \<and>
     mk_condition_number c \<ge> 1000000 \<and> mk_condition_threshold c > 1000000 \<and>
     ppm (mk_fit_residual c) \<in> {0..1000000} \<and> ppm (mk_held_out_residual c) \<in> {0..1000000} \<and>
     mk_validation_observations c \<ge> 2 \<and> vi_from (mk_validity c) \<le> vi_until (mk_validity c)"

text \<open>
  Where the sum of the first check overflows, the database adds in floating point; that happens only to positive
  sums, so the exact sum decides the check.
\<close>

definition coefficient_row_checks :: "kind_coefficient \<Rightarrow> bool" where
  "coefficient_row_checks k \<longleftrightarrow>
     kc_estimate k + 2 * kc_std_error k \<ge> 0 \<and> kc_std_error k \<ge> 0 \<and> kc_low k \<le> kc_high k"

definition insert_multivariate_result ::
    "calibration_ledger \<Rightarrow> multivariate_calibration \<Rightarrow> ledger_error + calibration_ledger" where
  "insert_multivariate_result l c =
     (case find (\<lambda>j. jc_id j = mk_candidate c) (cl_candidates l) of
        None \<Rightarrow> Inl (UnknownCandidate (mk_candidate c))
      | Some j \<Rightarrow>
          if \<not> is_i64 (int (ed_count (mk_inputs c))) \<or> \<not> per_kind_row_checks c \<or>
             mk_id c \<in> set (map wk_id (cl_scalars l) @ map mk_id (cl_per_kind l)) \<or>
             mk_candidate c \<in> set (map mk_candidate (cl_per_kind l)) \<or>
             \<not> list_all coefficient_row_checks (mk_coefficients c) \<or> \<not> distinct (map kc_kind (mk_coefficients c))
          then Inl (RowRefused (mk_id c))
          else Inr (l\<lparr>cl_per_kind := cl_per_kind l @
                 [c\<lparr>mk_experiment := jc_experiment j, mk_fit_timestamp := jc_recorded j\<rparr>]\<rparr>))"

subsection \<open>Who is in force\<close>

abbreviation event_key :: "calibration_event \<Rightarrow> utc_timestamp \<times> nat" where
  "event_key e \<equiv> (cv_at e, shape_rank (cv_shape e))"

abbreviation event_name :: "calibration_event \<Rightarrow> result_shape \<times> string" where
  "event_name e \<equiv> (cv_shape e, cv_id e)"

definition named_result :: "calibration_ledger \<Rightarrow> result_shape \<times> string \<Rightarrow> active_calibration option" where
  "named_result l n =
     (case n of
        (ScalarShape, i) \<Rightarrow> map_option ScalarActive (load_result l i)
      | (PerKindShape, i) \<Rightarrow> map_option PerKindActive (load_multivariate_result l i))"

definition scope_events :: "calibration_ledger \<Rightarrow> calibration_scope \<Rightarrow> calibration_event list" where
  "scope_events l scope =
     filter (\<lambda>e. map_option active_scope_of (named_result l (event_name e)) = Some scope) (cl_events l)"

definition load_active_calibration ::
    "calibration_ledger \<Rightarrow> calibration_scope \<Rightarrow> utc_timestamp \<Rightarrow> ledger_error + active_calibration option" where
  "load_active_calibration l scope t =
     (case latest_event event_key (scope_events l scope) t of
        None \<Rightarrow> Inr None
      | Some e \<Rightarrow> (case named_result l (event_name e) of
                     None \<Rightarrow> Inl (UnreadableResult (cv_id e))
                   | Some a \<Rightarrow> Inr (Some a)))"

definition check_predecessor :: "active_calibration option \<Rightarrow> string \<Rightarrow> string option \<Rightarrow> ledger_error + unit" where
  "check_predecessor active i supersedes =
     (case (active, supersedes) of
        (None, None) \<Rightarrow> Inr ()
      | (None, Some named) \<Rightarrow> Inl (PredecessorNotActive i named)
      | (Some a, None) \<Rightarrow> Inl (MustSupersede i (active_id_of a))
      | (Some a, Some named) \<Rightarrow>
          if active_id_of a \<noteq> named then Inl (SupersedesOther i named (active_id_of a))
          else if i = named then Inl (SupersedesItself i) else Inr ())"

definition require_cost_model_complete :: "cost_model_store \<Rightarrow> string \<Rightarrow> ledger_error + unit" where
  "require_cost_model_complete costs model =
     (case load_by_semantic_id costs model of
        None \<Rightarrow> Inr ()
      | Some m \<Rightarrow> (case check_cost_model_completeness model (map kind_label (missing_token_kinds m)) of
                     Inl refusal \<Rightarrow> Inl (ActivationRefused refusal) | Inr _ \<Rightarrow> Inr ()))"

definition gate :: "activation_request \<Rightarrow> recorded_validation \<Rightarrow> ledger_error + unit" where
  "gate rq recorded = (case check_activation rq recorded of Inl refusal \<Rightarrow> Inl (ActivationRefused refusal) | Inr _ \<Rightarrow> Inr ())"

text \<open>One event per result and instant; the actor and the policy version are texts the table requires.\<close>

definition insert_event :: "calibration_ledger \<Rightarrow> calibration_event \<Rightarrow> ledger_error + calibration_ledger" where
  "insert_event l e =
     (if cv_actor e = [] \<or> cv_policy e = [] \<or>
         list_ex (\<lambda>x. cv_at x = cv_at e \<and> event_name x = event_name e) (cl_events l)
      then Inl (RowRefused (cv_id e)) else Inr (l\<lparr>cl_events := cl_events l @ [e]\<rparr>))"

definition activate ::
    "calibration_ledger \<Rightarrow> string \<Rightarrow> utc_timestamp \<Rightarrow> string option \<Rightarrow> activation_request \<Rightarrow>
     ledger_error + calibration_ledger" where
  "activate l i at_time supersedes rq =
     (case load_result l i of
        None \<Rightarrow> Inl (NoSuchResult i)
      | Some c \<Rightarrow>
          and_then (require_cost_model_complete (cl_costs l) (wk_cost_model c)) (\<lambda>_.
          and_then (gate rq (scalar_validation c)) (\<lambda>_.
          and_then (load_active_calibration l (wk_scope c) (instant_before at_time)) (\<lambda>active.
          and_then (check_predecessor active i supersedes) (\<lambda>_.
            (case active of
               Some (PerKindActive k) \<Rightarrow> Inl (PerKindPredecessor i (mk_id k))
             | _ \<Rightarrow>
                 and_then (case supersedes of
                             None \<Rightarrow> Inr ()
                           | Some named \<Rightarrow> if load_result l named = None then Inl (NoSuchResult named) else Inr ()) (\<lambda>_.
                   insert_event l
                     \<lparr>cv_shape = ScalarShape, cv_id = i, cv_at = at_time,
                      cv_supersedes = map_option (Pair ScalarShape) supersedes, cv_actor = rq_actor rq,
                      cv_policy = pl_version (rq_policy rq), cv_fitting = wk_fitting_evidence c,
                      cv_validation = wk_validation_evidence c\<rparr>)))))))"

definition activate_multivariate ::
    "calibration_ledger \<Rightarrow> string \<Rightarrow> utc_timestamp \<Rightarrow> string option \<Rightarrow> activation_request \<Rightarrow>
     ledger_error + calibration_ledger" where
  "activate_multivariate l i at_time supersedes rq =
     (case load_multivariate_result l i of
        None \<Rightarrow> Inl (NoSuchResult i)
      | Some c \<Rightarrow>
          and_then (gate rq (per_kind_validation c)) (\<lambda>_.
          and_then (load_active_calibration l (mk_scope c) (instant_before at_time)) (\<lambda>active.
          and_then (check_predecessor active i supersedes) (\<lambda>_.
            insert_event l
              \<lparr>cv_shape = PerKindShape, cv_id = i, cv_at = at_time, cv_supersedes = map_option active_name active,
               cv_actor = rq_actor rq, cv_policy = pl_version (rq_policy rq), cv_fitting = mk_fitting_evidence c,
               cv_validation = mk_validation_evidence c\<rparr>))))"

subsection \<open>Reading the ledger\<close>

definition load_current_applicable ::
    "calibration_ledger \<Rightarrow> calibration_scope \<Rightarrow> utc_timestamp \<Rightarrow> ledger_error + active_calibration option" where
  "load_current_applicable l scope t =
     and_then (load_active_calibration l scope t) (\<lambda>active.
       case active of
         Some (ScalarActive c) \<Rightarrow>
           and_then (require_cost_model_complete (cl_costs l) (wk_cost_model c)) (\<lambda>_. Inr active)
       | _ \<Rightarrow> Inr active)"

definition require_current_applicable :: "calibration_ledger \<Rightarrow> string \<Rightarrow> ledger_error + window_calibration" where
  "require_current_applicable l i =
     (case load_result l i of
        None \<Rightarrow> Inl (NoSuchResult i)
      | Some c \<Rightarrow> and_then (require_cost_model_complete (cl_costs l) (wk_cost_model c)) (\<lambda>_. Inr c))"

definition results_valid_at ::
    "calibration_ledger \<Rightarrow> calibration_scope \<Rightarrow> utc_timestamp \<Rightarrow> utc_timestamp option \<Rightarrow> window_calibration list" where
  "results_valid_at l scope valid_time known_by =
     sort_key (\<lambda>c. vi_from (wk_validity c))
       (filter (\<lambda>c. wk_scope c = scope \<and> vi_from (wk_validity c) \<le> valid_time \<and> valid_time \<le> vi_until (wk_validity c) \<and>
                    wk_knowledge_time c \<le> (case known_by of None \<Rightarrow> i64_max | Some k \<Rightarrow> k)) (cl_scalars l))"

definition list_all_results :: "calibration_ledger \<Rightarrow> window_calibration list" where
  "list_all_results l = sort_key wk_knowledge_time (cl_scalars l)"

definition list_all_multivariate_results :: "calibration_ledger \<Rightarrow> multivariate_calibration list" where
  "list_all_multivariate_results l = sort_key mk_knowledge_time (cl_per_kind l)"

definition fitted_calibration_scopes :: "calibration_ledger \<Rightarrow> calibration_scope set" where
  "fitted_calibration_scopes l = set (map wk_scope (cl_scalars l) @ map mk_scope (cl_per_kind l))"

definition calibration_event_kind :: "calibration_event \<Rightarrow> string" where
  "calibration_event_kind e = (if cv_supersedes e = None then ''activation'' else ''supersession'')"

definition activation_events_for :: "calibration_ledger \<Rightarrow> string \<Rightarrow> calibration_event list" where
  "activation_events_for l i = sort_key cv_at (filter (\<lambda>e. event_name e = (ScalarShape, i)) (cl_events l))"

definition multivariate_activation_events_for :: "calibration_ledger \<Rightarrow> string \<Rightarrow> calibration_event list" where
  "multivariate_activation_events_for l i = sort_key cv_at (filter (\<lambda>e. event_name e = (PerKindShape, i)) (cl_events l))"

definition is_superseded :: "calibration_ledger \<Rightarrow> string \<Rightarrow> bool" where
  "is_superseded l i \<longleftrightarrow> list_ex (\<lambda>e. cv_supersedes e = Some (ScalarShape, i)) (cl_events l)"

definition is_multivariate_superseded :: "calibration_ledger \<Rightarrow> string \<Rightarrow> bool" where
  "is_multivariate_superseded l i \<longleftrightarrow>
     list_ex (\<lambda>e. cv_shape e = PerKindShape \<and> cv_supersedes e = Some (PerKindShape, i)) (cl_events l)"

subsection \<open>The health the commands show\<close>

definition review_due_at :: "window_calibration \<Rightarrow> monotonic_duration \<Rightarrow> utc_timestamp" where
  "review_due_at c review_after = review_instant (wk_fit_timestamp c) review_after"

definition calibrate_lifecycle_state :: "calibration_ledger \<Rightarrow> string \<Rightarrow> lifecycle_state" where
  "calibrate_lifecycle_state l i =
     (if activation_events_for l i = [] then NeverActivated
      else if is_superseded l i then LifecycleSuperseded else LifecycleActive)"

definition own_facts :: "window_calibration \<Rightarrow> applicability" where
  "own_facts c =
     \<lparr>ap_plan_tier = kp_plan_tier (wk_scope c), ap_meter_semantics = wk_meter_semantics c,
      ap_billing_semantics = wk_billing_semantics c\<rparr>"

definition calibrate_health_label ::
    "calibration_ledger \<Rightarrow> window_calibration \<Rightarrow> monotonic_duration \<Rightarrow> utc_timestamp \<Rightarrow> string" where
  "calibrate_health_label l c review_after now =
     health_label (compute_health
       \<lparr>hi_calibration = own_facts c, hi_context = own_facts c, hi_lifecycle = calibrate_lifecycle_state l (wk_id c),
        hi_cost_model_superseded = model_superseded (cl_costs l) (wk_cost_model c), hi_drift = None,
        hi_review_due_at = Some (review_due_at c review_after)\<rparr> now)"

definition stored_window_calibration_health ::
    "calibration_ledger \<Rightarrow> window_calibration \<Rightarrow> cost_model option \<Rightarrow> monotonic_duration \<Rightarrow> utc_timestamp \<Rightarrow>
     calibration_health" where
  "stored_window_calibration_health l c active_cost_model review_after now =
     compute_health
       \<lparr>hi_calibration = own_facts c,
        hi_context = (own_facts c)\<lparr>ap_billing_semantics :=
          (case active_cost_model of None \<Rightarrow> wk_billing_semantics c | Some m \<Rightarrow> cm_billing_semantics m)\<rparr>,
        hi_lifecycle = LifecycleActive,
        hi_cost_model_superseded = model_superseded (cl_costs l) (wk_cost_model c), hi_drift = None,
        hi_review_due_at = Some (review_due_at c review_after)\<rparr> now"

definition stored_per_kind_calibration_health ::
    "multivariate_calibration \<Rightarrow> monotonic_duration \<Rightarrow> utc_timestamp \<Rightarrow> calibration_health" where
  "stored_per_kind_calibration_health c review_after now =
     compute_per_kind_health LifecycleActive None (Some (review_instant (mk_fit_timestamp c) review_after)) now"

section \<open>Runs of the ledger\<close>

text \<open>
  Each operation a caller may ask for, with its arguments, labels the step it makes when the ledger accepts it; a refused
  operation leaves the ledger as it was. A run is the list of the accepted operations.
\<close>

datatype ledger_operation =
  RecordExperiment string
| RecordCandidate joint_candidate
| InsertResult window_calibration "string list"
| InsertPerKind multivariate_calibration
| Activate string utc_timestamp "string option" activation_request
| ActivatePerKind string utc_timestamp "string option" activation_request
| ChangeCosts cost_model_store

inductive ledger_does :: "calibration_ledger \<Rightarrow> ledger_operation \<Rightarrow> calibration_ledger \<Rightarrow> bool" where
  experiment_recorded: "ledger_does l (RecordExperiment x) (l\<lparr>cl_experiments := cl_experiments l @ [x]\<rparr>)"
| candidate_recorded: "ledger_does l (RecordCandidate j) (l\<lparr>cl_candidates := cl_candidates l @ [j]\<rparr>)"
| result_inserted: "insert_result l c experiments = Inr l' \<Longrightarrow> ledger_does l (InsertResult c experiments) l'"
| per_kind_inserted: "insert_multivariate_result l k = Inr l' \<Longrightarrow> ledger_does l (InsertPerKind k) l'"
| activated: "is_i64 t \<Longrightarrow> activate l i t supersedes rq = Inr l' \<Longrightarrow> ledger_does l (Activate i t supersedes rq) l'"
| per_kind_activated: "is_i64 t \<Longrightarrow> activate_multivariate l i t supersedes rq = Inr l' \<Longrightarrow>
    ledger_does l (ActivatePerKind i t supersedes rq) l'"
| costs_changed: "cost_step (cl_costs l) costs \<Longrightarrow> ledger_does l (ChangeCosts costs) (l\<lparr>cl_costs := costs\<rparr>)"

inductive_cases ledger_doesE: "ledger_does l op l'"

definition ledger_step :: "calibration_ledger \<Rightarrow> calibration_ledger \<Rightarrow> bool" where
  "ledger_step l l' \<longleftrightarrow> (\<exists>op. ledger_does l op l')"

inductive ledger_run :: "calibration_ledger \<Rightarrow> ledger_operation list \<Rightarrow> calibration_ledger \<Rightarrow> bool" where
  run_nothing: "ledger_run l [] l"
| run_on: "ledger_run l ops l' \<Longrightarrow> ledger_does l' op l'' \<Longrightarrow> ledger_run l (ops @ [op]) l''"

text \<open>The calls of a run that asked for an activation: what they named, for when, and the request they presented.\<close>

fun activation_calls :: "ledger_operation list \<Rightarrow> ((result_shape \<times> string) \<times> utc_timestamp \<times> activation_request) list" where
  "activation_calls [] = []"
| "activation_calls (Activate i t supersedes rq # ops) = ((ScalarShape, i), t, rq) # activation_calls ops"
| "activation_calls (ActivatePerKind i t supersedes rq # ops) = ((PerKindShape, i), t, rq) # activation_calls ops"
| "activation_calls (op # ops) = activation_calls ops"

definition empty_ledger :: calibration_ledger where
  "empty_ledger =
     \<lparr>cl_experiments = [], cl_candidates = [], cl_scalars = [], cl_sources = [], cl_per_kind = [], cl_events = [],
      cl_costs = no_models\<rparr>"

definition recorded_of :: "active_calibration \<Rightarrow> recorded_validation" where
  "recorded_of a = (case a of ScalarActive c \<Rightarrow> scalar_validation c | PerKindActive c \<Rightarrow> per_kind_validation c)"

text \<open>
  An event is backed when the result it names is stored; it answers a call when it names the result, the instant, the
  actor and the policy of the call, whose request passed the gate against what that result records.
\<close>

definition backed :: "calibration_ledger \<Rightarrow> calibration_event \<Rightarrow> bool" where
  "backed l e \<longleftrightarrow> named_result l (event_name e) \<noteq> None"

definition answers ::
    "calibration_ledger \<Rightarrow> (result_shape \<times> string) \<times> utc_timestamp \<times> activation_request \<Rightarrow> calibration_event \<Rightarrow> bool" where
  "answers l call e =
     (case call of (n, t, rq) \<Rightarrow>
        event_name e = n \<and> cv_at e = t \<and> cv_actor e = rq_actor rq \<and> cv_policy e = pl_version (rq_policy rq) \<and>
        (\<exists>a. named_result l n = Some a \<and> check_activation rq (recorded_of a) = Inr () \<and>
             cv_fitting e = rv_fitting (recorded_of a) \<and> cv_validation e = rv_validation (recorded_of a)))"

definition ledger_ok :: "calibration_ledger \<Rightarrow> bool" where
  "ledger_ok l \<longleftrightarrow> distinct (map wk_id (cl_scalars l) @ map mk_id (cl_per_kind l)) \<and> (\<forall>e\<in>set (cl_events l). backed l e)"

lemma named_result_name: "named_result l n = Some a \<Longrightarrow> active_name a = n"
  by (auto simp: named_result_def load_result_def load_multivariate_result_def active_name_def find_Some_iff
      split: prod.splits result_shape.splits)

lemma active_id_name: "active_id_of a = snd (active_name a)"
  by (simp add: active_id_of_def active_name_def split: active_calibration.split)

lemma empty_ledger_ok [simp]: "ledger_ok empty_ledger" "scope_events empty_ledger scope = []" "cl_events empty_ledger = []"
  by (simp_all add: empty_ledger_def ledger_ok_def scope_events_def)

text \<open>Results are only added: a name keeps what it names.\<close>

definition results_extend :: "calibration_ledger \<Rightarrow> calibration_ledger \<Rightarrow> bool" where
  "results_extend l l' \<longleftrightarrow> (\<exists>cs ks. cl_scalars l' = cl_scalars l @ cs \<and> cl_per_kind l' = cl_per_kind l @ ks)"

lemma named_result_extend: "results_extend l l' \<Longrightarrow> named_result l n = Some a \<Longrightarrow> named_result l' n = Some a"
  by (auto simp: results_extend_def named_result_def load_result_def load_multivariate_result_def find_append
      split: prod.splits result_shape.splits)

lemma backed_extend: "results_extend l l' \<Longrightarrow> backed l e \<Longrightarrow> backed l' e"
  unfolding backed_def using named_result_extend by fastforce

lemma answers_extend: "results_extend l l' \<Longrightarrow> answers l call e \<Longrightarrow> answers l' call e"
  unfolding answers_def using named_result_extend by (fastforce split: prod.splits)

lemma scope_events_extend:
  assumes "results_extend l l'" "\<forall>e\<in>set (cl_events l). backed l e" "cl_events l' = cl_events l @ es"
  shows "scope_events l' scope = scope_events l scope @
    filter (\<lambda>e. map_option active_scope_of (named_result l' (event_name e)) = Some scope) es"
proof -
  have "named_result l' (event_name e) = named_result l (event_name e)" if "e \<in> set (cl_events l)" for e
    using that assms(2) named_result_extend [OF assms(1)] by (fastforce simp: backed_def)
  then show ?thesis by (simp add: scope_events_def assms(3) cong: filter_cong)
qed

text \<open>In a ledger of backed events the one in force is the subject of the scope's latest event, and is found.\<close>

lemma scope_eventsD: "e \<in> set (scope_events l scope) \<Longrightarrow>
    e \<in> set (cl_events l) \<and> (\<exists>a. named_result l (event_name e) = Some a \<and> active_scope_of a = scope)"
  by (auto simp: scope_events_def)

lemma load_active_calibration_iff:
  "load_active_calibration l scope t = Inr active \<longleftrightarrow>
     active = Option.bind (latest_event event_key (scope_events l scope) t) (\<lambda>e. named_result l (event_name e))"
proof (cases "latest_event event_key (scope_events l scope) t")
  case (Some e)
  then obtain a where "named_result l (event_name e) = Some a" using latest_event_in [OF Some] scope_eventsD by blast
  then show ?thesis using Some by (auto simp: load_active_calibration_def)
qed (auto simp: load_active_calibration_def)

lemma in_force_name:
  assumes "load_active_calibration l scope t = Inr active"
  shows "map_option active_name active = map_option event_name (latest_event event_key (scope_events l scope) t)"
proof (cases "latest_event event_key (scope_events l scope) t")
  case (Some e)
  then obtain a where "named_result l (event_name e) = Some a" using latest_event_in [OF Some] scope_eventsD by blast
  then show ?thesis using Some assms named_result_name by (simp add: load_active_calibration_iff)
qed (use assms in \<open>simp add: load_active_calibration_iff\<close>)

text \<open>What an accepted activation appends: a backed event that replaces what was in force in its scope just before.\<close>

definition accepted :: "calibration_ledger \<Rightarrow> calibration_event \<Rightarrow> bool" where
  "accepted l e \<longleftrightarrow>
     is_i64 (cv_at e) \<and> backed l e \<and> cv_supersedes e \<noteq> Some (event_name e) \<and>
     (\<forall>scope. map_option active_scope_of (named_result l (event_name e)) = Some scope \<longrightarrow>
        cv_supersedes e =
          map_option event_name (latest_event event_key (scope_events l scope) (instant_before (cv_at e))))"

lemma check_predecessor_ok:
  "check_predecessor active i supersedes = Inr () \<longleftrightarrow> map_option active_id_of active = supersedes \<and> supersedes \<noteq> Some i"
  by (auto simp: check_predecessor_def split: option.split)

lemma gate_ok: "gate rq recorded = Inr () \<longleftrightarrow> check_activation rq recorded = Inr ()"
  by (simp add: gate_def split: sum.split)

lemma insert_event_ok: "insert_event l e = Inr l' \<Longrightarrow> l' = l\<lparr>cl_events := cl_events l @ [e]\<rparr>"
  by (simp add: insert_event_def split: if_splits)

lemma load_result_named: "load_result l i = Some c \<Longrightarrow> named_result l (ScalarShape, i) = Some (ScalarActive c)"
  by (simp add: named_result_def)

lemma load_multivariate_named:
  "load_multivariate_result l i = Some c \<Longrightarrow> named_result l (PerKindShape, i) = Some (PerKindActive c)"
  by (simp add: named_result_def)

lemma activate_accepted:
  assumes "activate l i t supersedes rq = Inr l'" "is_i64 t"
  shows "\<exists>e. l' = l\<lparr>cl_events := cl_events l @ [e]\<rparr> \<and> accepted l e \<and> answers l ((ScalarShape, i), t, rq) e"
proof -
  obtain c where c: "load_result l i = Some c"
    using assms(1) by (auto simp: activate_def split: option.splits)
  let ?e = "\<lparr>cv_shape = ScalarShape, cv_id = i, cv_at = t, cv_supersedes = map_option (Pair ScalarShape) supersedes,
          cv_actor = rq_actor rq, cv_policy = pl_version (rq_policy rq), cv_fitting = wk_fitting_evidence c,
          cv_validation = wk_validation_evidence c\<rparr>"
  obtain active where active: "gate rq (scalar_validation c) = Inr ()"
      "load_active_calibration l (wk_scope c) (instant_before t) = Inr active"
      "check_predecessor active i supersedes = Inr ()"
    and last: "(case active of Some (PerKindActive k) \<Rightarrow> Inl (PerKindPredecessor i (mk_id k))
       | _ \<Rightarrow> and_then (case supersedes of None \<Rightarrow> Inr ()
                       | Some named \<Rightarrow> if load_result l named = None then Inl (NoSuchResult named) else Inr ())
                    (\<lambda>_. insert_event l ?e)) = Inr l'"
    using assms(1) c by (auto simp: activate_def and_then_Inr)
  from last have rest: "\<And>k. active \<noteq> Some (PerKindActive k)" "insert_event l ?e = Inr l'"
    by (auto simp: and_then_Inr split: option.splits active_calibration.splits if_splits)
  have passed: "check_activation rq (recorded_of (ScalarActive c)) = Inr ()"
    using active(1) by (simp add: gate_ok recorded_of_def)
  then have answered: "answers l ((ScalarShape, i), t, rq) ?e"
    using load_result_named [OF c] by (simp add: answers_def recorded_of_def scalar_validation_def)
  have "backed l ?e" using load_result_named [OF c] by (simp add: backed_def)
  moreover have "map_option (Pair ScalarShape) supersedes = map_option active_name active"
    using active(3) rest(1)
    by (cases active; cases "the active") (auto simp: check_predecessor_ok active_id_of_def active_name_def)
  ultimately have "accepted l ?e"
    using assms(2) active(3) in_force_name [OF active(2)] load_result_named [OF c]
    by (auto simp: accepted_def active_scope_of_def check_predecessor_ok)
  then show ?thesis using insert_event_ok [OF rest(2)] answered by blast
qed

lemma activate_multivariate_accepted:
  assumes "activate_multivariate l i t supersedes rq = Inr l'" "is_i64 t"
  shows "\<exists>e. l' = l\<lparr>cl_events := cl_events l @ [e]\<rparr> \<and> accepted l e \<and> answers l ((PerKindShape, i), t, rq) e"
proof -
  obtain c where c: "load_multivariate_result l i = Some c"
    using assms(1) by (auto simp: activate_multivariate_def split: option.splits)
  then obtain active where active: "gate rq (per_kind_validation c) = Inr ()"
      "load_active_calibration l (mk_scope c) (instant_before t) = Inr active"
      "check_predecessor active i supersedes = Inr ()"
    and rest: "insert_event l
         \<lparr>cv_shape = PerKindShape, cv_id = i, cv_at = t, cv_supersedes = map_option active_name active,
          cv_actor = rq_actor rq, cv_policy = pl_version (rq_policy rq), cv_fitting = mk_fitting_evidence c,
          cv_validation = mk_validation_evidence c\<rparr> = Inr l'"
    using assms(1) by (auto simp: activate_multivariate_def and_then_Inr)
  let ?e = "\<lparr>cv_shape = PerKindShape, cv_id = i, cv_at = t, cv_supersedes = map_option active_name active,
          cv_actor = rq_actor rq, cv_policy = pl_version (rq_policy rq), cv_fitting = mk_fitting_evidence c,
          cv_validation = mk_validation_evidence c\<rparr>"
  have passed: "check_activation rq (recorded_of (PerKindActive c)) = Inr ()"
    using active(1) by (simp add: gate_ok recorded_of_def)
  then have answered: "answers l ((PerKindShape, i), t, rq) ?e"
    using load_multivariate_named [OF c] by (simp add: answers_def recorded_of_def per_kind_validation_def)
  have "backed l ?e" using load_multivariate_named [OF c] by (simp add: backed_def)
  moreover have "map_option active_name active \<noteq> Some (PerKindShape, i)"
    using active(3) by (auto simp: check_predecessor_ok active_id_name)
  ultimately have "accepted l ?e"
    using assms(2) in_force_name [OF active(2)] load_multivariate_named [OF c]
    by (auto simp: accepted_def active_scope_of_def)
  then show ?thesis using insert_event_ok [OF rest] answered by blast
qed

lemma ledger_does_cases:
  assumes "ledger_does l op l'" "ledger_ok l"
  shows "results_extend l l' \<and> distinct (map wk_id (cl_scalars l') @ map mk_id (cl_per_kind l')) \<and>
    (cl_events l' = cl_events l \<and> activation_calls [op] = [] \<or>
     (\<exists>e call. l' = l\<lparr>cl_events := cl_events l @ [e]\<rparr> \<and> accepted l e \<and> activation_calls [op] = [call] \<and> answers l call e))"
  using assms(1)
proof (cases rule: ledger_does.cases)
  case (result_inserted c experiments)
  then show ?thesis using assms(2)
    by (clarsimp simp: insert_result_def and_then_Inr ledger_ok_def results_extend_def result_row_def
        split: if_splits)
next
  case (per_kind_inserted k)
  then show ?thesis using assms(2)
    by (clarsimp simp: insert_multivariate_result_def ledger_ok_def results_extend_def
        split: option.splits if_splits)
next
  case (activated t i supersedes rq)
  then obtain e where "l' = l\<lparr>cl_events := cl_events l @ [e]\<rparr>" "accepted l e" "answers l ((ScalarShape, i), t, rq) e"
    using activate_accepted by blast
  then show ?thesis using assms(2) activated(1) by (auto simp: results_extend_def ledger_ok_def intro!: exI [of _ e])
next
  case (per_kind_activated t i supersedes rq)
  then obtain e where "l' = l\<lparr>cl_events := cl_events l @ [e]\<rparr>" "accepted l e" "answers l ((PerKindShape, i), t, rq) e"
    using activate_multivariate_accepted by blast
  then show ?thesis using assms(2) per_kind_activated(1) by (auto simp: results_extend_def ledger_ok_def intro!: exI [of _ e])
qed (use assms(2) in \<open>auto simp: results_extend_def ledger_ok_def\<close>)

lemma ledger_step_cases:
  assumes "ledger_step l l'" "ledger_ok l"
  shows "results_extend l l' \<and> distinct (map wk_id (cl_scalars l') @ map mk_id (cl_per_kind l')) \<and>
    (cl_events l' = cl_events l \<or> (\<exists>e. l' = l\<lparr>cl_events := cl_events l @ [e]\<rparr> \<and> accepted l e))"
  using assms ledger_does_cases unfolding ledger_step_def by blast

lemma accepted_scope_events:
  assumes "accepted l e"
  shows "scope_events (l\<lparr>cl_events := cl_events l @ [e]\<rparr>) scope = scope_events l scope \<or>
    scope_events (l\<lparr>cl_events := cl_events l @ [e]\<rparr>) scope = scope_events l scope @ [e] \<and>
    cv_supersedes e = map_option event_name (latest_event event_key (scope_events l scope) (instant_before (cv_at e)))"
proof -
  have same: "named_result (l\<lparr>cl_events := cl_events l @ [e]\<rparr>) n = named_result l n" for n
    by (simp add: named_result_def load_result_def load_multivariate_result_def split: prod.split result_shape.split)
  show ?thesis using assms by (simp add: scope_events_def same accepted_def)
qed

interpretation ledger: lifecycle_history event_key event_name cv_supersedes "\<lambda>l. scope_events l scope" ledger_step ledger_ok
  for scope
proof unfold_locales
  fix w w'
  assume ok: "ledger_ok w" and "ledger_step w w'"
  note step = ledger_step_cases [OF this(2,1)]
  have extend: "results_extend w w'" using step by blast
  have "\<forall>e\<in>set (cl_events w'). backed w' e"
    using step ok backed_extend [OF extend] by (auto simp: ledger_ok_def accepted_def)
  then show "ledger_ok w'" using step by (simp add: ledger_ok_def)
  show "scope_events w' scope = scope_events w scope \<or>
    (\<exists>e. scope_events w' scope = scope_events w scope @ [e] \<and> is_i64 (fst (event_key e)) \<and>
      cv_supersedes e \<noteq> Some (event_name e) \<and>
      cv_supersedes e = map_option event_name
        (latest_event event_key (scope_events w scope) (instant_before (fst (event_key e)))))"
  proof (cases "cl_events w' = cl_events w")
    case True
    then show ?thesis using scope_events_extend [OF extend, of "[]"] ok by (simp add: ledger_ok_def)
  next
    case False
    then obtain e where "w' = w\<lparr>cl_events := cl_events w @ [e]\<rparr>" "accepted w e" using step by auto
    then show ?thesis using accepted_scope_events [of w e scope] by (auto simp: accepted_def)
  qed
qed

section \<open>What every run of the ledger guarantees\<close>

lemma activation_calls_append: "activation_calls (ops @ ops') = activation_calls ops @ activation_calls ops'"
  by (induction ops rule: activation_calls.induct) simp_all

lemma ledger_run_steps: "ledger_run l ops l' \<Longrightarrow> ledger_step\<^sup>*\<^sup>* l l'"
  by (induction rule: ledger_run.induct) (auto simp: ledger_step_def intro: rtranclp.rtrancl_into_rtrancl)

text \<open>The events of a ledger answer the activation calls of its run, one for one and in their order.\<close>

lemma run_answers:
  assumes "ledger_run l ops l'" "ledger_ok l" "cl_events l = []"
  shows "list_all2 (answers l') (activation_calls ops) (cl_events l')"
  using assms
proof (induction rule: ledger_run.induct)
  case (run_on l ops l' op l'')
  then have ok: "ledger_ok l'" using ledger.run_ok ledger_run_steps by blast
  note step = ledger_does_cases [OF run_on.hyps(2) ok]
  then have "list_all2 (answers l'') (activation_calls ops) (cl_events l')"
    using run_on answers_extend by (blast intro: list_all2_mono)
  moreover have "list_all2 (answers l'') (activation_calls [op]) (drop (length (cl_events l')) (cl_events l''))"
    using step answers_extend by fastforce
  moreover have "cl_events l'' = cl_events l' @ drop (length (cl_events l')) (cl_events l'')" using step by auto
  ultimately show ?case
    by (metis activation_calls_append list_all2_appendI)
qed simp

text \<open>
  C3. In any ledger the operations build, the events are the accepted activation calls in their order, each with the
  result, instant, actor and policy version of its call; and whatever is in force anywhere at any instant was put there
  by the call of the scope's latest event, whose own request judged exactly the evidence the result records, on disjoint
  training and validation sets, without a contamination finding and within the bounds of its own policy. The lookup
  never fails.
\<close>

theorem in_force_passed_the_gate:
  assumes "ledger_run empty_ledger ops l"
  shows "list_all2 (\<lambda>(n, at_time, rq) e. event_name e = n \<and> cv_at e = at_time \<and> cv_actor e = rq_actor rq \<and>
      cv_policy e = pl_version (rq_policy rq)) (activation_calls ops) (cl_events l) \<and>
    (\<exists>active. load_active_calibration l scope t = Inr active \<and>
    (\<forall>a. active = Some a \<longrightarrow> active_scope_of a = scope \<and>
       (\<exists>at_time rq e. ((active_name a, at_time, rq), e) \<in> set (zip (activation_calls ops) (cl_events l)) \<and>
          latest_event event_key (scope_events l scope) t = Some e \<and> at_time \<le> t \<and>
          rq_training rq |\<inter>| rq_validation rq = {||} \<and> rq_contamination rq = [] \<and>
          judges_recorded rq (recorded_of a) \<and> within_bounds (rq_policy rq) (recorded_of a))))"
proof -
  have answered: "list_all2 (answers l) (activation_calls ops) (cl_events l)" using run_answers [OF assms] by simp
  have calls: "list_all2 (\<lambda>(n, at_time, rq) e. event_name e = n \<and> cv_at e = at_time \<and> cv_actor e = rq_actor rq \<and>
      cv_policy e = pl_version (rq_policy rq)) (activation_calls ops) (cl_events l)"
    using answered by (rule list_all2_mono) (auto simp: answers_def)
  let ?active = "Option.bind (latest_event event_key (scope_events l scope) t) (\<lambda>e. named_result l (event_name e))"
  have "active_scope_of a = scope \<and>
       (\<exists>at_time rq e. ((active_name a, at_time, rq), e) \<in> set (zip (activation_calls ops) (cl_events l)) \<and>
          latest_event event_key (scope_events l scope) t = Some e \<and> at_time \<le> t \<and>
          rq_training rq |\<inter>| rq_validation rq = {||} \<and> rq_contamination rq = [] \<and>
          judges_recorded rq (recorded_of a) \<and> within_bounds (rq_policy rq) (recorded_of a))"
    if active: "?active = Some a" for a
  proof -
    obtain e where e: "latest_event event_key (scope_events l scope) t = Some e" "named_result l (event_name e) = Some a"
      using active by (auto simp: Option.bind_eq_Some_conv)
    note found = scope_eventsD [OF latest_event_in [OF e(1), THEN conjunct1]]
    then obtain call where call: "(call, e) \<in> set (zip (activation_calls ops) (cl_events l))"
      using answered by (metis in_set_impl_in_set_zip2 list_all2_lengthD)
    then have "answers l call e" using answered by (auto simp: list_all2_iff)
    moreover obtain n at_time rq where "call = (n, at_time, rq)" by (cases call)
    ultimately show ?thesis
      using call e found latest_event_in [OF e(1)] named_result_name [OF e(2)]
      by (auto simp: answers_def check_activation_iff)
  qed
  then show ?thesis using calls by (intro conjI exI [of _ ?active]) (simp_all add: load_active_calibration_iff)
qed

text \<open>
  C7. As long as activations come at increasing instants within a scope, its events form one chain across both shapes,
  each naming the one before it, and what was in force at an instant that no later event of the scope reaches stays
  the answer for it.
\<close>

theorem calibrations_form_one_chain:
  assumes "ledger_step\<^sup>*\<^sup>* empty_ledger l" "ledger_step\<^sup>*\<^sup>* l l'" "in_order event_key (scope_events l' scope)"
    and "\<forall>e\<in>set (drop (length (scope_events l scope)) (scope_events l' scope)). t < cv_at e"
  shows "map cv_supersedes (scope_events l' scope) =
      take (length (scope_events l' scope)) (None # map (\<lambda>e. Some (event_name e)) (scope_events l' scope)) \<and>
    load_active_calibration l' scope t = load_active_calibration l scope t"
proof -
  have ok: "ledger_ok l" using ledger.run_ok [OF assms(1)] by simp
  have run: "ledger_step\<^sup>*\<^sup>* empty_ledger l'" using assms(1,2) by (rule rtranclp_trans)
  have extend: "results_extend l l'"
    using assms(2) ok
  proof (induction rule: rtranclp_induct)
    case (step y z)
    then have "ledger_ok y" using ledger.run_ok by blast
    then show ?case using ledger_step_cases [OF step.hyps(2)] step by (auto simp: results_extend_def)
  qed (simp add: results_extend_def)
  have latest: "latest_event event_key (scope_events l' scope) t = latest_event event_key (scope_events l scope) t"
    using ledger.past_stays_answerable [OF assms(2) ok, of scope t] assms(4) by simp
  have "named_result l' (event_name e) = named_result l (event_name e)"
    if "latest_event event_key (scope_events l scope) t = Some e" for e
    using scope_eventsD [OF latest_event_in [OF that, THEN conjunct1]] named_result_extend [OF extend] by auto
  then have "load_active_calibration l' scope t = load_active_calibration l scope t"
    by (simp add: load_active_calibration_def latest split: option.split)
  then show ?thesis using ledger.run_chain [OF run _ _ assms(3)] by simp
qed

text \<open>
  C34. As long as the activations of its scope were recorded at increasing instants, a scalar calibration the commands
  show as active is the one in force at the last instant there is: nothing supersedes it, so its event is the last of
  its scope.
\<close>

theorem shown_active_is_in_force:
  assumes "ledger_step\<^sup>*\<^sup>* empty_ledger l" "load_result l i = Some c" "in_order event_key (scope_events l (wk_scope c))"
    and "calibrate_lifecycle_state l i = LifecycleActive"
  shows "load_active_calibration l (wk_scope c) i64_max = Inr (Some (ScalarActive c))"
proof -
  let ?events = "scope_events l (wk_scope c)"
  have named: "named_result l (ScalarShape, i) = Some (ScalarActive c)" using assms(2) by (rule load_result_named)
  have "activation_events_for l i \<noteq> []" and free: "\<not> is_superseded l i"
    using assms(4) by (auto simp: calibrate_lifecycle_state_def split: if_splits)
  then obtain e where "e \<in> set (cl_events l)" "event_name e = (ScalarShape, i)"
    by (auto simp: activation_events_for_def filter_empty_conv sort_key_Nil)
  then have e: "e \<in> set ?events" "event_name e = (ScalarShape, i)"
    using named by (auto simp: scope_events_def active_scope_of_def)
  have "\<not> (\<exists>x\<in>set ?events. cv_supersedes x = Some (ScalarShape, i))"
    using free scope_eventsD by (fastforce simp: is_superseded_def list_ex_iff)
  then have "e \<notin> set (butlast ?events)"
    using ledger.run_replaced_iff [OF assms(1) _ _ assms(3), of "(ScalarShape, i)"] e(2) [symmetric] by auto
  moreover have "?events \<noteq> [] \<and> set ?events = insert (last ?events) (set (butlast ?events))"
    using e(1) by (cases ?events rule: rev_cases) auto
  ultimately have last: "last ?events = e" "?events \<noteq> []" using e(1) by auto
  have "latest_event event_key ?events i64_max = Some e"
    using latest_of_all [OF ledger.run_names_predecessors [OF assms(1)] assms(3) last(2)] last(1) by simp
  then show ?thesis using named e(2) by (simp add: load_active_calibration_iff)
qed

section \<open>A calibration that returns\<close>

definition sample_scope :: calibration_scope where
  "sample_scope = \<lparr>kp_provider = ''anthropic'', kp_plan_tier = ''max'', kp_window_key = ''account''\<rparr>"

definition sample_calibration :: "string \<Rightarrow> window_calibration" where
  "sample_calibration i =
     \<lparr>wk_id = i, wk_scope = sample_scope, wk_meter_semantics = ''meter'', wk_billing_semantics = ''billing'',
      wk_cost_model = ''cm'', wk_fitted = CreditsPerPercentagePoint 9, wk_full_window_capacity = Credits 900,
      wk_fit_residual = Credits 1, wk_uncertainty = \<lparr>cu_lower = CreditsPerPercentagePoint 8, cu_upper = CreditsPerPercentagePoint 10\<rparr>,
      wk_lag_estimate = None, wk_lag_handling = ''none'', wk_sample_count = 40, wk_fit_timestamp = 0,
      wk_inputs = \<lparr>ed_digest = 7, ed_count = 3\<rparr>, wk_fitting_evidence = evidence_fingerprint {|''ev-1''|},
      wk_validation_evidence = evidence_fingerprint {|''ev-2''|}, wk_validation_method = ''holdout'',
      wk_validation_version = ''v2'', wk_out_of_sample_residual = Some (Credits 4), wk_statistical_method = ''ols'',
      wk_statistical_parameters = ''{}'', wk_condition_number = Some 2, wk_coverage_requirement = ''ninety'',
      wk_settling_policy = ''plateau'', wk_excluded_samples = [], wk_activation_policy_version = ''v1'',
      wk_aub_version = ''0.1'', wk_source_revision = ''abc'', wk_validity = \<lparr>vi_from = 0, vi_until = 100\<rparr>,
      wk_knowledge_time = 0\<rparr>"

definition sample_event :: "string \<Rightarrow> utc_timestamp \<Rightarrow> string option \<Rightarrow> calibration_event" where
  "sample_event i t supersedes =
     \<lparr>cv_shape = ScalarShape, cv_id = i, cv_at = t, cv_supersedes = map_option (Pair ScalarShape) supersedes,
      cv_actor = ''op'', cv_policy = ''v1'', cv_fitting = evidence_fingerprint {|''ev-1''|},
      cv_validation = evidence_fingerprint {|''ev-2''|}\<rparr>"

definition ledger_with :: "string list \<Rightarrow> calibration_event list \<Rightarrow> calibration_ledger" where
  "ledger_with ids events =
     \<lparr>cl_experiments = [''e1''], cl_candidates = [], cl_scalars = map sample_calibration ids,
      cl_sources = map (\<lambda>i. (i, ''e1'')) ids, cl_per_kind = [], cl_events = events, cl_costs = no_models\<rparr>"

definition turns :: "calibration_event list" where
  "turns = [sample_event ''A'' 1 None, sample_event ''B'' 2 (Some ''A''), sample_event ''A'' 3 (Some ''B'')]"

lemma sample_validation: "scalar_validation (sample_calibration i) = sample_recorded"
  by (simp add: scalar_validation_def sample_calibration_def sample_recorded_def)

lemma sample_row: "result_row (sample_calibration i) = sample_calibration i"
  by (simp add: result_row_def sample_calibration_def)

lemma sample_row_checks: "result_row_checks (sample_calibration i) \<longleftrightarrow> i \<noteq> []"
  by (auto simp: result_row_checks_def sample_calibration_def sample_scope_def encode_excluded_def)

lemma sample_calibration_parts [simp]:
  "wk_id (sample_calibration i) = i" "wk_scope (sample_calibration i) = sample_scope"
  "wk_cost_model (sample_calibration i) = ''cm''" "wk_inputs (sample_calibration i) = \<lparr>ed_digest = 7, ed_count = 3\<rparr>"
  "wk_fitting_evidence (sample_calibration i) = evidence_fingerprint {|''ev-1''|}"
  "wk_validation_evidence (sample_calibration i) = evidence_fingerprint {|''ev-2''|}"
  by (simp_all add: sample_calibration_def)

lemma sample_request_parts [simp]: "rq_actor sample_request = ''op''" "pl_version (rq_policy sample_request) = ''v1''"
  by (simp_all add: sample_request_def)

lemma sample_insert:
  assumes "i \<noteq> []" "i \<notin> set ids"
  shows "insert_result (ledger_with ids es) (sample_calibration i) [''e1''] = Inr (ledger_with (ids @ [i]) es)"
  using assms by (simp add: insert_result_def ledger_with_def sample_row sample_row_checks is_i64_def comp_def)

lemma sample_load: "load_result (ledger_with ids es) i = (if i \<in> set ids then Some (sample_calibration i) else None)"
  by (induction ids) (auto simp: load_result_def ledger_with_def)

lemma sample_complete: "require_cost_model_complete (cl_costs (ledger_with ids es)) model = Inr ()"
  by (simp add: require_cost_model_complete_def ledger_with_def no_models_def load_by_semantic_id_def)

lemma sample_gate: "gate sample_request (scalar_validation (sample_calibration i)) = Inr ()"
  by (simp add: gate_def sample_validation sample_passes)

lemma sample_scope_events: "list_all (\<lambda>e. cv_shape e = ScalarShape \<and> cv_id e \<in> set ids) es \<Longrightarrow>
    scope_events (ledger_with ids es) sample_scope = es"
  by (auto simp: scope_events_def filter_id_conv list_all_iff ledger_with_def named_result_def sample_load [unfolded ledger_with_def]
      active_scope_of_def)

lemma sample_load_active:
  assumes "list_all (\<lambda>e. cv_shape e = ScalarShape \<and> cv_id e \<in> set ids) es"
  shows "load_active_calibration (ledger_with ids es) sample_scope t =
    Inr (map_option (\<lambda>e. ScalarActive (sample_calibration (cv_id e))) (latest_event event_key es t))"
proof (cases "latest_event event_key es t")
  case (Some e)
  then have "cv_shape e = ScalarShape" "cv_id e \<in> set ids"
    using latest_event_in [OF Some] assms by (auto simp: list_all_iff)
  then show ?thesis
    by (simp add: load_active_calibration_def sample_scope_events [OF assms] Some named_result_def sample_load)
qed (simp add: load_active_calibration_def sample_scope_events [OF assms])

lemma sample_activate:
  assumes "list_all (\<lambda>e. cv_shape e = ScalarShape \<and> cv_id e \<in> set ids \<and> cv_at e \<noteq> t) es" "i \<in> set ids"
    and "supersedes = map_option cv_id (latest_event event_key es (instant_before t))" "supersedes \<noteq> Some i"
  shows "activate (ledger_with ids es) i t supersedes sample_request = Inr (ledger_with ids (es @ [sample_event i t supersedes]))"
proof -
  have es: "list_all (\<lambda>e. cv_shape e = ScalarShape \<and> cv_id e \<in> set ids) es"
    using assms(1) by (auto simp: list_all_iff)
  let ?active = "map_option (\<lambda>e. ScalarActive (sample_calibration (cv_id e))) (latest_event event_key es (instant_before t))"
  have "check_predecessor ?active i supersedes = Inr ()"
    using assms(3,4) by (auto simp: check_predecessor_ok active_id_of_def option.map_comp comp_def)
  moreover have "named \<in> set ids" if named: "supersedes = Some named" for named
  proof -
    obtain e where "latest_event event_key es (instant_before t) = Some e" "cv_id e = named"
      using named unfolding assms(3) by (auto simp: map_option_case split: option.splits)
    then show ?thesis using latest_event_in es unfolding list_all_iff by metis
  qed
  then have "(case supersedes of None \<Rightarrow> Inr ()
      | Some named \<Rightarrow> if load_result (ledger_with ids es) named = None then Inl (NoSuchResult named) else Inr ()) = Inr ()"
    by (cases supersedes) (simp_all add: sample_load)
  moreover have "\<not> list_ex (\<lambda>x. cv_at x = t \<and> event_name x = (ScalarShape, i)) es"
    using assms(1) by (auto simp: list_all_iff list_ex_iff)
  then have "insert_event (ledger_with ids es) (sample_event i t supersedes) = Inr (ledger_with ids (es @ [sample_event i t supersedes]))"
    by (simp add: insert_event_def ledger_with_def sample_event_def)
  ultimately show ?thesis
    using assms(2)
    by (cases "latest_event event_key es (instant_before t)")
      (simp_all add: activate_def sample_load sample_complete sample_gate sample_load_active [OF es] sample_event_def)
qed

lemmas latest_simps = latest_event_def instant_before_def sat_sub_i64_def sample_event_def shape_rank_def

lemma sample_turns:
  "activate (ledger_with [''A'', ''B''] []) ''A'' 1 None sample_request = Inr (ledger_with [''A'', ''B''] (take 1 turns))"
  "activate (ledger_with [''A'', ''B''] (take 1 turns)) ''B'' 2 (Some ''A'') sample_request =
     Inr (ledger_with [''A'', ''B''] (take 2 turns))"
  "activate (ledger_with [''A'', ''B''] (take 2 turns)) ''A'' 3 (Some ''B'') sample_request =
     Inr (ledger_with [''A'', ''B''] turns)"
  by (subst sample_activate; simp add: turns_def latest_simps)+

definition sample_operations :: "ledger_operation list" where
  "sample_operations =
     [RecordExperiment ''e1'', InsertResult (sample_calibration ''A'') [''e1''], InsertResult (sample_calibration ''B'') [''e1''],
      Activate ''A'' 1 None sample_request, Activate ''B'' 2 (Some ''A'') sample_request]"

lemma sample_ledger_run: "ledger_run empty_ledger sample_operations (ledger_with [''A'', ''B''] (take 2 turns))"
proof -
  have "empty_ledger\<lparr>cl_experiments := cl_experiments empty_ledger @ [''e1'']\<rparr> = ledger_with [] []"
    by (simp add: empty_ledger_def ledger_with_def)
  then have "ledger_does empty_ledger (RecordExperiment ''e1'') (ledger_with [] [])"
    using experiment_recorded [of empty_ledger "''e1''"] by simp
  from run_on [OF run_nothing this]
  have "ledger_run empty_ledger (take 1 sample_operations) (ledger_with [] [])" by (simp add: sample_operations_def)
  moreover have "ledger_does (ledger_with [] []) (InsertResult (sample_calibration ''A'') [''e1'']) (ledger_with [''A''] [])"
    by (rule result_inserted, subst sample_insert) simp_all
  ultimately have "ledger_run empty_ledger (take 2 sample_operations) (ledger_with [''A''] [])"
    by (auto simp: sample_operations_def dest: run_on)
  moreover have "ledger_does (ledger_with [''A''] []) (InsertResult (sample_calibration ''B'') [''e1'']) (ledger_with [''A'', ''B''] [])"
    by (rule result_inserted, subst sample_insert) simp_all
  ultimately have "ledger_run empty_ledger (take 3 sample_operations) (ledger_with [''A'', ''B''] [])"
    by (auto simp: sample_operations_def dest: run_on)
  moreover have "ledger_does (ledger_with [''A'', ''B''] []) (Activate ''A'' 1 None sample_request)
      (ledger_with [''A'', ''B''] (take 1 turns))"
    by (rule activated [OF _ sample_turns(1)]) (simp add: is_i64_def)
  ultimately have "ledger_run empty_ledger (take 4 sample_operations) (ledger_with [''A'', ''B''] (take 1 turns))"
    by (auto simp: sample_operations_def dest: run_on)
  moreover have "ledger_does (ledger_with [''A'', ''B''] (take 1 turns)) (Activate ''B'' 2 (Some ''A'') sample_request)
      (ledger_with [''A'', ''B''] (take 2 turns))"
    by (rule activated [OF _ sample_turns(2)]) (simp add: is_i64_def)
  ultimately show ?thesis by (auto simp: sample_operations_def dest: run_on)
qed

lemma sample_runs_to:
  "ledger_step\<^sup>*\<^sup>* empty_ledger (ledger_with [''A'', ''B''] (take 2 turns))"
  "ledger_step (ledger_with [''A'', ''B''] (take 2 turns)) (ledger_with [''A'', ''B''] turns)"
proof -
  show "ledger_step\<^sup>*\<^sup>* empty_ledger (ledger_with [''A'', ''B''] (take 2 turns))" by (rule ledger_run_steps [OF sample_ledger_run])
  have "ledger_does (ledger_with [''A'', ''B''] (take 2 turns)) (Activate ''A'' 3 (Some ''B'') sample_request)
      (ledger_with [''A'', ''B''] turns)"
    by (rule activated [OF _ sample_turns(3)]) (simp add: is_i64_def)
  then show "ledger_step (ledger_with [''A'', ''B''] (take 2 turns)) (ledger_with [''A'', ''B''] turns)"
    by (auto simp: ledger_step_def)
qed

lemma sample_scope_turns:
  "scope_events (ledger_with [''A'', ''B''] turns) sample_scope = turns"
  "scope_events (ledger_with [''A'', ''B''] (take 2 turns)) sample_scope = take 2 turns"
  by (rule sample_scope_events; simp add: turns_def sample_event_def)+

lemma turns_in_order: "in_order event_key turns" "in_order event_key (take 2 turns)"
  by (simp_all add: in_order_def turns_def sample_event_def)

text \<open>
  A calibration activated again after another one took its place is in force, and the commands that judge the active
  calibration call it current; the commands that list calibrations call it superseded, because its earlier
  replacement is still recorded.
\<close>

lemma returned_calibration_reads_superseded:
  defines "l \<equiv> ledger_with [''A'', ''B''] turns"
  shows "load_active_calibration l sample_scope 10 = Inr (Some (ScalarActive (sample_calibration ''A'')))"
    "calibrate_lifecycle_state l ''A'' = LifecycleSuperseded"
    "stored_window_calibration_health l (sample_calibration ''A'') None 1000 10 = Current"
    "calibrate_health_label l (sample_calibration ''A'') 1000 10 = ''superseded''"
proof -
  show active: "load_active_calibration l sample_scope 10 = Inr (Some (ScalarActive (sample_calibration ''A'')))"
    unfolding l_def by (subst sample_load_active; simp add: turns_def latest_simps)
  show state: "calibrate_lifecycle_state l ''A'' = LifecycleSuperseded"
    by (simp add: calibrate_lifecycle_state_def activation_events_for_def is_superseded_def l_def ledger_with_def turns_def
        sample_event_def sort_key_Nil)
  have costs: "\<not> model_superseded (cl_costs l) ''cm''" by (simp add: l_def ledger_with_def model_superseded_def)
  have due: "review_due_at (sample_calibration ''A'') 1000 = 1000"
    by (simp add: review_due_at_def review_instant_def sat_add_i64_def sample_calibration_def)
  show "stored_window_calibration_health l (sample_calibration ''A'') None 1000 10 = Current"
    by (simp add: stored_window_calibration_health_def compute_health_def compute_per_kind_health_def applies_def own_facts_def
        costs due)
  show "calibrate_health_label l (sample_calibration ''A'') 1000 10 = ''superseded''"
    by (simp add: calibrate_health_label_def compute_health_def compute_per_kind_health_def applies_def state)
qed

theorem in_force_passed_the_gate_witness:
  "\<exists>rq e. ((ScalarShape, ''B''), 2, rq) \<in> set (activation_calls sample_operations) \<and>
     latest_event event_key (take 2 turns) 10 = Some e \<and> rq_contamination rq = [] \<and>
     judges_recorded rq (scalar_validation (sample_calibration ''B''))"
proof -
  let ?l = "ledger_with [''A'', ''B''] (take 2 turns)"
  have "load_active_calibration ?l sample_scope 10 = Inr (Some (ScalarActive (sample_calibration ''B'')))"
    by (subst sample_load_active; simp add: turns_def latest_simps)
  then obtain at_time rq e where call: "(((ScalarShape, ''B''), at_time, rq), e) \<in> set (zip (activation_calls sample_operations) (cl_events ?l))"
      "latest_event event_key (take 2 turns) 10 = Some e" "rq_contamination rq = []"
      "judges_recorded rq (scalar_validation (sample_calibration ''B''))"
    using in_force_passed_the_gate [OF sample_ledger_run, of sample_scope 10]
    by (auto simp: active_name_def recorded_of_def sample_scope_turns)
  then have "at_time = 2" by (auto simp: sample_operations_def ledger_with_def turns_def)
  then show ?thesis using call set_zip_leftD [OF call(1)] by blast
qed

theorem calibrations_form_one_chain_witness:
  "load_active_calibration (ledger_with [''A'', ''B''] turns) sample_scope 2 =
     load_active_calibration (ledger_with [''A'', ''B''] (take 2 turns)) sample_scope 2"
proof -
  have "ledger_step\<^sup>*\<^sup>* (ledger_with [''A'', ''B''] (take 2 turns)) (ledger_with [''A'', ''B''] turns)"
    using sample_runs_to(2) by blast
  then show ?thesis
    using calibrations_form_one_chain [OF sample_runs_to(1), of "ledger_with [''A'', ''B''] turns" sample_scope 2]
    by (simp add: sample_scope_turns turns_in_order) (simp add: turns_def sample_event_def)
qed

theorem shown_active_is_in_force_witness:
  "load_active_calibration (ledger_with [''A'', ''B''] (take 2 turns)) sample_scope i64_max =
     Inr (Some (ScalarActive (sample_calibration ''B'')))"
proof -
  let ?l = "ledger_with [''A'', ''B''] (take 2 turns)"
  have "calibrate_lifecycle_state ?l ''B'' = LifecycleActive"
    by (simp add: calibrate_lifecycle_state_def activation_events_for_def is_superseded_def ledger_with_def turns_def
        sample_event_def sort_key_Nil)
  moreover have "load_result ?l ''B'' = Some (sample_calibration ''B'')" by (simp add: sample_load)
  ultimately show ?thesis
    using shown_active_is_in_force [OF sample_runs_to(1), of "''B''" "sample_calibration ''B''"]
    by (simp add: sample_scope_turns turns_in_order)
qed

end
