(* ===== verification/Task_History.thy ===== *)
theory Task_History
  imports Attribution_Quality Evidence Windows
begin

text \<open>
  \<open>src/advice/historical_distribution.rs\<close>: which completed tasks enter the reference distribution, the quantiles
  read off it and the coverage of the group. A panic (a negative sum, an empty sample, a reversed range) is
  \<open>None\<close>. The text of a report formats floats and is not
  modelled; the attribution floor is its parts per million.
\<close>

section \<open>Settings\<close>

type_synonym percentile = nat

definition percentile_new :: "nat \<Rightarrow> percentile option" where
  "percentile_new v = (if v \<le> 100 then Some v else None)"

datatype quantile_method = NearestRank

definition quantile_as_str :: "quantile_method \<Rightarrow> string" where
  "quantile_as_str m = (case m of NearestRank \<Rightarrow> ''nearest-rank'')"

definition quantile_parse :: "string \<Rightarrow> quantile_method option" where
  "quantile_parse raw = (if raw = ''nearest-rank'' then Some NearestRank else None)"

record history_config =
  hc_central_low :: percentile
  hc_central_high :: percentile
  hc_upper :: percentile
  hc_min_samples :: nat
  hc_method :: quantile_method
  hc_floor :: u32

section \<open>Eligibility\<close>

datatype task_pricing = Priced credits "credits quality" | UnknownTokenComponents

record 'k history_sample =
  hs_group :: 'k
  hs_pricing :: task_pricing
  hs_account :: evidence_class
  hs_segmentation_complete :: bool

datatype ineligibility = NoPrice | NoAccount | IncompleteSegmentation | EstimatedTokens

definition ineligibility_as_str :: "ineligibility \<Rightarrow> string" where
  "ineligibility_as_str r =
     (case r of
        NoPrice \<Rightarrow> ''unknown_token_components''
      | NoAccount \<Rightarrow> ''unknown_account_attribution''
      | IncompleteSegmentation \<Rightarrow> ''incomplete_segmentation''
      | EstimatedTokens \<Rightarrow> ''estimated_tokens'')"

definition ineligibility_reason :: "'k history_sample \<Rightarrow> ineligibility option" where
  "ineligibility_reason s =
     (case hs_pricing s of
        UnknownTokenComponents \<Rightarrow> Some NoPrice
      | Priced _ quality \<Rightarrow>
          if hs_account s = Unattributed then Some NoAccount
          else if \<not> hs_segmentation_complete s then Some IncompleteSegmentation
          else (case quality of Measured \<Rightarrow> None | _ \<Rightarrow> Some EstimatedTokens))"

definition priced_credits :: "'k history_sample \<Rightarrow> credits option" where
  "priced_credits s = (case hs_pricing s of Priced c _ \<Rightarrow> Some c | UnknownTokenComponents \<Rightarrow> None)"

record exclusion_counts =
  xc_no_price :: nat
  xc_no_account :: nat
  xc_incomplete :: nat
  xc_estimated :: nat

definition no_exclusions :: exclusion_counts where
  "no_exclusions = \<lparr>xc_no_price = 0, xc_no_account = 0, xc_incomplete = 0, xc_estimated = 0\<rparr>"

definition record_exclusion :: "exclusion_counts \<Rightarrow> ineligibility \<Rightarrow> exclusion_counts" where
  "record_exclusion x r =
     (case r of
        NoPrice \<Rightarrow> x\<lparr>xc_no_price := xc_no_price x + 1\<rparr>
      | NoAccount \<Rightarrow> x\<lparr>xc_no_account := xc_no_account x + 1\<rparr>
      | IncompleteSegmentation \<Rightarrow> x\<lparr>xc_incomplete := xc_incomplete x + 1\<rparr>
      | EstimatedTokens \<Rightarrow> x\<lparr>xc_estimated := xc_estimated x + 1\<rparr>)"

definition exclusion_total :: "exclusion_counts \<Rightarrow> nat" where
  "exclusion_total x = xc_no_price x + xc_no_account x + xc_incomplete x + xc_estimated x"

section \<open>Reports\<close>

record attribution_coverage =
  ac_fraction :: attribution_fraction
  ac_floor :: u32

definition is_below_floor :: "attribution_coverage \<Rightarrow> bool" where
  "is_below_floor c \<longleftrightarrow> is_below (ac_fraction c) (ac_floor c)"

record selection_period =
  sp_start :: utc_timestamp
  sp_end :: utc_timestamp

record credit_distribution =
  cd_median :: credits
  cd_central :: "credits interval"
  cd_central_low :: percentile
  cd_central_high :: percentile
  cd_upper :: credits
  cd_upper_percentile :: percentile
  cd_method :: quantile_method

datatype distribution_verdict = Distribution credit_distribution | InsufficientHistory nat

record 'k group_report =
  gr_group :: 'k
  gr_period :: selection_period
  gr_sample_count :: nat
  gr_exclusions :: exclusion_counts
  gr_attribution :: attribution_coverage
  gr_verdict :: distribution_verdict

text \<open>The position \<open>ceil (p / 100 * n)\<close>, clamped to the sample.\<close>

definition nearest_rank :: "credits list \<Rightarrow> percentile \<Rightarrow> credits option" where
  "nearest_rank ascending p =
     (let n = length ascending
      in if n = 0 then None else Some (ascending ! (min (max ((p * n + 99) div 100) 1) n - 1)))"

definition non_negative_micros :: "i64 \<Rightarrow> u64 option" where
  "non_negative_micros m = (if m < 0 then None else Some (nat m))"

record group_accumulator =
  ga_included :: "credits list"
  ga_exclusions :: exclusion_counts
  ga_numerator :: i64
  ga_denominator :: i64

definition empty_accumulator :: group_accumulator where
  "empty_accumulator = \<lparr>ga_included = [], ga_exclusions = no_exclusions, ga_numerator = 0, ga_denominator = 0\<rparr>"

definition accumulate :: "'k history_sample \<Rightarrow> group_accumulator \<Rightarrow> group_accumulator" where
  "accumulate s a =
     (case (ineligibility_reason s, priced_credits s) of
        (None, None) \<Rightarrow> a
      | (None, Some c) \<Rightarrow>
          a\<lparr>ga_included := ga_included a @ [c], ga_numerator := wrap_i64 (ga_numerator a + credit_micros c),
            ga_denominator := wrap_i64 (ga_denominator a + credit_micros c)\<rparr>
      | (Some r, None) \<Rightarrow> a\<lparr>ga_exclusions := record_exclusion (ga_exclusions a) r\<rparr>
      | (Some r, Some c) \<Rightarrow>
          a\<lparr>ga_exclusions := record_exclusion (ga_exclusions a) r,
            ga_denominator := wrap_i64 (ga_denominator a + credit_micros c)\<rparr>)"

definition group_verdict :: "history_config \<Rightarrow> credits list \<Rightarrow> distribution_verdict option" where
  "group_verdict config included =
     (if length included < hc_min_samples config then Some (InsufficientHistory (hc_min_samples config))
      else (case (nearest_rank included 50, nearest_rank included (hc_central_low config),
                  nearest_rank included (hc_central_high config), nearest_rank included (hc_upper config)) of
              (Some median, Some low, Some high, Some up) \<Rightarrow>
                (case interval_new low high of
                   Inl _ \<Rightarrow> None
                 | Inr range_of \<Rightarrow>
                     Some (Distribution
                       \<lparr>cd_median = median, cd_central = range_of, cd_central_low = hc_central_low config,
                        cd_central_high = hc_central_high config, cd_upper = up,
                        cd_upper_percentile = hc_upper config, cd_method = hc_method config\<rparr>))
            | _ \<Rightarrow> None))"

definition group_report_of :: "selection_period \<Rightarrow> history_config \<Rightarrow> 'k \<Rightarrow> group_accumulator \<Rightarrow> 'k group_report option" where
  "group_report_of period config g a =
     (let included = sort (ga_included a)
      in case (non_negative_micros (ga_numerator a), non_negative_micros (ga_denominator a)) of
           (Some numerator, Some denominator) \<Rightarrow>
             map_option (\<lambda>verdict.
               \<lparr>gr_group = g, gr_period = period, gr_sample_count = length included, gr_exclusions = ga_exclusions a,
                gr_attribution = \<lparr>ac_fraction = \<lparr>af_numerator = numerator, af_denominator = denominator\<rparr>,
                                  ac_floor = hc_floor config\<rparr>,
                gr_verdict = verdict\<rparr>) (group_verdict config included)
         | _ \<Rightarrow> None)"

definition by_group :: "'k::linorder history_sample list \<Rightarrow> ('k, group_accumulator) omap" where
  "by_group samples = foldl (\<lambda>m s. om_upd (hs_group s) empty_accumulator (accumulate s) m) [] samples"

definition build_group_reports ::
    "'k::linorder history_sample list \<Rightarrow> selection_period \<Rightarrow> history_config \<Rightarrow> ('k, 'k group_report) omap option" where
  "build_group_reports samples period config =
     those (map (\<lambda>(g, a). map_option (Pair g) (group_report_of period config g a)) (by_group samples))"

section \<open>Quantiles\<close>

text \<open>The least value of the sample that at least \<open>p\<close> percent of it do not exceed.\<close>

definition is_quantile :: "percentile \<Rightarrow> credits list \<Rightarrow> credits \<Rightarrow> bool" where
  "is_quantile p xs v \<longleftrightarrow>
     v \<in> set xs \<and> p * length xs \<le> 100 * length (filter (\<lambda>x. x \<le> v) xs) \<and>
     (\<forall>w\<in>set xs. p * length xs \<le> 100 * length (filter (\<lambda>x. x \<le> w) xs) \<longrightarrow> v \<le> w)"

lemma is_quantile_mset: "mset xs = mset ys \<Longrightarrow> is_quantile p xs v = is_quantile p ys v"
  unfolding is_quantile_def by (metis mset_filter mset_eq_setD size_mset)

lemma count_up_to:
  fixes xs :: "'a::linorder list"
  assumes "sorted xs" "i < length xs"
  shows "Suc i \<le> length (filter (\<lambda>x. x \<le> xs ! i) xs)"
    and "w < xs ! i \<Longrightarrow> length (filter (\<lambda>x. x \<le> w) xs) \<le> i"
proof -
  have "filter (\<lambda>x. x \<le> xs ! i) (take (Suc i) xs) = take (Suc i) xs"
    using assms by (auto simp: filter_id_conv in_set_conv_nth sorted_nth_mono)
  then have "Suc i \<le> length (filter (\<lambda>x. x \<le> xs ! i) (take (Suc i) xs @ drop (Suc i) xs))"
    using assms(2) by (simp only: filter_append length_append) simp
  then show "Suc i \<le> length (filter (\<lambda>x. x \<le> xs ! i) xs)" by simp
  assume "w < xs ! i"
  then have "filter (\<lambda>x. x \<le> w) (drop i xs) = []"
    using assms(1) by (fastforce simp: filter_empty_conv in_set_conv_nth not_le intro: less_le_trans sorted_nth_mono)
  then have "length (filter (\<lambda>x. x \<le> w) (take i xs @ drop i xs)) \<le> i"
    using length_filter_le [of "\<lambda>x. x \<le> w" "take i xs"] by (simp only: filter_append length_append) simp
  then show "length (filter (\<lambda>x. x \<le> w) xs) \<le> i" by simp
qed

lemma nearest_rank_quantile:
  assumes "sorted xs" "xs \<noteq> []" "p \<le> 100"
  shows "\<exists>v. nearest_rank xs p = Some v \<and> is_quantile p xs v"
proof -
  let ?n = "length xs" let ?k = "max ((p * length xs + 99) div 100) 1"
  have n: "1 \<le> ?n" using assms(2) by (cases xs) simp_all
  have "p * ?n \<le> 100 * ?n" using assms(3) by simp
  then have kn: "?k \<le> ?n" using n by linarith
  have cover: "p * ?n \<le> 100 * m \<longleftrightarrow> (p * length xs + 99) div 100 \<le> m" for m by linarith
  let ?v = "xs ! (?k - 1)"
  have i: "?k - 1 < ?n" using kn n by linarith
  have "p * ?n \<le> 100 * length (filter (\<lambda>x. x \<le> ?v) xs)"
    unfolding cover using count_up_to(1) [OF assms(1) i] by linarith
  moreover have "?v \<le> w" if "p * ?n \<le> 100 * length (filter (\<lambda>x. x \<le> w) xs)" "w \<in> set xs" for w
  proof (rule ccontr)
    assume "\<not> ?v \<le> w"
    then have "length (filter (\<lambda>x. x \<le> w) xs) \<le> ?k - 1" using count_up_to(2) [OF assms(1) i] by (simp add: not_le)
    moreover have "filter (\<lambda>x. x \<le> w) xs \<noteq> []" using that(2) by (auto simp: filter_empty_conv)
    then have "1 \<le> length (filter (\<lambda>x. x \<le> w) xs)" by (cases "filter (\<lambda>x. x \<le> w) xs") simp_all
    ultimately show False using that(1) unfolding cover by linarith
  qed
  ultimately have "is_quantile p xs ?v" using i by (simp add: is_quantile_def)
  moreover have "nearest_rank xs p = Some ?v"
    using kn assms(2) by (simp add: nearest_rank_def Let_def min_absorb1)
  ultimately show ?thesis by blast
qed

lemma nearest_rank_mono:
  assumes "sorted xs" "nearest_rank xs p = Some v" "nearest_rank xs q = Some w" "p \<le> q"
  shows "v \<le> w"
proof -
  have ranks: "(p * length xs + 99) div 100 \<le> (q * length xs + 99) div 100"
    using assms(4) by (intro div_le_mono add_right_mono mult_right_mono) simp_all
  define i j where "i = min (max ((p * length xs + 99) div 100) 1) (length xs) - 1"
    and "j = min (max ((q * length xs + 99) div 100) 1) (length xs) - 1"
  have "i \<le> j" unfolding i_def j_def using ranks by (intro diff_le_mono min.mono max.mono) simp_all
  moreover have "xs \<noteq> []" "v = xs ! i" "w = xs ! j"
    using assms(2,3) by (auto simp: nearest_rank_def Let_def i_def j_def split: if_splits)
  moreover from this have "j < length xs" by (cases xs) (auto simp: j_def)
  ultimately show ?thesis using sorted_nth_mono [OF assms(1)] by simp
qed

section \<open>What a group accumulates\<close>

definition group_of :: "'k \<Rightarrow> 'k history_sample list \<Rightarrow> 'k history_sample list" where
  "group_of g samples = filter (\<lambda>s. hs_group s = g) samples"

definition eligible :: "'k history_sample \<Rightarrow> bool" where
  "eligible s \<longleftrightarrow> ineligibility_reason s = None"

definition cost_of :: "'k history_sample \<Rightarrow> i64" where
  "cost_of s = (case priced_credits s of None \<Rightarrow> 0 | Some c \<Rightarrow> credit_micros c)"

definition reference_costs :: "'k \<Rightarrow> 'k history_sample list \<Rightarrow> credits list" where
  "reference_costs g samples = map (\<lambda>s. Credits (cost_of s)) (filter eligible (group_of g samples))"

fun excluded_for :: "exclusion_counts \<Rightarrow> ineligibility \<Rightarrow> nat" where
  "excluded_for x NoPrice = xc_no_price x"
| "excluded_for x NoAccount = xc_no_account x"
| "excluded_for x IncompleteSegmentation = xc_incomplete x"
| "excluded_for x EstimatedTokens = xc_estimated x"

lemma eligible_priced: "eligible s \<Longrightarrow> priced_credits s = Some (Credits (cost_of s))"
  by (auto simp: eligible_def ineligibility_reason_def priced_credits_def cost_of_def split: task_pricing.splits)

lemma unpriced_excluded: "priced_credits s = None \<Longrightarrow> ineligibility_reason s = Some NoPrice \<and> cost_of s = 0"
  by (auto simp: ineligibility_reason_def priced_credits_def cost_of_def split: task_pricing.splits)

lemma priced_cost: "priced_credits s = Some c \<Longrightarrow> credit_micros c = cost_of s"
  by (simp add: cost_of_def)

lemma excluded_for_record: "excluded_for (record_exclusion x r) q = excluded_for x q + (if q = r then 1 else 0)"
  by (cases q; cases r) (simp_all add: record_exclusion_def)

abbreviation accumulated :: "'k history_sample list \<Rightarrow> group_accumulator" where
  "accumulated xs \<equiv> foldl (\<lambda>a s. accumulate s a) empty_accumulator xs"

lemma accumulated_parts:
  "ga_included (accumulated xs) = map (\<lambda>s. Credits (cost_of s)) (filter eligible xs)"
  "excluded_for (ga_exclusions (accumulated xs)) r = length (filter (\<lambda>s. ineligibility_reason s = Some r) xs)"
  "ga_numerator (accumulated xs) = wrap_i64 (sum_list (map cost_of (filter eligible xs)))"
  "ga_denominator (accumulated xs) = wrap_i64 (sum_list (map cost_of xs))"
proof (induction xs rule: rev_induct)
  case Nil
  case 1 show ?case by (simp add: empty_accumulator_def)
  case 2 show ?case by (cases r) (simp_all add: empty_accumulator_def no_exclusions_def)
  case 3 show ?case by (simp add: empty_accumulator_def wrap_i64_id is_i64_def)
  case 4 show ?case by (simp add: empty_accumulator_def wrap_i64_id is_i64_def)
next
  case (snoc s xs)
  have split: "eligible s \<and> priced_credits s = Some (Credits (cost_of s)) \<and> ineligibility_reason s = None \<or>
    \<not> eligible s \<and> priced_credits s = Some (Credits (cost_of s)) \<and> (\<exists>q. ineligibility_reason s = Some q) \<or>
    \<not> eligible s \<and> priced_credits s = None \<and> ineligibility_reason s = Some NoPrice \<and> cost_of s = 0"
    using eligible_priced [of s] unpriced_excluded [of s] by (auto simp: eligible_def cost_of_def split: option.split)
  case 1 show ?case using split snoc(1) by (elim disjE conjE exE) (simp_all add: accumulate_def)
  case 2 show ?case using split snoc(2) by (elim disjE conjE exE) (simp_all add: accumulate_def excluded_for_record)
  case 3 show ?case using split snoc(3)
    by (elim disjE conjE exE) (simp_all add: accumulate_def wrap_i64_add_left)
  case 4 show ?case using split snoc(4)
    by (elim disjE conjE exE) (simp_all add: accumulate_def wrap_i64_add_left)
qed

lemma by_group_get:
  "om_get (by_group samples) g = (if group_of g samples = [] then None else Some (accumulated (group_of g samples)))"
  by (induction samples rule: rev_induct) (auto simp: by_group_def group_of_def)

lemma by_group_ok: "om_ok (by_group samples)"
  unfolding by_group_def by (induction samples rule: rev_induct) simp_all

section \<open>Every task is accounted for, and the references are quantiles\<close>

definition history_config_ok :: "history_config \<Rightarrow> bool" where
  "history_config_ok hc \<longleftrightarrow>
     hc_central_low hc < hc_central_high hc \<and> hc_central_high hc \<le> hc_upper hc \<and> hc_upper hc \<le> 100 \<and> 0 < hc_min_samples hc"

text \<open>Costs are not negative and their sum fits the machine.\<close>

definition costs_ok :: "'k history_sample list \<Rightarrow> bool" where
  "costs_ok samples \<longleftrightarrow> list_all (\<lambda>s. 0 \<le> cost_of s) samples \<and> sum_list (map cost_of samples) \<le> i64_max"

lemma sum_filter_le:
  "list_all (\<lambda>s. 0 \<le> f s) xs \<Longrightarrow> 0 \<le> sum_list (map f (filter P xs)) \<and> sum_list (map f (filter P xs)) \<le> (sum_list (map f xs) :: int)"
  by (induction xs) auto

lemma costs_ok_group: "costs_ok samples \<Longrightarrow> costs_ok (group_of g samples)"
  using sum_filter_le [of cost_of samples "\<lambda>s. hs_group s = g"] by (auto simp: costs_ok_def group_of_def list_all_iff)

lemma accumulated_sums:
  assumes "costs_ok xs"
  shows "ga_numerator (accumulated xs) = sum_list (map cost_of (filter eligible xs))"
    "ga_denominator (accumulated xs) = sum_list (map cost_of xs)"
    "0 \<le> ga_numerator (accumulated xs)" "ga_numerator (accumulated xs) \<le> ga_denominator (accumulated xs)"
  using sum_filter_le [of cost_of xs eligible] assms
  by (simp_all add: accumulated_parts costs_ok_def wrap_i64_id is_i64_def)

lemma excluded_total:
  "length (filter eligible xs) + exclusion_total (ga_exclusions (accumulated xs)) = length xs"
proof -
  let ?count = "\<lambda>r. length (filter (\<lambda>s. ineligibility_reason s = Some r) xs)"
  have "exclusion_total (ga_exclusions (accumulated xs)) = ?count NoPrice + ?count NoAccount + ?count IncompleteSegmentation + ?count EstimatedTokens"
    by (simp add: exclusion_total_def flip: accumulated_parts(2))
  moreover have "length (filter eligible xs) + (?count NoPrice + ?count NoAccount + ?count IncompleteSegmentation + ?count EstimatedTokens) = length xs"
  proof (induction xs)
    case (Cons s xs)
    then show ?case by (cases "ineligibility_reason s"; cases "the (ineligibility_reason s)") (simp_all add: eligible_def)
  qed simp
  ultimately show ?thesis by simp
qed

lemma group_verdict_Some:
  assumes "history_config_ok hc" "sorted xs"
  shows "\<exists>v. group_verdict hc xs = Some v \<and>
    (case v of
       InsufficientHistory n \<Rightarrow> n = hc_min_samples hc \<and> length xs < n
     | Distribution d \<Rightarrow> hc_min_samples hc \<le> length xs \<and> interval_ok (cd_central d) \<and> is_quantile 50 xs (cd_median d) \<and>
         is_quantile (hc_central_low hc) xs (lower (cd_central d)) \<and>
         is_quantile (hc_central_high hc) xs (upper (cd_central d)) \<and> is_quantile (hc_upper hc) xs (cd_upper d))"
proof (cases "length xs < hc_min_samples hc")
  case False
  then have ne: "xs \<noteq> []" using assms(1) by (auto simp: history_config_ok_def)
  have p: "hc_central_low hc \<le> 100" "hc_central_high hc \<le> 100" "hc_upper hc \<le> 100" "hc_central_low hc \<le> hc_central_high hc"
    using assms(1) by (simp_all add: history_config_ok_def)
  obtain m where m: "nearest_rank xs 50 = Some m" "is_quantile 50 xs m"
    using nearest_rank_quantile [OF assms(2) ne, of 50] by auto
  obtain lo where lo: "nearest_rank xs (hc_central_low hc) = Some lo" "is_quantile (hc_central_low hc) xs lo"
    using nearest_rank_quantile [OF assms(2) ne p(1)] by blast
  obtain hi where hi: "nearest_rank xs (hc_central_high hc) = Some hi" "is_quantile (hc_central_high hc) xs hi"
    using nearest_rank_quantile [OF assms(2) ne p(2)] by blast
  obtain u where u: "nearest_rank xs (hc_upper hc) = Some u" "is_quantile (hc_upper hc) xs u"
    using nearest_rank_quantile [OF assms(2) ne p(3)] by blast
  have "lo \<le> hi" using nearest_rank_mono [OF assms(2) lo(1) hi(1) p(4)] .
  then show ?thesis
    using False m lo hi u by (simp add: group_verdict_def interval_new_def interval_ok_def not_less)
qed (simp add: group_verdict_def)

lemma those_map_Some: "(\<And>x. x \<in> set xs \<Longrightarrow> f x = Some (g x)) \<Longrightarrow> those (map f xs) = Some (map g xs)"
  by (induction xs) auto

lemma group_report_Some:
  assumes "history_config_ok hc" "costs_ok xs"
  shows "\<exists>v. group_verdict hc (sort (map (\<lambda>s. Credits (cost_of s)) (filter eligible xs))) = Some v \<and>
    group_report_of period hc g (accumulated xs) = Some
      \<lparr>gr_group = g, gr_period = period, gr_sample_count = length (filter eligible xs),
       gr_exclusions = ga_exclusions (accumulated xs),
       gr_attribution = \<lparr>ac_fraction = \<lparr>af_numerator = nat (sum_list (map cost_of (filter eligible xs))),
                          af_denominator = nat (sum_list (map cost_of xs))\<rparr>, ac_floor = hc_floor hc\<rparr>,
       gr_verdict = v\<rparr>"
proof -
  let ?included = "sort (map (\<lambda>s. Credits (cost_of s)) (filter eligible xs))"
  obtain v where v: "group_verdict hc ?included = Some v" using group_verdict_Some [OF assms(1), of ?included] by auto
  have "0 \<le> ga_numerator (accumulated xs)" "0 \<le> ga_denominator (accumulated xs)"
    using accumulated_sums(3,4) [OF assms(2)] by simp_all
  then show ?thesis
    using v accumulated_sums(1,2) [OF assms(2)]
    by (simp add: group_report_of_def Let_def non_negative_micros_def accumulated_parts(1))
qed

definition report_for :: "selection_period \<Rightarrow> history_config \<Rightarrow> 'k \<Rightarrow> 'k history_sample list \<Rightarrow> 'k group_report" where
  "report_for period hc g xs = the (group_report_of period hc g (accumulated xs))"

lemma reports_built:
  assumes "history_config_ok hc" "costs_ok samples"
  shows "build_group_reports samples period hc = Some (map (\<lambda>(g, a). (g, report_for period hc g (group_of g samples))) (by_group samples))"
  unfolding build_group_reports_def
proof (rule those_map_Some)
  fix x assume "x \<in> set (by_group samples)"
  moreover obtain g a where x: "x = (g, a)" by (cases x)
  ultimately have "om_get (by_group samples) g = Some a" using om_ok_get_iff [OF by_group_ok] by blast
  then have a: "a = accumulated (group_of g samples)" by (simp add: by_group_get split: if_splits)
  have "group_report_of period hc g a \<noteq> None"
    using group_report_Some [OF assms(1) costs_ok_group [OF assms(2), of g], of period g] a by auto
  then show "(case x of (g, a) \<Rightarrow> map_option (Pair g) (group_report_of period hc g a)) =
      Some (case x of (g, a) \<Rightarrow> (g, report_for period hc g (group_of g samples)))"
    by (auto simp: x a report_for_def)
qed

lemma map_of_keyed: "map_of (map (\<lambda>(k, v). (k, f k)) m) j = map_option (\<lambda>_. f j) (map_of m j)"
  by (induction m) auto

lemma reports_get:
  assumes "history_config_ok hc" "costs_ok samples" "build_group_reports samples period hc = Some reports"
  shows "om_ok reports"
    "om_get reports g = (if group_of g samples = [] then None else Some (report_for period hc g (group_of g samples)))"
proof -
  have r: "reports = map (\<lambda>(g, a). (g, report_for period hc g (group_of g samples))) (by_group samples)"
    using reports_built [OF assms(1,2)] assms(3) by simp
  then have "map fst reports = map fst (by_group samples)" by (simp add: case_prod_unfold comp_def)
  then show "om_ok reports" using by_group_ok [of samples] by (simp add: om_ok_def)
  show "om_get reports g = (if group_of g samples = [] then None else Some (report_for period hc g (group_of g samples)))"
    unfolding r using by_group_get [of samples g] by (simp add: om_get_def map_of_keyed)
qed

lemma report_for_accounts:
  fixes xs :: "'k::linorder history_sample list" and g :: 'k and period :: selection_period
  assumes "history_config_ok hc" "costs_ok xs"
  defines "r \<equiv> report_for period hc g xs"
  shows "gr_group r = g" "gr_sample_count r = length (filter eligible xs)"
    "excluded_for (gr_exclusions r) reason = length (filter (\<lambda>s. ineligibility_reason s = Some reason) xs)"
    "length (filter eligible xs) + exclusion_total (gr_exclusions r) = length xs"
    "int (af_numerator (ac_fraction (gr_attribution r))) = sum_list (map cost_of (filter eligible xs))"
    "int (af_denominator (ac_fraction (gr_attribution r))) = sum_list (map cost_of xs)"
    "af_numerator (ac_fraction (gr_attribution r)) \<le> af_denominator (ac_fraction (gr_attribution r))"
  using group_report_Some [OF assms(1,2), of period g] excluded_total [of xs] accumulated_parts(2) [of xs reason]
    accumulated_sums [OF assms(2)]
  by (auto simp: r_def report_for_def)

text \<open>
  C31. With accepted settings and costs that are not negative and whose sum fits the machine the reports are built for
  exactly the groups that occur, and in each of them every completed task is either in the reference distribution or
  counted under the one reason that excludes it: the count of each reason is the number of the group's tasks with that
  reason. The attribution fraction is, to the microcredit, the cost of the tasks that entered over the cost of all
  priced ones.
\<close>

theorem history_accounts_for_every_task:
  assumes "history_config_ok hc" "costs_ok samples"
  shows "\<exists>reports. build_group_reports samples period hc = Some reports \<and> om_ok reports \<and>
    (\<forall>g. case om_get reports g of
           None \<Rightarrow> group_of g samples = []
         | Some r \<Rightarrow> group_of g samples \<noteq> [] \<and> gr_group r = g \<and>
             gr_sample_count r = length (filter eligible (group_of g samples)) \<and>
             (\<forall>reason. excluded_for (gr_exclusions r) reason =
                length (filter (\<lambda>s. ineligibility_reason s = Some reason) (group_of g samples))) \<and>
             gr_sample_count r + exclusion_total (gr_exclusions r) = length (group_of g samples) \<and>
             int (af_numerator (ac_fraction (gr_attribution r))) =
               sum_list (map cost_of (filter eligible (group_of g samples))) \<and>
             int (af_denominator (ac_fraction (gr_attribution r))) = sum_list (map cost_of (group_of g samples)) \<and>
             af_numerator (ac_fraction (gr_attribution r)) \<le> af_denominator (ac_fraction (gr_attribution r)))"
proof -
  obtain reports where reports: "build_group_reports samples period hc = Some reports"
    using reports_built [OF assms] by blast
  note accounts = report_for_accounts [OF assms(1) costs_ok_group [OF assms(2)], where period = period]
  show ?thesis
    by (rule exI [of _ reports]) (simp add: reports reports_get [OF assms reports] accounts)
qed

lemma reported_verdict:
  assumes "history_config_ok hc" "costs_ok samples" "build_group_reports samples period hc = Some reports"
    and "om_get reports g = Some r"
  shows "group_verdict hc (sort (reference_costs g samples)) = Some (gr_verdict r)"
proof -
  have "r = report_for period hc g (group_of g samples)"
    using assms(4) reports_get(2) [OF assms(1-3)] by (simp split: if_splits)
  then show ?thesis
    using group_report_Some [OF assms(1) costs_ok_group [OF assms(2), of g], of period g]
    by (auto simp: report_for_def reference_costs_def)
qed

lemma distribution_quantiles:
  assumes "history_config_ok hc" "costs_ok samples" "build_group_reports samples period hc = Some reports"
    and "om_get reports g = Some r"
    and "gr_verdict r = Distribution d"
  shows "hc_min_samples hc \<le> length (reference_costs g samples) \<and> interval_ok (cd_central d) \<and>
    is_quantile 50 (reference_costs g samples) (cd_median d) \<and>
    is_quantile (hc_central_low hc) (reference_costs g samples) (lower (cd_central d)) \<and>
    is_quantile (hc_central_high hc) (reference_costs g samples) (upper (cd_central d)) \<and>
    is_quantile (hc_upper hc) (reference_costs g samples) (cd_upper d)"
proof -
  have same: "is_quantile p (sort (reference_costs g samples)) c = is_quantile p (reference_costs g samples) c" for p c
    by (rule is_quantile_mset) simp
  show ?thesis
    using group_verdict_Some [OF assms(1), of "sort (reference_costs g samples)"] reported_verdict [OF assms(1-4)] assms(5)
    by (simp add: same)
qed

text \<open>
  C21. The references of a group are costs that tasks of it actually had: each is the least one that its percentage of the
  eligible tasks does not exceed, and the central range is ordered. Too few tasks give no reference at all.
\<close>

theorem references_are_quantiles:
  assumes "history_config_ok hc" "costs_ok samples" "build_group_reports samples period hc = Some reports"
    and "om_get reports g = Some r"
  shows "case gr_verdict r of
      InsufficientHistory n \<Rightarrow> n = hc_min_samples hc \<and> length (reference_costs g samples) < n
    | Distribution d \<Rightarrow> hc_min_samples hc \<le> length (reference_costs g samples) \<and> interval_ok (cd_central d) \<and>
        is_quantile 50 (reference_costs g samples) (cd_median d) \<and>
        is_quantile (hc_central_low hc) (reference_costs g samples) (lower (cd_central d)) \<and>
        is_quantile (hc_central_high hc) (reference_costs g samples) (upper (cd_central d)) \<and>
        is_quantile (hc_upper hc) (reference_costs g samples) (cd_upper d)"
proof (cases "gr_verdict r")
  case (InsufficientHistory n)
  then show ?thesis using reported_verdict [OF assms] by (auto simp: group_verdict_def split: if_splits option.splits sum.splits)
next
  case (Distribution d)
  then show ?thesis using distribution_quantiles [OF assms] by simp
qed

definition history_example :: "string history_sample list" where
  "history_example =
     map (\<lambda>(c, q). \<lparr>hs_group = ''bug'', hs_pricing = Priced (Credits c) q, hs_account = ExplicitProviderIdentity,
                   hs_segmentation_complete = True\<rparr>)
       [(30, Measured), (10, Measured), (99, Estimated {} None), (20, Measured)]"

definition config_example :: history_config where
  "config_example =
     \<lparr>hc_central_low = 25, hc_central_high = 75, hc_upper = 90, hc_min_samples = 3, hc_method = NearestRank, hc_floor = 800000\<rparr>"

definition period_example :: selection_period where
  "period_example = \<lparr>sp_start = 0, sp_end = 1\<rparr>"

lemma history_example_ok: "history_config_ok config_example" "costs_ok history_example"
  by (simp_all add: history_config_ok_def config_example_def costs_ok_def history_example_def cost_of_def priced_credits_def)

lemma history_example_group: "group_of ''bug'' history_example = history_example"
  by (simp add: group_of_def history_example_def)

lemma history_example_costs: "reference_costs ''bug'' history_example = [Credits 30, Credits 10, Credits 20]"
  by (simp add: reference_costs_def history_example_group)
    (simp add: history_example_def eligible_def ineligibility_reason_def cost_of_def priced_credits_def)

theorem history_accounts_for_every_task_witness:
  "\<exists>reports r. build_group_reports history_example period_example config_example = Some reports \<and> om_get reports ''bug'' = Some r \<and>
     gr_sample_count r = 3 \<and> excluded_for (gr_exclusions r) EstimatedTokens = 1 \<and>
     af_numerator (ac_fraction (gr_attribution r)) = 60 \<and> af_denominator (ac_fraction (gr_attribution r)) = 159"
proof -
  have counts: "length (filter eligible history_example) = 3" "sum_list (map cost_of (filter eligible history_example)) = 60"
      "sum_list (map cost_of history_example) = 159" "history_example \<noteq> []"
      "length (filter (\<lambda>s. ineligibility_reason s = Some EstimatedTokens) history_example) = 1"
    by (simp_all add: history_example_def eligible_def ineligibility_reason_def cost_of_def priced_credits_def)
  show ?thesis
    using history_accounts_for_every_task [OF history_example_ok, of period_example]
  proof (elim exE conjE, goal_cases)
    case (1 reports)
    note spec [OF 1(3), of "''bug''"]
    then obtain r where "om_get reports ''bug'' = Some r" "gr_sample_count r = 3"
        "excluded_for (gr_exclusions r) EstimatedTokens = 1" "int (af_numerator (ac_fraction (gr_attribution r))) = 60"
        "int (af_denominator (ac_fraction (gr_attribution r))) = 159"
      using counts by (cases "om_get reports ''bug''") (simp_all add: history_example_group del: excluded_for.simps)
    then show ?case using 1(1) by auto
  qed
qed

theorem references_are_quantiles_witness:
  "\<exists>reports r. build_group_reports history_example period_example config_example = Some reports \<and> om_get reports ''bug'' = Some r \<and>
     (case gr_verdict r of InsufficientHistory n \<Rightarrow> False | Distribution d \<Rightarrow> is_quantile 50 [Credits 30, Credits 10, Credits 20] (cd_median d))"
proof -
  obtain reports where reports: "build_group_reports history_example period_example config_example = Some reports"
    using reports_built [OF history_example_ok] by blast
  then obtain r where r: "om_get reports ''bug'' = Some r"
    using reports_get(2) [OF history_example_ok reports, of "''bug''"] by (simp add: history_example_group) (auto simp: history_example_def)
  show ?thesis
    using references_are_quantiles [OF history_example_ok reports r] reports r
    by (auto simp: history_example_costs config_example_def split: distribution_verdict.splits)
qed

end
