(* ===== verification/Can_Run_Verdict.thy ===== *)
theory Can_Run_Verdict
  imports Task_History "HOL-Library.Product_Lexorder"
begin

text \<open>
  \<open>src/advice/verdict.rs\<close>: the limiting window of a task and the verdict over its headroom. The multiple of the
  upper reference is a float in the configuration; the rounded product with it is the function the configuration
  carries here, and no law of it is assumed. The text and the JSON form are not modelled.
\<close>

section \<open>The vocabulary\<close>

datatype headroom_bound = LowBound

definition bound_as_str :: "headroom_bound \<Rightarrow> string" where
  "bound_as_str b = (case b of LowBound \<Rightarrow> ''low'')"

definition bound_parse :: "string \<Rightarrow> headroom_bound option" where
  "bound_parse raw = (if raw = ''low'' then Some LowBound else None)"

record can_run_config =
  vc_labels_enabled :: bool
  vc_ample_product :: "i64 \<Rightarrow> i64"
  vc_bound :: headroom_bound

datatype verdict_label = Ample | Marginal | Insufficient | InsufficientEvidenceLabel | UnknownLabel

definition label_as_str :: "verdict_label \<Rightarrow> string" where
  "label_as_str l =
     (case l of
        Ample \<Rightarrow> ''AMPLE''
      | Marginal \<Rightarrow> ''MARGINAL''
      | Insufficient \<Rightarrow> ''INSUFFICIENT''
      | InsufficientEvidenceLabel \<Rightarrow> ''INSUFFICIENT_EVIDENCE''
      | UnknownLabel \<Rightarrow> ''UNKNOWN'')"

record task_reference =
  tr_verdict :: distribution_verdict
  tr_sample_count :: nat

record window_margin =
  wg_window :: meter_window
  wg_headroom :: "credits interval"
  wg_margin :: "credits interval"

record verdict_basis =
  vb_label :: verdict_label
  vb_headroom :: "credits interval"
  vb_margin :: "credits interval"
  vb_ample_threshold :: credits
  vb_insufficient_threshold :: credits
  vb_median :: credits
  vb_upper :: credits

record can_run_ready =
  rd_per_window :: "window_margin list"
  rd_lowest_window :: meter_window
  rd_limiting_window :: meter_window
  rd_windows_differ :: bool
  rd_median :: credits
  rd_central :: "credits interval"
  rd_upper :: credits
  rd_sample_count :: nat
  rd_basis :: "verdict_basis option"

record missing_fact =
  mf_subject :: string
  mf_reason :: string

datatype assessment =
  Ready can_run_ready
| InsufficientEvidence "missing_fact list" nat nat
| UnknownRefusal "missing_fact list"

definition assessment_label :: "assessment \<Rightarrow> verdict_label option" where
  "assessment_label a =
     (case a of
        Ready r \<Rightarrow> map_option vb_label (rd_basis r)
      | InsufficientEvidence _ _ _ \<Rightarrow> Some InsufficientEvidenceLabel
      | UnknownRefusal _ \<Rightarrow> Some UnknownLabel)"

section \<open>The assessment\<close>

definition verdict_order_key :: "meter_window \<Rightarrow> u32" where
  "verdict_order_key w =
     (if is_not_started (mw_resets_at w) then 1000000 else ppm (remaining_ppm (remaining_fraction w)))"

definition classify_limiting ::
    "credits interval \<Rightarrow> credits interval \<Rightarrow> credits \<Rightarrow> credits \<Rightarrow> can_run_config \<Rightarrow> verdict_basis" where
  "classify_limiting headroom margin median up config =
     (let headroom_end = (case vc_bound config of LowBound \<Rightarrow> lower headroom);
          ample = Credits (vc_ample_product config (credit_micros up))
      in \<lparr>vb_label =
            (if credit_micros headroom_end \<ge> credit_micros ample then Ample
             else if credit_micros median > credit_micros headroom_end then Insufficient else Marginal),
          vb_headroom = headroom, vb_margin = margin, vb_ample_threshold = ample,
          vb_insufficient_threshold = headroom_end, vb_median = median, vb_upper = up\<rparr>)"

definition unknown_windows :: "window_headroom list \<Rightarrow> meter_window list" where
  "unknown_windows evaluated = map headroom_window (filter (\<lambda>e. headroom_interval e = None) evaluated)"

definition known_windows :: "window_headroom list \<Rightarrow> (meter_window \<times> credits interval) list" where
  "known_windows evaluated =
     map (\<lambda>e. (headroom_window e, the (headroom_interval e))) (filter (\<lambda>e. headroom_interval e \<noteq> None) evaluated)"

definition margin_of :: "credits interval \<Rightarrow> meter_window \<times> credits interval \<Rightarrow> window_margin" where
  "margin_of central k =
     \<lparr>wg_window = fst k, wg_headroom = snd k,
      wg_margin = \<lparr>lower = credits_sub (lower (snd k)) (upper central), upper = credits_sub (upper (snd k)) (lower central)\<rparr>\<rparr>"

definition margin_key :: "window_margin \<Rightarrow> i64 \<times> i64" where
  "margin_key a = (credit_micros (lower (wg_margin a)), credit_micros (upper (wg_margin a)))"

text \<open>The code searches the sorted list for the limiting window's key again; the first match is its head.\<close>

definition ready_of :: "(meter_window \<times> credits interval) list \<Rightarrow> credit_distribution \<Rightarrow> nat \<Rightarrow> can_run_config \<Rightarrow> can_run_ready" where
  "ready_of known d sample_count config =
     (let per_window = sort_key margin_key (map (margin_of (cd_central d)) known);
          limiting = wg_window (hd per_window);
          lowest = fst (the (first_best (\<lambda>a b. verdict_order_key (fst a) < verdict_order_key (fst b)) known));
          entry = hd (filter (\<lambda>a. mw_semantic_key (wg_window a) = mw_semantic_key limiting) per_window)
      in \<lparr>rd_per_window = per_window, rd_lowest_window = lowest, rd_limiting_window = limiting,
          rd_windows_differ = (mw_semantic_key lowest \<noteq> mw_semantic_key limiting), rd_median = cd_median d,
          rd_central = cd_central d, rd_upper = cd_upper d, rd_sample_count = sample_count,
          rd_basis =
            (if vc_labels_enabled config
             then Some (classify_limiting (wg_headroom entry) (wg_margin entry) (cd_median d) (cd_upper d) config)
             else None)\<rparr>)"

definition assess_can_run :: "window_headroom list \<Rightarrow> task_reference \<Rightarrow> can_run_config \<Rightarrow> assessment" where
  "assess_can_run evaluated task config =
     (if evaluated = []
      then UnknownRefusal [\<lparr>mf_subject = ''constraining_windows'',
             mf_reason = ''no provider windows were evaluated for the selected model''\<rparr>]
      else if unknown_windows evaluated \<noteq> []
      then UnknownRefusal (map (\<lambda>w. \<lparr>mf_subject = mw_semantic_key w,
             mf_reason = ''no applicable current calibration for this window''\<rparr>) (unknown_windows evaluated))
      else (case tr_verdict task of
              InsufficientHistory n \<Rightarrow>
                InsufficientEvidence [\<lparr>mf_subject = ''historical_task_evidence'',
                  mf_reason = ''fewer than '' @ show_nat n @ '' eligible completed sample(s) (got '' @
                    show_nat (tr_sample_count task) @ '')''\<rparr>] (tr_sample_count task) n
            | Distribution d \<Rightarrow> Ready (ready_of (known_windows evaluated) d (tr_sample_count task) config)))"

section \<open>Which window limits\<close>

lemma all_known:
  "unknown_windows evaluated = [] \<Longrightarrow>
     map fst (known_windows evaluated) = map headroom_window evaluated \<and>
     map (\<lambda>k. Some (snd k)) (known_windows evaluated) = map headroom_interval evaluated"
  by (auto simp: unknown_windows_def known_windows_def filter_empty_conv)

lemma Ready_iff:
  "assess_can_run evaluated task config = Ready r \<longleftrightarrow>
     evaluated \<noteq> [] \<and> unknown_windows evaluated = [] \<and>
     (\<exists>d. tr_verdict task = Distribution d \<and> r = ready_of (known_windows evaluated) d (tr_sample_count task) config)"
  by (auto simp: assess_can_run_def split: distribution_verdict.split)

lemma hd_sort_key: "xs \<noteq> [] \<Longrightarrow> first_best (\<lambda>a b. f a < f b) xs = Some (hd (sort_key f xs))"
proof (induction xs)
  case (Cons x xs)
  show ?case
  proof (cases "xs = []")
    case False
    then obtain y ys where s: "sort_key f xs = y # ys" by (cases "sort_key f xs") (auto simp: sort_key_Nil)
    then show ?thesis using Cons False by (auto simp: not_less)
  qed simp
qed simp

lemma sort_key_first_best: "xs \<noteq> [] \<Longrightarrow> hd (sort_key f xs) = the (first_best (\<lambda>a b. f a < f b) xs)"
  by (simp add: hd_sort_key)

lemma ready_parts:
  assumes "known \<noteq> []"
  shows "rd_per_window (ready_of known d n config) = sort_key margin_key (map (margin_of (cd_central d)) known)"
    "rd_limiting_window (ready_of known d n config) = wg_window (hd (rd_per_window (ready_of known d n config)))"
    "rd_basis (ready_of known d n config) =
       (if vc_labels_enabled config
        then Some (classify_limiting (wg_headroom (hd (rd_per_window (ready_of known d n config))))
          (wg_margin (hd (rd_per_window (ready_of known d n config)))) (cd_median d) (cd_upper d) config) else None)"
    "first_best (\<lambda>a b. verdict_order_key a < verdict_order_key b) (map fst known) = Some (rd_lowest_window (ready_of known d n config))"
    "rd_per_window (ready_of known d n config) \<noteq> []"
proof -
  show parts: "rd_per_window (ready_of known d n config) = sort_key margin_key (map (margin_of (cd_central d)) known)"
    "rd_limiting_window (ready_of known d n config) = wg_window (hd (rd_per_window (ready_of known d n config)))"
    by (simp_all add: ready_of_def Let_def)
  show ne: "rd_per_window (ready_of known d n config) \<noteq> []" using assms by (simp add: parts(1) sort_key_Nil)
  then show "rd_basis (ready_of known d n config) =
       (if vc_labels_enabled config
        then Some (classify_limiting (wg_headroom (hd (rd_per_window (ready_of known d n config))))
          (wg_margin (hd (rd_per_window (ready_of known d n config)))) (cd_median d) (cd_upper d) config) else None)"
    unfolding parts(1)
    by (cases "sort_key margin_key (map (margin_of (cd_central d)) known)") (simp_all add: ready_of_def Let_def)
  obtain k where "first_best (\<lambda>a b. verdict_order_key (fst a) < verdict_order_key (fst b)) known = Some k"
    using assms by (cases "first_best (\<lambda>a b. verdict_order_key (fst a) < verdict_order_key (fst b)) known") auto
  then show "first_best (\<lambda>a b. verdict_order_key a < verdict_order_key b) (map fst known) = Some (rd_lowest_window (ready_of known d n config))"
    by (simp add: first_best_map ready_of_def Let_def)
qed

text \<open>Without overflow in the subtraction every window subtracts the same range: the least margin is the least headroom.\<close>

definition margins_exact :: "credits interval \<Rightarrow> window_headroom list \<Rightarrow> bool" where
  "margins_exact central evaluated \<longleftrightarrow>
     list_all (\<lambda>k. is_i64 (credit_micros (lower (snd k)) - credit_micros (upper central))) (known_windows evaluated)"

lemma limiting_low_end:
  assumes "first_best (\<lambda>a b. margin_key a < margin_key b) (map (margin_of central) (known_windows evaluated)) = Some a"
    and "margins_exact central evaluated" "k \<in> set (known_windows evaluated)"
  shows "lower (wg_headroom a) \<le> lower (snd k)"
proof -
  obtain j where j: "j \<in> set (known_windows evaluated)" "a = margin_of central j"
    using first_best_in [OF assms(1)] by auto
  have "\<not> margin_key (margin_of central k) < margin_key a"
    using least.unbeaten [OF assms(1)] assms(3) by simp
  then have "credit_micros (lower (wg_margin a)) \<le> credit_micros (lower (wg_margin (margin_of central k)))"
    by (auto simp: margin_key_def less_prod_def not_less)
  moreover have "credit_micros (lower (wg_margin (margin_of central x))) = credit_micros (lower (snd x)) - credit_micros (upper central)"
    if "x \<in> set (known_windows evaluated)" for x
    using that assms(2) by (auto simp: margins_exact_def list_all_iff margin_of_def credits_sub_def wrap_i64_id)
  ultimately show ?thesis using j assms(3) by (simp add: less_eq_credits_def margin_of_def)
qed

text \<open>
  C30. Every known window is compared, none is lost, and the limiting one is the first, in the order given, of those whose
  margin is least; the label is drawn from its headroom, and as long as the subtraction of the central range fits the
  machine no constraining window has a headroom with a lower low end.
\<close>

theorem limiting_window_has_least_margin:
  assumes "assess_can_run evaluated task config = Ready r"
  shows "\<exists>a. first_best (\<lambda>a b. margin_key a < margin_key b) (map (margin_of (rd_central r)) (known_windows evaluated)) = Some a \<and>
    rd_limiting_window r = wg_window a \<and>
    map headroom_window evaluated = map fst (known_windows evaluated) \<and>
    mset (rd_per_window r) = mset (map (margin_of (rd_central r)) (known_windows evaluated)) \<and>
    sorted (map margin_key (rd_per_window r)) \<and>
    (rd_basis r = None \<or> map_option vb_headroom (rd_basis r) = Some (wg_headroom a)) \<and>
    (margins_exact (rd_central r) evaluated \<longrightarrow>
       (\<forall>k\<in>set (known_windows evaluated). lower (wg_headroom a) \<le> lower (snd k)))"
proof -
  obtain d where r: "evaluated \<noteq> []" "unknown_windows evaluated = []"
    "r = ready_of (known_windows evaluated) d (tr_sample_count task) config"
    using assms by (auto simp: Ready_iff)
  have all: "map headroom_window evaluated = map fst (known_windows evaluated)" using all_known [OF r(2)] by simp
  then have ne: "known_windows evaluated \<noteq> []" using r(1) by auto
  note parts = ready_parts [OF ne, of d "tr_sample_count task" config, folded r(3)]
  have central: "rd_central r = cd_central d" by (simp add: r(3) ready_of_def Let_def)
  have "first_best (\<lambda>a b. margin_key a < margin_key b) (map (margin_of (rd_central r)) (known_windows evaluated)) = Some (hd (rd_per_window r))"
    unfolding parts(1) central using ne by (intro hd_sort_key) simp
  moreover from limiting_low_end [OF this]
  have "margins_exact (rd_central r) evaluated \<longrightarrow>
      (\<forall>k\<in>set (known_windows evaluated). lower (wg_headroom (hd (rd_per_window r))) \<le> lower (snd k))" by blast
  ultimately show ?thesis using all parts(1-3) by (auto simp: central classify_limiting_def Let_def)
qed

section \<open>What a label means for the history\<close>

lemma count_mono:
  fixes x :: "'a::linorder"
  shows "x \<le> y \<Longrightarrow> length (filter (\<lambda>c. c \<le> x) xs) \<le> length (filter (\<lambda>c. c \<le> y) xs)"
  by (induction xs) auto

lemma below_quantile:
  assumes "is_quantile p xs v" "x < v" "1 \<le> p" "xs \<noteq> []"
  shows "100 * length (filter (\<lambda>c. c \<le> x) xs) < p * length xs"
proof (cases "filter (\<lambda>c. c \<le> x) xs = []")
  case False
  let ?below = "filter (\<lambda>c. c \<le> x) xs"
  define w where "w = Max (set ?below)"
  have "finite (set ?below)" "set ?below \<noteq> {}" using False by (simp_all only: List.finite_set set_empty not_False_eq_True)
  then have "w \<in> set ?below" unfolding w_def by (rule Max_in)
  then have w: "w \<in> set xs" "w \<le> x" by simp_all
  have "filter (\<lambda>c. c \<le> w) xs = filter (\<lambda>c. c \<le> x) xs"
    by (rule filter_cong [OF refl]) (use w(2) in \<open>auto simp: w_def intro!: Max_ge\<close>)
  moreover have "\<not> v \<le> w" using w(2) assms(2) by simp
  ultimately show ?thesis using assms(1) w(1) by (auto simp: is_quantile_def not_le)
qed (use assms(3,4) in simp)

definition fitting :: "percentile \<Rightarrow> credits list \<Rightarrow> credits \<Rightarrow> bool" where
  "fitting p costs room \<longleftrightarrow> p * length costs \<le> 100 * length (filter (\<lambda>c. c \<le> room) costs)"

lemma quantile_fits: "is_quantile p costs v \<Longrightarrow> v \<le> room \<Longrightarrow> fitting p costs room"
  using count_mono [of v room costs] by (simp add: is_quantile_def fitting_def)

lemma ready_basis:
  assumes "assess_can_run evaluated task config = Ready r" "rd_basis r = Some b"
  shows "\<exists>d a. tr_verdict task = Distribution d \<and> rd_central r = cd_central d \<and> rd_upper r = cd_upper d \<and>
    rd_median r = cd_median d \<and> rd_limiting_window r = wg_window a \<and>
    first_best (\<lambda>a b. margin_key a < margin_key b) (map (margin_of (rd_central r)) (known_windows evaluated)) = Some a \<and>
    b = classify_limiting (wg_headroom a) (wg_margin a) (cd_median d) (cd_upper d) config"
proof -
  obtain d where r: "evaluated \<noteq> []" "unknown_windows evaluated = []" "tr_verdict task = Distribution d"
    "r = ready_of (known_windows evaluated) d (tr_sample_count task) config"
    using assms(1) by (auto simp: Ready_iff)
  have ne: "known_windows evaluated \<noteq> []" using all_known [OF r(2)] r(1) by auto
  note parts = ready_parts [OF ne, of d "tr_sample_count task" config, folded r(4)]
  have d: "rd_central r = cd_central d" "rd_upper r = cd_upper d" "rd_median r = cd_median d"
    by (simp_all add: r(4) ready_of_def Let_def)
  have "first_best (\<lambda>a b. margin_key a < margin_key b) (map (margin_of (rd_central r)) (known_windows evaluated)) = Some (hd (rd_per_window r))"
    unfolding parts(1) d using ne by (intro hd_sort_key) simp
  then show ?thesis using parts(2,3) assms(2) r(3) d by (auto split: if_splits)
qed

text \<open>
  C17. From the completed tasks to the label, with accepted settings, costs that are not negative and whose sum fits the
  machine, and as long as the subtraction of the central range fits it too. The two references are quantiles of the costs of the group's eligible tasks, the ample threshold is the configured product of
  the upper one, and the limiting window is one of least low end. An insufficient label means that fewer than half of
  those tasks would have fitted the room of the limiting window; under a marginal label half of them fit every
  constraining window; an ample label puts the threshold at or below the room of every constraining window, and with a
  threshold of at least the upper reference as many tasks fit as that reference's percentage.
\<close>

theorem verdict_rests_on_history:
  assumes "history_config_ok hc" "costs_ok samples" "build_group_reports samples period hc = Some reports"
    and "om_get reports g = Some rep"
    and "assess_can_run evaluated \<lparr>tr_verdict = gr_verdict rep, tr_sample_count = gr_sample_count rep\<rparr> config = Ready r"
    and "rd_basis r = Some b" "margins_exact (rd_central r) evaluated"
  shows "is_quantile 50 (reference_costs g samples) (rd_median r) \<and>
    is_quantile (hc_upper hc) (reference_costs g samples) (rd_upper r) \<and>
    vb_ample_threshold b = Credits (vc_ample_product config (credit_micros (rd_upper r))) \<and>
    (\<exists>k\<in>set (known_windows evaluated). rd_limiting_window r = fst k \<and> vb_headroom b = snd k \<and>
       (\<forall>j\<in>set (known_windows evaluated). lower (snd k) \<le> lower (snd j)) \<and>
       (case vb_label b of
          Insufficient \<Rightarrow> \<not> fitting 50 (reference_costs g samples) (lower (snd k))
        | Marginal \<Rightarrow> \<forall>j\<in>set (known_windows evaluated). fitting 50 (reference_costs g samples) (lower (snd j))
        | Ample \<Rightarrow> \<forall>j\<in>set (known_windows evaluated).
            Credits (vc_ample_product config (credit_micros (rd_upper r))) \<le> lower (snd j) \<and>
            (Credits (vc_ample_product config (credit_micros (rd_upper r))) < rd_upper r \<or>
             fitting (hc_upper hc) (reference_costs g samples) (lower (snd j)))
        | _ \<Rightarrow> False))"
proof -
  let ?costs = "reference_costs g samples" and ?ample = "Credits (vc_ample_product config (credit_micros (rd_upper r)))"
  obtain d a where d: "gr_verdict rep = Distribution d" "rd_central r = cd_central d" "rd_upper r = cd_upper d"
      "rd_median r = cd_median d" "rd_limiting_window r = wg_window a"
    and a: "first_best (\<lambda>a b. margin_key a < margin_key b) (map (margin_of (rd_central r)) (known_windows evaluated)) = Some a"
    and b: "b = classify_limiting (wg_headroom a) (wg_margin a) (cd_median d) (cd_upper d) config"
    using ready_basis [OF assms(5,6)] by auto
  have q: "hc_min_samples hc \<le> length ?costs" "is_quantile 50 ?costs (rd_median r)" "is_quantile (hc_upper hc) ?costs (rd_upper r)"
    using distribution_quantiles [OF assms(1-4) d(1)] by (simp_all add: d(3,4))
  have ne: "?costs \<noteq> []" using q(1) assms(1) by (auto simp: history_config_ok_def)
  obtain k where k: "k \<in> set (known_windows evaluated)" "a = margin_of (rd_central r) k"
    using first_best_in [OF a] by auto
  then have parts: "wg_headroom a = snd k" "wg_window a = fst k" by (simp_all add: margin_of_def)
  have low: "lower (snd k) \<le> lower (snd j)" if "j \<in> set (known_windows evaluated)" for j
    using limiting_low_end [OF a assms(7) that] by (simp add: parts)
  have basis: "vb_ample_threshold b = ?ample" "vb_headroom b = snd k"
      "vb_label b = (if ?ample \<le> lower (snd k) then Ample else if lower (snd k) < rd_median r then Insufficient else Marginal)"
    by (simp_all add: b d(3,4) parts classify_limiting_def Let_def less_eq_credits_def less_credits_def split: headroom_bound.split)
  have "case vb_label b of
      Insufficient \<Rightarrow> \<not> fitting 50 ?costs (lower (snd k))
    | Marginal \<Rightarrow> \<forall>j\<in>set (known_windows evaluated). fitting 50 ?costs (lower (snd j))
    | Ample \<Rightarrow> \<forall>j\<in>set (known_windows evaluated). ?ample \<le> lower (snd j) \<and>
        (?ample < rd_upper r \<or> fitting (hc_upper hc) ?costs (lower (snd j)))
    | _ \<Rightarrow> False"
  proof -
    consider (ample) "?ample \<le> lower (snd k)" | (short) "\<not> ?ample \<le> lower (snd k)" "lower (snd k) < rd_median r"
      | (between) "\<not> ?ample \<le> lower (snd k)" "rd_median r \<le> lower (snd k)" by fastforce
    then show ?thesis
    proof cases
      case ample
      have "?ample < rd_upper r \<or> fitting (hc_upper hc) ?costs (lower (snd j))" if "j \<in> set (known_windows evaluated)" for j
        using quantile_fits [OF q(3), of "lower (snd j)"] ample low [OF that] by (meson not_less order_trans)
      then show ?thesis using ample low basis(3) by (auto intro: order_trans)
    next
      case short
      then show ?thesis using below_quantile [OF q(2) short(2) _ ne] basis(3) by (simp add: fitting_def)
    next
      case between
      have "fitting 50 ?costs (lower (snd j))" if "j \<in> set (known_windows evaluated)" for j
        using quantile_fits [OF q(2), of "lower (snd j)"] between(2) low [OF that] by (meson order_trans)
      then show ?thesis using between basis(3) by (simp add: not_less)
    qed
  qed
  then show ?thesis using q(2,3) basis(1,2) k(1) low d(5) parts(2) by (intro conjI bexI [of _ k]) simp_all
qed

text \<open>
  The window reported beside the limiting one is the one the display selects, and an assessment exists only where
  every window that constrains the model has a calibration of its own in current health.
\<close>

theorem co_reported_window_is_the_displayed_one:
  assumes "assess_can_run (convert_constraining_windows ws model cal) task config = Ready r"
  shows "lowest_remaining_fraction_window ws model = Some (rd_lowest_window r) \<and>
    list_all (\<lambda>w. \<exists>c. om_get cal (mw_semantic_key w) = Some c \<and> health_is_current (wc_health c))
      (filter (\<lambda>w. window_constrains w model) ws)"
proof -
  let ?evaluated = "convert_constraining_windows ws model cal"
  obtain d where r: "?evaluated \<noteq> []" "unknown_windows ?evaluated = []"
    "r = ready_of (known_windows ?evaluated) d (tr_sample_count task) config"
    using assms by (auto simp: Ready_iff)
  have window: "headroom_window (window_credit_headroom w c) = w" for w c
    by (simp add: window_credit_headroom_def Let_def split: option.split)
  have all: "map fst (known_windows ?evaluated) = filter (\<lambda>w. window_constrains w model) ws"
    using all_known [OF r(2)] by (simp add: convert_constraining_windows_def window comp_def)
  then have ne: "known_windows ?evaluated \<noteq> []" using r(1) by (auto simp: convert_constraining_windows_def)
  have "first_best (\<lambda>a b. verdict_order_key a < verdict_order_key b) (map fst (known_windows ?evaluated)) = Some (rd_lowest_window r)"
    using ready_parts(4) [OF ne, of d "tr_sample_count task" config] by (simp add: r(3))
  moreover have "verdict_order_key = remaining_order_key"
    by (simp add: fun_eq_iff verdict_order_key_def remaining_order_key_def)
  ultimately have "lowest_remaining_fraction_window ws model = Some (rd_lowest_window r)"
    by (simp add: all lowest_remaining_fraction_window_def)
  moreover have "list_all (\<lambda>w. headroom_interval (window_credit_headroom w (om_get cal (mw_semantic_key w))) \<noteq> None)
      (filter (\<lambda>w. window_constrains w model) ws)"
    using r(2) by (auto simp: unknown_windows_def convert_constraining_windows_def filter_empty_conv list_all_iff)
  then have "list_all (\<lambda>w. \<exists>c. om_get cal (mw_semantic_key w) = Some c \<and> health_is_current (wc_health c))
      (filter (\<lambda>w. window_constrains w model) ws)"
    by (auto simp: list_all_iff window_credit_headroom_def Let_def split: option.splits if_splits)
  ultimately show ?thesis by blast
qed

section \<open>An assessment\<close>

definition distribution_example :: credit_distribution where
  "distribution_example =
     \<lparr>cd_median = Credits 20, cd_central = \<lparr>lower = Credits 10, upper = Credits 30\<rparr>, cd_central_low = 25,
      cd_central_high = 75, cd_upper = Credits 30, cd_upper_percentile = 90, cd_method = NearestRank\<rparr>"

definition doubling_config :: can_run_config where
  "doubling_config = \<lparr>vc_labels_enabled = True, vc_ample_product = (\<lambda>x. 2 * x), vc_bound = LowBound\<rparr>"

definition evaluated_example :: "window_headroom list" where
  "evaluated_example =
     [HeadroomKnown (sample_window ''opus'' (ModelSpecific ''opus'') 100000) \<lparr>lower = Credits 50, upper = Credits 60\<rparr>,
      HeadroomKnown (sample_window ''account'' AccountWide 800000) \<lparr>lower = Credits 25, upper = Credits 40\<rparr>]"

abbreviation task_example :: task_reference where
  "task_example \<equiv> \<lparr>tr_verdict = Distribution distribution_example, tr_sample_count = 3\<rparr>"

definition ready_example :: can_run_ready where
  "ready_example = ready_of (known_windows evaluated_example) distribution_example 3 doubling_config"

lemma known_example:
  "known_windows evaluated_example =
     [(sample_window ''opus'' (ModelSpecific ''opus'') 100000, \<lparr>lower = Credits 50, upper = Credits 60\<rparr>),
      (sample_window ''account'' AccountWide 800000, \<lparr>lower = Credits 25, upper = Credits 40\<rparr>)]"
  "unknown_windows evaluated_example = []"
  by (simp_all add: known_windows_def unknown_windows_def evaluated_example_def)

lemma assess_example: "assess_can_run evaluated_example task_example doubling_config = Ready ready_example"
  by (simp add: Ready_iff known_example ready_example_def) (simp add: evaluated_example_def)

lemma ready_example_basis:
  "rd_central ready_example = \<lparr>lower = Credits 10, upper = Credits 30\<rparr>"
  "\<exists>b. rd_basis ready_example = Some b \<and> vb_label b = Marginal"
proof -
  have "wrap_i64 20 = 20" "wrap_i64 (- 5) = - 5" "wrap_i64 50 = 50" "wrap_i64 30 = 30" by (simp_all add: wrap_i64_id is_i64_def)
  then have "hd (sort_key margin_key (map (margin_of (cd_central distribution_example)) (known_windows evaluated_example))) =
      margin_of (cd_central distribution_example) (sample_window ''account'' AccountWide 800000, \<lparr>lower = Credits 25, upper = Credits 40\<rparr>)"
    by (simp add: known_example margin_key_def margin_of_def distribution_example_def credits_sub_def less_eq_prod_def)
  then have "wg_headroom (hd (rd_per_window ready_example)) = \<lparr>lower = Credits 25, upper = Credits 40\<rparr>"
    by (simp add: ready_example_def ready_parts(1) known_example(1) margin_of_def)
  then show "\<exists>b. rd_basis ready_example = Some b \<and> vb_label b = Marginal"
    unfolding ready_example_def
    by (subst ready_parts(3)) (simp_all add: known_example(1) classify_limiting_def doubling_config_def distribution_example_def Let_def)
  show "rd_central ready_example = \<lparr>lower = Credits 10, upper = Credits 30\<rparr>"
    by (simp add: ready_example_def ready_of_def Let_def distribution_example_def)
qed

lemma example_verdict: "group_verdict config_example (sort [Credits 30, Credits 10, Credits 20]) = Some (Distribution distribution_example)"
  by (simp add: group_verdict_def config_example_def nearest_rank_def Let_def interval_new_def distribution_example_def
      less_eq_credits_def less_credits_def nth_Cons')

theorem limiting_window_has_least_margin_witness:
  "rd_limiting_window ready_example = sample_window ''account'' AccountWide 800000"
proof -
  have "wrap_i64 20 = 20" "wrap_i64 (- 5) = - 5" "wrap_i64 50 = 50" "wrap_i64 30 = 30" by (simp_all add: wrap_i64_id is_i64_def)
  then show ?thesis
    using limiting_window_has_least_margin [OF assess_example]
    by (simp add: known_example ready_example_basis(1) margin_of_def margin_key_def credits_sub_def less_prod_def)
qed

theorem verdict_rests_on_history_witness:
  "list_all (\<lambda>k. fitting 50 [Credits 30, Credits 10, Credits 20] (lower (snd k))) (known_windows evaluated_example)"
proof -
  obtain reports where reports: "build_group_reports history_example period_example config_example = Some reports"
    using reports_built [OF history_example_ok] by blast
  let ?rep = "report_for period_example config_example ''bug'' (group_of ''bug'' history_example)"
  have get: "om_get reports ''bug'' = Some ?rep"
    using reports_get(2) [OF history_example_ok reports, of "''bug''"]
    by (simp add: history_example_group) (auto simp: history_example_def)
  have "map (\<lambda>s. Credits (cost_of s)) (filter eligible history_example) = [Credits 30, Credits 10, Credits 20]"
    using history_example_costs by (simp add: reference_costs_def history_example_group)
  then have rep: "gr_verdict ?rep = Distribution distribution_example" "gr_sample_count ?rep = 3"
    using group_report_Some [OF history_example_ok, of period_example "''bug''"] example_verdict
    by (auto simp: report_for_def history_example_group)
  obtain b where b: "rd_basis ready_example = Some b" "vb_label b = Marginal" using ready_example_basis(2) by blast
  have "margins_exact (rd_central ready_example) evaluated_example"
    by (simp add: margins_exact_def known_example ready_example_basis(1) is_i64_def)
  then show ?thesis
    using verdict_rests_on_history [OF history_example_ok reports get, of evaluated_example doubling_config ready_example b]
      assess_example b by (auto simp: rep history_example_costs list_all_iff)
qed

definition account_only :: "window_headroom list" where
  "account_only = convert_constraining_windows [sample_window ''account'' AccountWide 800000] ''opus''
     [(''account'', constraint_current sample_uncertainty)]"

theorem co_reported_window_is_the_displayed_one_witness:
  "lowest_remaining_fraction_window [sample_window ''account'' AccountWide 800000] ''opus'' =
     Some (rd_lowest_window (ready_of (known_windows account_only) distribution_example 3 doubling_config))"
proof -
  have "account_only \<noteq> [] \<and> unknown_windows account_only = []"
    by (simp add: account_only_def unknown_windows_def convert_constraining_windows_def window_credit_headroom_def Let_def
        constraint_current_def health_is_current_def sample_window_def window_new_def window_constrains_def om_get_def)
  then have "assess_can_run account_only task_example doubling_config =
      Ready (ready_of (known_windows account_only) distribution_example 3 doubling_config)"
    by (simp add: Ready_iff)
  then show ?thesis
    unfolding account_only_def by (rule co_reported_window_is_the_displayed_one [THEN conjunct1])
qed

end
