(* ===== verification/Reconciliation.thy ===== *)
theory Reconciliation
  imports Calibration_Ledger Account_Segments
begin

text \<open>
  \<open>src/reconciliation.rs\<close>: which intervals may be reconciled, the unexplained residual of one and its uncertainty
  interval, the rolling verdict over many and the diagnostic patterns. The rolling fraction is a float and is not
  modelled, nor is the JSON form.
\<close>

section \<open>Eligibility\<close>

datatype eligibility_condition =
  SameAccountAndWindow | NoResetInside | AcceptableMeterCoverage | ApplicableCurrentCalibration
| SufficientSettlement | ExactLocalUsage

definition all_conditions :: "eligibility_condition list" where
  "all_conditions =
     [SameAccountAndWindow, NoResetInside, AcceptableMeterCoverage, ApplicableCurrentCalibration, SufficientSettlement,
      ExactLocalUsage]"

fun condition_name :: "eligibility_condition \<Rightarrow> string" where
  "condition_name SameAccountAndWindow = ''same account and window''"
| "condition_name NoResetInside = ''no reset inside''"
| "condition_name AcceptableMeterCoverage = ''acceptable meter coverage''"
| "condition_name ApplicableCurrentCalibration = ''applicable current calibration''"
| "condition_name SufficientSettlement = ''sufficient settlement and lag handling''"
| "condition_name ExactLocalUsage = ''exact local usage where required''"

fun condition_as_str :: "eligibility_condition \<Rightarrow> string" where
  "condition_as_str SameAccountAndWindow = ''same_account_and_window''"
| "condition_as_str NoResetInside = ''no_reset_inside''"
| "condition_as_str AcceptableMeterCoverage = ''acceptable_meter_coverage''"
| "condition_as_str ApplicableCurrentCalibration = ''applicable_current_calibration''"
| "condition_as_str SufficientSettlement = ''sufficient_settlement_and_lag_handling''"
| "condition_as_str ExactLocalUsage = ''exact_local_usage_where_required''"

record eligibility_assessment =
  ea_evaluated :: "(eligibility_condition \<times> bool) list"
  ea_failing :: "eligibility_condition list"

definition is_eligible :: "eligibility_assessment \<Rightarrow> bool" where
  "is_eligible a \<longleftrightarrow> ea_failing a = []"

record candidate_observation =
  ob_id :: string
  ob_account :: i64
  ob_received_at :: utc_timestamp
  ob_window_key :: string
  ob_used :: quota_used
  ob_resets_at :: utc_timestamp
  ob_resolution :: reported_resolution
  ob_quantization :: quantization

record candidate_usage_event =
  ue_id :: string
  ue_occurred_at :: utc_timestamp
  ue_measured :: bool
  ue_class :: evidence_class
  ue_quarantined :: bool

record interval_usage =
  iu_events :: "candidate_usage_event list"
  iu_total :: credits

definition has_inexact_usage :: "interval_usage \<Rightarrow> bool" where
  "has_inexact_usage u \<longleftrightarrow>
     list_ex (\<lambda>e. \<not> ue_measured e \<or> \<not> is_explicit (ue_class e) \<or> ue_quarantined e) (iu_events u)"

record interval_coverage =
  ic_acceptable :: bool
  ic_destructive_gap :: bool

record interval_settlement =
  is_settled :: bool
  is_lag_satisfied :: bool

text \<open>The absolute value of the least \<open>i64\<close> wraps to itself.\<close>

definition abs_i64 :: "i64 \<Rightarrow> i64" where
  "abs_i64 x = wrap_i64 \<bar>x\<bar>"

definition timing_from_half_width :: "credits \<Rightarrow> credits" where
  "timing_from_half_width h = Credits (abs_i64 (credit_micros h))"

record candidate_interval =
  ca_account :: i64
  ca_window_key :: string
  ca_first :: candidate_observation
  ca_last :: candidate_observation
  ca_resets :: "utc_timestamp list"
  ca_coverage :: interval_coverage
  ca_calibration :: "window_calibration option"
  ca_health :: "calibration_health option"
  ca_settlement :: interval_settlement
  ca_usage :: interval_usage
  ca_timing :: credits

fun condition_holds :: "candidate_interval \<Rightarrow> eligibility_condition \<Rightarrow> bool" where
  "condition_holds c SameAccountAndWindow \<longleftrightarrow>
     (ob_account (ca_first c) = ca_account c \<and> ob_account (ca_last c) = ca_account c) \<and>
     (ob_window_key (ca_first c) = ca_window_key c \<and> ob_window_key (ca_last c) = ca_window_key c)"
| "condition_holds c NoResetInside \<longleftrightarrow>
     ca_resets c = [] \<and>
     (ob_resets_at (ca_first c) > ob_received_at (ca_last c) \<and> ob_resets_at (ca_first c) = ob_resets_at (ca_last c)) \<and>
     ppm (used_ppm (ob_used (ca_last c))) \<ge> ppm (used_ppm (ob_used (ca_first c)))"
| "condition_holds c AcceptableMeterCoverage \<longleftrightarrow>
     ic_acceptable (ca_coverage c) \<and> \<not> ic_destructive_gap (ca_coverage c)"
| "condition_holds c ApplicableCurrentCalibration \<longleftrightarrow>
     (case ca_calibration c of None \<Rightarrow> False | Some k \<Rightarrow> kp_window_key (wk_scope k) = ca_window_key c) \<and>
     ca_health c = Some Current"
| "condition_holds c SufficientSettlement \<longleftrightarrow> is_settled (ca_settlement c) \<and> is_lag_satisfied (ca_settlement c)"
| "condition_holds c ExactLocalUsage \<longleftrightarrow> (if iu_events (ca_usage c) = [] then True else \<not> has_inexact_usage (ca_usage c))"

definition evaluate_eligibility :: "candidate_interval \<Rightarrow> eligibility_assessment" where
  "evaluate_eligibility c =
     \<lparr>ea_evaluated = map (\<lambda>k. (k, condition_holds c k)) all_conditions,
      ea_failing = filter (\<lambda>k. \<not> condition_holds c k) all_conditions\<rparr>"

section \<open>The residual\<close>

definition quantized_used_bounds :: "candidate_observation \<Rightarrow> i64 \<times> i64" where
  "quantized_used_bounds ob =
     (let reading = int (ppm (used_ppm (ob_used ob))); resolution = int (ppm (resolution_ppm (ob_resolution ob)))
      in case ob_quantization ob of
           Exact \<Rightarrow> (reading, reading)
         | RoundedToNearest \<Rightarrow> (let below = resolution div 2 in (reading - below, reading + (resolution - below)))
         | RoundedDown \<Rightarrow> (reading, reading + resolution)
         | RoundedUp \<Rightarrow> (reading - resolution, reading)
         | UnknownQuantization \<Rightarrow> (reading - resolution, reading + resolution))"

definition saturated :: "int \<Rightarrow> credits" where
  "saturated x = Credits (clamp_int i64_min i64_max x)"

definition credits_interval :: "int \<Rightarrow> int \<Rightarrow> credits interval" where
  "credits_interval lo hi = \<lparr>lower = saturated lo, upper = saturated hi\<rparr>"

record meter_delta_bounds =
  md_lower :: i64
  md_upper :: i64

definition propagate_residual_uncertainty ::
    "candidate_interval \<Rightarrow> window_calibration \<Rightarrow> credits \<Rightarrow> meter_delta_bounds \<times> credits interval \<times> credits interval" where
  "propagate_residual_uncertainty c k explained_credits =
     (let (first_lower, first_upper) = quantized_used_bounds (ca_first c);
          (last_lower, last_upper) = quantized_used_bounds (ca_last c);
          delta_lower = last_lower - first_upper; delta_upper = last_upper - first_lower;
          coefficient_lower = micros_per_point (cu_lower (wk_uncertainty k));
          coefficient_upper = micros_per_point (cu_upper (wk_uncertainty k));
          corners = [coefficient_lower * delta_lower, coefficient_lower * delta_upper,
                     coefficient_upper * delta_lower, coefficient_upper * delta_upper];
          credits_lower = Min (set corners); credits_upper = Max (set corners);
          explained = credit_micros explained_credits; timing = credit_micros (ca_timing c)
      in (\<lparr>md_lower = delta_lower, md_upper = delta_upper\<rparr>, credits_interval credits_lower credits_upper,
          credits_interval (credits_lower - explained - timing) (credits_upper - explained + timing)))"

record reconciled_residual =
  rr_account :: i64
  rr_window_key :: string
  rr_start :: utc_timestamp
  rr_end :: utc_timestamp
  rr_observed_delta :: percentage_points
  rr_observed_credits :: credits
  rr_explained_credits :: credits
  rr_explained_change :: percentage_points
  rr_residual :: credits
  rr_residual_points :: percentage_points
  rr_delta_bounds :: meter_delta_bounds
  rr_observed_interval :: "credits interval"
  rr_timing :: credits
  rr_residual_interval :: "credits interval"
  rr_calibration :: string
  rr_provenance :: provenance_manifest

definition contains_zero :: "credits interval \<Rightarrow> bool" where
  "contains_zero i \<longleftrightarrow> credit_micros (lower i) \<le> 0 \<and> 0 \<le> credit_micros (upper i)"

definition reconciles_within_uncertainty :: "reconciled_residual \<Rightarrow> bool" where
  "reconciles_within_uncertainty r \<longleftrightarrow> contains_zero (rr_residual_interval r)"

definition explained_points :: "credits_per_point \<Rightarrow> credits \<Rightarrow> int" where
  "explained_points fitted explained =
     (if micros_per_point fitted > 0 then
        let num = credit_micros explained; den = micros_per_point fitted; half = den sdiv 2;
            rounded = (if num \<ge> 0 then (num + half) sdiv den else (num - half) sdiv den)
        in clamp_int pp_min pp_max rounded
      else 0)"

datatype reconciliation_outcome = Computed reconciled_residual | NotComputed "eligibility_condition list"

definition reconcile :: "candidate_interval \<Rightarrow> reconciliation_outcome" where
  "reconcile c =
     (let assessment = evaluate_eligibility c
      in if \<not> is_eligible assessment then NotComputed (ea_failing assessment)
         else
           let k = the (ca_calibration c);
               observed_delta = fraction_sub (used_ppm (ob_used (ca_last c))) (used_ppm (ob_used (ca_first c)));
               observed_credits = per_point_times (wk_fitted k) observed_delta;
               explained = iu_total (ca_usage c);
               points = explained_points (wk_fitted k) explained;
               (bounds, observed_interval, residual_interval) = propagate_residual_uncertainty c k explained
           in Computed
             \<lparr>rr_account = ca_account c, rr_window_key = ca_window_key c, rr_start = ob_received_at (ca_first c),
              rr_end = ob_received_at (ca_last c), rr_observed_delta = observed_delta,
              rr_observed_credits = observed_credits, rr_explained_credits = explained,
              rr_explained_change = PercentagePoints points, rr_residual = credits_sub observed_credits explained,
              rr_residual_points = PercentagePoints (clamp_int pp_min pp_max (pp observed_delta - points)),
              rr_delta_bounds = bounds, rr_observed_interval = observed_interval, rr_timing = ca_timing c,
              rr_residual_interval = residual_interval, rr_calibration = wk_id k,
              rr_provenance = manifest_new ([ob_id (ca_first c), ob_id (ca_last c)] @ map ue_id (iu_events (ca_usage c)))
                [WindowCalibrationWitness (wk_id k)]
                \<lparr>qs_grouping = ''interval_reconciliation'',
                 qs_filtering = show_int (ob_received_at (ca_first c)) @ ''..'' @ show_int (ob_received_at (ca_last c))\<rparr>\<rparr>)"

section \<open>Patterns and the rolling verdict\<close>

datatype residual_pattern = PersistentlyPositive | PersistentlyNegative | StepChange | AlternatingNetZero

fun pattern_name :: "residual_pattern \<Rightarrow> string" where
  "pattern_name PersistentlyPositive = ''persistently positive''"
| "pattern_name PersistentlyNegative = ''persistently negative''"
| "pattern_name StepChange = ''step change''"
| "pattern_name AlternatingNetZero = ''alternating short-interval residuals that net to zero''"

fun diagnostic_pattern :: "residual_pattern \<Rightarrow> string" where
  "diagnostic_pattern PersistentlyPositive =
     ''pattern: persistently positive residual: possible web, headless-unlogged, cross-machine or missed transcript consumption''"
| "diagnostic_pattern PersistentlyNegative =
     ''pattern: persistently negative residual: possible calibration overprediction or provider semantics change''"
| "diagnostic_pattern StepChange =
     ''pattern: step change in residual: possible plan or provider accounting transition''"
| "diagnostic_pattern AlternatingNetZero =
     ''pattern: alternating short-interval residuals that net to zero: likely accounting lag''"

definition calibration_pointer :: "residual_pattern \<Rightarrow> string option" where
  "calibration_pointer p =
     (if p = StepChange
      then Some (''pointer: check calibration health (aub doctor missing-active-calibrations) to verify whether '' @
        ''calibration has become inapplicable'') else None)"

definition micros_sum :: "credits list \<Rightarrow> int" where
  "micros_sum rs = sum_list (map credit_micros rs)"

fun alternates :: "credits list \<Rightarrow> bool" where
  "alternates (a # b # rs) \<longleftrightarrow>
     (let x = sgn (credit_micros a); y = sgn (credit_micros b)
      in \<not> (x = 0 \<or> y = 0 \<or> x = y) \<and> alternates (b # rs))"
| "alternates _ = True"

definition classify_patterns :: "credits list \<Rightarrow> residual_pattern list" where
  "classify_patterns rs =
     (let n = length rs
      in if n < 3 then []
         else
           (if list_all (\<lambda>r. credit_micros r > 0) rs then [PersistentlyPositive] else []) @
           (if list_all (\<lambda>r. credit_micros r < 0) rs then [PersistentlyNegative] else []) @
           (if n \<ge> 4 then
              let mid = n div 2;
                  mean_first = micros_sum (take mid rs) sdiv int mid;
                  mean_second = micros_sum (drop mid rs) sdiv int (n - mid);
                  step = \<bar>mean_second - mean_first\<bar>;
                  total_sum = micros_sum rs;
                  total_abs = sum_list (map (\<lambda>r. abs_i64 (credit_micros r)) rs)
              in (if alternates rs \<and> total_abs > 0 \<and> \<bar>total_sum\<bar> * 5 \<le> total_abs then [AlternatingNetZero] else []) @
                 (if \<not> alternates rs \<and> step > 0 \<and> total_abs > 0 \<and> step * int n \<ge> total_abs then [StepChange] else [])
            else []))"

datatype rolling_verdict = SuppressedVerdict nat nat | ReconcilesWithinUncertainty | Discrepancy "residual_pattern list"

fun rolling_as_str :: "rolling_verdict \<Rightarrow> string" where
  "rolling_as_str (SuppressedVerdict _ _) = ''suppressed''"
| "rolling_as_str ReconcilesWithinUncertainty = ''reconciles_within_uncertainty''"
| "rolling_as_str (Discrepancy _) = ''discrepancy''"

record rolling_health =
  rh_window :: monotonic_duration
  rh_min_eligible :: nat
  rh_eligible_count :: nat
  rh_observed :: credits
  rh_explained :: credits
  rh_residual :: credits
  rh_interval :: "credits interval"
  rh_verdict :: rolling_verdict
  rh_patterns :: "residual_pattern list"
  rh_pointer :: "string option"

definition credits_interval_add :: "credits interval \<Rightarrow> credits interval \<Rightarrow> credits interval" where
  "credits_interval_add i j = \<lparr>lower = credits_add (lower i) (lower j), upper = credits_add (upper i) (upper j)\<rparr>"

definition rolling_total :: "(reconciled_residual \<Rightarrow> credits) \<Rightarrow> reconciled_residual list \<Rightarrow> credits" where
  "rolling_total f rs = foldl (\<lambda>acc x. credits_add acc (f x)) (Credits 0) rs"

definition compute_rolling_residual_health ::
    "reconciled_residual list \<Rightarrow> monotonic_duration \<Rightarrow> nat \<Rightarrow> rolling_health option" where
  "compute_rolling_residual_health rs window min_eligible =
     (case rs of
        [] \<Rightarrow> None
      | r # rest \<Rightarrow>
          let interval_of = foldl (\<lambda>acc x. credits_interval_add acc (rr_residual_interval x)) (rr_residual_interval r) rest;
              patterns = classify_patterns (map rr_residual rs);
              suppressed = length rs < min_eligible
          in Some
            \<lparr>rh_window = window, rh_min_eligible = min_eligible, rh_eligible_count = length rs,
             rh_observed = rolling_total rr_observed_credits rs, rh_explained = rolling_total rr_explained_credits rs,
             rh_residual = rolling_total rr_residual rs, rh_interval = interval_of,
             rh_verdict =
               (if suppressed then SuppressedVerdict (length rs) min_eligible
                else if contains_zero interval_of then ReconcilesWithinUncertainty else Discrepancy patterns),
             rh_patterns = (if suppressed then [] else patterns),
             rh_pointer =
               (if suppressed then None
                else if StepChange \<in> set patterns then calibration_pointer StepChange else None)\<rparr>)"

section \<open>The human rendering\<close>

definition signed_text :: "credits \<Rightarrow> string" where
  "signed_text residual = (if credit_micros residual \<ge> 0 then ''+'' else [])"

definition render_residual :: "reconciled_residual \<Rightarrow> string" where
  "render_residual r =
     (let sign = signed_text (rr_residual r);
          verdict = (if reconciles_within_uncertainty r
            then ''reconciles within uncertainty: the two axes agree within the uncertainty of the measurement (residual interval contains zero)''
            else ''residual interval excludes zero'');
          nl = [CHR 0x0A]
      in ''reconciliation: account='' @ show_int (rr_account r) @ '' window='' @ rr_window_key r @ '' interval=['' @
         show_int (rr_start r) @ '' .. '' @ show_int (rr_end r) @ '']'' @ nl @
         ''  observed meter delta: '' @ show_int (pp (rr_observed_delta r)) @ '' ppm'' @ nl @
         ''  locally explained calibrated delta: '' @ show_int (pp (rr_explained_change r)) @ '' ppm ('' @
         show_int (credit_micros (rr_explained_credits r)) @ '' credits)'' @ nl @
         ''  unexplained residual: '' @ sign @ show_int (credit_micros (rr_residual r)) @ '' credits ('' @ sign @
         show_int (pp (rr_residual_points r)) @ '' ppm)'' @ nl @
         ''  meter quantization delta bounds: ['' @ show_int (md_lower (rr_delta_bounds r)) @ '' .. '' @
         show_int (md_upper (rr_delta_bounds r)) @ ''] ppm'' @ nl @
         ''  observed meter credits interval: ['' @ show_int (credit_micros (lower (rr_observed_interval r))) @ '' .. '' @
         show_int (credit_micros (upper (rr_observed_interval r))) @ ''] credits'' @ nl @
         ''  timing alignment uncertainty: +/-'' @ show_int (credit_micros (rr_timing r)) @ '' credits'' @ nl @
         ''  unexplained residual interval: ['' @ show_int (credit_micros (lower (rr_residual_interval r))) @ '' .. '' @
         show_int (credit_micros (upper (rr_residual_interval r))) @ ''] credits'' @ nl @
         ''  '' @ verdict)"

definition render_reconciliation_human :: "reconciliation_outcome \<Rightarrow> string" where
  "render_reconciliation_human result =
     (case result of
        Computed r \<Rightarrow> render_residual r
      | NotComputed failing \<Rightarrow>
          ''reconciliation: unexplained residual: not computed (failing eligibility conditions: '' @
          join '', '' (map condition_name failing) @ '')'')"

section \<open>The residual interval encloses every admissible residual\<close>

lemma saturated_mono: "x \<le> y \<Longrightarrow> saturated x \<le> saturated y"
  by (auto simp: saturated_def clamp_int_def less_eq_credits_def)

lemma corner_bounds:
  fixes a b c d x y :: int
  assumes "a \<le> x" "x \<le> b" "c \<le> y" "y \<le> d"
  shows "Min (set [a * c, a * d, b * c, b * d]) \<le> x * y" "x * y \<le> Max (set [a * c, a * d, b * c, b * d])"
proof -
  have "min (a * y) (b * y) \<le> x * y \<and> x * y \<le> max (a * y) (b * y)"
    using assms(1,2) by (cases "0 \<le> y") (auto simp: min_le_iff_disj le_max_iff_disj mult_right_mono mult_right_mono_neg)
  moreover have "min (k * c) (k * d) \<le> k * y \<and> k * y \<le> max (k * c) (k * d)" for k
    using assms(3,4) by (cases "0 \<le> k") (auto simp: min_le_iff_disj le_max_iff_disj mult_left_mono mult_left_mono_neg)
  ultimately have "min (min (a * c) (a * d)) (min (b * c) (b * d)) \<le> x * y \<and>
      x * y \<le> max (max (a * c) (a * d)) (max (b * c) (b * d))"
    by (smt (verit, best) max_def min_def)
  then show "Min (set [a * c, a * d, b * c, b * d]) \<le> x * y" "x * y \<le> Max (set [a * c, a * d, b * c, b * d])"
    by (simp_all add: min.assoc max.assoc)
qed

lemma reading_in_band: "fst (quantized_used_bounds ob) \<le> int (ppm (used_ppm (ob_used ob))) \<and>
    int (ppm (used_ppm (ob_used ob))) \<le> snd (quantized_used_bounds ob)"
  by (simp add: quantized_used_bounds_def Let_def split: quantization.split) (intro impI, linarith)

lemma not_eligible_iff: "is_eligible (evaluate_eligibility c) \<longleftrightarrow> (\<forall>k. condition_holds c k)"
proof
  assume "is_eligible (evaluate_eligibility c)"
  then have "list_all (condition_holds c) all_conditions"
    by (simp add: is_eligible_def evaluate_eligibility_def filter_empty_conv list_all_iff)
  then have "condition_holds c k" for k by (cases k) (simp_all add: all_conditions_def)
  then show "\<forall>k. condition_holds c k" by blast
qed (simp add: is_eligible_def evaluate_eligibility_def)

lemma computed_iff:
  "reconcile c = Computed r \<Longrightarrow> (\<forall>k. condition_holds c k) \<and>
     (\<exists>k. ca_calibration c = Some k \<and>
       rr_residual r = credits_sub (per_point_times (wk_fitted k)
         (fraction_sub (used_ppm (ob_used (ca_last c))) (used_ppm (ob_used (ca_first c))))) (iu_total (ca_usage c)) \<and>
       (rr_delta_bounds r, rr_observed_interval r, rr_residual_interval r) =
         propagate_residual_uncertainty c k (iu_total (ca_usage c)))"
proof -
  assume r: "reconcile c = Computed r"
  then have "is_eligible (evaluate_eligibility c)" by (auto simp: reconcile_def Let_def split: if_splits)
  then have all: "\<forall>k. condition_holds c k" by (simp add: not_eligible_iff)
  then obtain k where k: "ca_calibration c = Some k"
    using spec [OF all, of ApplicableCurrentCalibration] by (auto split: option.splits)
  show ?thesis
    using r all k \<open>is_eligible (evaluate_eligibility c)\<close>
    by (cases "propagate_residual_uncertainty c k (iu_total (ca_usage c))") (auto simp: reconcile_def Let_def)
qed

lemma residual_enclosed:
  assumes "reconcile c = Computed r" "ca_calibration c = Some k"
    and "fst (quantized_used_bounds (ca_first c)) \<le> s" "s \<le> snd (quantized_used_bounds (ca_first c))"
    and "fst (quantized_used_bounds (ca_last c)) \<le> e" "e \<le> snd (quantized_used_bounds (ca_last c))"
    and "micros_per_point (cu_lower (wk_uncertainty k)) \<le> x" "x \<le> micros_per_point (cu_upper (wk_uncertainty k))"
    and "\<bar>shift\<bar> \<le> credit_micros (ca_timing c)"
  shows "lower (rr_residual_interval r) \<le> saturated (x * (e - s) - credit_micros (iu_total (ca_usage c)) + shift) \<and>
    saturated (x * (e - s) - credit_micros (iu_total (ca_usage c)) + shift) \<le> upper (rr_residual_interval r)"
proof -
  let ?true = "x * (e - s) - credit_micros (iu_total (ca_usage c)) + shift"
  obtain sl su el eu where q: "quantized_used_bounds (ca_first c) = (sl, su)" "quantized_used_bounds (ca_last c) = (el, eu)"
    by (cases "quantized_used_bounds (ca_first c)"; cases "quantized_used_bounds (ca_last c)")
  let ?a = "micros_per_point (cu_lower (wk_uncertainty k))" let ?b = "micros_per_point (cu_upper (wk_uncertainty k))"
  let ?corners = "set [?a * (el - su), ?a * (eu - sl), ?b * (el - su), ?b * (eu - sl)]"
  have "el - su \<le> e - s" "e - s \<le> eu - sl" using assms(3-6) by (simp_all add: q)
  note corners = corner_bounds [OF assms(7,8) this]
  have "rr_residual_interval r =
      credits_interval (Min ?corners - credit_micros (iu_total (ca_usage c)) - credit_micros (ca_timing c))
        (Max ?corners - credit_micros (iu_total (ca_usage c)) + credit_micros (ca_timing c))"
    using computed_iff [OF assms(1)] assms(2) by (auto simp: propagate_residual_uncertainty_def q Let_def)
  moreover have "Min ?corners - credit_micros (iu_total (ca_usage c)) - credit_micros (ca_timing c) \<le> ?true"
    "?true \<le> Max ?corners - credit_micros (iu_total (ca_usage c)) + credit_micros (ca_timing c)"
    using corners assms(9) by linarith+
  ultimately show ?thesis by (simp add: credits_interval_def saturated_mono)
qed

text \<open>
  C18. Whatever usage the two readings stand for under their quantization, whatever coefficient lies in the calibration's
  uncertainty and whatever shift the timing allows: the residual they give lies in the reported interval. So an
  interval that excludes zero is a discrepancy no admissible reading explains away.
\<close>

theorem residual_interval_encloses:
  assumes "reconcile c = Computed r" "ca_calibration c = Some k"
    and "fst (quantized_used_bounds (ca_first c)) \<le> s" "s \<le> snd (quantized_used_bounds (ca_first c))"
    and "fst (quantized_used_bounds (ca_last c)) \<le> e" "e \<le> snd (quantized_used_bounds (ca_last c))"
    and "micros_per_point (cu_lower (wk_uncertainty k)) \<le> x" "x \<le> micros_per_point (cu_upper (wk_uncertainty k))"
    and "\<bar>shift\<bar> \<le> credit_micros (ca_timing c)"
  shows "lower (rr_residual_interval r) \<le> saturated (x * (e - s) - credit_micros (iu_total (ca_usage c)) + shift) \<and>
    saturated (x * (e - s) - credit_micros (iu_total (ca_usage c)) + shift) \<le> upper (rr_residual_interval r) \<and>
    (reconciles_within_uncertainty r \<or> x * (e - s) - credit_micros (iu_total (ca_usage c)) + shift \<noteq> 0)"
proof -
  let ?true = "x * (e - s) - credit_micros (iu_total (ca_usage c)) + shift"
  have inside: "lower (rr_residual_interval r) \<le> saturated ?true \<and> saturated ?true \<le> upper (rr_residual_interval r)"
    by (rule residual_enclosed [OF assms])
  have "reconciles_within_uncertainty r" if "?true = 0"
    using inside unfolding that by (simp add: reconciles_within_uncertainty_def contains_zero_def saturated_def clamp_int_def less_eq_credits_def)
  then show ?thesis using inside by blast
qed

text \<open>
  With the fitted coefficient inside its own uncertainty and products that fit, the single residual reported lies in
  its interval too.
\<close>

lemma scalar_residual_inside:
  assumes "reconcile c = Computed r" "ca_calibration c = Some k"
    and "micros_per_point (cu_lower (wk_uncertainty k)) \<le> micros_per_point (wk_fitted k)"
    and "micros_per_point (wk_fitted k) \<le> micros_per_point (cu_upper (wk_uncertainty k))"
    and "0 \<le> credit_micros (ca_timing c)"
    and "is_i64 (micros_per_point (wk_fitted k) * pp (fraction_sub (used_ppm (ob_used (ca_last c))) (used_ppm (ob_used (ca_first c)))))"
    and "is_i64 (micros_per_point (wk_fitted k) * pp (fraction_sub (used_ppm (ob_used (ca_last c))) (used_ppm (ob_used (ca_first c)))) -
      credit_micros (iu_total (ca_usage c)))"
  shows "lower (rr_residual_interval r) \<le> rr_residual r \<and> rr_residual r \<le> upper (rr_residual_interval r)"
proof -
  let ?x = "micros_per_point (wk_fitted k)" let ?s = "int (ppm (used_ppm (ob_used (ca_first c))))"
  let ?e = "int (ppm (used_ppm (ob_used (ca_last c))))"
  have "saturated (?x * (?e - ?s) - credit_micros (iu_total (ca_usage c)) + 0) = rr_residual r"
    using computed_iff [OF assms(1)] assms(2,6,7)
    by (simp add: saturated_def clamp_int_def credits_sub_def per_point_times_def fraction_sub_def wrap_i64_id is_i64_def)
  then show ?thesis
    using residual_enclosed [OF assms(1,2) conjunct1 [OF reading_in_band] conjunct2 [OF reading_in_band]
        conjunct1 [OF reading_in_band] conjunct2 [OF reading_in_band] assms(3,4), of 0] assms(5) by simp
qed

text \<open>A computed residual comes from an interval without a reset, over which the meter did not fall.\<close>

lemma computed_movement:
  assumes "reconcile c = Computed r"
  shows "0 \<le> pp (rr_observed_delta r) \<and> ca_health c = Some Current \<and> rr_account r = ob_account (ca_first c) \<and>
    rr_account r = ob_account (ca_last c) \<and> ob_received_at (ca_last c) < ob_resets_at (ca_first c)"
proof -
  have all: "condition_holds c k" for k using computed_iff [OF assms] by blast
  have "is_eligible (evaluate_eligibility c)" using all by (simp add: not_eligible_iff)
  then have "rr_observed_delta r = fraction_sub (used_ppm (ob_used (ca_last c))) (used_ppm (ob_used (ca_first c))) \<and> rr_account r = ca_account c"
    using assms by (auto simp: reconcile_def Let_def split: prod.splits)
  then show ?thesis
    using all [of SameAccountAndWindow] all [of NoResetInside] all [of ApplicableCurrentCalibration] by (simp add: fraction_sub_def)
qed

section \<open>The rolling verdict\<close>

lemma credits_fold:
  assumes "is_i64 a"
  shows "foldl (\<lambda>acc x. credits_add acc (f x)) (Credits a) xs = Credits (wrap_i64 (a + sum_list (map (\<lambda>x. credit_micros (f x)) xs)))"
  using assms
proof (induction xs arbitrary: a)
  case (Cons x xs)
  then show ?case using Cons.IH [OF wrap_i64_range] by (simp add: credits_add_def wrap_i64_add_left add.assoc)
qed (simp add: wrap_i64_id)

lemma interval_fold:
  "lower (foldl (\<lambda>acc x. credits_interval_add acc (f x)) i xs) = foldl (\<lambda>acc x. credits_add acc (lower (f x))) (lower i) xs"
  "upper (foldl (\<lambda>acc x. credits_interval_add acc (f x)) i xs) = foldl (\<lambda>acc x. credits_add acc (upper (f x))) (upper i) xs"
  by (induction xs arbitrary: i) (simp_all add: credits_interval_add_def)

abbreviation low_end :: "reconciled_residual \<Rightarrow> int" where
  "low_end r \<equiv> credit_micros (lower (rr_residual_interval r))"

abbreviation high_end :: "reconciled_residual \<Rightarrow> int" where
  "high_end r \<equiv> credit_micros (upper (rr_residual_interval r))"

lemma rolling_interval:
  assumes "compute_rolling_residual_health rs window m = Some h"
    and "is_i64 (low_end (hd rs))" "is_i64 (high_end (hd rs))"
    and "is_i64 (sum_list (map low_end rs))" "is_i64 (sum_list (map high_end rs))"
  shows "credit_micros (lower (rh_interval h)) = sum_list (map low_end rs)"
    "credit_micros (upper (rh_interval h)) = sum_list (map high_end rs)"
proof -
  obtain r rest where rs: "rs = r # rest"
    using assms(1) by (cases rs) (auto simp: compute_rolling_residual_health_def)
  have h: "rh_interval h = foldl (\<lambda>acc x. credits_interval_add acc (rr_residual_interval x)) (rr_residual_interval r) rest"
    using assms(1) by (auto simp: compute_rolling_residual_health_def rs Let_def)
  show "credit_micros (lower (rh_interval h)) = sum_list (map low_end rs)"
    using credits_fold [of "low_end r" "\<lambda>x. lower (rr_residual_interval x)" rest] assms(2,4)
    by (simp add: h interval_fold rs wrap_i64_id)
  show "credit_micros (upper (rh_interval h)) = sum_list (map high_end rs)"
    using credits_fold [of "high_end r" "\<lambda>x. upper (rr_residual_interval x)" rest] assms(3,5)
    by (simp add: h interval_fold rs wrap_i64_id)
qed

lemma sums_between:
  "list_all2 (\<lambda>r d. low_end r \<le> d \<and> d \<le> high_end r) rs ds \<Longrightarrow>
     sum_list (map low_end rs) \<le> sum_list ds \<and> sum_list ds \<le> sum_list (map high_end rs)"
  by (induction rule: list_all2_induct) auto

text \<open>
  C32. The rolling interval is the sum of the intervals as long as the machine can hold it: a discrepancy then means that
  no residuals admissible for the single intervals cancel out, and with too few intervals no verdict is given.
\<close>

theorem rolling_discrepancy_is_real:
  assumes "compute_rolling_residual_health rs window m = Some h"
    and "list_all2 (\<lambda>r d. low_end r \<le> d \<and> d \<le> high_end r) rs ds"
    and "is_i64 (low_end (hd rs))" "is_i64 (high_end (hd rs))"
    and "is_i64 (sum_list (map low_end rs))" "is_i64 (sum_list (map high_end rs))"
  shows "(rh_verdict h = SuppressedVerdict (length rs) m \<and> length rs < m \<and> rh_patterns h = [] \<and> rh_pointer h = None) \<or>
    (rh_verdict h = ReconcilesWithinUncertainty \<and> m \<le> length rs) \<or>
    (rh_verdict h = Discrepancy (rh_patterns h) \<and> m \<le> length rs \<and> sum_list ds \<noteq> 0)"
proof -
  obtain r rest where rs: "rs = r # rest"
    using assms(1) by (cases rs) (auto simp: compute_rolling_residual_health_def)
  have "sum_list ds \<noteq> 0" if "\<not> contains_zero (rh_interval h)"
    using that sums_between [OF assms(2)] rolling_interval [OF assms(1,3-6)] by (auto simp: contains_zero_def)
  moreover have "rh_verdict h = (if length rs < m then SuppressedVerdict (length rs) m
      else if contains_zero (rh_interval h) then ReconcilesWithinUncertainty else Discrepancy (classify_patterns (map rr_residual rs)))"
    "rh_patterns h = (if length rs < m then [] else classify_patterns (map rr_residual rs))"
    "length rs < m \<Longrightarrow> rh_pointer h = None"
    using assms(1) by (auto simp: compute_rolling_residual_health_def rs Let_def)
  ultimately show ?thesis by (auto simp: not_less)
qed

text \<open>
  The single intervals saturate, the rolling sum wraps: two intervals that both contain zero and reach the end of the
  range add up to one that is reversed and reported as a discrepancy.
\<close>

definition wide_residual :: reconciled_residual where
  "wide_residual =
     \<lparr>rr_account = 1, rr_window_key = ''account'', rr_start = 0, rr_end = 1, rr_observed_delta = PercentagePoints 0,
      rr_observed_credits = Credits 0, rr_explained_credits = Credits 0, rr_explained_change = PercentagePoints 0,
      rr_residual = Credits 0, rr_residual_points = PercentagePoints 0, rr_delta_bounds = \<lparr>md_lower = 0, md_upper = 0\<rparr>,
      rr_observed_interval = \<lparr>lower = Credits 0, upper = Credits 0\<rparr>, rr_timing = Credits 0,
      rr_residual_interval = \<lparr>lower = Credits 0, upper = Credits i64_max\<rparr>, rr_calibration = ''c'',
      rr_provenance = manifest_new [] [] \<lparr>qs_grouping = [], qs_filtering = []\<rparr>\<rparr>"

lemma rolling_interval_wraps:
  "reconciles_within_uncertainty wide_residual"
  "\<exists>h. compute_rolling_residual_health [wide_residual, wide_residual] 0 1 = Some h \<and>
     rh_interval h = \<lparr>lower = Credits 0, upper = Credits (- 2)\<rparr> \<and> rh_verdict h = Discrepancy []"
  by (simp_all add: reconciles_within_uncertainty_def contains_zero_def wide_residual_def compute_rolling_residual_health_def
      credits_interval_add_def credits_add_def classify_patterns_def Let_def wrap_i64_def)

text \<open>The patterns exclude each other where their readings do.\<close>

lemma patterns_exclusive:
  assumes "ps = classify_patterns rs"
  shows "distinct ps \<and> \<not> (PersistentlyPositive \<in> set ps \<and> PersistentlyNegative \<in> set ps) \<and>
    \<not> (AlternatingNetZero \<in> set ps \<and> StepChange \<in> set ps) \<and>
    (AlternatingNetZero \<in> set ps \<longrightarrow> ps = [AlternatingNetZero]) \<and> (ps \<noteq> [] \<longrightarrow> 3 \<le> length rs)"
proof (cases rs)
  case (Cons a as)
  have "\<not> list_all (\<lambda>r. credit_micros r > 0) rs \<and> \<not> list_all (\<lambda>r. credit_micros r < 0) rs" if "alternates rs" "4 \<le> length rs"
    using that Cons by (cases as) (auto simp: Let_def sgn_if split: if_splits)
  moreover have "\<not> (list_all (\<lambda>r. credit_micros r > 0) rs \<and> list_all (\<lambda>r. credit_micros r < 0) rs)" using Cons by auto
  ultimately show ?thesis unfolding assms by (auto simp: classify_patterns_def Let_def)
qed (use assms in \<open>simp add: classify_patterns_def\<close>)

section \<open>An interval\<close>

definition observation_at :: "string \<Rightarrow> utc_timestamp \<Rightarrow> nat \<Rightarrow> candidate_observation" where
  "observation_at i t reading =
     \<lparr>ob_id = i, ob_account = 1, ob_received_at = t, ob_window_key = ''account'',
      ob_used = QuotaUsed (QuotaFractionPpm reading), ob_resets_at = 100,
      ob_resolution = ReportedResolution (QuotaFractionPpm 10000), ob_quantization = RoundedToNearest\<rparr>"

definition candidate_example :: candidate_interval where
  "candidate_example =
     \<lparr>ca_account = 1, ca_window_key = ''account'', ca_first = observation_at ''o1'' 10 100000,
      ca_last = observation_at ''o2'' 20 300000, ca_resets = [],
      ca_coverage = \<lparr>ic_acceptable = True, ic_destructive_gap = False\<rparr>,
      ca_calibration = Some (sample_calibration ''A''), ca_health = Some Current,
      ca_settlement = \<lparr>is_settled = True, is_lag_satisfied = True\<rparr>,
      ca_usage = \<lparr>iu_events = [], iu_total = Credits 500000\<rparr>, ca_timing = Credits 0\<rparr>"

lemma sample_spread:
  "wk_uncertainty (sample_calibration i) = \<lparr>cu_lower = CreditsPerPercentagePoint 8, cu_upper = CreditsPerPercentagePoint 10\<rparr>"
  by (simp add: sample_calibration_def)

lemma candidate_eligible: "condition_holds candidate_example k"
  by (cases k) (simp_all add: candidate_example_def observation_at_def sample_calibration_def sample_scope_def)

lemma eligible_computed: "\<forall>k. condition_holds c k \<Longrightarrow> \<exists>r. reconcile c = Computed r"
proof -
  assume "\<forall>k. condition_holds c k"
  then have "is_eligible (evaluate_eligibility c)" by (simp add: not_eligible_iff)
  then show ?thesis
    by (cases "propagate_residual_uncertainty c (the (ca_calibration c)) (iu_total (ca_usage c))") (simp add: reconcile_def Let_def)
qed

lemma candidate_bounds:
  "quantized_used_bounds (ca_first candidate_example) = (95000, 105000)"
  "quantized_used_bounds (ca_last candidate_example) = (295000, 305000)"
  "credit_micros (iu_total (ca_usage candidate_example)) = 500000" "credit_micros (ca_timing candidate_example) = 0"
  "ca_calibration candidate_example = Some (sample_calibration ''A'')"
  by (simp_all add: candidate_example_def observation_at_def quantized_used_bounds_def)

theorem residual_interval_encloses_witness:
  "\<exists>r. reconcile candidate_example = Computed r \<and> lower (rr_residual_interval r) \<le> Credits 1300000 \<and>
     Credits 1300000 \<le> upper (rr_residual_interval r)"
proof -
  obtain r where r: "reconcile candidate_example = Computed r" using eligible_computed candidate_eligible by blast
  have "saturated 1300000 = Credits 1300000" by (simp add: saturated_def clamp_int_def)
  then show ?thesis
    using r residual_interval_encloses [OF r candidate_bounds(5), of 100000 300000 9 0] by (simp add: candidate_bounds sample_spread)
qed

theorem rolling_discrepancy_is_real_witness:
  "\<exists>h. compute_rolling_residual_health [wide_residual] 0 1 = Some h \<and> rh_verdict h \<noteq> SuppressedVerdict 1 1"
proof -
  obtain h where h: "compute_rolling_residual_health [wide_residual] 0 1 = Some h"
    by (simp add: compute_rolling_residual_health_def Let_def)
  show ?thesis
    using rolling_discrepancy_is_real [OF h, of "[5]"] h by (auto simp: wide_residual_def is_i64_def)
qed

end
