(* ===== verification/Model_Table.thy ===== *)
theory Model_Table
  imports Glob Rust_Strings
begin

text \<open>
  \<open>src/config/models.rs\<close>: the table that says which vendor and which priced model a stored model id is valued as,
  the rules it refuses, the printable names and the account a model id decides by itself. The matcher is the loop of
  \<open>Glob\<close>.
\<close>

section \<open>Rules\<close>

record model_rule =
  ml_pattern :: string
  ml_vendor :: string
  ml_model :: string
  ml_name :: "string option"

datatype model_error =
  EmptyPattern
| EmptyVendor string
| EmptyModel string
| EmptyName string
| ListedTwice string
| CoveredBy string string

definition new_with_name :: "string \<Rightarrow> string \<Rightarrow> string \<Rightarrow> string option \<Rightarrow> model_error + model_rule" where
  "new_with_name pattern vendor model name =
     (if pattern = [] then Inl EmptyPattern
      else if vendor = [] then Inl (EmptyVendor pattern)
      else if model = [] then Inl (EmptyModel pattern)
      else if name = Some [] then Inl (EmptyName pattern)
      else Inr \<lparr>ml_pattern = pattern, ml_vendor = vendor, ml_model = model, ml_name = name\<rparr>)"

definition model_rule_new :: "string \<Rightarrow> string \<Rightarrow> string \<Rightarrow> model_error + model_rule" where
  "model_rule_new pattern vendor model = new_with_name pattern vendor model None"

definition with_name :: "model_rule \<Rightarrow> string \<Rightarrow> model_error + model_rule" where
  "with_name rule name =
     (if name = [] then Inl (EmptyName (ml_pattern rule)) else Inr (rule\<lparr>ml_name := Some name\<rparr>))"

section \<open>The table\<close>

definition is_meta :: "char \<Rightarrow> bool" where
  "is_meta c \<longleftrightarrow> c = CHR ''*'' \<or> c = CHR ''?''"

definition prefix_glob :: "string \<Rightarrow> string option" where
  "prefix_glob pattern =
     (case strip_suffix ''*'' pattern of
        None \<Rightarrow> None
      | Some literal \<Rightarrow> if list_ex is_meta literal then None else Some literal)"

definition literal_head :: "string \<Rightarrow> string" where
  "literal_head pattern = takeWhile (\<lambda>c. \<not> is_meta c) pattern"

definition shadows :: "string \<Rightarrow> string \<Rightarrow> bool" where
  "shadows earlier later =
     (case prefix_glob earlier of None \<Rightarrow> False | Some prefix \<Rightarrow> starts_with prefix (literal_head later))"

type_synonym model_table = "model_rule list"

text \<open>The inner loop over the rules before this one, then the outer loop.\<close>

fun check_earlier :: "model_rule list \<Rightarrow> model_rule \<Rightarrow> model_error option" where
  "check_earlier [] rule = None"
| "check_earlier (earlier # others) rule =
     (if ml_pattern earlier = ml_pattern rule then Some (ListedTwice (ml_pattern rule))
      else if shadows (ml_pattern earlier) (ml_pattern rule) then Some (CoveredBy (ml_pattern rule) (ml_pattern earlier))
      else check_earlier others rule)"

fun check_rules :: "model_rule list \<Rightarrow> model_rule list \<Rightarrow> model_error option" where
  "check_rules before [] = None"
| "check_rules before (rule # others) =
     (case check_earlier before rule of Some e \<Rightarrow> Some e | None \<Rightarrow> check_rules (before @ [rule]) others)"

definition table_new :: "model_rule list \<Rightarrow> model_error + model_table" where
  "table_new rules = (case check_rules [] rules of Some e \<Rightarrow> Inl e | None \<Rightarrow> Inr rules)"

section \<open>What an id is priced as\<close>

datatype priced_model = Mapped string string | Unmapped

definition built_in_vendors :: "(string \<times> string) list" where
  "built_in_vendors =
     [(''claude*'', ''anthropic''), (''gpt*'', ''openai''), (''o?'', ''openai''), (''o?-*'', ''openai''),
      (''opencode/*'', ''opencode''), (''opencode-go/*'', ''opencode'')]"

definition built_in_account_prefixes :: "(string \<times> string) list" where
  "built_in_account_prefixes = [(''opencode-go/'', ''opencode-go''), (''opencode/'', ''opencode-free'')]"

definition globs :: "string \<Rightarrow> string \<Rightarrow> bool" where
  "globs pattern text \<longleftrightarrow> glob_match pattern text = Some True"

definition matched_rule :: "model_table \<Rightarrow> string \<Rightarrow> model_rule option" where
  "matched_rule t model_id = (if model_id = [] then None else find (\<lambda>rule. globs (ml_pattern rule) model_id) t)"

definition built_in_match :: "string \<Rightarrow> (string \<times> string) option" where
  "built_in_match model_id = find (\<lambda>(pattern, _). globs pattern model_id) built_in_vendors"

definition price_model :: "model_table \<Rightarrow> string \<Rightarrow> priced_model" where
  "price_model t model_id =
     (if model_id = [] then Unmapped
      else (case find (\<lambda>rule. globs (ml_pattern rule) model_id) t of
              Some rule \<Rightarrow> Mapped (ml_vendor rule) (ml_model rule)
            | None \<Rightarrow>
                (case built_in_match model_id of
                   Some (_, vendor) \<Rightarrow> Mapped vendor model_id
                 | None \<Rightarrow> Unmapped)))"

definition display_name :: "model_table \<Rightarrow> string \<Rightarrow> string option" where
  "display_name t model_id = (case matched_rule t model_id of None \<Rightarrow> None | Some rule \<Rightarrow> ml_name rule)"

section \<open>The account an id decides\<close>

definition key_slot_suffix :: "string \<Rightarrow> string option" where
  "key_slot_suffix model_id =
     find (\<lambda>slot. case strip_suffix slot model_id of
                    None \<Rightarrow> False
                  | Some head \<Rightarrow> head \<noteq> [] \<and> last head = CHR ''-'') [''k1'', ''k2'', ''k3'']"

definition slot_account :: "model_table \<Rightarrow> string \<Rightarrow> string option" where
  "slot_account t model_id =
     (case key_slot_suffix model_id of
        None \<Rightarrow> None
      | Some slot \<Rightarrow>
          let base = take (length model_id - length slot - 1) model_id
          in if base = [] then None
             else (case matched_rule t model_id of
                     Some rule \<Rightarrow> if globs (ml_pattern rule) base then Some (ml_vendor rule @ ''-'' @ slot) else None
                   | None \<Rightarrow>
                       (case built_in_match model_id of
                          Some (pattern, vendor) \<Rightarrow> if globs pattern base then Some (vendor @ ''-'' @ slot) else None
                        | None \<Rightarrow> None)))"

definition prefix_account :: "string \<Rightarrow> string option" where
  "prefix_account model_id =
     map_option snd (find (\<lambda>(prefix, _). starts_with prefix model_id) built_in_account_prefixes)"

definition event_account :: "model_table \<Rightarrow> string \<Rightarrow> string option" where
  "event_account t model_id =
     (case prefix_account model_id of Some account \<Rightarrow> Some account | None \<Rightarrow> slot_account t model_id)"

section \<open>A refused rule can never decide anything\<close>

text \<open>The matcher reads a star in the id as a literal first; ids without one are matched as the pattern says.\<close>

lemma globs_meaning: "CHR ''*'' \<notin> set txs \<Longrightarrow> globs pattern txs \<longleftrightarrow> glob_spec pattern txs"
  by (simp add: globs_def glob_match_meaning)

lemma glob_spec_all: "glob_spec ''*'' txs"
  by (induction txs) simp_all

lemma glob_spec_head: "glob_spec pattern txs \<Longrightarrow> \<exists>tail. txs = literal_head pattern @ tail"
proof (induction pattern txs rule: glob_spec.induct)
  case (3 c ps t ts)
  show ?case
  proof (cases "is_meta c")
    case False
    then have "c = t" "glob_spec ps ts" using 3(4) by (auto simp: is_meta_def)
    then show ?thesis using 3(3) False by (auto simp: is_meta_def literal_head_def)
  qed (simp add: literal_head_def)
qed (auto simp: literal_head_def is_meta_def)

lemma glob_spec_prefix: "list_all (\<lambda>c. \<not> is_meta c) lit \<Longrightarrow> glob_spec (lit @ ''*'') (lit @ tail)"
  by (induction lit) (auto simp: glob_spec_all is_meta_def)

lemma shadows_covers:
  assumes "shadows earlier later" "glob_spec later txs"
  shows "glob_spec earlier txs"
proof -
  obtain lit where lit: "earlier = lit @ ''*''" "list_all (\<lambda>c. \<not> is_meta c) lit" "starts_with lit (literal_head later)"
    using assms(1) by (auto simp: shadows_def prefix_glob_def strip_suffix_Some list_all_iff list_ex_iff split: option.splits if_splits)
  obtain tail where "txs = literal_head later @ tail" using glob_spec_head [OF assms(2)] by blast
  then show ?thesis using lit glob_spec_prefix [OF lit(2)] by (auto simp: starts_with_iff)
qed

text \<open>What the check finds: a rule all of whose ids an earlier rule takes.\<close>

definition covers :: "model_rule \<Rightarrow> model_rule \<Rightarrow> bool" where
  "covers earlier rule \<longleftrightarrow> ml_pattern earlier = ml_pattern rule \<or> shadows (ml_pattern earlier) (ml_pattern rule)"

lemma covers_globs:
  "covers earlier rule \<Longrightarrow> CHR ''*'' \<notin> set model_id \<Longrightarrow> globs (ml_pattern rule) model_id \<Longrightarrow> globs (ml_pattern earlier) model_id"
  by (auto simp: covers_def globs_meaning shadows_covers)

lemma check_earlier_None: "check_earlier before rule = None \<longleftrightarrow> list_all (\<lambda>e. \<not> covers e rule) before"
  by (induction before) (auto simp: covers_def)

lemma check_rules_refuses:
  "check_rules before rules \<noteq> None \<Longrightarrow>
     \<exists>xs rule ys. rules = xs @ rule # ys \<and> list_ex (\<lambda>e. covers e rule) (before @ xs)"
proof (induction rules arbitrary: before)
  case (Cons a rules)
  show ?case
  proof (cases "check_earlier before a")
    case None
    then obtain xs rule ys where "rules = xs @ rule # ys" "list_ex (\<lambda>e. covers e rule) ((before @ [a]) @ xs)"
      using Cons by fastforce
    then have "a # rules = (a # xs) @ rule # ys \<and> list_ex (\<lambda>e. covers e rule) (before @ a # xs)" by simp
    then show ?thesis by blast
  next
    case (Some e)
    then have "list_ex (\<lambda>e. covers e a) before"
      using check_earlier_None [of before a] by (auto simp: list_all_iff list_ex_iff)
    then have "a # rules = [] @ a # rules \<and> list_ex (\<lambda>e. covers e a) (before @ [])" by simp
    then show ?thesis by blast
  qed
qed simp

lemma table_new_refuses:
  assumes "table_new rules = Inl e"
  shows "\<exists>xs rule ys. rules = xs @ rule # ys \<and> list_ex (\<lambda>earlier. covers earlier rule) xs"
  using check_rules_refuses [of "[]" rules] assms by (auto simp: table_new_def split: option.splits)

text \<open>A rule that an earlier one covers can be left out of the search.\<close>

lemma find_without_covered:
  assumes "list_ex (\<lambda>earlier. covers earlier rule) xs" "CHR ''*'' \<notin> set model_id"
  shows "find (\<lambda>r. globs (ml_pattern r) model_id) (xs @ rule # ys) = find (\<lambda>r. globs (ml_pattern r) model_id) (xs @ ys)"
  using assms(1)
proof (induction xs)
  case (Cons a xs)
  show ?case
  proof (cases "globs (ml_pattern a) model_id \<or> list_ex (\<lambda>earlier. covers earlier rule) xs")
    case False
    then have "\<not> globs (ml_pattern rule) model_id" using Cons.prems covers_globs assms(2) by auto
    then show ?thesis by (induction xs) auto
  qed (use Cons.IH in auto)
qed simp

lemma find_covered_same:
  assumes "list_ex (\<lambda>earlier. covers earlier rule) xs" "CHR ''*'' \<notin> set model_id"
  shows "matched_rule (xs @ rule # ys) model_id = matched_rule (xs @ ys) model_id"
    "price_model (xs @ rule # ys) model_id = price_model (xs @ ys) model_id"
    "display_name (xs @ rule # ys) model_id = display_name (xs @ ys) model_id"
    "slot_account (xs @ rule # ys) model_id = slot_account (xs @ ys) model_id"
    "event_account (xs @ rule # ys) model_id = event_account (xs @ ys) model_id"
proof -
  show m: "matched_rule (xs @ rule # ys) model_id = matched_rule (xs @ ys) model_id"
    using find_without_covered [OF assms] by (simp add: matched_rule_def)
  show "price_model (xs @ rule # ys) model_id = price_model (xs @ ys) model_id"
    using find_without_covered [OF assms] by (simp add: price_model_def)
  show "display_name (xs @ rule # ys) model_id = display_name (xs @ ys) model_id" by (simp add: display_name_def m)
  show s: "slot_account (xs @ rule # ys) model_id = slot_account (xs @ ys) model_id" unfolding slot_account_def m ..
  show "event_account (xs @ rule # ys) model_id = event_account (xs @ ys) model_id" unfolding event_account_def s ..
qed

text \<open>
  C23. A table is refused only over a rule that could be deleted without any model id that has no star in it being priced,
  named or accounted differently: for such ids the check never costs a rule that could have fired.
\<close>

theorem refused_rule_decides_nothing:
  assumes "table_new rules = Inl e"
  shows "\<exists>xs rule ys. rules = xs @ rule # ys \<and>
    (\<forall>model_id. CHR ''*'' \<notin> set model_id \<longrightarrow>
      price_model rules model_id = price_model (xs @ ys) model_id \<and>
      display_name rules model_id = display_name (xs @ ys) model_id \<and>
      event_account rules model_id = event_account (xs @ ys) model_id)"
  using table_new_refuses [OF assms] find_covered_same by metis

definition rules_example :: "model_rule list" where
  "rules_example =
     [\<lparr>ml_pattern = ''glm-5*'', ml_vendor = ''ollama'', ml_model = ''glm-5'', ml_name = None\<rparr>,
      \<lparr>ml_pattern = ''glm-5-flash*'', ml_vendor = ''ollama'', ml_model = ''glm-5-flash'', ml_name = None\<rparr>]"

lemma example_refused: "table_new rules_example = Inl (CoveredBy ''glm-5-flash*'' ''glm-5*'')"
  by (simp add: table_new_def rules_example_def shadows_def prefix_glob_def strip_suffix_def is_meta_def literal_head_def
      starts_with_def)

theorem refused_rule_decides_nothing_witness:
  "\<exists>xs rule ys. rules_example = xs @ rule # ys \<and>
     price_model rules_example ''glm-5-flash-k1'' = price_model (xs @ ys) ''glm-5-flash-k1''"
proof -
  have "CHR ''*'' \<notin> set ''glm-5-flash-k1''" by simp
  then show ?thesis using refused_rule_decides_nothing [OF example_refused] by blast
qed

text \<open>With a star in the id the literal reading wins, and the covered rule is the one that fires.\<close>

lemma covered_rule_fires_on_a_star:
  "globs ''glm-5*x'' ''glm-5*x'' \<and> \<not> globs ''glm-5*'' ''glm-5*x'' \<and> shadows ''glm-5*'' ''glm-5*x''"
  by (simp add: globs_def glob_match_def glob_loop.simps shadows_def prefix_glob_def strip_suffix_def is_meta_def
      literal_head_def starts_with_def)

section \<open>The slot's vendor is the vendor the event is priced under\<close>

lemma slot_split:
  assumes "key_slot_suffix model_id = Some slot"
  shows "slot \<in> {''k1'', ''k2'', ''k3''} \<and> (\<exists>base. model_id = base @ ''-'' @ slot \<and>
    take (length model_id - length slot - 1) model_id = base)"
proof -
  have slot: "slot \<in> {''k1'', ''k2'', ''k3''}"
    and "case strip_suffix slot model_id of None \<Rightarrow> False | Some head \<Rightarrow> head \<noteq> [] \<and> last head = CHR ''-''"
    using assms by (auto simp: key_slot_suffix_def find_Some_iff less_Suc_eq_0_disj nth_Cons' split: if_splits)
  then obtain head where h: "model_id = head @ slot" "head \<noteq> []" "last head = CHR ''-''"
    by (auto simp: strip_suffix_Some split: option.splits)
  then have "model_id = butlast head @ ''-'' @ slot" using append_butlast_last_id [OF h(2)] by (metis append.assoc)
  then show ?thesis using slot by auto
qed

text \<open>
  C33. An id that reports a key slot is priced under that slot's vendor, by the first rule of the table whose pattern it
  matches or else by the first built-in pattern it matches, and what is left of it without the suffix still matches
  the pattern of that very rule.
\<close>

theorem slot_vendor_prices_the_event:
  assumes "slot_account t model_id = Some account"
  shows "\<exists>base slot vendor model pattern. model_id = base @ ''-'' @ slot \<and> slot \<in> {''k1'', ''k2'', ''k3''} \<and>
    account = vendor @ ''-'' @ slot \<and> price_model t model_id = Mapped vendor model \<and>
    globs pattern model_id \<and> globs pattern base \<and>
    (case matched_rule t model_id of
       Some rule \<Rightarrow> pattern = ml_pattern rule \<and> vendor = ml_vendor rule \<and> model = ml_model rule
     | None \<Rightarrow> built_in_match model_id = Some (pattern, vendor) \<and> model = model_id)"
proof -
  obtain slot where slot: "key_slot_suffix model_id = Some slot" using assms by (auto simp: slot_account_def split: option.splits)
  obtain base where base: "slot \<in> {''k1'', ''k2'', ''k3''}" "model_id = base @ ''-'' @ slot"
    "take (length model_id - length slot - 1) model_id = base"
    using slot_split [OF slot] by blast
  note base3 = base(3) [unfolded diff_diff_left add.commute [of _ 1] plus_1_eq_Suc]
  have ne: "model_id \<noteq> []" using base(2) by simp
  show ?thesis
  proof (cases "matched_rule t model_id")
    case (Some rule)
    then have "globs (ml_pattern rule) base" "account = ml_vendor rule @ ''-'' @ slot"
      using assms slot by (auto simp: slot_account_def base3 Let_def split: if_splits)
    moreover have found: "find (\<lambda>r. globs (ml_pattern r) model_id) t = Some rule" using Some ne by (simp add: matched_rule_def)
    then have "globs (ml_pattern rule) model_id" by (auto simp: find_Some_iff)
    moreover have "price_model t model_id = Mapped (ml_vendor rule) (ml_model rule)" using ne found by (simp add: price_model_def)
    ultimately show ?thesis using base(1,2) Some by auto
  next
    case None
    then obtain pattern vendor where b: "built_in_match model_id = Some (pattern, vendor)" "globs pattern base"
      "account = vendor @ ''-'' @ slot"
      using assms slot by (auto simp: slot_account_def base3 Let_def split: if_splits option.splits)
    have "find (\<lambda>r. globs (ml_pattern r) model_id) t = None" using None ne by (simp add: matched_rule_def)
    then have "price_model t model_id = Mapped vendor model_id" using b(1) ne by (simp add: price_model_def)
    moreover have "globs pattern model_id" using b(1) by (auto simp: built_in_match_def find_Some_iff)
    ultimately show ?thesis using base(1,2) b None by auto
  qed
qed

lemma slot_example: "slot_account [] ''gpt-5-k2'' = Some ''openai-k2''"
  by (simp add: slot_account_def key_slot_suffix_def strip_suffix_def matched_rule_def built_in_match_def built_in_vendors_def
      globs_meaning)

theorem slot_vendor_prices_the_event_witness:
  "price_model [] ''gpt-5-k2'' = Mapped ''openai'' ''gpt-5-k2'' \<and> globs ''gpt*'' ''gpt-5''"
proof -
  have "matched_rule [] ''gpt-5-k2'' = None" "built_in_match ''gpt-5-k2'' = Some (''gpt*'', ''openai'')"
    by (simp_all add: matched_rule_def built_in_match_def built_in_vendors_def globs_meaning)
  then show ?thesis using slot_vendor_prices_the_event [OF slot_example] by auto
qed

end
