(* ===== verification/Configuration_File.thy ===== *)
theory Configuration_File
  imports Durations Sessions Model_Table
begin

text \<open>
  \<open>src/config/mod.rs\<close>, the file: which keys a parsed TOML table may hold and how the sections without overrides
  (accounts, trackers, transcripts, models, aliases, layout) are read and checked. The TOML crate's table is a list of
  pairs in its iteration order; a float of the crate is an abstract value. An error carries what its message quotes.
\<close>

section \<open>TOML values\<close>

datatype 'f toml_value =
  TomlString string
| TomlInteger i64
| TomlFloat 'f
| TomlBoolean bool
| TomlDatetime string
| TomlArray "'f toml_value list"
| TomlTable "(string \<times> 'f toml_value) list"

type_synonym 'f toml_table = "(string \<times> 'f toml_value) list"

definition toml_get :: "'f toml_table \<Rightarrow> string \<Rightarrow> 'f toml_value option" where
  "toml_get t key = map_of t key"

fun as_table :: "'f toml_value \<Rightarrow> 'f toml_table option" where
  "as_table (TomlTable t) = Some t"
| "as_table _ = None"

fun as_array :: "'f toml_value \<Rightarrow> 'f toml_value list option" where
  "as_array (TomlArray vs) = Some vs"
| "as_array _ = None"

fun as_str :: "'f toml_value \<Rightarrow> string option" where
  "as_str (TomlString s) = Some s"
| "as_str _ = None"

definition get_table :: "'f toml_table \<Rightarrow> string \<Rightarrow> 'f toml_table option" where
  "get_table t key = Option.bind (toml_get t key) as_table"

definition get_array :: "'f toml_table \<Rightarrow> string \<Rightarrow> 'f toml_value list option" where
  "get_array t key = Option.bind (toml_get t key) as_array"

definition get_str :: "'f toml_table \<Rightarrow> string \<Rightarrow> string option" where
  "get_str t key = Option.bind (toml_get t key) as_str"

definition unwrap_or_default :: "string option \<Rightarrow> string" where
  "unwrap_or_default v = (case v of None \<Rightarrow> [] | Some s \<Rightarrow> s)"

section \<open>Errors\<close>

datatype setting_error =
  BadDuration duration_error
| NotPositiveInteger string
| BelowOne string
| NotANumber string
| OutsideUnit string
| NotAPercentile string
| PercentileRange nat
| UnknownQuantileMethod string
| NotABoolean string
| NotAWholeNumber string
| ZeroBound
| BeyondU32 nat
| NotPositiveFinite string
| UnknownHeadroomBound string

datatype schedule_error =
  LeadWithinTick monotonic_duration monotonic_duration
| CadenceBelowTick monotonic_duration monotonic_duration
| HorizonTooShort monotonic_duration monotonic_duration monotonic_duration

datatype shape_error =
  TrackerNotATable nat
| TrackerKeyNotAString string
| EmptyTrackerName nat
| TrackersNotAnArray
| SingularTracker
| ModelEntryNotATable
| ModelKeyNotAString string
| ModelsNotAnArray
| AliasNotAString string string
| LayoutNotAbsolute string string
| LayoutNotAString string
| LayoutIgnoreShape

datatype account_error =
  ExclusivityNotAString
| UnknownExclusivity string
| CodexHomeNotAString
| EmptyCodexHome
| CodexHomeElsewhere string string
| PlanTierNotAString
| EmptyPlanTier string
| MissingWorkspace string
| SharedCredential string string string string

datatype config_error =
  UnknownKey string string
| MissingKey string string
| InvalidToml string string
| BadSetting string setting_error
| BadSchedule schedule_error
| UnorderedPercentiles nat nat nat
| BadShape shape_error
| BadAccount account_error
| DuplicateTracker nat nat string
| ModelTableRefused model_error
| AliasTableRefused alias_error

section \<open>Known keys\<close>

definition known_sections :: "string list" where
  "known_sections =
     [''schema'', ''state'', ''sampling'', ''ingest'', ''freshness'', ''coverage'', ''attribution'',
      ''task_distribution'', ''can_run'', ''reconciliation'', ''accounts'', ''transcripts'', ''models'', ''trackers'',
      ''valuation'', ''backup'', ''drill'', ''adapter_semantics'', ''calibration'', ''doctor'', ''export'',
      ''anthropic'', ''antigravity'', ''projects'', ''repositories'', ''layout'']"

text \<open>The sections whose keys are checked, in the order they are.\<close>

definition section_keys :: "(string \<times> string list) list" where
  "section_keys =
     [(''state'', [''dir'']),
      (''sampling'', [''scheduler_tick'', ''default_interval'', ''reset_edge_lead'', ''request_timeout'',
        ''busy_timeout'', ''command_budget'', ''max_concurrent_requests'', ''retry_after_cap'',
        ''auth_backoff_threshold'', ''auth_backoff_cap'']),
      (''ingest'', [''max_batch_events'', ''max_batch_files'', ''max_batch_seconds'']),
      (''freshness'', [''meter'']),
      (''coverage'', [''attempt_floor'', ''measurement_floor'']),
      (''attribution'', [''quality_floor'', ''recent_window'']),
      (''task_distribution'', [''central_low'', ''central_high'', ''upper'', ''min_samples'', ''quantile_method'',
        ''attribution_floor'']),
      (''can_run'', [''labels'', ''ample_margin_multiple'', ''headroom_bound'']),
      (''reconciliation'', [''residual_window'', ''residual_min_eligible'']),
      (''valuation'', [''default_rate_book'']),
      (''backup'', [''review_after'', ''destination'', ''keep_daily'', ''keep_weekly'', ''keep_monthly'',
        ''keep_yearly'', ''scheduled'']),
      (''drill'', [''max_age'', ''result'']),
      (''adapter_semantics'', [''max_comparison_age'']),
      (''calibration'', [''review_after'']),
      (''doctor'', [''meter_anomaly_horizon'']),
      (''export'', [''clipboard_command'']),
      (''anthropic'', [''refresh'', ''statusline'']),
      (''antigravity'', [''refresh'']),
      (''layout'', [''repositories'', ''worktrees'', ''ignore''])]"

definition account_keys :: "string list" where
  "account_keys =
     [''name'', ''provider'', ''credential'', ''exclusivity_policy'', ''opencode_workspace'', ''codex_home'', ''plan_tier'']"

definition credential_keys :: "string \<Rightarrow> string list option" where
  "credential_keys kind =
     (if kind = ''profile'' then Some [''kind'', ''ref'']
      else if kind = ''file'' then Some [''kind'', ''path'']
      else if kind = ''env'' then Some [''kind'', ''name'']
      else None)"

definition transcript_keys :: "string list" where
  "transcript_keys = [''name'', ''root'', ''pattern'', ''format'', ''usage_evidence'']"

definition model_keys :: "string list" where
  "model_keys = [''pattern'', ''vendor'', ''model'', ''name'']"

definition tracker_keys :: "string list" where
  "tracker_keys = [''name'', ''kind'', ''path'']"

text \<open>A loop of checks with the question mark in its body.\<close>

fun check_all :: "('a \<Rightarrow> 'e + unit) \<Rightarrow> 'a list \<Rightarrow> 'e + unit" where
  "check_all f [] = Inr ()"
| "check_all f (x # xs) = and_then (f x) (\<lambda>_. check_all f xs)"

definition check_keys :: "'f toml_table \<Rightarrow> string list \<Rightarrow> string \<Rightarrow> string \<Rightarrow> config_error + unit" where
  "check_keys t allowed path display =
     check_all (\<lambda>(key, _). if key \<in> set allowed then Inr () else Inl (UnknownKey (path @ ''.'' @ key) display)) t"

definition check_required_strings :: "'f toml_table \<Rightarrow> (string \<Rightarrow> string) \<Rightarrow> (string \<Rightarrow> shape_error) \<Rightarrow> string list \<Rightarrow> string \<Rightarrow>
    config_error + unit" where
  "check_required_strings entry path not_a_string keys display =
     check_all (\<lambda>key. case toml_get entry key of
         Some (TomlString _) \<Rightarrow> Inr ()
       | Some _ \<Rightarrow> Inl (BadShape (not_a_string key))
       | None \<Rightarrow> Inl (MissingKey (path key) display)) keys"

definition tracker_path :: "nat \<Rightarrow> string \<Rightarrow> string" where
  "tracker_path index key = ''trackers['' @ show_nat index @ ''].'' @ key"

definition check_tracker :: "string \<Rightarrow> nat \<times> 'f toml_value \<Rightarrow> config_error + unit" where
  "check_tracker display =
     (\<lambda>(index, entry). case as_table entry of
        None \<Rightarrow> Inl (BadShape (TrackerNotATable index))
      | Some t \<Rightarrow>
          and_then (check_keys t tracker_keys ''trackers[]'' display) (\<lambda>_.
          and_then (check_required_strings t (tracker_path index) TrackerKeyNotAString [''name'', ''kind'', ''path''] display) (\<lambda>_.
          if unwrap_or_default (get_str t ''name'') = [] then Inl (BadShape (EmptyTrackerName index)) else Inr ())))"

definition check_trackers :: "'f toml_table \<Rightarrow> string \<Rightarrow> config_error + unit" where
  "check_trackers table display =
     (case toml_get table ''trackers'' of
        Some (TomlArray entries) \<Rightarrow> check_all (check_tracker display) (enumerate 0 entries)
      | Some _ \<Rightarrow> Inl (BadShape TrackersNotAnArray)
      | None \<Rightarrow> Inr ())"

definition check_section :: "'f toml_table \<Rightarrow> string \<Rightarrow> string \<times> string list \<Rightarrow> config_error + unit" where
  "check_section table display =
     (\<lambda>(name, allowed). case get_table table name of
        Some t \<Rightarrow> check_keys t allowed name display
      | None \<Rightarrow> Inr ())"

definition check_account :: "string \<Rightarrow> 'f toml_value \<Rightarrow> config_error + unit" where
  "check_account display entry =
     (case as_table entry of
        None \<Rightarrow> Inr ()
      | Some t \<Rightarrow>
          and_then (check_keys t account_keys ''accounts[]'' display) (\<lambda>_.
          case get_table t ''credential'' of
            None \<Rightarrow> Inr ()
          | Some cred \<Rightarrow>
              (case Option.bind (get_str cred ''kind'') credential_keys of
                 Some allowed \<Rightarrow> check_keys cred allowed ''accounts[].credential'' display
               | None \<Rightarrow> Inr ())))"

definition check_transcript :: "string \<Rightarrow> 'f toml_value \<Rightarrow> config_error + unit" where
  "check_transcript display entry =
     (case as_table entry of None \<Rightarrow> Inr () | Some t \<Rightarrow> check_keys t transcript_keys ''transcripts[]'' display)"

definition check_model_entry :: "string \<Rightarrow> 'f toml_value \<Rightarrow> config_error + unit" where
  "check_model_entry display entry =
     (case as_table entry of
        None \<Rightarrow> Inl (BadShape ModelEntryNotATable)
      | Some t \<Rightarrow>
          and_then (check_keys t model_keys ''models[]'' display) (\<lambda>_.
          and_then (check_required_strings t (\<lambda>key. ''models[].'' @ key) ModelKeyNotAString
            [''pattern'', ''vendor'', ''model''] display) (\<lambda>_.
          case toml_get t ''name'' of
            Some (TomlString _) \<Rightarrow> Inr ()
          | Some _ \<Rightarrow> Inl (BadShape (ModelKeyNotAString ''name''))
          | None \<Rightarrow> Inr ())))"

definition check_models :: "'f toml_table \<Rightarrow> string \<Rightarrow> config_error + unit" where
  "check_models table display =
     (case toml_get table ''models'' of
        Some (TomlArray entries) \<Rightarrow> check_all (check_model_entry display) entries
      | Some _ \<Rightarrow> Inl (BadShape ModelsNotAnArray)
      | None \<Rightarrow> Inr ())"

definition check_aliases :: "'f toml_table \<Rightarrow> string \<Rightarrow> config_error + unit" where
  "check_aliases table name =
     (case get_table table name of
        None \<Rightarrow> Inr ()
      | Some aliases \<Rightarrow>
          check_all (\<lambda>(path, value). if as_str value = None then Inl (BadShape (AliasNotAString name path)) else Inr ()) aliases)"

definition validate_known_keys :: "'f toml_table \<Rightarrow> string \<Rightarrow> config_error + unit" where
  "validate_known_keys table display =
     and_then (check_trackers table display) (\<lambda>_.
     if get_table table ''tracker'' \<noteq> None then Inl (BadShape SingularTracker)
     else
       and_then (check_keys table known_sections [] display) (\<lambda>_.
       and_then (check_all (check_section table display) section_keys) (\<lambda>_.
       and_then (case get_array table ''accounts'' of
                   None \<Rightarrow> Inr () | Some entries \<Rightarrow> check_all (check_account display) entries) (\<lambda>_.
       and_then (case get_array table ''transcripts'' of
                   None \<Rightarrow> Inr () | Some entries \<Rightarrow> check_all (check_transcript display) entries) (\<lambda>_.
       and_then (check_models table display) (\<lambda>_.
       check_all (check_aliases table) [''projects'', ''repositories'']))))))"

section \<open>Sections read from the file alone\<close>

datatype exclusivity_policy = PermitPassive | ForbidPassive

fun exclusivity_as_str :: "exclusivity_policy \<Rightarrow> string" where
  "exclusivity_as_str PermitPassive = ''permit_passive''"
| "exclusivity_as_str ForbidPassive = ''forbid_passive''"

definition exclusivity_parse :: "string \<Rightarrow> exclusivity_policy option" where
  "exclusivity_parse raw =
     (if raw = ''permit_passive'' then Some PermitPassive
      else if raw = ''forbid_passive'' then Some ForbidPassive else None)"

definition permits_passive_fitting :: "exclusivity_policy \<Rightarrow> bool" where
  "permits_passive_fitting p \<longleftrightarrow> p = PermitPassive"

record account_config =
  ao_name :: string
  ao_provider :: string
  ao_credential_kind :: string
  ao_credential_detail :: string
  ao_exclusivity :: exclusivity_policy
  ao_workspace :: "string option"
  ao_codex_home :: "string option"
  ao_plan_tier :: "string option"

record transcript_config =
  tc_name :: string
  tc_root :: string
  tc_pattern :: string
  tc_format :: "string option"
  tc_usage_evidence :: "string option"

record tracker_config =
  tk_name :: string
  tk_kind :: string
  tk_path :: string

text \<open>Collecting results: the first error in list order, or all values.\<close>

fun traverse :: "('a \<Rightarrow> 'e + 'b) \<Rightarrow> 'a list \<Rightarrow> 'e + 'b list" where
  "traverse f [] = Inr []"
| "traverse f (x # xs) = and_then (f x) (\<lambda>y. and_then (traverse f xs) (\<lambda>ys. Inr (y # ys)))"

definition file_entries :: "'f toml_table option \<Rightarrow> string \<Rightarrow> 'f toml_value list" where
  "file_entries file name =
     (case Option.bind file (\<lambda>t. get_array t name) of None \<Rightarrow> [] | Some entries \<Rightarrow> entries)"

definition read_tracker :: "string \<Rightarrow> nat \<times> 'f toml_value \<Rightarrow> config_error + tracker_config" where
  "read_tracker display =
     (\<lambda>(index, entry). case as_table entry of
        None \<Rightarrow> Inl (BadShape (TrackerNotATable index))
      | Some t \<Rightarrow>
          let field = (\<lambda>key. ok_or (MissingKey (tracker_path index key) display) (get_str t key))
          in and_then (field ''name'') (\<lambda>name. and_then (field ''kind'') (\<lambda>kind. and_then (field ''path'') (\<lambda>path.
             Inr \<lparr>tk_name = name, tk_kind = kind, tk_path = path\<rparr>))))"

definition read_trackers :: "'f toml_table option \<Rightarrow> string \<Rightarrow> config_error + tracker_config list" where
  "read_trackers file display = traverse (read_tracker display) (enumerate 0 (file_entries file ''trackers''))"

text \<open>The inner loop runs over the trackers after this one.\<close>

fun same_name_after :: "tracker_config \<Rightarrow> nat \<Rightarrow> nat \<Rightarrow> tracker_config list \<Rightarrow> config_error + unit" where
  "same_name_after t index offset [] = Inr ()"
| "same_name_after t index offset (u # us) =
     (if tk_name t = tk_name u then Inl (DuplicateTracker index (index + 1 + offset) (tk_name t))
      else same_name_after t index (offset + 1) us)"

fun distinct_trackers_from :: "nat \<Rightarrow> tracker_config list \<Rightarrow> config_error + unit" where
  "distinct_trackers_from index [] = Inr ()"
| "distinct_trackers_from index (t # ts) =
     and_then (same_name_after t index 0 ts) (\<lambda>_. distinct_trackers_from (index + 1) ts)"

definition validate_distinct_tracker_names :: "tracker_config list \<Rightarrow> config_error + unit" where
  "validate_distinct_tracker_names ts = distinct_trackers_from 0 ts"

definition read_exclusivity :: "'f toml_table \<Rightarrow> config_error + exclusivity_policy" where
  "read_exclusivity t =
     (case toml_get t ''exclusivity_policy'' of
        None \<Rightarrow> Inr ForbidPassive
      | Some v \<Rightarrow>
          and_then (ok_or (BadAccount ExclusivityNotAString) (as_str v)) (\<lambda>raw.
            ok_or (BadAccount (UnknownExclusivity raw)) (exclusivity_parse raw)))"

definition read_codex_home :: "'f toml_table \<Rightarrow> config_error + string option" where
  "read_codex_home t =
     (case toml_get t ''codex_home'' of
        None \<Rightarrow> Inr None
      | Some v \<Rightarrow>
          and_then (ok_or (BadAccount CodexHomeNotAString) (as_str v)) (\<lambda>raw.
            if trim raw = [] then Inl (BadAccount EmptyCodexHome)
            else if get_str t ''provider'' \<noteq> Some ''codex''
            then Inl (BadAccount (CodexHomeElsewhere (unwrap_or_default (get_str t ''name''))
                   (unwrap_or_default (get_str t ''provider''))))
            else Inr (Some raw)))"

definition read_plan_tier :: "'f toml_table \<Rightarrow> config_error + string option" where
  "read_plan_tier t =
     (case toml_get t ''plan_tier'' of
        None \<Rightarrow> Inr None
      | Some v \<Rightarrow>
          and_then (ok_or (BadAccount PlanTierNotAString) (as_str v)) (\<lambda>raw.
            if trim raw = [] then Inl (BadAccount (EmptyPlanTier (unwrap_or_default (get_str t ''name''))))
            else Inr (Some (trim raw))))"

definition credential_detail :: "'f toml_table option \<Rightarrow> string" where
  "credential_detail credential =
     unwrap_or_default (Option.bind credential (\<lambda>c. Option.bind
       (case toml_get c ''ref'' of
          Some v \<Rightarrow> Some v
        | None \<Rightarrow> (case toml_get c ''path'' of Some v \<Rightarrow> Some v | None \<Rightarrow> toml_get c ''name'')) as_str))"

definition read_account :: "'f toml_table \<Rightarrow> config_error + account_config" where
  "read_account t =
     (let credential = get_table t ''credential''
      in and_then (read_exclusivity t) (\<lambda>policy.
         and_then (read_codex_home t) (\<lambda>home.
         and_then (read_plan_tier t) (\<lambda>tier.
         Inr \<lparr>ao_name = unwrap_or_default (get_str t ''name''),
              ao_provider = unwrap_or_default (get_str t ''provider''),
              ao_credential_kind = unwrap_or_default (Option.bind credential (\<lambda>c. get_str c ''kind'')),
              ao_credential_detail = credential_detail credential, ao_exclusivity = policy,
              ao_workspace = get_str t ''opencode_workspace'', ao_codex_home = home, ao_plan_tier = tier\<rparr>))))"

definition validate_account_provider_keys :: "account_config \<Rightarrow> config_error + unit" where
  "validate_account_provider_keys a =
     (if ao_provider a = ''opencode'' \<and>
         (case ao_workspace a of None \<Rightarrow> True | Some w \<Rightarrow> trim w = [])
      then Inl (BadAccount (MissingWorkspace (ao_name a))) else Inr ())"

definition check_shared_source :: "account_config \<Rightarrow> account_config list \<Rightarrow> config_error + unit" where
  "check_shared_source first later =
     (let kind = trim (ao_credential_kind first); detail = trim (ao_credential_detail first)
      in if kind \<noteq> ''file'' \<and> kind \<noteq> ''env'' then Inr ()
         else if detail = [] then Inr ()
         else check_all (\<lambda>second.
                if trim (ao_credential_kind second) = kind \<and> trim (ao_credential_detail second) = detail
                then Inl (BadAccount (SharedCredential (ao_name first) (ao_name second) kind detail)) else Inr ()) later)"

fun validate_distinct_credential_sources :: "account_config list \<Rightarrow> config_error + unit" where
  "validate_distinct_credential_sources [] = Inr ()"
| "validate_distinct_credential_sources (a # as) =
     and_then (check_shared_source a as) (\<lambda>_. validate_distinct_credential_sources as)"

definition read_accounts :: "'f toml_table option \<Rightarrow> config_error + account_config list" where
  "read_accounts file =
     and_then (traverse read_account (List.map_filter as_table (file_entries file ''accounts''))) (\<lambda>accounts.
     and_then (check_all validate_account_provider_keys accounts) (\<lambda>_.
     and_then (validate_distinct_credential_sources accounts) (\<lambda>_. Inr accounts)))"

definition read_transcript :: "'f toml_table \<Rightarrow> transcript_config" where
  "read_transcript t =
     \<lparr>tc_name = unwrap_or_default (get_str t ''name''), tc_root = unwrap_or_default (get_str t ''root''),
      tc_pattern = unwrap_or_default (get_str t ''pattern''), tc_format = get_str t ''format'',
      tc_usage_evidence = get_str t ''usage_evidence''\<rparr>"

definition read_transcripts :: "'f toml_table option \<Rightarrow> transcript_config list" where
  "read_transcripts file = map read_transcript (List.map_filter as_table (file_entries file ''transcripts''))"

text \<open>A refusal of the table constructors becomes the configuration's error.\<close>

definition or_error :: "('e \<Rightarrow> config_error) \<Rightarrow> 'e + 'a \<Rightarrow> config_error + 'a" where
  "or_error f r = (case r of Inl e \<Rightarrow> Inl (f e) | Inr x \<Rightarrow> Inr x)"

definition read_model_rule :: "'f toml_table \<Rightarrow> config_error + model_rule" where
  "read_model_rule t =
     or_error ModelTableRefused
       (new_with_name (unwrap_or_default (get_str t ''pattern'')) (unwrap_or_default (get_str t ''vendor''))
         (unwrap_or_default (get_str t ''model'')) (get_str t ''name''))"

definition model_table_from_file :: "'f toml_table option \<Rightarrow> config_error + model_table" where
  "model_table_from_file file =
     and_then (traverse read_model_rule (List.map_filter as_table (file_entries file ''models''))) (\<lambda>rules.
       or_error ModelTableRefused (table_new rules))"

definition read_alias :: "string \<Rightarrow> string \<times> 'f toml_value \<Rightarrow> config_error + (string \<times> string)" where
  "read_alias name =
     (\<lambda>(path, value). and_then (ok_or (BadShape (AliasNotAString name path)) (as_str value)) (\<lambda>s. Inr (path, s)))"

definition alias_table_from_file :: "'f toml_table option \<Rightarrow> string \<Rightarrow> config_error + alias_table" where
  "alias_table_from_file file name =
     (case Option.bind file (\<lambda>t. get_table t name) of
        None \<Rightarrow> Inr []
      | Some t \<Rightarrow>
          and_then (traverse (read_alias name) t) (\<lambda>entries. or_error AliasTableRefused (alias_new (om_of entries))))"

definition layout_root :: "'f toml_table \<Rightarrow> string \<Rightarrow> config_error + string option" where
  "layout_root t key =
     (case toml_get t key of
        None \<Rightarrow> Inr None
      | Some (TomlString raw) \<Rightarrow>
          if raw = [] \<or> \<not> starts_with ''/'' raw then Inl (BadShape (LayoutNotAbsolute key raw)) else Inr (Some raw)
      | Some _ \<Rightarrow> Inl (BadShape (LayoutNotAString key)))"

definition layout_ignored :: "'f toml_value \<Rightarrow> config_error + string" where
  "layout_ignored v =
     (case as_str v of
        Some name \<Rightarrow> if name \<noteq> [] \<and> \<not> starts_with ''/'' name then Inr name else Inl (BadShape LayoutIgnoreShape)
      | None \<Rightarrow> Inl (BadShape LayoutIgnoreShape))"

definition layout_ignore :: "'f toml_table \<Rightarrow> config_error + string list option" where
  "layout_ignore t =
     (case toml_get t ''ignore'' of
        None \<Rightarrow> Inr None
      | Some (TomlArray names) \<Rightarrow> and_then (traverse layout_ignored names) (\<lambda>ns. Inr (Some ns))
      | Some _ \<Rightarrow> Inl (BadShape LayoutIgnoreShape))"

end
