(* ===== verification/Configuration.thy ===== *)
theory Configuration
  imports Configuration_File Can_Run_Verdict
begin

text \<open>
  \<open>src/config/mod.rs\<close>, the resolution: every setting from the command line, the environment, the file or the default,
  the record of which of them won, and the checks across settings. Reading and printing of floats are the operations
  of \<open>float_ops\<close>; a path is its text; keys are ASCII.
\<close>

section \<open>Sources\<close>

datatype config_source = Flag | Environment | File | Default

fun source_label :: "config_source \<Rightarrow> string" where
  "source_label Flag = ''override''"
| "source_label Environment = ''environment''"
| "source_label File = ''file''"
| "source_label Default = ''fallback''"

type_synonym provenance = "(string, config_source) omap"

text \<open>
  What the code uses of floats: reading, printing, the ranges it tests, a fraction as parts per million and the
  rounded product with an integer.
\<close>

record 'f float_ops =
  fo_parse :: "string \<Rightarrow> 'f option"
  fo_show :: "'f \<Rightarrow> string"
  fo_unit :: "'f \<Rightarrow> bool"
  fo_ppm :: "'f \<Rightarrow> u32"
  fo_show_ppm :: "u32 \<Rightarrow> string"
  fo_positive :: "'f \<Rightarrow> bool"
  fo_times :: "'f \<Rightarrow> i64 \<Rightarrow> i64"

text \<open>What every call of the resolver is handed.\<close>

record 'f config_context =
  cx_overrides :: "(string, string) omap"
  cx_env :: "string \<Rightarrow> string option"
  cx_file :: "'f toml_table option"
  cx_display :: string
  cx_floats :: "'f float_ops"

definition upper_char :: "char \<Rightarrow> char" where
  "upper_char c = (if is_ascii_lowercase c then char_of (of_char c - 32 :: nat) else c)"

definition env_var_name :: "string \<Rightarrow> string" where
  "env_var_name key = ''AUB_'' @ map (\<lambda>c. if c = CHR ''.'' then CHR ''_'' else upper_char c) key"

definition file_raw :: "'f float_ops \<Rightarrow> 'f toml_table option \<Rightarrow> string \<Rightarrow> string \<Rightarrow> string option" where
  "file_raw ops file section_name key =
     (case Option.bind file (\<lambda>t. Option.bind (get_table t section_name) (\<lambda>s. toml_get s key)) of
        Some (TomlString s) \<Rightarrow> Some s
      | Some (TomlInteger n) \<Rightarrow> Some (show_int n)
      | Some (TomlFloat x) \<Rightarrow> Some (fo_show ops x)
      | Some (TomlBoolean b) \<Rightarrow> Some (if b then ''true'' else ''false'')
      | _ \<Rightarrow> None)"

section \<open>Steps that fail or record a source\<close>

type_synonym 'a resolving = "provenance \<Rightarrow> config_error + 'a \<times> provenance"

definition done_with :: "'a \<Rightarrow> 'a resolving" where
  "done_with x p = Inr (x, p)"

definition followed_by :: "'a resolving \<Rightarrow> ('a \<Rightarrow> 'b resolving) \<Rightarrow> 'b resolving" where
  "followed_by m f p = (case m p of Inl e \<Rightarrow> Inl e | Inr (x, p') \<Rightarrow> f x p')"

definition checked :: "config_error + 'a \<Rightarrow> 'a resolving" where
  "checked r p = (case r of Inl e \<Rightarrow> Inl e | Inr x \<Rightarrow> Inr (x, p))"

definition note_source :: "string \<Rightarrow> config_source \<Rightarrow> unit resolving" where
  "note_source key source p = Inr ((), om_insert key source p)"

definition note_file_when :: "bool \<Rightarrow> string \<Rightarrow> unit resolving" where
  "note_file_when present key = (if present then note_source key File else done_with ())"

section \<open>One setting\<close>

text \<open>
  The text that wins, if any: the flag, the environment variable, the file. The key is the section and the name joined
  by a dot, as every call of the code spells it.
\<close>

definition dotted :: "string \<Rightarrow> string \<Rightarrow> string" where
  "dotted section_name name = section_name @ ''.'' @ name"

definition resolve_string :: "'f config_context \<Rightarrow> string \<Rightarrow> string option \<Rightarrow> string option \<Rightarrow> string resolving" where
  "resolve_string cx key file_value fallback p =
     (case om_get (cx_overrides cx) key of
        Some v \<Rightarrow> Inr (v, om_insert key Flag p)
      | None \<Rightarrow>
          (case cx_env cx (env_var_name key) of
             Some v \<Rightarrow> Inr (v, om_insert key Environment p)
           | None \<Rightarrow>
               (case file_value of
                  Some v \<Rightarrow> Inr (v, om_insert key File p)
                | None \<Rightarrow>
                    (case fallback of
                       Some v \<Rightarrow> Inr (v, om_insert key Default p)
                     | None \<Rightarrow> Inl (MissingKey key (cx_display cx))))))"

definition setting :: "'f config_context \<Rightarrow> string \<Rightarrow> string \<Rightarrow> string \<Rightarrow> string resolving" where
  "setting cx section_name name fallback =
     resolve_string cx (dotted section_name name) (file_raw (cx_floats cx) (cx_file cx) section_name name) (Some fallback)"

text \<open>Reading the winning text.\<close>

definition setting_with ::
    "(string \<Rightarrow> setting_error + 'a) \<Rightarrow> 'f config_context \<Rightarrow> string \<Rightarrow> string \<Rightarrow> string \<Rightarrow> 'a resolving" where
  "setting_with read cx section_name name fallback =
     followed_by (setting cx section_name name fallback) (\<lambda>raw. checked (case read raw of
       Inl e \<Rightarrow> Inl (BadSetting (dotted section_name name) e) | Inr x \<Rightarrow> Inr x))"

definition read_duration :: "string \<Rightarrow> setting_error + monotonic_duration" where
  "read_duration raw = (case parse_duration raw of Inl e \<Rightarrow> Inl (BadDuration e) | Inr d \<Rightarrow> Inr d)"

definition read_positive_count :: "string \<Rightarrow> setting_error + u64" where
  "read_positive_count raw =
     (case parse_u64 raw of
        None \<Rightarrow> Inl (NotPositiveInteger raw)
      | Some n \<Rightarrow> if n = 0 then Inl (BelowOne raw) else Inr n)"

definition read_unit :: "'f float_ops \<Rightarrow> string \<Rightarrow> setting_error + 'f" where
  "read_unit ops raw =
     (case fo_parse ops raw of
        None \<Rightarrow> Inl (NotANumber raw)
      | Some x \<Rightarrow> if fo_unit ops x then Inr x else Inl (OutsideUnit (fo_show ops x)))"

definition read_percentile :: "string \<Rightarrow> setting_error + percentile" where
  "read_percentile raw =
     (case parse_unsigned 255 raw of
        None \<Rightarrow> Inl (NotAPercentile raw)
      | Some n \<Rightarrow> ok_or (PercentileRange n) (percentile_new n))"

definition read_quantile_method :: "string \<Rightarrow> setting_error + quantile_method" where
  "read_quantile_method raw = ok_or (UnknownQuantileMethod raw) (quantile_parse raw)"

definition read_bool :: "string \<Rightarrow> setting_error + bool" where
  "read_bool raw =
     (if raw = ''true'' then Inr True else if raw = ''false'' then Inr False else Inl (NotABoolean raw))"

definition read_count :: "string \<Rightarrow> setting_error + nat" where
  "read_count raw =
     (case parse_u64 raw of
        None \<Rightarrow> Inl (NotAWholeNumber raw)
      | Some n \<Rightarrow> if n = 0 then Inl ZeroBound else Inr n)"

definition read_keep_count :: "string \<Rightarrow> setting_error + nat" where
  "read_keep_count raw = ok_or (NotAWholeNumber raw) (parse_u64 raw)"

definition read_threshold :: "string \<Rightarrow> setting_error + u32" where
  "read_threshold raw = and_then (read_count raw) (\<lambda>n. if n \<le> u32_max then Inr n else Inl (BeyondU32 n))"

definition read_multiple :: "'f float_ops \<Rightarrow> string \<Rightarrow> setting_error + 'f" where
  "read_multiple ops raw =
     (case fo_parse ops raw of
        None \<Rightarrow> Inl (NotANumber raw)
      | Some x \<Rightarrow> if fo_positive ops x then Inr x else Inl (NotPositiveFinite (fo_show ops x)))"

definition read_bound :: "string \<Rightarrow> setting_error + headroom_bound" where
  "read_bound raw = ok_or (UnknownHeadroomBound raw) (bound_parse raw)"

abbreviation duration_setting :: "'f config_context \<Rightarrow> string \<Rightarrow> string \<Rightarrow> string \<Rightarrow> monotonic_duration resolving" where
  "duration_setting \<equiv> setting_with read_duration"

text \<open>The one setting without a default.\<close>

definition resolve_optional_floor :: "'f config_context \<Rightarrow> string \<Rightarrow> string option \<Rightarrow> u32 option resolving" where
  "resolve_optional_floor cx key file_value p =
     (let found =
        (case om_get (cx_overrides cx) key of
           Some v \<Rightarrow> Some (v, Flag)
         | None \<Rightarrow>
             (case cx_env cx (env_var_name key) of
                Some v \<Rightarrow> Some (v, Environment)
              | None \<Rightarrow> map_option (\<lambda>v. (v, File)) file_value))
      in case found of
           None \<Rightarrow> Inr (None, p)
         | Some (raw, source) \<Rightarrow>
             (case read_unit (cx_floats cx) raw of
                Inl e \<Rightarrow> Inl (BadSetting key e)
              | Inr x \<Rightarrow> Inr (Some (fo_ppm (cx_floats cx) x), om_insert key source p)))"

section \<open>The configuration\<close>

record sampling_config =
  sm_tick :: monotonic_duration
  sm_interval :: monotonic_duration
  sm_lead :: monotonic_duration
  sm_request_timeout :: monotonic_duration
  sm_busy_timeout :: monotonic_duration
  sm_command_budget :: monotonic_duration
  sm_max_concurrent :: nat
  sm_retry_after_cap :: monotonic_duration
  sm_auth_threshold :: u32
  sm_auth_cap :: monotonic_duration

record ingest_config =
  ig_events :: u64
  ig_files :: u64
  ig_seconds :: monotonic_duration

record backup_config =
  bk_review_after :: monotonic_duration
  bk_destination :: "string option"
  bk_daily :: nat
  bk_weekly :: nat
  bk_monthly :: nat
  bk_yearly :: nat
  bk_scheduled :: bool

record 'f config =
  cf_state_dir :: string
  cf_sampling :: sampling_config
  cf_ingest :: ingest_config
  cf_freshness :: monotonic_duration
  cf_attempt_floor :: 'f
  cf_measurement_floor :: 'f
  cf_quality_floor :: "u32 option"
  cf_recent_window :: monotonic_duration
  cf_history :: history_config
  cf_can_run :: can_run_config
  cf_ample_multiple :: 'f
  cf_residual_window :: monotonic_duration
  cf_residual_min :: nat
  cf_accounts :: "account_config list"
  cf_transcripts :: "transcript_config list"
  cf_models :: model_table
  cf_trackers :: "tracker_config list"
  cf_rate_book :: "string option"
  cf_backup :: backup_config
  cf_drill_age :: monotonic_duration
  cf_drill_result :: "string option"
  cf_comparison_age :: monotonic_duration
  cf_calibration_review :: monotonic_duration
  cf_anomaly_horizon :: monotonic_duration
  cf_clipboard :: string
  cf_anthropic_refresh :: bool
  cf_anthropic_statusline :: bool
  cf_antigravity_refresh :: bool
  cf_projects :: alias_table
  cf_repositories :: alias_table
  cf_layout :: layout_roots

section \<open>Section by section\<close>

definition default_state_dir :: "string \<Rightarrow> string" where
  "default_state_dir home = home @ ''/.local/state/aub''"

definition resolve_ingest :: "'f config_context \<Rightarrow> ingest_config resolving" where
  "resolve_ingest cx =
     followed_by (setting_with read_positive_count cx ''ingest'' ''max_batch_events'' ''5000'') (\<lambda>events.
     followed_by (setting_with read_positive_count cx ''ingest'' ''max_batch_files'' ''200'') (\<lambda>files.
     followed_by (duration_setting cx ''ingest'' ''max_batch_seconds'' ''2s'') (\<lambda>seconds.
     done_with \<lparr>ig_events = events, ig_files = files, ig_seconds = seconds\<rparr>)))"

definition resolve_sampling :: "'f config_context \<Rightarrow> sampling_config resolving" where
  "resolve_sampling cx =
     followed_by (duration_setting cx ''sampling'' ''scheduler_tick'' ''1m'') (\<lambda>tick.
     followed_by (duration_setting cx ''sampling'' ''default_interval'' ''5m'') (\<lambda>interval.
     followed_by (duration_setting cx ''sampling'' ''reset_edge_lead'' ''120s'') (\<lambda>lead.
     followed_by (duration_setting cx ''sampling'' ''request_timeout'' ''5s'') (\<lambda>request_timeout.
     followed_by (duration_setting cx ''sampling'' ''busy_timeout'' ''10s'') (\<lambda>busy_timeout.
     followed_by (duration_setting cx ''sampling'' ''command_budget'' ''30s'') (\<lambda>budget.
     followed_by (setting_with read_count cx ''sampling'' ''max_concurrent_requests'' ''2'') (\<lambda>concurrent.
     followed_by (duration_setting cx ''sampling'' ''retry_after_cap'' ''3600s'') (\<lambda>cap.
     followed_by (setting_with read_threshold cx ''sampling'' ''auth_backoff_threshold'' ''3'') (\<lambda>threshold.
     followed_by (duration_setting cx ''sampling'' ''auth_backoff_cap'' ''6h'') (\<lambda>auth_cap.
     done_with
       \<lparr>sm_tick = tick, sm_interval = interval, sm_lead = lead, sm_request_timeout = request_timeout,
        sm_busy_timeout = busy_timeout, sm_command_budget = budget, sm_max_concurrent = concurrent,
        sm_retry_after_cap = cap, sm_auth_threshold = threshold, sm_auth_cap = auth_cap\<rparr>))))))))))"

definition validate_sampling_schedule :: "sampling_config \<Rightarrow> monotonic_duration \<Rightarrow> config_error + unit" where
  "validate_sampling_schedule s horizon =
     (let tick = sm_tick s; cadence = sm_interval s; lead = sm_lead s
      in if lead \<le> tick then Inl (BadSchedule (LeadWithinTick lead tick))
         else if cadence < tick then Inl (BadSchedule (CadenceBelowTick cadence tick))
         else if horizon \<le> sat_add_u64 cadence tick then Inl (BadSchedule (HorizonTooShort horizon cadence tick))
         else Inr ())"

definition resolve_coverage :: "'f config_context \<Rightarrow> ('f \<times> 'f) resolving" where
  "resolve_coverage cx =
     followed_by (setting_with (read_unit (cx_floats cx)) cx ''coverage'' ''attempt_floor'' ''0.98'') (\<lambda>attempts.
     followed_by (setting_with (read_unit (cx_floats cx)) cx ''coverage'' ''measurement_floor'' ''0.95'') (\<lambda>measurements.
     done_with (attempts, measurements)))"

definition resolve_attribution :: "'f config_context \<Rightarrow> (u32 option \<times> monotonic_duration) resolving" where
  "resolve_attribution cx =
     followed_by (resolve_optional_floor cx (dotted ''attribution'' ''quality_floor'')
       (file_raw (cx_floats cx) (cx_file cx) ''attribution'' ''quality_floor'')) (\<lambda>quality_floor.
     followed_by (duration_setting cx ''attribution'' ''recent_window'' ''30d'') (\<lambda>window.
     done_with (quality_floor, window)))"

definition resolve_task_distribution :: "'f config_context \<Rightarrow> history_config resolving" where
  "resolve_task_distribution cx =
     followed_by (setting_with read_percentile cx ''task_distribution'' ''central_low'' ''25'') (\<lambda>low.
     followed_by (setting_with read_percentile cx ''task_distribution'' ''central_high'' ''75'') (\<lambda>high.
     followed_by (setting_with read_percentile cx ''task_distribution'' ''upper'' ''90'') (\<lambda>up.
     followed_by (checked (if low \<ge> high \<or> high > up then Inl (UnorderedPercentiles low high up) else Inr ())) (\<lambda>_.
     followed_by (setting_with read_count cx ''task_distribution'' ''min_samples'' ''12'') (\<lambda>samples.
     followed_by (setting_with read_quantile_method cx ''task_distribution'' ''quantile_method'' ''nearest-rank'') (\<lambda>kind.
     followed_by (setting_with (read_unit (cx_floats cx)) cx ''task_distribution'' ''attribution_floor'' ''0.80'') (\<lambda>floor_of.
     done_with
       \<lparr>hc_central_low = low, hc_central_high = high, hc_upper = up, hc_min_samples = samples, hc_method = kind,
        hc_floor = fo_ppm (cx_floats cx) floor_of\<rparr>)))))))"

definition resolve_can_run :: "'f config_context \<Rightarrow> (can_run_config \<times> 'f) resolving" where
  "resolve_can_run cx =
     followed_by (setting_with read_bool cx ''can_run'' ''labels'' ''true'') (\<lambda>labels.
     followed_by (setting_with (read_multiple (cx_floats cx)) cx ''can_run'' ''ample_margin_multiple'' ''2.0'') (\<lambda>multiple.
     followed_by (setting_with read_bound cx ''can_run'' ''headroom_bound'' ''low'') (\<lambda>bound.
     done_with
       (\<lparr>vc_labels_enabled = labels, vc_ample_product = fo_times (cx_floats cx) multiple, vc_bound = bound\<rparr>, multiple))))"

definition resolve_reconciliation :: "'f config_context \<Rightarrow> (monotonic_duration \<times> nat) resolving" where
  "resolve_reconciliation cx =
     followed_by (duration_setting cx ''reconciliation'' ''residual_window'' ''30d'') (\<lambda>window.
     followed_by (setting_with read_positive_count cx ''reconciliation'' ''residual_min_eligible'' ''5'') (\<lambda>least.
     done_with (window, least)))"

definition file_str :: "'f config_context \<Rightarrow> string \<Rightarrow> string \<Rightarrow> string option" where
  "file_str cx section_name name =
     Option.bind (cx_file cx) (\<lambda>t. Option.bind (get_table t section_name) (\<lambda>s. get_str s name))"

definition file_only :: "'f config_context \<Rightarrow> string \<Rightarrow> string \<Rightarrow> string option resolving" where
  "file_only cx section_name name =
     followed_by (note_file_when (file_str cx section_name name \<noteq> None) (dotted section_name name)) (\<lambda>_.
     done_with (file_str cx section_name name))"

definition resolve_backup :: "'f config_context \<Rightarrow> backup_config resolving" where
  "resolve_backup cx =
     followed_by (file_only cx ''backup'' ''destination'') (\<lambda>destination.
     followed_by (duration_setting cx ''backup'' ''review_after'' ''48h'') (\<lambda>review.
     followed_by (setting_with read_keep_count cx ''backup'' ''keep_daily'' ''7'') (\<lambda>daily.
     followed_by (setting_with read_keep_count cx ''backup'' ''keep_weekly'' ''4'') (\<lambda>weekly.
     followed_by (setting_with read_keep_count cx ''backup'' ''keep_monthly'' ''6'') (\<lambda>monthly.
     followed_by (setting_with read_keep_count cx ''backup'' ''keep_yearly'' ''2'') (\<lambda>yearly.
     followed_by (setting_with read_bool cx ''backup'' ''scheduled'' ''true'') (\<lambda>scheduled.
     done_with
       \<lparr>bk_review_after = review, bk_destination = destination, bk_daily = daily, bk_weekly = weekly,
        bk_monthly = monthly, bk_yearly = yearly, bk_scheduled = scheduled\<rparr>)))))))"

definition resolve_drill :: "'f config_context \<Rightarrow> (monotonic_duration \<times> string option) resolving" where
  "resolve_drill cx =
     followed_by (file_only cx ''drill'' ''result'') (\<lambda>result.
     followed_by (duration_setting cx ''drill'' ''max_age'' ''30d'') (\<lambda>age.
     done_with (age, result)))"

text \<open>The horizons and switches that stand alone, in the order the code resolves them.\<close>

record plain_settings =
  pl_comparison_age :: monotonic_duration
  pl_calibration_review :: monotonic_duration
  pl_anomaly_horizon :: monotonic_duration
  pl_clipboard :: string
  pl_anthropic_refresh :: bool
  pl_anthropic_statusline :: bool
  pl_antigravity_refresh :: bool

definition resolve_plain :: "'f config_context \<Rightarrow> plain_settings resolving" where
  "resolve_plain cx =
     followed_by (duration_setting cx ''adapter_semantics'' ''max_comparison_age'' ''30d'') (\<lambda>comparison.
     followed_by (duration_setting cx ''calibration'' ''review_after'' ''30d'') (\<lambda>review.
     followed_by (duration_setting cx ''doctor'' ''meter_anomaly_horizon'' ''15m'') (\<lambda>horizon.
     followed_by (setting cx ''export'' ''clipboard_command'' ''wl-copy'') (\<lambda>clipboard.
     followed_by (setting_with read_bool cx ''anthropic'' ''refresh'' ''true'') (\<lambda>refresh.
     followed_by (setting_with read_bool cx ''anthropic'' ''statusline'' ''true'') (\<lambda>statusline.
     followed_by (setting_with read_bool cx ''antigravity'' ''refresh'' ''true'') (\<lambda>antigravity.
     done_with
       \<lparr>pl_comparison_age = comparison, pl_calibration_review = review, pl_anomaly_horizon = horizon,
        pl_clipboard = clipboard, pl_anthropic_refresh = refresh, pl_anthropic_statusline = statusline,
        pl_antigravity_refresh = antigravity\<rparr>)))))))"

definition layout_from_file :: "'f config_context \<Rightarrow> layout_roots resolving" where
  "layout_from_file cx =
     (case Option.bind (cx_file cx) (\<lambda>t. get_table t ''layout'') of
        None \<Rightarrow> done_with \<lparr>lr_repositories = None, lr_worktrees = None, lr_ignore = []\<rparr>
      | Some t \<Rightarrow>
          followed_by (checked (layout_root t ''repositories'')) (\<lambda>repositories.
          followed_by (note_file_when (repositories \<noteq> None) ''layout.repositories'') (\<lambda>_.
          followed_by (checked (layout_root t ''worktrees'')) (\<lambda>worktrees.
          followed_by (note_file_when (worktrees \<noteq> None) ''layout.worktrees'') (\<lambda>_.
          followed_by (checked (layout_ignore t)) (\<lambda>ignored.
          followed_by (note_file_when (ignored \<noteq> None) ''layout.ignore'') (\<lambda>_.
          done_with
            \<lparr>lr_repositories = repositories, lr_worktrees = worktrees,
             lr_ignore = (case ignored of None \<Rightarrow> [] | Some names \<Rightarrow> names)\<rparr>)))))))"

record file_sections =
  fs_rate_book :: "string option"
  fs_trackers :: "tracker_config list"
  fs_accounts :: "account_config list"
  fs_transcripts :: "transcript_config list"
  fs_models :: model_table
  fs_projects :: alias_table
  fs_repositories :: alias_table
  fs_layout :: layout_roots

definition resolve_file_sections :: "'f config_context \<Rightarrow> file_sections resolving" where
  "resolve_file_sections cx =
     followed_by (file_only cx ''valuation'' ''default_rate_book'') (\<lambda>rate_book.
     followed_by (checked (read_trackers (cx_file cx) (cx_display cx))) (\<lambda>trackers.
     followed_by (checked (validate_distinct_tracker_names trackers)) (\<lambda>_.
     followed_by (note_file_when (trackers \<noteq> []) ''trackers'') (\<lambda>_.
     followed_by (checked (read_accounts (cx_file cx))) (\<lambda>accounts.
     followed_by (note_file_when (accounts \<noteq> []) ''accounts'') (\<lambda>_.
     followed_by (note_file_when (read_transcripts (cx_file cx) \<noteq> []) ''transcripts'') (\<lambda>_.
     followed_by (checked (model_table_from_file (cx_file cx))) (\<lambda>models.
     followed_by (note_file_when (models \<noteq> []) ''models'') (\<lambda>_.
     followed_by (checked (alias_table_from_file (cx_file cx) ''projects'')) (\<lambda>projects.
     followed_by (note_file_when (projects \<noteq> []) ''projects'') (\<lambda>_.
     followed_by (checked (alias_table_from_file (cx_file cx) ''repositories'')) (\<lambda>repositories.
     followed_by (note_file_when (repositories \<noteq> []) ''repositories'') (\<lambda>_.
     followed_by (layout_from_file cx) (\<lambda>layout.
     done_with
       \<lparr>fs_rate_book = rate_book, fs_trackers = trackers, fs_accounts = accounts,
        fs_transcripts = read_transcripts (cx_file cx), fs_models = models, fs_projects = projects,
        fs_repositories = repositories, fs_layout = layout\<rparr>))))))))))))))"

section \<open>The whole resolution\<close>

definition resolve_sections :: "'f config_context \<Rightarrow> string \<Rightarrow> 'f config resolving" where
  "resolve_sections cx home =
     followed_by (setting cx ''state'' ''dir'' (default_state_dir home)) (\<lambda>dir.
     followed_by (resolve_ingest cx) (\<lambda>ingest.
     followed_by (resolve_sampling cx) (\<lambda>sampling.
     followed_by (duration_setting cx ''freshness'' ''meter'' ''12m'') (\<lambda>horizon.
     followed_by (checked (validate_sampling_schedule sampling horizon)) (\<lambda>_.
     followed_by (resolve_coverage cx) (\<lambda>floors.
     followed_by (resolve_attribution cx) (\<lambda>attribution.
     followed_by (resolve_task_distribution cx) (\<lambda>history.
     followed_by (resolve_can_run cx) (\<lambda>can_run.
     followed_by (resolve_reconciliation cx) (\<lambda>residual.
     followed_by (resolve_backup cx) (\<lambda>backup.
     followed_by (resolve_drill cx) (\<lambda>drill.
     followed_by (resolve_plain cx) (\<lambda>plain.
     followed_by (resolve_file_sections cx) (\<lambda>files.
     done_with
       \<lparr>cf_state_dir = dir, cf_sampling = sampling, cf_ingest = ingest, cf_freshness = horizon,
        cf_attempt_floor = fst floors, cf_measurement_floor = snd floors, cf_quality_floor = fst attribution,
        cf_recent_window = snd attribution, cf_history = history, cf_can_run = fst can_run,
        cf_ample_multiple = snd can_run, cf_residual_window = fst residual, cf_residual_min = snd residual,
        cf_accounts = fs_accounts files, cf_transcripts = fs_transcripts files, cf_models = fs_models files,
        cf_trackers = fs_trackers files, cf_rate_book = fs_rate_book files, cf_backup = backup,
        cf_drill_age = fst drill, cf_drill_result = snd drill, cf_comparison_age = pl_comparison_age plain,
        cf_calibration_review = pl_calibration_review plain, cf_anomaly_horizon = pl_anomaly_horizon plain,
        cf_clipboard = pl_clipboard plain, cf_anthropic_refresh = pl_anthropic_refresh plain,
        cf_anthropic_statusline = pl_anthropic_statusline plain,
        cf_antigravity_refresh = pl_antigravity_refresh plain, cf_projects = fs_projects files,
        cf_repositories = fs_repositories files, cf_layout = fs_layout files\<rparr>))))))))))))))"

definition display_path :: "string \<Rightarrow> string \<Rightarrow> string" where
  "display_path path home =
     (case strip_prefix home path of
        Some rest_of \<Rightarrow> if rest_of \<noteq> [] then ''~'' @ rest_of else path
      | None \<Rightarrow> path)"

definition home_of :: "(string \<Rightarrow> string option) \<Rightarrow> string" where
  "home_of env = (case env ''HOME'' of Some h \<Rightarrow> h | None \<Rightarrow> ''/nonexistent'')"

definition parse_file ::
    "(string \<Rightarrow> string + 'f toml_table) \<Rightarrow> string \<Rightarrow> string option \<Rightarrow> config_error + 'f toml_table option" where
  "parse_file parse display contents =
     (case contents of
        None \<Rightarrow> Inr None
      | Some text_of \<Rightarrow>
          (case parse text_of of
             Inl e \<Rightarrow> Inl (InvalidToml display e)
           | Inr t \<Rightarrow> and_then (validate_known_keys t display) (\<lambda>_. Inr (Some t))))"

definition resolve_config ::
    "'f float_ops \<Rightarrow> (string \<Rightarrow> string + 'f toml_table) \<Rightarrow> (string, string) omap \<Rightarrow> (string \<Rightarrow> string option) \<Rightarrow>
     string option \<Rightarrow> string \<Rightarrow> config_error + 'f config \<times> provenance" where
  "resolve_config ops parse overrides env contents display =
     (let home = home_of env; shown = display_path display home
      in and_then (parse_file parse shown contents) (\<lambda>file.
         resolve_sections
           \<lparr>cx_overrides = overrides, cx_env = env, cx_file = file, cx_display = shown, cx_floats = ops\<rparr> home []))"

end
