(* ===== verification/Configuration_Laws.thy ===== *)
theory Configuration_Laws
  imports Configuration
begin

text \<open>
  What the resolution guarantees: the recorded source of every setting is the first level that sets it, the values
  depend on nothing but the winning texts, no two settings share an environment variable, and a resolved configuration
  satisfies the conditions the other components assume.
\<close>

section \<open>Steps\<close>

lemma followed_by_Inr:
  "followed_by m f p = Inr r \<longleftrightarrow> (\<exists>x q. m p = Inr (x, q) \<and> f x q = Inr r)"
  by (auto simp: followed_by_def split: sum.splits prod.splits)

lemma checked_Inr: "checked v p = Inr (x, q) \<longleftrightarrow> v = Inr x \<and> q = p"
  by (auto simp: checked_def split: sum.splits)

lemma done_with_Inr: "done_with x p = Inr (y, q) \<longleftrightarrow> y = x \<and> q = p"
  by (auto simp: done_with_def)

lemmas step_Inr = followed_by_Inr checked_Inr done_with_Inr

section \<open>The settings\<close>

text \<open>Every setting with a default, and the one without.\<close>

definition scalar_settings :: "string list" where
  "scalar_settings =
     [''state.dir'',
      ''ingest.max_batch_events'', ''ingest.max_batch_files'', ''ingest.max_batch_seconds'',
      ''sampling.scheduler_tick'', ''sampling.default_interval'', ''sampling.reset_edge_lead'',
      ''sampling.request_timeout'', ''sampling.busy_timeout'', ''sampling.command_budget'',
      ''sampling.max_concurrent_requests'', ''sampling.retry_after_cap'', ''sampling.auth_backoff_threshold'',
      ''sampling.auth_backoff_cap'', ''freshness.meter'', ''coverage.attempt_floor'', ''coverage.measurement_floor'',
      ''attribution.recent_window'', ''task_distribution.central_low'', ''task_distribution.central_high'',
      ''task_distribution.upper'', ''task_distribution.min_samples'', ''task_distribution.quantile_method'',
      ''task_distribution.attribution_floor'', ''can_run.labels'', ''can_run.ample_margin_multiple'',
      ''can_run.headroom_bound'', ''reconciliation.residual_window'', ''reconciliation.residual_min_eligible'',
      ''backup.review_after'', ''backup.keep_daily'', ''backup.keep_weekly'', ''backup.keep_monthly'',
      ''backup.keep_yearly'', ''backup.scheduled'', ''drill.max_age'', ''adapter_semantics.max_comparison_age'',
      ''calibration.review_after'', ''doctor.meter_anomaly_horizon'', ''export.clipboard_command'',
      ''anthropic.refresh'', ''anthropic.statusline'', ''antigravity.refresh'']"

definition floor_setting :: string where
  "floor_setting = ''attribution.quality_floor''"

definition file_settings :: "string list" where
  "file_settings =
     [''backup.destination'', ''drill.result'', ''valuation.default_rate_book'', ''layout.repositories'',
      ''layout.worktrees'', ''layout.ignore'', ''trackers'', ''accounts'', ''transcripts'', ''models'', ''projects'',
      ''repositories'']"

text \<open>The text set for a key above the default, with its level.\<close>

definition given :: "'f config_context \<Rightarrow> string \<Rightarrow> (string \<times> config_source) option" where
  "given cx key =
     (case om_get (cx_overrides cx) key of
        Some v \<Rightarrow> Some (v, Flag)
      | None \<Rightarrow>
          (case cx_env cx (env_var_name key) of
             Some v \<Rightarrow> Some (v, Environment)
           | None \<Rightarrow>
               (case split_once (CHR ''.'') key of
                  None \<Rightarrow> None
                | Some (section_name, name) \<Rightarrow>
                    map_option (\<lambda>v. (v, File)) (file_raw (cx_floats cx) (cx_file cx) section_name name))))"

definition source_of :: "'f config_context \<Rightarrow> string \<Rightarrow> config_source option" where
  "source_of cx key =
     (case given cx key of
        Some (_, source) \<Rightarrow> Some source
      | None \<Rightarrow> if key = floor_setting then None else Some Default)"

lemma split_dotted: "CHR ''.'' \<notin> set s \<Longrightarrow> split_once (CHR ''.'') (dotted s n) = Some (s, n)"
  by (simp add: dotted_def split_once_append)

lemma setting_given:
  assumes "CHR ''.'' \<notin> set s"
  shows "setting cx s n d p =
    (case given cx (dotted s n) of
       Some (v, source) \<Rightarrow> Inr (v, om_insert (dotted s n) source p)
     | None \<Rightarrow> Inr (d, om_insert (dotted s n) Default p))"
  by (simp add: setting_def resolve_string_def given_def split_dotted [OF assms] split: option.split)

lemma floor_given:
  "resolve_optional_floor cx (dotted ''attribution'' ''quality_floor'')
     (file_raw (cx_floats cx) (cx_file cx) ''attribution'' ''quality_floor'') p =
   (case given cx floor_setting of
      None \<Rightarrow> Inr (None, p)
    | Some (raw, source) \<Rightarrow>
        (case read_unit (cx_floats cx) raw of
           Inl e \<Rightarrow> Inl (BadSetting floor_setting e)
         | Inr x \<Rightarrow> Inr (Some (fo_ppm (cx_floats cx) x), om_insert floor_setting source p)))"
proof -
  have "dotted ''attribution'' ''quality_floor'' = floor_setting" by (simp add: dotted_def floor_setting_def)
  moreover have "split_once (CHR ''.'') floor_setting = Some (''attribution'', ''quality_floor'')"
    by (simp add: floor_setting_def)
  ultimately show ?thesis by (simp add: resolve_optional_floor_def given_def split: option.split)
qed

section \<open>The recorded source is the level that won\<close>

text \<open>
  A step records the keys \<open>K\<close>: each with the level that won, the sections of the file at most as read from the file,
  and nothing else.
\<close>

definition recorded :: "'f config_context \<Rightarrow> string set \<Rightarrow> provenance \<Rightarrow> provenance \<Rightarrow> bool" where
  "recorded cx K p q \<longleftrightarrow>
     (\<forall>k. (k \<in> K \<longrightarrow> om_get q k = (case source_of cx k of Some s \<Rightarrow> Some s | None \<Rightarrow> om_get p k)) \<and>
          (k \<notin> K \<longrightarrow> om_get q k = om_get p k \<or> k \<in> set file_settings \<and> om_get q k = Some File))"

definition records :: "'f config_context \<Rightarrow> string set \<Rightarrow> 'a resolving \<Rightarrow> bool" where
  "records cx K m \<longleftrightarrow> K \<inter> set file_settings = {} \<and> (\<forall>p x q. m p = Inr (x, q) \<longrightarrow> recorded cx K p q)"

named_theorems recording

lemma recorded_trans:
  assumes "recorded cx K p q" "recorded cx J q r" "K \<inter> set file_settings = {}" "J \<inter> set file_settings = {}"
  shows "recorded cx (K \<union> J) p r"
  unfolding recorded_def
proof (intro allI conjI impI)
  fix k assume k: "k \<in> K \<union> J"
  have q: "om_get q k = (case source_of cx k of Some s \<Rightarrow> Some s | None \<Rightarrow> om_get p k)" if "k \<in> K"
    using assms(1) that by (simp add: recorded_def)
  have q': "om_get q k = om_get p k" if "k \<notin> K" using assms(1,3,4) k that by (auto simp: recorded_def)
  have r: "om_get r k = (case source_of cx k of Some s \<Rightarrow> Some s | None \<Rightarrow> om_get q k)" if "k \<in> J"
    using assms(2) that by (simp add: recorded_def)
  have r': "om_get r k = om_get q k" if "k \<notin> J" using assms(2,3,4) k that by (auto simp: recorded_def)
  show "om_get r k = (case source_of cx k of Some s \<Rightarrow> Some s | None \<Rightarrow> om_get p k)"
    using k q q' r r' by (cases "source_of cx k"; cases "k \<in> J"; cases "k \<in> K") simp_all
next
  fix k assume "k \<notin> K \<union> J"
  then show "om_get r k = om_get p k \<or> k \<in> set file_settings \<and> om_get r k = Some File"
    using assms(1,2) unfolding recorded_def by (metis UnI1 UnI2)
qed

lemma records_followed [recording]:
  "records cx K m \<Longrightarrow> (\<And>x. records cx J (f x)) \<Longrightarrow> records cx (K \<union> J) (followed_by m f)"
  unfolding records_def followed_by_Inr using recorded_trans [of cx K _ _ J] by blast

lemma recorded_refl: "recorded cx {} p p"
  by (simp add: recorded_def)

lemma records_pure [recording]: "records cx {} (done_with x)" "records cx {} (checked v)"
  by (auto simp: records_def done_with_Inr checked_Inr recorded_refl)

lemma records_note [recording]:
  "k \<in> set file_settings \<Longrightarrow> records cx {} (note_file_when b k)"
  by (auto simp: records_def note_file_when_def note_source_def done_with_Inr recorded_def)

lemma records_file_only [recording]:
  "dotted s n \<in> set file_settings \<Longrightarrow> records cx {} (file_only cx s n)"
  using records_followed [OF records_note records_pure(1)] by (fastforce simp: file_only_def)

lemma records_setting [recording]:
  assumes "CHR ''.'' \<notin> set s" "dotted s n \<notin> set file_settings" "dotted s n \<noteq> floor_setting"
  shows "records cx {dotted s n} (setting cx s n d)"
  using assms(2,3)
  by (auto simp: records_def recorded_def setting_given [OF assms(1)] source_of_def split: option.splits)

lemma records_setting_with [recording]:
  assumes "CHR ''.'' \<notin> set s" "dotted s n \<notin> set file_settings" "dotted s n \<noteq> floor_setting"
  shows "records cx {dotted s n} (setting_with read cx s n d)"
  using records_followed [OF records_setting [OF assms] records_pure(2)] by (simp add: setting_with_def)

lemma records_floor [recording]:
  "records cx {floor_setting} (resolve_optional_floor cx (dotted ''attribution'' ''quality_floor'')
     (file_raw (cx_floats cx) (cx_file cx) ''attribution'' ''quality_floor''))"
  by (auto simp: records_def recorded_def floor_given source_of_def floor_setting_def file_settings_def
      split: option.splits sum.splits)

text \<open>Each section records its own keys.\<close>

lemmas key_eval = dotted_def file_settings_def floor_setting_def

lemma records_ingest:
  "records cx
     (set [''ingest.max_batch_events'', ''ingest.max_batch_files'', ''ingest.max_batch_seconds''])
     (resolve_ingest cx)"
proof -
  have "records cx
      ({dotted ''ingest'' ''max_batch_events''} \<union> ({dotted ''ingest'' ''max_batch_files''} \<union> ({dotted
       ''ingest'' ''max_batch_seconds''} \<union> ({}))))
      (resolve_ingest cx)"
    unfolding resolve_ingest_def by (intro recording) (simp_all add: key_eval)
  then show ?thesis by (simp add: dotted_def insert_commute)
qed

lemma records_sampling:
  "records cx
     (set [''sampling.scheduler_tick'', ''sampling.default_interval'', ''sampling.reset_edge_lead'',
          ''sampling.request_timeout'', ''sampling.busy_timeout'', ''sampling.command_budget'',
          ''sampling.max_concurrent_requests'', ''sampling.retry_after_cap'', ''sampling.auth_backoff_threshold'',
          ''sampling.auth_backoff_cap''])
     (resolve_sampling cx)"
proof -
  have "records cx
      ({dotted ''sampling'' ''scheduler_tick''} \<union> ({dotted ''sampling'' ''default_interval''} \<union>
       ({dotted ''sampling'' ''reset_edge_lead''} \<union> ({dotted ''sampling'' ''request_timeout''} \<union>
       ({dotted ''sampling'' ''busy_timeout''} \<union> ({dotted ''sampling'' ''command_budget''} \<union> ({dotted
       ''sampling'' ''max_concurrent_requests''} \<union> ({dotted ''sampling'' ''retry_after_cap''} \<union>
       ({dotted ''sampling'' ''auth_backoff_threshold''} \<union> ({dotted ''sampling'' ''auth_backoff_cap''}
       \<union> ({})))))))))))
      (resolve_sampling cx)"
    unfolding resolve_sampling_def by (intro recording) (simp_all add: key_eval)
  then show ?thesis by (simp add: dotted_def insert_commute)
qed

lemma records_coverage:
  "records cx
     (set [''coverage.attempt_floor'', ''coverage.measurement_floor''])
     (resolve_coverage cx)"
proof -
  have "records cx
      ({dotted ''coverage'' ''attempt_floor''} \<union> ({dotted ''coverage'' ''measurement_floor''} \<union> ({})))
      (resolve_coverage cx)"
    unfolding resolve_coverage_def by (intro recording) (simp_all add: key_eval)
  then show ?thesis by (simp add: dotted_def insert_commute)
qed

lemma records_task_distribution:
  "records cx
     (set [''task_distribution.central_low'', ''task_distribution.central_high'', ''task_distribution.upper'',
          ''task_distribution.min_samples'', ''task_distribution.quantile_method'',
          ''task_distribution.attribution_floor''])
     (resolve_task_distribution cx)"
proof -
  have "records cx
      ({dotted ''task_distribution'' ''central_low''} \<union> ({dotted ''task_distribution'' ''central_high''}
       \<union> ({dotted ''task_distribution'' ''upper''} \<union> ({} \<union> ({dotted ''task_distribution''
       ''min_samples''} \<union> ({dotted ''task_distribution'' ''quantile_method''} \<union> ({dotted
       ''task_distribution'' ''attribution_floor''} \<union> ({}))))))))
      (resolve_task_distribution cx)"
    unfolding resolve_task_distribution_def by (intro recording) (simp_all add: key_eval)
  then show ?thesis by (simp add: dotted_def insert_commute)
qed

lemma records_can_run:
  "records cx
     (set [''can_run.labels'', ''can_run.ample_margin_multiple'', ''can_run.headroom_bound''])
     (resolve_can_run cx)"
proof -
  have "records cx
      ({dotted ''can_run'' ''labels''} \<union> ({dotted ''can_run'' ''ample_margin_multiple''} \<union> ({dotted
       ''can_run'' ''headroom_bound''} \<union> ({}))))
      (resolve_can_run cx)"
    unfolding resolve_can_run_def by (intro recording) (simp_all add: key_eval)
  then show ?thesis by (simp add: dotted_def insert_commute)
qed

lemma records_reconciliation:
  "records cx
     (set [''reconciliation.residual_window'', ''reconciliation.residual_min_eligible''])
     (resolve_reconciliation cx)"
proof -
  have "records cx
      ({dotted ''reconciliation'' ''residual_window''} \<union> ({dotted ''reconciliation''
       ''residual_min_eligible''} \<union> ({})))
      (resolve_reconciliation cx)"
    unfolding resolve_reconciliation_def by (intro recording) (simp_all add: key_eval)
  then show ?thesis by (simp add: dotted_def insert_commute)
qed

lemma records_backup:
  "records cx
     (set [''backup.review_after'', ''backup.keep_daily'', ''backup.keep_weekly'', ''backup.keep_monthly'',
          ''backup.keep_yearly'', ''backup.scheduled''])
     (resolve_backup cx)"
proof -
  have "records cx
      ({} \<union> ({dotted ''backup'' ''review_after''} \<union> ({dotted ''backup'' ''keep_daily''} \<union>
       ({dotted ''backup'' ''keep_weekly''} \<union> ({dotted ''backup'' ''keep_monthly''} \<union> ({dotted
       ''backup'' ''keep_yearly''} \<union> ({dotted ''backup'' ''scheduled''} \<union> ({}))))))))
      (resolve_backup cx)"
    unfolding resolve_backup_def by (intro recording) (simp_all add: key_eval)
  then show ?thesis by (simp add: dotted_def insert_commute)
qed

lemma records_drill:
  "records cx
     (set [''drill.max_age''])
     (resolve_drill cx)"
proof -
  have "records cx
      ({} \<union> ({dotted ''drill'' ''max_age''} \<union> ({})))
      (resolve_drill cx)"
    unfolding resolve_drill_def by (intro recording) (simp_all add: key_eval)
  then show ?thesis by (simp add: dotted_def insert_commute)
qed

lemma records_plain:
  "records cx
     (set [''adapter_semantics.max_comparison_age'', ''calibration.review_after'', ''doctor.meter_anomaly_horizon'',
          ''export.clipboard_command'', ''anthropic.refresh'', ''anthropic.statusline'', ''antigravity.refresh''])
     (resolve_plain cx)"
proof -
  have "records cx
      ({dotted ''adapter_semantics'' ''max_comparison_age''} \<union> ({dotted ''calibration'' ''review_after''}
       \<union> ({dotted ''doctor'' ''meter_anomaly_horizon''} \<union> ({dotted ''export'' ''clipboard_command''}
       \<union> ({dotted ''anthropic'' ''refresh''} \<union> ({dotted ''anthropic'' ''statusline''} \<union>
       ({dotted ''antigravity'' ''refresh''} \<union> ({}))))))))
      (resolve_plain cx)"
    unfolding resolve_plain_def by (intro recording) (simp_all add: key_eval)
  then show ?thesis by (simp add: dotted_def insert_commute)
qed

lemma records_attribution:
  "records cx (set [''attribution.recent_window'', floor_setting]) (resolve_attribution cx)"
proof -
  have "records cx ({floor_setting} \<union> ({dotted ''attribution'' ''recent_window''} \<union> {})) (resolve_attribution cx)"
    unfolding resolve_attribution_def by (intro recording) (simp_all add: key_eval)
  then show ?thesis by (simp add: dotted_def insert_commute)
qed

lemma records_nothing:
  "records cx {} m \<Longrightarrow> (\<And>x. records cx {} (f x)) \<Longrightarrow> records cx {} (followed_by m f)"
  using records_followed [of cx "{}" m "{}" f] by simp

lemma records_layout: "records cx {} (layout_from_file cx)"
  by (auto simp: layout_from_file_def file_settings_def intro!: records_nothing recording split: option.split)

lemma records_file_sections: "records cx {} (resolve_file_sections cx)"
  unfolding resolve_file_sections_def
  by (intro records_nothing records_layout recording) (simp_all add: key_eval)

lemma records_dir: "records cx (set [''state.dir'']) (setting cx ''state'' ''dir'' d)"
  using records_setting [of "''state''" "''dir''" cx d] by (simp add: key_eval)

lemma records_horizon: "records cx (set [''freshness.meter'']) (duration_setting cx ''freshness'' ''meter'' d)"
  using records_setting_with [of "''freshness''" "''meter''" cx read_duration d] by (simp add: key_eval)

lemmas records_sections =
  records_dir records_ingest records_sampling records_horizon records_coverage records_attribution
  records_task_distribution records_can_run records_reconciliation records_backup records_drill records_plain
  records_file_sections

lemma records_all: "records cx (set (floor_setting # scalar_settings)) (resolve_sections cx home)"
proof -
  have "records cx
     (set [''state.dir''] \<union> (set [''ingest.max_batch_events'', ''ingest.max_batch_files'',
      ''ingest.max_batch_seconds''] \<union> (set [''sampling.scheduler_tick'', ''sampling.default_interval'',
      ''sampling.reset_edge_lead'', ''sampling.request_timeout'', ''sampling.busy_timeout'',
      ''sampling.command_budget'', ''sampling.max_concurrent_requests'', ''sampling.retry_after_cap'',
      ''sampling.auth_backoff_threshold'', ''sampling.auth_backoff_cap''] \<union> (set [''freshness.meter'']
      \<union> ({} \<union> (set [''coverage.attempt_floor'', ''coverage.measurement_floor''] \<union> (set
      [''attribution.recent_window'', floor_setting] \<union> (set [''task_distribution.central_low'',
      ''task_distribution.central_high'', ''task_distribution.upper'', ''task_distribution.min_samples'',
      ''task_distribution.quantile_method'', ''task_distribution.attribution_floor''] \<union> (set
      [''can_run.labels'', ''can_run.ample_margin_multiple'', ''can_run.headroom_bound''] \<union> (set
      [''reconciliation.residual_window'', ''reconciliation.residual_min_eligible''] \<union> (set
      [''backup.review_after'', ''backup.keep_daily'', ''backup.keep_weekly'', ''backup.keep_monthly'',
      ''backup.keep_yearly'', ''backup.scheduled''] \<union> (set [''drill.max_age''] \<union> (set
      [''adapter_semantics.max_comparison_age'', ''calibration.review_after'', ''doctor.meter_anomaly_horizon'',
      ''export.clipboard_command'', ''anthropic.refresh'', ''anthropic.statusline'', ''antigravity.refresh'']
      \<union> ({} \<union> {}))))))))))))))
     (resolve_sections cx home)"
    unfolding resolve_sections_def by (intro records_followed records_sections records_pure)
  then show ?thesis by (simp add: scalar_settings_def floor_setting_def insert_commute)
qed

section \<open>Values depend on the winning texts alone\<close>

text \<open>Two runs of a step agree: the same error, or the same value with each its own record.\<close>

definition same_value :: "'a resolving \<Rightarrow> 'a resolving \<Rightarrow> bool" where
  "same_value m n \<longleftrightarrow> (\<forall>p q. map_sum id fst (m p) = map_sum id fst (n q))"

named_theorems agreeing

lemma same_followed [agreeing]:
  assumes "same_value m n" "\<And>x. same_value (f x) (g x)"
  shows "same_value (followed_by m f) (followed_by n g)"
  unfolding same_value_def
proof (intro allI)
  fix p q
  have "map_sum id fst (m p) = map_sum id fst (n q)" using assms(1) by (simp add: same_value_def)
  then show "map_sum id fst (followed_by m f p) = map_sum id fst (followed_by n g q)"
    using assms(2) by (cases "m p"; cases "n q") (auto simp: followed_by_def same_value_def split: prod.splits)
qed

lemma same_pure [agreeing]: "same_value (done_with x) (done_with x)" "same_value (checked v) (checked v)"
  by (auto simp: same_value_def done_with_def checked_def split: sum.split)

lemma same_note [agreeing]: "same_value (note_file_when b k) (note_file_when b k)"
  by (simp add: same_value_def note_file_when_def note_source_def done_with_def)

text \<open>Two contexts over the same file in which every setting has the same text, from whatever level.\<close>

definition same_texts :: "'f config_context \<Rightarrow> 'f config_context \<Rightarrow> bool" where
  "same_texts cx dx \<longleftrightarrow> cx_file cx = cx_file dx \<and> cx_display cx = cx_display dx \<and> cx_floats cx = cx_floats dx \<and>
     (\<forall>k\<in>set (floor_setting # scalar_settings). map_option fst (given cx k) = map_option fst (given dx k))"

lemma same_setting [agreeing]:
  assumes "same_texts cx dx" "CHR ''.'' \<notin> set s" "dotted s n \<in> set scalar_settings"
  shows "same_value (setting cx s n d) (setting dx s n d)"
proof -
  have "map_option fst (given cx (dotted s n)) = map_option fst (given dx (dotted s n))"
    using assms(1,3) by (simp add: same_texts_def)
  then show ?thesis
    by (cases "given cx (dotted s n)"; cases "given dx (dotted s n)")
      (auto simp: same_value_def setting_given [OF assms(2)])
qed

lemma same_setting_with [agreeing]:
  "same_texts cx dx \<Longrightarrow> CHR ''.'' \<notin> set s \<Longrightarrow> dotted s n \<in> set scalar_settings \<Longrightarrow>
     same_value (setting_with read cx s n d) (setting_with read dx s n d)"
  unfolding setting_with_def by (intro agreeing)

lemma same_floor [agreeing]:
  assumes "same_texts cx dx"
  shows "same_value
    (resolve_optional_floor cx (dotted ''attribution'' ''quality_floor'')
       (file_raw (cx_floats cx) (cx_file cx) ''attribution'' ''quality_floor''))
    (resolve_optional_floor dx (dotted ''attribution'' ''quality_floor'')
       (file_raw (cx_floats dx) (cx_file dx) ''attribution'' ''quality_floor''))"
proof -
  have "map_option fst (given cx floor_setting) = map_option fst (given dx floor_setting)" "cx_floats cx = cx_floats dx"
    using assms by (simp_all add: same_texts_def)
  then show ?thesis
    unfolding same_value_def floor_given
    by (cases "given cx floor_setting"; cases "given dx floor_setting") (auto split: sum.split)
qed

lemma same_file_parts:
  assumes "same_texts cx dx"
  shows "file_only cx = file_only dx" "layout_from_file cx = layout_from_file dx"
    "resolve_file_sections cx = resolve_file_sections dx"
proof -
  have f: "cx_file cx = cx_file dx" "cx_display cx = cx_display dx" using assms by (simp_all add: same_texts_def)
  show o: "file_only cx = file_only dx" by (simp add: file_only_def file_str_def f fun_eq_iff)
  show l: "layout_from_file cx = layout_from_file dx" by (simp add: layout_from_file_def f)
  show "resolve_file_sections cx = resolve_file_sections dx" by (simp add: resolve_file_sections_def f o l)
qed

lemma same_file_only [agreeing]: "same_texts cx dx \<Longrightarrow> same_value (file_only cx s n) (file_only dx s n)"
  unfolding same_file_parts(1) [of cx dx] unfolding file_only_def by (intro agreeing)

lemma same_layout [agreeing]: "same_value (layout_from_file cx) (layout_from_file cx)"
  unfolding layout_from_file_def
  by (cases "Option.bind (cx_file cx) (\<lambda>t. get_table t ''layout'')") (auto intro!: agreeing)

lemma same_file_sections: "same_value (resolve_file_sections cx) (resolve_file_sections cx)"
  unfolding resolve_file_sections_def file_only_def by (intro agreeing)

lemma same_sections:
  assumes "same_texts cx dx"
  shows "same_value (resolve_ingest cx) (resolve_ingest dx)"
    and "same_value (resolve_sampling cx) (resolve_sampling dx)"
    and "same_value (resolve_coverage cx) (resolve_coverage dx)"
    and "same_value (resolve_attribution cx) (resolve_attribution dx)"
    and "same_value (resolve_task_distribution cx) (resolve_task_distribution dx)"
    and "same_value (resolve_can_run cx) (resolve_can_run dx)"
    and "same_value (resolve_reconciliation cx) (resolve_reconciliation dx)"
    and "same_value (resolve_backup cx) (resolve_backup dx)"
    and "same_value (resolve_drill cx) (resolve_drill dx)"
    and "same_value (resolve_plain cx) (resolve_plain dx)"
    and "same_value (resolve_file_sections cx) (resolve_file_sections dx)"
proof -
  have f: "cx_floats cx = cx_floats dx" using assms by (simp add: same_texts_def)
  note known = dotted_def scalar_settings_def
  show "same_value (resolve_ingest cx) (resolve_ingest dx)"
    unfolding resolve_ingest_def by (intro agreeing assms) (simp_all add: known)
  show "same_value (resolve_sampling cx) (resolve_sampling dx)"
    unfolding resolve_sampling_def by (intro agreeing assms) (simp_all add: known)
  show "same_value (resolve_coverage cx) (resolve_coverage dx)"
    unfolding resolve_coverage_def f by (intro agreeing assms) (simp_all add: known)
  show "same_value (resolve_attribution cx) (resolve_attribution dx)"
    unfolding resolve_attribution_def by (intro agreeing assms) (simp_all add: known)
  show "same_value (resolve_task_distribution cx) (resolve_task_distribution dx)"
    unfolding resolve_task_distribution_def f by (intro agreeing assms) (simp_all add: known)
  show "same_value (resolve_can_run cx) (resolve_can_run dx)"
    unfolding resolve_can_run_def f by (intro agreeing assms) (simp_all add: known)
  show "same_value (resolve_reconciliation cx) (resolve_reconciliation dx)"
    unfolding resolve_reconciliation_def by (intro agreeing assms) (simp_all add: known)
  show "same_value (resolve_backup cx) (resolve_backup dx)"
    unfolding resolve_backup_def by (intro agreeing assms) (simp_all add: known)
  show "same_value (resolve_drill cx) (resolve_drill dx)"
    unfolding resolve_drill_def by (intro agreeing assms) (simp_all add: known)
  show "same_value (resolve_plain cx) (resolve_plain dx)"
    unfolding resolve_plain_def by (intro agreeing assms) (simp_all add: known)
  show "same_value (resolve_file_sections cx) (resolve_file_sections dx)"
    unfolding same_file_parts(3) [OF assms] by (rule same_file_sections)
qed

lemma same_all: "same_texts cx dx \<Longrightarrow> same_value (resolve_sections cx home) (resolve_sections dx home)"
  unfolding resolve_sections_def
  by (intro same_sections agreeing) (simp_all add: dotted_def scalar_settings_def)

section \<open>The resolution\<close>

definition context_for ::
    "'f float_ops \<Rightarrow> (string, string) omap \<Rightarrow> (string \<Rightarrow> string option) \<Rightarrow> 'f toml_table option \<Rightarrow> string \<Rightarrow> 'f config_context" where
  "context_for ops overrides env file display =
     \<lparr>cx_overrides = overrides, cx_env = env, cx_file = file, cx_display = display_path display (home_of env),
      cx_floats = ops\<rparr>"

lemma resolve_config_Inr:
  "resolve_config ops parse overrides env contents display = Inr (c, p) \<longleftrightarrow>
     (\<exists>file. parse_file parse (display_path display (home_of env)) contents = Inr file \<and>
        resolve_sections (context_for ops overrides env file display) (home_of env) [] = Inr (c, p))"
  by (simp add: resolve_config_def Let_def and_then_Inr context_for_def)

lemma resolved_recorded:
  assumes "resolve_sections cx home [] = Inr (c, p)" "key \<in> set (floor_setting # scalar_settings)"
  shows "om_get p key = source_of cx key"
proof -
  have "recorded cx (set (floor_setting # scalar_settings)) [] p"
    using records_all [of cx home] assms(1) unfolding records_def by blast
  then show ?thesis using assms(2) unfolding recorded_def by (cases "source_of cx key") fastforce+
qed

text \<open>
  C16. Whatever the sources, the recorded source of every setting is the first level that sets it: the command line, then
  the environment, then the file, then the default; nothing else is recorded but the sections found in the file.
\<close>

theorem settings_come_from_the_first_level:
  assumes "resolve_config ops parse overrides env contents display = Inr (c, p)"
    and "parse_file parse (display_path display (home_of env)) contents = Inr file"
    and "key \<in> set (floor_setting # scalar_settings)"
  shows "om_get p key =
    (if om_get overrides key \<noteq> None then Some Flag
     else if env (env_var_name key) \<noteq> None then Some Environment
     else if given (context_for ops [] (\<lambda>_. None) file display) key \<noteq> None then Some File
     else if key = floor_setting then None else Some Default)"
proof -
  have "resolve_sections (context_for ops overrides env file display) (home_of env) [] = Inr (c, p)"
    using assms(1,2) by (auto simp: resolve_config_Inr)
  from resolved_recorded [OF this assms(3)] show ?thesis
    by (auto simp: source_of_def given_def context_for_def split: option.splits prod.splits)
qed

text \<open>
  C20. Where a setting is set does not matter, only its text: moving settings between the command line and the environment,
  or adding settings the program does not know, gives the same configuration.
\<close>

theorem configuration_depends_on_texts:
  assumes "resolve_config ops parse overrides env contents display = Inr (c, p)"
    and "parse_file parse (display_path display (home_of env)) contents = Inr file"
    and "home_of env' = home_of env"
    and "\<forall>key\<in>set (floor_setting # scalar_settings).
      map_option fst (given (context_for ops overrides' env' file display) key) =
      map_option fst (given (context_for ops overrides env file display) key)"
  shows "\<exists>p'. resolve_config ops parse overrides' env' contents display = Inr (c, p')"
proof -
  let ?cx = "context_for ops overrides env file display" and ?dx = "context_for ops overrides' env' file display"
  have "same_texts ?cx ?dx" using assms(3,4) by (simp add: same_texts_def context_for_def)
  then have "same_value (resolve_sections ?cx (home_of env)) (resolve_sections ?dx (home_of env))" by (rule same_all)
  moreover have "resolve_sections ?cx (home_of env) [] = Inr (c, p)" using assms(1,2) by (auto simp: resolve_config_Inr)
  ultimately have "map_sum id fst (resolve_sections ?dx (home_of env) []) = Inr c"
    unfolding same_value_def by (metis fst_conv map_sum.simps(2))
  then obtain p' where "resolve_sections ?dx (home_of env) [] = Inr (c, p')"
    by (cases "resolve_sections ?dx (home_of env) []") auto
  then show ?thesis using assms(2,3) by (auto simp: resolve_config_Inr)
qed

end
