(* ===== verification/Configuration_Checks.thy ===== *)
theory Configuration_Checks
  imports Configuration_Laws
begin

text \<open>
  What a resolved configuration satisfies: the conditions between settings that the sampler, the freshness decision
  and the task history rely on, the accounts and trackers that must not be confused, and which texts of the file are
  read at all.
\<close>

section \<open>Environment variables\<close>

definition underscored :: "string \<Rightarrow> string" where
  "underscored key = map (\<lambda>c. if c = CHR ''.'' then CHR ''_'' else c) key"

text \<open>The keys the program knows are in lower case with underscores and a dot.\<close>

definition lower_key :: "string \<Rightarrow> bool" where
  "lower_key key \<longleftrightarrow> list_all (\<lambda>c. is_ascii_lowercase c \<or> c = CHR ''_'' \<or> c = CHR ''.'') key"

lemma known_keys_lower: "list_all lower_key (floor_setting # scalar_settings)"
  by (simp add: lower_key_def floor_setting_def scalar_settings_def is_ascii_lowercase_def)

lemma known_keys_underscored: "distinct (map underscored (floor_setting # scalar_settings))"
  by (simp add: underscored_def floor_setting_def scalar_settings_def)

lemma upper_char_inj:
  assumes "upper_char c = upper_char d" "is_ascii_lowercase c \<or> c = CHR ''_''" "is_ascii_lowercase d \<or> d = CHR ''_''"
  shows "c = d"
proof -
  have range_of: "97 \<le> (of_char e :: nat) \<and> (of_char e :: nat) \<le> 122" if "is_ascii_lowercase e" for e
    using that by (simp add: is_ascii_lowercase_def Let_def)
  have up: "of_char (upper_char e) = (of_char e - 32 :: nat)" if "is_ascii_lowercase e" for e
    using that range_of [OF that] by (auto simp: upper_char_def)
  have under: "upper_char (CHR ''_'') = CHR ''_''" by (simp add: upper_char_def is_ascii_lowercase_def)
  have apart: "upper_char e \<noteq> CHR ''_''" if "is_ascii_lowercase e" for e
  proof
    assume "upper_char e = CHR ''_''"
    then have "of_char e - 32 = (95 :: nat)" using up [OF that] by simp
    then show False using range_of [OF that] by linarith
  qed
  show ?thesis
  proof (cases "is_ascii_lowercase c"; cases "is_ascii_lowercase d")
    assume low: "is_ascii_lowercase c" "is_ascii_lowercase d"
    have "(of_char c - 32 :: nat) = of_char d - 32" using assms(1) up [OF low(1)] up [OF low(2)] by simp
    then have "of_char c = (of_char d :: nat)" using range_of [OF low(1)] range_of [OF low(2)] by linarith
    then show ?thesis by simp
  qed (use assms apart under in metis)+
qed

definition env_char :: "char \<Rightarrow> char" where
  "env_char c = (if c = CHR ''.'' then CHR ''_'' else upper_char c)"

definition flat_char :: "char \<Rightarrow> char" where
  "flat_char c = (if c = CHR ''.'' then CHR ''_'' else c)"

lemma env_char_flat:
  assumes "env_char c = env_char d" "is_ascii_lowercase c \<or> c = CHR ''_'' \<or> c = CHR ''.''"
    "is_ascii_lowercase d \<or> d = CHR ''_'' \<or> d = CHR ''.''"
  shows "flat_char c = flat_char d"
proof -
  have up: "env_char e = upper_char (flat_char e)" for e
    by (simp add: env_char_def flat_char_def upper_char_def is_ascii_lowercase_def)
  show ?thesis
    by (rule upper_char_inj) (use assms in \<open>auto simp: up flat_char_def\<close>)
qed

lemma env_var_name_lower:
  assumes "lower_key a" "lower_key b" "env_var_name a = env_var_name b"
  shows "underscored a = underscored b"
proof -
  have eq: "map env_char a = map env_char b"
    using assms(3) unfolding env_var_name_def env_char_def [abs_def] by (simp only: same_append_eq)
  then have len: "length a = length b" by (metis length_map)
  have "map flat_char a = map flat_char b"
  proof (rule nth_equalityI)
    fix i assume "i < length (map flat_char a)"
    then have i: "i < length a" "i < length b" using len by simp_all
    then have same: "env_char (a ! i) = env_char (b ! i)" using eq by (metis nth_map)
    have "flat_char (a ! i) = flat_char (b ! i)"
      by (rule env_char_flat [OF same]) (use assms(1,2) i in \<open>simp_all add: lower_key_def list_all_length\<close>)
    then show "map flat_char a ! i = map flat_char b ! i" using i by simp
  qed (simp add: len)
  then show ?thesis unfolding underscored_def flat_char_def [abs_def] .
qed

lemma env_names_distinct: "inj_on env_var_name (set (floor_setting # scalar_settings))"
proof (rule inj_onI)
  fix a b assume known: "a \<in> set (floor_setting # scalar_settings)" "b \<in> set (floor_setting # scalar_settings)"
    and "env_var_name a = env_var_name b"
  then have "underscored a = underscored b"
    using env_var_name_lower known_keys_lower unfolding list_all_iff by blast
  then show "a = b" using known known_keys_underscored unfolding distinct_map inj_on_def by blast
qed

lemma home_is_no_setting: "env_var_name key \<noteq> ''HOME''"
  by (simp add: env_var_name_def)

section \<open>What the readers accept\<close>

lemma setting_with_reads:
  "setting_with read cx s n d p = Inr (x, q) \<Longrightarrow> \<exists>raw. read raw = Inr x"
proof -
  assume "setting_with read cx s n d p = Inr (x, q)"
  then obtain raw where "(case read raw of Inl e \<Rightarrow> Inl (BadSetting (dotted s n) e) | Inr x \<Rightarrow> Inr x) = Inr x"
    by (auto simp: setting_with_def followed_by_Inr checked_Inr)
  then show ?thesis by (cases "read raw") auto
qed

lemma reads_bounded:
  "read_count raw = Inr n \<Longrightarrow> 0 < n" "read_positive_count raw = Inr n \<Longrightarrow> 0 < n"
  "read_threshold raw = Inr n \<Longrightarrow> 0 < n \<and> n \<le> u32_max" "read_percentile raw = Inr n \<Longrightarrow> n \<le> 100"
  "read_unit ops raw = Inr x \<Longrightarrow> fo_unit ops x" "read_multiple ops raw = Inr x \<Longrightarrow> fo_positive ops x"
  by (auto simp: read_count_def read_positive_count_def read_threshold_def read_percentile_def percentile_new_def
      read_unit_def read_multiple_def and_then_Inr ok_or_Inr split: option.splits if_splits)

lemma resolved_sampling:
  assumes "resolve_sampling cx p = Inr (s, q)"
  shows "0 < sm_max_concurrent s \<and> 0 < sm_auth_threshold s \<and> sm_auth_threshold s \<le> u32_max"
  using assms reads_bounded by (auto simp: resolve_sampling_def step_Inr dest!: setting_with_reads)

lemma resolved_ingest:
  assumes "resolve_ingest cx p = Inr (s, q)"
  shows "0 < ig_events s \<and> 0 < ig_files s"
  using assms reads_bounded by (auto simp: resolve_ingest_def step_Inr dest!: setting_with_reads)

lemma resolved_history:
  assumes "resolve_task_distribution cx p = Inr (hc, q)"
  shows "history_config_ok hc"
  using assms reads_bounded
  by (auto simp: resolve_task_distribution_def step_Inr history_config_ok_def split: if_splits dest!: setting_with_reads)

lemma resolved_schedule:
  assumes "validate_sampling_schedule s horizon = Inr u"
  shows "sm_tick s < sm_lead s \<and> sm_tick s \<le> sm_interval s \<and> sat_add_u64 (sm_interval s) (sm_tick s) < horizon"
  using assms by (auto simp: validate_sampling_schedule_def Let_def split: if_splits)

section \<open>Accounts and trackers\<close>

lemma check_all_Inr: "check_all f xs = Inr u \<longleftrightarrow> (\<forall>x\<in>set xs. f x = Inr ())"
  by (induction xs) (auto simp: and_then_Inr)

lemma traverse_Inr: "traverse f xs = Inr ys \<longleftrightarrow> list_all2 (\<lambda>x y. f x = Inr y) xs ys"
  by (induction xs arbitrary: ys) (auto simp: and_then_Inr list_all2_Cons1)

definition shared_source :: "account_config \<Rightarrow> account_config \<Rightarrow> bool" where
  "shared_source a b \<longleftrightarrow> trim (ao_credential_kind a) \<in> {''file'', ''env''} \<and> trim (ao_credential_detail a) \<noteq> [] \<and>
     trim (ao_credential_kind b) = trim (ao_credential_kind a) \<and> trim (ao_credential_detail b) = trim (ao_credential_detail a)"

lemma distinct_sources:
  "validate_distinct_credential_sources as = Inr u \<longleftrightarrow> sorted_wrt (\<lambda>a b. \<not> shared_source a b) as"
proof (induction as)
  case (Cons a as)
  have "check_shared_source a as = Inr () \<longleftrightarrow> (\<forall>b\<in>set as. \<not> shared_source a b)"
    by (auto simp: check_shared_source_def shared_source_def Let_def check_all_Inr)
  then show ?case using Cons by (auto simp: and_then_Inr)
qed simp

text \<open>What every account of a resolved configuration satisfies.\<close>

definition account_ok :: "account_config \<Rightarrow> bool" where
  "account_ok a \<longleftrightarrow>
     (ao_provider a = ''opencode'' \<longrightarrow> (\<exists>w. ao_workspace a = Some w \<and> trim w \<noteq> [])) \<and>
     (ao_codex_home a \<noteq> None \<longrightarrow> ao_provider a = ''codex'' \<and> trim (the (ao_codex_home a)) \<noteq> []) \<and>
     (\<forall>tier. ao_plan_tier a = Some tier \<longrightarrow> tier \<noteq> [])"

lemma read_codex_home_Some:
  assumes "read_codex_home t = Inr (Some home)"
  shows "get_str t ''provider'' = Some ''codex'' \<and> trim home \<noteq> []"
  using assms by (auto simp: read_codex_home_def and_then_Inr ok_or_Inr split: option.splits if_splits)

lemma read_plan_tier_Some: "read_plan_tier t = Inr (Some tier) \<Longrightarrow> tier \<noteq> []"
  by (auto simp: read_plan_tier_def and_then_Inr ok_or_Inr split: option.splits if_splits)

lemma read_account_ok:
  assumes "read_account t = Inr a" "validate_account_provider_keys a = Inr u"
  shows "account_ok a"
proof -
  obtain policy home tier where r: "read_codex_home t = Inr home" "read_plan_tier t = Inr tier"
    and a: "ao_codex_home a = home" "ao_plan_tier a = tier" "ao_provider a = unwrap_or_default (get_str t ''provider'')"
    using assms(1) unfolding read_account_def Let_def and_then_Inr by auto
  have "ao_provider a = ''opencode'' \<longrightarrow> (\<exists>w. ao_workspace a = Some w \<and> trim w \<noteq> [])"
    using assms(2) by (auto simp: validate_account_provider_keys_def split: option.splits if_splits)
  then show ?thesis
    using r a read_codex_home_Some [of t] read_plan_tier_Some [of t] by (auto simp: account_ok_def unwrap_or_default_def)
qed

lemma read_accounts_ok:
  assumes "read_accounts file = Inr accounts"
  shows "list_all account_ok accounts \<and> sorted_wrt (\<lambda>a b. \<not> shared_source a b) accounts"
proof -
  have t: "list_all2 (\<lambda>t a. read_account t = Inr a) (List.map_filter as_table (file_entries file ''accounts'')) accounts"
    and v: "\<forall>a\<in>set accounts. validate_account_provider_keys a = Inr ()"
    and d: "validate_distinct_credential_sources accounts = Inr ()"
    using assms by (auto simp: read_accounts_def and_then_Inr traverse_Inr check_all_Inr)
  have "account_ok a" if "a \<in> set accounts" for a
  proof -
    obtain i where i: "i < length accounts" "a = accounts ! i" using \<open>a \<in> set accounts\<close> by (auto simp: in_set_conv_nth)
    have "validate_account_provider_keys a = Inr ()" using v \<open>a \<in> set accounts\<close> by blast
    then show ?thesis by (rule read_account_ok [OF list_all2_nthD2 [OF t i(1), folded i(2)]])
  qed
  then show ?thesis using d distinct_sources by (auto simp: list_all_iff)
qed

lemma same_name_after_Inr:
  "same_name_after t i j us = Inr u \<longleftrightarrow> tk_name t \<notin> set (map tk_name us)"
  by (induction us arbitrary: j) auto

lemma distinct_trackers_Inr: "distinct_trackers_from i ts = Inr u \<longleftrightarrow> distinct (map tk_name ts)"
  by (induction ts arbitrary: i) (auto simp: and_then_Inr same_name_after_Inr)

lemma resolved_files:
  assumes "resolve_file_sections cx p = Inr (f, q)"
  shows "list_all account_ok (fs_accounts f) \<and> sorted_wrt (\<lambda>a b. \<not> shared_source a b) (fs_accounts f) \<and>
    distinct (map tk_name (fs_trackers f))"
  using assms
  by (auto simp: resolve_file_sections_def step_Inr validate_distinct_tracker_names_def distinct_trackers_Inr
      dest: read_accounts_ok)

section \<open>A resolved configuration is coherent\<close>

lemma resolve_sections_parts:
  assumes "resolve_sections cx home p = Inr (c, q)"
  shows "\<exists>p1 p2 p3 p4 p5 p6 p7 p8 u files.
    resolve_ingest cx p1 = Inr (cf_ingest c, p2) \<and> resolve_sampling cx p3 = Inr (cf_sampling c, p4) \<and>
    validate_sampling_schedule (cf_sampling c) (cf_freshness c) = Inr u \<and>
    resolve_task_distribution cx p5 = Inr (cf_history c, p6) \<and> resolve_file_sections cx p7 = Inr (files, p8) \<and>
    cf_accounts c = fs_accounts files \<and> cf_trackers c = fs_trackers files"
  using assms unfolding resolve_sections_def step_Inr by (elim exE conjE) force

text \<open>
  C15. No configuration resolves whose schedule cannot be delivered or whose horizon calls every reading stale, whose
  percentiles are out of order or bounds are zero, in which two accounts read one credential source, two trackers
  share a name, or an account lacks what its provider needs.
\<close>

theorem resolved_configuration_is_coherent:
  assumes "resolve_config ops parse overrides env contents display = Inr (c, p)"
  shows "sm_tick (cf_sampling c) < sm_lead (cf_sampling c) \<and> sm_tick (cf_sampling c) \<le> sm_interval (cf_sampling c) \<and>
    sat_add_u64 (sm_interval (cf_sampling c)) (sm_tick (cf_sampling c)) < cf_freshness c \<and>
    0 < sm_max_concurrent (cf_sampling c) \<and> 0 < ig_events (cf_ingest c) \<and> 0 < ig_files (cf_ingest c) \<and>
    history_config_ok (cf_history c) \<and>
    list_all account_ok (cf_accounts c) \<and> sorted_wrt (\<lambda>a b. \<not> shared_source a b) (cf_accounts c) \<and>
    distinct (map tk_name (cf_trackers c))"
proof -
  obtain cx home where "resolve_sections cx home [] = Inr (c, p)" using assms by (auto simp: resolve_config_Inr)
  from resolve_sections_parts [OF this] show ?thesis
    using resolved_schedule resolved_sampling resolved_ingest resolved_history resolved_files by metis
qed

section \<open>Known keys\<close>

lemma check_keys_Inr: "check_keys t allowed path d = Inr u \<longleftrightarrow> fst ` set t \<subseteq> set allowed"
  by (fastforce simp: check_keys_def check_all_Inr split: prod.splits if_splits)

lemma known_keys_accepted:
  assumes "validate_known_keys t d = Inr u"
  shows "fst ` set t \<subseteq> set known_sections"
    and "(name, allowed) \<in> set section_keys \<Longrightarrow> get_table t name = Some sec \<Longrightarrow> fst ` set sec \<subseteq> set allowed"
    and "get_table t ''tracker'' = None"
proof -
  have c: "check_keys t known_sections [] d = Inr ()" "check_all (check_section t d) section_keys = Inr ()"
    and n: "get_table t ''tracker'' = None"
    using assms unfolding validate_known_keys_def and_then_Inr by (auto simp: and_then_Inr split: if_splits)
  show "fst ` set t \<subseteq> set known_sections" using c(1) by (simp add: check_keys_Inr)
  show "fst ` set sec \<subseteq> set allowed" if "(name, allowed) \<in> set section_keys" "get_table t name = Some sec"
    using c(2) that unfolding check_all_Inr by (fastforce simp: check_section_def check_keys_Inr)
  show "get_table t ''tracker'' = None" by (rule n)
qed

lemma list_all_pairs:
  "list_all (\<lambda>(n, as). list_all (P n) as) ps \<Longrightarrow> (n, as) \<in> set ps \<Longrightarrow> k \<in> set as \<Longrightarrow> P n k"
  by (auto simp: list_all_iff)

text \<open>The keys the file may hold in those sections are the settings the resolver reads.\<close>

lemma allowed_keys_are_read:
  "list_all (\<lambda>(name, allowed). list_all (\<lambda>key. dotted name key \<in> set (floor_setting # scalar_settings @ file_settings)) allowed)
     section_keys"
  by code_simp

lemma sections_have_no_dot: "list_all (\<lambda>(name, allowed). list_all (\<lambda>key. CHR ''.'' \<notin> set name) allowed) section_keys"
  by (simp add: section_keys_def)

section \<open>A string written in the file is read\<close>

text \<open>Steps that keep a record of the file, and steps that make one.\<close>

definition keeps_file :: "'a resolving \<Rightarrow> bool" where
  "keeps_file m \<longleftrightarrow>
     (\<forall>p x q key. m p = Inr (x, q) \<longrightarrow> key \<in> set file_settings \<longrightarrow> om_get p key = Some File \<longrightarrow> om_get q key = Some File)"

definition marks_file :: "'a resolving \<Rightarrow> string \<Rightarrow> bool" where
  "marks_file m key \<longleftrightarrow> (\<forall>p x q. m p = Inr (x, q) \<longrightarrow> om_get q key = Some File)"

named_theorems keeping

lemma records_keeps: "records cx K m \<Longrightarrow> keeps_file m"
  unfolding records_def recorded_def keeps_file_def by (metis disjoint_iff)

lemma keeps_followed [keeping]:
  "keeps_file m \<Longrightarrow> (\<And>x. keeps_file (f x)) \<Longrightarrow> keeps_file (followed_by m f)"
  by (fastforce simp: keeps_file_def followed_by_Inr)

lemma keeps_pure [keeping]: "keeps_file (done_with x)" "keeps_file (checked v)"
  by (rule records_keeps, rule records_pure)+

lemma keeps_note [keeping]: "keeps_file (note_file_when b key)"
  by (auto simp: keeps_file_def note_file_when_def note_source_def done_with_Inr)

lemma keeps_setting [keeping]:
  "CHR ''.'' \<notin> set s \<Longrightarrow> dotted s n \<notin> set file_settings \<Longrightarrow> keeps_file (setting cx s n d)"
  by (auto simp: keeps_file_def setting_given split: option.splits)

lemma keeps_setting_with [keeping]:
  "CHR ''.'' \<notin> set s \<Longrightarrow> dotted s n \<notin> set file_settings \<Longrightarrow> keeps_file (setting_with read cx s n d)"
  unfolding setting_with_def by (intro keeping)

lemma keeps_file_only [keeping]: "keeps_file (file_only cx s n)"
  unfolding file_only_def by (intro keeping)

lemma keeps_sections [keeping]:
  "keeps_file (resolve_drill cx)" "keeps_file (resolve_plain cx)" "keeps_file (layout_from_file cx)"
  "keeps_file (resolve_file_sections cx)"
  by (rule records_keeps, rule records_sections records_layout)+

lemma marks_now:
  "marks_file m key \<Longrightarrow> (\<And>x. keeps_file (f x)) \<Longrightarrow> key \<in> set file_settings \<Longrightarrow> marks_file (followed_by m f) key"
  by (fastforce simp: marks_file_def keeps_file_def followed_by_Inr)

lemma marks_later: "(\<And>x. marks_file (f x) key) \<Longrightarrow> marks_file (followed_by m f) key"
  by (auto simp: marks_file_def followed_by_Inr)

lemma marks_note: "b \<Longrightarrow> marks_file (note_file_when b key) key"
  by (auto simp: marks_file_def note_file_when_def note_source_def)

lemma marks_file_only:
  "file_str cx s n \<noteq> None \<Longrightarrow> dotted s n \<in> set file_settings \<Longrightarrow> key = dotted s n \<Longrightarrow> marks_file (file_only cx s n) key"
  unfolding file_only_def by (auto intro: marks_now marks_note keeping)

text \<open>The strings of the sections without overrides.\<close>

lemma marks_backup:
  "file_str cx ''backup'' ''destination'' \<noteq> None \<Longrightarrow> marks_file (resolve_backup cx) ''backup.destination''"
  unfolding resolve_backup_def by (intro marks_now marks_file_only keeping) (simp_all add: key_eval)

lemma marks_drill: "file_str cx ''drill'' ''result'' \<noteq> None \<Longrightarrow> marks_file (resolve_drill cx) ''drill.result''"
  unfolding resolve_drill_def by (intro marks_now marks_file_only keeping) (simp_all add: key_eval)

lemma marks_rate_book:
  "file_str cx ''valuation'' ''default_rate_book'' \<noteq> None \<Longrightarrow>
     marks_file (resolve_file_sections cx) ''valuation.default_rate_book''"
  unfolding resolve_file_sections_def by (intro marks_now marks_file_only keeping) (simp_all add: key_eval)

lemma marks_checked:
  "(\<And>x. v = Inr x \<Longrightarrow> marks_file (f x) key) \<Longrightarrow> marks_file (followed_by (checked v) f) key"
  by (auto simp: marks_file_def step_Inr)

lemma layout_root_string: "toml_get t key = Some (TomlString s) \<Longrightarrow> layout_root t key = Inr x \<Longrightarrow> x \<noteq> None"
  by (auto simp: layout_root_def split: if_splits)

lemma layout_ignore_string: "toml_get t ''ignore'' = Some (TomlString s) \<Longrightarrow> layout_ignore t \<noteq> Inr x"
  by (simp add: layout_ignore_def)

lemma marks_layout:
  assumes "Option.bind (cx_file cx) (\<lambda>t. get_table t ''layout'') = Some sec" "toml_get sec key = Some (TomlString s)"
    and "key \<in> {''repositories'', ''worktrees'', ''ignore''}"
  shows "marks_file (layout_from_file cx) (dotted ''layout'' key)"
proof -
  consider "key = ''repositories''" | "key = ''worktrees''" | "key = ''ignore''" using assms(3) by blast
  then show ?thesis
  proof cases
    case 1
    then show ?thesis unfolding layout_from_file_def using assms(1,2) layout_root_string
      by (auto intro!: marks_checked marks_now marks_note keeping simp: key_eval)
  next
    case 2
    have k: "marks_file (note_file_when (w \<noteq> None) ''layout.worktrees'') (dotted ''layout'' ''worktrees'')"
      if "layout_root sec ''worktrees'' = Inr w" for w
      using marks_note [of "w \<noteq> None" "''layout.worktrees''"] layout_root_string [OF _ that] assms(2) 2
      by (auto simp: dotted_def)
    show ?thesis unfolding layout_from_file_def 2 assms(1) option.case
      by (rule marks_checked, rule marks_later, rule marks_checked, rule marks_now, erule k)
        (auto intro!: keeping simp: key_eval)
  next
    case 3
    have k: "marks_file (f x) (dotted ''layout'' ''ignore'')" if "layout_ignore sec = Inr x" for f x
      using that layout_ignore_string [of sec s x] assms(2) 3 by simp
    show ?thesis unfolding layout_from_file_def 3 assms(1) option.case
      by (rule marks_checked, rule marks_later, rule marks_checked, rule marks_later, rule marks_checked, erule k)
  qed
qed

lemma marks_layout_section:
  "marks_file (layout_from_file cx) key \<Longrightarrow> key \<in> set file_settings \<Longrightarrow> marks_file (resolve_file_sections cx) key"
  unfolding resolve_file_sections_def by (intro marks_later marks_now keeping)

lemma file_only_keys:
  "list_all (\<lambda>(name, allowed). list_all (\<lambda>key. dotted name key \<in> set file_settings \<longrightarrow>
     (name, key) \<in> {(''backup'', ''destination''), (''drill'', ''result''), (''valuation'', ''default_rate_book''),
       (''layout'', ''repositories''), (''layout'', ''worktrees''), (''layout'', ''ignore'')}) allowed) section_keys"
  by code_simp

lemma marks_sections:
  assumes "(name, allowed) \<in> set section_keys" "key \<in> set allowed" "dotted name key \<in> set file_settings"
    and "cx_file cx = Some t" "get_table t name = Some sec" "toml_get sec key = Some (TomlString s)"
  shows "marks_file (resolve_sections cx home) (dotted name key)"
proof -
  have str: "file_str cx name key \<noteq> None" using assms(4-6) by (simp add: file_str_def get_str_def)
  have later: "marks_file (resolve_sections cx home) (dotted name key)"
    if "marks_file (resolve_file_sections cx) (dotted name key)"
    unfolding resolve_sections_def by (intro marks_later marks_now [OF that _ assms(3)] keeping)
  have layout: "marks_file (resolve_sections cx home) (dotted name key)"
    if "name = ''layout''" "key \<in> {''repositories'', ''worktrees'', ''ignore''}"
  proof -
    have "marks_file (layout_from_file cx) (dotted ''layout'' key)"
      by (rule marks_layout [OF _ assms(6) that(2)]) (use assms(4,5) that(1) in simp)
    then have "marks_file (layout_from_file cx) (dotted name key)" unfolding that(1) .
    then show ?thesis by (intro later marks_layout_section [OF _ assms(3)])
  qed
  have "(name, key) \<in> {(''backup'', ''destination''), (''drill'', ''result''), (''valuation'', ''default_rate_book''),
      (''layout'', ''repositories''), (''layout'', ''worktrees''), (''layout'', ''ignore'')}"
    using list_all_pairs [OF file_only_keys assms(1,2)] assms(3) by (rule mp)
  then show ?thesis unfolding insert_iff prod.inject empty_iff simp_thms
  proof (elim disjE conjE)
    assume k: "name = ''backup''" "key = ''destination''"
    then have "marks_file (resolve_backup cx) (dotted name key)" using marks_backup str by (simp add: dotted_def)
    then show ?thesis unfolding resolve_sections_def by (intro marks_later marks_now [OF _ _ assms(3)] keeping)
  next
    assume k: "name = ''drill''" "key = ''result''"
    then have "marks_file (resolve_drill cx) (dotted name key)" using marks_drill str by (simp add: dotted_def)
    then show ?thesis unfolding resolve_sections_def by (intro marks_later marks_now [OF _ _ assms(3)] keeping)
  next
    assume k: "name = ''valuation''" "key = ''default_rate_book''"
    then show ?thesis using marks_rate_book str by (intro later) (simp add: dotted_def)
  qed (rule layout, simp, simp)+
qed

text \<open>
  C22. Every string the file holds in a section with settings decides its setting or gives way to the command line or the
  environment: it is never accepted and then left unread.
\<close>

theorem written_setting_is_read:
  assumes "resolve_config ops parse overrides env (Some contents) display = Inr (c, p)" "parse contents = Inr t"
    and "(name, allowed) \<in> set section_keys" "get_table t name = Some sec" "toml_get sec key = Some (TomlString s)"
  shows "om_get p (dotted name key) \<in> {Some Flag, Some Environment, Some File}"
proof -
  let ?cx = "context_for ops overrides env (Some t) display"
  have r: "validate_known_keys t (display_path display (home_of env)) = Inr ()"
    "resolve_sections ?cx (home_of env) [] = Inr (c, p)"
    using assms(1,2) by (auto simp: resolve_config_Inr parse_file_def and_then_Inr)
  have "key \<in> fst ` set sec" using assms(5) by (auto simp: toml_get_def dest!: map_of_SomeD intro!: image_eqI)
  then have key: "key \<in> set allowed" using known_keys_accepted(2) [OF r(1) assms(3,4)] by blast
  have dot: "CHR ''.'' \<notin> set name" by (rule list_all_pairs [OF sections_have_no_dot assms(3) key])
  have "dotted name key \<in> set (floor_setting # scalar_settings @ file_settings)"
    by (rule list_all_pairs [OF allowed_keys_are_read assms(3) key])
  then consider "dotted name key \<in> set (floor_setting # scalar_settings)" | "dotted name key \<in> set file_settings"
    by auto
  then show ?thesis
  proof cases
    case 1
    have "file_raw ops (Some t) name key = Some s" using assms(4,5) by (simp add: file_raw_def)
    then have "\<exists>v src. given ?cx (dotted name key) = Some (v, src) \<and> src \<in> {Flag, Environment, File}"
      by (auto simp: given_def split_dotted [OF dot] context_for_def split: option.split)
    then show ?thesis using resolved_recorded [OF r(2) 1] by (auto simp: source_of_def)
  next
    case 2
    have "marks_file (resolve_sections ?cx (home_of env)) (dotted name key)"
      by (rule marks_sections [OF assms(3) key 2 _ assms(4,5)]) (simp add: context_for_def)
    then show ?thesis using r(2) by (auto simp: marks_file_def)
  qed
qed

text \<open>
  A section that is not a table is accepted and ignored, and so is a setting written as an array: the default stands.
\<close>

lemma misshapen_settings_are_ignored:
  "validate_known_keys [(''sampling'', TomlString ''5m'')] d = Inr ()"
  "validate_known_keys [(''sampling'', TomlTable [(''scheduler_tick'', TomlArray [TomlString ''5m''])])] d = Inr ()"
  "file_raw ops (Some [(''sampling'', TomlTable [(''scheduler_tick'', TomlArray [TomlString ''5m''])])]) ''sampling'' ''scheduler_tick'' = None"
  by (simp_all add: validate_known_keys_def check_trackers_def toml_get_def get_table_def check_keys_def known_sections_def
      check_section_def section_keys_def get_array_def check_models_def check_aliases_def file_raw_def)

end
