(* ===== verification/Configuration_Example.thy ===== *)
theory Configuration_Example
  imports Configuration_Checks
begin

text \<open>
  A small file resolved under a synthetic home, and the claims about configurations applied to it. The float operations
  of the example read a decimal as its digits.
\<close>

definition hundredths :: "nat float_ops" where
  "hundredths =
     \<lparr>fo_parse = (\<lambda>s. parse_u64 (filter is_ascii_digit s)), fo_show = show_nat, fo_unit = (\<lambda>x. x \<le> 100),
      fo_ppm = (\<lambda>x. x * 10000), fo_show_ppm = show_nat, fo_positive = (\<lambda>x. 0 < x),
      fo_times = (\<lambda>x m. m * int x div 10)\<rparr>"

definition table_example :: "nat toml_table" where
  "table_example =
     [(''drill'', TomlTable [(''result'', TomlString ''/r'')]),
      (''sampling'', TomlTable [(''scheduler_tick'', TomlString ''30s'')])]"

definition home_env :: "string \<Rightarrow> string option" where
  "home_env name = (if name = ''HOME'' then Some ''/home/u'' else None)"

definition example_context :: "nat config_context" where
  "example_context = context_for hundredths [] home_env (Some table_example) ''aub.toml''"

text \<open>The value of a step, from any record.\<close>

definition yields :: "'a resolving \<Rightarrow> 'a \<Rightarrow> bool" where
  "yields m x \<longleftrightarrow> (\<forall>p. \<exists>q. m p = Inr (x, q))"

lemma yields_followed: "yields m x \<Longrightarrow> yields (f x) y \<Longrightarrow> yields (followed_by m f) y"
  unfolding yields_def followed_by_Inr by blast

lemma yields_pure: "yields (done_with x) x" "v = Inr x \<Longrightarrow> yields (checked v) x"
  by (simp_all add: yields_def done_with_def checked_def)

lemma yields_note: "yields (note_file_when b key) ()"
  by (simp add: yields_def note_file_when_def note_source_def done_with_def)

lemma example_raw:
  "file_raw hundredths (Some table_example) s n =
     (if s = ''sampling'' \<and> n = ''scheduler_tick'' then Some ''30s''
      else if s = ''drill'' \<and> n = ''result'' then Some ''/r'' else None)"
  by (auto simp: file_raw_def table_example_def get_table_def toml_get_def)

lemma yields_setting:
  "yields (setting example_context s n d)
     (case file_raw hundredths (Some table_example) s n of Some v \<Rightarrow> v | None \<Rightarrow> d)"
  by (simp add: yields_def setting_def resolve_string_def example_context_def context_for_def home_env_def
      home_is_no_setting split: option.split)

lemma yields_setting_with:
  "read (case file_raw hundredths (Some table_example) s n of Some v \<Rightarrow> v | None \<Rightarrow> d) = Inr x \<Longrightarrow>
     yields (setting_with read example_context s n d) x"
  unfolding setting_with_def by (rule yields_followed [OF yields_setting yields_pure(2)]) simp

lemma yields_file_only: "yields (file_only cx s n) (file_str cx s n)"
  unfolding file_only_def by (rule yields_followed [OF yields_note yields_pure(1)])

lemma yields_floor:
  "yields (resolve_optional_floor example_context (dotted ''attribution'' ''quality_floor'')
     (file_raw (cx_floats example_context) (cx_file example_context) ''attribution'' ''quality_floor'')) None"
  by (simp add: yields_def resolve_optional_floor_def example_context_def context_for_def home_env_def
      home_is_no_setting example_raw)

lemma duration_texts:
  "read_duration ''2s'' = Inr 2000000000" "read_duration ''5s'' = Inr 5000000000" "read_duration ''10s'' = Inr 10000000000"
  "read_duration ''30s'' = Inr 30000000000" "read_duration ''120s'' = Inr 120000000000" "read_duration ''3600s'' = Inr 3600000000000"
  "read_duration ''1m'' = Inr 60000000000" "read_duration ''5m'' = Inr 300000000000" "read_duration ''12m'' = Inr 720000000000"
  "read_duration ''15m'' = Inr 900000000000" "read_duration ''6h'' = Inr 21600000000000" "read_duration ''48h'' = Inr 172800000000000"
  "read_duration ''30d'' = Inr 2592000000000000"
  by (simp_all add: read_duration_def parse_duration_def split_unit_def string_eval Let_def checked_mul_u64_def
      from_seconds_def sat_mul_u64_def is_u64_def)

lemma other_texts:
  "read_positive_count ''5000'' = Inr 5000" "read_positive_count ''200'' = Inr 200" "read_positive_count ''5'' = Inr 5"
  "read_count ''2'' = Inr 2" "read_count ''12'' = Inr 12" "read_threshold ''3'' = Inr 3"
  "read_percentile ''25'' = Inr 25" "read_percentile ''75'' = Inr 75" "read_percentile ''90'' = Inr 90"
  "read_keep_count ''7'' = Inr 7" "read_keep_count ''4'' = Inr 4" "read_keep_count ''6'' = Inr 6" "read_keep_count ''2'' = Inr 2"
  "read_bool ''true'' = Inr True" "read_bound ''low'' = Inr LowBound" "read_quantile_method ''nearest-rank'' = Inr NearestRank"
  by (simp_all add: read_positive_count_def read_count_def read_threshold_def read_percentile_def percentile_new_def
      read_keep_count_def read_bool_def read_bound_def bound_parse_def read_quantile_method_def quantile_parse_def
      ok_or_def string_eval Let_def)

lemma decimal_texts:
  "read_unit hundredths ''0.98'' = Inr 98" "read_unit hundredths ''0.95'' = Inr 95" "read_unit hundredths ''0.80'' = Inr 80"
  "read_multiple hundredths ''2.0'' = Inr 20"
  by (simp_all add: read_unit_def read_multiple_def hundredths_def string_eval Let_def)

lemmas text_values = duration_texts other_texts decimal_texts example_raw

text \<open>Section by section.\<close>

definition sampling_example :: sampling_config where
  "sampling_example =
     \<lparr>sm_tick = 30000000000, sm_interval = 300000000000, sm_lead = 120000000000, sm_request_timeout = 5000000000,
      sm_busy_timeout = 10000000000, sm_command_budget = 30000000000, sm_max_concurrent = 2,
      sm_retry_after_cap = 3600000000000, sm_auth_threshold = 3, sm_auth_cap = 21600000000000\<rparr>"

lemma yields_sampling: "yields (resolve_sampling example_context) sampling_example"
  unfolding resolve_sampling_def sampling_example_def
  by (rule yields_followed [OF yields_setting_with], simp add: text_values)+ (rule yields_pure)

lemma yields_horizon: "yields (duration_setting example_context ''freshness'' ''meter'' ''12m'') 720000000000"
  by (rule yields_setting_with) (simp add: text_values)

lemma yields_schedule: "yields (checked (validate_sampling_schedule sampling_example 720000000000)) ()"
  by (rule yields_pure) (simp add: validate_sampling_schedule_def sampling_example_def sat_add_u64_def)

lemma yields_ingest: "\<exists>x. yields (resolve_ingest example_context) x"
  unfolding resolve_ingest_def
  by (rule exI, (rule yields_followed [OF yields_setting_with], simp add: text_values)+, rule yields_pure)

lemma yields_coverage: "\<exists>x. yields (resolve_coverage example_context) x"
  unfolding resolve_coverage_def
  by (rule exI, (rule yields_followed [OF yields_setting_with],
      simp add: text_values example_context_def context_for_def)+, rule yields_pure)

lemma yields_attribution: "\<exists>x. yields (resolve_attribution example_context) x"
  unfolding resolve_attribution_def
  by (rule exI, rule yields_followed [OF yields_floor], rule yields_followed [OF yields_setting_with],
      simp add: text_values, rule yields_pure)

lemma yields_task_distribution: "\<exists>x. yields (resolve_task_distribution example_context) x"
  unfolding resolve_task_distribution_def
  by (rule exI, (rule yields_followed [OF yields_setting_with], simp add: text_values)+,
      rule yields_followed [OF yields_pure(2)], simp,
      (rule yields_followed [OF yields_setting_with], simp add: text_values example_context_def context_for_def)+,
      rule yields_pure)

lemma yields_can_run: "\<exists>x. yields (resolve_can_run example_context) x"
  unfolding resolve_can_run_def
  by (rule exI, (rule yields_followed [OF yields_setting_with],
      simp add: text_values example_context_def context_for_def)+, rule yields_pure)

lemma yields_reconciliation: "\<exists>x. yields (resolve_reconciliation example_context) x"
  unfolding resolve_reconciliation_def
  by (rule exI, (rule yields_followed [OF yields_setting_with], simp add: text_values)+, rule yields_pure)

lemma yields_backup: "\<exists>x. yields (resolve_backup example_context) x"
  unfolding resolve_backup_def
  by (rule exI, rule yields_followed [OF yields_file_only], (rule yields_followed [OF yields_setting_with],
      simp add: text_values)+, rule yields_pure)

lemma yields_drill: "\<exists>x. yields (resolve_drill example_context) x"
  unfolding resolve_drill_def
  by (rule exI, rule yields_followed [OF yields_file_only], rule yields_followed [OF yields_setting_with],
      simp add: text_values, rule yields_pure)

lemma yields_plain: "\<exists>x. yields (resolve_plain example_context) x"
  unfolding resolve_plain_def
  by (rule exI, (rule yields_followed [OF yields_setting_with], simp add: text_values)+, rule yields_followed [OF yields_setting],
      (rule yields_followed [OF yields_setting_with], simp add: text_values)+, rule yields_pure)

lemma example_file: "cx_file example_context = Some table_example" "cx_display example_context = ''aub.toml''"
  by (simp_all add: example_context_def context_for_def display_path_def home_env_def home_of_def)

lemma example_entries:
  "name \<notin> {''drill'', ''sampling''} \<Longrightarrow> file_entries (Some table_example) name = []"
  "name \<notin> {''drill'', ''sampling''} \<Longrightarrow> get_table table_example name = None"
  by (auto simp: file_entries_def get_array_def get_table_def toml_get_def table_example_def)

lemma yields_file_sections: "\<exists>x. yields (resolve_file_sections example_context) x"
proof -
  have v: "read_trackers (cx_file example_context) (cx_display example_context) = Inr []"
    "validate_distinct_tracker_names [] = Inr ()" "read_accounts (cx_file example_context) = Inr []"
    "model_table_from_file (cx_file example_context) = Inr []"
    "alias_table_from_file (cx_file example_context) ''projects'' = Inr []"
    "alias_table_from_file (cx_file example_context) ''repositories'' = Inr []"
    by (simp_all add: read_trackers_def read_accounts_def model_table_from_file_def alias_table_from_file_def example_entries
        validate_distinct_tracker_names_def map_filter_simps or_error_def table_new_def example_file(1))
  have l: "layout_from_file example_context = done_with \<lparr>lr_repositories = None, lr_worktrees = None, lr_ignore = []\<rparr>"
    by (simp add: layout_from_file_def example_file example_entries)
  show ?thesis
    unfolding resolve_file_sections_def l
    by (rule exI, rule yields_followed [OF yields_file_only],
        (rule yields_followed [OF yields_pure(2) [OF v(1)]] yields_followed [OF yields_pure(2) [OF v(2)]]
          yields_followed [OF yields_pure(2) [OF v(3)]] yields_followed [OF yields_pure(2) [OF v(4)]]
          yields_followed [OF yields_pure(2) [OF v(5)]] yields_followed [OF yields_pure(2) [OF v(6)]]
          yields_followed [OF yields_note] yields_followed [OF yields_pure(1)])+, rule yields_pure)
qed

lemma example_sections: "\<exists>c. yields (resolve_sections example_context ''/home/u'') c"
proof -
  obtain a b d e f g h i j k where parts:
    "yields (resolve_ingest example_context) a" "yields (resolve_coverage example_context) b"
    "yields (resolve_attribution example_context) d" "yields (resolve_task_distribution example_context) e"
    "yields (resolve_can_run example_context) f" "yields (resolve_reconciliation example_context) g"
    "yields (resolve_backup example_context) h" "yields (resolve_drill example_context) i"
    "yields (resolve_plain example_context) j" "yields (resolve_file_sections example_context) k"
    using yields_ingest yields_coverage yields_attribution yields_task_distribution yields_can_run yields_reconciliation
      yields_backup yields_drill yields_plain yields_file_sections by metis
  show ?thesis
    unfolding resolve_sections_def
    by (rule exI, rule yields_followed [OF yields_setting], rule yields_followed [OF parts(1)],
        rule yields_followed [OF yields_sampling], rule yields_followed [OF yields_horizon],
        rule yields_followed [OF yields_schedule], rule yields_followed [OF parts(2)], rule yields_followed [OF parts(3)],
        rule yields_followed [OF parts(4)], rule yields_followed [OF parts(5)], rule yields_followed [OF parts(6)],
        rule yields_followed [OF parts(7)], rule yields_followed [OF parts(8)], rule yields_followed [OF parts(9)],
        rule yields_followed [OF parts(10)], rule yields_pure)
qed

section \<open>The claims on the example\<close>

lemma example_known: "validate_known_keys table_example d = Inr ()"
  by (simp add: validate_known_keys_def check_trackers_def toml_get_def get_table_def check_keys_def known_sections_def
      check_section_def section_keys_def get_array_def check_models_def check_aliases_def table_example_def)

abbreviation example_run where
  "example_run overrides \<equiv> resolve_config hundredths (\<lambda>_. Inr table_example) overrides home_env (Some []) ''aub.toml''"

lemma example_parse:
  "parse_file (\<lambda>_. Inr table_example) (display_path ''aub.toml'' (home_of home_env)) (Some []) = Inr (Some table_example)"
  by (simp add: parse_file_def example_known)

lemma example_resolves: "\<exists>c p. example_run [] = Inr (c, p)"
proof -
  obtain c p where "resolve_sections example_context ''/home/u'' [] = Inr (c, p)"
    using example_sections unfolding yields_def by blast
  moreover have "home_of home_env = ''/home/u''" by (simp add: home_of_def home_env_def)
  ultimately show ?thesis unfolding resolve_config_Inr example_context_def using example_parse by auto
qed

theorem settings_come_from_the_first_level_witness:
  "\<exists>c p. example_run [] = Inr (c, p) \<and> om_get p ''sampling.scheduler_tick'' = Some File"
proof -
  obtain c p where r: "example_run [] = Inr (c, p)" using example_resolves by blast
  have k: "''sampling.scheduler_tick'' \<in> set (floor_setting # scalar_settings)" by (simp add: scalar_settings_def)
  have "given (context_for hundredths [] (\<lambda>_. None) (Some table_example) ''aub.toml'') ''sampling.scheduler_tick'' \<noteq> None"
    by (simp add: given_def context_for_def example_raw)
  then show ?thesis
    using settings_come_from_the_first_level [OF r example_parse k] r
    by (simp add: home_env_def home_is_no_setting)
qed

theorem configuration_depends_on_texts_witness:
  "\<exists>c p q. example_run [] = Inr (c, p) \<and> example_run [(''sampling.scheduler_tick'', ''30s'')] = Inr (c, q)"
proof -
  obtain c p where r: "example_run [] = Inr (c, p)" using example_resolves by blast
  have "map_option fst (given (context_for hundredths [(''sampling.scheduler_tick'', ''30s'')] home_env (Some table_example) ''aub.toml'') key) =
      map_option fst (given (context_for hundredths [] home_env (Some table_example) ''aub.toml'') key)" for key
    by (cases "key = ''sampling.scheduler_tick''")
      (simp_all add: given_def context_for_def example_raw om_get_def home_env_def home_is_no_setting split: option.split)
  then show ?thesis using r configuration_depends_on_texts [OF r example_parse refl] by blast
qed

theorem resolved_configuration_is_coherent_witness:
  "\<exists>c p. example_run [] = Inr (c, p) \<and> sm_tick (cf_sampling c) < sm_lead (cf_sampling c)"
  using example_resolves resolved_configuration_is_coherent by metis

theorem written_setting_is_read_witness:
  "\<exists>c p. example_run [] = Inr (c, p) \<and> om_get p (dotted ''drill'' ''result'') \<in> {Some Flag, Some Environment, Some File}"
proof -
  obtain c p where r: "example_run [] = Inr (c, p)" using example_resolves by blast
  have "om_get p (dotted ''drill'' ''result'') \<in> {Some Flag, Some Environment, Some File}"
    by (rule written_setting_is_read [OF r, of table_example "''drill''" "[''max_age'', ''result'']" "[(''result'', TomlString ''/r'')]"])
      (simp_all add: section_keys_def table_example_def get_table_def toml_get_def)
  then show ?thesis using r by blast
qed

end
