(* ===== verification/Spec2Isabelle.thy ===== *)
theory Spec2Isabelle
  imports Calendar_Laws Durations Token_Vectors Freshness Due Retry Payload Cumulative Dedup_Laws Glob
    Watermark Sessions Meter_Coverage_Holds Meter_Coverage_Report Leases Window_Anomalies
    Rate_Card_Store_Laws Task_Identity_Laws Attribution_Report Attribution_Quality Settlement Calibration_Ledger Can_Run_Verdict Reconciliation
    Configuration_Example
begin

text \<open>
  A model of the core of agent-usage-book, a command-line program that samples the quota meters of coding-agent
  accounts, reads their transcripts, and reports usage, cost and headroom from a local SQLite database. The
  Rust crate is under \<open>src/src\<close>; the paths below are relative to it.

  \<^bold>\<open>How the parts interact.\<close>
  The sampler takes a lease on an account, asks the due evaluator whether the account may be sampled now, runs
  the retry loop around the adapter's request, and records the attempt. Freshness and meter coverage are later
  computed from those attempts alone. Transcript readers emit usage events; deduplication keeps one event per
  message, cumulative series are turned into deltas, and sessions and aliases say what each event belongs to.
  Rate cards are imported into an append-only table; valuation prices the deduplicated usage with the card in
  force. Quota windows carry the meter's readings, anomalies compare successive readings, and headroom converts
  what is left of a window into credits. Tracker records become claims on tasks; attribution lays usage over the
  claims of its session, and over the account markers of its session, and measures how much it could place.
  A calibration turns quota into credits: it is fitted from settled boundaries of a controlled experiment, activated
  in its scope only when the gate accepts the evidence it records, priced through a cost model that must be complete,
  and judged healthy or not before a report may use it. The costs of completed tasks become a distribution by group;
  the can-run verdict sets it against the headroom of every window. Reconciliation compares the meter's movement, in
  credits of the calibration, with the usage attributed to the same interval. The configuration resolves every setting
  the other parts are handed, and the model table says what a model id is priced as and which account it names.

  \<^bold>\<open>Theories and sources.\<close>
  \<^item> \<open>Prelude\<close>, \<open>Rust_Strings\<close>, \<open>Ordered_Map\<close>, \<open>Selection\<close>: the machine integers of the code as
    integers with the wrap, saturation or check written out (\<open>wrap_i64\<close>, \<open>sat_add_i64\<close>, \<open>checked_mul_i64\<close>), results
    as sums with \<open>and_then\<close> and \<open>ok_or\<close> for the question mark operator, strings as character lists with the
    standard library's splitting, trimming, parsing and printing, \<open>BTreeMap\<close> as a key-ordered association list,
    and the locale \<open>best_first\<close> for the loops that keep the best element so far, interpreted for least and
    for greatest keys.
  \<^item> \<open>Time_Model\<close>, \<open>Calendar\<close>, \<open>Calendar_Laws\<close>, \<open>Intervals\<close>: \<open>domain/time.rs\<close> and \<open>domain/interval.rs\<close>.
  \<^item> \<open>Quantities\<close>, \<open>Token_Vectors\<close>, \<open>Evidence\<close>: \<open>domain/quota.rs\<close>, \<open>credits.rs\<close>, \<open>money.rs\<close>, \<open>tokens.rs\<close>,
    \<open>rows.rs\<close>, \<open>authoritative_comparison.rs\<close> and \<open>evidence.rs\<close>.
  \<^item> \<open>Durations\<close>, \<open>Failures\<close>: \<open>config/duration.rs\<close>, \<open>domain/attempt.rs\<close>, \<open>domain/failure.rs\<close>.
  \<^item> \<open>Freshness\<close>, \<open>Due\<close>, \<open>Retry\<close>, \<open>Leases\<close>: \<open>domain/freshness.rs\<close>, \<open>meter/due.rs\<close>, \<open>meter/retry.rs\<close> and
    \<open>store/sampling_lease.rs\<close>. The retry loop runs over an abstract environment that answers each try; it recurses
    on the retries left, so it always ends. The repository implements that environment only in its tests; what the
    loop needs of one is the locale \<open>budgeted_env\<close>, which leaves calls and waits of any length open. The leases are a
    table per account, and \<open>lease_reachable\<close> is the transition system of all callers, each step with the reading of its
    own caller's clock and no relation between the readings; where a statement needs the clock not to go back, it is a
    hypothesis on the readings logged.
  \<^item> \<open>Meter_Coverage\<close> and its \<open>_Laws\<close>, \<open>_Holds\<close>, \<open>_Report\<close>: \<open>coverage.rs\<close>, the policy string of \<open>cli.rs\<close>, and the
    agreement of the holds coverage subtracts with what the due evaluator does.
  \<^item> \<open>Events\<close>, \<open>Payload\<close>, \<open>Dedup\<close>, \<open>Dedup_Laws\<close>, \<open>Cumulative\<close>, \<open>Watermark\<close>, \<open>Sessions\<close>, \<open>Glob\<close>:
    \<open>transcripts/parser.rs\<close>, \<open>dedup.rs\<close>, \<open>dedup/cumulative.rs\<close>, \<open>transcripts/watermark.rs\<close>, \<open>sessions\<close>,
    \<open>config/aliases.rs\<close>, \<open>config/layout.rs\<close>, \<open>domain/glob.rs\<close>.
  \<^item> \<open>Windows\<close>, \<open>Window_Anomalies\<close>: \<open>domain/window.rs\<close>, \<open>advice/headroom.rs\<close>, \<open>domain/window_anomaly.rs\<close>.
  \<^item> \<open>Rate_Cards\<close>, \<open>Rate_Book\<close>, \<open>Rate_Book_Laws\<close>, \<open>Rate_Card_Store\<close>, \<open>Rate_Card_Store_Laws\<close>, \<open>Valuation\<close>,
    \<open>Valuation_Laws\<close>, \<open>Valuation_Totals\<close>: \<open>domain/rate_card.rs\<close>, \<open>rate_book.rs\<close>, \<open>store/rate_card.rs\<close> with its
    migrations, and \<open>valuation.rs\<close>.
  \<^item> \<open>Task_Identity\<close>, \<open>Task_Identity_Laws\<close>, \<open>Segments\<close>, \<open>Segments_Laws\<close>, \<open>Attribution_Report\<close>: \<open>attribution.rs\<close>,
    \<open>attribution/segment.rs\<close>, \<open>attribution/report.rs\<close>. \<open>Buckets\<close> holds what every keyed sum of usage shares, as the
    locale \<open>bucket_sum\<close>.
  \<^item> \<open>Account_Segments\<close>, \<open>Attribution_Quality\<close>: \<open>attribution/account_segment.rs\<close>, \<open>attribution/quality.rs\<close>.
  \<^item> \<open>Settlement\<close>, \<open>Provenance\<close>, \<open>Contamination\<close>, \<open>Activation\<close>: \<open>calibration/settlement.rs\<close>,
    \<open>domain/provenance.rs\<close>, \<open>calibration/contamination.rs\<close>, \<open>calibration/health.rs\<close> and the gate of
    \<open>calibration/activation.rs\<close>.
  \<^item> \<open>Cost_Models\<close>, \<open>Cost_Model_Store\<close>, \<open>Calibration_Ledger\<close>: \<open>store/cost_model.rs\<close>, \<open>cost_model.rs\<close>,
    \<open>store/calibration.rs\<close>, \<open>store/calibration_multivariate_result.rs\<close>, their migrations, and the health the commands
    of \<open>cli.rs\<close> show. What the two append-only ledgers share is the locale \<open>lifecycle_history\<close> of theory
    \<open>Lifecycle_History\<close>; \<open>cost_step\<close> and \<open>ledger_step\<close> are the transition systems of all callers. A step of the
    calibration ledger is labelled by the operation asked for, \<open>ledger_run\<close> keeps the list of the accepted ones, and the
    activation calls in it answer to the ledger's events one for one. The evidence of a request is a finite set, read
    in ascending order.
  \<^item> \<open>Task_History\<close>, \<open>Can_Run_Verdict\<close>, \<open>Reconciliation\<close>: \<open>advice/historical_distribution.rs\<close>,
    \<open>advice/verdict.rs\<close> and \<open>reconciliation.rs\<close>.
  \<^item> \<open>Model_Table\<close>, \<open>Configuration_File\<close>, \<open>Configuration\<close>: \<open>config/models.rs\<close> and \<open>config/mod.rs\<close>, the file's tables
    and the resolution, a step that fails or returns a value and threads the record of the sources.
    \<open>Configuration_Laws\<close> follows that record and the values through the steps, \<open>Configuration_Checks\<close> collects what a
    resolved configuration satisfies, \<open>Configuration_Example\<close> resolves a small file.

  \<^bold>\<open>What the lemmas show.\<close>
  Deduplication is an accounting identity: every occurrence is kept, replayed, collided or contradicted. The two
  scheduling decisions are stable and consistent with each other and with coverage. A lease of one account
  never stands when the next is granted, and without a clock that goes back the two do not overlap. The walks of the code that select a card or a window are characterised by the locale's
  first-best element; the valuation of a batch refines an order-free total. Imported cards are unambiguous,
  survive storage, and are found again. The interval lists of attribution refine the declarative reading of the claims
  and markers, and no usage is lost or counted twice on the way from events to tasks, accounts and the quality
  metric. A settled boundary rests on a plateau and later readings do not move it; a changed byte of the evidence
  changes its hash. Whatever calibration is in force was put there by a call whose own request passed the activation gate, the activations of a scope form one
  chain when their instants increase, and the past of both ledgers stays answerable. The references of the task history
  are quantiles of the eligible costs and the verdict rests on them at the window with the least margin, as long as its subtractions fit the machine; the residual
  interval holds every residual the readings, the coefficient and the timing admit. A resolved configuration satisfies
  what the scheduler, the freshness decision and the task history assume, its sources are recorded truthfully, and its
  values depend on the winning texts alone. Printers and parsers are inverse on the ranges stated. Where the code
  deviates from what it says, a theorem exhibits the input (\<open>parse_rfc3339_wraps\<close>, \<open>glob_match_star_in_text\<close>,
  \<open>huge_cadence_is_always_due\<close>, \<open>handoff_day_has_two_cards\<close> and others).

  \<^bold>\<open>Conventions and bounds.\<close>
  Arithmetic is that of a release build: overflow of plain operators wraps, \<open>as\<close> casts truncate. Strings are ASCII
  where the code inspects characters (case folding, white space, digits). Hash functions and the TOML reader are
  parameters; the currency of a valuation, a marker type in the code, is its text. SQLite tables are lists or
  key-ordered maps of rows; the checks, triggers and unique indices of the migrations are guards of the insert.
  Loops that the code bounds by its data are structural recursions; the wildcard matcher, whose backtracking does not
  shrink its arguments, is a partial function, and its theorem states that it returns on texts without a star. No fuel
  is used. The verdict's product with its float multiple, and the reading, printing and ranges of the configuration's
  floats, are arguments of the definitions, and no law of them is assumed.

  \<^bold>\<open>Not modelled.\<close>
  Command-line parsing and dispatch, rendering and JSON, decoding of provider payloads, HTTP, credential files and
  locks, file walking, backup and restore, the doctor's checks, reports over the store, projection, retention, the
  controlled experiment and its observations, the migration runner and the remaining SQLite statements. The floating
  point of fitting, of percentages and of burn rates has no faithful counterpart in the libraries used here.
\<close>

end
